(* ===== verification/GoPrelude.thy ===== *)
theory GoPrelude
  imports Complex_Main "HOL-Library.Sublist" "HOL-Library.Char_ord" "HOL-Library.List_Lexorder"
    "HOL-Library.Multiset"
begin

text \<open>
  What the component theories share: the Go values the program computes with
  (\<open>float64\<close>, byte strings, instants and durations), the result type of a fallible
  operation, the schedule of storage faults, and the generic lemmas on them.

  \<^item> \<open>float64\<close> keeps the special values of IEEE 754 (infinities and NaN) with the
    comparisons Go gives them; finite arithmetic is exact, so rounding is the one
    aspect of a double that is not modelled.
  \<^item> A \<open>string\<close> is the list of its UTF-8 bytes, which is what Go's \<open>len\<close>, slicing
    and \<open>strings\<close> package count.
  \<^item> An instant is an \<open>int\<close> of nanoseconds, a duration too; a calendar day is 24 hours
    (server zones without daylight-saving changes).
  \<^item> A storage call may fail: \<open>io\<close> takes the next entry of a schedule of faults, so
    a theorem over every schedule covers every pattern of failures.
\<close>

section \<open>Hint collections\<close>

named_theorems float_simps "evaluation of float64 operations"
named_theorems leads_intros "what operations leave unchanged, by the constructs of their bodies"

section \<open>float64\<close>

datatype float64 = Fin rat | PInf | NInf | NaN

fun float_add :: "float64 \<Rightarrow> float64 \<Rightarrow> float64" where
  "float_add (Fin a) (Fin b) = Fin (a + b)"
| "float_add NaN _ = NaN"
| "float_add _ NaN = NaN"
| "float_add PInf NInf = NaN"
| "float_add NInf PInf = NaN"
| "float_add PInf _ = PInf"
| "float_add _ PInf = PInf"
| "float_add NInf _ = NInf"
| "float_add _ NInf = NInf"

fun float_neg :: "float64 \<Rightarrow> float64" where
  "float_neg (Fin a) = Fin (- a)"
| "float_neg PInf = NInf"
| "float_neg NInf = PInf"
| "float_neg NaN = NaN"

definition float_inf_times :: "bool \<Rightarrow> rat \<Rightarrow> float64" where
  "float_inf_times pos a = (if a = 0 then NaN else if (0 < a) = pos then PInf else NInf)"

fun float_mul :: "float64 \<Rightarrow> float64 \<Rightarrow> float64" where
  "float_mul (Fin a) (Fin b) = Fin (a * b)"
| "float_mul NaN _ = NaN"
| "float_mul _ NaN = NaN"
| "float_mul (Fin a) PInf = float_inf_times True a"
| "float_mul (Fin a) NInf = float_inf_times False a"
| "float_mul PInf (Fin b) = float_inf_times True b"
| "float_mul NInf (Fin b) = float_inf_times False b"
| "float_mul PInf PInf = PInf"
| "float_mul NInf NInf = PInf"
| "float_mul PInf NInf = NInf"
| "float_mul NInf PInf = NInf"

fun float_le :: "float64 \<Rightarrow> float64 \<Rightarrow> bool" where
  "float_le (Fin a) (Fin b) = (a \<le> b)"
| "float_le NaN _ = False"
| "float_le _ NaN = False"
| "float_le NInf _ = True"
| "float_le _ PInf = True"
| "float_le PInf _ = False"
| "float_le _ NInf = False"

fun float_lt :: "float64 \<Rightarrow> float64 \<Rightarrow> bool" where
  "float_lt (Fin a) (Fin b) = (a < b)"
| "float_lt NaN _ = False"
| "float_lt _ NaN = False"
| "float_lt PInf _ = False"
| "float_lt _ NInf = False"
| "float_lt NInf _ = True"
| "float_lt _ PInf = True"

text \<open>
  The operators are the program's: \<open>\<le>\<close> and \<open><\<close> are Go's comparisons, false when an
  operand is NaN, and no linear order.
\<close>

instantiation float64 :: "{zero, one, plus, minus, uminus, times, ord}"
begin

definition "0 = Fin 0"

definition "1 = Fin 1"

definition "x + y = float_add x y"

definition "- x = float_neg x"

definition "x - y = float_add x (float_neg y)"

definition "x * y = float_mul x y"

definition "x \<le> y = float_le x y"

definition "x < y = float_lt x y"

instance ..

end

lemmas float_defs = zero_float64_def one_float64_def plus_float64_def uminus_float64_def
  minus_float64_def times_float64_def less_eq_float64_def less_float64_def

lemma Fin_add [simp, float_simps]: "Fin a + Fin b = Fin (a + b)"
  by (simp add: float_defs)

lemma Fin_diff [simp, float_simps]: "Fin a - Fin b = Fin (a - b)"
  by (simp add: float_defs)

lemma Fin_neg [simp, float_simps]: "- Fin a = Fin (- a)"
  by (simp add: float_defs)

lemma Fin_mul [simp, float_simps]: "Fin a * Fin b = Fin (a * b)"
  by (simp add: float_defs)

lemma Fin_le [simp, float_simps]: "Fin a \<le> Fin b \<longleftrightarrow> a \<le> b"
  by (simp add: float_defs)

lemma Fin_lt [simp, float_simps]: "Fin a < Fin b \<longleftrightarrow> a < b"
  by (simp add: float_defs)

lemma NaN_cmp [simp, float_simps]:
  "\<not> NaN \<le> x" "\<not> x \<le> NaN" "\<not> NaN < x" "\<not> x < NaN" for x :: float64
  by (cases x; simp add: float_defs)+

lemma Inf_cmp [simp, float_simps]:
  "PInf \<le> Fin a \<longleftrightarrow> False" "Fin a \<le> PInf" "NInf \<le> Fin a" "Fin a \<le> NInf \<longleftrightarrow> False"
  "PInf < Fin a \<longleftrightarrow> False" "Fin a < PInf" "NInf < Fin a" "Fin a < NInf \<longleftrightarrow> False"
  by (simp_all add: float_defs)

lemma Fin_zero: "(0 :: float64) = Fin 0"
  by (simp add: float_defs)

lemma Fin_one: "(1 :: float64) = Fin 1"
  by (simp add: float_defs)

definition of_count :: "int \<Rightarrow> float64" where
  "of_count n = Fin (of_int n)"

definition float_abs :: "float64 \<Rightarrow> float64" where
  "float_abs x = (case x of Fin a \<Rightarrow> Fin \<bar>a\<bar> | NInf \<Rightarrow> PInf | y \<Rightarrow> y)"

definition is_inf :: "float64 \<Rightarrow> bool" where
  "is_inf x \<longleftrightarrow> x = PInf \<or> x = NInf"

definition is_nan :: "float64 \<Rightarrow> bool" where
  "is_nan x \<longleftrightarrow> x = NaN"

text \<open>\<open>math.Min\<close>: NaN if either operand is NaN, unless the other is \<open>NInf\<close>.\<close>

definition float_min :: "float64 \<Rightarrow> float64 \<Rightarrow> float64" where
  "float_min x y =
     (if x = NInf \<or> y = NInf then NInf
      else if x = NaN \<or> y = NaN then NaN
      else if x < y then x else y)"

text \<open>A finite amount that is not negative: what prices and token counts are.\<close>

definition fin_nonneg :: "float64 \<Rightarrow> bool" where
  "fin_nonneg x = (case x of Fin a \<Rightarrow> 0 \<le> a | _ \<Rightarrow> False)"

lemma fin_nonneg_Fin [simp]: "fin_nonneg (Fin a) \<longleftrightarrow> 0 \<le> a"
  by (simp add: fin_nonneg_def)

lemma fin_nonnegE [elim]:
  assumes "fin_nonneg x"
  obtains a where "x = Fin a" and "0 \<le> a"
  using assms by (cases x) (auto simp: fin_nonneg_def)

lemma fin_nonneg_zero [simp, intro]: "fin_nonneg 0"
  by (simp add: Fin_zero)

lemma fin_nonneg_one [simp, intro]: "fin_nonneg 1"
  by (simp add: Fin_one)

lemma fin_nonneg_add [intro]: "fin_nonneg x \<Longrightarrow> fin_nonneg y \<Longrightarrow> fin_nonneg (x + y)"
  by (elim fin_nonnegE) simp

lemma fin_nonneg_mul [intro]: "fin_nonneg x \<Longrightarrow> fin_nonneg y \<Longrightarrow> fin_nonneg (x * y)"
  by (elim fin_nonnegE) simp

lemma fin_nonneg_of_count [simp]: "fin_nonneg (of_count n) \<longleftrightarrow> 0 \<le> n"
  by (simp add: of_count_def)

lemma not_neg_fin_nonneg: "fin_nonneg x \<Longrightarrow> \<not> x < 0"
  by (elim fin_nonnegE) (simp add: Fin_zero)

lemma of_count_add: "of_count (m + n) = of_count m + of_count n"
  by (simp add: of_count_def)

section \<open>Strings\<close>

definition HasPrefix :: "string \<Rightarrow> string \<Rightarrow> bool" where
  "HasPrefix s p = prefix p s"

definition HasSuffix :: "string \<Rightarrow> string \<Rightarrow> bool" where
  "HasSuffix s p = suffix p s"

definition TrimPrefix :: "string \<Rightarrow> string \<Rightarrow> string" where
  "TrimPrefix s p = (if HasPrefix s p then drop (length p) s else s)"

definition TrimSuffix :: "string \<Rightarrow> string \<Rightarrow> string" where
  "TrimSuffix s p = (if HasSuffix s p then take (length s - length p) s else s)"

definition CutPrefix :: "string \<Rightarrow> string \<Rightarrow> string option" where
  "CutPrefix s p = (if HasPrefix s p then Some (drop (length p) s) else None)"

definition Contains :: "string \<Rightarrow> string \<Rightarrow> bool" where
  "Contains s t = sublist t s"

text \<open>Case mapping of the ASCII letters; bytes of other characters are left alone.\<close>

definition lower_char :: "char \<Rightarrow> char" where
  "lower_char c = (let n = of_char c :: nat in if 65 \<le> n \<and> n \<le> 90 then char_of (n + 32) else c)"

definition ToLower :: "string \<Rightarrow> string" where
  "ToLower s = map lower_char s"

definition upper_char :: "char \<Rightarrow> char" where
  "upper_char c = (let n = of_char c :: nat in if 97 \<le> n \<and> n \<le> 122 then char_of (n - 32) else c)"

definition ToUpper :: "string \<Rightarrow> string" where
  "ToUpper s = map upper_char s"

definition EqualFold :: "string \<Rightarrow> string \<Rightarrow> bool" where
  "EqualFold s t \<longleftrightarrow> ToLower s = ToLower t"

lemma lower_char_idem [simp]: "lower_char (lower_char c) = lower_char c"
  by (auto simp: lower_char_def Let_def)

lemma ToLower_idem [simp]: "ToLower (ToLower s) = ToLower s"
  by (simp add: ToLower_def)

lemma ToLower_eq_Nil [simp]: "ToLower s = [] \<longleftrightarrow> s = []"
  by (simp add: ToLower_def)

text \<open>
  \<open>strings.TrimSpace\<close>: \<open>space_front\<close> is the number of bytes of a white-space character
  at the front of a byte list (0 if there is none), over the Unicode White_Space
  characters in their UTF-8 encodings; \<open>space_back\<close> the same at the back, on the
  reversed bytes.
\<close>

definition ascii_space :: "nat \<Rightarrow> bool" where
  "ascii_space n \<longleftrightarrow> n = 32 \<or> (9 \<le> n \<and> n \<le> 13)"

definition wide_space :: "nat \<Rightarrow> nat \<Rightarrow> nat \<Rightarrow> bool" where
  "wide_space a b c \<longleftrightarrow>
     (a, b, c) = (225, 154, 128) \<or> (a, b, c) = (226, 129, 159) \<or> (a, b, c) = (227, 128, 128)
     \<or> a = 226 \<and> b = 128 \<and> (128 \<le> c \<and> c \<le> 138 \<or> c = 168 \<or> c = 169 \<or> c = 175)"

fun space_front :: "nat list \<Rightarrow> nat" where
  "space_front [] = 0"
| "space_front (a # bs) =
     (if ascii_space a then 1
      else case bs of [] \<Rightarrow> 0
           | b # cs \<Rightarrow> if a = 194 \<and> (b = 133 \<or> b = 160) then 2
                      else case cs of [] \<Rightarrow> 0 | c # _ \<Rightarrow> if wide_space a b c then 3 else 0)"

fun space_back :: "nat list \<Rightarrow> nat" where
  "space_back [] = 0"
| "space_back (c # bs) =
     (if ascii_space c then 1
      else case bs of [] \<Rightarrow> 0
           | b # as \<Rightarrow> if b = 194 \<and> (c = 133 \<or> c = 160) then 2
                      else case as of [] \<Rightarrow> 0 | a # _ \<Rightarrow> if wide_space a b c then 3 else 0)"

definition byte_list :: "string \<Rightarrow> nat list" where
  "byte_list s = map of_char s"

lemma space_front_nonempty: "0 < space_front (byte_list s) \<Longrightarrow> 0 < length s"
  by (cases s) (auto simp: byte_list_def)

lemma space_back_nonempty: "0 < space_back (byte_list s) \<Longrightarrow> 0 < length s"
  by (cases s) (auto simp: byte_list_def)

function trim_front :: "string \<Rightarrow> string" where
  "trim_front s = (let n = space_front (byte_list s) in if n = 0 then s else trim_front (drop n s))"
  by pat_completeness auto
termination
  by (relation "measure length") (auto intro!: diff_less dest: space_front_nonempty)

function trim_back :: "string \<Rightarrow> string" where
  "trim_back r = (let n = space_back (byte_list r) in if n = 0 then r else trim_back (drop n r))"
  by pat_completeness auto
termination
  by (relation "measure length") (auto intro!: diff_less dest: space_back_nonempty)

declare trim_front.simps [simp del] trim_back.simps [simp del]

definition TrimSpace :: "string \<Rightarrow> string" where
  "TrimSpace s = rev (trim_back (rev (trim_front s)))"

lemma trim_front_length: "length (trim_front s) \<le> length s"
proof (induction s rule: trim_front.induct)
  case (1 s)
  then show ?case by (subst trim_front.simps) (fastforce simp: Let_def)
qed

lemma trim_back_length: "length (trim_back s) \<le> length s"
proof (induction s rule: trim_back.induct)
  case (1 s)
  then show ?case by (subst trim_back.simps) (fastforce simp: Let_def)
qed

lemma TrimSpace_length: "length (TrimSpace s) \<le> length s"
  using trim_back_length [of "rev (trim_front s)"] trim_front_length [of s]
  by (simp add: TrimSpace_def)

text \<open>Printable ASCII without the space: trimming leaves such a string alone.\<close>

definition graphic :: "string \<Rightarrow> bool" where
  "graphic s \<longleftrightarrow> list_all (\<lambda>c. 33 \<le> (of_char c :: nat) \<and> (of_char c :: nat) \<le> 126) s"

lemma graphic_rev [simp]: "graphic (rev s) = graphic s"
  by (simp add: graphic_def list_all_iff)

lemma space_front_graphic: "graphic s \<Longrightarrow> space_front (byte_list s) = 0"
  by (cases s rule: list.exhaust)
    (auto simp: graphic_def byte_list_def ascii_space_def wide_space_def split: list.splits)

lemma space_back_graphic: "graphic s \<Longrightarrow> space_back (byte_list s) = 0"
  by (cases s rule: list.exhaust)
    (auto simp: graphic_def byte_list_def ascii_space_def wide_space_def split: list.splits)

lemma TrimSpace_graphic: "graphic s \<Longrightarrow> TrimSpace s = s"
  by (simp add: TrimSpace_def trim_front.simps [of s] trim_back.simps [of "rev s"]
      space_front_graphic space_back_graphic)

lemma TrimSpace_Nil [simp]: "TrimSpace [] = []"
  by (rule TrimSpace_graphic) (simp add: graphic_def)

text \<open>A printable character is never trimmed.\<close>

lemma space_front_skip: "c \<in> set (take (space_front (byte_list s)) s) \<Longrightarrow> \<not> graphic [c]"
  by (cases s; cases "tl s"; cases "tl (tl s)") (auto simp: graphic_def byte_list_def ascii_space_def wide_space_def split: if_splits)

lemma space_back_skip: "c \<in> set (take (space_back (byte_list s)) s) \<Longrightarrow> \<not> graphic [c]"
  by (cases s; cases "tl s"; cases "tl (tl s)") (auto simp: graphic_def byte_list_def ascii_space_def wide_space_def split: if_splits)

lemma set_take_drop: "x \<in> set s \<Longrightarrow> x \<notin> set (take n s) \<Longrightarrow> x \<in> set (drop n s)"
  by (metis UnE append_take_drop_id set_append)

lemma trim_front_keeps: "c \<in> set s \<Longrightarrow> graphic [c] \<Longrightarrow> c \<in> set (trim_front s)"
proof (induction s rule: trim_front.induct)
  case (1 s)
  then show ?case
    using space_front_skip [of c s] by (subst trim_front.simps) (auto simp: Let_def intro: set_take_drop)
qed

lemma trim_back_keeps: "c \<in> set s \<Longrightarrow> graphic [c] \<Longrightarrow> c \<in> set (trim_back s)"
proof (induction s rule: trim_back.induct)
  case (1 s)
  then show ?case
    using space_back_skip [of c s] by (subst trim_back.simps) (auto simp: Let_def intro: set_take_drop)
qed

lemma TrimSpace_nonempty: "c \<in> set s \<Longrightarrow> graphic [c] \<Longrightarrow> TrimSpace s \<noteq> ''''"
  using trim_back_keeps [of c "rev (trim_front s)"] trim_front_keeps [of c s] by (auto simp: TrimSpace_def)

text \<open>Trimming twice is trimming once.\<close>

lemma trim_front_done: "space_front (byte_list (trim_front s)) = 0"
proof (induction s rule: trim_front.induct)
  case (1 s)
  then show ?case by (subst trim_front.simps) (auto simp: Let_def)
qed

lemma trim_back_done: "space_back (byte_list (trim_back s)) = 0"
proof (induction s rule: trim_back.induct)
  case (1 s)
  then show ?case by (subst trim_back.simps) (auto simp: Let_def)
qed

lemma trim_back_drop: "\<exists>k. trim_back s = drop k s"
proof (induction s rule: trim_back.induct)
  case (1 s)
  show ?case
  proof (cases "space_back (byte_list s) = 0")
    case True
    then show ?thesis by (subst trim_back.simps) (auto simp: Let_def intro: exI [of _ 0])
  next
    case False
    then obtain k where "trim_back (drop (space_back (byte_list s)) s) = drop k (drop (space_back (byte_list s)) s)" using 1 by blast
    then show ?thesis using False by (subst trim_back.simps) (auto simp: Let_def)
  qed
qed

lemma space_front_take: "space_front (byte_list s) = 0 \<Longrightarrow> space_front (byte_list (take n s)) = 0"
  by (cases s; cases "tl s"; cases "tl (tl s)"; cases n; cases "n - 1"; cases "n - 2")
    (auto simp: byte_list_def split: if_splits)

lemma TrimSpace_TrimSpace [simp]: "TrimSpace (TrimSpace s) = TrimSpace s"
proof -
  obtain k where k: "trim_back (rev (trim_front s)) = drop k (rev (trim_front s))" using trim_back_drop by blast
  have t: "TrimSpace s = take (length (trim_front s) - k) (trim_front s)" by (simp add: TrimSpace_def k rev_drop)
  have "space_front (byte_list (TrimSpace s)) = 0" unfolding t by (intro space_front_take trim_front_done)
  then have f: "trim_front (TrimSpace s) = TrimSpace s" by (subst trim_front.simps) simp
  have "space_back (byte_list (rev (TrimSpace s))) = 0" using trim_back_done by (simp add: TrimSpace_def)
  then have "trim_back (rev (TrimSpace s)) = rev (TrimSpace s)" by (subst trim_back.simps) simp
  then show ?thesis by (subst TrimSpace_def) (simp add: f)
qed

text \<open>Text outside ASCII is written as its UTF-8 bytes; \<open>itoa\<close> is \<open>strconv.FormatInt\<close> to base 10.\<close>

definition utf8 :: "nat list \<Rightarrow> string" where
  "utf8 ns = map char_of ns"

fun digits :: "nat \<Rightarrow> string" where
  "digits n = (if n < 10 then [char_of (48 + n)] else digits (n div 10) @ [char_of (48 + n mod 10)])"

declare digits.simps [simp del]

definition itoa :: "int \<Rightarrow> string" where
  "itoa n = (if n < 0 then CHR 0x2D # digits (nat (- n)) else digits (nat n))"

section \<open>Time\<close>

type_synonym instant = int
type_synonym duration = int

abbreviation (input) seconds :: "int \<Rightarrow> duration" where
  "seconds n \<equiv> n * 1000000000"

abbreviation (input) minutes :: "int \<Rightarrow> duration" where
  "minutes n \<equiv> n * 60000000000"

abbreviation (input) hours :: "int \<Rightarrow> duration" where
  "hours n \<equiv> n * 3600000000000"

abbreviation (input) days :: "int \<Rightarrow> duration" where
  "days n \<equiv> n * 86400000000000"

text \<open>\<open>t.AddDate(0, 0, n)\<close> and the midnight of \<open>t\<close> in a zone of offset \<open>tz\<close>.\<close>

definition AddDays :: "instant \<Rightarrow> int \<Rightarrow> instant" where
  "AddDays t n = t + days n"

definition start_of_day :: "duration \<Rightarrow> instant \<Rightarrow> instant" where
  "start_of_day tz t = t - (t + tz) mod days 1"

lemma start_of_day_le: "start_of_day tz t \<le> t"
  by (simp add: start_of_day_def)

lemma start_of_day_gt: "t - days 1 < start_of_day tz t"
  by (simp add: start_of_day_def)

lemma start_of_day_idem: "start_of_day tz (start_of_day tz t) = start_of_day tz t"
proof -
  have "t - (t + tz) mod days 1 + tz = (t + tz) - (t + tz) mod days 1" by simp
  then have "(t - (t + tz) mod days 1 + tz) mod days 1 = 0"
    by (simp only: minus_mod_eq_mult_div mod_mult_self1_is_0)
  then show ?thesis by (simp only: start_of_day_def)
qed

text \<open>Go's integer conversion and division truncate towards zero.\<close>

fun trunc_div :: "int \<Rightarrow> int \<Rightarrow> int" where
  "trunc_div x y =
     (let q = abs x div abs y in if (x < 0) = (y < 0) then q else - q)"

lemma trunc_div_pos: "\<lbrakk>x \<ge> 0; y > 0\<rbrakk> \<Longrightarrow> trunc_div x y = x div y"
  by simp

declare trunc_div.simps [simp del]

section \<open>Results and storage faults\<close>

type_synonym faults = "bool list"

text \<open>The next storage call fails if the schedule says so; past its end none fails.\<close>

fun io :: "faults \<Rightarrow> bool \<times> faults" where
  "io [] = (False, [])"
| "io (b # bs) = (b, bs)"

lemma io_Nil [simp]: "io [] = (False, [])"
  by simp

text \<open>
  The result of a fallible operation on a state is an element of a sum and the state; \<open>and_then\<close>
  continues after a success. A transaction begins and ends with a storage call \<open>call\<close>; if its
  body or its end fails, \<open>roll s s'\<close> is the state \<open>s'\<close> with what is rolled back taken from \<open>s\<close>.
\<close>

definition and_then :: "('e + 'a) \<times> 's \<Rightarrow> ('a \<Rightarrow> 's \<Rightarrow> ('e + 'b) \<times> 's) \<Rightarrow> ('e + 'b) \<times> 's" where
  "and_then r f = (case r of (Inl e, s) \<Rightarrow> (Inl e, s) | (Inr a, s) \<Rightarrow> f a s)"

lemma and_then_simps [simp]: "and_then (Inl e, s) f = (Inl e, s)" "and_then (Inr a, s) f = f a s"
  by (simp_all add: and_then_def)

lemma and_then_InrE:
  assumes "and_then r f = (Inr b, s)"
  obtains a s' where "r = (Inr a, s')" and "f a s' = (Inr b, s)"
  using assms by (cases r; cases "fst r") auto

definition run_tx ::
    "('s \<Rightarrow> bool \<times> 's) \<Rightarrow> 'e \<Rightarrow> ('s \<Rightarrow> 's \<Rightarrow> 's) \<Rightarrow> ('s \<Rightarrow> ('e + 'a) \<times> 's) \<Rightarrow> 's \<Rightarrow> ('e + 'a) \<times> 's" where
  "run_tx call err roll body s0 =
     (let (fail, s) = call s0
      in if fail then (Inl err, s)
         else case body s of
                (Inl e, s') \<Rightarrow> (Inl e, roll s s')
              | (Inr a, s') \<Rightarrow> let (fail, s'') = call s' in if fail then (Inl err, roll s s'') else (Inr a, s''))"

lemma run_tx_result:
  assumes "run_tx call err roll body s0 = (r, t)"
  obtains (not_begun) e where "r = Inl e" and "call s0 = (True, t)"
    | (rolled_back) e s s' where "r = Inl e" and "call s0 = (False, s)" and "t = roll s s'"
    | (committed) a s s' where "r = Inr a" and "call s0 = (False, s)" and "body s = (Inr a, s')" and "call s' = (False, t)"
proof -
  obtain x s where s: "call s0 = (x, s)" by fastforce
  obtain q s' where s': "body s = (q, s')" by fastforce
  obtain y s'' where s'': "call s' = (y, s'')" by fastforce
  show thesis
  proof (cases x)
    case True
    with assms s have "r = Inl err" "call s0 = (True, t)" by (auto simp: run_tx_def)
    then show ?thesis by (rule not_begun)
  next
    case False
    show ?thesis
    proof (cases q)
      case (Inl e)
      with assms s s' False have "r = Inl e" "call s0 = (False, s)" "t = roll s s'" by (auto simp: run_tx_def)
      then show ?thesis by (rule rolled_back)
    next
      case (Inr a)
      with assms s s' s'' False have rt: "(r, t) = (if y then (Inl err, roll s s'') else (Inr a, s''))" by (simp add: run_tx_def)
      show ?thesis
      proof (cases y)
        case True
        with rt s False have "r = Inl err" "call s0 = (False, s)" "t = roll s s''" by auto
        then show ?thesis by (rule rolled_back)
      next
        case 2: False
        with rt s s' s'' Inr False have "r = Inr a" "call s0 = (False, s)" "body s = (Inr a, s')" "call s' = (False, t)" by auto
        then show ?thesis by (rule committed)
      qed
    qed
  qed
qed

text \<open>
  What a call leaves alone: \<open>leads R s x\<close> if the state of the result \<open>x\<close> is related to \<open>s\<close>. The rules follow
  the constructs that results are built from, so that \<open>intro\<close> decomposes the body of an operation.
\<close>

definition leads :: "('s \<Rightarrow> 's \<Rightarrow> bool) \<Rightarrow> 's \<Rightarrow> 'a \<times> 's \<Rightarrow> bool" where
  "leads R s x \<longleftrightarrow> R s (snd x)"

lemma leads_pair [leads_intros]: "R s0 s \<Longrightarrow> leads R s0 (a, s)"
  by (simp add: leads_def)

lemma leads_and_then [leads_intros]:
  "leads R s0 x \<Longrightarrow> (\<And>a s. x = (Inr a, s) \<Longrightarrow> R s0 s \<Longrightarrow> leads R s0 (g a s)) \<Longrightarrow> leads R s0 (and_then x g)"
  by (cases x; cases "fst x") (auto simp: leads_def)

lemma leads_case_prod [leads_intros]:
  "leads R s0 x \<Longrightarrow> (\<And>r s. x = (r, s) \<Longrightarrow> R s0 s \<Longrightarrow> leads R s0 (h r s)) \<Longrightarrow> leads R s0 (case x of (r, s) \<Rightarrow> h r s)"
  by (cases x) (auto simp: leads_def)

lemma leads_case_sum [leads_intros]:
  "(\<And>e. r = Inl e \<Longrightarrow> leads R s0 (f e)) \<Longrightarrow> (\<And>a. r = Inr a \<Longrightarrow> leads R s0 (g a)) \<Longrightarrow>
   leads R s0 (case r of Inl e \<Rightarrow> f e | Inr a \<Rightarrow> g a)"
  by (cases r) auto

lemma leads_case_option [leads_intros]:
  "(v = None \<Longrightarrow> leads R s0 f) \<Longrightarrow> (\<And>a. v = Some a \<Longrightarrow> leads R s0 (g a)) \<Longrightarrow>
   leads R s0 (case v of None \<Rightarrow> f | Some a \<Rightarrow> g a)"
  by (cases v) auto

lemma leads_case_list [leads_intros]:
  "(v = [] \<Longrightarrow> leads R s0 f) \<Longrightarrow> (\<And>a as. v = a # as \<Longrightarrow> leads R s0 (g a as)) \<Longrightarrow>
   leads R s0 (case v of [] \<Rightarrow> f | a # as \<Rightarrow> g a as)"
  by (cases v) auto

lemma leads_case_bool [leads_intros]:
  "(b \<Longrightarrow> leads R s0 f) \<Longrightarrow> (\<not> b \<Longrightarrow> leads R s0 g) \<Longrightarrow> leads R s0 (case b of True \<Rightarrow> f | False \<Rightarrow> g)"
  by (cases b) auto

lemma leads_if [leads_intros]:
  "(b \<Longrightarrow> leads R s0 f) \<Longrightarrow> (\<not> b \<Longrightarrow> leads R s0 g) \<Longrightarrow> leads R s0 (if b then f else g)"
  by simp

lemma leads_result: "x = (r, s) \<Longrightarrow> leads R s0 x \<Longrightarrow> R s0 s"
  by (simp add: leads_def)

text \<open>The contract of relations between states that the frames of operations are stated with.\<close>

locale state_frame =
  fixes R :: "'s \<Rightarrow> 's \<Rightarrow> bool"
  assumes frame_refl: "R s s" and frame_trans: "R a b \<Longrightarrow> R b c \<Longrightarrow> R a c"
begin

lemma frame_if [leads_intros]: "(b \<Longrightarrow> R s0 s) \<Longrightarrow> (\<not> b \<Longrightarrow> R s0 t) \<Longrightarrow> R s0 (if b then s else t)"
  by simp

lemma leads_trans: "R s0 s \<Longrightarrow> leads R s x \<Longrightarrow> leads R s0 x"
  by (auto simp: leads_def intro: frame_trans)

lemma run_tx_leads:
  assumes "R s0 s" and "\<And>s. leads R s (call s)" and "\<And>s. leads R s (body s)" and "\<And>s s'. R s s' \<Longrightarrow> R s (roll s s')"
  shows "leads R s0 (run_tx call err roll body s)"
proof -
  obtain b s1 where c: "call s = (b, s1)" by fastforce
  obtain r s2 where d: "body s1 = (r, s2)" by fastforce
  obtain b' s3 where e: "call s2 = (b', s3)" by fastforce
  have "R s s1" "R s1 s2" "R s2 s3" using assms(2)[of s] assms(3)[of s1] assms(2)[of s2] c d e by (simp_all add: leads_def)
  then have "R s0 s1" "R s1 s3" using assms(1) frame_trans by blast+
  with \<open>R s1 s2\<close> assms(4) show ?thesis
    by (auto simp: run_tx_def leads_def c d e split: sum.splits intro: frame_trans)
qed

end

text \<open>Rounding to a number of decimals, halves away from zero.\<close>

definition round_decimal :: "rat \<Rightarrow> nat \<Rightarrow> rat" where
  "round_decimal v n =
     (let x = v * 10 ^ n in of_int (if x < 0 then - \<lfloor>- x + 1 / 2\<rfloor> else \<lfloor>x + 1 / 2\<rfloor>) / 10 ^ n)"

lemma round_decimal_le: "0 \<le> v \<Longrightarrow> round_decimal v n \<le> v + 1 / (2 * 10 ^ n)"
proof -
  assume v: "0 \<le> v"
  have "of_int \<lfloor>v * 10 ^ n + 1 / 2\<rfloor> \<le> v * 10 ^ n + 1 / 2" by (rule of_int_floor_le)
  then have "round_decimal v n \<le> (v * 10 ^ n + 1 / 2) / 10 ^ n"
    using v by (simp add: round_decimal_def Let_def divide_right_mono not_less [THEN iffD2])
  then show ?thesis by (simp add: add_divide_distrib)
qed

lemma round_decimal_mono: "0 \<le> v \<Longrightarrow> v \<le> w \<Longrightarrow> round_decimal v n \<le> round_decimal w n"
proof -
  assume v: "0 \<le> v" "v \<le> w"
  then have "v * 10 ^ n + 1 / 2 \<le> w * 10 ^ n + 1 / 2" by (simp add: mult_right_mono)
  then have "\<lfloor>v * 10 ^ n + 1 / 2\<rfloor> \<le> \<lfloor>w * 10 ^ n + 1 / 2\<rfloor>" by (rule floor_mono)
  moreover have "\<not> v * 10 ^ n < 0" "\<not> w * 10 ^ n < 0" using v by (simp_all add: not_less)
  ultimately show ?thesis by (simp add: round_decimal_def Let_def divide_right_mono)
qed

lemma round_decimal_of_int: "round_decimal (of_int k / 10 ^ n) n = of_int k / 10 ^ n"
  by (simp add: round_decimal_def Let_def floor_unique)

definition option_or :: "'a option \<Rightarrow> 'a \<Rightarrow> 'a" where
  "option_or x d = (case x of None \<Rightarrow> d | Some v \<Rightarrow> v)"

lemma option_or_simps [simp]: "option_or None d = d" "option_or (Some v) d = v"
  by (simp_all add: option_or_def)

text \<open>A find over a list: the first element that satisfies the predicate.\<close>

lemma find_Some_mem: "find P xs = Some x \<Longrightarrow> x \<in> set xs \<and> P x"
  by (auto simp: find_Some_iff)

lemma find_filter: "find P xs = (case filter P xs of [] \<Rightarrow> None | x # _ \<Rightarrow> Some x)"
  by (induction xs) auto

text \<open>With at most one match, the order of the list does not matter.\<close>

lemma find_permuted:
  assumes "length (filter P xs) \<le> 1" and "mset xs = mset ys"
  shows "find P xs = find P ys"
proof -
  have m: "mset (filter P xs) = mset (filter P ys)" using assms(2) by simp
  have "filter P xs = filter P ys"
  proof (cases "filter P xs")
    case Nil
    with m show ?thesis by simp
  next
    case (Cons x zs)
    with assms(1) have x: "filter P xs = [x]" by simp
    with m [symmetric, unfolded x] show ?thesis
      using mset_single_iff [of "filter P ys" x] by (simp del: mset_filter)
  qed
  then show ?thesis by (simp add: find_filter)
qed

lemma length_filter_mset_cong:
  "mset xs = mset ys \<Longrightarrow> length (filter P xs) = length (filter P ys)"
  by (metis mset_filter size_mset)

lemma find_unique:
  assumes "length (filter P xs) \<le> 1" and "x \<in> set xs" and "P x"
  shows "find P xs = Some x"
proof -
  from assms(2,3) have "x \<in> set (filter P xs)" by simp
  with assms(1) have "filter P xs = [x]" by (cases "filter P xs") auto
  then show ?thesis by (simp add: find_filter)
qed

lemma find_None_all: "find P xs = None \<longleftrightarrow> (\<forall>x \<in> set xs. \<not> P x)"
  by (auto simp: find_None_iff)

text \<open>What one step of a fold establishes and every step keeps holds at the end.\<close>

lemma fold_keeps:
  "P s \<Longrightarrow> (\<And>y s. y \<in> set xs \<Longrightarrow> P s \<Longrightarrow> P (f y s)) \<Longrightarrow> P (fold f xs s)"
  by (induction xs arbitrary: s) auto

lemma fold_establishes:
  assumes "x \<in> set xs" and "\<And>s. P (f x s)" and "\<And>y s. y \<in> set xs \<Longrightarrow> P s \<Longrightarrow> P (f y s)"
  shows "P (fold f xs s)"
  using assms
proof (induction xs arbitrary: s)
  case Nil
  then show ?case by simp
next
  case (Cons y ys)
  show ?case
  proof (cases "x = y")
    case True
    with Cons.prems show ?thesis by (auto intro!: fold_keeps [where P = P])
  next
    case False
    with Cons show ?thesis by auto
  qed
qed

end
