(* ===== verification/Channel.thy ===== *)
theory Channel
  imports GoPrelude "HOL-Library.Product_Lexorder" "HOL-Library.AList"
begin

text \<open>
  The channel entity (\<open>backend/internal/service/channel.go\<close>): a channel carries model
  prices, price intervals over the context size and a model mapping. The first section
  has its data, the second the interval search and the validation of a list of
  intervals, the third the price index and the list of supported models.

  A Go map that the code ranges over is an association list in the order of the
  iteration; a Go map that is only looked up is a HOL map. The timestamps of the rows,
  which no function here reads, are left out. A \<open>nil\<close> pointer field is \<open>None\<close>.
\<close>

section \<open>Data\<close>

datatype BillingMode = BillingModeToken | BillingModePerRequest | BillingModeImage
  | BillingModeUnset | BillingModeOther string

definition IsValid :: "BillingMode \<Rightarrow> bool" where
  "IsValid m = (case m of BillingModeOther _ \<Rightarrow> False | _ \<Rightarrow> True)"

record PricingInterval =
  iv_ID :: int
  iv_MinTokens :: int
  iv_MaxTokens :: "int option"
  iv_TierLabel :: string
  iv_InputPrice :: "float64 option"
  iv_OutputPrice :: "float64 option"
  iv_CacheWritePrice :: "float64 option"
  iv_CacheReadPrice :: "float64 option"
  iv_PerRequestPrice :: "float64 option"

record ChannelModelPricing =
  cp_ID :: int
  cp_Platform :: string
  cp_Models :: "string list"
  cp_BillingMode :: BillingMode
  cp_InputPrice :: "float64 option"
  cp_OutputPrice :: "float64 option"
  cp_CacheWritePrice :: "float64 option"
  cp_CacheReadPrice :: "float64 option"
  cp_ImageOutputPrice :: "float64 option"
  cp_PerRequestPrice :: "float64 option"
  cp_Intervals :: "PricingInterval list"

text \<open>Rules for the statistics of accounts: the accounts or groups they are for, and prices.\<close>

record AccountStatsPricingRule =
  sr_GroupIDs :: "int list"
  sr_AccountIDs :: "int list"
  sr_Pricing :: "ChannelModelPricing list"

record Channel =
  ch_ID :: int
  ch_Status :: string
  ch_BillingModelSource :: string
  ch_RestrictModels :: bool
  ch_GroupIDs :: "int list"
  ch_ModelPricing :: "ChannelModelPricing list"
  ch_ModelMapping :: "(string \<times> (string \<times> string) list) list"
  ch_ApplyPricingToAccountStats :: bool
  ch_AccountStatsPricingRules :: "AccountStatsPricingRule list"

definition IsActive :: "Channel \<Rightarrow> bool" where
  "IsActive c \<longleftrightarrow> ch_Status c = ''active''"

definition normalizeBillingModelSource :: "Channel \<Rightarrow> Channel" where
  "normalizeBillingModelSource c =
     (if ch_BillingModelSource c = '''' then c\<lparr>ch_BillingModelSource := ''channel_mapped''\<rparr> else c)"

text \<open>\<open>GetModelPricing\<close>: the first entry with the model among its names, any case.\<close>

definition GetModelPricing :: "Channel \<Rightarrow> string \<Rightarrow> ChannelModelPricing option" where
  "GetModelPricing c model =
     find (\<lambda>p. list_ex (\<lambda>m. ToLower m = ToLower model) (cp_Models p)) (ch_ModelPricing c)"

definition GetModelPricingByPlatform :: "Channel \<Rightarrow> string \<Rightarrow> string \<Rightarrow> ChannelModelPricing option" where
  "GetModelPricingByPlatform c platform model =
     find (\<lambda>p. cp_Platform p = platform \<and>
               list_ex (\<lambda>m. ToLower m = ToLower model) (cp_Models p)) (ch_ModelPricing c)"

section \<open>Price intervals\<close>

definition interval_matches :: "int \<Rightarrow> PricingInterval \<Rightarrow> bool" where
  "interval_matches totalTokens iv \<longleftrightarrow>
     totalTokens > iv_MinTokens iv \<and>
     (case iv_MaxTokens iv of None \<Rightarrow> True | Some m \<Rightarrow> totalTokens \<le> m)"

definition FindMatchingInterval :: "PricingInterval list \<Rightarrow> int \<Rightarrow> PricingInterval option" where
  "FindMatchingInterval intervals totalTokens = find (interval_matches totalTokens) intervals"

definition GetIntervalForContext :: "ChannelModelPricing \<Rightarrow> int \<Rightarrow> PricingInterval option" where
  "GetIntervalForContext p totalTokens = FindMatchingInterval (cp_Intervals p) totalTokens"

definition GetTierByLabel :: "ChannelModelPricing \<Rightarrow> string \<Rightarrow> PricingInterval option" where
  "GetTierByLabel p label = find (\<lambda>iv. ToLower (iv_TierLabel iv) = ToLower label) (cp_Intervals p)"

datatype interval_error =
    MinNegative nat
  | MaxNotPositive nat
  | MaxNotAboveMin nat
  | PriceNegative nat string
  | UnboundedNotLast nat
  | IntervalsOverlap nat nat

definition price_negative :: "float64 option \<Rightarrow> bool" where
  "price_negative v = (case v of None \<Rightarrow> False | Some x \<Rightarrow> x < 0)"

text \<open>The loop over the five named prices stops at the first negative one.\<close>

definition validateIntervalPrices :: "PricingInterval \<Rightarrow> nat \<Rightarrow> interval_error option" where
  "validateIntervalPrices iv idx =
     map_option (\<lambda>p. PriceNegative (idx + 1) (fst p))
       (find (\<lambda>p. price_negative (snd p))
         [(''input_price'', iv_InputPrice iv),
          (''output_price'', iv_OutputPrice iv),
          (''cache_write_price'', iv_CacheWritePrice iv),
          (''cache_read_price'', iv_CacheReadPrice iv),
          (''per_request_price'', iv_PerRequestPrice iv)])"

definition validateSingleInterval :: "PricingInterval \<Rightarrow> nat \<Rightarrow> interval_error option" where
  "validateSingleInterval iv idx =
     (if iv_MinTokens iv < 0 then Some (MinNegative (idx + 1))
      else case iv_MaxTokens iv of
             None \<Rightarrow> validateIntervalPrices iv idx
           | Some m \<Rightarrow>
               if m \<le> 0 then Some (MaxNotPositive (idx + 1))
               else if m \<le> iv_MinTokens iv then Some (MaxNotAboveMin (idx + 1))
               else validateIntervalPrices iv idx)"

fun validate_each :: "PricingInterval list \<Rightarrow> nat \<Rightarrow> interval_error option" where
  "validate_each [] _ = None"
| "validate_each (iv # ivs) i =
     (case validateSingleInterval iv i of Some e \<Rightarrow> Some e | None \<Rightarrow> validate_each ivs (i + 1))"

text \<open>
  \<open>validateIntervalOverlap\<close>: \<open>overlap_from prev ivs i\<close> is the loop at index \<open>i\<close>, with
  the interval before it (\<open>None\<close> at index 0).
\<close>

fun overlap_from :: "PricingInterval option \<Rightarrow> PricingInterval list \<Rightarrow> nat \<Rightarrow> interval_error option" where
  "overlap_from _ [] _ = None"
| "overlap_from prev (iv # ivs) i =
     (if iv_MaxTokens iv = None \<and> ivs \<noteq> [] then Some (UnboundedNotLast (i + 1))
      else case prev of
             None \<Rightarrow> overlap_from (Some iv) ivs (i + 1)
           | Some p \<Rightarrow>
               (case iv_MaxTokens p of
                  None \<Rightarrow> Some (IntervalsOverlap i (i + 1))
                | Some m \<Rightarrow> if m > iv_MinTokens iv then Some (IntervalsOverlap i (i + 1))
                            else overlap_from (Some iv) ivs (i + 1)))"

definition validateIntervalOverlap :: "PricingInterval list \<Rightarrow> interval_error option" where
  "validateIntervalOverlap srt = overlap_from None srt 0"

definition ValidateIntervals :: "PricingInterval list \<Rightarrow> interval_error option" where
  "ValidateIntervals intervals =
     (if intervals = [] then None
      else let srt = sort_key iv_MinTokens intervals
           in case validate_each srt 0 of
                Some e \<Rightarrow> Some e
              | None \<Rightarrow> validateIntervalOverlap srt)"

text \<open>
  What the validation promises: each interval is a non-empty range of non-negative
  counts with non-negative prices, and two intervals never claim the same count.
\<close>

definition interval_wf :: "PricingInterval \<Rightarrow> bool" where
  "interval_wf iv \<longleftrightarrow>
     0 \<le> iv_MinTokens iv \<and>
     (case iv_MaxTokens iv of None \<Rightarrow> True | Some m \<Rightarrow> iv_MinTokens iv < m) \<and>
     \<not> price_negative (iv_InputPrice iv) \<and> \<not> price_negative (iv_OutputPrice iv) \<and>
     \<not> price_negative (iv_CacheWritePrice iv) \<and> \<not> price_negative (iv_CacheReadPrice iv) \<and>
     \<not> price_negative (iv_PerRequestPrice iv)"

definition intervals_before :: "PricingInterval \<Rightarrow> PricingInterval \<Rightarrow> bool" where
  "intervals_before a b =
     (case iv_MaxTokens a of None \<Rightarrow> False | Some m \<Rightarrow> m \<le> iv_MinTokens b)"

lemma validateSingleInterval_None: "validateSingleInterval iv i = None \<longleftrightarrow> interval_wf iv"
  by (auto simp: validateSingleInterval_def validateIntervalPrices_def interval_wf_def
      split: option.splits if_splits)

lemma validate_each_None: "validate_each ivs i = None \<longleftrightarrow> list_all interval_wf ivs"
proof (induction ivs arbitrary: i)
  case Nil
  then show ?case by simp
next
  case (Cons iv ivs)
  then show ?case
    by (cases "validateSingleInterval iv i") (auto simp flip: validateSingleInterval_None [of iv i])
qed

lemma intervals_before_trans:
  "interval_wf b \<Longrightarrow> intervals_before a b \<Longrightarrow> intervals_before b c \<Longrightarrow> intervals_before a c"
  by (auto simp: intervals_before_def interval_wf_def split: option.splits)

lemma overlap_from_Some:
  assumes "overlap_from (Some p) ivs i = None" and "list_all interval_wf (p # ivs)"
  shows "sorted_wrt intervals_before (p # ivs)"
  using assms
proof (induction ivs arbitrary: p i)
  case Nil
  then show ?case by simp
next
  case (Cons iv ivs)
  from Cons.prems(1) have step: "intervals_before p iv" "overlap_from (Some iv) ivs (i + 1) = None"
    by (auto simp: intervals_before_def split: if_splits option.splits)
  with Cons.IH Cons.prems(2) have "sorted_wrt intervals_before (iv # ivs)" by auto
  with step(1) Cons.prems(2) show ?case by (auto intro: intervals_before_trans)
qed

lemma overlap_from_None:
  assumes "overlap_from None ivs i = None" and "list_all interval_wf ivs"
  shows "sorted_wrt intervals_before ivs"
  using assms by (cases ivs) (auto split: if_splits dest: overlap_from_Some)

lemma ValidateIntervals_wf:
  assumes "ValidateIntervals ivs = None"
  shows "list_all interval_wf ivs" and "sorted_wrt intervals_before (sort_key iv_MinTokens ivs)"
proof -
  have each: "list_all interval_wf (sort_key iv_MinTokens ivs)"
    using assms by (auto simp: ValidateIntervals_def Let_def validate_each_None split: if_splits option.splits)
  then show "list_all interval_wf ivs" by (simp add: list_all_iff)
  have "overlap_from None (sort_key iv_MinTokens ivs) 0 = None"
    using assms by (auto simp: ValidateIntervals_def validateIntervalOverlap_def Let_def
        split: if_splits option.splits)
  then show "sorted_wrt intervals_before (sort_key iv_MinTokens ivs)"
    using each by (rule overlap_from_None)
qed

lemma intervals_before_disjoint:
  "intervals_before a b \<Longrightarrow> \<not> (interval_matches n a \<and> interval_matches n b)"
  by (auto simp: intervals_before_def interval_matches_def split: option.splits)

lemma sorted_wrt_before_matches:
  "sorted_wrt intervals_before ivs \<Longrightarrow> length (filter (interval_matches n) ivs) \<le> 1"
proof (induction ivs)
  case Nil
  then show ?case by simp
next
  case (Cons iv ivs)
  then show ?case
    using intervals_before_disjoint [of iv _ n] by (cases "interval_matches n iv") (auto simp: filter_False)
qed

lemma ValidateIntervals_matches:
  assumes "ValidateIntervals ivs = None"
  shows "length (filter (interval_matches n) ivs) \<le> 1"
  using sorted_wrt_before_matches [OF ValidateIntervals_wf(2) [OF assms], of n]
    length_filter_mset_cong [of "sort_key iv_MinTokens ivs" ivs "interval_matches n"] by simp

section \<open>The price index and the supported models\<close>

definition splitWildcardSuffix :: "string \<Rightarrow> string \<times> bool" where
  "splitWildcardSuffix pattern =
     (if HasSuffix pattern ''*'' then (TrimSuffix pattern ''*'', True) else (pattern, False))"

abbreviation is_wildcard :: "string \<Rightarrow> bool" where
  "is_wildcard pattern \<equiv> snd (splitWildcardSuffix pattern)"

record platformPricingIndex =
  pi_byLower :: "string \<Rightarrow> ChannelModelPricing option"
  pi_originalCase :: "string \<Rightarrow> string option"
  pi_names :: "string list"

type_synonym pricing_index = "(string \<times> platformPricingIndex) list"

definition empty_pricing_index :: platformPricingIndex where
  "empty_pricing_index = \<lparr>pi_byLower = Map.empty, pi_originalCase = Map.empty, pi_names = []\<rparr>"

text \<open>One model name of a price entry: patterns are skipped, the first spelling wins.\<close>

definition index_model :: "ChannelModelPricing \<Rightarrow> string \<Rightarrow> platformPricingIndex \<Rightarrow> platformPricingIndex" where
  "index_model p m pidx =
     (let lower = ToLower m
      in if is_wildcard m then pidx
         else if pi_byLower pidx lower \<noteq> None then pidx
         else pidx\<lparr>pi_byLower := (pi_byLower pidx)(lower \<mapsto> p),
                   pi_originalCase := (pi_originalCase pidx)(lower \<mapsto> m),
                   pi_names := pi_names pidx @ [m]\<rparr>)"

definition index_pricing :: "ChannelModelPricing \<Rightarrow> pricing_index \<Rightarrow> pricing_index" where
  "index_pricing p idx =
     AList.update (cp_Platform p)
       (fold (index_model p) (cp_Models p) (option_or (map_of idx (cp_Platform p)) empty_pricing_index))
       idx"

definition buildPricingIndex :: "ChannelModelPricing list \<Rightarrow> pricing_index" where
  "buildPricingIndex pricings = fold index_pricing pricings []"

record SupportedModel =
  sm_Name :: string
  sm_Platform :: string
  sm_Pricing :: "ChannelModelPricing option"

text \<open>\<open>lookup\<close>: the price of an exact name, with the spelling the price list uses.\<close>

definition lookup_pricing ::
    "platformPricingIndex option \<Rightarrow> string \<Rightarrow> string \<times> ChannelModelPricing option" where
  "lookup_pricing pidx name =
     (case pidx of None \<Rightarrow> (name, None)
      | Some px \<Rightarrow>
          if name = '''' then (name, None)
          else (case pi_byLower px (ToLower name) of
                  Some p \<Rightarrow> (option_or (pi_originalCase px (ToLower name)) '''', Some p)
                | None \<Rightarrow> (name, None)))"

type_synonym supported_acc = "(string \<times> string) list \<times> SupportedModel list"

definition add_supported ::
    "string \<Rightarrow> string \<times> ChannelModelPricing option \<Rightarrow> supported_acc \<Rightarrow> supported_acc" where
  "add_supported platform dp acc =
     (let key = (platform, ToLower (fst dp))
      in if key \<in> set (fst acc) then acc
         else (fst acc @ [key],
               snd acc @ [\<lparr>sm_Name = fst dp, sm_Platform = platform, sm_Pricing = snd dp\<rparr>]))"

definition pricing_key :: "string \<Rightarrow> string \<Rightarrow> string" where
  "pricing_key src target =
     (let key = (if target = '''' then src else target) in if is_wildcard key then src else key)"

definition pass_mapping ::
    "platformPricingIndex option \<Rightarrow> string \<Rightarrow> string \<times> string \<Rightarrow> supported_acc \<Rightarrow> supported_acc" where
  "pass_mapping pidx platform st acc =
     (let (src, target) = st; (pre, isWild) = splitWildcardSuffix src
      in if isWild then
           (case pidx of None \<Rightarrow> acc
            | Some px \<Rightarrow>
                fold (\<lambda>c a. if HasPrefix (ToLower c) (ToLower pre)
                            then add_supported platform (lookup_pricing pidx c) a else a)
                  (pi_names px) acc)
         else add_supported platform
                (fst (lookup_pricing pidx src), snd (lookup_pricing pidx (pricing_key src target))) acc)"

definition pass_A :: "pricing_index \<Rightarrow> (string \<times> (string \<times> string) list) list \<Rightarrow> supported_acc \<Rightarrow> supported_acc" where
  "pass_A idx mapping acc =
     fold (\<lambda>(platform, m) a. fold (pass_mapping (map_of idx platform) platform) m a) mapping acc"

definition pass_B :: "pricing_index \<Rightarrow> supported_acc \<Rightarrow> supported_acc" where
  "pass_B idx acc =
     fold (\<lambda>(platform, px) a.
       fold (\<lambda>n b. add_supported platform (lookup_pricing (Some px) n) b) (pi_names px) a) idx acc"

definition SupportedModels :: "Channel \<Rightarrow> SupportedModel list" where
  "SupportedModels c =
     (if ch_ModelMapping c = [] \<and> ch_ModelPricing c = [] then []
      else let idx = buildPricingIndex (ch_ModelPricing c)
           in sort_key (\<lambda>m. (sm_Platform m, sm_Name m))
                (snd (pass_B idx (pass_A idx (ch_ModelMapping c) ([], [])))))"

text \<open>
  The index holds concrete names only, and agrees with its own spelling table. The
  accumulator lists each (platform, lower-case name) once, in the order of the result.
\<close>

definition index_wf :: "platformPricingIndex \<Rightarrow> bool" where
  "index_wf px \<longleftrightarrow>
     (\<forall>m \<in> set (pi_names px). \<not> is_wildcard m) \<and>
     dom (pi_byLower px) = dom (pi_originalCase px) \<and>
     ToLower ` set (pi_names px) = dom (pi_byLower px) \<and>
     (\<forall>l m. pi_originalCase px l = Some m \<longrightarrow> \<not> is_wildcard m \<and> ToLower m = l)"

definition sm_key :: "SupportedModel \<Rightarrow> string \<times> string" where
  "sm_key m = (sm_Platform m, ToLower (sm_Name m))"

definition acc_wf :: "supported_acc \<Rightarrow> bool" where
  "acc_wf acc \<longleftrightarrow>
     fst acc = map sm_key (snd acc) \<and> distinct (fst acc) \<and>
     list_all (\<lambda>m. \<not> is_wildcard (sm_Name m)) (snd acc)"

lemma index_wf_empty [intro, simp]: "index_wf empty_pricing_index"
  by (simp add: index_wf_def empty_pricing_index_def)

lemma index_model_wf [intro]: "index_wf px \<Longrightarrow> index_wf (index_model p m px)"
  by (auto simp: index_wf_def index_model_def Let_def)

lemma index_model_mem [simp]:
  "index_wf px \<Longrightarrow> \<not> is_wildcard m \<Longrightarrow> ToLower m \<in> dom (pi_byLower (index_model p m px))"
  by (auto simp: index_model_def Let_def)

lemma index_model_mono:
  "l \<in> dom (pi_byLower px) \<Longrightarrow> l \<in> dom (pi_byLower (index_model p m px))"
  by (auto simp: index_model_def Let_def)

definition idx_wf :: "pricing_index \<Rightarrow> bool" where
  "idx_wf idx \<longleftrightarrow> list_all (\<lambda>e. index_wf (snd e)) idx \<and> distinct (map fst idx)"

lemma idx_wf_lookup: "idx_wf idx \<Longrightarrow> map_of idx pl = Some px \<Longrightarrow> index_wf px"
  by (auto simp: idx_wf_def list_all_iff dest: map_of_SomeD)

lemma list_all_update:
  "list_all (\<lambda>e. P (snd e)) xs \<Longrightarrow> P v \<Longrightarrow> list_all (\<lambda>e. P (snd e)) (AList.update k v xs)"
  by (induction xs) auto

lemma index_pricing_wf: "idx_wf idx \<Longrightarrow> idx_wf (index_pricing p idx)"
proof -
  assume wf: "idx_wf idx"
  have "index_wf (option_or (map_of idx (cp_Platform p)) empty_pricing_index)"
    using idx_wf_lookup [OF wf] by (cases "map_of idx (cp_Platform p)") auto
  then have "index_wf (fold (index_model p) (cp_Models p)
      (option_or (map_of idx (cp_Platform p)) empty_pricing_index))"
    by (rule fold_keeps) blast
  with wf show ?thesis
    by (auto simp: idx_wf_def index_pricing_def distinct_update intro: list_all_update)
qed

lemma buildPricingIndex_wf: "idx_wf (buildPricingIndex ps)"
  unfolding buildPricingIndex_def
proof (rule fold_keeps)
  show "idx_wf []" by (simp add: idx_wf_def)
qed (rule index_pricing_wf)

lemma lookup_pricing_name:
  assumes "\<And>px. pidx = Some px \<Longrightarrow> index_wf px" and "\<not> is_wildcard n"
  shows "\<not> is_wildcard (fst (lookup_pricing pidx n)) \<and> ToLower (fst (lookup_pricing pidx n)) = ToLower n"
proof (cases pidx)
  case None
  with assms show ?thesis by (simp add: lookup_pricing_def)
next
  case (Some px)
  with assms have wf: "index_wf px" by simp
  show ?thesis
  proof (cases "pi_byLower px (ToLower n)")
    case None
    with Some assms(2) show ?thesis by (auto simp: lookup_pricing_def)
  next
    case p: (Some p)
    with wf obtain m where "pi_originalCase px (ToLower n) = Some m"
      unfolding index_wf_def by blast
    with wf p Some assms(2) show ?thesis by (auto simp: lookup_pricing_def index_wf_def)
  qed
qed

lemma add_supported_wf [intro]:
  "acc_wf acc \<Longrightarrow> \<not> is_wildcard (fst dp) \<Longrightarrow> acc_wf (add_supported pl dp acc)"
  by (auto simp: acc_wf_def add_supported_def sm_key_def Let_def)

lemma add_supported_key [simp]: "(pl, ToLower (fst dp)) \<in> set (fst (add_supported pl dp acc))"
  by (auto simp: add_supported_def Let_def)

lemma add_supported_mono: "k \<in> set (fst acc) \<Longrightarrow> k \<in> set (fst (add_supported pl dp acc))"
  by (auto simp: add_supported_def Let_def)

lemma pass_mapping_wf:
  assumes "acc_wf acc" and "\<And>px. pidx = Some px \<Longrightarrow> index_wf px"
  shows "acc_wf (pass_mapping pidx pl st acc)"
proof (cases "is_wildcard (fst st)")
  case True
  show ?thesis
  proof (cases pidx)
    case None
    with True assms show ?thesis by (simp add: pass_mapping_def split_beta Let_def)
  next
    case (Some px)
    have "acc_wf (fold (\<lambda>c a. if HasPrefix (ToLower c) (ToLower (fst (splitWildcardSuffix (fst st))))
              then add_supported pl (lookup_pricing (Some px) c) a else a) (pi_names px) acc)"
      using assms(1)
    proof (rule fold_keeps)
      fix c a
      assume "c \<in> set (pi_names px)" and a: "acc_wf a"
      then have "\<not> is_wildcard c" using assms(2) [OF Some] by (simp add: index_wf_def)
      from lookup_pricing_name [of "Some px", OF _ this] assms(2) [OF Some] a
      show "acc_wf (if HasPrefix (ToLower c) (ToLower (fst (splitWildcardSuffix (fst st))))
              then add_supported pl (lookup_pricing (Some px) c) a else a)" by auto
    qed
    with True Some show ?thesis by (simp add: pass_mapping_def split_beta Let_def)
  qed
next
  case False
  with lookup_pricing_name [OF assms(2) False] assms(1) show ?thesis
    by (auto simp: pass_mapping_def split_beta Let_def)
qed

lemma pass_A_wf: "idx_wf idx \<Longrightarrow> acc_wf acc \<Longrightarrow> acc_wf (pass_A idx mapping acc)"
  unfolding pass_A_def
proof (erule fold_keeps)
  fix e a
  assume "idx_wf idx" and "acc_wf a"
  then show "acc_wf ((\<lambda>(platform, m) a. fold (pass_mapping (map_of idx platform) platform) m a) e a)"
    by (auto simp: split_beta intro!: fold_keeps [where P = acc_wf] pass_mapping_wf idx_wf_lookup)
qed

lemma pass_B_wf: "idx_wf idx \<Longrightarrow> acc_wf acc \<Longrightarrow> acc_wf (pass_B idx acc)"
  unfolding pass_B_def
proof (erule fold_keeps)
  fix e a
  assume wf: "idx_wf idx" and e: "e \<in> set idx" and a: "acc_wf a"
  from wf e have px: "index_wf (snd e)" by (auto simp: idx_wf_def list_all_iff)
  have "acc_wf (fold (\<lambda>n. add_supported (fst e) (lookup_pricing (Some (snd e)) n)) (pi_names (snd e)) a)"
    using a
  proof (rule fold_keeps)
    fix n b
    assume "n \<in> set (pi_names (snd e))" and b: "acc_wf b"
    with px have "\<not> is_wildcard n" by (simp add: index_wf_def)
    from lookup_pricing_name [of "Some (snd e)", OF _ this] px b
    show "acc_wf (add_supported (fst e) (lookup_pricing (Some (snd e)) n) b)" by auto
  qed
  then show "acc_wf ((\<lambda>(platform, px) a.
      fold (\<lambda>n. add_supported platform (lookup_pricing (Some px) n)) (pi_names px) a) e a)"
    by (simp add: split_beta)
qed

lemma supported_acc_wf:
  "acc_wf (pass_B (buildPricingIndex ps) (pass_A (buildPricingIndex ps) mapping ([], [])))"
  by (intro pass_B_wf pass_A_wf buildPricingIndex_wf) (simp add: acc_wf_def)

lemma pass_B_mono: "k \<in> set (fst acc) \<Longrightarrow> k \<in> set (fst (pass_B idx acc))"
  unfolding pass_B_def
  by (erule fold_keeps) (auto simp: split_beta intro!: fold_keeps [where P = "\<lambda>a. k \<in> set (fst a)"]
      add_supported_mono)

lemma pass_B_covers:
  assumes "idx_wf idx" and "(pl, px) \<in> set idx" and "n \<in> set (pi_names px)"
  shows "(pl, ToLower n) \<in> set (fst (pass_B idx acc))"
  unfolding pass_B_def
proof (rule fold_establishes [OF assms(2)])
  from assms(1,2) have px: "index_wf px" by (auto simp: idx_wf_def list_all_iff)
  with assms(3) have n: "\<not> is_wildcard n" by (simp add: index_wf_def)
  from lookup_pricing_name [of "Some px", OF _ n] px
  have low: "ToLower (fst (lookup_pricing (Some px) n)) = ToLower n" by simp
  fix a
  have "(pl, ToLower n) \<in> set (fst (fold (\<lambda>n. add_supported pl (lookup_pricing (Some px) n)) (pi_names px) a))"
  proof (rule fold_establishes [OF assms(3)])
    fix b
    show "(pl, ToLower n) \<in> set (fst (add_supported pl (lookup_pricing (Some px) n) b))"
      using add_supported_key [of pl "lookup_pricing (Some px) n" b] low by simp
  qed (rule add_supported_mono)
  then show "(pl, ToLower n) \<in> set (fst ((\<lambda>(platform, px) a.
      fold (\<lambda>n. add_supported platform (lookup_pricing (Some px) n)) (pi_names px) a) (pl, px) a))"
    by simp
next
  fix e and a :: supported_acc
  assume "(pl, ToLower n) \<in> set (fst a)"
  then show "(pl, ToLower n) \<in> set (fst ((\<lambda>(platform, px) a.
      fold (\<lambda>n. add_supported platform (lookup_pricing (Some px) n)) (pi_names px) a) e a))"
    by (auto simp: split_beta intro!: fold_keeps [where P = "\<lambda>a. (pl, ToLower n) \<in> set (fst a)"]
        add_supported_mono)
qed

definition idx_has :: "string \<Rightarrow> string \<Rightarrow> pricing_index \<Rightarrow> bool" where
  "idx_has pl l idx = (case map_of idx pl of None \<Rightarrow> False | Some px \<Rightarrow> l \<in> dom (pi_byLower px))"

lemma map_of_AList_update: "map_of (AList.update k v xs) = (map_of xs)(k \<mapsto> v)"
  by (rule update_conv')

lemma fold_index_model_mono:
  "l \<in> dom (pi_byLower px) \<Longrightarrow> l \<in> dom (pi_byLower (fold (index_model p) ms px))"
  by (erule fold_keeps [where P = "\<lambda>px. l \<in> dom (pi_byLower px)"]) (rule index_model_mono)

lemma idx_has_keeps: "idx_has pl l idx \<Longrightarrow> idx_has pl l (index_pricing p idx)"
  using fold_index_model_mono [of l "option_or (map_of idx pl) empty_pricing_index" p "cp_Models p"]
  by (auto simp: idx_has_def index_pricing_def map_of_AList_update split: option.splits)

lemma idx_has_new:
  assumes "m \<in> set (cp_Models p)" and "\<not> is_wildcard m" and "idx_wf idx"
  shows "idx_has (cp_Platform p) (ToLower m) (index_pricing p idx)"
proof -
  let ?px = "option_or (map_of idx (cp_Platform p)) empty_pricing_index"
  have wf: "index_wf ?px" using idx_wf_lookup [OF assms(3)] by (cases "map_of idx (cp_Platform p)") auto
  obtain us vs where ms: "cp_Models p = us @ m # vs" using assms(1) by (meson split_list)
  have "index_wf (fold (index_model p) us ?px)"
    using wf by (rule fold_keeps) blast
  with assms(2) have "ToLower m \<in> dom (pi_byLower (fold (index_model p) (us @ [m]) ?px))" by simp
  then have "ToLower m \<in> dom (pi_byLower (fold (index_model p) vs (fold (index_model p) (us @ [m]) ?px)))"
    by (rule fold_index_model_mono)
  then show ?thesis by (simp add: idx_has_def index_pricing_def map_of_AList_update ms)
qed

lemma buildPricingIndex_has:
  assumes "p \<in> set ps" and "m \<in> set (cp_Models p)" and "\<not> is_wildcard m"
  shows "idx_has (cp_Platform p) (ToLower m) (buildPricingIndex ps)"
proof -
  obtain us vs where ps: "ps = us @ p # vs" using assms(1) by (meson split_list)
  have "idx_has (cp_Platform p) (ToLower m) (index_pricing p (buildPricingIndex us))"
    by (rule idx_has_new [OF assms(2,3) buildPricingIndex_wf])
  then have "idx_has (cp_Platform p) (ToLower m) (fold index_pricing vs (index_pricing p (buildPricingIndex us)))"
    by (rule fold_keeps) (rule idx_has_keeps)
  then show ?thesis by (simp add: buildPricingIndex_def ps)
qed

lemma SupportedModels_set:
  assumes "ch_ModelMapping c \<noteq> [] \<or> ch_ModelPricing c \<noteq> []"
  shows "set (SupportedModels c) =
     set (snd (pass_B (buildPricingIndex (ch_ModelPricing c))
       (pass_A (buildPricingIndex (ch_ModelPricing c)) (ch_ModelMapping c) ([], []))))"
  using assms by (auto simp: SupportedModels_def Let_def)

lemma SupportedModels_acc:
  "\<exists>acc. acc_wf acc \<and> SupportedModels c = sort_key (\<lambda>m. (sm_Platform m, sm_Name m)) (snd acc)"
proof (cases "ch_ModelMapping c = [] \<and> ch_ModelPricing c = []")
  case True
  then show ?thesis
    by (intro exI [of _ "([], [])"]) (simp add: SupportedModels_def acc_wf_def)
next
  case False
  then show ?thesis
    using supported_acc_wf [of "ch_ModelPricing c" "ch_ModelMapping c"]
    by (intro exI) (auto simp: SupportedModels_def Let_def)
qed

section \<open>Properties\<close>

text \<open>C1. A list of price intervals that passes the validation consists of well-formed
  ranges, and at most one of them matches a given number of context tokens.\<close>

theorem ValidateIntervals_sound:
  assumes "ValidateIntervals ivs = None"
  shows "list_all interval_wf ivs \<and> length (filter (interval_matches n) ivs) \<le> 1"
  using ValidateIntervals_wf(1) [OF assms] ValidateIntervals_matches [OF assms] by simp

definition interval_0_100 :: PricingInterval where
  "interval_0_100 = \<lparr>iv_ID = 1, iv_MinTokens = 0, iv_MaxTokens = Some 100, iv_TierLabel = ''1K'',
     iv_InputPrice = Some (Fin 1), iv_OutputPrice = None, iv_CacheWritePrice = None,
     iv_CacheReadPrice = None, iv_PerRequestPrice = None\<rparr>"

definition interval_100_up :: PricingInterval where
  "interval_100_up = \<lparr>iv_ID = 2, iv_MinTokens = 100, iv_MaxTokens = None, iv_TierLabel = ''2K'',
     iv_InputPrice = Some (Fin 2), iv_OutputPrice = Some (Fin 3), iv_CacheWritePrice = None,
     iv_CacheReadPrice = None, iv_PerRequestPrice = None\<rparr>"

lemma intervals_valid [simp]: "ValidateIntervals [interval_100_up, interval_0_100] = None"
  by (simp add: ValidateIntervals_def validateIntervalOverlap_def validateSingleInterval_def
      validateIntervalPrices_def price_negative_def interval_0_100_def interval_100_up_def
      Fin_zero Let_def)

lemma ValidateIntervals_sound_witness:
  "list_all interval_wf [interval_100_up, interval_0_100] \<and>
   length (filter (interval_matches 100) [interval_100_up, interval_0_100]) \<le> 1"
  by (rule ValidateIntervals_sound) simp

text \<open>For a validated list the interval that is found does not depend on the order of
  the list: the search of any permutation gives the same interval.\<close>

theorem FindMatchingInterval_order_independent:
  assumes "ValidateIntervals ivs = None" and "mset ivs' = mset ivs"
  shows "FindMatchingInterval ivs' n = FindMatchingInterval ivs n"
  unfolding FindMatchingInterval_def
  by (rule find_permuted [symmetric])
    (use ValidateIntervals_matches [OF assms(1)] assms(2) in simp_all)

lemma FindMatchingInterval_order_independent_witness:
  "FindMatchingInterval [interval_0_100, interval_100_up] 101 =
   FindMatchingInterval [interval_100_up, interval_0_100] 101"
  by (rule FindMatchingInterval_order_independent) simp_all

text \<open>The bounds of an interval are exclusive below and inclusive above: the interval
  found for a count has its minimum strictly under the count and its maximum, if any, at
  or above it.\<close>

theorem FindMatchingInterval_bounds:
  "FindMatchingInterval ivs n = Some iv \<Longrightarrow>
     iv \<in> set ivs \<and> iv_MinTokens iv < n \<and>
     (case iv_MaxTokens iv of None \<Rightarrow> True | Some m \<Rightarrow> n \<le> m)"
  by (auto simp: FindMatchingInterval_def interval_matches_def dest!: find_Some_mem)

lemma FindMatchingInterval_bounds_witness:
  "interval_0_100 \<in> set [interval_100_up, interval_0_100] \<and> iv_MinTokens interval_0_100 < 100 \<and>
   (case iv_MaxTokens interval_0_100 of None \<Rightarrow> True | Some m \<Rightarrow> (100 :: int) \<le> m)"
  by (rule FindMatchingInterval_bounds)
    (simp add: FindMatchingInterval_def interval_matches_def interval_0_100_def interval_100_up_def)

text \<open>The supported models of a channel are sorted by platform and name, no two of them
  have the same platform and name up to case, and none is a wildcard pattern.\<close>

theorem SupportedModels_canonical:
  "sorted (map (\<lambda>m. (sm_Platform m, sm_Name m)) (SupportedModels c)) \<and>
   distinct (map sm_key (SupportedModels c)) \<and>
   list_all (\<lambda>m. \<not> is_wildcard (sm_Name m)) (SupportedModels c)"
proof -
  obtain acc where acc: "acc_wf acc"
    and res: "SupportedModels c = sort_key (\<lambda>m. (sm_Platform m, sm_Name m)) (snd acc)"
    using SupportedModels_acc by blast
  have "mset (map sm_key (SupportedModels c)) = mset (map sm_key (snd acc))"
    by (simp add: res)
  moreover have "distinct (map sm_key (snd acc))" using acc unfolding acc_wf_def by metis
  ultimately have "distinct (map sm_key (SupportedModels c))"
    using mset_eq_imp_distinct_iff by blast
  moreover have "list_all (\<lambda>m. \<not> is_wildcard (sm_Name m)) (SupportedModels c)"
    using acc by (simp add: res acc_wf_def list_all_iff)
  moreover have "sorted (map (\<lambda>m. (sm_Platform m, sm_Name m)) (SupportedModels c))"
    by (simp only: res sorted_sort_key)
  ultimately show ?thesis by blast
qed

text \<open>Every concrete model with a price is a supported model of its platform, whatever
  the channel maps.\<close>

theorem SupportedModels_covers_pricing:
  assumes "p \<in> set (ch_ModelPricing c)" and "m \<in> set (cp_Models p)" and "\<not> is_wildcard m"
  shows "\<exists>r \<in> set (SupportedModels c). sm_key r = (cp_Platform p, ToLower m)"
proof -
  let ?idx = "buildPricingIndex (ch_ModelPricing c)"
  let ?acc = "pass_B ?idx (pass_A ?idx (ch_ModelMapping c) ([], []))"
  obtain px where px: "map_of ?idx (cp_Platform p) = Some px" and "ToLower m \<in> dom (pi_byLower px)"
    using buildPricingIndex_has [OF assms] by (auto simp: idx_has_def split: option.splits)
  moreover have "ToLower ` set (pi_names px) = dom (pi_byLower px)"
    using idx_wf_lookup [OF buildPricingIndex_wf px] unfolding index_wf_def by blast
  ultimately obtain n where n: "n \<in> set (pi_names px)" "ToLower n = ToLower m"
    by (metis imageE)
  have "(cp_Platform p, ToLower n) \<in> set (fst ?acc)"
    by (rule pass_B_covers [OF buildPricingIndex_wf map_of_SomeD [OF px] n(1)])
  then have "(cp_Platform p, ToLower m) \<in> sm_key ` set (snd ?acc)"
    using supported_acc_wf [of "ch_ModelPricing c" "ch_ModelMapping c"] n(2) by (simp add: acc_wf_def)
  moreover have "ch_ModelPricing c \<noteq> []" using assms(1) by auto
  ultimately show ?thesis using SupportedModels_set [of c] by force
qed

definition demo_pricing :: ChannelModelPricing where
  "demo_pricing = \<lparr>cp_ID = 7, cp_Platform = ''openai'', cp_Models = [''GPT-5'', ''gpt-4*''],
     cp_BillingMode = BillingModeToken, cp_InputPrice = Some (Fin 1), cp_OutputPrice = None,
     cp_CacheWritePrice = None, cp_CacheReadPrice = None, cp_ImageOutputPrice = None,
     cp_PerRequestPrice = None, cp_Intervals = []\<rparr>"

definition demo_channel :: Channel where
  "demo_channel = \<lparr>ch_ID = 3, ch_Status = ''active'', ch_BillingModelSource = '''', ch_RestrictModels = True,
     ch_GroupIDs = [11], ch_ModelPricing = [demo_pricing],
     ch_ModelMapping = [(''openai'', [(''gpt-5-mini'', ''GPT-5'')])], ch_ApplyPricingToAccountStats = False, ch_AccountStatsPricingRules = []\<rparr>"

lemma SupportedModels_covers_pricing_witness:
  "\<exists>r \<in> set (SupportedModels demo_channel). sm_key r = (''openai'', ToLower ''GPT-5'')"
  using SupportedModels_covers_pricing [of demo_pricing demo_channel "''GPT-5''"]
  by (simp add: demo_channel_def demo_pricing_def splitWildcardSuffix_def HasSuffix_def suffix_def)

end
