(* ===== verification/ChannelCache.thy ===== *)
theory ChannelCache
  imports Channel
begin

text \<open>
  The channel service (\<open>backend/internal/service/channel_service.go\<close>): the validation of
  a channel's configuration, the cache that flattens the channels into lookup tables,
  the price and mapping lookups over it, and the loading of the cache with its two
  lifetimes. The tables are functions from their composite keys; the lists of wildcard
  entries keep the order in which the code appends them.

  The last section shows that for a validated configuration the lookup through the
  tables is the search of the channel's own list of patterns, of which at most one
  matches a model.
\<close>

section \<open>Validation of a configuration\<close>

record modelEntry =
  me_pattern :: string
  me_prefix :: string
  me_wildcard :: bool

definition toModelEntry :: "string \<Rightarrow> modelEntry" where
  "toModelEntry pattern =
     (let (pre, isWild) = splitWildcardSuffix (ToLower pattern)
      in \<lparr>me_pattern = pattern, me_prefix = pre, me_wildcard = isWild\<rparr>)"

definition conflictsBetween :: "modelEntry \<Rightarrow> modelEntry \<Rightarrow> bool" where
  "conflictsBetween a b =
     (if \<not> me_wildcard a \<and> \<not> me_wildcard b then me_prefix a = me_prefix b
      else if me_wildcard a \<and> \<not> me_wildcard b then HasPrefix (me_prefix b) (me_prefix a)
      else if \<not> me_wildcard a \<and> me_wildcard b then HasPrefix (me_prefix a) (me_prefix b)
      else HasPrefix (me_prefix a) (me_prefix b) \<or> HasPrefix (me_prefix b) (me_prefix a))"

datatype channel_error =
    MODEL_PATTERN_CONFLICT string string string
  | MAPPING_PATTERN_CONFLICT string string string
  | INVALID_PRICING_INTERVALS string "string list" interval_error
  | BILLING_MODE_MISSING_PRICE
  | NEGATIVE_PRICE string
  | INTERVAL_MISSING_PRICE int "int option" "string list"

text \<open>\<open>detectConflicts\<close>: the first conflicting pair, by the index of its first entry.\<close>

fun detectConflicts :: "modelEntry list \<Rightarrow> (string \<times> string) option" where
  "detectConflicts [] = None"
| "detectConflicts (e # es) =
     (case find (conflictsBetween e) es of
        Some f \<Rightarrow> Some (me_pattern e, me_pattern f)
      | None \<Rightarrow> detectConflicts es)"

text \<open>The map of entries by platform, in the order of first insertion.\<close>

definition group_models :: "ChannelModelPricing list \<Rightarrow> (string \<times> modelEntry list) list" where
  "group_models pricings =
     fold (\<lambda>p acc.
       fold (\<lambda>m acc. AList.update (cp_Platform p)
                (option_or (map_of acc (cp_Platform p)) [] @ [toModelEntry m]) acc)
         (cp_Models p) acc)
       pricings []"

fun first_error :: "('a \<Rightarrow> 'e option) \<Rightarrow> 'a list \<Rightarrow> 'e option" where
  "first_error f [] = None"
| "first_error f (x # xs) = (case f x of Some e \<Rightarrow> Some e | None \<Rightarrow> first_error f xs)"

definition validateNoConflictingModels :: "ChannelModelPricing list \<Rightarrow> channel_error option" where
  "validateNoConflictingModels pricings =
     first_error (\<lambda>(platform, es).
         map_option (\<lambda>(a, b). MODEL_PATTERN_CONFLICT platform a b) (detectConflicts es))
       (group_models pricings)"

definition validateNoConflictingMappings ::
    "(string \<times> (string \<times> string) list) list \<Rightarrow> channel_error option" where
  "validateNoConflictingMappings mapping =
     first_error (\<lambda>(platform, m).
         map_option (\<lambda>(a, b). MAPPING_PATTERN_CONFLICT platform a b)
           (detectConflicts (map (\<lambda>st. toModelEntry (fst st)) m)))
       mapping"

definition validatePricingIntervals :: "ChannelModelPricing list \<Rightarrow> channel_error option" where
  "validatePricingIntervals pricings =
     first_error (\<lambda>p. map_option (INVALID_PRICING_INTERVALS (cp_Platform p) (cp_Models p))
         (ValidateIntervals (cp_Intervals p)))
       pricings"

definition checkBillingModeRequirements :: "ChannelModelPricing \<Rightarrow> channel_error option" where
  "checkBillingModeRequirements p =
     (if (cp_BillingMode p = BillingModePerRequest \<or> cp_BillingMode p = BillingModeImage)
         \<and> cp_PerRequestPrice p = None \<and> cp_Intervals p = []
      then Some BILLING_MODE_MISSING_PRICE else None)"

definition checkPricesNotNegative :: "ChannelModelPricing \<Rightarrow> channel_error option" where
  "checkPricesNotNegative p =
     first_error (\<lambda>(field, v). if price_negative v then Some (NEGATIVE_PRICE field) else None)
       [(''input_price'', cp_InputPrice p),
        (''output_price'', cp_OutputPrice p),
        (''cache_write_price'', cp_CacheWritePrice p),
        (''cache_read_price'', cp_CacheReadPrice p),
        (''image_output_price'', cp_ImageOutputPrice p),
        (''per_request_price'', cp_PerRequestPrice p)]"

definition interval_has_price :: "PricingInterval \<Rightarrow> bool" where
  "interval_has_price iv \<longleftrightarrow>
     iv_InputPrice iv \<noteq> None \<or> iv_OutputPrice iv \<noteq> None \<or> iv_CacheWritePrice iv \<noteq> None \<or>
     iv_CacheReadPrice iv \<noteq> None \<or> iv_PerRequestPrice iv \<noteq> None"

definition checkIntervalsHavePrices :: "ChannelModelPricing \<Rightarrow> channel_error option" where
  "checkIntervalsHavePrices p =
     first_error (\<lambda>iv. if \<not> interval_has_price iv
         then Some (INTERVAL_MISSING_PRICE (iv_MinTokens iv) (iv_MaxTokens iv) (cp_Models p)) else None)
       (cp_Intervals p)"

definition validatePricingBillingMode :: "ChannelModelPricing list \<Rightarrow> channel_error option" where
  "validatePricingBillingMode pricings =
     first_error (\<lambda>p. case checkBillingModeRequirements p of
         Some e \<Rightarrow> Some e
       | None \<Rightarrow> (case checkPricesNotNegative p of
           Some e \<Rightarrow> Some e
         | None \<Rightarrow> checkIntervalsHavePrices p)) pricings"

definition validatePricingEntries :: "ChannelModelPricing list \<Rightarrow> channel_error option" where
  "validatePricingEntries pricings =
     (case validateNoConflictingModels pricings of
        Some e \<Rightarrow> Some e
      | None \<Rightarrow> (case validatePricingIntervals pricings of
          Some e \<Rightarrow> Some e
        | None \<Rightarrow> validatePricingBillingMode pricings))"

definition validateChannelConfig ::
    "ChannelModelPricing list \<Rightarrow> (string \<times> (string \<times> string) list) list \<Rightarrow> channel_error option" where
  "validateChannelConfig pricings mapping =
     (case validatePricingEntries pricings of
        Some e \<Rightarrow> Some e
      | None \<Rightarrow> validateNoConflictingMappings mapping)"

section \<open>The cache\<close>

record channelCache =
  cc_pricingByGroupModel :: "int \<times> string \<times> string \<Rightarrow> ChannelModelPricing option"
  cc_wildcardByGroupPlatform :: "int \<times> string \<Rightarrow> (string \<times> ChannelModelPricing) list"
  cc_mappingByGroupModel :: "int \<times> string \<times> string \<Rightarrow> string option"
  cc_wildcardMappingByGP :: "int \<times> string \<Rightarrow> (string \<times> string) list"
  cc_channelByGroupID :: "int \<Rightarrow> Channel option"
  cc_groupPlatform :: "int \<Rightarrow> string option"
  cc_byID :: "int \<Rightarrow> Channel option"
  cc_loadedAt :: instant

definition newEmptyChannelCache :: channelCache where
  "newEmptyChannelCache =
     \<lparr>cc_pricingByGroupModel = Map.empty, cc_wildcardByGroupPlatform = (\<lambda>_. []),
      cc_mappingByGroupModel = Map.empty, cc_wildcardMappingByGP = (\<lambda>_. []),
      cc_channelByGroupID = Map.empty, cc_groupPlatform = Map.empty, cc_byID = Map.empty,
      cc_loadedAt = 0\<rparr>"

definition isPlatformPricingMatch :: "string \<Rightarrow> string \<Rightarrow> bool" where
  "isPlatformPricingMatch groupPlatform pricingPlatform \<longleftrightarrow> groupPlatform = pricingPlatform"

definition matchingPlatforms :: "string \<Rightarrow> string list" where
  "matchingPlatforms groupPlatform = [groupPlatform]"

definition expand_price :: "int \<Rightarrow> ChannelModelPricing \<Rightarrow> string \<Rightarrow> channelCache \<Rightarrow> channelCache" where
  "expand_price gid pricing model cache =
     (let gpKey = (gid, cp_Platform pricing);
          key = (gid, cp_Platform pricing, ToLower model)
      in if HasSuffix model ''*''
         then cache\<lparr>cc_wildcardByGroupPlatform := (cc_wildcardByGroupPlatform cache)
                (gpKey := cc_wildcardByGroupPlatform cache gpKey
                            @ [(ToLower (TrimSuffix model ''*''), pricing)])\<rparr>
         else cache\<lparr>cc_pricingByGroupModel := (cc_pricingByGroupModel cache)(key \<mapsto> pricing)\<rparr>)"

definition expandPricingToCache :: "Channel \<Rightarrow> int \<Rightarrow> string \<Rightarrow> channelCache \<Rightarrow> channelCache" where
  "expandPricingToCache ch gid platform cache =
     fold (\<lambda>pricing c.
         if \<not> isPlatformPricingMatch platform (cp_Platform pricing) then c
         else fold (expand_price gid pricing) (cp_Models pricing) c)
       (ch_ModelPricing ch) cache"

definition expand_mapping :: "int \<Rightarrow> string \<Rightarrow> string \<times> string \<Rightarrow> channelCache \<Rightarrow> channelCache" where
  "expand_mapping gid mappingPlatform st cache =
     (let (src, dst) = st;
          gpKey = (gid, mappingPlatform);
          key = (gid, mappingPlatform, ToLower src)
      in if HasSuffix src ''*''
         then cache\<lparr>cc_wildcardMappingByGP := (cc_wildcardMappingByGP cache)
                (gpKey := cc_wildcardMappingByGP cache gpKey @ [(ToLower (TrimSuffix src ''*''), dst)])\<rparr>
         else cache\<lparr>cc_mappingByGroupModel := (cc_mappingByGroupModel cache)(key \<mapsto> dst)\<rparr>)"

definition expandMappingToCache :: "Channel \<Rightarrow> int \<Rightarrow> string \<Rightarrow> channelCache \<Rightarrow> channelCache" where
  "expandMappingToCache ch gid platform cache =
     fold (\<lambda>mappingPlatform c.
         case map_of (ch_ModelMapping ch) mappingPlatform of
           None \<Rightarrow> c
         | Some m \<Rightarrow> fold (expand_mapping gid mappingPlatform) m c)
       (matchingPlatforms platform) cache"

definition cache_group :: "(int \<Rightarrow> string option) \<Rightarrow> Channel \<Rightarrow> int \<Rightarrow> channelCache \<Rightarrow> channelCache" where
  "cache_group groupPlatforms ch gid cache =
     (let platform = option_or (groupPlatforms gid) '''';
          c1 = cache\<lparr>cc_channelByGroupID := (cc_channelByGroupID cache)(gid \<mapsto> ch)\<rparr>
      in expandMappingToCache ch gid platform (expandPricingToCache ch gid platform c1))"

definition cache_channel :: "(int \<Rightarrow> string option) \<Rightarrow> Channel \<Rightarrow> channelCache \<Rightarrow> channelCache" where
  "cache_channel groupPlatforms ch0 cache =
     (let ch = normalizeBillingModelSource ch0
      in fold (cache_group groupPlatforms ch) (ch_GroupIDs ch)
           (cache\<lparr>cc_byID := (cc_byID cache)(ch_ID ch \<mapsto> ch)\<rparr>))"

definition populateChannelCache ::
    "Channel list \<Rightarrow> (int \<Rightarrow> string option) \<Rightarrow> instant \<Rightarrow> channelCache" where
  "populateChannelCache channels groupPlatforms now =
     fold (cache_channel groupPlatforms) channels
       (newEmptyChannelCache\<lparr>cc_groupPlatform := groupPlatforms, cc_loadedAt := now\<rparr>)"

section \<open>Lookups\<close>

definition matchWildcard :: "channelCache \<Rightarrow> int \<Rightarrow> string \<Rightarrow> string \<Rightarrow> ChannelModelPricing option" where
  "matchWildcard c groupID platform modelLower =
     map_option snd (find (\<lambda>wc. HasPrefix modelLower (fst wc))
       (cc_wildcardByGroupPlatform c (groupID, platform)))"

definition matchWildcardMapping :: "channelCache \<Rightarrow> int \<Rightarrow> string \<Rightarrow> string \<Rightarrow> string" where
  "matchWildcardMapping c groupID platform modelLower =
     (case find (\<lambda>wc. HasPrefix modelLower (fst wc)) (cc_wildcardMappingByGP c (groupID, platform)) of
        Some wc \<Rightarrow> snd wc
      | None \<Rightarrow> '''')"

fun first_some :: "('a \<Rightarrow> 'b option) \<Rightarrow> 'a list \<Rightarrow> 'b option" where
  "first_some f [] = None"
| "first_some f (x # xs) = (case f x of Some y \<Rightarrow> Some y | None \<Rightarrow> first_some f xs)"

definition lookupPricingAcrossPlatforms ::
    "channelCache \<Rightarrow> int \<Rightarrow> string \<Rightarrow> string \<Rightarrow> ChannelModelPricing option" where
  "lookupPricingAcrossPlatforms cache groupID groupPlatform modelLower =
     (case first_some (\<lambda>p. cc_pricingByGroupModel cache (groupID, p, modelLower))
             (matchingPlatforms groupPlatform) of
        Some pricing \<Rightarrow> Some pricing
      | None \<Rightarrow> first_some (\<lambda>p. matchWildcard cache groupID p modelLower) (matchingPlatforms groupPlatform))"

definition lookupMappingAcrossPlatforms :: "channelCache \<Rightarrow> int \<Rightarrow> string \<Rightarrow> string \<Rightarrow> string" where
  "lookupMappingAcrossPlatforms cache groupID groupPlatform modelLower =
     (case first_some (\<lambda>p. cc_mappingByGroupModel cache (groupID, p, modelLower))
             (matchingPlatforms groupPlatform) of
        Some mapped \<Rightarrow> mapped
      | None \<Rightarrow> option_or
          (first_some (\<lambda>p. let mapped = matchWildcardMapping cache groupID p modelLower
                           in if mapped \<noteq> '''' then Some mapped else None)
             (matchingPlatforms groupPlatform)) '''')"

record channelLookup =
  lk_cache :: channelCache
  lk_channel :: Channel
  lk_platform :: string

record ChannelMappingResult =
  mr_MappedModel :: string
  mr_ChannelID :: int
  mr_Mapped :: bool
  mr_BillingModelSource :: string

definition unmapped :: "string \<Rightarrow> ChannelMappingResult" where
  "unmapped model = \<lparr>mr_MappedModel = model, mr_ChannelID = 0, mr_Mapped = False,
     mr_BillingModelSource = ''''\<rparr>"

definition lookup_group :: "channelCache \<Rightarrow> int \<Rightarrow> channelLookup option" where
  "lookup_group cache groupID =
     (case cc_channelByGroupID cache groupID of
        None \<Rightarrow> None
      | Some ch \<Rightarrow>
          if \<not> IsActive ch then None
          else Some \<lparr>lk_cache = cache, lk_channel = ch,
                     lk_platform = option_or (cc_groupPlatform cache groupID) ''''\<rparr>)"

definition resolveMapping :: "channelLookup \<Rightarrow> int \<Rightarrow> string \<Rightarrow> ChannelMappingResult" where
  "resolveMapping lk groupID model =
     (let result = \<lparr>mr_MappedModel = model, mr_ChannelID = ch_ID (lk_channel lk), mr_Mapped = False,
                    mr_BillingModelSource = ch_BillingModelSource (lk_channel lk)\<rparr>;
          mapped = lookupMappingAcrossPlatforms (lk_cache lk) groupID (lk_platform lk) (ToLower model)
      in if mapped \<noteq> '''' then result\<lparr>mr_MappedModel := mapped, mr_Mapped := True\<rparr> else result)"

definition checkRestricted :: "channelLookup \<Rightarrow> int \<Rightarrow> string \<Rightarrow> bool" where
  "checkRestricted lk groupID model =
     (if \<not> ch_RestrictModels (lk_channel lk) then False
      else lookupPricingAcrossPlatforms (lk_cache lk) groupID (lk_platform lk) (ToLower model) = None)"

text \<open>The bytes of the arrow \<open>U+2192\<close> that joins the models of a mapping chain.\<close>

definition arrow :: string where
  "arrow = [char_of (226 :: nat), char_of (134 :: nat), char_of (146 :: nat)]"

definition BuildModelMappingChain :: "ChannelMappingResult \<Rightarrow> string \<Rightarrow> string \<Rightarrow> string" where
  "BuildModelMappingChain r reqModel upstreamModel =
     (if \<not> mr_Mapped r then
        (if upstreamModel \<noteq> '''' \<and> upstreamModel \<noteq> reqModel then reqModel @ arrow @ upstreamModel else '''')
      else if upstreamModel \<noteq> '''' \<and> upstreamModel \<noteq> mr_MappedModel r
      then reqModel @ arrow @ mr_MappedModel r @ arrow @ upstreamModel
      else reqModel @ arrow @ mr_MappedModel r)"

record ChannelUsageFields =
  uf_ChannelID :: int
  uf_OriginalModel :: string
  uf_ChannelMappedModel :: string
  uf_BillingModelSource :: string
  uf_ModelMappingChain :: string

definition ToUsageFields :: "ChannelMappingResult \<Rightarrow> string \<Rightarrow> string \<Rightarrow> ChannelUsageFields" where
  "ToUsageFields r reqModel upstreamModel =
     \<lparr>uf_ChannelID = mr_ChannelID r, uf_OriginalModel = reqModel,
      uf_ChannelMappedModel = (if mr_Mapped r then mr_MappedModel r else reqModel),
      uf_BillingModelSource = mr_BillingModelSource r,
      uf_ModelMappingChain = BuildModelMappingChain r reqModel upstreamModel\<rparr>"

section \<open>The service\<close>

text \<open>
  The state of the service: its cached snapshot, the rows of the database it reads
  (channels with their groups, prices and mappings, in the order of their ids; the
  platform of each group) and the schedule of database faults. \<open>None\<close> as a result of
  \<open>loadCache\<close> is the error.
\<close>

record channel_service =
  cs_cache :: "channelCache option"
  cs_channels :: "Channel list"
  cs_platforms :: "int \<Rightarrow> string option"
  cs_faults :: faults

definition channelCacheTTL :: duration where
  "channelCacheTTL = minutes 10"

definition channelErrorTTL :: duration where
  "channelErrorTTL = seconds 5"

definition storeErrorCache :: "instant \<Rightarrow> channel_service \<Rightarrow> channel_service" where
  "storeErrorCache now svc =
     svc\<lparr>cs_cache := Some (newEmptyChannelCache
        \<lparr>cc_loadedAt := now + - (channelCacheTTL - channelErrorTTL)\<rparr>)\<rparr>"

text \<open>\<open>GetGroupPlatforms\<close> reads the rows of the groups with the given ids.\<close>

definition fetchChannelData ::
    "instant \<Rightarrow> channel_service \<Rightarrow> (Channel list \<times> (int \<Rightarrow> string option)) option \<times> channel_service" where
  "fetchChannelData now svc =
     (let (fail, fs) = io (cs_faults svc); svc = svc\<lparr>cs_faults := fs\<rparr>
      in if fail then (None, storeErrorCache now svc)
         else let allGroupIDs = concat (map ch_GroupIDs (cs_channels svc))
              in if allGroupIDs = [] then (Some (cs_channels svc, Map.empty), svc)
                 else let (fail, fs) = io (cs_faults svc); svc = svc\<lparr>cs_faults := fs\<rparr>
                      in if fail then (None, storeErrorCache now svc)
                         else (Some (cs_channels svc, cs_platforms svc |` set allGroupIDs), svc))"

definition buildCache :: "instant \<Rightarrow> channel_service \<Rightarrow> channelCache option \<times> channel_service" where
  "buildCache now svc =
     (case fetchChannelData now svc of
        (None, svc') \<Rightarrow> (None, svc')
      | (Some (channels, groupPlatforms), svc') \<Rightarrow>
          let cache = populateChannelCache channels groupPlatforms now
          in (Some cache, svc'\<lparr>cs_cache := Some cache\<rparr>))"

definition loadCache :: "instant \<Rightarrow> channel_service \<Rightarrow> channelCache option \<times> channel_service" where
  "loadCache now svc =
     (case cs_cache svc of
        Some cached \<Rightarrow>
          if now - cc_loadedAt cached < channelCacheTTL then (Some cached, svc) else buildCache now svc
      | None \<Rightarrow> buildCache now svc)"

definition invalidateCache :: "instant \<Rightarrow> channel_service \<Rightarrow> channel_service" where
  "invalidateCache now svc = snd (buildCache now (svc\<lparr>cs_cache := None\<rparr>))"

definition lookupGroupChannel ::
    "instant \<Rightarrow> int \<Rightarrow> channel_service \<Rightarrow> channelLookup option option \<times> channel_service" where
  "lookupGroupChannel now groupID svc =
     (case loadCache now svc of
        (None, svc') \<Rightarrow> (None, svc')
      | (Some cache, svc') \<Rightarrow> (Some (lookup_group cache groupID), svc'))"

definition GetChannelForGroup ::
    "instant \<Rightarrow> int \<Rightarrow> channel_service \<Rightarrow> Channel option option \<times> channel_service" where
  "GetChannelForGroup now groupID svc =
     (case lookupGroupChannel now groupID svc of
        (None, svc') \<Rightarrow> (None, svc')
      | (Some lk, svc') \<Rightarrow> (Some (map_option lk_channel lk), svc'))"

definition GetGroupPlatform :: "instant \<Rightarrow> int \<Rightarrow> channel_service \<Rightarrow> string \<times> channel_service" where
  "GetGroupPlatform now groupID svc =
     (case loadCache now svc of
        (None, svc') \<Rightarrow> ('''', svc')
      | (Some cache, svc') \<Rightarrow> (option_or (cc_groupPlatform cache groupID) '''', svc'))"

definition GetChannelModelPricing ::
    "instant \<Rightarrow> int \<Rightarrow> string \<Rightarrow> channel_service \<Rightarrow> ChannelModelPricing option \<times> channel_service" where
  "GetChannelModelPricing now groupID model svc =
     (case lookupGroupChannel now groupID svc of
        (None, svc') \<Rightarrow> (None, svc')
      | (Some None, svc') \<Rightarrow> (None, svc')
      | (Some (Some lk), svc') \<Rightarrow>
          (lookupPricingAcrossPlatforms (lk_cache lk) groupID (lk_platform lk) (ToLower model), svc'))"

definition ResolveChannelMapping ::
    "instant \<Rightarrow> int \<Rightarrow> string \<Rightarrow> channel_service \<Rightarrow> ChannelMappingResult \<times> channel_service" where
  "ResolveChannelMapping now groupID model svc =
     (case lookupGroupChannel now groupID svc of
        (Some (Some lk), svc') \<Rightarrow> (resolveMapping lk groupID model, svc')
      | (_, svc') \<Rightarrow> (unmapped model, svc'))"

definition IsModelRestricted ::
    "instant \<Rightarrow> int \<Rightarrow> string \<Rightarrow> channel_service \<Rightarrow> bool \<times> channel_service" where
  "IsModelRestricted now groupID model svc =
     (case lookupGroupChannel now groupID svc of
        (Some (Some lk), svc') \<Rightarrow> (checkRestricted lk groupID model, svc')
      | (_, svc') \<Rightarrow> (False, svc'))"

definition ResolveChannelMappingAndRestrict ::
    "instant \<Rightarrow> int option \<Rightarrow> string \<Rightarrow> channel_service \<Rightarrow> (ChannelMappingResult \<times> bool) \<times> channel_service" where
  "ResolveChannelMappingAndRestrict now groupID model svc =
     (case groupID of
        None \<Rightarrow> ((unmapped model, False), svc)
      | Some gid \<Rightarrow> (case lookupGroupChannel now gid svc of
            (Some (Some lk), svc') \<Rightarrow> ((resolveMapping lk gid model, False), svc')
          | (_, svc') \<Rightarrow> ((unmapped model, False), svc')))"

section \<open>Patterns and their conflicts\<close>

text \<open>A pattern of a configuration matches a lower-case model name.\<close>

definition pattern_matches :: "string \<Rightarrow> string \<Rightarrow> bool" where
  "pattern_matches pattern modelLower =
     (if is_wildcard pattern then HasPrefix modelLower (ToLower (TrimSuffix pattern ''*''))
      else ToLower pattern = modelLower)"

lemma first_error_None: "first_error f xs = None \<longleftrightarrow> (\<forall>x \<in> set xs. f x = None)"
  by (induction xs) (auto split: option.splits)

lemma detectConflicts_None:
  "detectConflicts es = None \<longleftrightarrow> sorted_wrt (\<lambda>a b. \<not> conflictsBetween a b) es"
  by (induction es) (auto split: option.splits simp: find_None_iff find_Some_iff)

lemma lower_char_star: "lower_char c = CHR ''*'' \<longleftrightarrow> c = CHR ''*''"
proof (cases "65 \<le> (of_char c :: nat) \<and> (of_char c :: nat) \<le> 90")
  case True
  then have "of_char (lower_char c) = (of_char c + 32 :: nat)"
    by (simp add: lower_char_def)
  with True have "(of_char (lower_char c) :: nat) \<noteq> 42" by simp
  moreover have "(of_char c :: nat) \<noteq> 42" using True by simp
  moreover have "of_char (CHR ''*'') = (42 :: nat)" by simp
  ultimately show ?thesis by metis
qed (auto simp: lower_char_def Let_def)

lemma is_wildcard_iff: "is_wildcard p \<longleftrightarrow> (\<exists>q. p = q @ ''*'')"
  by (auto simp: splitWildcardSuffix_def HasSuffix_def suffix_def)

lemma fst_splitWildcardSuffix [simp]:
  "fst (splitWildcardSuffix p) = (if is_wildcard p then TrimSuffix p ''*'' else p)"
  by (simp add: splitWildcardSuffix_def)

lemma HasSuffix_star [simp]: "HasSuffix p ''*'' \<longleftrightarrow> is_wildcard p"
  by (simp add: splitWildcardSuffix_def)

lemma is_wildcard_ToLower [simp]: "is_wildcard (ToLower p) \<longleftrightarrow> is_wildcard p"
proof (cases p rule: rev_cases)
  case (snoc q c)
  then show ?thesis
    by (auto simp: is_wildcard_iff ToLower_def lower_char_star)
qed (simp add: ToLower_def)

lemma TrimSuffix_star: "is_wildcard p \<Longrightarrow> TrimSuffix p ''*'' = butlast p"
  by (auto simp: is_wildcard_iff TrimSuffix_def HasSuffix_def)

lemma toModelEntry_simps:
  "me_wildcard (toModelEntry p) = is_wildcard p"
  "me_prefix (toModelEntry p) = (if is_wildcard p then ToLower (TrimSuffix p ''*'') else ToLower p)"
proof -
  show "me_wildcard (toModelEntry p) = is_wildcard p"
    by (simp add: toModelEntry_def split_beta Let_def)
  show "me_prefix (toModelEntry p) = (if is_wildcard p then ToLower (TrimSuffix p ''*'') else ToLower p)"
  proof (cases "is_wildcard p")
    case True
    then have "TrimSuffix (ToLower p) ''*'' = ToLower (TrimSuffix p ''*'')"
      using TrimSuffix_star [OF iffD2 [OF is_wildcard_ToLower True]] TrimSuffix_star [OF True]
      by (simp add: ToLower_def map_butlast)
    then show ?thesis using True by (simp add: toModelEntry_def split_beta Let_def)
  qed (simp add: toModelEntry_def split_beta Let_def)
qed

lemma conflictsBetween_sym: "conflictsBetween a b \<longleftrightarrow> conflictsBetween b a"
  by (auto simp: conflictsBetween_def)

lemma matches_conflict:
  assumes "pattern_matches p l" and "pattern_matches q l"
  shows "conflictsBetween (toModelEntry p) (toModelEntry q)"
  using assms prefix_same_cases [of _ l]
  by (auto simp: conflictsBetween_def toModelEntry_simps pattern_matches_def HasPrefix_def split: if_splits)

lemma no_conflict_unique:
  assumes "sorted_wrt (\<lambda>a b. \<not> conflictsBetween a b) (map toModelEntry ps)"
  shows "length (filter (\<lambda>p. pattern_matches p l) ps) \<le> 1"
  using assms
proof (induction ps)
  case Nil
  then show ?case by simp
next
  case (Cons p ps)
  then show ?case
    using matches_conflict [of p l] by (cases "pattern_matches p l") (auto simp: filter_empty_conv)
qed

section \<open>What the tables hold\<close>

text \<open>
  \<open>exact_of\<close> and \<open>wild_of\<close> split a list of patterns the way the cache does; \<open>search_tables\<close>
  is its two-stage lookup. If no two patterns conflict it finds what a search of the
  list finds.
\<close>

definition exact_of :: "(string \<times> 'v) list \<Rightarrow> (string \<times> 'v) list" where
  "exact_of ps = map (\<lambda>(p, v). (ToLower p, v)) (filter (\<lambda>(p, v). \<not> is_wildcard p) ps)"

definition wild_of :: "(string \<times> 'v) list \<Rightarrow> (string \<times> 'v) list" where
  "wild_of ps = map (\<lambda>(p, v). (ToLower (TrimSuffix p ''*''), v)) (filter (\<lambda>(p, v). is_wildcard p) ps)"

definition search_tables ::
    "(string \<Rightarrow> 'v option) \<Rightarrow> (string \<times> 'v) list \<Rightarrow> string \<Rightarrow> 'v option" where
  "search_tables exact wild l =
     (case exact l of Some v \<Rightarrow> Some v | None \<Rightarrow> map_option snd (find (\<lambda>w. HasPrefix l (fst w)) wild))"

definition search_patterns :: "(string \<times> 'v) list \<Rightarrow> string \<Rightarrow> 'v option" where
  "search_patterns ps l = map_option snd (find (\<lambda>(p, v). pattern_matches p l) ps)"

definition conflict_free :: "string list \<Rightarrow> bool" where
  "conflict_free ps = sorted_wrt (\<lambda>a b. \<not> conflictsBetween a b) (map toModelEntry ps)"

lemma exact_of_Some:
  "map_of (rev (exact_of ps)) l = Some v \<Longrightarrow> \<exists>p. (p, v) \<in> set ps \<and> pattern_matches p l"
  by (force simp: exact_of_def pattern_matches_def dest!: map_of_SomeD)

lemma exact_of_None:
  "map_of (rev (exact_of ps)) l = None \<Longrightarrow> (p, v) \<in> set ps \<Longrightarrow> \<not> is_wildcard p \<Longrightarrow> ToLower p \<noteq> l"
  by (force simp: exact_of_def map_of_eq_None_iff)

lemma wild_of_Some:
  "find (\<lambda>w. HasPrefix l (fst w)) (wild_of ps) = Some w \<Longrightarrow>
     \<exists>p. (p, snd w) \<in> set ps \<and> pattern_matches p l"
  by (force simp: wild_of_def pattern_matches_def dest!: find_Some_mem)

lemma wild_of_None:
  "find (\<lambda>w. HasPrefix l (fst w)) (wild_of ps) = None \<Longrightarrow> (p, v) \<in> set ps \<Longrightarrow> is_wildcard p \<Longrightarrow>
     \<not> pattern_matches p l"
  by (force simp: wild_of_def pattern_matches_def find_None_all)

lemma search_patterns_unique:
  assumes "conflict_free (map fst ps)" and "(p, v) \<in> set ps" and "pattern_matches p l"
  shows "search_patterns ps l = Some v"
proof -
  have "length (filter (\<lambda>q. pattern_matches q l) (map fst ps)) \<le> 1"
    using assms(1) no_conflict_unique unfolding conflict_free_def by blast
  then have "length (filter (\<lambda>(q, v). pattern_matches q l) ps) \<le> 1"
    by (simp add: filter_map comp_def case_prod_beta')
  from find_unique [OF this assms(2)] assms(3) show ?thesis by (simp add: search_patterns_def)
qed

lemma search_tables_Some:
  assumes "search_tables (map_of (rev (exact_of ps))) (wild_of ps) l = Some v"
  shows "\<exists>p. (p, v) \<in> set ps \<and> pattern_matches p l"
  using assms exact_of_Some [of ps l] wild_of_Some [of l ps]
  by (auto simp: search_tables_def split: option.splits)

lemma search_tables_None:
  assumes "search_tables (map_of (rev (exact_of ps))) (wild_of ps) l = None" and "(p, v) \<in> set ps"
  shows "\<not> pattern_matches p l"
  using assms exact_of_None [of ps l p v] wild_of_None [of l ps p v]
  by (auto simp: search_tables_def pattern_matches_def split: option.splits)

lemma search_tables_patterns:
  assumes "conflict_free (map fst ps)"
  shows "search_tables (map_of (rev (exact_of ps))) (wild_of ps) l = search_patterns ps l"
proof (cases "search_tables (map_of (rev (exact_of ps))) (wild_of ps) l")
  case None
  then have "\<forall>q \<in> set ps. \<not> (\<lambda>(p, v). pattern_matches p l) q"
    using search_tables_None [OF None] by auto
  then have "find (\<lambda>(p, v). pattern_matches p l) ps = None"
    unfolding find_None_all .
  with None show ?thesis by (simp add: search_patterns_def)
next
  case (Some v)
  with search_tables_Some [OF Some] search_patterns_unique [OF assms] show ?thesis by metis
qed

text \<open>The patterns of a channel on a platform.\<close>

definition pricing_patterns :: "Channel \<Rightarrow> string \<Rightarrow> (string \<times> ChannelModelPricing) list" where
  "pricing_patterns ch platform =
     concat (map (\<lambda>p. map (\<lambda>m. (m, p)) (cp_Models p))
       (filter (\<lambda>p. platform = cp_Platform p) (ch_ModelPricing ch)))"

definition mapping_patterns :: "Channel \<Rightarrow> string \<Rightarrow> (string \<times> string) list" where
  "mapping_patterns ch platform = option_or (map_of (ch_ModelMapping ch) platform) []"

lemma exact_of_simps:
  "exact_of [] = []"
  "exact_of ((p, v) # ps) = (if is_wildcard p then exact_of ps else (ToLower p, v) # exact_of ps)"
  "exact_of (ps @ qs) = exact_of ps @ exact_of qs"
  by (auto simp: exact_of_def)

lemma wild_of_simps:
  "wild_of [] = []"
  "wild_of ((p, v) # ps) = (if is_wildcard p then (ToLower (TrimSuffix p ''*''), v) # wild_of ps else wild_of ps)"
  "wild_of (ps @ qs) = wild_of ps @ wild_of qs"
  by (auto simp: wild_of_def)

text \<open>What a group's tables on a platform are: a pair of exact table and wildcard list.\<close>

type_synonym 'v tables = "(string \<Rightarrow> 'v option) \<times> (string \<times> 'v) list"

definition price_tables :: "int \<Rightarrow> string \<Rightarrow> channelCache \<Rightarrow> ChannelModelPricing tables" where
  "price_tables g pl c =
     (\<lambda>l. cc_pricingByGroupModel c (g, pl, l), cc_wildcardByGroupPlatform c (g, pl))"

definition mapping_tables :: "int \<Rightarrow> string \<Rightarrow> channelCache \<Rightarrow> string tables" where
  "mapping_tables g pl c =
     (\<lambda>l. cc_mappingByGroupModel c (g, pl, l), cc_wildcardMappingByGP c (g, pl))"

definition add_patterns :: "'v tables \<Rightarrow> (string \<times> 'v) list \<Rightarrow> 'v tables" where
  "add_patterns t ps = (fst t ++ map_of (rev (exact_of ps)), snd t @ wild_of ps)"

lemma add_patterns_Nil [simp]: "add_patterns t [] = t"
  by (simp add: add_patterns_def exact_of_simps wild_of_simps)

lemma add_patterns_append: "add_patterns (add_patterns t ps) qs = add_patterns t (ps @ qs)"
  by (simp add: add_patterns_def exact_of_simps wild_of_simps)

lemma fold_add_patterns:
  "(\<And>x c. x \<in> set xs \<Longrightarrow> f (s x c) = add_patterns (f c) (ps x)) \<Longrightarrow>
     f (fold s xs c) = add_patterns (f c) (concat (map ps xs))"
  by (induction xs arbitrary: c) (simp_all add: add_patterns_append)

lemma expand_price_tables:
  "price_tables g pl (expand_price g' p m c) =
     add_patterns (price_tables g pl c) (if g = g' \<and> pl = cp_Platform p then [(m, p)] else [])"
  by (auto simp: price_tables_def expand_price_def add_patterns_def exact_of_simps wild_of_simps
      Let_def fun_eq_iff map_add_def)

lemma expand_mapping_tables:
  "mapping_tables g pl (expand_mapping g' pl' st c) =
     add_patterns (mapping_tables g pl c) (if g = g' \<and> pl = pl' then [st] else [])"
  by (cases st) (auto simp: mapping_tables_def expand_mapping_def add_patterns_def exact_of_simps
      wild_of_simps Let_def fun_eq_iff map_add_def)

lemma concat_Nils [simp]: "concat (map (\<lambda>x. []) xs) = []"
  by simp

lemma concat_singletons: "concat (map (\<lambda>m. [f m]) ms) = map f ms"
  by (induction ms) auto

lemma concat_filter: "concat (map (\<lambda>p. if Q p then f p else []) ps) = concat (map f (filter Q ps))"
  by (induction ps) auto

lemma expandPricing_tables:
  "price_tables g pl (expandPricingToCache ch g' pl' c) =
     add_patterns (price_tables g pl c) (if g = g' \<and> pl = pl' then pricing_patterns ch pl else [])"
proof -
  have "price_tables g pl (expandPricingToCache ch g' pl' c) =
      add_patterns (price_tables g pl c) (concat (map (\<lambda>p.
        if g = g' \<and> pl = pl' \<and> pl = cp_Platform p then map (\<lambda>m. (m, p)) (cp_Models p) else [])
        (ch_ModelPricing ch)))"
    unfolding expandPricingToCache_def
  proof (rule fold_add_patterns)
    fix p c
    have "price_tables g pl (fold (expand_price g' p) (cp_Models p) c) =
        add_patterns (price_tables g pl c)
          (concat (map (\<lambda>m. if g = g' \<and> pl = cp_Platform p then [(m, p)] else []) (cp_Models p)))"
      by (rule fold_add_patterns) (rule expand_price_tables)
    then show "price_tables g pl (if \<not> isPlatformPricingMatch pl' (cp_Platform p) then c
          else fold (expand_price g' p) (cp_Models p) c) =
        add_patterns (price_tables g pl c)
          (if g = g' \<and> pl = pl' \<and> pl = cp_Platform p then map (\<lambda>m. (m, p)) (cp_Models p) else [])"
      by (auto simp: isPlatformPricingMatch_def concat_singletons)
  qed
  also have "(concat (map (\<lambda>p.
        if g = g' \<and> pl = pl' \<and> pl = cp_Platform p then map (\<lambda>m. (m, p)) (cp_Models p) else [])
        (ch_ModelPricing ch))) = (if g = g' \<and> pl = pl' then pricing_patterns ch pl else [])"
    using concat_filter [of "\<lambda>p. pl = cp_Platform p" "\<lambda>p. map (\<lambda>m. (m, p)) (cp_Models p)"]
    by (auto simp: pricing_patterns_def)
  finally show ?thesis .
qed

lemma expandMapping_tables:
  "mapping_tables g pl (expandMappingToCache ch g' pl' c) =
     add_patterns (mapping_tables g pl c) (if g = g' \<and> pl = pl' then mapping_patterns ch pl else [])"
proof -
  have "mapping_tables g pl (fold (expand_mapping g' pl') m c) = add_patterns (mapping_tables g pl c)
      (concat (map (\<lambda>st. if g = g' \<and> pl = pl' then [st] else []) m))" for m
    by (rule fold_add_patterns) (rule expand_mapping_tables)
  then show ?thesis
    using concat_singletons [of "\<lambda>x. x"]
    by (auto simp: expandMappingToCache_def matchingPlatforms_def mapping_patterns_def split: option.splits)
qed

lemma fold_frame: "(\<And>x c. x \<in> set xs \<Longrightarrow> f (s x c) = f c) \<Longrightarrow> f (fold s xs c) = f c"
  by (induction xs arbitrary: c) simp_all

lemma expand_price_frame [simp]:
  "mapping_tables g pl (expand_price g' p m c) = mapping_tables g pl c"
  "cc_channelByGroupID (expand_price g' p m c) = cc_channelByGroupID c"
  "cc_groupPlatform (expand_price g' p m c) = cc_groupPlatform c"
  "cc_loadedAt (expand_price g' p m c) = cc_loadedAt c"
  by (simp_all add: expand_price_def mapping_tables_def Let_def)

lemma expand_mapping_frame [simp]:
  "price_tables g pl (expand_mapping g' pl' st c) = price_tables g pl c"
  "cc_channelByGroupID (expand_mapping g' pl' st c) = cc_channelByGroupID c"
  "cc_groupPlatform (expand_mapping g' pl' st c) = cc_groupPlatform c"
  "cc_loadedAt (expand_mapping g' pl' st c) = cc_loadedAt c"
  by (simp_all add: expand_mapping_def price_tables_def Let_def split_beta)

lemma expandPricing_frame [simp]:
  "mapping_tables g pl (expandPricingToCache ch g' pl' c) = mapping_tables g pl c"
  "cc_channelByGroupID (expandPricingToCache ch g' pl' c) = cc_channelByGroupID c"
  "cc_groupPlatform (expandPricingToCache ch g' pl' c) = cc_groupPlatform c"
  "cc_loadedAt (expandPricingToCache ch g' pl' c) = cc_loadedAt c"
  unfolding expandPricingToCache_def by (rule fold_frame; simp add: fold_frame)+

lemma expandMapping_frame [simp]:
  "price_tables g pl (expandMappingToCache ch g' pl' c) = price_tables g pl c"
  "cc_channelByGroupID (expandMappingToCache ch g' pl' c) = cc_channelByGroupID c"
  "cc_groupPlatform (expandMappingToCache ch g' pl' c) = cc_groupPlatform c"
  "cc_loadedAt (expandMappingToCache ch g' pl' c) = cc_loadedAt c"
  unfolding expandMappingToCache_def matchingPlatforms_def
  by (simp_all add: fold_frame split: option.splits)

abbreviation group_platform :: "(int \<Rightarrow> string option) \<Rightarrow> int \<Rightarrow> string" where
  "group_platform gp g \<equiv> option_or (gp g) ''''"

lemma cache_group_tables [simp]:
  "price_tables g pl (cache_group gp ch g' c) = add_patterns (price_tables g pl c)
     (if g = g' \<and> pl = group_platform gp g then pricing_patterns ch pl else [])"
  "mapping_tables g pl (cache_group gp ch g' c) = add_patterns (mapping_tables g pl c)
     (if g = g' \<and> pl = group_platform gp g then mapping_patterns ch pl else [])"
  "cc_channelByGroupID (cache_group gp ch g' c) = (cc_channelByGroupID c)(g' \<mapsto> ch)"
  "cc_groupPlatform (cache_group gp ch g' c) = cc_groupPlatform c"
  "cc_loadedAt (cache_group gp ch g' c) = cc_loadedAt c"
  by (auto simp: cache_group_def Let_def expandPricing_tables expandMapping_tables)
    (simp_all add: price_tables_def mapping_tables_def)

lemma normalize_simps [simp]:
  "ch_ID (normalizeBillingModelSource ch) = ch_ID ch"
  "ch_Status (normalizeBillingModelSource ch) = ch_Status ch"
  "ch_RestrictModels (normalizeBillingModelSource ch) = ch_RestrictModels ch"
  "ch_GroupIDs (normalizeBillingModelSource ch) = ch_GroupIDs ch"
  "ch_ModelPricing (normalizeBillingModelSource ch) = ch_ModelPricing ch"
  "ch_ModelMapping (normalizeBillingModelSource ch) = ch_ModelMapping ch"
  "pricing_patterns (normalizeBillingModelSource ch) = pricing_patterns ch"
  "mapping_patterns (normalizeBillingModelSource ch) = mapping_patterns ch"
  by (auto simp: normalizeBillingModelSource_def pricing_patterns_def mapping_patterns_def)

definition owned :: "int \<Rightarrow> bool \<Rightarrow> ('c \<Rightarrow> int list) \<Rightarrow> ('c \<Rightarrow> 'v list) \<Rightarrow> 'c \<Rightarrow> 'v list" where
  "owned g Q f P x = concat (map (\<lambda>g'. if g = g' \<and> Q then P x else []) (f x))"

lemma cache_channel_tables [simp]:
  "price_tables g pl (cache_channel gp ch c) = add_patterns (price_tables g pl c)
     (owned g (pl = group_platform gp g) ch_GroupIDs (\<lambda>ch. pricing_patterns ch pl) ch)"
  "mapping_tables g pl (cache_channel gp ch c) = add_patterns (mapping_tables g pl c)
     (owned g (pl = group_platform gp g) ch_GroupIDs (\<lambda>ch. mapping_patterns ch pl) ch)"
proof -
  have "price_tables g pl (fold (cache_group gp (normalizeBillingModelSource ch)) gs c') =
      add_patterns (price_tables g pl c') (concat (map (\<lambda>g'. if g = g' \<and> pl = group_platform gp g
        then pricing_patterns ch pl else []) gs))" for gs c'
    by (rule fold_add_patterns) simp
  then show "price_tables g pl (cache_channel gp ch c) = add_patterns (price_tables g pl c)
     (owned g (pl = group_platform gp g) ch_GroupIDs (\<lambda>ch. pricing_patterns ch pl) ch)"
    by (simp add: cache_channel_def Let_def owned_def) (simp add: price_tables_def)
  have "mapping_tables g pl (fold (cache_group gp (normalizeBillingModelSource ch)) gs c') =
      add_patterns (mapping_tables g pl c') (concat (map (\<lambda>g'. if g = g' \<and> pl = group_platform gp g
        then mapping_patterns ch pl else []) gs))" for gs c'
    by (rule fold_add_patterns) simp
  then show "mapping_tables g pl (cache_channel gp ch c) = add_patterns (mapping_tables g pl c)
     (owned g (pl = group_platform gp g) ch_GroupIDs (\<lambda>ch. mapping_patterns ch pl) ch)"
    by (simp add: cache_channel_def Let_def owned_def) (simp add: mapping_tables_def)
qed

lemma cache_channel_frame [simp]:
  "cc_groupPlatform (cache_channel gp ch c) = cc_groupPlatform c"
  "cc_loadedAt (cache_channel gp ch c) = cc_loadedAt c"
  by (simp_all add: cache_channel_def Let_def fold_frame [where f = cc_groupPlatform]
      fold_frame [where f = cc_loadedAt])

lemma cache_channel_owner:
  "cc_channelByGroupID (cache_channel gp ch c) g =
     (if g \<in> set (ch_GroupIDs ch) then Some (normalizeBillingModelSource ch) else cc_channelByGroupID c g)"
proof -
  have "cc_channelByGroupID (fold (cache_group gp x) gs c') g =
      (if g \<in> set gs then Some x else cc_channelByGroupID c' g)" for x gs c'
    by (induction gs arbitrary: c') auto
  then show ?thesis by (simp add: cache_channel_def Let_def)
qed

lemma concat_if_none:
  "g \<notin> set gs \<Longrightarrow> concat (map (\<lambda>g'. if g = g' \<and> Q then v else []) gs) = []"
  by (induction gs) auto

lemma concat_if_one:
  "distinct gs \<Longrightarrow> g \<in> set gs \<Longrightarrow>
     concat (map (\<lambda>g'. if g = g' \<and> Q then v else []) gs) = (if Q then v else [])"
proof (induction gs)
  case (Cons y ys)
  then show ?case using concat_if_none [of g ys Q v] by (cases "g = y") auto
qed simp

lemma owned_none: "g \<notin> set (f x) \<Longrightarrow> owned g Q f P x = []"
  unfolding owned_def by (rule concat_if_none)

lemma owned_one: "distinct (f x) \<Longrightarrow> g \<in> set (f x) \<Longrightarrow> owned g Q f P x = (if Q then P x else [])"
  unfolding owned_def by (rule concat_if_one)

lemma concat_owned:
  assumes "distinct (concat (map f xs))" and "x \<in> set xs" and "g \<in> set (f x)"
  shows "concat (map (owned g Q f P) xs) = (if Q then P x else [])"
  using assms
proof (induction xs)
  case Nil
  then show ?case by simp
next
  case (Cons y ys)
  show ?case
  proof (cases "g \<in> set (f y)")
    case True
    with Cons.prems have "x = y" by auto
    moreover have "concat (map (owned g Q f P) ys) = []"
      using True Cons.prems(1) by (auto intro!: owned_none)
    moreover have "owned g Q f P y = (if Q then P y else [])"
      using True Cons.prems(1) by (simp add: owned_one)
    ultimately show ?thesis by (simp del: concat_eq_Nil_conv)
  next
    case False
    with Cons show ?thesis by (auto simp: owned_none)
  qed
qed

text \<open>The database lists each group at one channel only (a unique index on the group).\<close>

definition one_channel_per_group :: "Channel list \<Rightarrow> bool" where
  "one_channel_per_group channels \<longleftrightarrow> distinct (concat (map ch_GroupIDs channels))"

lemma populate_tables:
  assumes "one_channel_per_group channels" and "ch \<in> set channels" and "g \<in> set (ch_GroupIDs ch)"
  shows "price_tables g pl (populateChannelCache channels gp now) =
      add_patterns (Map.empty, []) (if pl = group_platform gp g then pricing_patterns ch pl else [])"
    and "mapping_tables g pl (populateChannelCache channels gp now) =
      add_patterns (Map.empty, []) (if pl = group_platform gp g then mapping_patterns ch pl else [])"
proof -
  note own = concat_owned [OF assms(1) [unfolded one_channel_per_group_def] assms(2,3)]
  show "price_tables g pl (populateChannelCache channels gp now) =
      add_patterns (Map.empty, []) (if pl = group_platform gp g then pricing_patterns ch pl else [])"
    unfolding populateChannelCache_def
    by (subst fold_add_patterns [where f = "price_tables g pl", OF cache_channel_tables(1)])
      (simp add: own price_tables_def newEmptyChannelCache_def)
  show "mapping_tables g pl (populateChannelCache channels gp now) =
      add_patterns (Map.empty, []) (if pl = group_platform gp g then mapping_patterns ch pl else [])"
    unfolding populateChannelCache_def
    by (subst fold_add_patterns [where f = "mapping_tables g pl", OF cache_channel_tables(2)])
      (simp add: own mapping_tables_def newEmptyChannelCache_def)
qed

lemma populate_owner:
  assumes "one_channel_per_group channels" and "ch \<in> set channels" and "g \<in> set (ch_GroupIDs ch)"
  shows "cc_channelByGroupID (populateChannelCache channels gp now) g = Some (normalizeBillingModelSource ch)"
  unfolding populateChannelCache_def
proof (rule fold_establishes [OF assms(2)])
  fix y and c :: channelCache
  assume y: "y \<in> set channels" and c: "cc_channelByGroupID c g = Some (normalizeBillingModelSource ch)"
  show "cc_channelByGroupID (cache_channel gp y c) g = Some (normalizeBillingModelSource ch)"
  proof (cases "g \<in> set (ch_GroupIDs y)")
    case True
    have "distinct (concat (map ch_GroupIDs channels))"
      using assms(1) by (simp add: one_channel_per_group_def)
    from concat_owned [OF this assms(2,3), of True "\<lambda>x. [x]"] concat_owned [OF this y True, of True "\<lambda>x. [x]"]
    have "y = ch" by simp
    with True show ?thesis by (simp add: cache_channel_owner)
  qed (simp add: cache_channel_owner c)
qed (simp add: cache_channel_owner assms(3))

lemma populate_frame [simp]:
  "cc_groupPlatform (populateChannelCache channels gp now) = gp"
  "cc_loadedAt (populateChannelCache channels gp now) = now"
  by (simp_all add: populateChannelCache_def fold_frame [where f = cc_groupPlatform]
      fold_frame [where f = cc_loadedAt])

lemma populate_no_owner:
  "\<forall>ch \<in> set channels. g \<notin> set (ch_GroupIDs ch) \<Longrightarrow>
     cc_channelByGroupID (populateChannelCache channels gp now) g = None"
  unfolding populateChannelCache_def
  by (rule fold_keeps) (auto simp: newEmptyChannelCache_def cache_channel_owner)

section \<open>Valid configurations\<close>

lemma fold_append:
  "(\<And>x c. x \<in> set xs \<Longrightarrow> f (s x c) = f c @ ps x) \<Longrightarrow> f (fold s xs c) = f c @ concat (map ps xs)"
  by (induction xs arbitrary: c) simp_all

lemma group_models_entries:
  "option_or (map_of (group_models (ch_ModelPricing ch)) pl) [] =
     map toModelEntry (map fst (pricing_patterns ch pl))"
proof -
  let ?f = "\<lambda>acc. option_or (map_of acc pl) []"
  have step: "?f (fold (\<lambda>m acc. AList.update q (option_or (map_of acc q) [] @ [toModelEntry m]) acc) ms acc) =
      ?f acc @ (if pl = q then map toModelEntry ms else [])" for q ms acc
    by (subst fold_append [where f = ?f and ps = "\<lambda>m. if pl = q then [toModelEntry m] else []"])
      (auto simp: map_of_AList_update concat_singletons)
  have "?f (group_models (ch_ModelPricing ch)) =
      [] @ concat (map (\<lambda>p. if pl = cp_Platform p then map toModelEntry (cp_Models p) else [])
        (ch_ModelPricing ch))"
    unfolding group_models_def by (subst fold_append [where f = ?f, OF step]) simp
  also have "\<dots> = map toModelEntry (map fst (pricing_patterns ch pl))"
    by (simp add: concat_filter pricing_patterns_def map_concat comp_def)
  finally show ?thesis .
qed

lemma validateNoConflictingModels_sound:
  assumes "validateNoConflictingModels (ch_ModelPricing ch) = None"
  shows "conflict_free (map fst (pricing_patterns ch pl))"
proof (cases "map_of (group_models (ch_ModelPricing ch)) pl")
  case None
  then show ?thesis
    using group_models_entries [of ch pl] by (simp add: conflict_free_def)
next
  case (Some es)
  from map_of_SomeD [OF this] assms have "detectConflicts es = None"
    by (fastforce simp: validateNoConflictingModels_def first_error_None)
  with Some show ?thesis
    using group_models_entries [of ch pl] by (simp add: conflict_free_def detectConflicts_None)
qed

lemma validateNoConflictingMappings_sound:
  assumes "validateNoConflictingMappings (ch_ModelMapping ch) = None"
  shows "conflict_free (map fst (mapping_patterns ch pl))"
proof (cases "map_of (ch_ModelMapping ch) pl")
  case None
  then show ?thesis by (simp add: conflict_free_def mapping_patterns_def)
next
  case (Some m)
  from map_of_SomeD [OF this] assms have "detectConflicts (map (\<lambda>st. toModelEntry (fst st)) m) = None"
    by (fastforce simp: validateNoConflictingMappings_def first_error_None)
  with Some show ?thesis
    by (simp add: conflict_free_def detectConflicts_None mapping_patterns_def comp_def)
qed

definition config_valid :: "Channel \<Rightarrow> bool" where
  "config_valid ch \<longleftrightarrow> validateChannelConfig (ch_ModelPricing ch) (ch_ModelMapping ch) = None"

text \<open>What the validation grants each price entry.\<close>

definition price_entry_wf :: "ChannelModelPricing \<Rightarrow> bool" where
  "price_entry_wf p \<longleftrightarrow>
     \<not> price_negative (cp_InputPrice p) \<and> \<not> price_negative (cp_OutputPrice p) \<and>
     \<not> price_negative (cp_CacheWritePrice p) \<and> \<not> price_negative (cp_CacheReadPrice p) \<and>
     \<not> price_negative (cp_ImageOutputPrice p) \<and> \<not> price_negative (cp_PerRequestPrice p) \<and>
     ValidateIntervals (cp_Intervals p) = None \<and>
     (\<forall>iv \<in> set (cp_Intervals p). interval_has_price iv)"

lemma checkPricesNotNegative_None:
  "checkPricesNotNegative p = None \<longleftrightarrow>
     \<not> price_negative (cp_InputPrice p) \<and> \<not> price_negative (cp_OutputPrice p) \<and>
     \<not> price_negative (cp_CacheWritePrice p) \<and> \<not> price_negative (cp_CacheReadPrice p) \<and>
     \<not> price_negative (cp_ImageOutputPrice p) \<and> \<not> price_negative (cp_PerRequestPrice p)"
  by (auto simp: checkPricesNotNegative_def split: if_splits)

lemma if_Some_None: "(if b then Some x else None) = None \<longleftrightarrow> \<not> b"
  by simp

lemma checkIntervalsHavePrices_None:
  "checkIntervalsHavePrices p = None \<longleftrightarrow> (\<forall>iv \<in> set (cp_Intervals p). interval_has_price iv)"
  by (simp add: checkIntervalsHavePrices_def first_error_None if_Some_None)

lemma config_valid_parts:
  assumes "config_valid ch"
  shows "conflict_free (map fst (pricing_patterns ch pl))"
    and "conflict_free (map fst (mapping_patterns ch pl))"
    and "p \<in> set (ch_ModelPricing ch) \<Longrightarrow> price_entry_wf p"
proof -
  have e: "validatePricingEntries (ch_ModelPricing ch) = None"
    and m: "validateNoConflictingMappings (ch_ModelMapping ch) = None"
    using assms by (auto simp: config_valid_def validateChannelConfig_def split: option.splits)
  have c: "validateNoConflictingModels (ch_ModelPricing ch) = None"
    and i: "validatePricingIntervals (ch_ModelPricing ch) = None"
    and b: "validatePricingBillingMode (ch_ModelPricing ch) = None"
    using e by (auto simp: validatePricingEntries_def split: option.splits)
  show "conflict_free (map fst (pricing_patterns ch pl))"
    by (rule validateNoConflictingModels_sound [OF c])
  show "conflict_free (map fst (mapping_patterns ch pl))"
    by (rule validateNoConflictingMappings_sound [OF m])
  show "price_entry_wf p" if p: "p \<in> set (ch_ModelPricing ch)"
  proof -
    have "ValidateIntervals (cp_Intervals p) = None"
      using i p by (simp add: validatePricingIntervals_def first_error_None)
    moreover have "checkPricesNotNegative p = None" and "checkIntervalsHavePrices p = None"
      using b p by (auto simp: validatePricingBillingMode_def first_error_None split: option.splits)
    ultimately show ?thesis
      by (simp add: price_entry_wf_def checkPricesNotNegative_None checkIntervalsHavePrices_None)
  qed
qed

lemma lookupPricing_tables:
  "lookupPricingAcrossPlatforms c g pl l =
     search_tables (fst (price_tables g pl c)) (snd (price_tables g pl c)) l"
  by (auto simp: lookupPricingAcrossPlatforms_def matchingPlatforms_def matchWildcard_def
      search_tables_def price_tables_def split: option.splits)

lemma lookupMapping_tables:
  "lookupMappingAcrossPlatforms c g pl l =
     option_or (search_tables (fst (mapping_tables g pl c)) (snd (mapping_tables g pl c)) l) ''''"
  by (auto simp: lookupMappingAcrossPlatforms_def matchingPlatforms_def matchWildcardMapping_def
      search_tables_def mapping_tables_def Let_def split: option.splits)

lemma search_add_patterns:
  assumes "conflict_free (map fst ps)"
  shows "search_tables (fst (add_patterns (Map.empty, []) ps)) (snd (add_patterns (Map.empty, []) ps)) l =
     search_patterns ps l"
  using search_tables_patterns [OF assms] by (simp add: add_patterns_def)

text \<open>A snapshot of valid channels answers for a group as its channel's own patterns do.\<close>

definition cached :: "Channel list \<Rightarrow> (int \<Rightarrow> string option) \<Rightarrow> instant \<Rightarrow> channel_service \<Rightarrow> bool" where
  "cached channels gp now svc \<longleftrightarrow>
     (\<exists>t. cs_cache svc = Some (populateChannelCache channels gp t) \<and> now - t < channelCacheTTL)"

lemma cached_load:
  assumes "cached channels gp now svc"
  obtains t where "loadCache now svc = (Some (populateChannelCache channels gp t), svc)"
  using assms by (auto simp: cached_def loadCache_def)

lemma cached_lookup:
  assumes "cached channels gp now svc" and "one_channel_per_group channels"
    and "ch \<in> set channels" and "g \<in> set (ch_GroupIDs ch)"
  obtains t where "lookupGroupChannel now g svc =
      (Some (if IsActive ch then Some \<lparr>lk_cache = populateChannelCache channels gp t,
                lk_channel = normalizeBillingModelSource ch, lk_platform = group_platform gp g\<rparr>
             else None), svc)"
proof -
  obtain t where "loadCache now svc = (Some (populateChannelCache channels gp t), svc)"
    using cached_load [OF assms(1)] .
  with populate_owner [OF assms(2-4), of gp t] show ?thesis
    by (intro that [of t]) (simp add: lookupGroupChannel_def lookup_group_def IsActive_def)
qed

lemma cached_price:
  assumes "one_channel_per_group channels" and "ch \<in> set channels" and "g \<in> set (ch_GroupIDs ch)"
    and "config_valid ch"
  shows "lookupPricingAcrossPlatforms (populateChannelCache channels gp t) g (group_platform gp g) l =
     search_patterns (pricing_patterns ch (group_platform gp g)) l"
  unfolding lookupPricing_tables populate_tables(1) [OF assms(1-3)]
  using search_add_patterns [OF config_valid_parts(1) [OF assms(4)]] by simp

lemma cached_mapping:
  assumes "one_channel_per_group channels" and "ch \<in> set channels" and "g \<in> set (ch_GroupIDs ch)"
    and "config_valid ch"
  shows "lookupMappingAcrossPlatforms (populateChannelCache channels gp t) g (group_platform gp g) l =
     option_or (search_patterns (mapping_patterns ch (group_platform gp g)) l) ''''"
  unfolding lookupMapping_tables populate_tables(2) [OF assms(1-3)]
  using search_add_patterns [OF config_valid_parts(2) [OF assms(4)]] by simp

lemma search_patterns_permuted:
  assumes "conflict_free (map fst ps)" and "mset ps = mset qs"
  shows "search_patterns qs l = search_patterns ps l"
proof -
  have "length (filter (\<lambda>q. pattern_matches q l) (map fst ps)) \<le> 1"
    using assms(1) no_conflict_unique unfolding conflict_free_def by blast
  then have "length (filter (\<lambda>(q, v). pattern_matches q l) ps) \<le> 1"
    by (simp add: filter_map comp_def case_prod_beta')
  from find_permuted [OF this assms(2)] show ?thesis by (simp add: search_patterns_def)
qed

section \<open>The interface of the price source\<close>

text \<open>
  What the pricing resolver relies on: a lookup keeps the invariant of the source, the
  entries it finds passed the validation, and the case of the model does not matter.
\<close>

locale channel_price_source =
  fixes source_inv :: "'s \<Rightarrow> bool"
    and price_of :: "instant \<Rightarrow> int \<Rightarrow> string \<Rightarrow> 's \<Rightarrow> ChannelModelPricing option \<times> 's"
  assumes price_of_inv: "source_inv s \<Longrightarrow> source_inv (snd (price_of now g m s))"
    and price_of_wf: "source_inv s \<Longrightarrow> fst (price_of now g m s) = Some p \<Longrightarrow> price_entry_wf p"
    and price_of_case: "ToLower m = ToLower m' \<Longrightarrow> price_of now g m s = price_of now g m' s"
begin

lemma found_interval_unique:
  assumes "source_inv s" and "fst (price_of now g m s) = Some p"
  shows "length (filter (interval_matches n) (cp_Intervals p)) \<le> 1"
  using price_of_wf [OF assms] ValidateIntervals_matches by (simp add: price_entry_wf_def)

lemma found_intervals_wf:
  assumes "source_inv s" and "fst (price_of now g m s) = Some p"
  shows "list_all interval_wf (cp_Intervals p)"
  using price_of_wf [OF assms] ValidateIntervals_wf(1) by (simp add: price_entry_wf_def)

end

definition cache_prices :: "(ChannelModelPricing \<Rightarrow> bool) \<Rightarrow> channelCache \<Rightarrow> bool" where
  "cache_prices P c \<longleftrightarrow>
     (\<forall>k p. cc_pricingByGroupModel c k = Some p \<longrightarrow> P p) \<and>
     (\<forall>k. \<forall>w \<in> set (cc_wildcardByGroupPlatform c k). P (snd w))"

definition service_inv :: "channel_service \<Rightarrow> bool" where
  "service_inv svc \<longleftrightarrow>
     list_all config_valid (cs_channels svc) \<and>
     (case cs_cache svc of None \<Rightarrow> True | Some c \<Rightarrow> cache_prices price_entry_wf c)"

lemma cache_prices_empty [simp]: "cache_prices P (newEmptyChannelCache\<lparr>cc_loadedAt := t\<rparr>)"
  by (simp add: cache_prices_def newEmptyChannelCache_def)

lemma cache_prices_expand_mapping [simp]: "cache_prices P (expand_mapping g pl st c) = cache_prices P c"
  by (simp add: cache_prices_def expand_mapping_def split_beta Let_def)

lemma cache_prices_expand_price: "cache_prices P c \<Longrightarrow> P p \<Longrightarrow> cache_prices P (expand_price g p m c)"
  by (auto simp: cache_prices_def expand_price_def Let_def)

lemma cache_prices_group:
  assumes "cache_prices P c" and "\<And>p. p \<in> set (ch_ModelPricing ch) \<Longrightarrow> P p"
  shows "cache_prices P (cache_group gp ch g c)"
proof -
  have m: "cache_prices P (expandMappingToCache ch g pl c') = cache_prices P c'" for pl c'
    by (simp add: expandMappingToCache_def matchingPlatforms_def fold_frame [where f = "cache_prices P"]
        split: option.splits)
  have "cache_prices P (expandPricingToCache ch g pl c')" if "cache_prices P c'" for pl c'
    unfolding expandPricingToCache_def
    by (rule fold_keeps [where P = "cache_prices P", OF that]) (auto intro!: fold_keeps [where P = "cache_prices P"]
        cache_prices_expand_price assms(2))
  moreover have "cache_prices P (c\<lparr>cc_channelByGroupID := x\<rparr>)" for x
    using assms(1) by (simp add: cache_prices_def)
  ultimately show ?thesis by (simp add: cache_group_def Let_def m)
qed

lemma cache_prices_populate:
  assumes "\<And>ch p. ch \<in> set channels \<Longrightarrow> p \<in> set (ch_ModelPricing ch) \<Longrightarrow> P p"
  shows "cache_prices P (populateChannelCache channels gp now)"
  unfolding populateChannelCache_def
proof (rule fold_keeps)
  show "cache_prices P (newEmptyChannelCache\<lparr>cc_groupPlatform := gp, cc_loadedAt := now\<rparr>)"
    by (simp add: cache_prices_def newEmptyChannelCache_def)
next
  fix ch c
  assume "ch \<in> set channels" and "cache_prices P c"
  then show "cache_prices P (cache_channel gp ch c)"
    unfolding cache_channel_def Let_def
    by (intro fold_keeps [where P = "cache_prices P"] cache_prices_group)
      (auto simp: cache_prices_def intro: assms)
qed

lemma fetchChannelData_result:
  "fetchChannelData now svc = (Some (chs, gp), svc') \<Longrightarrow>
     chs = cs_channels svc \<and> cs_channels svc' = cs_channels svc \<and> cs_platforms svc' = cs_platforms svc \<and>
     cs_cache svc' = cs_cache svc"
  "fetchChannelData now svc = (None, svc') \<Longrightarrow>
     cs_channels svc' = cs_channels svc \<and> cs_platforms svc' = cs_platforms svc \<and>
     cs_cache svc' = Some (newEmptyChannelCache\<lparr>cc_loadedAt := now - (channelCacheTTL - channelErrorTTL)\<rparr>)"
  by (auto simp: fetchChannelData_def storeErrorCache_def Let_def split: prod.splits if_splits)

lemma populate_valid:
  assumes "list_all config_valid channels"
  shows "cache_prices price_entry_wf (populateChannelCache channels gp now)"
proof (rule cache_prices_populate)
  fix ch p
  assume "ch \<in> set channels" and p: "p \<in> set (ch_ModelPricing ch)"
  with assms have "config_valid ch" by (simp add: list_all_iff)
  then show "price_entry_wf p" using p by (rule config_valid_parts(3))
qed

lemma buildCache_cases:
  obtains gp svc' where "buildCache now svc = (Some (populateChannelCache (cs_channels svc) gp now), svc')"
      and "cs_cache svc' = Some (populateChannelCache (cs_channels svc) gp now)"
      and "cs_channels svc' = cs_channels svc"
  | svc' where "buildCache now svc = (None, svc')" and "cs_channels svc' = cs_channels svc"
      and "cs_cache svc' = Some (newEmptyChannelCache\<lparr>cc_loadedAt := now - (channelCacheTTL - channelErrorTTL)\<rparr>)"
proof (cases "fetchChannelData now svc")
  case (Pair r svc')
  show ?thesis
  proof (cases r)
    case None
    with Pair fetchChannelData_result(2) [of now svc svc'] show ?thesis
      by (intro that(2) [of svc']) (simp_all add: buildCache_def)
  next
    case (Some x)
    obtain chs gp where x: "x = (chs, gp)" by (cases x)
    with Pair Some fetchChannelData_result(1) [of now svc chs gp svc'] have "chs = cs_channels svc"
      and "cs_channels svc' = cs_channels svc" by simp_all
    with Pair Some x show ?thesis
      by (intro that(1) [of gp "svc'\<lparr>cs_cache := Some (populateChannelCache chs gp now)\<rparr>"])
        (simp_all add: buildCache_def Let_def)
  qed
qed

lemma buildCache_inv: "list_all config_valid (cs_channels svc) \<Longrightarrow> service_inv (snd (buildCache now svc))"
  by (cases rule: buildCache_cases [of now svc]) (auto simp: service_inv_def populate_valid)

lemma loadCache_inv: "service_inv svc \<Longrightarrow> service_inv (snd (loadCache now svc))"
  using buildCache_inv [of svc now]
  by (auto simp: loadCache_def service_inv_def split: option.splits)

lemma loadCache_cached:
  assumes "service_inv svc" and "fst (loadCache now svc) = Some c"
  shows "cache_prices price_entry_wf c"
proof -
  have "list_all config_valid (cs_channels svc)" using assms(1) by (simp add: service_inv_def)
  then have b: "cache_prices price_entry_wf c" if "fst (buildCache now svc) = Some c"
    using that populate_valid by (cases rule: buildCache_cases [of now svc]) auto
  show ?thesis
    using assms b by (auto simp: loadCache_def service_inv_def split: option.splits if_splits)
qed

lemma lookupPricing_wf:
  "cache_prices P c \<Longrightarrow> lookupPricingAcrossPlatforms c g pl l = Some p \<Longrightarrow> P p"
  by (fastforce simp: lookupPricingAcrossPlatforms_def matchingPlatforms_def matchWildcard_def
      cache_prices_def split: option.splits dest!: find_Some_mem)

interpretation prices: channel_price_source service_inv GetChannelModelPricing
proof
  show "service_inv (snd (GetChannelModelPricing now g m s))" if "service_inv s" for now g m s
    using loadCache_inv [OF that, of now]
    by (auto simp: GetChannelModelPricing_def lookupGroupChannel_def split: prod.splits option.splits)
next
  show "price_entry_wf p" if "service_inv s" and "fst (GetChannelModelPricing now g m s) = Some p"
    for now g m s p
    using loadCache_cached [OF that(1), of now] that(2)
    by (auto simp: GetChannelModelPricing_def lookupGroupChannel_def lookup_group_def
        split: prod.splits option.splits if_splits intro: lookupPricing_wf)
next
  show "GetChannelModelPricing now g m s = GetChannelModelPricing now g m' s"
    if "ToLower m = ToLower m'" for now g m m' s
    using that by (simp only: GetChannelModelPricing_def)
qed

section \<open>Properties\<close>

text \<open>C2. For a channel with a valid configuration, the price the cached service finds for a
  group and a model is the one whose pattern matches the model in the channel's own list
  for the group's platform, and none for an inactive channel.\<close>

theorem GetChannelModelPricing_refines:
  assumes "cached channels gp now svc" and "one_channel_per_group channels"
    and "ch \<in> set channels" and "g \<in> set (ch_GroupIDs ch)" and "config_valid ch"
  shows "GetChannelModelPricing now g model svc =
     (if IsActive ch then search_patterns (pricing_patterns ch (group_platform gp g)) (ToLower model)
      else None, svc)"
proof -
  obtain t where lk: "lookupGroupChannel now g svc =
      (Some (if IsActive ch then Some \<lparr>lk_cache = populateChannelCache channels gp t,
                lk_channel = normalizeBillingModelSource ch, lk_platform = group_platform gp g\<rparr>
             else None), svc)"
    using cached_lookup [OF assms(1-4)] .
  show ?thesis
    by (simp add: GetChannelModelPricing_def lk cached_price [OF assms(2-5)])
qed

text \<open>The mapping a request gets does not depend on the order in which the entries of the
  platform's mapping are visited: it is the target of the one source pattern that matches
  the model, and the model itself when none does or the target is empty.\<close>

theorem ResolveChannelMapping_order_independent:
  assumes "cached channels gp now svc" and "one_channel_per_group channels"
    and "ch \<in> set channels" and "g \<in> set (ch_GroupIDs ch)" and "config_valid ch" and "IsActive ch"
    and "mset ps = mset (mapping_patterns ch (group_platform gp g))"
  shows "fst (ResolveChannelMapping now g model svc) =
     (let target = option_or (search_patterns ps (ToLower model)) ''''
      in \<lparr>mr_MappedModel = (if target = '''' then model else target), mr_ChannelID = ch_ID ch,
          mr_Mapped = (target \<noteq> ''''),
          mr_BillingModelSource = ch_BillingModelSource (normalizeBillingModelSource ch)\<rparr>)"
proof -
  obtain t where lk: "lookupGroupChannel now g svc =
      (Some (if IsActive ch then Some \<lparr>lk_cache = populateChannelCache channels gp t,
                lk_channel = normalizeBillingModelSource ch, lk_platform = group_platform gp g\<rparr>
             else None), svc)"
    using cached_lookup [OF assms(1-4)] .
  have "search_patterns (mapping_patterns ch (group_platform gp g)) (ToLower model) =
      search_patterns ps (ToLower model)"
    using search_patterns_permuted [OF config_valid_parts(2) [OF assms(5)]] assms(7) by metis
  then show ?thesis
    using assms(6) by (simp add: ResolveChannelMapping_def lk resolveMapping_def Let_def
        cached_mapping [OF assms(2-5)])
qed

text \<open>A channel that restricts its models lets a model pass exactly if one of its price
  patterns for the group's platform matches it; other channels restrict nothing.\<close>

theorem IsModelRestricted_iff:
  assumes "cached channels gp now svc" and "one_channel_per_group channels"
    and "ch \<in> set channels" and "g \<in> set (ch_GroupIDs ch)" and "config_valid ch"
  shows "fst (IsModelRestricted now g model svc) \<longleftrightarrow>
     IsActive ch \<and> ch_RestrictModels ch \<and>
     (\<forall>(p, v) \<in> set (pricing_patterns ch (group_platform gp g)). \<not> pattern_matches p (ToLower model))"
proof -
  obtain t where lk: "lookupGroupChannel now g svc =
      (Some (if IsActive ch then Some \<lparr>lk_cache = populateChannelCache channels gp t,
                lk_channel = normalizeBillingModelSource ch, lk_platform = group_platform gp g\<rparr>
             else None), svc)"
    using cached_lookup [OF assms(1-4)] .
  have "search_patterns ps l = None \<longleftrightarrow> (\<forall>(p, v) \<in> set ps. \<not> pattern_matches p l)"
    for ps :: "(string \<times> ChannelModelPricing) list" and l
    by (auto simp: search_patterns_def find_None_all)
  then show ?thesis
    by (simp add: IsModelRestricted_def lk checkRestricted_def cached_price [OF assms(2-5)])
qed

text \<open>After the database fails while the cache is built, lookups within the error lifetime
  are answered by an empty snapshot without touching the database, and the first one after it
  reads the database again.\<close>

theorem loadCache_error_backoff:
  assumes "loadCache now svc = (None, svc')"
  shows "\<exists>e. (\<forall>g. cc_channelByGroupID e g = None) \<and>
     (\<forall>t < now + channelErrorTTL. loadCache t svc' = (Some e, svc')) \<and>
     (\<forall>t \<ge> now + channelErrorTTL. loadCache t svc' = buildCache t svc')"
proof -
  let ?e = "newEmptyChannelCache\<lparr>cc_loadedAt := now - (channelCacheTTL - channelErrorTTL)\<rparr>"
  have "buildCache now svc = (None, svc')"
    using assms by (auto simp: loadCache_def split: option.splits if_splits)
  then have "cs_cache svc' = Some ?e"
    by (cases rule: buildCache_cases [of now svc]) auto
  then show ?thesis
    by (intro exI [of _ ?e]) (auto simp: loadCache_def newEmptyChannelCache_def)
qed

definition demo_gp :: "int \<Rightarrow> string option" where
  "demo_gp = [11 \<mapsto> ''openai'']"

definition demo_service :: channel_service where
  "demo_service = \<lparr>cs_cache = Some (populateChannelCache [demo_channel] demo_gp 0),
     cs_channels = [demo_channel], cs_platforms = demo_gp, cs_faults = []\<rparr>"

lemma demo_cached: "cached [demo_channel] demo_gp 1 demo_service"
  by (auto simp: cached_def demo_service_def channelCacheTTL_def)

lemma demo_one_channel: "one_channel_per_group [demo_channel]"
  by (simp add: one_channel_per_group_def demo_channel_def)

lemma demo_group [simp]: "demo_channel \<in> set [demo_channel]" "11 \<in> set (ch_GroupIDs demo_channel)"
  "IsActive demo_channel" "group_platform demo_gp 11 = ''openai''"
  by (simp_all add: demo_channel_def IsActive_def demo_gp_def)

lemma demo_valid: "config_valid demo_channel"
  by code_simp

lemma GetChannelModelPricing_refines_witness:
  "GetChannelModelPricing 1 11 ''GPT-5'' demo_service =
     (if IsActive demo_channel
      then search_patterns (pricing_patterns demo_channel (group_platform demo_gp 11)) (ToLower ''GPT-5'')
      else None, demo_service)"
  by (rule GetChannelModelPricing_refines [OF demo_cached demo_one_channel demo_group(1,2) demo_valid])

lemma ResolveChannelMapping_order_independent_witness:
  "mr_MappedModel (fst (ResolveChannelMapping 1 11 ''gpt-5-mini'' demo_service)) = ''GPT-5''"
proof -
  have "mset [(''gpt-5-mini'', ''GPT-5'')] = mset (mapping_patterns demo_channel (group_platform demo_gp 11))"
    by (simp add: mapping_patterns_def demo_channel_def demo_gp_def)
  moreover have "search_patterns [(''gpt-5-mini'', ''GPT-5'')] (ToLower ''gpt-5-mini'') = Some ''GPT-5''"
    by code_simp
  ultimately show ?thesis
    using ResolveChannelMapping_order_independent [OF demo_cached demo_one_channel demo_group(1,2)
        demo_valid demo_group(3), of "[(''gpt-5-mini'', ''GPT-5'')]" "''gpt-5-mini''"]
    by (simp add: Let_def)
qed

lemma IsModelRestricted_iff_witness:
  "fst (IsModelRestricted 1 11 ''o3'' demo_service)"
proof -
  have "\<forall>(p, v) \<in> set (pricing_patterns demo_channel ''openai''). \<not> pattern_matches p (ToLower ''o3'')"
    by code_simp
  moreover have "ch_RestrictModels demo_channel" by (simp add: demo_channel_def)
  ultimately show ?thesis
    using IsModelRestricted_iff [OF demo_cached demo_one_channel demo_group(1,2) demo_valid, of "''o3''"]
    by simp
qed

lemma loadCache_error_backoff_witness:
  "\<exists>svc' e. loadCache 0 (demo_service\<lparr>cs_cache := None, cs_faults := [True]\<rparr>) = (None, svc') \<and>
     loadCache 4000000000 svc' = (Some e, svc')"
proof -
  obtain svc' where s: "loadCache 0 (demo_service\<lparr>cs_cache := None, cs_faults := [True]\<rparr>) = (None, svc')"
    by (simp add: loadCache_def buildCache_def fetchChannelData_def)
  from loadCache_error_backoff [OF s] show ?thesis
    using s by (auto simp: channelErrorTTL_def)
qed

end
