(* ===== verification/Pricing.thy ===== *)
theory Pricing
  imports ChannelCache
begin

text \<open>
  Where the price of a model comes from: the price table of the billing service
  (\<open>billing_service.go\<close>) and the resolver that lets a channel override it
  (\<open>model_pricing_resolver.go\<close>).

  Both pass prices as pointers, and the hard-coded fallback prices are shared: several
  names lead to one record, and callers get the pointer itself. The model therefore has
  a heap, a list of price records, and a pointer is an index into it. A decimal literal
  of the source is the rational it denotes.

  The dynamic price service (a downloaded table with fuzzy name matching) is a function
  from the lower-case model name to its answer, or \<open>None\<close> if the service is not configured.
\<close>

section \<open>Model names of the GPT-5 and Codex family\<close>

definition codexModelMap :: "(string \<times> string) list" where
  "codexModelMap =
    [(''gpt-5.5'', ''gpt-5.5''),
     (''gpt-5.4'', ''gpt-5.4''),
     (''gpt-5.4-mini'', ''gpt-5.4-mini''),
     (''gpt-5.4-none'', ''gpt-5.4''),
     (''gpt-5.4-low'', ''gpt-5.4''),
     (''gpt-5.4-medium'', ''gpt-5.4''),
     (''gpt-5.4-high'', ''gpt-5.4''),
     (''gpt-5.4-xhigh'', ''gpt-5.4''),
     (''gpt-5.4-chat-latest'', ''gpt-5.4''),
     (''gpt-5.3'', ''gpt-5.3-codex''),
     (''gpt-5.3-none'', ''gpt-5.3-codex''),
     (''gpt-5.3-low'', ''gpt-5.3-codex''),
     (''gpt-5.3-medium'', ''gpt-5.3-codex''),
     (''gpt-5.3-high'', ''gpt-5.3-codex''),
     (''gpt-5.3-xhigh'', ''gpt-5.3-codex''),
     (''gpt-5.3-codex'', ''gpt-5.3-codex''),
     (''gpt-5.3-codex-spark'', ''gpt-5.3-codex-spark''),
     (''gpt-5.3-codex-spark-low'', ''gpt-5.3-codex-spark''),
     (''gpt-5.3-codex-spark-medium'', ''gpt-5.3-codex-spark''),
     (''gpt-5.3-codex-spark-high'', ''gpt-5.3-codex-spark''),
     (''gpt-5.3-codex-spark-xhigh'', ''gpt-5.3-codex-spark''),
     (''gpt-5.3-codex-low'', ''gpt-5.3-codex''),
     (''gpt-5.3-codex-medium'', ''gpt-5.3-codex''),
     (''gpt-5.3-codex-high'', ''gpt-5.3-codex''),
     (''gpt-5.3-codex-xhigh'', ''gpt-5.3-codex''),
     (''gpt-5.2'', ''gpt-5.2''),
     (''gpt-5.2-none'', ''gpt-5.2''),
     (''gpt-5.2-low'', ''gpt-5.2''),
     (''gpt-5.2-medium'', ''gpt-5.2''),
     (''gpt-5.2-high'', ''gpt-5.2''),
     (''gpt-5.2-xhigh'', ''gpt-5.2'')]"

definition getNormalizedCodexModel :: "string \<Rightarrow> string" where
  "getNormalizedCodexModel modelID =
     (if modelID = '''' then ''''
      else case map_of codexModelMap modelID of
             Some mapped \<Rightarrow> mapped
           | None \<Rightarrow> (case find (\<lambda>(key, value). ToLower key = ToLower modelID) codexModelMap of
                 Some (key, value) \<Rightarrow> value
               | None \<Rightarrow> ''''))"

definition isOpenAIImageGenerationModel :: "string \<Rightarrow> bool" where
  "isOpenAIImageGenerationModel model = HasPrefix (ToLower (TrimSpace model)) ''gpt-image-''"

text \<open>The part after the last slash.\<close>

definition last_part :: "string \<Rightarrow> string" where
  "last_part s = rev (takeWhile (\<lambda>c. c \<noteq> CHR ''/'') (rev s))"

definition codex_substrings :: "(string \<times> string \<times> string) list" where
  "codex_substrings =
    [(''gpt-5.5'', ''gpt 5.5'', ''gpt-5.5''),
     (''gpt-5.4-mini'', ''gpt 5.4 mini'', ''gpt-5.4-mini''),
     (''gpt-5.4'', ''gpt 5.4'', ''gpt-5.4''),
     (''gpt-5.2'', ''gpt 5.2'', ''gpt-5.2''),
     (''gpt-5.3-codex-spark'', ''gpt 5.3 codex spark'', ''gpt-5.3-codex-spark''),
     (''gpt-5.3-codex'', ''gpt 5.3 codex'', ''gpt-5.3-codex''),
     (''gpt-5.3'', ''gpt 5.3'', ''gpt-5.3-codex''),
     (''codex'', ''codex'', ''gpt-5.3-codex''),
     (''gpt-5'', ''gpt 5'', ''gpt-5.4'')]"

definition normalizeCodexModel :: "string \<Rightarrow> string" where
  "normalizeCodexModel model0 =
     (let model = TrimSpace model0
      in if model = '''' then ''gpt-5.4''
         else if isOpenAIImageGenerationModel model then model
         else let modelID = last_part model; mapped = getNormalizedCodexModel modelID
              in if mapped \<noteq> '''' then mapped
                 else let normalized = ToLower modelID
                      in case find (\<lambda>(a, b, r). Contains normalized a \<or> Contains normalized b)
                                codex_substrings of
                           Some (a, b, r) \<Rightarrow> r
                         | None \<Rightarrow> ''gpt-5.4'')"

definition isOpenAIGPT54Model :: "string \<Rightarrow> bool" where
  "isOpenAIGPT54Model model =
     (let trimmed = TrimSpace (ToLower model)
      in if \<not> Contains trimmed ''gpt-5'' \<and> \<not> Contains trimmed ''codex'' then False
         else let normalized = normalizeCodexModel trimmed
              in normalized = ''gpt-5.4'' \<or> normalized = ''gpt-5.5'')"

section \<open>Price records\<close>

record ModelPricing =
  InputPricePerToken :: float64
  InputPricePerTokenPriority :: float64
  OutputPricePerToken :: float64
  OutputPricePerTokenPriority :: float64
  CacheCreationPricePerToken :: float64
  CacheReadPricePerToken :: float64
  CacheReadPricePerTokenPriority :: float64
  CacheCreation5mPrice :: float64
  CacheCreation1hPrice :: float64
  SupportsCacheBreakdown :: bool
  LongContextInputThreshold :: int
  LongContextInputMultiplier :: float64
  LongContextOutputMultiplier :: float64
  ImageOutputPricePerToken :: float64

definition zero_pricing :: ModelPricing where
  "zero_pricing = \<lparr>InputPricePerToken = 0, InputPricePerTokenPriority = 0,
     OutputPricePerToken = 0, OutputPricePerTokenPriority = 0,
     CacheCreationPricePerToken = 0, CacheReadPricePerToken = 0, CacheReadPricePerTokenPriority = 0,
     CacheCreation5mPrice = 0, CacheCreation1hPrice = 0, SupportsCacheBreakdown = False,
     LongContextInputThreshold = 0, LongContextInputMultiplier = 0, LongContextOutputMultiplier = 0,
     ImageOutputPricePerToken = 0\<rparr>"

record LiteLLMModelPricing =
  InputCostPerToken :: float64
  InputCostPerTokenPriority :: float64
  OutputCostPerToken :: float64
  OutputCostPerTokenPriority :: float64
  CacheCreationInputTokenCost :: float64
  CacheCreationInputTokenCostAbove1hr :: float64
  CacheReadInputTokenCost :: float64
  CacheReadInputTokenCostPriority :: float64
  LongContextInputTokenThreshold :: int
  LongContextInputCostMultiplier :: float64
  LongContextOutputCostMultiplier :: float64
  OutputCostPerImage :: float64
  OutputCostPerImageToken :: float64

type_synonym addr = nat

record billing_service =
  bs_litellm :: "(string \<Rightarrow> LiteLLMModelPricing option) option"
  bs_fallback :: "string \<Rightarrow> addr option"
  bs_heap :: "ModelPricing list"

definition new_pricing :: "ModelPricing \<Rightarrow> billing_service \<Rightarrow> addr \<times> billing_service" where
  "new_pricing p s = (length (bs_heap s), s\<lparr>bs_heap := bs_heap s @ [p]\<rparr>)"

definition deref :: "billing_service \<Rightarrow> addr \<Rightarrow> ModelPricing" where
  "deref s a = bs_heap s ! a"

definition store :: "addr \<Rightarrow> ModelPricing \<Rightarrow> billing_service \<Rightarrow> billing_service" where
  "store a p s = s\<lparr>bs_heap := (bs_heap s)[a := p]\<rparr>"

text \<open>USD per million tokens.\<close>

abbreviation (input) per_mtok :: "rat \<Rightarrow> float64" where
  "per_mtok x \<equiv> Fin (x / 1000000)"

definition openAIGPT54LongContextInputThreshold :: int where
  "openAIGPT54LongContextInputThreshold = 272000"

definition openAIGPT54LongContextInputMultiplier :: float64 where
  "openAIGPT54LongContextInputMultiplier = Fin 2"

definition openAIGPT54LongContextOutputMultiplier :: float64 where
  "openAIGPT54LongContextOutputMultiplier = Fin (3 / 2)"

definition simple_pricing :: "rat \<Rightarrow> rat \<Rightarrow> rat \<Rightarrow> rat \<Rightarrow> ModelPricing" where
  "simple_pricing i out cw cr = zero_pricing
     \<lparr>InputPricePerToken := per_mtok i, OutputPricePerToken := per_mtok out,
      CacheCreationPricePerToken := per_mtok cw, CacheReadPricePerToken := per_mtok cr\<rparr>"

definition tiered_pricing :: "rat \<Rightarrow> rat \<Rightarrow> rat \<Rightarrow> rat \<Rightarrow> ModelPricing" where
  "tiered_pricing i out cw cr = (simple_pricing i out cw cr)
     \<lparr>InputPricePerTokenPriority := per_mtok (2 * i), OutputPricePerTokenPriority := per_mtok (2 * out),
      CacheReadPricePerTokenPriority := per_mtok (2 * cr)\<rparr>"

definition add_fallback :: "string \<Rightarrow> ModelPricing \<Rightarrow> billing_service \<Rightarrow> billing_service" where
  "add_fallback name p s =
     (let (a, s') = new_pricing p s in s'\<lparr>bs_fallback := (bs_fallback s')(name \<mapsto> a)\<rparr>)"

definition share_fallback :: "string \<Rightarrow> string \<Rightarrow> billing_service \<Rightarrow> billing_service" where
  "share_fallback name other s = s\<lparr>bs_fallback := (bs_fallback s)(name := bs_fallback s other)\<rparr>"

definition initFallbackPricing :: "billing_service \<Rightarrow> billing_service" where
  "initFallbackPricing s = fold (\<lambda>f. f)
    [add_fallback ''claude-opus-4.5'' (simple_pricing 5 25 (25 / 4) (1 / 2)),
     add_fallback ''claude-sonnet-4'' (simple_pricing 3 15 (15 / 4) (3 / 10)),
     add_fallback ''claude-3-5-sonnet'' (simple_pricing 3 15 (15 / 4) (3 / 10)),
     add_fallback ''claude-3-5-haiku'' (simple_pricing 1 5 (5 / 4) (1 / 10)),
     add_fallback ''claude-3-opus'' (simple_pricing 15 75 (75 / 4) (3 / 2)),
     add_fallback ''claude-3-haiku'' (simple_pricing (1 / 4) (5 / 4) (3 / 10) (3 / 100)),
     share_fallback ''claude-opus-4.6'' ''claude-opus-4.5'',
     share_fallback ''claude-opus-4.7'' ''claude-opus-4.6'',
     add_fallback ''gemini-3.1-pro'' (simple_pricing 2 12 2 (1 / 5)),
     add_fallback ''gpt-5.4'' ((tiered_pricing (5 / 2) 15 (5 / 2) (1 / 4))
       \<lparr>LongContextInputThreshold := openAIGPT54LongContextInputThreshold,
        LongContextInputMultiplier := openAIGPT54LongContextInputMultiplier,
        LongContextOutputMultiplier := openAIGPT54LongContextOutputMultiplier\<rparr>),
     share_fallback ''gpt-5.5'' ''gpt-5.4'',
     add_fallback ''gpt-5.4-mini'' (simple_pricing (3 / 4) (9 / 2) 0 (3 / 40)),
     add_fallback ''gpt-5.2'' (tiered_pricing (7 / 4) 14 (7 / 4) (7 / 40)),
     add_fallback ''gpt-5.3-codex'' (tiered_pricing (3 / 2) 12 (3 / 2) (3 / 20))] s"

definition NewBillingService :: "(string \<Rightarrow> LiteLLMModelPricing option) option \<Rightarrow> billing_service" where
  "NewBillingService pricingService =
     initFallbackPricing \<lparr>bs_litellm = pricingService, bs_fallback = Map.empty, bs_heap = []\<rparr>"

text \<open>The name of the fallback entry of a model.\<close>

definition fallback_name :: "string \<Rightarrow> string option" where
  "fallback_name modelLower =
     (let has = Contains modelLower
      in if has ''opus'' then
           (if has ''4.7'' \<or> has ''4-7'' then Some ''claude-opus-4.7''
            else if has ''4.6'' \<or> has ''4-6'' then Some ''claude-opus-4.6''
            else if has ''4.5'' \<or> has ''4-5'' then Some ''claude-opus-4.5''
            else Some ''claude-3-opus'')
         else if has ''sonnet'' then
           (if has ''4'' \<and> \<not> has ''3'' then Some ''claude-sonnet-4'' else Some ''claude-3-5-sonnet'')
         else if has ''haiku'' then
           (if has ''3-5'' \<or> has ''3.5'' then Some ''claude-3-5-haiku'' else Some ''claude-3-haiku'')
         else if has ''claude'' then Some ''claude-sonnet-4''
         else if has ''gemini-3.1-pro'' \<or> has ''gemini-3-1-pro'' then Some ''gemini-3.1-pro''
         else if has ''gpt-5'' \<or> has ''codex'' then
           (let normalized = normalizeCodexModel modelLower
            in if normalized \<in> {''gpt-5.5'', ''gpt-5.4-mini'', ''gpt-5.4'', ''gpt-5.2''} then Some normalized
               else if normalized = ''gpt-5.3-codex'' \<or> normalized = ''gpt-5.3-codex-spark''
               then Some ''gpt-5.3-codex''
               else None)
         else None)"

definition getFallbackPricing :: "string \<Rightarrow> billing_service \<Rightarrow> addr option" where
  "getFallbackPricing model s = Option.bind (fallback_name (ToLower model)) (bs_fallback s)"

text \<open>The policy copies the record it changes.\<close>

definition long_context_set :: "ModelPricing \<Rightarrow> bool" where
  "long_context_set p \<longleftrightarrow> 0 < LongContextInputThreshold p \<and> 0 < LongContextInputMultiplier p \<and>
     0 < LongContextOutputMultiplier p"

definition with_long_context :: "ModelPricing \<Rightarrow> ModelPricing" where
  "with_long_context p =
     p\<lparr>LongContextInputThreshold := (if LongContextInputThreshold p \<le> 0
         then openAIGPT54LongContextInputThreshold else LongContextInputThreshold p),
       LongContextInputMultiplier := (if LongContextInputMultiplier p \<le> 0
         then openAIGPT54LongContextInputMultiplier else LongContextInputMultiplier p),
       LongContextOutputMultiplier := (if LongContextOutputMultiplier p \<le> 0
         then openAIGPT54LongContextOutputMultiplier else LongContextOutputMultiplier p)\<rparr>"

definition applyModelSpecificPricingPolicy ::
    "string \<Rightarrow> addr \<Rightarrow> billing_service \<Rightarrow> addr \<times> billing_service" where
  "applyModelSpecificPricingPolicy model a s =
     (if \<not> isOpenAIGPT54Model model then (a, s)
      else if long_context_set (deref s a) then (a, s)
      else new_pricing (with_long_context (deref s a)) s)"

definition from_litellm :: "LiteLLMModelPricing \<Rightarrow> ModelPricing" where
  "from_litellm l =
     (let price5m = CacheCreationInputTokenCost l; price1h = CacheCreationInputTokenCostAbove1hr l
      in \<lparr>InputPricePerToken = InputCostPerToken l,
          InputPricePerTokenPriority = InputCostPerTokenPriority l,
          OutputPricePerToken = OutputCostPerToken l,
          OutputPricePerTokenPriority = OutputCostPerTokenPriority l,
          CacheCreationPricePerToken = CacheCreationInputTokenCost l,
          CacheReadPricePerToken = CacheReadInputTokenCost l,
          CacheReadPricePerTokenPriority = CacheReadInputTokenCostPriority l,
          CacheCreation5mPrice = price5m,
          CacheCreation1hPrice = price1h,
          SupportsCacheBreakdown = (price1h > 0 \<and> price1h > price5m),
          LongContextInputThreshold = LongContextInputTokenThreshold l,
          LongContextInputMultiplier = LongContextInputCostMultiplier l,
          LongContextOutputMultiplier = LongContextOutputCostMultiplier l,
          ImageOutputPricePerToken = OutputCostPerImageToken l\<rparr>)"

definition litellm_price :: "string \<Rightarrow> billing_service \<Rightarrow> LiteLLMModelPricing option" where
  "litellm_price model s = Option.bind (bs_litellm s) (\<lambda>f. f model)"

text \<open>\<open>BillingService.GetModelPricing\<close>; \<open>None\<close> is the error that no price is known.\<close>

definition billing_GetModelPricing :: "string \<Rightarrow> billing_service \<Rightarrow> addr option \<times> billing_service" where
  "billing_GetModelPricing model0 s =
     (let model = ToLower model0
      in case litellm_price model s of
           Some l \<Rightarrow>
             let (a, s1) = new_pricing (from_litellm l) s;
                 (b, s2) = applyModelSpecificPricingPolicy model a s1
             in (Some b, s2)
         | None \<Rightarrow>
             (case getFallbackPricing model s of
                Some a \<Rightarrow> (let (b, s1) = applyModelSpecificPricingPolicy model a s in (Some b, s1))
              | None \<Rightarrow> (None, s)))"

text \<open>The flat override of a channel's price entry, field by field.\<close>

definition flat_override :: "ChannelModelPricing \<Rightarrow> ModelPricing \<Rightarrow> ModelPricing" where
  "flat_override ch p =
     (let p1 = (case cp_InputPrice ch of None \<Rightarrow> p | Some v \<Rightarrow>
            p\<lparr>InputPricePerToken := v, InputPricePerTokenPriority := v\<rparr>);
          p2 = (case cp_OutputPrice ch of None \<Rightarrow> p1 | Some v \<Rightarrow>
            p1\<lparr>OutputPricePerToken := v, OutputPricePerTokenPriority := v\<rparr>);
          p3 = (case cp_CacheWritePrice ch of None \<Rightarrow> p2 | Some v \<Rightarrow>
            p2\<lparr>CacheCreationPricePerToken := v, CacheCreation5mPrice := v, CacheCreation1hPrice := v\<rparr>);
          p4 = (case cp_CacheReadPrice ch of None \<Rightarrow> p3 | Some v \<Rightarrow>
            p3\<lparr>CacheReadPricePerToken := v, CacheReadPricePerTokenPriority := v\<rparr>)
      in case cp_ImageOutputPrice ch of None \<Rightarrow> p4 | Some v \<Rightarrow> p4\<lparr>ImageOutputPricePerToken := v\<rparr>)"

definition GetModelPricingWithChannel ::
    "string \<Rightarrow> ChannelModelPricing option \<Rightarrow> billing_service \<Rightarrow> addr option \<times> billing_service" where
  "GetModelPricingWithChannel model channelPricing s =
     (case billing_GetModelPricing model s of
        (None, s') \<Rightarrow> (None, s')
      | (Some a, s') \<Rightarrow> (case channelPricing of
            None \<Rightarrow> (Some a, s')
          | Some ch \<Rightarrow> (Some a, store a (flat_override ch (deref s' a)) s')))"

section \<open>The resolver\<close>

record ResolvedPricing =
  rp_Mode :: BillingMode
  rp_BasePricing :: "addr option"
  rp_Intervals :: "PricingInterval list"
  rp_RequestTiers :: "PricingInterval list"
  rp_DefaultPerRequestPrice :: float64
  rp_Source :: string
  rp_SupportsCacheBreakdown :: bool

definition filterValidIntervals :: "PricingInterval list \<Rightarrow> PricingInterval list" where
  "filterValidIntervals intervals = filter interval_has_price intervals"

definition applyTokenOverrides ::
    "ChannelModelPricing \<Rightarrow> ResolvedPricing \<Rightarrow> billing_service \<Rightarrow> ResolvedPricing \<times> billing_service" where
  "applyTokenOverrides ch resolved s =
     (let validIntervals = filterValidIntervals (cp_Intervals ch)
      in if validIntervals \<noteq> [] then (resolved\<lparr>rp_Intervals := validIntervals\<rparr>, s)
         else let (a, s1) = (case rp_BasePricing resolved of
                    Some a \<Rightarrow> (a, s)
                  | None \<Rightarrow> new_pricing zero_pricing s)
              in (resolved\<lparr>rp_BasePricing := Some a\<rparr>, store a (flat_override ch (deref s1 a)) s1))"

definition applyRequestTierOverrides :: "ChannelModelPricing \<Rightarrow> ResolvedPricing \<Rightarrow> ResolvedPricing" where
  "applyRequestTierOverrides ch resolved =
     (let r = resolved\<lparr>rp_RequestTiers := filterValidIntervals (cp_Intervals ch)\<rparr>
      in case cp_PerRequestPrice ch of None \<Rightarrow> r | Some v \<Rightarrow> r\<lparr>rp_DefaultPerRequestPrice := v\<rparr>)"

definition default_token_mode :: "BillingMode \<Rightarrow> BillingMode" where
  "default_token_mode m = (if m = BillingModeUnset then BillingModeToken else m)"

text \<open>
  The channel service is the argument \<open>price_of\<close> with its state \<open>'s\<close>; the two lookups of
  one resolution read the clock at \<open>clk 0\<close> and \<open>clk 1\<close>.
\<close>

type_synonym 's price_source = "instant \<Rightarrow> int \<Rightarrow> string \<Rightarrow> 's \<Rightarrow> ChannelModelPricing option \<times> 's"

definition applyChannelOverrides ::
    "'s price_source \<Rightarrow> instant \<Rightarrow> int \<Rightarrow> string \<Rightarrow> ResolvedPricing \<Rightarrow> 's \<times> billing_service
       \<Rightarrow> ResolvedPricing \<times> 's \<times> billing_service" where
  "applyChannelOverrides price_of now groupID model resolved st =
     (let (cs, s) = st
      in case price_of now groupID model cs of
           (None, cs') \<Rightarrow> (resolved, cs', s)
         | (Some ch, cs') \<Rightarrow>
             let mode = default_token_mode (cp_BillingMode ch);
                 r = resolved\<lparr>rp_Source := ''channel'', rp_Mode := mode\<rparr>
             in if mode = BillingModeToken then
                  (let (r', s') = applyTokenOverrides ch r s in (r', cs', s'))
                else if mode = BillingModePerRequest \<or> mode = BillingModeImage
                then (applyRequestTierOverrides ch r, cs', s)
                else (r, cs', s))"

definition resolveBasePricing :: "string \<Rightarrow> billing_service \<Rightarrow> (addr option \<times> string) \<times> billing_service" where
  "resolveBasePricing model s =
     (case billing_GetModelPricing model s of
        (Some a, s') \<Rightarrow> ((Some a, ''litellm''), s')
      | (None, s') \<Rightarrow> ((None, ''fallback''), s'))"

definition Resolve ::
    "'s price_source \<Rightarrow> (nat \<Rightarrow> instant) \<Rightarrow> string \<Rightarrow> int option \<Rightarrow> 's \<times> billing_service
       \<Rightarrow> ResolvedPricing \<times> 's \<times> billing_service" where
  "Resolve price_of clk model groupID st =
     (let (cs, s) = st;
          (chPricing, cs1) = (case groupID of None \<Rightarrow> (None, cs) | Some gid \<Rightarrow> price_of (clk 0) gid model cs);
          empty = \<lparr>rp_Mode = BillingModeUnset, rp_BasePricing = None, rp_Intervals = [],
                   rp_RequestTiers = [], rp_DefaultPerRequestPrice = 0, rp_Source = '''',
                   rp_SupportsCacheBreakdown = False\<rparr>;
          from_base = (\<lambda>s. let ((base, source), s1) = resolveBasePricing model s
             in (empty\<lparr>rp_Mode := BillingModeToken, rp_BasePricing := base, rp_Source := source,
                       rp_SupportsCacheBreakdown :=
                         (case base of None \<Rightarrow> False | Some a \<Rightarrow> SupportsCacheBreakdown (deref s1 a))\<rparr>, s1))
      in case chPricing of
           Some ch \<Rightarrow>
             let mode = default_token_mode (cp_BillingMode ch)
             in if mode = BillingModePerRequest \<or> mode = BillingModeImage
                then (applyRequestTierOverrides ch (empty\<lparr>rp_Mode := mode, rp_Source := ''channel''\<rparr>), cs1, s)
                else let (r, s1) = from_base s;
                         (r', s2) = applyTokenOverrides ch (r\<lparr>rp_Source := ''channel''\<rparr>) s1
                     in (r', cs1, s2)
         | None \<Rightarrow>
             let (r, s1) = from_base s
             in case groupID of
                  None \<Rightarrow> (r, cs1, s1)
                | Some gid \<Rightarrow> applyChannelOverrides price_of (clk 1) gid model r (cs1, s1))"

definition intervalToModelPricing :: "PricingInterval \<Rightarrow> bool \<Rightarrow> ModelPricing" where
  "intervalToModelPricing iv supportsCacheBreakdown =
     (let p0 = zero_pricing\<lparr>SupportsCacheBreakdown := supportsCacheBreakdown\<rparr>;
          p1 = (case iv_InputPrice iv of None \<Rightarrow> p0 | Some v \<Rightarrow>
            p0\<lparr>InputPricePerToken := v, InputPricePerTokenPriority := v\<rparr>);
          p2 = (case iv_OutputPrice iv of None \<Rightarrow> p1 | Some v \<Rightarrow>
            p1\<lparr>OutputPricePerToken := v, OutputPricePerTokenPriority := v\<rparr>);
          p3 = (case iv_CacheWritePrice iv of None \<Rightarrow> p2 | Some v \<Rightarrow>
            p2\<lparr>CacheCreationPricePerToken := v, CacheCreation5mPrice := v, CacheCreation1hPrice := v\<rparr>)
      in case iv_CacheReadPrice iv of None \<Rightarrow> p3 | Some v \<Rightarrow>
            p3\<lparr>CacheReadPricePerToken := v, CacheReadPricePerTokenPriority := v\<rparr>)"

definition GetIntervalPricing ::
    "ResolvedPricing \<Rightarrow> int \<Rightarrow> billing_service \<Rightarrow> addr option \<times> billing_service" where
  "GetIntervalPricing resolved totalContextTokens s =
     (if rp_Intervals resolved = [] then (rp_BasePricing resolved, s)
      else case FindMatchingInterval (rp_Intervals resolved) totalContextTokens of
             None \<Rightarrow> (rp_BasePricing resolved, s)
           | Some iv \<Rightarrow>
               let (a, s') = new_pricing (intervalToModelPricing iv (rp_SupportsCacheBreakdown resolved)) s
               in (Some a, s'))"

definition GetRequestTierPrice :: "ResolvedPricing \<Rightarrow> string \<Rightarrow> float64" where
  "GetRequestTierPrice resolved tierLabel =
     (case find (\<lambda>t. iv_TierLabel t = tierLabel \<and> iv_PerRequestPrice t \<noteq> None) (rp_RequestTiers resolved) of
        None \<Rightarrow> 0
      | Some t \<Rightarrow> option_or (iv_PerRequestPrice t) 0)"

definition GetRequestTierPriceByContext :: "ResolvedPricing \<Rightarrow> int \<Rightarrow> float64" where
  "GetRequestTierPriceByContext resolved totalContextTokens =
     (case FindMatchingInterval (rp_RequestTiers resolved) totalContextTokens of
        None \<Rightarrow> 0
      | Some t \<Rightarrow> option_or (iv_PerRequestPrice t) 0)"

section \<open>Prices are never negative\<close>

text \<open>
  \<open>nonneg\<close> is the negation of Go's comparison with zero, so it holds of NaN. It is closed
  under sums and products.
\<close>

definition nonneg :: "float64 \<Rightarrow> bool" where
  "nonneg x \<longleftrightarrow> \<not> x < 0"

named_theorems nonneg_intros "closure of the non-negative values"

lemma nonneg_cases: "nonneg x \<longleftrightarrow> x = NaN \<or> x = PInf \<or> (\<exists>a. x = Fin a \<and> 0 \<le> a)"
  by (cases x) (auto simp: nonneg_def Fin_zero float_defs)

lemma nonneg_add [nonneg_intros]: "nonneg x \<Longrightarrow> nonneg y \<Longrightarrow> nonneg (x + y)"
  by (auto simp: nonneg_cases plus_float64_def)

lemma nonneg_mul [nonneg_intros]: "nonneg x \<Longrightarrow> nonneg y \<Longrightarrow> nonneg (x * y)"
  by (auto simp: nonneg_cases times_float64_def float_inf_times_def)

lemma nonneg_zero [simp, nonneg_intros]: "nonneg 0"
  by (simp add: nonneg_def Fin_zero)

lemma nonneg_Fin [simp]: "nonneg (Fin a) \<longleftrightarrow> 0 \<le> a"
  by (simp add: nonneg_cases)

lemma nonneg_one [simp, nonneg_intros]: "nonneg 1"
  by (simp add: Fin_one)

lemma nonneg_of_count [nonneg_intros]: "0 \<le> n \<Longrightarrow> nonneg (of_count n)"
  by (simp add: of_count_def)

lemma price_negative_nonneg: "\<not> price_negative v \<longleftrightarrow> (case v of None \<Rightarrow> True | Some x \<Rightarrow> nonneg x)"
  by (simp add: price_negative_def nonneg_def split: option.splits)

definition pricing_ok :: "ModelPricing \<Rightarrow> bool" where
  "pricing_ok p \<longleftrightarrow>
     nonneg (InputPricePerToken p) \<and> nonneg (InputPricePerTokenPriority p) \<and>
     nonneg (OutputPricePerToken p) \<and> nonneg (OutputPricePerTokenPriority p) \<and>
     nonneg (CacheCreationPricePerToken p) \<and> nonneg (CacheReadPricePerToken p) \<and>
     nonneg (CacheReadPricePerTokenPriority p) \<and> nonneg (CacheCreation5mPrice p) \<and>
     nonneg (CacheCreation1hPrice p) \<and> nonneg (LongContextInputMultiplier p) \<and>
     nonneg (LongContextOutputMultiplier p) \<and> nonneg (ImageOutputPricePerToken p)"

definition interval_ok :: "PricingInterval \<Rightarrow> bool" where
  "interval_ok iv \<longleftrightarrow>
     \<not> price_negative (iv_InputPrice iv) \<and> \<not> price_negative (iv_OutputPrice iv) \<and>
     \<not> price_negative (iv_CacheWritePrice iv) \<and> \<not> price_negative (iv_CacheReadPrice iv) \<and>
     \<not> price_negative (iv_PerRequestPrice iv)"

definition billing_ok :: "billing_service \<Rightarrow> bool" where
  "billing_ok s \<longleftrightarrow>
     list_all pricing_ok (bs_heap s) \<and>
     (\<forall>n a. bs_fallback s n = Some a \<longrightarrow> a < length (bs_heap s)) \<and>
     (\<forall>m l. litellm_price m s = Some l \<longrightarrow> pricing_ok (from_litellm l))"

definition resolved_ok :: "billing_service \<Rightarrow> ResolvedPricing \<Rightarrow> bool" where
  "resolved_ok s r \<longleftrightarrow>
     (\<forall>a. rp_BasePricing r = Some a \<longrightarrow> a < length (bs_heap s)) \<and>
     list_all interval_ok (rp_Intervals r) \<and> list_all interval_ok (rp_RequestTiers r) \<and>
     nonneg (rp_DefaultPerRequestPrice r)"

lemma deref_ok: "billing_ok s \<Longrightarrow> a < length (bs_heap s) \<Longrightarrow> pricing_ok (deref s a)"
  by (simp add: billing_ok_def deref_def list_all_length)

lemma new_pricing_simps [simp]:
  "fst (new_pricing p s) = length (bs_heap s)"
  "bs_heap (snd (new_pricing p s)) = bs_heap s @ [p]"
  "bs_fallback (snd (new_pricing p s)) = bs_fallback s"
  "bs_litellm (snd (new_pricing p s)) = bs_litellm s"
  "litellm_price m (snd (new_pricing p s)) = litellm_price m s"
  by (simp_all add: new_pricing_def litellm_price_def)

lemma store_simps [simp]:
  "bs_heap (store a p s) = (bs_heap s)[a := p]"
  "bs_fallback (store a p s) = bs_fallback s"
  "bs_litellm (store a p s) = bs_litellm s"
  "litellm_price m (store a p s) = litellm_price m s"
  by (simp_all add: store_def litellm_price_def)

lemma new_pricing_ok: "billing_ok s \<Longrightarrow> pricing_ok p \<Longrightarrow> billing_ok (snd (new_pricing p s))"
  by (auto simp: billing_ok_def less_SucI)

lemma store_ok: "billing_ok s \<Longrightarrow> pricing_ok p \<Longrightarrow> billing_ok (store a p s)"
  by (auto simp: billing_ok_def list_all_iff dest!: set_update_subset_insert [THEN subsetD])

lemma deref_new [simp]:
  "deref (snd (new_pricing p s)) (length (bs_heap s)) = p"
  "a < length (bs_heap s) \<Longrightarrow> deref (snd (new_pricing p s)) a = deref s a"
  by (simp_all add: deref_def nth_append)

lemma deref_store [simp]:
  "a < length (bs_heap s) \<Longrightarrow> deref (store a p s) b = (if b = a then p else deref s b)"
  by (simp add: deref_def)

lemma with_long_context_ok: "pricing_ok p \<Longrightarrow> pricing_ok (with_long_context p)"
  by (simp add: pricing_ok_def with_long_context_def openAIGPT54LongContextInputMultiplier_def
      openAIGPT54LongContextOutputMultiplier_def)

lemma zero_pricing_ok [simp]: "pricing_ok zero_pricing"
  by (simp add: pricing_ok_def zero_pricing_def)

lemma flat_override_ok: "pricing_ok p \<Longrightarrow> price_entry_wf ch \<Longrightarrow> pricing_ok (flat_override ch p)"
  by (auto simp: pricing_ok_def flat_override_def price_entry_wf_def price_negative_nonneg Let_def
      split: option.splits)

lemma intervalToModelPricing_ok: "interval_ok iv \<Longrightarrow> pricing_ok (intervalToModelPricing iv b)"
  by (auto simp: pricing_ok_def intervalToModelPricing_def interval_ok_def price_negative_nonneg
      zero_pricing_def Let_def split: option.splits)

text \<open>
  What an operation that yields a pointer does to the heap: records at old addresses keep
  their contents unless the operation writes them, and the pointer is valid.
\<close>

definition heap_extends :: "billing_service \<Rightarrow> billing_service \<Rightarrow> bool" where
  "heap_extends s s' \<longleftrightarrow>
     length (bs_heap s) \<le> length (bs_heap s') \<and>
     (\<forall>a < length (bs_heap s). deref s' a = deref s a) \<and>
     bs_fallback s' = bs_fallback s \<and> bs_litellm s' = bs_litellm s"

lemma heap_extends_refl [intro, simp]: "heap_extends s s"
  by (simp add: heap_extends_def)

lemma heap_extends_trans: "heap_extends s t \<Longrightarrow> heap_extends t u \<Longrightarrow> heap_extends s u"
  by (auto simp: heap_extends_def)

lemma heap_extends_new [intro, simp]: "heap_extends s (snd (new_pricing p s))"
  by (simp add: heap_extends_def)

lemma policy_extends: "heap_extends s (snd (applyModelSpecificPricingPolicy m a s))"
  by (simp add: applyModelSpecificPricingPolicy_def)

lemma policy_result:
  assumes "a < length (bs_heap s)"
  shows "fst (applyModelSpecificPricingPolicy m a s) < length (bs_heap (snd (applyModelSpecificPricingPolicy m a s)))"
    and "deref (snd (applyModelSpecificPricingPolicy m a s)) (fst (applyModelSpecificPricingPolicy m a s)) =
       (if isOpenAIGPT54Model m \<and> \<not> long_context_set (deref s a)
        then with_long_context (deref s a) else deref s a)"
    and "fst (applyModelSpecificPricingPolicy m a s) = a \<or>
       fst (applyModelSpecificPricingPolicy m a s) = length (bs_heap s)"
  using assms by (auto simp: applyModelSpecificPricingPolicy_def)

lemma policy_ok:
  "billing_ok s \<Longrightarrow> a < length (bs_heap s) \<Longrightarrow> billing_ok (snd (applyModelSpecificPricingPolicy m a s))"
  by (auto simp: applyModelSpecificPricingPolicy_def intro: new_pricing_ok with_long_context_ok deref_ok)

lemma billing_GetModelPricing_litellm:
  assumes "litellm_price (ToLower m) s = Some l"
  shows "billing_GetModelPricing m s =
     (let t = snd (new_pricing (from_litellm l) s); r = applyModelSpecificPricingPolicy (ToLower m) (length (bs_heap s)) t
      in (Some (fst r), snd r))"
  using assms by (simp add: billing_GetModelPricing_def Let_def split_beta)

lemma billing_GetModelPricing_fallback:
  assumes "litellm_price (ToLower m) s = None" and "getFallbackPricing (ToLower m) s = Some a"
  shows "billing_GetModelPricing m s =
     (let r = applyModelSpecificPricingPolicy (ToLower m) a s in (Some (fst r), snd r))"
  using assms by (simp add: billing_GetModelPricing_def Let_def split_beta)

lemma billing_GetModelPricing_cases:
  obtains l where "litellm_price (ToLower m) s = Some l"
  | a where "litellm_price (ToLower m) s = None" and "getFallbackPricing (ToLower m) s = Some a"
  | "billing_GetModelPricing m s = (None, s)"
  by (cases "litellm_price (ToLower m) s"; cases "getFallbackPricing (ToLower m) s")
    (auto simp: billing_GetModelPricing_def)

lemma billing_GetModelPricing_extends: "heap_extends s (snd (billing_GetModelPricing m s))"
  using heap_extends_trans [OF heap_extends_new policy_extends]
  by (cases rule: billing_GetModelPricing_cases [of m s])
    (auto simp: billing_GetModelPricing_litellm billing_GetModelPricing_fallback Let_def policy_extends)

lemma fallback_valid: "billing_ok s \<Longrightarrow> getFallbackPricing m s = Some a \<Longrightarrow> a < length (bs_heap s)"
  by (auto simp: getFallbackPricing_def billing_ok_def Option.bind_eq_Some_conv)

lemma billing_GetModelPricing_ok:
  assumes "billing_ok s"
  shows "billing_ok (snd (billing_GetModelPricing m s)) \<and>
     (\<forall>a. fst (billing_GetModelPricing m s) = Some a \<longrightarrow> a < length (bs_heap (snd (billing_GetModelPricing m s))))"
proof (cases rule: billing_GetModelPricing_cases [of m s])
  case (1 l)
  let ?t = "snd (new_pricing (from_litellm l) s)"
  have "pricing_ok (from_litellm l)" using assms 1 by (auto simp: billing_ok_def)
  with assms have "billing_ok ?t" by (rule new_pricing_ok)
  with 1 policy_ok [of ?t "length (bs_heap s)"] policy_result(1) [of "length (bs_heap s)" ?t]
  show ?thesis by (simp add: billing_GetModelPricing_litellm Let_def)
next
  case (2 a)
  with assms policy_ok policy_result(1) fallback_valid [OF assms 2(2)] show ?thesis
    by (simp add: billing_GetModelPricing_fallback Let_def)
qed (use assms in simp)

section \<open>Resolution over a price source\<close>

lemma filterValidIntervals_ok: "price_entry_wf ch \<Longrightarrow> list_all interval_ok (filterValidIntervals (cp_Intervals ch))"
  using ValidateIntervals_wf(1) [of "cp_Intervals ch"]
  by (auto simp: price_entry_wf_def filterValidIntervals_def list_all_iff interval_ok_def interval_wf_def)

definition step_ok :: "ResolvedPricing \<times> billing_service \<Rightarrow> bool" where
  "step_ok rs \<longleftrightarrow> billing_ok (snd rs) \<and> resolved_ok (snd rs) (fst rs)"

lemma applyTokenOverrides_ok:
  assumes "billing_ok s" and "resolved_ok s r" and "price_entry_wf ch"
  shows "step_ok (applyTokenOverrides ch r s)"
proof (cases "filterValidIntervals (cp_Intervals ch) = []")
  case False
  with assms filterValidIntervals_ok [OF assms(3)] show ?thesis
    by (simp add: applyTokenOverrides_def step_ok_def resolved_ok_def Let_def)
next
  case True
  show ?thesis
  proof (cases "rp_BasePricing r")
    case (Some a)
    then have a: "a < length (bs_heap s)" using assms(2) by (simp add: resolved_ok_def)
    have "billing_ok (store a (flat_override ch (deref s a)) s)"
      using assms a by (intro store_ok flat_override_ok deref_ok)
    with True Some a assms(2) show ?thesis
      by (simp add: applyTokenOverrides_def step_ok_def resolved_ok_def Let_def)
  next
    case None
    let ?t = "snd (new_pricing zero_pricing s)"
    have "billing_ok ?t" using assms(1) by (intro new_pricing_ok) simp_all
    then have "billing_ok (store (length (bs_heap s)) (flat_override ch zero_pricing) ?t)"
      by (rule store_ok) (intro flat_override_ok assms(3), simp)
    with True None assms(2) show ?thesis
      by (simp add: applyTokenOverrides_def step_ok_def resolved_ok_def Let_def split_beta)
  qed
qed

lemma applyRequestTierOverrides_ok:
  "resolved_ok s r \<Longrightarrow> price_entry_wf ch \<Longrightarrow> resolved_ok s (applyRequestTierOverrides ch r)"
  using filterValidIntervals_ok [of ch]
  by (auto simp: applyRequestTierOverrides_def resolved_ok_def price_entry_wf_def price_negative_nonneg
      Let_def split: option.splits)

text \<open>The resolution without a channel's entry.\<close>

definition base_resolution :: "string \<Rightarrow> billing_service \<Rightarrow> ResolvedPricing \<times> billing_service" where
  "base_resolution model s =
     (let (a, s1) = billing_GetModelPricing model s
      in (\<lparr>rp_Mode = BillingModeToken, rp_BasePricing = a, rp_Intervals = [], rp_RequestTiers = [],
          rp_DefaultPerRequestPrice = 0,
          rp_Source = (case a of None \<Rightarrow> ''fallback'' | Some _ \<Rightarrow> ''litellm''),
          rp_SupportsCacheBreakdown =
            (case a of None \<Rightarrow> False | Some b \<Rightarrow> SupportsCacheBreakdown (deref s1 b))\<rparr>, s1))"

definition request_resolution :: "ChannelModelPricing \<Rightarrow> ResolvedPricing" where
  "request_resolution ch = applyRequestTierOverrides ch
     \<lparr>rp_Mode = default_token_mode (cp_BillingMode ch), rp_BasePricing = None, rp_Intervals = [],
      rp_RequestTiers = [], rp_DefaultPerRequestPrice = 0, rp_Source = ''channel'',
      rp_SupportsCacheBreakdown = False\<rparr>"

definition per_request_mode :: "ChannelModelPricing \<Rightarrow> bool" where
  "per_request_mode ch \<longleftrightarrow>
     cp_BillingMode ch = BillingModePerRequest \<or> cp_BillingMode ch = BillingModeImage"

lemma Resolve_no_group: "Resolve price_of clk model None (cs, s) =
    (fst (base_resolution model s), cs, snd (base_resolution model s))"
  by (auto simp: Resolve_def base_resolution_def resolveBasePricing_def Let_def
      split: option.splits prod.splits)

lemma Resolve_found:
  assumes "price_of (clk 0) g model cs = (Some ch, cs')"
  shows "Resolve price_of clk model (Some g) (cs, s) =
     (if per_request_mode ch then (request_resolution ch, cs', s)
      else let b = base_resolution model s;
               r = applyTokenOverrides ch ((fst b)\<lparr>rp_Source := ''channel''\<rparr>) (snd b)
           in (fst r, cs', snd r))"
  using assms
  by (cases "billing_GetModelPricing model s")
    (auto simp: Resolve_def base_resolution_def resolveBasePricing_def request_resolution_def
      per_request_mode_def default_token_mode_def Let_def split: option.splits prod.splits)

lemma Resolve_missing:
  assumes "price_of (clk 0) g model cs = (None, cs')"
  shows "Resolve price_of clk model (Some g) (cs, s) =
     applyChannelOverrides price_of (clk 1) g model (fst (base_resolution model s))
       (cs', snd (base_resolution model s))"
  using assms
  by (cases "billing_GetModelPricing model s")
    (auto simp: Resolve_def base_resolution_def resolveBasePricing_def Let_def
      split: option.splits prod.splits)

lemma base_resolution_ok: "billing_ok s \<Longrightarrow> step_ok (base_resolution model s)"
  using billing_GetModelPricing_ok [of s model]
  by (auto simp: base_resolution_def step_ok_def resolved_ok_def split: prod.splits)

lemma request_resolution_ok: "price_entry_wf ch \<Longrightarrow> resolved_ok s (request_resolution ch)"
  unfolding request_resolution_def
  by (rule applyRequestTierOverrides_ok) (simp_all add: resolved_ok_def)

context channel_price_source
begin

lemma applyChannelOverrides_ok:
  assumes "source_inv cs" and "billing_ok s" and "resolved_ok s r"
  shows "source_inv (fst (snd (applyChannelOverrides price_of now g m r (cs, s)))) \<and>
     step_ok (fst (applyChannelOverrides price_of now g m r (cs, s)),
              snd (snd (applyChannelOverrides price_of now g m r (cs, s))))"
proof (cases "price_of now g m cs")
  case (Pair c cs')
  then have inv: "source_inv cs'" using price_of_inv [OF assms(1), of now g m] by simp
  show ?thesis
  proof (cases c)
    case None
    with Pair inv assms show ?thesis by (simp add: applyChannelOverrides_def step_ok_def)
  next
    case (Some ch)
    with Pair have wf: "price_entry_wf ch" using price_of_wf [OF assms(1), of now g m] by simp
    have r: "resolved_ok s (r\<lparr>rp_Source := a, rp_Mode := b\<rparr>)" for a b
      using assms(3) by (simp add: resolved_ok_def)
    note applyTokenOverrides_ok [OF assms(2) r wf] applyRequestTierOverrides_ok [OF r wf]
    with Pair Some inv assms(2) r show ?thesis
      by (simp add: applyChannelOverrides_def Let_def step_ok_def split_beta)
  qed
qed

lemma Resolve_ok:
  assumes "source_inv cs" and "billing_ok s"
  shows "source_inv (fst (snd (Resolve price_of clk m g (cs, s)))) \<and>
     step_ok (fst (Resolve price_of clk m g (cs, s)), snd (snd (Resolve price_of clk m g (cs, s))))"
proof (cases g)
  case None
  with assms base_resolution_ok [OF assms(2), of m] show ?thesis by (simp add: Resolve_no_group)
next
  case (Some gid)
  note base = base_resolution_ok [OF assms(2), of m]
  show ?thesis
  proof (cases "price_of (clk 0) gid m cs")
    case (Pair c cs')
    then have inv: "source_inv cs'" using price_of_inv [OF assms(1), of "clk 0" gid m] by simp
    show ?thesis
    proof (cases c)
      case None
      with Pair Some inv base applyChannelOverrides_ok [OF inv] show ?thesis
        by (simp add: Resolve_missing step_ok_def)
    next
      case ch: (Some ch)
      with Pair have wf: "price_entry_wf ch" using price_of_wf [OF assms(1), of "clk 0" gid m] by simp
      have "resolved_ok (snd (base_resolution m s)) ((fst (base_resolution m s))\<lparr>rp_Source := ''channel''\<rparr>)"
        using base by (simp add: step_ok_def resolved_ok_def)
      with base wf have "step_ok (applyTokenOverrides ch
          ((fst (base_resolution m s))\<lparr>rp_Source := ''channel''\<rparr>) (snd (base_resolution m s)))"
        by (intro applyTokenOverrides_ok) (simp_all add: step_ok_def)
      moreover have "Resolve price_of clk m g (cs, s) = (if per_request_mode ch
          then (request_resolution ch, cs', s)
          else let b = base_resolution m s;
               r = applyTokenOverrides ch ((fst b)\<lparr>rp_Source := ''channel''\<rparr>) (snd b)
             in (fst r, cs', snd r))"
        unfolding Some by (rule Resolve_found) (use Pair ch in simp)
      ultimately show ?thesis
        using inv assms(2) request_resolution_ok [OF wf]
        by (simp add: Let_def step_ok_def)
    qed
  qed
qed

end

section \<open>Aliasing of the fallback prices\<close>

text \<open>The pointer a lookup without a dynamic price returns is the shared one.\<close>

definition shares_fallback :: "string \<Rightarrow> addr \<Rightarrow> billing_service \<Rightarrow> bool" where
  "shares_fallback m a s \<longleftrightarrow>
     litellm_price (ToLower m) s = None \<and> getFallbackPricing (ToLower m) s = Some a \<and>
     (isOpenAIGPT54Model (ToLower m) \<longrightarrow> long_context_set (deref s a))"

lemma shared_lookup: "shares_fallback m a s \<Longrightarrow> billing_GetModelPricing m s = (Some a, s)"
  by (auto simp: shares_fallback_def billing_GetModelPricing_fallback applyModelSpecificPricingPolicy_def Let_def)

lemma flat_override_long_context [simp]: "long_context_set (flat_override ch p) = long_context_set p"
  by (auto simp: flat_override_def long_context_set_def Let_def split: option.splits)

lemma shares_fallback_store:
  "shares_fallback m a s \<Longrightarrow> a < length (bs_heap s) \<Longrightarrow>
     shares_fallback m a (store b (flat_override ch (deref s b)) s)"
  by (cases "b < length (bs_heap s)"; cases "b = a")
    (auto simp: shares_fallback_def getFallbackPricing_def deref_def)

definition flat_entry :: "ChannelModelPricing \<Rightarrow> bool" where
  "flat_entry ch \<longleftrightarrow> \<not> per_request_mode ch \<and> filterValidIntervals (cp_Intervals ch) = []"

lemma Resolve_flat:
  assumes "price_of (clk 0) g m cs = (Some ch, cs')" and "flat_entry ch"
    and "billing_GetModelPricing m s = (Some a, s1)"
  shows "rp_BasePricing (fst (Resolve price_of clk m (Some g) (cs, s))) = Some a"
    and "snd (snd (Resolve price_of clk m (Some g) (cs, s))) = store a (flat_override ch (deref s1 a)) s1"
  using assms(2,3) unfolding Resolve_found [where price_of = price_of and clk = clk, OF assms(1)]
  by (simp_all add: flat_entry_def base_resolution_def applyTokenOverrides_def Let_def)

lemma litellm_pointer_new:
  assumes "litellm_price (ToLower m) s = Some l" and "billing_GetModelPricing m s = (Some a, s1)"
  shows "length (bs_heap s) \<le> a \<and> a < length (bs_heap s1)"
  using assms policy_result(1,3) [of "length (bs_heap s)" "snd (new_pricing (from_litellm l) s)" "ToLower m"]
  by (auto simp: billing_GetModelPricing_litellm Let_def)

lemma store_extends:
  "heap_extends s t \<Longrightarrow> length (bs_heap s) \<le> a \<Longrightarrow> a < length (bs_heap t) \<Longrightarrow> heap_extends s (store a p t)"
  by (auto simp: heap_extends_def)

section \<open>Properties\<close>

text \<open>A flat price entry of a channel overrides exactly the prices it sets: the resolved
  price record has the channel's price in each field that is set and the model's own price in
  the others.\<close>

theorem Resolve_flat_override:
  assumes "GetChannelModelPricing (clk 0) g m cs = (Some ch, cs')" and "flat_entry ch"
    and "billing_GetModelPricing m s = (Some b, s1)" and "billing_ok s"
    and "Resolve GetChannelModelPricing clk m (Some g) (cs, s) = (r, cs2, s2)"
  shows "\<exists>a p q. rp_BasePricing r = Some a \<and> q = deref s2 a \<and> p = deref s1 b \<and>
     InputPricePerToken q = option_or (cp_InputPrice ch) (InputPricePerToken p) \<and>
     OutputPricePerToken q = option_or (cp_OutputPrice ch) (OutputPricePerToken p) \<and>
     CacheCreationPricePerToken q = option_or (cp_CacheWritePrice ch) (CacheCreationPricePerToken p) \<and>
     CacheReadPricePerToken q = option_or (cp_CacheReadPrice ch) (CacheReadPricePerToken p) \<and>
     ImageOutputPricePerToken q = option_or (cp_ImageOutputPrice ch) (ImageOutputPricePerToken p) \<and>
     LongContextInputThreshold q = LongContextInputThreshold p"
proof -
  have "b < length (bs_heap s1)" using billing_GetModelPricing_ok [OF assms(4), of m] assms(3) by simp
  moreover have "rp_BasePricing r = Some b" and "s2 = store b (flat_override ch (deref s1 b)) s1"
    using Resolve_flat [of GetChannelModelPricing clk, OF assms(1-3)] assms(5) by simp_all
  ultimately show ?thesis
    by (auto simp: flat_override_def Let_def split: option.splits)
qed

text \<open>When the dynamic price service knows the model, resolving a price, whatever the
  channel says, leaves every price record that existed before as it was.\<close>

theorem Resolve_dynamic_isolated:
  assumes "litellm_price (ToLower m) s = Some l" and "billing_ok s"
    and "Resolve GetChannelModelPricing clk m g (cs, s) = (r, cs2, s2)"
  shows "heap_extends s s2"
proof -
  obtain a s1 where lookup: "billing_GetModelPricing m s = (Some a, s1)"
    using assms(1) by (simp add: billing_GetModelPricing_litellm Let_def)
  then have s1: "heap_extends s s1" using billing_GetModelPricing_extends [of s m] by simp
  have over: "heap_extends s (snd (applyTokenOverrides ch R s1))" if "rp_BasePricing R = Some a" for ch R
    using litellm_pointer_new [OF assms(1) lookup] s1 that
    by (auto simp: applyTokenOverrides_def Let_def intro: store_extends)
  have base: "snd (base_resolution m s) = s1" "rp_BasePricing (fst (base_resolution m s)) = Some a"
    by (simp_all add: base_resolution_def lookup)
  show ?thesis
  proof (cases g)
    case None
    with assms(3) base s1 show ?thesis by (auto simp: Resolve_no_group)
  next
    case (Some gid)
    obtain c cs' where c: "GetChannelModelPricing (clk 0) gid m cs = (c, cs')" by fastforce
    show ?thesis
    proof (cases c)
      case None
      with c assms(3) Some have "applyChannelOverrides GetChannelModelPricing (clk 1) gid m
          (fst (base_resolution m s)) (cs', s1) = (r, cs2, s2)"
        using Resolve_missing [of GetChannelModelPricing clk gid m cs cs' s] base by simp
      with s1 over base(2) show ?thesis
        by (fastforce simp: applyChannelOverrides_def Let_def split_beta split: option.splits if_splits prod.splits)
    next
      case (Some ch)
      with c assms(3) \<open>g = Some gid\<close> base s1
          over [of "(fst (base_resolution m s))\<lparr>rp_Source := ''channel''\<rparr>" ch] show ?thesis
        using Resolve_found [of GetChannelModelPricing clk gid m cs ch cs' s]
        by (auto simp: Let_def split: if_splits)
    qed
  qed
qed

text \<open>Without a dynamic price the override of one channel is written into the shared
  fallback record: after one resolution for a group with a flat price entry, every model that
  falls back to the same record is priced with that channel's prices, for every group.\<close>

theorem Resolve_leaks_override:
  assumes "GetChannelModelPricing (clk 0) g m cs = (Some ch, cs')" and "flat_entry ch"
    and "billing_ok s" and "shares_fallback m a s" and "shares_fallback m2 a s"
    and "Resolve GetChannelModelPricing clk m (Some g) (cs, s) = (r, cs2, s2)"
  shows "billing_GetModelPricing m2 s = (Some a, s) \<and>
     billing_GetModelPricing m2 s2 = (Some a, s2) \<and>
     deref s2 a = flat_override ch (deref s a)"
proof -
  have a: "a < length (bs_heap s)"
    using assms(3,4) fallback_valid unfolding shares_fallback_def by blast
  have s2: "s2 = store a (flat_override ch (deref s a)) s"
    using Resolve_flat(2) [of GetChannelModelPricing clk, OF assms(1,2) shared_lookup [OF assms(4)]]
      assms(6) by simp
  show ?thesis
    using shared_lookup [OF assms(5)] shared_lookup [OF shares_fallback_store [OF assms(5) a]] a
    by (simp add: s2)
qed

text \<open>A price interval replaces the base price as a whole: in the record built for a
  matching interval a field the interval does not set is zero, and so is the price of image
  output, whatever the base price is.\<close>

theorem GetIntervalPricing_unset_is_free:
  assumes "FindMatchingInterval (rp_Intervals r) n = Some iv"
    and "GetIntervalPricing r n s = (a, s')"
  shows "\<exists>b p. a = Some b \<and> p = deref s' b \<and> heap_extends s s' \<and>
     InputPricePerToken p = option_or (iv_InputPrice iv) 0 \<and>
     OutputPricePerToken p = option_or (iv_OutputPrice iv) 0 \<and>
     CacheCreationPricePerToken p = option_or (iv_CacheWritePrice iv) 0 \<and>
     CacheReadPricePerToken p = option_or (iv_CacheReadPrice iv) 0 \<and>
     ImageOutputPricePerToken p = 0 \<and> LongContextInputThreshold p = 0"
proof -
  let ?p = "intervalToModelPricing iv (rp_SupportsCacheBreakdown r)"
  have "rp_Intervals r \<noteq> []" using assms(1) by (auto simp: FindMatchingInterval_def)
  with assms have "a = Some (length (bs_heap s))" and "s' = snd (new_pricing ?p s)"
    by (auto simp: GetIntervalPricing_def split_beta Let_def)
  then show ?thesis
    by (auto simp: intervalToModelPricing_def zero_pricing_def Let_def split: option.splits)
qed

definition demo_billing :: billing_service where
  "demo_billing = NewBillingService None"

lemma demo_billing_ok: "billing_ok demo_billing"
proof -
  have "length (bs_heap demo_billing) = 11" and "list_all pricing_ok (bs_heap demo_billing)"
    by (simp_all add: demo_billing_def NewBillingService_def initFallbackPricing_def add_fallback_def
        share_fallback_def new_pricing_def simple_pricing_def tiered_pricing_def pricing_ok_def
        zero_pricing_def openAIGPT54LongContextInputMultiplier_def
        openAIGPT54LongContextOutputMultiplier_def)
  moreover have "a < 11" if "bs_fallback demo_billing n = Some a" for n a
    using that by (auto simp: demo_billing_def NewBillingService_def initFallbackPricing_def add_fallback_def
        share_fallback_def new_pricing_def split: if_splits)
  moreover have "bs_litellm demo_billing = None"
    by (simp add: demo_billing_def NewBillingService_def initFallbackPricing_def add_fallback_def
        share_fallback_def new_pricing_def)
  ultimately show ?thesis by (auto simp: billing_ok_def litellm_price_def)
qed

lemma demo_lookup: "GetChannelModelPricing 1 11 ''GPT-5'' demo_service = (Some demo_pricing, demo_service)"
proof -
  obtain t where lk: "lookupGroupChannel 1 11 demo_service =
      (Some (if IsActive demo_channel then Some \<lparr>lk_cache = populateChannelCache [demo_channel] demo_gp t,
                lk_channel = normalizeBillingModelSource demo_channel, lk_platform = group_platform demo_gp 11\<rparr>
             else None), demo_service)"
    using cached_lookup [OF demo_cached demo_one_channel demo_group(1,2)] .
  have "search_patterns (pricing_patterns demo_channel ''openai'') (ToLower ''GPT-5'') = Some demo_pricing"
    by code_simp
  then show ?thesis
    using cached_price [OF demo_one_channel demo_group(1,2) demo_valid, of demo_gp]
    by (simp add: GetChannelModelPricing_def lk)
qed

lemma demo_flat: "flat_entry demo_pricing"
  by (simp add: flat_entry_def per_request_mode_def demo_pricing_def filterValidIntervals_def)

lemma demo_shares: "shares_fallback ''GPT-5'' 7 demo_billing" "shares_fallback ''gpt-5.5'' 7 demo_billing"
  by code_simp+

lemma Resolve_flat_override_witness:
  "\<exists>r s2 a. Resolve GetChannelModelPricing (\<lambda>_. 1) ''GPT-5'' (Some 11) (demo_service, demo_billing) =
       (r, demo_service, s2) \<and> rp_BasePricing r = Some a \<and> InputPricePerToken (deref s2 a) = Fin 1"
proof -
  obtain r cs2 s2 where R: "Resolve GetChannelModelPricing (\<lambda>_. 1) ''GPT-5'' (Some 11)
      (demo_service, demo_billing) = (r, cs2, s2)"
    by (metis prod_cases3)
  moreover have "cs2 = demo_service"
    using R Resolve_found [of GetChannelModelPricing "\<lambda>_. 1" 11 "''GPT-5''" demo_service, OF demo_lookup]
      demo_flat by (simp add: flat_entry_def Let_def)
  moreover have "option_or (cp_InputPrice demo_pricing) x = Fin 1" for x
    by (simp add: demo_pricing_def)
  ultimately show ?thesis
    using Resolve_flat_override [OF demo_lookup demo_flat shared_lookup [OF demo_shares(1)] demo_billing_ok R]
    by auto
qed

lemma Resolve_leaks_override_witness:
  "\<exists>r s2. Resolve GetChannelModelPricing (\<lambda>_. 1) ''GPT-5'' (Some 11) (demo_service, demo_billing) =
       (r, demo_service, s2) \<and>
     billing_GetModelPricing ''gpt-5.5'' demo_billing = (Some 7, demo_billing) \<and>
     InputPricePerToken (deref demo_billing 7) = per_mtok (5 / 2) \<and>
     billing_GetModelPricing ''gpt-5.5'' s2 = (Some 7, s2) \<and> InputPricePerToken (deref s2 7) = Fin 1"
proof -
  obtain r cs2 s2 where R: "Resolve GetChannelModelPricing (\<lambda>_. 1) ''GPT-5'' (Some 11)
      (demo_service, demo_billing) = (r, cs2, s2)"
    by (metis prod_cases3)
  moreover have "cs2 = demo_service"
    using R Resolve_found [of GetChannelModelPricing "\<lambda>_. 1" 11 "''GPT-5''" demo_service, OF demo_lookup]
      demo_flat by (simp add: flat_entry_def Let_def)
  moreover have "InputPricePerToken (deref demo_billing 7) = per_mtok (5 / 2)"
    by code_simp
  moreover have "InputPricePerToken (flat_override demo_pricing p) = Fin 1" for p
    by (simp add: flat_override_def demo_pricing_def)
  ultimately show ?thesis
    using Resolve_leaks_override [OF demo_lookup demo_flat demo_billing_ok demo_shares(1) demo_shares(2) R]
    by auto
qed

definition demo_litellm :: LiteLLMModelPricing where
  "demo_litellm = \<lparr>InputCostPerToken = Fin 1, InputCostPerTokenPriority = 0, OutputCostPerToken = Fin 2,
     OutputCostPerTokenPriority = 0, CacheCreationInputTokenCost = 0, CacheCreationInputTokenCostAbove1hr = 0,
     CacheReadInputTokenCost = 0, CacheReadInputTokenCostPriority = 0, LongContextInputTokenThreshold = 0,
     LongContextInputCostMultiplier = 0, LongContextOutputCostMultiplier = 0, OutputCostPerImage = 0,
     OutputCostPerImageToken = 0\<rparr>"

definition demo_dynamic :: billing_service where
  "demo_dynamic = demo_billing\<lparr>bs_litellm := Some (\<lambda>_. Some demo_litellm)\<rparr>"

lemma demo_dynamic_ok: "billing_ok demo_dynamic"
proof -
  have "pricing_ok (from_litellm demo_litellm)"
    by (simp add: from_litellm_def demo_litellm_def pricing_ok_def Let_def)
  then show ?thesis
    using demo_billing_ok by (simp add: billing_ok_def demo_dynamic_def litellm_price_def)
qed

lemma Resolve_dynamic_isolated_witness:
  "heap_extends demo_dynamic (snd (snd (Resolve GetChannelModelPricing (\<lambda>_. 1) ''GPT-5'' (Some 11)
     (demo_service, demo_dynamic))))"
proof -
  obtain r cs2 s2 where R: "Resolve GetChannelModelPricing (\<lambda>_. 1) ''GPT-5'' (Some 11)
      (demo_service, demo_dynamic) = (r, cs2, s2)"
    by (metis prod_cases3)
  have "litellm_price (ToLower ''GPT-5'') demo_dynamic = Some demo_litellm"
    by (simp add: litellm_price_def demo_dynamic_def)
  from Resolve_dynamic_isolated [OF this demo_dynamic_ok R] show ?thesis by (simp add: R)
qed

definition demo_resolved :: ResolvedPricing where
  "demo_resolved = \<lparr>rp_Mode = BillingModeToken, rp_BasePricing = Some 7,
     rp_Intervals = [interval_0_100, interval_100_up], rp_RequestTiers = [],
     rp_DefaultPerRequestPrice = 0, rp_Source = ''channel'', rp_SupportsCacheBreakdown = False\<rparr>"

lemma GetIntervalPricing_unset_is_free_witness:
  "OutputPricePerToken (deref (snd (GetIntervalPricing demo_resolved 50 demo_billing))
     (the (fst (GetIntervalPricing demo_resolved 50 demo_billing)))) = 0"
proof -
  have f: "FindMatchingInterval (rp_Intervals demo_resolved) 50 = Some interval_0_100"
    by (simp add: demo_resolved_def FindMatchingInterval_def interval_matches_def interval_0_100_def)
  obtain a s' where g: "GetIntervalPricing demo_resolved 50 demo_billing = (a, s')" by fastforce
  from GetIntervalPricing_unset_is_free [OF f g] show ?thesis
    by (auto simp: g interval_0_100_def)
qed

end
