(* ===== verification/Billing.thy ===== *)
theory Billing
  imports Pricing
begin

text \<open>
  The cost of a request (\<open>backend/internal/service/billing_service.go\<close>): token costs with
  service tiers, long-context prices and cache breakdown, per-request and image costs, and
  the unified entry that resolves the price first. A failed computation is \<open>None\<close>; the
  state is the billing service's heap of price records, and that of the channel service.
\<close>

section \<open>Data\<close>

record UsageTokens =
  InputTokens :: int
  OutputTokens :: int
  CacheCreationTokens :: int
  CacheReadTokens :: int
  CacheCreation5mTokens :: int
  CacheCreation1hTokens :: int
  ImageOutputTokens :: int

record CostBreakdown =
  InputCost :: float64
  OutputCost :: float64
  ImageOutputCost :: float64
  CacheCreationCost :: float64
  CacheReadCost :: float64
  TotalCost :: float64
  ActualCost :: float64
  cb_BillingMode :: BillingMode

definition zero_breakdown :: CostBreakdown where
  "zero_breakdown = \<lparr>InputCost = 0, OutputCost = 0, ImageOutputCost = 0, CacheCreationCost = 0,
     CacheReadCost = 0, TotalCost = 0, ActualCost = 0, cb_BillingMode = BillingModeUnset\<rparr>"

section \<open>Service tiers and long contexts\<close>

definition normalizeBillingServiceTier :: "string \<Rightarrow> string" where
  "normalizeBillingServiceTier serviceTier = ToLower (TrimSpace serviceTier)"

definition usePriorityServiceTierPricing :: "string \<Rightarrow> ModelPricing \<Rightarrow> bool" where
  "usePriorityServiceTierPricing serviceTier pricing =
     (if normalizeBillingServiceTier serviceTier \<noteq> ''priority'' then False
      else InputPricePerTokenPriority pricing > 0 \<or> OutputPricePerTokenPriority pricing > 0 \<or>
           CacheReadPricePerTokenPriority pricing > 0)"

definition serviceTierCostMultiplier :: "string \<Rightarrow> float64" where
  "serviceTierCostMultiplier serviceTier =
     (if normalizeBillingServiceTier serviceTier = ''priority'' then Fin 2
      else if normalizeBillingServiceTier serviceTier = ''flex'' then Fin (1 / 2)
      else Fin 1)"

definition shouldApplySessionLongContextPricing :: "UsageTokens \<Rightarrow> ModelPricing \<Rightarrow> bool" where
  "shouldApplySessionLongContextPricing tokens pricing =
     (if LongContextInputThreshold pricing \<le> 0 then False
      else if LongContextInputMultiplier pricing \<le> 1 \<and> LongContextOutputMultiplier pricing \<le> 1 then False
      else InputTokens tokens + CacheReadTokens tokens > LongContextInputThreshold pricing)"

section \<open>Token costs\<close>

definition computeCacheCreationCost :: "ModelPricing \<Rightarrow> UsageTokens \<Rightarrow> float64" where
  "computeCacheCreationCost pricing tokens =
     (if SupportsCacheBreakdown pricing \<and> (CacheCreation5mPrice pricing > 0 \<or> CacheCreation1hPrice pricing > 0)
      then (if CacheCreation5mTokens tokens = 0 \<and> CacheCreation1hTokens tokens = 0 \<and> CacheCreationTokens tokens > 0
            then of_count (CacheCreationTokens tokens) * CacheCreation5mPrice pricing
            else of_count (CacheCreation5mTokens tokens) * CacheCreation5mPrice pricing +
                 of_count (CacheCreation1hTokens tokens) * CacheCreation1hPrice pricing)
      else of_count (CacheCreationTokens tokens) * CacheCreationPricePerToken pricing)"

text \<open>The unit prices after the service tier and the long context: input, output, cache read
  and the multiplier of the tier.\<close>

definition unit_prices ::
    "ModelPricing \<Rightarrow> UsageTokens \<Rightarrow> string \<Rightarrow> bool \<Rightarrow> float64 \<times> float64 \<times> float64 \<times> float64" where
  "unit_prices pricing tokens serviceTier applyLongCtx =
     (let (i, out, cr, tm) =
        (if usePriorityServiceTierPricing serviceTier pricing
         then (if InputPricePerTokenPriority pricing > 0
               then InputPricePerTokenPriority pricing else InputPricePerToken pricing,
               if OutputPricePerTokenPriority pricing > 0
               then OutputPricePerTokenPriority pricing else OutputPricePerToken pricing,
               if CacheReadPricePerTokenPriority pricing > 0
               then CacheReadPricePerTokenPriority pricing else CacheReadPricePerToken pricing,
               Fin 1)
         else (InputPricePerToken pricing, OutputPricePerToken pricing, CacheReadPricePerToken pricing,
               serviceTierCostMultiplier serviceTier))
      in if applyLongCtx \<and> shouldApplySessionLongContextPricing tokens pricing
         then (i * LongContextInputMultiplier pricing, out * LongContextOutputMultiplier pricing, cr, tm)
         else (i, out, cr, tm))"

definition computeTokenBreakdown ::
    "ModelPricing \<Rightarrow> UsageTokens \<Rightarrow> float64 \<Rightarrow> string \<Rightarrow> bool \<Rightarrow> CostBreakdown" where
  "computeTokenBreakdown pricing tokens rateMultiplier0 serviceTier applyLongCtx =
     (let rateMultiplier = (if rateMultiplier0 < 0 then 0 else rateMultiplier0);
          (inputPrice, outputPrice, cacheReadPrice, tierMultiplier) =
            unit_prices pricing tokens serviceTier applyLongCtx;
          inputCost = of_count (InputTokens tokens) * inputPrice;
          textOutputTokens = (if OutputTokens tokens - ImageOutputTokens tokens < 0 then 0
                              else OutputTokens tokens - ImageOutputTokens tokens);
          outputCost = of_count textOutputTokens * outputPrice;
          imageCost = (if ImageOutputTokens tokens > 0
             then of_count (ImageOutputTokens tokens) *
                  (if ImageOutputPricePerToken pricing = 0 then outputPrice else ImageOutputPricePerToken pricing)
             else 0);
          creationCost = computeCacheCreationCost pricing tokens;
          readCost = of_count (CacheReadTokens tokens) * cacheReadPrice;
          scale = (\<lambda>c. if tierMultiplier \<noteq> Fin 1 then c * tierMultiplier else c);
          total = scale inputCost + scale outputCost + scale imageCost + scale creationCost + scale readCost
      in \<lparr>InputCost = scale inputCost, OutputCost = scale outputCost, ImageOutputCost = scale imageCost,
          CacheCreationCost = scale creationCost, CacheReadCost = scale readCost, TotalCost = total,
          ActualCost = total * rateMultiplier, cb_BillingMode = BillingModeUnset\<rparr>)"

definition calculateCostInternal ::
    "string \<Rightarrow> UsageTokens \<Rightarrow> float64 \<Rightarrow> string \<Rightarrow> ChannelModelPricing option \<Rightarrow> billing_service
       \<Rightarrow> CostBreakdown option \<times> billing_service" where
  "calculateCostInternal model tokens rateMultiplier serviceTier channelPricing s =
     (case (case channelPricing of
              Some ch \<Rightarrow> GetModelPricingWithChannel model (Some ch) s
            | None \<Rightarrow> billing_GetModelPricing model s) of
        (None, s') \<Rightarrow> (None, s')
      | (Some a, s') \<Rightarrow> (Some (computeTokenBreakdown (deref s' a) tokens rateMultiplier serviceTier True), s'))"

definition CalculateCost ::
    "string \<Rightarrow> UsageTokens \<Rightarrow> float64 \<Rightarrow> billing_service \<Rightarrow> CostBreakdown option \<times> billing_service" where
  "CalculateCost model tokens rateMultiplier s =
     calculateCostInternal model tokens rateMultiplier '''' None s"

definition CalculateCostWithServiceTier ::
    "string \<Rightarrow> UsageTokens \<Rightarrow> float64 \<Rightarrow> string \<Rightarrow> billing_service \<Rightarrow> CostBreakdown option \<times> billing_service" where
  "CalculateCostWithServiceTier model tokens rateMultiplier serviceTier s =
     calculateCostInternal model tokens rateMultiplier serviceTier None s"

text \<open>The default multiplier is a setting.\<close>

definition CalculateCostWithConfig ::
    "float64 \<Rightarrow> string \<Rightarrow> UsageTokens \<Rightarrow> billing_service \<Rightarrow> CostBreakdown option \<times> billing_service" where
  "CalculateCostWithConfig cfgRateMultiplier model tokens s =
     CalculateCost model tokens (if cfgRateMultiplier \<le> 0 then Fin 1 else cfgRateMultiplier) s"

definition GetEstimatedCost ::
    "float64 \<Rightarrow> string \<Rightarrow> int \<Rightarrow> int \<Rightarrow> billing_service \<Rightarrow> float64 option \<times> billing_service" where
  "GetEstimatedCost cfgRateMultiplier model inTokens outTokens s =
     (let (bd, s') = CalculateCostWithConfig cfgRateMultiplier model
        \<lparr>InputTokens = inTokens, OutputTokens = outTokens, CacheCreationTokens = 0, CacheReadTokens = 0,
         CacheCreation5mTokens = 0, CacheCreation1hTokens = 0, ImageOutputTokens = 0\<rparr> s
      in (map_option ActualCost bd, s'))"

text \<open>
  \<open>CalculateCostWithLongContext\<close> splits the input at a threshold, cache reads first, and
  charges the part above it at a higher rate. \<open>long_split\<close> gives the cache reads and the
  input inside and those outside.
\<close>

definition long_split :: "UsageTokens \<Rightarrow> int \<Rightarrow> (int \<times> int) \<times> (int \<times> int)" where
  "long_split tokens threshold =
     (if CacheReadTokens tokens \<ge> threshold
      then ((threshold, 0), (CacheReadTokens tokens - threshold, InputTokens tokens))
      else ((CacheReadTokens tokens, threshold - CacheReadTokens tokens),
            (0, InputTokens tokens - (threshold - CacheReadTokens tokens))))"

definition CalculateCostWithLongContext ::
    "string \<Rightarrow> UsageTokens \<Rightarrow> float64 \<Rightarrow> int \<Rightarrow> float64 \<Rightarrow> billing_service
       \<Rightarrow> CostBreakdown option \<times> billing_service" where
  "CalculateCostWithLongContext model tokens rateMultiplier threshold extraMultiplier s =
     (if threshold \<le> 0 \<or> extraMultiplier \<le> 1 then CalculateCost model tokens rateMultiplier s
      else if CacheReadTokens tokens + InputTokens tokens \<le> threshold
      then CalculateCost model tokens rateMultiplier s
      else
        let ((inCache, inInput), (outCache, outInput)) = long_split tokens threshold;
            inRange = tokens\<lparr>InputTokens := inInput, CacheReadTokens := inCache\<rparr>;
            outRange = \<lparr>InputTokens = outInput, OutputTokens = 0, CacheCreationTokens = 0,
              CacheReadTokens = outCache, CacheCreation5mTokens = 0, CacheCreation1hTokens = 0,
              ImageOutputTokens = 0\<rparr>
        in case CalculateCost model inRange rateMultiplier s of
             (None, s1) \<Rightarrow> (None, s1)
           | (Some c1, s1) \<Rightarrow>
               (case CalculateCost model outRange (rateMultiplier * extraMultiplier) s1 of
                  (None, s2) \<Rightarrow> (None, s2)
                | (Some c2, s2) \<Rightarrow>
                    (Some \<lparr>InputCost = InputCost c1 + InputCost c2, OutputCost = OutputCost c1,
                       ImageOutputCost = ImageOutputCost c1, CacheCreationCost = CacheCreationCost c1,
                       CacheReadCost = CacheReadCost c1 + CacheReadCost c2,
                       TotalCost = TotalCost c1 + TotalCost c2,
                       ActualCost = ActualCost c1 + ActualCost c2,
                       cb_BillingMode = BillingModeUnset\<rparr>, s2)))"

section \<open>Per-request and unified costs\<close>

record CostInput =
  ci_Model :: string
  ci_GroupID :: "int option"
  ci_Tokens :: UsageTokens
  ci_RequestCount :: int
  ci_SizeTier :: string
  ci_RateMultiplier :: float64
  ci_ServiceTier :: string
  ci_Resolved :: "ResolvedPricing option"

definition request_unit_price :: "ResolvedPricing \<Rightarrow> CostInput \<Rightarrow> float64" where
  "request_unit_price resolved input =
     (let p0 = (if ci_SizeTier input \<noteq> '''' then GetRequestTierPrice resolved (ci_SizeTier input) else 0);
          totalContext = InputTokens (ci_Tokens input) + CacheReadTokens (ci_Tokens input);
          p1 = (if p0 = 0 then GetRequestTierPriceByContext resolved totalContext else p0)
      in if p1 = 0 then rp_DefaultPerRequestPrice resolved else p1)"

definition calculatePerRequestCost :: "ResolvedPricing \<Rightarrow> CostInput \<Rightarrow> CostBreakdown" where
  "calculatePerRequestCost resolved input =
     (let count = (if ci_RequestCount input \<le> 0 then 1 else ci_RequestCount input);
          totalCost = request_unit_price resolved input * of_count count
      in zero_breakdown\<lparr>TotalCost := totalCost, ActualCost := totalCost * ci_RateMultiplier input\<rparr>)"

definition calculateTokenCost ::
    "ResolvedPricing \<Rightarrow> CostInput \<Rightarrow> billing_service \<Rightarrow> CostBreakdown option \<times> billing_service" where
  "calculateTokenCost resolved input s =
     (let totalContext = InputTokens (ci_Tokens input) + CacheReadTokens (ci_Tokens input)
      in case GetIntervalPricing resolved totalContext s of
           (None, s1) \<Rightarrow> (None, s1)
         | (Some a, s1) \<Rightarrow>
             let (b, s2) = applyModelSpecificPricingPolicy (ci_Model input) a s1;
                 applyLongCtx = (rp_Intervals resolved = [])
             in (Some (computeTokenBreakdown (deref s2 b) (ci_Tokens input) (ci_RateMultiplier input)
                   (ci_ServiceTier input) applyLongCtx), s2))"

text \<open>The resolver is the channel service's lookup, \<open>None\<close> if the caller has none.\<close>

definition CalculateCostUnified ::
    "'s price_source option \<Rightarrow> (nat \<Rightarrow> instant) \<Rightarrow> CostInput \<Rightarrow> 's \<times> billing_service
       \<Rightarrow> CostBreakdown option \<times> 's \<times> billing_service" where
  "CalculateCostUnified resolver clk input0 st =
     (case resolver of
        None \<Rightarrow>
          let (bd, s') = calculateCostInternal (ci_Model input0) (ci_Tokens input0)
                (ci_RateMultiplier input0) (ci_ServiceTier input0) None (snd st)
          in (bd, fst st, s')
      | Some price_of \<Rightarrow>
          let (resolved, cs1, s1) = (case ci_Resolved input0 of
                Some r \<Rightarrow> (r, st)
              | None \<Rightarrow> Resolve price_of clk (ci_Model input0) (ci_GroupID input0) st);
              input = (if ci_RateMultiplier input0 < 0 then input0\<lparr>ci_RateMultiplier := 0\<rparr> else input0);
              (breakdown, s2) =
                (if rp_Mode resolved = BillingModePerRequest \<or> rp_Mode resolved = BillingModeImage
                 then (Some (calculatePerRequestCost resolved input), s1)
                 else calculateTokenCost resolved input s1)
          in (map_option (cb_BillingMode_update (\<lambda>_. default_token_mode (rp_Mode resolved))) breakdown,
              cs1, s2))"

section \<open>Image costs\<close>

record ImagePriceConfig =
  Price1K :: "float64 option"
  Price2K :: "float64 option"
  Price4K :: "float64 option"

definition getDefaultImagePrice :: "string \<Rightarrow> string \<Rightarrow> billing_service \<Rightarrow> float64" where
  "getDefaultImagePrice model imageSize s =
     (let p0 = (case litellm_price model s of
            None \<Rightarrow> 0
          | Some l \<Rightarrow> if OutputCostPerImage l > 0 then OutputCostPerImage l else 0);
          basePrice = (if p0 \<le> 0 then Fin (134 / 1000) else p0)
      in if imageSize = ''2K'' then basePrice * Fin (3 / 2)
         else if imageSize = ''4K'' then basePrice * Fin 2
         else basePrice)"

definition getImageUnitPrice ::
    "string \<Rightarrow> string \<Rightarrow> ImagePriceConfig option \<Rightarrow> billing_service \<Rightarrow> float64" where
  "getImageUnitPrice model imageSize groupConfig s =
     (case Option.bind groupConfig (\<lambda>c.
         if imageSize = ''1K'' then Price1K c
         else if imageSize = ''2K'' then Price2K c
         else if imageSize = ''4K'' then Price4K c
         else None) of
        Some p \<Rightarrow> p
      | None \<Rightarrow> getDefaultImagePrice model imageSize s)"

definition CalculateImageCost ::
    "string \<Rightarrow> string \<Rightarrow> int \<Rightarrow> ImagePriceConfig option \<Rightarrow> float64 \<Rightarrow> billing_service \<Rightarrow> CostBreakdown" where
  "CalculateImageCost model imageSize imageCount groupConfig rateMultiplier s =
     (if imageCount \<le> 0 then zero_breakdown
      else let totalCost = getImageUnitPrice model imageSize groupConfig s * of_count imageCount;
               rate = (if rateMultiplier < 0 then 0 else rateMultiplier)
           in zero_breakdown\<lparr>TotalCost := totalCost, ActualCost := totalCost * rate,
                cb_BillingMode := BillingModeImage\<rparr>)"

section \<open>Costs are never negative\<close>

definition tokens_ok :: "UsageTokens \<Rightarrow> bool" where
  "tokens_ok t \<longleftrightarrow> 0 \<le> InputTokens t \<and> 0 \<le> OutputTokens t \<and> 0 \<le> CacheCreationTokens t \<and>
     0 \<le> CacheReadTokens t \<and> 0 \<le> CacheCreation5mTokens t \<and> 0 \<le> CacheCreation1hTokens t \<and>
     0 \<le> ImageOutputTokens t"

definition cost_ok :: "CostBreakdown \<Rightarrow> bool" where
  "cost_ok c \<longleftrightarrow> nonneg (InputCost c) \<and> nonneg (OutputCost c) \<and> nonneg (ImageOutputCost c) \<and>
     nonneg (CacheCreationCost c) \<and> nonneg (CacheReadCost c) \<and> nonneg (TotalCost c) \<and>
     nonneg (ActualCost c)"

lemma unit_prices_ok:
  assumes "pricing_ok p" and "unit_prices p t tier long = (i, out, cr, tm)"
  shows "nonneg i \<and> nonneg out \<and> nonneg cr \<and> nonneg tm"
  using assms
  by (auto simp: unit_prices_def pricing_ok_def serviceTierCostMultiplier_def Let_def
      intro: nonneg_intros split: if_splits)

lemma cacheCreationCost_ok: "pricing_ok p \<Longrightarrow> tokens_ok t \<Longrightarrow> nonneg (computeCacheCreationCost p t)"
  by (auto simp: computeCacheCreationCost_def pricing_ok_def tokens_ok_def intro!: nonneg_intros)

lemma nonnegI: "\<not> x < 0 \<Longrightarrow> nonneg x"
  by (simp add: nonneg_def)

lemma clamp_ok [simp]: "nonneg (if r < 0 then 0 else r)"
  by (simp add: nonneg_def Fin_zero)

lemma computeTokenBreakdown_ok:
  assumes "pricing_ok p" and "tokens_ok t"
  shows "cost_ok (computeTokenBreakdown p t rate tier long)"
proof -
  obtain i out cr tm where u: "unit_prices p t tier long = (i, out, cr, tm)"
    by (metis prod_cases4)
  note ok = unit_prices_ok [OF assms(1) u] cacheCreationCost_ok [OF assms]
  have img: "nonneg (ImageOutputPricePerToken p)" using assms(1) by (simp add: pricing_ok_def)
  show ?thesis
    using ok img assms(2) unfolding cost_ok_def computeTokenBreakdown_def u Let_def prod.case
    by (auto simp: tokens_ok_def intro!: nonneg_intros intro: nonnegI)
qed

lemma interval_request_price: "interval_ok iv \<Longrightarrow> nonneg (option_or (iv_PerRequestPrice iv) 0)"
  by (cases "iv_PerRequestPrice iv") (simp_all add: interval_ok_def price_negative_nonneg)

lemma find_interval_ok: "list_all interval_ok ivs \<Longrightarrow> find P ivs = Some iv \<Longrightarrow> interval_ok iv"
  by (auto simp: list_all_iff dest: find_Some_mem)

lemma tier_price_ok: "list_all interval_ok (rp_RequestTiers r) \<Longrightarrow> nonneg (GetRequestTierPrice r l)"
  by (auto simp: GetRequestTierPrice_def split: option.splits
      intro!: interval_request_price elim!: find_interval_ok)

lemma context_price_ok: "list_all interval_ok (rp_RequestTiers r) \<Longrightarrow> nonneg (GetRequestTierPriceByContext r n)"
  by (auto simp: GetRequestTierPriceByContext_def FindMatchingInterval_def split: option.splits
      intro!: interval_request_price elim!: find_interval_ok)

lemma request_cost_ok:
  assumes "resolved_ok s r" and "nonneg (ci_RateMultiplier input)"
  shows "cost_ok (calculatePerRequestCost r input)"
proof -
  have "nonneg (request_unit_price r input)"
    using assms(1) tier_price_ok [of r] context_price_ok [of r]
    by (simp add: request_unit_price_def resolved_ok_def Let_def)
  with assms(2) show ?thesis
    by (simp add: calculatePerRequestCost_def cost_ok_def zero_breakdown_def Let_def nonneg_intros)
qed

lemma GetIntervalPricing_ok:
  assumes "billing_ok s" and "resolved_ok s r" and "GetIntervalPricing r n s = (a, s')"
  shows "billing_ok s' \<and> (\<forall>b. a = Some b \<longrightarrow> b < length (bs_heap s'))"
proof (cases "rp_Intervals r = [] \<or> FindMatchingInterval (rp_Intervals r) n = None")
  case True
  with assms show ?thesis
    by (auto simp: GetIntervalPricing_def resolved_ok_def split: if_splits option.splits)
next
  case False
  then obtain iv where iv: "FindMatchingInterval (rp_Intervals r) n = Some iv" by auto
  then have "interval_ok iv"
    using assms(2) by (auto simp: FindMatchingInterval_def resolved_ok_def list_all_iff dest!: find_Some_mem)
  then have "billing_ok (snd (new_pricing (intervalToModelPricing iv (rp_SupportsCacheBreakdown r)) s))"
    using assms(1) by (intro new_pricing_ok intervalToModelPricing_ok)
  with False iv assms(3) show ?thesis
    by (auto simp: GetIntervalPricing_def split_beta Let_def)
qed

lemma calculateTokenCost_ok:
  assumes "billing_ok s" and "resolved_ok s r" and "tokens_ok (ci_Tokens input)"
    and "calculateTokenCost r input s = (bd, s')"
  shows "billing_ok s' \<and> (\<forall>c. bd = Some c \<longrightarrow> cost_ok c)"
proof -
  let ?n = "InputTokens (ci_Tokens input) + CacheReadTokens (ci_Tokens input)"
  obtain a s1 where g: "GetIntervalPricing r ?n s = (a, s1)" by fastforce
  note i = GetIntervalPricing_ok [OF assms(1,2) g]
  show ?thesis
  proof (cases a)
    case None
    with g i assms(4) show ?thesis by (simp add: calculateTokenCost_def Let_def)
  next
    case (Some b)
    let ?q = "applyModelSpecificPricingPolicy (ci_Model input) b s1"
    have q: "billing_ok (snd ?q)" "fst ?q < length (bs_heap (snd ?q))"
      using i Some policy_ok policy_result(1) by auto
    with g Some assms(3,4) computeTokenBreakdown_ok [OF deref_ok [OF q]] show ?thesis
      by (auto simp: calculateTokenCost_def Let_def split_beta)
  qed
qed

lemma calculateCostInternal_ok:
  assumes "billing_ok s" and "tokens_ok t" and "calculateCostInternal m t rate tier None s = (bd, s')"
  shows "billing_ok s' \<and> (\<forall>c. bd = Some c \<longrightarrow> cost_ok c)"
  using billing_GetModelPricing_ok [OF assms(1), of m] assms(2,3) deref_ok
  by (auto simp: calculateCostInternal_def split: option.splits prod.splits intro: computeTokenBreakdown_ok)

lemma cost_ok_mode [simp]: "cost_ok (cb_BillingMode_update f c) = cost_ok c"
  by (simp add: cost_ok_def)

context channel_price_source
begin

lemma CalculateCostUnified_ok:
  assumes "source_inv cs" and "billing_ok s" and "tokens_ok (ci_Tokens input)" and "ci_Resolved input = None"
    and "CalculateCostUnified (Some price_of) clk input (cs, s) = (bd, cs', s')"
  shows "source_inv cs' \<and> billing_ok s' \<and> (\<forall>c. bd = Some c \<longrightarrow> cost_ok c)"
proof -
  obtain r cs1 s1 where r: "Resolve price_of clk (ci_Model input) (ci_GroupID input) (cs, s) = (r, cs1, s1)"
    by (metis prod_cases3)
  have ok: "source_inv cs1" "billing_ok s1" "resolved_ok s1 r"
    using Resolve_ok [OF assms(1,2), of clk "ci_Model input" "ci_GroupID input"] r by (simp_all add: step_ok_def)
  define input' where "input' = (if ci_RateMultiplier input < 0 then input\<lparr>ci_RateMultiplier := 0\<rparr> else input)"
  have rate: "nonneg (ci_RateMultiplier input')" and toks: "tokens_ok (ci_Tokens input')"
    using assms(3) by (simp_all add: input'_def nonnegI)
  obtain c s2 where t: "calculateTokenCost r input' s1 = (c, s2)" by fastforce
  from calculateTokenCost_ok [OF ok(2,3) toks t] request_cost_ok [OF ok(3) rate] ok assms(4,5) t
  show ?thesis
    by (auto simp: CalculateCostUnified_def r Let_def simp flip: input'_def split: if_splits)
qed

end

section \<open>The price of a model as a value\<close>

text \<open>
  \<open>model_price\<close> abstracts the lookup from the heap: the contents of the record a lookup
  returns. It does not change when the heap only grows, so a second lookup within a
  computation gives the same price.
\<close>

definition with_policy :: "string \<Rightarrow> ModelPricing \<Rightarrow> ModelPricing" where
  "with_policy m p = (if isOpenAIGPT54Model m \<and> \<not> long_context_set p then with_long_context p else p)"

definition model_price :: "string \<Rightarrow> billing_service \<Rightarrow> ModelPricing option" where
  "model_price m s =
     (case litellm_price (ToLower m) s of
        Some l \<Rightarrow> Some (with_policy (ToLower m) (from_litellm l))
      | None \<Rightarrow> map_option (\<lambda>a. with_policy (ToLower m) (deref s a)) (getFallbackPricing (ToLower m) s))"

lemma lookup_value:
  assumes "billing_ok s"
  shows "map_option (deref (snd (billing_GetModelPricing m s))) (fst (billing_GetModelPricing m s)) = model_price m s"
proof (cases rule: billing_GetModelPricing_cases [of m s])
  case (1 l)
  then show ?thesis
    using policy_result(2) [of "length (bs_heap s)" "snd (new_pricing (from_litellm l) s)" "ToLower m"]
    by (simp add: billing_GetModelPricing_litellm Let_def model_price_def with_policy_def)
next
  case (2 a)
  then show ?thesis
    using policy_result(2) [OF fallback_valid [OF assms 2(2)], of "ToLower m"]
    by (simp add: billing_GetModelPricing_fallback Let_def model_price_def with_policy_def)
next
  case 3
  then show ?thesis
    by (auto simp: billing_GetModelPricing_def model_price_def Let_def split_beta split: option.splits)
qed

lemma model_price_extends:
  assumes "billing_ok s" and "heap_extends s s'"
  shows "model_price m s' = model_price m s"
proof -
  have "getFallbackPricing (ToLower m) s' = getFallbackPricing (ToLower m) s"
    and "litellm_price (ToLower m) s' = litellm_price (ToLower m) s"
    using assms(2) by (simp_all add: heap_extends_def getFallbackPricing_def litellm_price_def)
  with fallback_valid [OF assms(1), of "ToLower m"] assms(2) show ?thesis
    by (cases "getFallbackPricing (ToLower m) s")
      (auto simp: model_price_def heap_extends_def split: option.splits)
qed

lemma CalculateCost_value:
  assumes "billing_ok s"
  shows "\<exists>s'. CalculateCost m t rate s =
     (map_option (\<lambda>p. computeTokenBreakdown p t rate '''' True) (model_price m s), s') \<and>
     heap_extends s s' \<and> billing_ok s'"
proof -
  obtain a s' where g: "billing_GetModelPricing m s = (a, s')" by fastforce
  then have "model_price m s = map_option (deref s') a"
    using lookup_value [OF assms, of m] by simp
  moreover have "heap_extends s s'" and "billing_ok s'"
    using g billing_GetModelPricing_extends [of s m] billing_GetModelPricing_ok [OF assms, of m] by simp_all
  ultimately show ?thesis
    by (auto simp: CalculateCost_def calculateCostInternal_def g split: option.splits)
qed

text \<open>Finite prices, where cost arithmetic is that of the rationals.\<close>

definition pricing_fin :: "ModelPricing \<Rightarrow> bool" where
  "pricing_fin p \<longleftrightarrow>
     fin_nonneg (InputPricePerToken p) \<and> fin_nonneg (InputPricePerTokenPriority p) \<and>
     fin_nonneg (OutputPricePerToken p) \<and> fin_nonneg (OutputPricePerTokenPriority p) \<and>
     fin_nonneg (CacheCreationPricePerToken p) \<and> fin_nonneg (CacheReadPricePerToken p) \<and>
     fin_nonneg (CacheReadPricePerTokenPriority p) \<and> fin_nonneg (CacheCreation5mPrice p) \<and>
     fin_nonneg (CacheCreation1hPrice p) \<and> fin_nonneg (ImageOutputPricePerToken p)"

lemma no_tier [simp]: "\<not> usePriorityServiceTierPricing '''' p" "serviceTierCostMultiplier '''' = Fin 1"
  by (simp_all add: usePriorityServiceTierPricing_def serviceTierCostMultiplier_def
      normalizeBillingServiceTier_def ToLower_def)

lemma creation_fin:
  "pricing_fin p \<Longrightarrow> tokens_ok t \<Longrightarrow> fin_nonneg (computeCacheCreationCost p t)"
  by (auto simp: pricing_fin_def tokens_ok_def computeCacheCreationCost_def intro!: fin_nonneg_add fin_nonneg_mul)

definition text_tokens :: "UsageTokens \<Rightarrow> int" where
  "text_tokens t = (if OutputTokens t - ImageOutputTokens t < 0 then 0 else OutputTokens t - ImageOutputTokens t)"

definition output_costs :: "ModelPricing \<Rightarrow> float64 \<Rightarrow> UsageTokens \<Rightarrow> float64" where
  "output_costs p out t = of_count (text_tokens t) * out +
     (if ImageOutputTokens t > 0
      then of_count (ImageOutputTokens t) * (if ImageOutputPricePerToken p = 0 then out else ImageOutputPricePerToken p)
      else 0)"

lemma output_costs_fin:
  "pricing_fin p \<Longrightarrow> fin_nonneg out \<Longrightarrow> tokens_ok t \<Longrightarrow> fin_nonneg (output_costs p out t)"
  by (auto simp: output_costs_def text_tokens_def pricing_fin_def tokens_ok_def intro!: fin_nonneg_add fin_nonneg_mul)

lemma Fin0_mul: "fin_nonneg x \<Longrightarrow> Fin 0 * x = Fin 0"
  by (elim fin_nonnegE) simp

lemma Fin_exists: "fin_nonneg x \<Longrightarrow> \<exists>a. x = Fin a \<and> 0 \<le> a"
  by blast

lemma Fin_parts:
  assumes "Fin q = x + y" and "fin_nonneg x" and "fin_nonneg y"
  obtains a b where "x = Fin a" "y = Fin b" "0 \<le> a" "0 \<le> b" "q = a + b"
  using assms by (elim fin_nonnegE) auto

text \<open>The total as a sum of four terms, for finite unit prices.\<close>

lemma computeTokenBreakdown_total:
  assumes "pricing_fin p" and "tokens_ok t" and "unit_prices p t tier long = (Fin i, Fin out, Fin cr, Fin tm)"
    and "0 \<le> out" and "computeCacheCreationCost p t = Fin c" and "output_costs p (Fin out) t = Fin o'"
  shows "TotalCost (computeTokenBreakdown p t rate tier long) =
     Fin ((of_int (InputTokens t) * i + o' + c + of_int (CacheReadTokens t) * cr) * tm)"
    and "ActualCost (computeTokenBreakdown p t rate tier long) =
     TotalCost (computeTokenBreakdown p t rate tier long) * (if rate < 0 then 0 else rate)"
proof -
  let ?img = "if ImageOutputTokens t > 0
      then of_count (ImageOutputTokens t) * (if ImageOutputPricePerToken p = 0 then Fin out else ImageOutputPricePerToken p)
      else 0"
  have f: "fin_nonneg (of_count (text_tokens t) * Fin out)" "fin_nonneg ?img"
    using assms(1,2,4) by (auto simp: text_tokens_def pricing_fin_def tokens_ok_def intro!: fin_nonneg_mul)
  from assms(6) have "Fin o' = of_count (text_tokens t) * Fin out + ?img"
    by (simp add: output_costs_def)
  from Fin_parts [OF this f] obtain a b where ab: "of_count (text_tokens t) * Fin out = Fin a"
    "?img = Fin b" "o' = a + b" by metis
  show "TotalCost (computeTokenBreakdown p t rate tier long) =
     Fin ((of_int (InputTokens t) * i + o' + c + of_int (CacheReadTokens t) * cr) * tm)"
    unfolding computeTokenBreakdown_def assms(3) Let_def prod.case assms(5) CostBreakdown.select_convs
      ab(1) [unfolded text_tokens_def] ab(2) ab(3)
    by (simp add: of_count_def algebra_simps)
  show "ActualCost (computeTokenBreakdown p t rate tier long) =
     TotalCost (computeTokenBreakdown p t rate tier long) * (if rate < 0 then 0 else rate)"
    unfolding computeTokenBreakdown_def assms(3) Let_def prod.case by simp
qed

definition long_context_raises :: "ModelPricing \<Rightarrow> bool" where
  "long_context_raises p \<longleftrightarrow>
     (\<exists>x. LongContextInputMultiplier p = Fin x \<and> 1 \<le> x) \<and> (\<exists>y. LongContextOutputMultiplier p = Fin y \<and> 1 \<le> y)"

definition base_prices :: "ModelPricing \<Rightarrow> string \<Rightarrow> float64 \<times> float64 \<times> float64 \<times> float64" where
  "base_prices p tier =
     (if usePriorityServiceTierPricing tier p
      then (if InputPricePerTokenPriority p > 0 then InputPricePerTokenPriority p else InputPricePerToken p,
            if OutputPricePerTokenPriority p > 0 then OutputPricePerTokenPriority p else OutputPricePerToken p,
            if CacheReadPricePerTokenPriority p > 0 then CacheReadPricePerTokenPriority p else CacheReadPricePerToken p,
            Fin 1)
      else (InputPricePerToken p, OutputPricePerToken p, CacheReadPricePerToken p, serviceTierCostMultiplier tier))"

lemma base_prices_fin:
  assumes "pricing_fin p"
  obtains i out cr tm where "base_prices p tier = (Fin i, Fin out, Fin cr, Fin tm)"
    "0 \<le> i" "0 \<le> out" "0 \<le> cr" "0 \<le> tm"
proof -
  obtain a a' b b' c c' where p: "InputPricePerToken p = Fin a" "InputPricePerTokenPriority p = Fin a'"
    "OutputPricePerToken p = Fin b" "OutputPricePerTokenPriority p = Fin b'"
    "CacheReadPricePerToken p = Fin c" "CacheReadPricePerTokenPriority p = Fin c'"
    "0 \<le> a" "0 \<le> a'" "0 \<le> b" "0 \<le> b'" "0 \<le> c" "0 \<le> c'"
    using assms unfolding pricing_fin_def by (elim conjE fin_nonnegE) blast
  have "fin_nonneg (serviceTierCostMultiplier tier)"
    by (simp add: serviceTierCostMultiplier_def)
  then obtain tm where tm: "serviceTierCostMultiplier tier = Fin tm" "0 \<le> tm" by blast
  show ?thesis
  proof (cases "usePriorityServiceTierPricing tier p")
    case True
    with p show ?thesis
      by (intro that [of "if 0 < a' then a' else a" "if 0 < b' then b' else b" "if 0 < c' then c' else c" 1])
        (simp_all add: Fin_zero base_prices_def)
  next
    case False
    with p tm show ?thesis by (intro that [of a b c tm]) (simp_all add: base_prices_def)
  qed
qed

lemma unit_prices_base:
  "unit_prices p t tier long = (let (i, out, cr, tm) = base_prices p tier
     in if long \<and> shouldApplySessionLongContextPricing t p
        then (i * LongContextInputMultiplier p, out * LongContextOutputMultiplier p, cr, tm)
        else (i, out, cr, tm))"
  by (simp add: unit_prices_def base_prices_def)

lemma unit_prices_at:
  assumes "pricing_fin p" and "LongContextInputThreshold p \<le> 0 \<or> long_context_raises p"
  obtains i out cr tm x y where "0 \<le> i" "0 \<le> out" "0 \<le> cr" "0 \<le> tm" "1 \<le> x" "1 \<le> y"
    "\<And>t. unit_prices p t tier long = (if long \<and> shouldApplySessionLongContextPricing t p
       then (Fin (i * x), Fin (out * y), Fin cr, Fin tm) else (Fin i, Fin out, Fin cr, Fin tm))"
proof -
  obtain i out cr tm where b: "base_prices p tier = (Fin i, Fin out, Fin cr, Fin tm)"
    "0 \<le> i" "0 \<le> out" "0 \<le> cr" "0 \<le> tm"
    using base_prices_fin [OF assms(1), of tier] by metis
  show ?thesis
  proof (cases "LongContextInputThreshold p \<le> 0")
    case True
    with b show ?thesis
      by (intro that [of i out cr tm 1 1])
        (simp_all add: unit_prices_base Let_def b(1) shouldApplySessionLongContextPricing_def)
  next
    case False
    with assms(2) obtain x y where "LongContextInputMultiplier p = Fin x" "LongContextOutputMultiplier p = Fin y"
      "1 \<le> x" "1 \<le> y"
      by (auto simp: long_context_raises_def)
    with b show ?thesis
      by (intro that [of i out cr tm x y]) (simp_all add: unit_prices_base Let_def b(1))
  qed
qed

lemma output_costs_mono:
  assumes "pricing_fin p" and "tokens_ok t" and "0 \<le> out" and "out \<le> out'"
  obtains o1 o2 where "output_costs p (Fin out) t = Fin o1"
    "output_costs p (Fin out') (t\<lparr>InputTokens := n, CacheReadTokens := k\<rparr>) = Fin o2" "o1 \<le> o2"
proof -
  obtain img where img: "ImageOutputPricePerToken p = Fin img"
    using assms(1) unfolding pricing_fin_def by (metis Fin_exists)
  have n: "0 \<le> text_tokens t" "0 \<le> ImageOutputTokens t"
    using assms(2) by (auto simp: text_tokens_def tokens_ok_def)
  define f where "f = (\<lambda>x. of_int (text_tokens t) * x + (if ImageOutputTokens t > 0
    then of_int (ImageOutputTokens t) * (if img = 0 then x else img) else 0) :: rat)"
  have "output_costs p (Fin x) (t\<lparr>InputTokens := n, CacheReadTokens := k\<rparr>) = Fin (f x)"
    "output_costs p (Fin x) t = Fin (f x)" for x
    by (simp_all add: output_costs_def f_def img of_count_def text_tokens_def Fin_zero)
  moreover have "f out \<le> f out'"
    using n assms(4) by (auto simp: f_def intro!: add_mono mult_left_mono)
  ultimately show ?thesis using that by blast
qed

section \<open>Properties\<close>

text \<open>C3. No request is charged a negative amount: with a channel service that holds only
  validated channels, non-negative base prices and non-negative token counts, every component
  of the cost the unified entry computes is not negative, for every multiplier, and both
  services keep their invariants.\<close>

theorem CalculateCostUnified_nonneg:
  assumes "service_inv cs" and "billing_ok s" and "tokens_ok (ci_Tokens input)" and "ci_Resolved input = None"
    and "CalculateCostUnified (Some GetChannelModelPricing) clk input (cs, s) = (bd, cs', s')"
  shows "service_inv cs' \<and> billing_ok s' \<and> (\<forall>c. bd = Some c \<longrightarrow> cost_ok c)"
  by (rule prices.CalculateCostUnified_ok [OF assms])

text \<open>Splitting a request at a long-context threshold charges every input token once: the
  total is that of the whole request, the tokens above the threshold number exactly the excess,
  and they alone are charged at the extra rate.\<close>

theorem CalculateCostWithLongContext_split:
  assumes "billing_ok s" and "model_price m s = Some p" and "pricing_fin p"
    and "LongContextInputThreshold p \<le> 0" and "tokens_ok t"
    and "0 < threshold" and "1 < e" and "0 \<le> r" and "threshold < CacheReadTokens t + InputTokens t"
    and "long_split t threshold = (inside, outCache, outInput)"
  shows "\<exists>bd s'. CalculateCostWithLongContext m t (Fin r) threshold (Fin e) s = (Some bd, s') \<and>
     0 \<le> outCache \<and> 0 \<le> outInput \<and> outCache + outInput = CacheReadTokens t + InputTokens t - threshold \<and>
     TotalCost bd = TotalCost (computeTokenBreakdown p t (Fin r) '''' True) \<and>
     ActualCost bd = ActualCost (computeTokenBreakdown p t (Fin r) '''' True) +
       Fin (r * (e - 1)) * (of_count outInput * InputPricePerToken p + of_count outCache * CacheReadPricePerToken p)"
proof -
  obtain inCache inInput where "inside": "inside = (inCache, inInput)" by fastforce
  define tin where "tin = t\<lparr>InputTokens := inInput, CacheReadTokens := inCache\<rparr>"
  define tout where "tout = \<lparr>InputTokens = outInput, OutputTokens = 0, CacheCreationTokens = 0,
              CacheReadTokens = outCache, CacheCreation5mTokens = 0, CacheCreation1hTokens = 0,
              ImageOutputTokens = 0\<rparr>"
  have split: "0 \<le> outCache" "0 \<le> outInput" "0 \<le> inCache" "0 \<le> inInput"
    "inCache + outCache = CacheReadTokens t" "inInput + outInput = InputTokens t"
    "outCache + outInput = CacheReadTokens t + InputTokens t - threshold"
    using assms(5,6,9,10) by (auto simp: long_split_def "inside" tokens_ok_def split: if_splits)
  have ok: "tokens_ok tin" "tokens_ok tout"
    using assms(5) split by (auto simp: tokens_ok_def tin_def tout_def)
  obtain i out cr where u: "InputPricePerToken p = Fin i" "OutputPricePerToken p = Fin out"
    "CacheReadPricePerToken p = Fin cr" "0 \<le> out"
    using assms(3) unfolding pricing_fin_def by (elim conjE fin_nonnegE) blast
  have units: "unit_prices p t' '''' True = (Fin i, Fin out, Fin cr, Fin 1)" for t'
    using assms(4) by (simp add: unit_prices_def shouldApplySessionLongContextPricing_def u)
  obtain c o' where co: "computeCacheCreationCost p t = Fin c" "output_costs p (Fin out) t = Fin o'"
    using creation_fin [OF assms(3,5)] output_costs_fin [OF assms(3) _ assms(5), of "Fin out"] u(4)
    by (auto elim!: fin_nonnegE)
  have co_in: "computeCacheCreationCost p tin = Fin c" "output_costs p (Fin out) tin = Fin o'"
    using co by (simp_all add: tin_def computeCacheCreationCost_def output_costs_def text_tokens_def cong: if_cong)
  have co_out: "computeCacheCreationCost p tout = Fin 0" "output_costs p (Fin out) tout = Fin 0"
    using assms(3) by (auto simp: tout_def computeCacheCreationCost_def output_costs_def text_tokens_def
        pricing_fin_def of_count_def Fin_zero Fin0_mul)
  note whole = computeTokenBreakdown_total [OF assms(3) assms(5) units u(4) co, where rate = "Fin r"]
  note part1 = computeTokenBreakdown_total [OF assms(3) ok(1) units u(4) co_in, where rate = "Fin r"]
  note part2 = computeTokenBreakdown_total [OF assms(3) ok(2) units u(4) co_out, where rate = "Fin (r * e)"]
  obtain s1 where c1: "CalculateCost m tin (Fin r) s =
      (Some (computeTokenBreakdown p tin (Fin r) '''' True), s1)" and s1: "heap_extends s s1" "billing_ok s1"
    using CalculateCost_value [OF assms(1), of m tin "Fin r"] assms(2) by auto
  obtain s2 where c2: "CalculateCost m tout (Fin (r * e)) s1 =
      (Some (computeTokenBreakdown p tout (Fin (r * e)) '''' True), s2)"
    using CalculateCost_value [OF s1(2), of m tout "Fin (r * e)"] assms(2)
      model_price_extends [OF assms(1) s1(1), of m] by auto
  have toks: "of_int (InputTokens t) = (of_int inInput + of_int outInput :: rat)"
    "of_int (CacheReadTokens t) = (of_int inCache + of_int outCache :: rat)"
    using split(5,6) by (simp_all flip: of_int_add)
  show ?thesis
    using assms(6,7,8,9) split(1,2,7) c1 c2
    by (simp add: CalculateCostWithLongContext_def assms(10) "inside" Fin_one Fin_zero mult_less_0_iff
        whole part1 part2 u of_count_def toks flip: tin_def tout_def)
      (simp add: tin_def tout_def algebra_simps)
qed

text \<open>More input never costs less: for finite prices whose long-context multipliers are at
  least one, raising the number of input or cache-read tokens does not lower the total, on any
  service tier and also across the long-context threshold.\<close>

theorem computeTokenBreakdown_mono:
  assumes "pricing_fin p" and "LongContextInputThreshold p \<le> 0 \<or> long_context_raises p" and "tokens_ok t"
    and "InputTokens t \<le> n" and "CacheReadTokens t \<le> k"
  shows "TotalCost (computeTokenBreakdown p t rate tier long) \<le>
     TotalCost (computeTokenBreakdown p (t\<lparr>InputTokens := n, CacheReadTokens := k\<rparr>) rate tier long)"
proof -
  let ?t = "t\<lparr>InputTokens := n, CacheReadTokens := k\<rparr>"
  have ok: "tokens_ok ?t" using assms(3-5) by (auto simp: tokens_ok_def)
  obtain i0 out0 cr tm x y where b: "0 \<le> i0" "0 \<le> out0" "0 \<le> cr" "0 \<le> tm" "1 \<le> x" "1 \<le> y"
    and units: "\<And>t. unit_prices p t tier long = (if long \<and> shouldApplySessionLongContextPricing t p
       then (Fin (i0 * x), Fin (out0 * y), Fin cr, Fin tm) else (Fin i0, Fin out0, Fin cr, Fin tm))"
    using unit_prices_at [OF assms(1,2), of tier long] by metis
  define i where "i = (\<lambda>t. if long \<and> shouldApplySessionLongContextPricing t p then i0 * x else i0)"
  define out where "out = (\<lambda>t. if long \<and> shouldApplySessionLongContextPricing t p then out0 * y else out0)"
  have u: "unit_prices p t' tier long = (Fin (i t'), Fin (out t'), Fin cr, Fin tm)" for t'
    by (simp add: units i_def out_def)
  have "shouldApplySessionLongContextPricing t p \<Longrightarrow> shouldApplySessionLongContextPricing ?t p"
    using assms(4,5) by (auto simp: shouldApplySessionLongContextPricing_def split: if_splits)
  then have le: "i t \<le> i ?t" "out t \<le> out ?t"
    using b by (auto simp: i_def out_def mult_le_cancel_left1)
  have nn: "0 \<le> i t'" "0 \<le> out t'" for t' using b by (auto simp: i_def out_def)
  obtain c where c: "computeCacheCreationCost p t = Fin c"
    using creation_fin [OF assms(1,3)] by (auto elim!: fin_nonnegE)
  then have c': "computeCacheCreationCost p ?t = Fin c"
    by (simp add: computeCacheCreationCost_def cong: if_cong)
  obtain o1 o2 where o: "output_costs p (Fin (out t)) t = Fin o1" "output_costs p (Fin (out ?t)) ?t = Fin o2" "o1 \<le> o2"
    using output_costs_mono [OF assms(1,3) nn(2) le(2), where n = n and k = k] by metis
  have "of_int (InputTokens t) * i t \<le> of_int n * i ?t"
    using assms(3,4) le(1) nn(1) by (intro mult_mono) (auto simp: tokens_ok_def)
  moreover have "of_int (CacheReadTokens t) * cr \<le> of_int k * cr"
    using assms(5) b(3) by (intro mult_right_mono) auto
  ultimately have "(of_int (InputTokens t) * i t + o1 + c + of_int (CacheReadTokens t) * cr) * tm
      \<le> (of_int n * i ?t + o2 + c + of_int k * cr) * tm"
    using o(3) b(4) by (intro mult_right_mono) auto
  then show ?thesis
    using computeTokenBreakdown_total(1) [OF assms(1,3) u nn(2) c o(1)]
      computeTokenBreakdown_total(1) [OF assms(1) ok u nn(2) c' o(2)]
    by simp
qed

text \<open>The unified entry fails only for lack of a price: without a group it returns a cost
  exactly if the dynamic service or the fallback table knows the model, and then it is the cost
  of the tokens at that price with the billing mode set to tokens.\<close>

theorem CalculateCostUnified_no_group:
  assumes "billing_ok s" and "ci_Resolved input = None" and "ci_GroupID input = None"
  shows "\<exists>s'. CalculateCostUnified (Some GetChannelModelPricing) clk input (cs, s) =
     (map_option (\<lambda>p. (computeTokenBreakdown (with_policy (ci_Model input) p) (ci_Tokens input)
          (if ci_RateMultiplier input < 0 then 0 else ci_RateMultiplier input) (ci_ServiceTier input) True)
          \<lparr>cb_BillingMode := BillingModeToken\<rparr>)
        (model_price (ci_Model input) s), cs, s')"
proof -
  obtain a s1 where g: "billing_GetModelPricing (ci_Model input) s = (a, s1)" by fastforce
  then have v: "model_price (ci_Model input) s = map_option (deref s1) a"
    using lookup_value [OF assms(1), of "ci_Model input"] by simp
  show ?thesis
  proof (cases a)
    case None
    with g v assms(2,3) show ?thesis
      by (auto simp: CalculateCostUnified_def Resolve_no_group base_resolution_def calculateTokenCost_def
          GetIntervalPricing_def Let_def)
  next
    case (Some b)
    have "b < length (bs_heap s1)" using billing_GetModelPricing_ok [OF assms(1), of "ci_Model input"] g Some by simp
    from policy_result(2) [OF this, of "ci_Model input"] g v Some assms(2,3) show ?thesis
      by (auto simp: CalculateCostUnified_def Resolve_no_group base_resolution_def calculateTokenCost_def
          GetIntervalPricing_def Let_def split_beta with_policy_def default_token_mode_def)
  qed
qed

definition demo_tokens :: UsageTokens where
  "demo_tokens = \<lparr>InputTokens = 10, OutputTokens = 5, CacheCreationTokens = 0, CacheReadTokens = 3,
     CacheCreation5mTokens = 0, CacheCreation1hTokens = 0, ImageOutputTokens = 0\<rparr>"

definition demo_input :: CostInput where
  "demo_input = \<lparr>ci_Model = ''GPT-5'', ci_GroupID = Some 11, ci_Tokens = demo_tokens, ci_RequestCount = 1,
     ci_SizeTier = '''', ci_RateMultiplier = Fin 1, ci_ServiceTier = '''', ci_Resolved = None\<rparr>"

lemma demo_tokens_ok: "tokens_ok demo_tokens"
  by (simp add: tokens_ok_def demo_tokens_def)

lemma demo_service_inv: "service_inv demo_service"
proof -
  have v: "list_all config_valid [demo_channel]" by (simp add: demo_valid)
  then show ?thesis using populate_valid [OF v] by (simp add: service_inv_def demo_service_def)
qed

lemma CalculateCostUnified_nonneg_witness:
  "pred_option cost_ok
     (fst (CalculateCostUnified (Some GetChannelModelPricing) (\<lambda>_. 1) demo_input (demo_service, demo_dynamic)))"
proof -
  obtain bd cs' s' where r: "CalculateCostUnified (Some GetChannelModelPricing) (\<lambda>_. 1) demo_input
      (demo_service, demo_dynamic) = (bd, cs', s')"
    by (metis prod_cases3)
  have "tokens_ok (ci_Tokens demo_input)" "ci_Resolved demo_input = None"
    by (simp_all add: demo_input_def demo_tokens_ok)
  from CalculateCostUnified_nonneg [OF demo_service_inv demo_dynamic_ok this r] show ?thesis
    by (simp add: r pred_option_def)
qed

lemma not_gpt54_o3: "\<not> isOpenAIGPT54Model ''o3''"
  by code_simp

lemma demo_price: "model_price ''o3'' demo_dynamic = Some (from_litellm demo_litellm)"
  using not_gpt54_o3
  by (simp add: model_price_def litellm_price_def demo_dynamic_def with_policy_def ToLower_def lower_char_def)

lemma demo_price_fin: "pricing_fin (from_litellm demo_litellm)" "LongContextInputThreshold (from_litellm demo_litellm) \<le> 0"
  by (simp_all add: pricing_fin_def from_litellm_def demo_litellm_def Let_def)

lemma CalculateCostWithLongContext_split_witness:
  "\<exists>bd s'. CalculateCostWithLongContext ''o3'' demo_tokens (Fin 1) 4 (Fin 2) demo_dynamic = (Some bd, s') \<and>
     ActualCost bd = ActualCost (computeTokenBreakdown (from_litellm demo_litellm) demo_tokens (Fin 1) '''' True) + Fin 9"
proof -
  have l: "long_split demo_tokens 4 = ((3, 1), 0, 9)" by (simp add: long_split_def demo_tokens_def)
  have c: "(4 :: int) < CacheReadTokens demo_tokens + InputTokens demo_tokens" by (simp add: demo_tokens_def)
  from CalculateCostWithLongContext_split [OF demo_dynamic_ok demo_price demo_price_fin demo_tokens_ok _ _ _ c l,
      of 2 1] show ?thesis
    by (auto simp: of_count_def from_litellm_def demo_litellm_def Let_def Fin_zero)
qed

lemma computeTokenBreakdown_mono_witness:
  "TotalCost (computeTokenBreakdown (from_litellm demo_litellm) demo_tokens (Fin 1) ''flex'' True) \<le>
   TotalCost (computeTokenBreakdown (from_litellm demo_litellm)
     (demo_tokens\<lparr>InputTokens := 20, CacheReadTokens := 3\<rparr>) (Fin 1) ''flex'' True)"
  by (rule computeTokenBreakdown_mono)
    (simp_all add: demo_price_fin demo_tokens_ok, simp_all add: demo_tokens_def)

lemma CalculateCostUnified_no_group_witness:
  "\<exists>c s'. CalculateCostUnified (Some GetChannelModelPricing) (\<lambda>_. 1)
     (demo_input\<lparr>ci_Model := ''o3'', ci_GroupID := None\<rparr>) (demo_service, demo_dynamic) = (Some c, demo_service, s')"
  using CalculateCostUnified_no_group [OF demo_dynamic_ok,
      of "demo_input\<lparr>ci_Model := ''o3'', ci_GroupID := None\<rparr>" "\<lambda>_. 1" demo_service]
  by (auto simp: demo_input_def demo_price)

end
