(* ===== verification/IdempotencyStore.thy ===== *)
theory IdempotencyStore
  imports GoPrelude
begin

text \<open>
  The store of idempotency records: the record type and the repository interface of
  \<open>backend/internal/service/idempotency.go\<close>, its implementation over the table
  \<open>idempotency_records\<close> (\<open>backend/internal/repository/idempotency_repo.go\<close>) and the
  clean-up of expired records.

  The interface is a record of operations on a state \<open>'s\<close>, as the service is given any
  implementation. A storage error is \<open>None\<close> (or \<open>False\<close> for the operations that return
  only an error) and leaves the rows alone; which calls fail is decided by the schedule of
  the table. The time-stamps \<open>created_at\<close> and \<open>updated_at\<close>, which no decision reads, are
  left out. The locale states what the clients rely on; the table satisfies it.
\<close>

section \<open>Records\<close>

datatype idem_status = Processing | Succeeded | FailedRetryable | OtherStatus string

record IdempotencyRecord =
  ir_ID :: int
  ir_Scope :: string
  ir_KeyHash :: string
  ir_Fingerprint :: string
  ir_Status :: idem_status
  ir_ResponseStatus :: "int option"
  ir_ResponseBody :: "string option"
  ir_ErrorReason :: "string option"
  ir_LockedUntil :: "instant option"
  ir_ExpiresAt :: instant

text \<open>
  The results: \<open>CreateProcessing\<close> gives \<open>Some (Some rid)\<close> to the owner of a new record and
  \<open>Some None\<close> if there was one.
\<close>

record 's IdempotencyRepository =
  CreateProcessing :: "IdempotencyRecord \<Rightarrow> 's \<Rightarrow> int option option \<times> 's"
  GetByScopeAndKeyHash :: "string \<Rightarrow> string \<Rightarrow> 's \<Rightarrow> IdempotencyRecord option option \<times> 's"
  TryReclaim :: "int \<Rightarrow> idem_status \<Rightarrow> instant \<Rightarrow> instant \<Rightarrow> instant \<Rightarrow> 's \<Rightarrow> bool option \<times> 's"
  ExtendProcessingLock :: "int \<Rightarrow> string \<Rightarrow> instant \<Rightarrow> instant \<Rightarrow> 's \<Rightarrow> bool option \<times> 's"
  MarkSucceeded :: "int \<Rightarrow> int \<Rightarrow> string \<Rightarrow> instant \<Rightarrow> 's \<Rightarrow> bool \<times> 's"
  MarkFailedRetryable :: "int \<Rightarrow> string \<Rightarrow> instant \<Rightarrow> instant \<Rightarrow> 's \<Rightarrow> bool \<times> 's"
  DeleteExpired :: "instant \<Rightarrow> int \<Rightarrow> 's \<Rightarrow> int option \<times> 's"

section \<open>The table\<close>

record idem_table =
  it_rows :: "IdempotencyRecord list"
  it_next :: int
  it_faults :: faults

definition row_at :: "string \<Rightarrow> string \<Rightarrow> IdempotencyRecord \<Rightarrow> bool" where
  "row_at scope keyHash r \<longleftrightarrow> ir_Scope r = scope \<and> ir_KeyHash r = keyHash"

definition with_fault :: "idem_table \<Rightarrow> bool \<times> idem_table" where
  "with_fault t = (let (fail, fs) = io (it_faults t) in (fail, t\<lparr>it_faults := fs\<rparr>))"

text \<open>\<open>UPDATE ... WHERE id = $1 AND ...\<close>: the rows changed and how many there were.\<close>

definition update_rows ::
    "(IdempotencyRecord \<Rightarrow> bool) \<Rightarrow> (IdempotencyRecord \<Rightarrow> IdempotencyRecord) \<Rightarrow> idem_table \<Rightarrow> nat \<times> idem_table" where
  "update_rows P f t =
     (length (filter P (it_rows t)), t\<lparr>it_rows := map (\<lambda>r. if P r then f r else r) (it_rows t)\<rparr>)"

definition sql_CreateProcessing :: "IdempotencyRecord \<Rightarrow> idem_table \<Rightarrow> int option option \<times> idem_table" where
  "sql_CreateProcessing record t0 =
     (let (fail, t) = with_fault t0
      in if fail then (None, t)
         else if list_ex (row_at (ir_Scope record) (ir_KeyHash record)) (it_rows t) then (Some None, t)
         else (Some (Some (it_next t)),
               t\<lparr>it_rows := it_rows t @ [\<lparr>ir_ID = it_next t, ir_Scope = ir_Scope record,
                    ir_KeyHash = ir_KeyHash record, ir_Fingerprint = ir_Fingerprint record,
                    ir_Status = ir_Status record, ir_ResponseStatus = None, ir_ResponseBody = None,
                    ir_ErrorReason = None, ir_LockedUntil = ir_LockedUntil record,
                    ir_ExpiresAt = ir_ExpiresAt record\<rparr>],
                 it_next := it_next t + 1\<rparr>))"

definition sql_GetByScopeAndKeyHash ::
    "string \<Rightarrow> string \<Rightarrow> idem_table \<Rightarrow> IdempotencyRecord option option \<times> idem_table" where
  "sql_GetByScopeAndKeyHash scope keyHash t0 =
     (let (fail, t) = with_fault t0
      in if fail then (None, t) else (Some (find (row_at scope keyHash) (it_rows t)), t))"

definition reclaimable :: "int \<Rightarrow> idem_status \<Rightarrow> instant \<Rightarrow> IdempotencyRecord \<Rightarrow> bool" where
  "reclaimable rid fromStatus now r \<longleftrightarrow>
     ir_ID r = rid \<and> ir_Status r = fromStatus \<and>
     (case ir_LockedUntil r of None \<Rightarrow> True | Some l \<Rightarrow> l \<le> now)"

definition reclaimed :: "instant \<Rightarrow> instant \<Rightarrow> IdempotencyRecord \<Rightarrow> IdempotencyRecord" where
  "reclaimed newLockedUntil newExpiresAt r =
     r\<lparr>ir_Status := Processing, ir_LockedUntil := Some newLockedUntil, ir_ErrorReason := None,
       ir_ExpiresAt := newExpiresAt\<rparr>"

definition sql_TryReclaim ::
    "int \<Rightarrow> idem_status \<Rightarrow> instant \<Rightarrow> instant \<Rightarrow> instant \<Rightarrow> idem_table \<Rightarrow> bool option \<times> idem_table" where
  "sql_TryReclaim rid fromStatus now newLockedUntil newExpiresAt t0 =
     (let (fail, t) = with_fault t0
      in if fail then (None, t)
         else let (n, t') = update_rows (reclaimable rid fromStatus now) (reclaimed newLockedUntil newExpiresAt) t
              in (Some (n > 0), t'))"

definition sql_ExtendProcessingLock ::
    "int \<Rightarrow> string \<Rightarrow> instant \<Rightarrow> instant \<Rightarrow> idem_table \<Rightarrow> bool option \<times> idem_table" where
  "sql_ExtendProcessingLock rid fingerprint newLockedUntil newExpiresAt t0 =
     (let (fail, t) = with_fault t0
      in if fail then (None, t)
         else let (n, t') = update_rows
                 (\<lambda>r. ir_ID r = rid \<and> ir_Status r = Processing \<and> ir_Fingerprint r = fingerprint)
                 (\<lambda>r. r\<lparr>ir_LockedUntil := Some newLockedUntil, ir_ExpiresAt := newExpiresAt\<rparr>) t
              in (Some (n > 0), t'))"

definition succeeded :: "int \<Rightarrow> string \<Rightarrow> instant \<Rightarrow> IdempotencyRecord \<Rightarrow> IdempotencyRecord" where
  "succeeded responseStatus responseBody expiresAt r =
     r\<lparr>ir_Status := Succeeded, ir_ResponseStatus := Some responseStatus, ir_ResponseBody := Some responseBody,
       ir_ErrorReason := None, ir_LockedUntil := None, ir_ExpiresAt := expiresAt\<rparr>"

definition failed :: "string \<Rightarrow> instant \<Rightarrow> instant \<Rightarrow> IdempotencyRecord \<Rightarrow> IdempotencyRecord" where
  "failed errorReason lockedUntil expiresAt r =
     r\<lparr>ir_Status := FailedRetryable, ir_ErrorReason := Some errorReason,
       ir_LockedUntil := Some lockedUntil, ir_ExpiresAt := expiresAt\<rparr>"

definition sql_MarkSucceeded :: "int \<Rightarrow> int \<Rightarrow> string \<Rightarrow> instant \<Rightarrow> idem_table \<Rightarrow> bool \<times> idem_table" where
  "sql_MarkSucceeded rid responseStatus responseBody expiresAt t0 =
     (let (fail, t) = with_fault t0
      in if fail then (False, t)
         else (True, snd (update_rows (\<lambda>r. ir_ID r = rid) (succeeded responseStatus responseBody expiresAt) t)))"

definition sql_MarkFailedRetryable ::
    "int \<Rightarrow> string \<Rightarrow> instant \<Rightarrow> instant \<Rightarrow> idem_table \<Rightarrow> bool \<times> idem_table" where
  "sql_MarkFailedRetryable rid errorReason lockedUntil expiresAt t0 =
     (let (fail, t) = with_fault t0
      in if fail then (False, t)
         else (True, snd (update_rows (\<lambda>r. ir_ID r = rid) (failed errorReason lockedUntil expiresAt) t)))"

definition sql_DeleteExpired :: "instant \<Rightarrow> int \<Rightarrow> idem_table \<Rightarrow> int option \<times> idem_table" where
  "sql_DeleteExpired now limit t0 =
     (let (fail, t) = with_fault t0
      in if fail then (None, t)
         else let n = (if limit \<le> 0 then 500 else limit);
                  victims = take (nat n) (sort_key ir_ExpiresAt (filter (\<lambda>r. ir_ExpiresAt r \<le> now) (it_rows t)));
                  ids = map ir_ID victims
              in (Some (int (length victims)), t\<lparr>it_rows := filter (\<lambda>r. ir_ID r \<notin> set ids) (it_rows t)\<rparr>))"

definition sql_repo :: "idem_table IdempotencyRepository" where
  "sql_repo = \<lparr>CreateProcessing = sql_CreateProcessing, GetByScopeAndKeyHash = sql_GetByScopeAndKeyHash,
     TryReclaim = sql_TryReclaim, ExtendProcessingLock = sql_ExtendProcessingLock,
     MarkSucceeded = sql_MarkSucceeded, MarkFailedRetryable = sql_MarkFailedRetryable,
     DeleteExpired = sql_DeleteExpired\<rparr>"

text \<open>One round of the clean-up service; a storage error is only logged.\<close>

definition cleanupOnce :: "'s IdempotencyRepository \<Rightarrow> instant \<Rightarrow> int \<Rightarrow> 's \<Rightarrow> 's" where
  "cleanupOnce repo now batch s = snd (DeleteExpired repo now batch s)"

section \<open>The interface the clients rely on\<close>

text \<open>
  \<open>found s scope hash\<close> is the record of a key. The store keeps one record per key, with
  distinct non-zero ids (\<open>store_inv\<close>); while it is \<open>up\<close> no call fails.
\<close>

locale idempotency_repository =
  fixes repo :: "'s IdempotencyRepository"
    and store_inv :: "'s \<Rightarrow> bool"
    and up :: "'s \<Rightarrow> bool"
    and found :: "'s \<Rightarrow> string \<Rightarrow> string \<Rightarrow> IdempotencyRecord option"
  assumes create_law: "store_inv s \<Longrightarrow> up s \<Longrightarrow> \<exists>own s'. CreateProcessing repo r s = (Some own, s') \<and> store_inv s' \<and> up s' \<and>
        (case found s (ir_Scope r) (ir_KeyHash r) of
           Some x \<Rightarrow> own = None \<and> found s' = found s
         | None \<Rightarrow> (\<exists>rid. own = Some rid \<and> rid \<noteq> 0 \<and> (\<forall>a b x. found s a b = Some x \<longrightarrow> ir_ID x \<noteq> rid) \<and>
             found s' = (\<lambda>a b. if a = ir_Scope r \<and> b = ir_KeyHash r
               then Some (r\<lparr>ir_ID := rid, ir_ResponseStatus := None, ir_ResponseBody := None, ir_ErrorReason := None\<rparr>)
               else found s a b)))"
    and found_id: "store_inv s \<Longrightarrow> found s a b = Some x \<Longrightarrow> ir_ID x \<noteq> 0"
    and get_law: "store_inv s \<Longrightarrow> up s \<Longrightarrow> \<exists>s'. GetByScopeAndKeyHash repo a b s = (Some (found s a b), s') \<and>
        store_inv s' \<and> up s' \<and> found s' = found s"
    and reclaim_law: "store_inv s \<Longrightarrow> up s \<Longrightarrow> found s a b = Some x \<Longrightarrow>
        \<exists>s'. TryReclaim repo (ir_ID x) st now l e s = (Some (reclaimable (ir_ID x) st now x), s') \<and> store_inv s' \<and> up s' \<and>
          found s' = (if reclaimable (ir_ID x) st now x
            then (\<lambda>c d. if c = a \<and> d = b then Some (reclaimed l e x) else found s c d) else found s)"
    and extend_law: "store_inv s \<Longrightarrow> up s \<Longrightarrow> found s a b = Some x \<Longrightarrow>
        \<exists>s'. ExtendProcessingLock repo (ir_ID x) fp l e s =
            (Some (ir_Status x = Processing \<and> ir_Fingerprint x = fp), s') \<and> store_inv s' \<and> up s' \<and>
          found s' = (if ir_Status x = Processing \<and> ir_Fingerprint x = fp
            then (\<lambda>c d. if c = a \<and> d = b then Some (x\<lparr>ir_LockedUntil := Some l, ir_ExpiresAt := e\<rparr>) else found s c d)
            else found s)"
    and succeed_law: "store_inv s \<Longrightarrow> up s \<Longrightarrow> found s a b = Some x \<Longrightarrow>
        \<exists>s'. MarkSucceeded repo (ir_ID x) code body e s = (True, s') \<and> store_inv s' \<and> up s' \<and>
          found s' = (\<lambda>c d. if c = a \<and> d = b then Some (succeeded code body e x) else found s c d)"
    and fail_law: "store_inv s \<Longrightarrow> up s \<Longrightarrow> found s a b = Some x \<Longrightarrow>
        \<exists>s'. MarkFailedRetryable repo (ir_ID x) reason l e s = (True, s') \<and> store_inv s' \<and> up s' \<and>
          found s' = (\<lambda>c d. if c = a \<and> d = b then Some (failed reason l e x) else found s c d)"
    and delete_law: "store_inv s \<Longrightarrow> up s \<Longrightarrow>
        \<exists>n s'. DeleteExpired repo now limit s = (Some n, s') \<and> store_inv s' \<and> up s' \<and>
          (\<forall>a b. found s' a b = found s a b \<or>
             (\<exists>x. found s a b = Some x \<and> ir_ExpiresAt x \<le> now \<and> found s' a b = None))"
begin

lemma cleanup_keeps_live:
  assumes "store_inv s" and "up s" and "found s a b = Some x" and "now < ir_ExpiresAt x"
  shows "found (cleanupOnce repo now batch s) a b = Some x"
proof -
  obtain n s' where d: "DeleteExpired repo now batch s = (Some n, s')"
    and "found s' a b = found s a b \<or>
       (\<exists>x. found s a b = Some x \<and> ir_ExpiresAt x \<le> now \<and> found s' a b = None)"
    using delete_law [OF assms(1,2)] by meson
  with assms(3,4) show ?thesis by (auto simp: cleanupOnce_def)
qed

end

section \<open>The table satisfies the interface\<close>

definition table_inv :: "idem_table \<Rightarrow> bool" where
  "table_inv t \<longleftrightarrow>
     distinct (map (\<lambda>r. (ir_Scope r, ir_KeyHash r)) (it_rows t)) \<and> distinct (map ir_ID (it_rows t)) \<and>
     (\<forall>r \<in> set (it_rows t). 0 < ir_ID r \<and> ir_ID r < it_next t) \<and> 0 < it_next t"

definition table_up :: "idem_table \<Rightarrow> bool" where
  "table_up t \<longleftrightarrow> it_faults t = []"

definition table_found :: "idem_table \<Rightarrow> string \<Rightarrow> string \<Rightarrow> IdempotencyRecord option" where
  "table_found t a b = find (row_at a b) (it_rows t)"

lemma with_fault_up [simp]: "table_up t \<Longrightarrow> with_fault t = (False, t)"
  by (cases t) (simp add: with_fault_def table_up_def)

lemma found_mem: "table_found t a b = Some x \<Longrightarrow> x \<in> set (it_rows t) \<and> ir_Scope x = a \<and> ir_KeyHash x = b"
  by (auto simp: table_found_def row_at_def dest!: find_Some_mem)

lemma distinct_keys_unique:
  "distinct (map (\<lambda>r. (ir_Scope r, ir_KeyHash r)) rs) \<Longrightarrow> length (filter (row_at a b) rs) \<le> 1"
  by (induction rs) (auto simp: row_at_def filter_empty_conv image_iff)

lemma find_map_key:
  "(\<And>r. row_at a b (g r) = row_at a b r) \<Longrightarrow> find (row_at a b) (map g rs) = map_option g (find (row_at a b) rs)"
  by (induction rs) auto

lemma found_intro:
  assumes "table_inv t" and "x \<in> set (it_rows t)"
  shows "table_found t (ir_Scope x) (ir_KeyHash x) = Some x"
  unfolding table_found_def
proof (rule find_unique)
  have "distinct (map (\<lambda>r. (ir_Scope r, ir_KeyHash r)) (it_rows t))" using assms(1) by (simp add: table_inv_def)
  then show "length (filter (row_at (ir_Scope x) (ir_KeyHash x)) (it_rows t)) \<le> 1"
    by (rule distinct_keys_unique)
qed (use assms(2) in \<open>auto simp: row_at_def\<close>)

text \<open>A row update that keeps scope, key and id changes the one row with the id.\<close>

lemma update_one:
  assumes inv: "table_inv t" and up: "table_up t" and x: "table_found t a b = Some x"
    and key: "\<And>r. ir_Scope (f r) = ir_Scope r \<and> ir_KeyHash (f r) = ir_KeyHash r \<and> ir_ID (f r) = ir_ID r"
    and P: "\<And>r. P r \<Longrightarrow> ir_ID r = ir_ID x"
  shows "0 < fst (update_rows P f t) \<longleftrightarrow> P x"
    and "table_inv (snd (update_rows P f t))" and "table_up (snd (update_rows P f t))"
    and "table_found (snd (update_rows P f t)) =
      (if P x then (\<lambda>c d. if c = a \<and> d = b then Some (f x) else table_found t c d) else table_found t)"
proof -
  note mem = found_mem [OF x]
  have ids: "r = x" if "r \<in> set (it_rows t)" "P r" for r
    using that P [OF that(2)] mem inv by (auto simp: table_inv_def distinct_map inj_on_def)
  have keys: "map (\<lambda>r. (ir_Scope r, ir_KeyHash r)) (it_rows (snd (update_rows P f t))) =
      map (\<lambda>r. (ir_Scope r, ir_KeyHash r)) (it_rows t)"
    "map ir_ID (it_rows (snd (update_rows P f t))) = map ir_ID (it_rows t)"
    by (auto simp: update_rows_def key)
  show count: "0 < fst (update_rows P f t) \<longleftrightarrow> P x"
    using mem ids by (auto simp: update_rows_def filter_empty_conv)
  show inv': "table_inv (snd (update_rows P f t))"
    using inv unfolding table_inv_def keys by (auto simp: update_rows_def key)
  show "table_up (snd (update_rows P f t))"
    using up by (simp add: update_rows_def table_up_def)
  show "table_found (snd (update_rows P f t)) =
      (if P x then (\<lambda>c d. if c = a \<and> d = b then Some (f x) else table_found t c d) else table_found t)"
  proof (intro ext)
    fix c d
    have "table_found (snd (update_rows P f t)) c d =
        map_option (\<lambda>r. if P r then f r else r) (table_found t c d)"
      using find_map_key [of c d "\<lambda>r. if P r then f r else r" "it_rows t"]
      by (simp add: table_found_def update_rows_def row_at_def key)
    also have "\<dots> = (if P x then (\<lambda>c d. if c = a \<and> d = b then Some (f x) else table_found t c d)
        else table_found t) c d"
    proof (cases "table_found t c d")
      case None
      with x show ?thesis by auto
    next
      case (Some r)
      note r = found_mem [OF Some]
      show ?thesis
      proof (cases "c = a \<and> d = b")
        case True
        with Some x have "r = x" by simp
        with True Some show ?thesis by simp
      next
        case False
        with r mem have "r \<noteq> x" by auto
        with ids r have "\<not> P r" by blast
        with False Some show ?thesis by auto
      qed
    qed
    finally show "table_found (snd (update_rows P f t)) c d =
      (if P x then (\<lambda>c d. if c = a \<and> d = b then Some (f x) else table_found t c d) else table_found t) c d" .
  qed
qed

lemma reclaimed_keys: "ir_Scope (reclaimed l e r) = ir_Scope r \<and> ir_KeyHash (reclaimed l e r) = ir_KeyHash r \<and>
    ir_ID (reclaimed l e r) = ir_ID r"
  by (simp add: reclaimed_def)

lemma succeeded_keys: "ir_Scope (succeeded c b e r) = ir_Scope r \<and> ir_KeyHash (succeeded c b e r) = ir_KeyHash r \<and>
    ir_ID (succeeded c b e r) = ir_ID r"
  by (simp add: succeeded_def)

lemma failed_keys: "ir_Scope (failed b l e r) = ir_Scope r \<and> ir_KeyHash (failed b l e r) = ir_KeyHash r \<and>
    ir_ID (failed b l e r) = ir_ID r"
  by (simp add: failed_def)

lemma reclaimable_id: "reclaimable k st now r \<Longrightarrow> ir_ID r = k"
  by (simp add: reclaimable_def)

lemma create_new:
  assumes inv: "table_inv t" and up: "table_up t" and n: "table_found t (ir_Scope r) (ir_KeyHash r) = None"
  shows "\<exists>t'. sql_CreateProcessing r t = (Some (Some (it_next t)), t') \<and> table_inv t' \<and> table_up t' \<and>
     table_found t' = (\<lambda>a b. if a = ir_Scope r \<and> b = ir_KeyHash r
       then Some (r\<lparr>ir_ID := it_next t, ir_ResponseStatus := None, ir_ResponseBody := None, ir_ErrorReason := None\<rparr>)
       else table_found t a b)"
proof -
  let ?x = "r\<lparr>ir_ID := it_next t, ir_ResponseStatus := None, ir_ResponseBody := None, ir_ErrorReason := None\<rparr>"
  let ?t = "t\<lparr>it_rows := it_rows t @ [?x], it_next := it_next t + 1\<rparr>"
  have none: "\<forall>y \<in> set (it_rows t). \<not> row_at (ir_Scope r) (ir_KeyHash r) y"
    using n by (simp add: table_found_def find_None_all)
  have "sql_CreateProcessing r t = (Some (Some (it_next t)), ?t)"
    using up none by (cases r) (auto simp: sql_CreateProcessing_def list_ex_iff)
  moreover have "table_inv ?t" using inv none by (fastforce simp: table_inv_def row_at_def)
  moreover have "table_up ?t" using up by (simp add: table_up_def)
  moreover have "find P (xs @ [y]) = (case find P xs of None \<Rightarrow> if P y then Some y else None | Some z \<Rightarrow> Some z)"
    for P xs and y :: IdempotencyRecord
    by (induction xs) auto
  then have "table_found ?t a b = (if a = ir_Scope r \<and> b = ir_KeyHash r then Some ?x else table_found t a b)" for a b
    using n by (auto simp: table_found_def row_at_def split: option.splits)
  ultimately show ?thesis by (intro exI [of _ ?t]) (simp add: fun_eq_iff)
qed

lemma create_existing:
  assumes "table_up t" and "table_found t (ir_Scope r) (ir_KeyHash r) = Some x"
  shows "sql_CreateProcessing r t = (Some None, t)"
  using assms by (auto simp: sql_CreateProcessing_def list_ex_iff table_found_def dest!: find_Some_mem)

lemma delete_rows:
  assumes inv: "table_inv t" and up: "table_up t"
  shows "\<exists>n t'. sql_DeleteExpired now limit t = (Some n, t') \<and> table_inv t' \<and> table_up t' \<and>
    (\<forall>a b. table_found t' a b = table_found t a b \<or>
       (\<exists>x. table_found t a b = Some x \<and> ir_ExpiresAt x \<le> now \<and> table_found t' a b = None))"
proof -
  define victims where "victims = take (nat (if limit \<le> 0 then 500 else limit))
    (sort_key ir_ExpiresAt (filter (\<lambda>r. ir_ExpiresAt r \<le> now) (it_rows t)))"
  let ?t = "t\<lparr>it_rows := filter (\<lambda>r. ir_ID r \<notin> set (map ir_ID victims)) (it_rows t)\<rparr>"
  have v: "x \<in> set (it_rows t) \<and> ir_ExpiresAt x \<le> now" if "x \<in> set victims" for x
    using set_take_subset that unfolding victims_def by fastforce
  have "sql_DeleteExpired now limit t = (Some (int (length victims)), ?t)"
    using up by (simp add: sql_DeleteExpired_def victims_def Let_def)
  moreover have inv': "table_inv ?t"
    using inv by (auto simp: table_inv_def distinct_map_filter)
  moreover have "table_up ?t" using up by (simp add: table_up_def)
  moreover have "table_found ?t a b = table_found t a b \<or>
       (\<exists>x. table_found t a b = Some x \<and> ir_ExpiresAt x \<le> now \<and> table_found ?t a b = None)" for a b
  proof (cases "table_found ?t a b")
    case (Some x)
    from found_mem [OF Some] have "x \<in> set (it_rows t)" "ir_Scope x = a" "ir_KeyHash x = b" by auto
    with found_intro [OF inv] Some show ?thesis by metis
  next
    case None
    show ?thesis
    proof (cases "table_found t a b")
      case (Some x)
      note m = found_mem [OF this]
      have "x \<notin> set (it_rows ?t)"
        using found_intro [OF inv', of x] m None by auto
      then obtain y where y: "y \<in> set victims" "ir_ID y = ir_ID x" using m by auto
      then have "y = x" using v [OF y(1)] m inv by (auto simp: table_inv_def distinct_map inj_on_def)
      with v y Some None show ?thesis by auto
    qed (use None in simp)
  qed
  ultimately show ?thesis by blast
qed

interpretation store: idempotency_repository sql_repo table_inv table_up table_found
proof
  fix s r
  assume "table_inv s" "table_up s"
  then show "\<exists>own s'. CreateProcessing sql_repo r s = (Some own, s') \<and> table_inv s' \<and> table_up s' \<and>
        (case table_found s (ir_Scope r) (ir_KeyHash r) of
           Some x \<Rightarrow> own = None \<and> table_found s' = table_found s
         | None \<Rightarrow> (\<exists>rid. own = Some rid \<and> rid \<noteq> 0 \<and> (\<forall>a b x. table_found s a b = Some x \<longrightarrow> ir_ID x \<noteq> rid) \<and>
             table_found s' = (\<lambda>a b. if a = ir_Scope r \<and> b = ir_KeyHash r
               then Some (r\<lparr>ir_ID := rid, ir_ResponseStatus := None, ir_ResponseBody := None, ir_ErrorReason := None\<rparr>)
               else table_found s a b)))"
  proof (cases "table_found s (ir_Scope r) (ir_KeyHash r)")
    case None
    have "it_next s \<noteq> 0" and "\<forall>a b x. table_found s a b = Some x \<longrightarrow> ir_ID x \<noteq> it_next s"
      using \<open>table_inv s\<close> by (auto simp: table_inv_def dest!: found_mem)
    with create_new [OF \<open>table_inv s\<close> \<open>table_up s\<close> None] None show ?thesis
      by (auto simp: sql_repo_def)
  next
    case (Some x)
    with create_existing [OF \<open>table_up s\<close> Some] \<open>table_inv s\<close> \<open>table_up s\<close> show ?thesis
      by (simp add: sql_repo_def)
  qed
next
  fix s a b x
  assume "table_inv s" "table_found s a b = Some x"
  then show "ir_ID x \<noteq> 0" by (auto simp: table_inv_def dest!: found_mem)
next
  fix s a b
  assume "table_inv s" "table_up s"
  then show "\<exists>s'. GetByScopeAndKeyHash sql_repo a b s = (Some (table_found s a b), s') \<and> table_inv s' \<and> table_up s' \<and>
      table_found s' = table_found s"
    by (simp add: sql_repo_def sql_GetByScopeAndKeyHash_def table_found_def)
next
  fix s a b x st now l e
  assume s: "table_inv s" "table_up s" "table_found s a b = Some x"
  note u = update_one [where f = "reclaimed l e" and P = "reclaimable (ir_ID x) st now", OF s reclaimed_keys reclaimable_id]
  show "\<exists>s'. TryReclaim sql_repo (ir_ID x) st now l e s = (Some (reclaimable (ir_ID x) st now x), s') \<and>
      table_inv s' \<and> table_up s' \<and> table_found s' = (if reclaimable (ir_ID x) st now x
        then (\<lambda>c d. if c = a \<and> d = b then Some (reclaimed l e x) else table_found s c d) else table_found s)"
    using u s(2) by (simp add: sql_repo_def sql_TryReclaim_def split_beta)
next
  fix s a b x fp l e
  assume s: "table_inv s" "table_up s" "table_found s a b = Some x"
  note u = update_one [OF s, where P = "\<lambda>r. ir_ID r = ir_ID x \<and> ir_Status r = Processing \<and> ir_Fingerprint r = fp"
      and f = "\<lambda>r. r\<lparr>ir_LockedUntil := Some l, ir_ExpiresAt := e\<rparr>"]
  show "\<exists>s'. ExtendProcessingLock sql_repo (ir_ID x) fp l e s =
        (Some (ir_Status x = Processing \<and> ir_Fingerprint x = fp), s') \<and> table_inv s' \<and> table_up s' \<and>
      table_found s' = (if ir_Status x = Processing \<and> ir_Fingerprint x = fp
        then (\<lambda>c d. if c = a \<and> d = b then Some (x\<lparr>ir_LockedUntil := Some l, ir_ExpiresAt := e\<rparr>) else table_found s c d)
        else table_found s)"
    using u s(2) by (simp add: sql_repo_def sql_ExtendProcessingLock_def split_beta)
next
  fix s a b x code body e
  assume s: "table_inv s" "table_up s" "table_found s a b = Some x"
  note u = update_one [OF s succeeded_keys, where P = "\<lambda>r. ir_ID r = ir_ID x", simplified]
  show "\<exists>s'. MarkSucceeded sql_repo (ir_ID x) code body e s = (True, s') \<and> table_inv s' \<and> table_up s' \<and>
      table_found s' = (\<lambda>c d. if c = a \<and> d = b then Some (succeeded code body e x) else table_found s c d)"
    using u s(2) by (simp add: sql_repo_def sql_MarkSucceeded_def split_beta)
next
  fix s a b x reason l e
  assume s: "table_inv s" "table_up s" "table_found s a b = Some x"
  note u = update_one [OF s failed_keys, where P = "\<lambda>r. ir_ID r = ir_ID x", simplified]
  show "\<exists>s'. MarkFailedRetryable sql_repo (ir_ID x) reason l e s = (True, s') \<and> table_inv s' \<and> table_up s' \<and>
      table_found s' = (\<lambda>c d. if c = a \<and> d = b then Some (failed reason l e x) else table_found s c d)"
    using u s(2) by (simp add: sql_repo_def sql_MarkFailedRetryable_def split_beta)
next
  fix s now limit
  assume "table_inv s" "table_up s"
  from delete_rows [OF this] show "\<exists>n s'. DeleteExpired sql_repo now limit s = (Some n, s') \<and> table_inv s' \<and> table_up s' \<and>
      (\<forall>a b. table_found s' a b = table_found s a b \<or>
         (\<exists>x. table_found s a b = Some x \<and> ir_ExpiresAt x \<le> now \<and> table_found s' a b = None))"
    by (simp add: sql_repo_def)
qed

end
