(* ===== verification/Idempotency.thy ===== *)
theory Idempotency
  imports IdempotencyStore
begin

text \<open>
  The idempotency coordinator (\<open>backend/internal/service/idempotency.go\<close>): a request with an
  idempotency key claims the record of its key, runs its executor and stores the outcome;
  a repeated request replays it.

  The state of \<open>Execute\<close> is a pair: the store, and the world \<open>'w\<close> the executor works on. The
  executor yields an error reason or data. The clock is read at the start (\<open>clk 0\<close>) and after a
  failed execution (\<open>clk 1\<close>). Parameters, gathered in \<open>codec\<close>, are the hash (SHA-256 in
  hexadecimal), the JSON encoder and decoder, and the redaction of the encoded text; the payload
  of a request is its JSON encoding, \<open>None\<close> if it has none. Metrics and audit logs are left out.
\<close>

section \<open>Requests and results\<close>

record IdempotencyConfig =
  DefaultTTL :: duration
  SystemOperationTTL :: duration
  ProcessingTimeout :: duration
  FailedRetryBackoff :: duration
  MaxStoredResponseLen :: int
  ObserveOnly :: bool

definition DefaultIdempotencyConfig :: IdempotencyConfig where
  "DefaultIdempotencyConfig = \<lparr>DefaultTTL = hours 24, SystemOperationTTL = hours 1,
     ProcessingTimeout = seconds 30, FailedRetryBackoff = seconds 5,
     MaxStoredResponseLen = 64 * 1024, ObserveOnly = True\<rparr>"

record IdempotencyExecuteOptions =
  op_Scope :: string
  op_ActorScope :: string
  op_Method :: string
  op_Route :: string
  op_IdempotencyKey :: string
  op_Payload :: "string option"
  op_TTL :: duration
  op_RequireKey :: bool

record 'd codec =
  cd_sha :: "string \<Rightarrow> string"
  cd_marshal :: "'d \<Rightarrow> string option"
  cd_unmarshal :: "string \<Rightarrow> 'd option"
  cd_redact :: "string \<Rightarrow> string"
  cd_empty :: 'd

datatype idem_error =
    KeyRequired | KeyInvalid | ScopeRequired | PayloadInvalid | KeyConflict
  | InProgress "int option" | RetryBackoff "int option" | StoreUnavailable
  | ExecutionError string

datatype 'd idem_result = Result (result_data: 'd) (replayed: bool) | Error idem_error

definition NormalizeIdempotencyKey :: "string \<Rightarrow> string option" where
  "NormalizeIdempotencyKey raw =
     (let key = TrimSpace raw
      in if key = '''' then Some ''''
         else if 128 < length key then None
         else if \<not> graphic key then None
         else Some key)"

definition HashIdempotencyKey :: "'d codec \<Rightarrow> string \<Rightarrow> string" where
  "HashIdempotencyKey cd key = cd_sha cd key"

definition newline :: string where
  "newline = [char_of (10 :: nat)]"

definition BuildIdempotencyFingerprint ::
    "'d codec \<Rightarrow> string \<Rightarrow> string \<Rightarrow> string \<Rightarrow> string option \<Rightarrow> string option" where
  "BuildIdempotencyFingerprint cd method0 route0 actorScope0 payload =
     (let method = (if method0 = '''' then ''POST'' else method0);
          route = (if route0 = '''' then ''/'' else route0);
          actorScope = (if actorScope0 = '''' then ''anonymous'' else actorScope0)
      in map_option (\<lambda>raw. cd_sha cd
           (ToUpper method @ newline @ route @ newline @ actorScope @ newline @ raw)) payload)"

text \<open>Whole seconds until the lock ends, at least one; nothing without a lock.\<close>

definition retry_after :: "instant option \<Rightarrow> instant \<Rightarrow> int option" where
  "retry_after lockedUntil now =
     map_option (\<lambda>l. let sec = trunc_div (l - now) (seconds 1) in if sec \<le> 0 then 1 else sec) lockedUntil"

definition marshalStoredResponse :: "'d codec \<Rightarrow> IdempotencyConfig \<Rightarrow> 'd \<Rightarrow> string option" where
  "marshalStoredResponse cd cfg data =
     map_option (\<lambda>raw. let redacted = cd_redact cd raw
         in if 0 < MaxStoredResponseLen cfg \<and> MaxStoredResponseLen cfg < int (length redacted)
            then take (nat (MaxStoredResponseLen cfg)) redacted @ ''...(truncated)'' else redacted)
       (cd_marshal cd data)"

definition decodeStoredResponse :: "'d codec \<Rightarrow> string option \<Rightarrow> 'd option" where
  "decodeStoredResponse cd stored =
     (case stored of
        None \<Rightarrow> Some (cd_empty cd)
      | Some s \<Rightarrow> if TrimSpace s = '''' then Some (cd_empty cd) else cd_unmarshal cd s)"

section \<open>Claiming the record\<close>

text \<open>What a claim needs of the request, with the times it captured.\<close>

record claim =
  cl_scope :: string
  cl_keyHash :: string
  cl_fingerprint :: string
  cl_now :: instant
  cl_lockedUntil :: instant
  cl_expiresAt :: instant

definition claim_record :: "claim \<Rightarrow> IdempotencyRecord" where
  "claim_record c = \<lparr>ir_ID = 0, ir_Scope = cl_scope c, ir_KeyHash = cl_keyHash c,
     ir_Fingerprint = cl_fingerprint c, ir_Status = Processing, ir_ResponseStatus = None,
     ir_ResponseBody = None, ir_ErrorReason = None, ir_LockedUntil = Some (cl_lockedUntil c),
     ir_ExpiresAt = cl_expiresAt c\<rparr>"

text \<open>The claim ends with the id of the record to execute under, or with the final result.\<close>

datatype 'd claimed = Own int | Final "'d idem_result"

definition decide_existing ::
    "'s IdempotencyRepository \<Rightarrow> 'd codec \<Rightarrow> claim \<Rightarrow> IdempotencyRecord \<Rightarrow> 's \<Rightarrow> 'd claimed \<times> 's" where
  "decide_existing repo cd c existing s =
     (case ir_Status existing of
        Succeeded \<Rightarrow>
          (case decodeStoredResponse cd (ir_ResponseBody existing) of
             None \<Rightarrow> (Final (Error StoreUnavailable), s)
           | Some data \<Rightarrow> (Final (Result data True), s))
      | Processing \<Rightarrow> (Final (Error (InProgress (retry_after (ir_LockedUntil existing) (cl_now c)))), s)
      | FailedRetryable \<Rightarrow>
          if (case ir_LockedUntil existing of None \<Rightarrow> False | Some l \<Rightarrow> cl_now c < l)
          then (Final (Error (RetryBackoff (retry_after (ir_LockedUntil existing) (cl_now c)))), s)
          else (case TryReclaim repo (ir_ID existing) FailedRetryable (cl_now c) (cl_lockedUntil c)
                       (cl_expiresAt c) s of
                  (None, s') \<Rightarrow> (Final (Error StoreUnavailable), s')
                | (Some False, s') \<Rightarrow>
                    (Final (Error (InProgress (retry_after (ir_LockedUntil existing) (cl_now c)))), s')
                | (Some True, s') \<Rightarrow> (Own (ir_ID existing), s'))
      | OtherStatus _ \<Rightarrow> (Final (Error KeyConflict), s))"

definition claim_existing ::
    "'s IdempotencyRepository \<Rightarrow> 'd codec \<Rightarrow> claim \<Rightarrow> 's \<Rightarrow> 'd claimed \<times> 's" where
  "claim_existing repo cd c s =
     (case GetByScopeAndKeyHash repo (cl_scope c) (cl_keyHash c) s of
        (None, s1) \<Rightarrow> (Final (Error StoreUnavailable), s1)
      | (Some None, s1) \<Rightarrow> (Final (Error StoreUnavailable), s1)
      | (Some (Some existing), s1) \<Rightarrow>
          if ir_Fingerprint existing \<noteq> cl_fingerprint c then (Final (Error KeyConflict), s1)
          else if ir_ExpiresAt existing \<le> cl_now c then
            (case TryReclaim repo (ir_ID existing) (ir_Status existing) (cl_now c) (cl_lockedUntil c)
                    (cl_expiresAt c) s1 of
               (None, s2) \<Rightarrow> (Final (Error StoreUnavailable), s2)
             | (Some True, s2) \<Rightarrow> (Own (ir_ID existing), s2)
             | (Some False, s2) \<Rightarrow>
                 (case GetByScopeAndKeyHash repo (cl_scope c) (cl_keyHash c) s2 of
                    (None, s3) \<Rightarrow> (Final (Error StoreUnavailable), s3)
                  | (Some None, s3) \<Rightarrow> (Final (Error StoreUnavailable), s3)
                  | (Some (Some latest), s3) \<Rightarrow>
                      if ir_Fingerprint latest \<noteq> cl_fingerprint c then (Final (Error KeyConflict), s3)
                      else decide_existing repo cd c latest s3))
          else decide_existing repo cd c existing s1)"

definition claim_key ::
    "'s IdempotencyRepository \<Rightarrow> 'd codec \<Rightarrow> claim \<Rightarrow> 's \<Rightarrow> 'd claimed \<times> 's" where
  "claim_key repo cd c s =
     (case CreateProcessing repo (claim_record c) s of
        (None, s1) \<Rightarrow> (Final (Error StoreUnavailable), s1)
      | (Some (Some rid), s1) \<Rightarrow> (if rid = 0 then Final (Error StoreUnavailable) else Own rid, s1)
      | (Some None, s1) \<Rightarrow>
          (case claim_existing repo cd c s1 of
             (Own rid, s2) \<Rightarrow> (if rid = 0 then Final (Error StoreUnavailable) else Own rid, s2)
           | r \<Rightarrow> r))"

section \<open>Execution\<close>

type_synonym ('w, 'd) executor = "'w \<Rightarrow> (string + 'd) \<times> 'w"

definition finish ::
    "'s IdempotencyRepository \<Rightarrow> 'd codec \<Rightarrow> IdempotencyConfig \<Rightarrow> claim \<Rightarrow> instant \<Rightarrow> int \<Rightarrow> string + 'd \<Rightarrow> 's
       \<Rightarrow> 'd idem_result \<times> 's" where
  "finish repo cd cfg c now rid outcome s =
     (case outcome of
        Inl reason \<Rightarrow>
          let (_, s') = MarkFailedRetryable repo rid (if reason = '''' then ''EXECUTION_FAILED'' else reason)
                (now + FailedRetryBackoff cfg) (cl_expiresAt c) s
          in (Error (ExecutionError reason), s')
      | Inr data \<Rightarrow>
          (case marshalStoredResponse cd cfg data of
             None \<Rightarrow> (Error StoreUnavailable, s)
           | Some body \<Rightarrow>
               let (ok, s') = MarkSucceeded repo rid 200 body (cl_expiresAt c) s
               in (if ok then Result data False else Error StoreUnavailable, s')))"

definition make_claim ::
    "'d codec \<Rightarrow> IdempotencyConfig \<Rightarrow> IdempotencyExecuteOptions \<Rightarrow> string \<Rightarrow> string \<Rightarrow> instant \<Rightarrow> claim" where
  "make_claim cd cfg opts key fingerprint now =
     \<lparr>cl_scope = op_Scope opts, cl_keyHash = HashIdempotencyKey cd key, cl_fingerprint = fingerprint,
      cl_now = now, cl_lockedUntil = now + ProcessingTimeout cfg,
      cl_expiresAt = now + (if op_TTL opts \<le> 0 then DefaultTTL cfg else op_TTL opts)\<rparr>"

text \<open>The coordinator may have been built without a repository.\<close>

definition Execute ::
    "'s IdempotencyRepository option \<Rightarrow> 'd codec \<Rightarrow> IdempotencyConfig \<Rightarrow> (nat \<Rightarrow> instant)
       \<Rightarrow> IdempotencyExecuteOptions \<Rightarrow> ('w, 'd) executor \<Rightarrow> 's \<times> 'w \<Rightarrow> 'd idem_result \<times> 's \<times> 'w" where
  "Execute repo0 cd cfg clk opts execute st =
     (let (s, w) = st
      in case NormalizeIdempotencyKey (op_IdempotencyKey opts) of
           None \<Rightarrow> (Error KeyInvalid, s, w)
         | Some key \<Rightarrow>
             if key = '''' then
               (if op_RequireKey opts \<and> \<not> ObserveOnly cfg then (Error KeyRequired, s, w)
                else case execute w of
                       (Inl reason, w') \<Rightarrow> (Error (ExecutionError reason), s, w')
                     | (Inr data, w') \<Rightarrow> (Result data False, s, w'))
             else (case repo0 of
                 None \<Rightarrow> (Error StoreUnavailable, s, w)
               | Some repo \<Rightarrow>
                   if op_Scope opts = '''' then (Error ScopeRequired, s, w)
                   else (case BuildIdempotencyFingerprint cd (op_Method opts) (op_Route opts)
                                (op_ActorScope opts) (op_Payload opts) of
                       None \<Rightarrow> (Error PayloadInvalid, s, w)
                     | Some fingerprint \<Rightarrow>
                         let c = make_claim cd cfg opts key fingerprint (clk 0)
                         in case claim_key repo cd c s of
                              (Final r, s1) \<Rightarrow> (r, s1, w)
                            | (Own rid, s1) \<Rightarrow>
                                let (outcome, w') = execute w;
                                    (r, s2) = finish repo cd cfg c (clk 1) rid outcome s1
                                in (r, s2, w'))))"

section \<open>Requests over a working store\<close>

definition valid_request :: "'d codec \<Rightarrow> IdempotencyExecuteOptions \<Rightarrow> string \<Rightarrow> string \<Rightarrow> bool" where
  "valid_request cd opts key fp \<longleftrightarrow>
     NormalizeIdempotencyKey (op_IdempotencyKey opts) = Some key \<and> key \<noteq> '''' \<and> op_Scope opts \<noteq> '''' \<and>
     BuildIdempotencyFingerprint cd (op_Method opts) (op_Route opts) (op_ActorScope opts) (op_Payload opts) = Some fp"

lemma Execute_valid:
  assumes "valid_request cd opts key fp"
  shows "Execute (Some repo) cd cfg clk opts execute (s, w) =
     (let c = make_claim cd cfg opts key fp (clk 0)
      in case claim_key repo cd c s of
           (Final r, s1) \<Rightarrow> (r, s1, w)
         | (Own rid, s1) \<Rightarrow> (let (outcome, w') = execute w; (r, s2) = finish repo cd cfg c (clk 1) rid outcome s1
                          in (r, s2, w')))"
  using assms by (simp add: Execute_def valid_request_def)

lemma make_claim_simps [simp]:
  "cl_scope (make_claim cd cfg opts key fp now) = op_Scope opts"
  "cl_keyHash (make_claim cd cfg opts key fp now) = cd_sha cd key"
  "cl_fingerprint (make_claim cd cfg opts key fp now) = fp"
  "cl_now (make_claim cd cfg opts key fp now) = now"
  "cl_lockedUntil (make_claim cd cfg opts key fp now) = now + ProcessingTimeout cfg"
  "cl_expiresAt (make_claim cd cfg opts key fp now) =
     now + (if op_TTL opts \<le> 0 then DefaultTTL cfg else op_TTL opts)"
  by (simp_all add: make_claim_def HashIdempotencyKey_def)

lemma retry_after_pos: "retry_after l now = Some n \<Longrightarrow> 1 \<le> n"
  by (auto simp: retry_after_def Let_def split: if_splits)

context idempotency_repository
begin

definition at_key :: "'s \<Rightarrow> claim \<Rightarrow> IdempotencyRecord option" where
  "at_key s c = found s (cl_scope c) (cl_keyHash c)"

lemma claim_key_new:
  assumes "store_inv s" and "up s" and "at_key s c = None"
  shows "\<exists>rid s'. claim_key repo cd c s = (Own rid, s') \<and> store_inv s' \<and> up s' \<and>
     at_key s' c = Some ((claim_record c)\<lparr>ir_ID := rid\<rparr>)"
proof -
  obtain rid s' where "CreateProcessing repo (claim_record c) s = (Some (Some rid), s')" "rid \<noteq> 0"
    "store_inv s'" "up s'" "at_key s' c = Some ((claim_record c)\<lparr>ir_ID := rid\<rparr>)"
    using create_law [OF assms(1,2), of "claim_record c"] assms(3)
    by (auto simp: at_key_def claim_record_def)
  then show ?thesis by (simp add: claim_key_def)
qed

lemma claim_key_found:
  assumes "store_inv s" and "up s" and "at_key s c = Some x"
  shows "\<exists>s1 s2. claim_key repo cd c s =
       (case claim_existing repo cd c s1 of
          (Own rid, s2) \<Rightarrow> (if rid = 0 then Final (Error StoreUnavailable) else Own rid, s2) | r \<Rightarrow> r) \<and>
     GetByScopeAndKeyHash repo (cl_scope c) (cl_keyHash c) s1 = (Some (Some x), s2) \<and>
     store_inv s2 \<and> up s2 \<and> found s2 = found s"
proof -
  obtain s1 where c: "CreateProcessing repo (claim_record c) s = (Some None, s1)"
    "store_inv s1" "up s1" "found s1 = found s"
    using create_law [OF assms(1,2), of "claim_record c"] assms(3)
    by (auto simp: at_key_def claim_record_def)
  obtain s2 where "GetByScopeAndKeyHash repo (cl_scope c) (cl_keyHash c) s1 = (Some (Some x), s2)"
    "store_inv s2" "up s2" "found s2 = found s"
    using get_law [OF c(2,3), of "cl_scope c" "cl_keyHash c"] c(4) assms(3) by (auto simp: at_key_def)
  with c(1) show ?thesis unfolding claim_key_def by auto
qed

lemma claim_key_live:
  assumes "store_inv s" and "up s" and "at_key s c = Some x" and "cl_now c < ir_ExpiresAt x"
  shows "\<exists>s2. store_inv s2 \<and> up s2 \<and> found s2 = found s \<and> claim_key repo cd c s =
     (if ir_Fingerprint x \<noteq> cl_fingerprint c then (Final (Error KeyConflict), s2)
      else case decide_existing repo cd c x s2 of
          (Own rid, s3) \<Rightarrow> (if rid = 0 then Final (Error StoreUnavailable) else Own rid, s3) | r \<Rightarrow> r)"
proof -
  obtain s1 s2 where "claim_key repo cd c s = (case claim_existing repo cd c s1 of
          (Own rid, s2) \<Rightarrow> (if rid = 0 then Final (Error StoreUnavailable) else Own rid, s2) | r \<Rightarrow> r)"
    "GetByScopeAndKeyHash repo (cl_scope c) (cl_keyHash c) s1 = (Some (Some x), s2)"
    "store_inv s2 \<and> up s2 \<and> found s2 = found s"
    using claim_key_found [OF assms(1-3)] by blast
  with assms(4) show ?thesis by (intro exI [of _ s2]) (simp add: claim_existing_def)
qed

text \<open>A live record that has succeeded, is being processed, or failed recently stops the
  claim without a change of the store's records.\<close>

lemma claim_key_final:
  assumes "store_inv s" and "up s" and "at_key s c = Some x" and "cl_now c < ir_ExpiresAt x"
    and "\<And>s. decide_existing repo cd c x s = (Final r, s)"
  shows "\<exists>s2. store_inv s2 \<and> up s2 \<and> found s2 = found s \<and>
     claim_key repo cd c s = (Final (if ir_Fingerprint x \<noteq> cl_fingerprint c then Error KeyConflict else r), s2)"
  using claim_key_live [OF assms(1-4), of cd] assms(5) by auto

lemma Execute_final:
  assumes "store_inv s" and "up s" and "valid_request cd opts key fp"
    and "found s (op_Scope opts) (cd_sha cd key) = Some x" and "clk 0 < ir_ExpiresAt x"
    and "\<And>s. decide_existing repo cd (make_claim cd cfg opts key fp (clk 0)) x s = (Final r, s)"
  shows "\<exists>s2. store_inv s2 \<and> up s2 \<and> found s2 = found s \<and> Execute (Some repo) cd cfg clk opts execute (s, w) =
     (if ir_Fingerprint x \<noteq> fp then Error KeyConflict else r, s2, w)"
  using claim_key_final [OF assms(1,2), of "make_claim cd cfg opts key fp (clk 0)" x cd r] assms(4-6)
  by (auto simp: Execute_valid [OF assms(3)] at_key_def)

lemma Execute_first:
  assumes "store_inv s" and "up s" and "valid_request cd opts key fp"
    and "found s (op_Scope opts) (cd_sha cd key) = None" and "execute w = (outcome, w')"
  shows "\<exists>s1 x. store_inv s1 \<and> up s1 \<and> found s1 (op_Scope opts) (cd_sha cd key) = Some x \<and>
     ir_Fingerprint x = fp \<and> ir_ResponseBody x = None \<and>
     Execute (Some repo) cd cfg clk opts execute (s, w) =
       (let (r, s2) = finish repo cd cfg (make_claim cd cfg opts key fp (clk 0)) (clk 1) (ir_ID x) outcome s1
        in (r, s2, w'))"
proof -
  let ?c = "make_claim cd cfg opts key fp (clk 0)"
  have "at_key s ?c = None" using assms(4) by (simp add: at_key_def)
  from claim_key_new [OF assms(1,2) this, of cd] obtain rid s1 where
    "claim_key repo cd ?c s = (Own rid, s1)" "store_inv s1" "up s1"
    "at_key s1 ?c = Some ((claim_record ?c)\<lparr>ir_ID := rid\<rparr>)" by blast
  then show ?thesis
    by (intro exI [of _ s1] exI [of _ "(claim_record ?c)\<lparr>ir_ID := rid\<rparr>"])
      (simp add: Execute_valid [OF assms(3)] assms(5) at_key_def claim_record_def)
qed

lemma finish_success:
  assumes "store_inv s" and "up s" and "found s a b = Some x" and "marshalStoredResponse cd cfg d = Some body"
  shows "\<exists>s'. finish repo cd cfg c now (ir_ID x) (Inr d) s = (Result d False, s') \<and> store_inv s' \<and> up s' \<and>
     found s' a b = Some (succeeded 200 body (cl_expiresAt c) x)"
  using succeed_law [OF assms(1-3), of 200 body "cl_expiresAt c"] assms(4) by (auto simp: finish_def)

lemma finish_failure:
  assumes "store_inv s" and "up s" and "found s a b = Some x"
  shows "\<exists>s'. finish repo cd cfg c now (ir_ID x) (Inl reason) s = (Error (ExecutionError reason), s') \<and>
     store_inv s' \<and> up s' \<and> found s' a b = Some (failed (if reason = '''' then ''EXECUTION_FAILED'' else reason)
       (now + FailedRetryBackoff cfg) (cl_expiresAt c) x)"
  using fail_law [OF assms, of "if reason = '''' then ''EXECUTION_FAILED'' else reason"
      "now + FailedRetryBackoff cfg" "cl_expiresAt c"]
  by (auto simp: finish_def)

end

section \<open>Truncated responses\<close>

section \<open>Runs of requests\<close>

text \<open>The same request issued at the given clocks, one after the other.\<close>

fun run_requests ::
    "'s IdempotencyRepository \<Rightarrow> 'd codec \<Rightarrow> IdempotencyConfig \<Rightarrow> IdempotencyExecuteOptions \<Rightarrow> ('w, 'd) executor
       \<Rightarrow> (nat \<Rightarrow> instant) list \<Rightarrow> 's \<times> 'w \<Rightarrow> 'd idem_result list \<times> 's \<times> 'w" where
  "run_requests repo cd cfg opts execute [] st = ([], st)"
| "run_requests repo cd cfg opts execute (clk # clks) st =
     (let (r, st1) = Execute (Some repo) cd cfg clk opts execute st;
          (rs, st2) = run_requests repo cd cfg opts execute clks st1
      in (r # rs, st2))"

definition ttl_of :: "IdempotencyConfig \<Rightarrow> IdempotencyExecuteOptions \<Rightarrow> duration" where
  "ttl_of cfg opts = (if op_TTL opts \<le> 0 then DefaultTTL cfg else op_TTL opts)"

context idempotency_repository
begin

lemma run_final:
  assumes "store_inv s" and "up s" and "valid_request cd opts key fp"
    and "found s (op_Scope opts) (cd_sha cd key) = Some x"
    and "\<forall>clk \<in> set clks. clk 0 < ir_ExpiresAt x" and "ir_Fingerprint x = fp"
    and "\<And>c s. decide_existing repo cd c x s = (Final r, s)"
  shows "\<exists>s'. run_requests repo cd cfg opts execute clks (s, w) = (replicate (length clks) r, s', w) \<and>
     store_inv s' \<and> up s' \<and> found s' = found s"
  using assms(1,2,4,5)
proof (induction clks arbitrary: s)
  case Nil
  then show ?case by simp
next
  case (Cons clk clks)
  obtain s2 where s2: "store_inv s2" "up s2" "found s2 = found s"
    and e: "Execute (Some repo) cd cfg clk opts execute (s, w) = (r, s2, w)"
    using Execute_final [OF Cons.prems(1,2) assms(3) Cons.prems(3), of clk cfg r execute w]
      Cons.prems(4) assms(6,7) by auto
  have "found s2 (op_Scope opts) (cd_sha cd key) = Some x" using s2(3) Cons.prems(3) by simp
  from Cons.IH [OF s2(1,2) this] Cons.prems(4) s2(3) show ?case by (auto simp: e)
qed

lemma first_then_run:
  assumes "store_inv s" and "up s" and "valid_request cd opts key fp"
    and "found s (op_Scope opts) (cd_sha cd key) = None" and "execute w = (Inr d, w')"
    and "marshalStoredResponse cd cfg d = Some body"
    and "\<forall>clk' \<in> set clks. clk' 0 < clk 0 + ttl_of cfg opts"
  shows "\<exists>s'. run_requests repo cd cfg opts execute (clk # clks) (s, w) =
     (Result d False # replicate (length clks)
        (case decodeStoredResponse cd (Some body) of None \<Rightarrow> Error StoreUnavailable | Some d' \<Rightarrow> Result d' True), s', w')"
proof -
  let ?c = "make_claim cd cfg opts key fp (clk 0)"
  obtain s1 x where s1: "store_inv s1" "up s1" "found s1 (op_Scope opts) (cd_sha cd key) = Some x"
    "ir_Fingerprint x = fp" and e: "Execute (Some repo) cd cfg clk opts execute (s, w) =
       (let (r, s2) = finish repo cd cfg ?c (clk 1) (ir_ID x) (Inr d) s1 in (r, s2, w'))"
    using Execute_first [where execute = execute and w = w, OF assms(1-5), of cfg clk] by blast
  obtain s2 where f: "finish repo cd cfg ?c (clk 1) (ir_ID x) (Inr d) s1 = (Result d False, s2)"
    and s2: "store_inv s2" "up s2"
      "found s2 (op_Scope opts) (cd_sha cd key) = Some (succeeded 200 body (cl_expiresAt ?c) x)"
    using finish_success [OF s1(1-3) assms(6)] by blast
  have dec: "decide_existing repo cd c (succeeded 200 body (cl_expiresAt ?c) x) s =
      (Final (case decodeStoredResponse cd (Some body) of None \<Rightarrow> Error StoreUnavailable | Some d' \<Rightarrow> Result d' True), s)"
    for c s
    by (simp add: decide_existing_def succeeded_def split: option.splits)
  have exp: "ir_ExpiresAt (succeeded 200 body (cl_expiresAt ?c) x) = clk 0 + ttl_of cfg opts"
    "ir_Fingerprint (succeeded 200 body (cl_expiresAt ?c) x) = fp"
    using s1(4) by (simp_all add: succeeded_def ttl_of_def)
  have "\<forall>clk' \<in> set clks. clk' 0 < ir_ExpiresAt (succeeded 200 body (cl_expiresAt ?c) x)"
    using assms(7) unfolding exp .
  from run_final [OF s2(1,2) assms(3) s2(3) this exp(2) dec, of cfg execute w'] show ?thesis
    by (auto simp: e f simp del: One_nat_def)
qed

lemma backoff_after_failure:
  assumes "store_inv s" and "up s" and "valid_request cd opts key fp"
    and "found s (op_Scope opts) (cd_sha cd key) = None" and "execute w = (Inl reason, w')"
    and "clk2 0 < clk 0 + ttl_of cfg opts"
  shows "\<exists>s1 s2. Execute (Some repo) cd cfg clk opts execute (s, w) = (Error (ExecutionError reason), s1, w') \<and>
     (if clk2 0 < clk 1 + FailedRetryBackoff cfg
      then \<exists>n. n \<ge> 1 \<and> Execute (Some repo) cd cfg clk2 opts execute2 (s1, w') = (Error (RetryBackoff (Some n)), s2, w')
      else snd (snd (Execute (Some repo) cd cfg clk2 opts execute2 (s1, w'))) = snd (execute2 w'))"
proof -
  let ?c = "make_claim cd cfg opts key fp (clk 0)"
  let ?c2 = "make_claim cd cfg opts key fp (clk2 0)"
  obtain s0 x where s0: "store_inv s0" "up s0" "found s0 (op_Scope opts) (cd_sha cd key) = Some x"
    "ir_Fingerprint x = fp" and e: "Execute (Some repo) cd cfg clk opts execute (s, w) =
       (let (r, s2) = finish repo cd cfg ?c (clk 1) (ir_ID x) (Inl reason) s0 in (r, s2, w'))"
    using Execute_first [where execute = execute and w = w, OF assms(1-5), of cfg clk] by blast
  define y where "y = failed (if reason = '''' then ''EXECUTION_FAILED'' else reason)
     (clk 1 + FailedRetryBackoff cfg) (cl_expiresAt ?c) x"
  obtain s1 where f: "finish repo cd cfg ?c (clk 1) (ir_ID x) (Inl reason) s0 = (Error (ExecutionError reason), s1)"
    and s1: "store_inv s1" "up s1" "found s1 (op_Scope opts) (cd_sha cd key) = Some y"
    using finish_failure [OF s0(1-3), of cd cfg ?c "clk 1" reason] by (auto simp: y_def)
  have y: "ir_Fingerprint y = fp" "ir_ExpiresAt y = clk 0 + ttl_of cfg opts" "ir_Status y = FailedRetryable"
    "ir_LockedUntil y = Some (clk 1 + FailedRetryBackoff cfg)"
    using s0(4) by (simp_all add: y_def failed_def ttl_of_def)
  show ?thesis
  proof (cases "clk2 0 < clk 1 + FailedRetryBackoff cfg")
    case True
    obtain n where n: "retry_after (ir_LockedUntil y) (clk2 0) = Some n" by (simp add: y(4) retry_after_def)
    have "decide_existing repo cd ?c2 y s = (Final (Error (RetryBackoff (Some n))), s)" for s
      using True n by (simp add: decide_existing_def y)
    from Execute_final [where clk = clk2 and execute = execute2 and w = w', OF s1(1,2) assms(3) s1(3) _ this]
      assms(6) y
    obtain s2 where "Execute (Some repo) cd cfg clk2 opts execute2 (s1, w') = (Error (RetryBackoff (Some n)), s2, w')"
      by fastforce
    with True e f retry_after_pos [OF n] show ?thesis by auto
  next
    case False
    have "at_key s1 ?c2 = Some y" using s1(3) by (simp add: at_key_def)
    from claim_key_live [OF s1(1,2) this, of cd] assms(6) y obtain s2 where
      s2: "store_inv s2" "up s2" "found s2 = found s1" and c: "claim_key repo cd ?c2 s1 =
        (case decide_existing repo cd ?c2 y s2 of
          (Own rid, s3) \<Rightarrow> (if rid = 0 then Final (Error StoreUnavailable) else Own rid, s3) | r \<Rightarrow> r)"
      by auto
    have y2: "found s2 (op_Scope opts) (cd_sha cd key) = Some y" using s1(3) s2(3) by simp
    have rec: "reclaimable (ir_ID y) FailedRetryable (clk2 0) y"
      using False by (simp add: reclaimable_def y)
    obtain s3 where "TryReclaim repo (ir_ID y) FailedRetryable (clk2 0)
        (cl_lockedUntil ?c2) (cl_expiresAt ?c2) s2 = (Some True, s3)"
      using reclaim_law [OF s2(1,2) y2, of FailedRetryable "clk2 0" "cl_lockedUntil ?c2" "cl_expiresAt ?c2"]
      unfolding rec [THEN eqTrueI] by blast
    then have "decide_existing repo cd ?c2 y s2 = (Own (ir_ID y), s3)"
      using False by (simp add: decide_existing_def y)
    moreover have "ir_ID y \<noteq> 0" using found_id [OF s1(1,3)] .
    ultimately have "claim_key repo cd ?c2 s1 = (Own (ir_ID y), s3)" by (simp add: c)
    then have "snd (snd (Execute (Some repo) cd cfg clk2 opts execute2 (s1, w'))) = snd (execute2 w')"
      by (simp add: Execute_valid [OF assms(3)] split_beta Let_def)
    moreover have "Execute (Some repo) cd cfg clk opts execute (s, w) = (Error (ExecutionError reason), s1, w')"
      by (simp add: e f del: One_nat_def)
    ultimately show ?thesis using False by (simp del: One_nat_def)
  qed
qed

end

section \<open>Properties\<close>

text \<open>C4. Over the table of records, with storage working and the requests valid: if there is no record for the key yet,
  the executor succeeds for the first request, and the response is stored in a form that decodes again (it is
  not cut at the storage limit), then the first request runs the executor and answers with its result; every
  later request with the same key and payload that comes within the lifetime of the record, counted from the
  start of the first, leaves the world alone and replays the stored data. (A failed first run is executed
  again, so is a request after the lifetime; a response that was cut makes repetitions fail, see
  \<open>Execute_truncated_unavailable\<close>.)
\<close>

theorem Execute_replays:
  assumes "table_inv t" and "table_up t" and "valid_request cd opts key fp"
    and "table_found t (op_Scope opts) (cd_sha cd key) = None" and "execute w = (Inr d, w')"
    and "marshalStoredResponse cd cfg d = Some body" and "decodeStoredResponse cd (Some body) = Some d'"
    and "\<forall>clk' \<in> set clks. clk' 0 < clk 0 + ttl_of cfg opts"
  shows "\<exists>t'. run_requests sql_repo cd cfg opts execute (clk # clks) (t, w) =
     (Result d False # replicate (length clks) (Result d' True), t', w')"
  using store.first_then_run [where execute = execute and w = w and clk = clk, OF assms(1-6,8)] assms(7) by simp

text \<open>A response that is longer than the storage limit is stored truncated, and a JSON
  decoder rejects it: every repetition of the request within the lifetime fails with the store
  reported unavailable, although the request succeeded.\<close>

theorem Execute_truncated_unavailable:
  assumes "table_inv t" and "table_up t" and "valid_request cd opts key fp"
    and "table_found t (op_Scope opts) (cd_sha cd key) = None" and "execute w = (Inr d, w')"
    and "cd_marshal cd d = Some raw" and "0 < MaxStoredResponseLen cfg"
    and "MaxStoredResponseLen cfg < int (length (cd_redact cd raw))"
    and "\<forall>s. cd_unmarshal cd (s @ ''...(truncated)'') = None"
    and "\<forall>clk' \<in> set clks. clk' 0 < clk 0 + ttl_of cfg opts"
  shows "\<exists>t'. run_requests sql_repo cd cfg opts execute (clk # clks) (t, w) =
     (Result d False # replicate (length clks) (Error StoreUnavailable), t', w')"
proof -
  define body where "body = take (nat (MaxStoredResponseLen cfg)) (cd_redact cd raw) @ ''...(truncated)''"
  have m: "marshalStoredResponse cd cfg d = Some body"
    using assms(6-8) by (simp add: marshalStoredResponse_def body_def)
  have "TrimSpace body \<noteq> ''''" by (rule TrimSpace_nonempty [of "CHR '')''"]) (simp_all add: body_def graphic_def)
  then have "decodeStoredResponse cd (Some body) = None"
    using assms(9) by (simp add: decodeStoredResponse_def body_def)
  then show ?thesis
    using store.first_then_run [where execute = execute and w = w and clk = clk, OF assms(1-5) m assms(10)] by simp
qed

text \<open>A key that was used with another payload is refused without running the executor.\<close>

theorem Execute_key_conflict:
  assumes "table_inv t" and "table_up t" and "valid_request cd opts key fp"
    and "table_found t (op_Scope opts) (cd_sha cd key) = Some x"
    and "ir_Fingerprint x \<noteq> fp"
  shows "\<exists>t'. Execute (Some sql_repo) cd cfg clk opts execute (t, w) = (Error KeyConflict, t', w) \<and>
     table_found t' = table_found t"
proof -
  let ?c = "make_claim cd cfg opts key fp (clk 0)"
  have "store.at_key t ?c = Some x" using assms(4) by (simp add: store.at_key_def)
  from store.claim_key_found [OF assms(1,2) this, of cd] obtain t1 t2 where
    "claim_key sql_repo cd ?c t = (case claim_existing sql_repo cd ?c t1 of
          (Own rid, s2) \<Rightarrow> (if rid = 0 then Final (Error StoreUnavailable) else Own rid, s2) | r \<Rightarrow> r)"
    "GetByScopeAndKeyHash sql_repo (cl_scope ?c) (cl_keyHash ?c) t1 = (Some (Some x), t2)"
    "table_found t2 = table_found t" by blast
  then show ?thesis
    using assms(5) by (simp add: Execute_valid [OF assms(3)] claim_existing_def)
qed

text \<open>After a failed execution the key is blocked for the back-off time, with a hint of at
  least one second, and is executed again once the time is over.\<close>

theorem Execute_backoff:
  assumes "table_inv t" and "table_up t" and "valid_request cd opts key fp"
    and "table_found t (op_Scope opts) (cd_sha cd key) = None" and "execute w = (Inl reason, w')"
    and "clk2 0 < clk 0 + ttl_of cfg opts"
  shows "\<exists>t1 t2. Execute (Some sql_repo) cd cfg clk opts execute (t, w) = (Error (ExecutionError reason), t1, w') \<and>
     (if clk2 0 < clk 1 + FailedRetryBackoff cfg
      then \<exists>n. n \<ge> 1 \<and> Execute (Some sql_repo) cd cfg clk2 opts execute2 (t1, w') = (Error (RetryBackoff (Some n)), t2, w')
      else snd (snd (Execute (Some sql_repo) cd cfg clk2 opts execute2 (t1, w'))) = snd (execute2 w'))"
  by (rule store.backoff_after_failure [where execute = execute and w = w and clk = clk and ?clk2.0 = clk2, OF assms])

text \<open>A record whose executor died stays in progress until it expires: while the record is
  in processing and not expired, a repetition is refused without running the executor, also
  long after the processing lock has ended.\<close>

theorem Execute_processing_blocks:
  assumes "table_inv t" and "table_up t" and "valid_request cd opts key fp"
    and "table_found t (op_Scope opts) (cd_sha cd key) = Some x" and "ir_Fingerprint x = fp"
    and "ir_Status x = Processing" and "clk 0 < ir_ExpiresAt x"
  shows "\<exists>t'. Execute (Some sql_repo) cd cfg clk opts execute (t, w) =
     (Error (InProgress (retry_after (ir_LockedUntil x) (clk 0))), t', w)"
proof -
  have "decide_existing sql_repo cd (make_claim cd cfg opts key fp (clk 0)) x s =
      (Final (Error (InProgress (retry_after (ir_LockedUntil x) (clk 0)))), s)" for s
    using assms(6) by (simp add: decide_existing_def)
  from store.Execute_final [where clk = clk and execute = execute and w = w, OF assms(1-4,7) this] assms(5)
  show ?thesis by auto
qed

definition demo_codec :: "string codec" where
  "demo_codec = \<lparr>cd_sha = (\<lambda>s. s), cd_marshal = Some,
     cd_unmarshal = (\<lambda>s. if HasSuffix s '')'' then None else Some s), cd_redact = (\<lambda>s. s), cd_empty = ''{}''\<rparr>"

definition demo_options :: IdempotencyExecuteOptions where
  "demo_options = \<lparr>op_Scope = ''pay'', op_ActorScope = ''u1'', op_Method = ''POST'', op_Route = ''/pay'',
     op_IdempotencyKey = ''k1'', op_Payload = Some ''{}'', op_TTL = 0, op_RequireKey = True\<rparr>"

definition demo_table :: idem_table where
  "demo_table = \<lparr>it_rows = [], it_next = 1, it_faults = []\<rparr>"

definition demo_fp :: string where
  "demo_fp = the (BuildIdempotencyFingerprint demo_codec ''POST'' ''/pay'' ''u1'' (Some ''{}''))"

definition demo_row :: IdempotencyRecord where
  "demo_row = \<lparr>ir_ID = 1, ir_Scope = ''pay'', ir_KeyHash = ''k1'', ir_Fingerprint = demo_fp,
     ir_Status = Processing, ir_ResponseStatus = None, ir_ResponseBody = None, ir_ErrorReason = None,
     ir_LockedUntil = Some 100, ir_ExpiresAt = hours 24\<rparr>"

text \<open>The demonstration executor counts its runs.\<close>

definition demo_execute :: "(nat, string) executor" where
  "demo_execute n = (Inr ''{x}'', n + 1)"

lemma demo_table_ok: "table_inv demo_table" "table_up demo_table" "table_found demo_table a b = None"
  by (simp_all add: demo_table_def table_inv_def table_up_def table_found_def)

lemma demo_request: "valid_request demo_codec demo_options ''k1'' demo_fp"
proof -
  have "graphic ''k1''" by (simp add: graphic_def)
  then show ?thesis
    by (simp add: valid_request_def demo_options_def NormalizeIdempotencyKey_def TrimSpace_graphic demo_fp_def
        BuildIdempotencyFingerprint_def Let_def)
qed

lemma Execute_replays_witness:
  "\<exists>t'. run_requests sql_repo demo_codec DefaultIdempotencyConfig demo_options demo_execute
     [\<lambda>_. 0, \<lambda>_. hours 1, \<lambda>_. hours 23] (demo_table, 0) =
     ([Result ''{x}'' False, Result ''{x}'' True, Result ''{x}'' True], t', 1)"
proof -
  have "marshalStoredResponse demo_codec DefaultIdempotencyConfig ''{x}'' = Some ''{x}''"
    by (simp add: marshalStoredResponse_def demo_codec_def DefaultIdempotencyConfig_def)
  moreover have "decodeStoredResponse demo_codec (Some ''{x}'') = Some ''{x}''"
    by code_simp
  moreover have "\<forall>clk' \<in> set [\<lambda>_. hours 1, \<lambda>_. hours 23]. clk' 0 < (\<lambda>_. 0) 0 + ttl_of DefaultIdempotencyConfig demo_options"
    by (simp add: ttl_of_def DefaultIdempotencyConfig_def demo_options_def)
  ultimately show ?thesis
    using Execute_replays [OF demo_table_ok(1,2) demo_request demo_table_ok(3), of demo_execute 0 "''{x}''" 1
        DefaultIdempotencyConfig "''{x}''" "''{x}''" "[\<lambda>_. hours 1, \<lambda>_. hours 23]" "\<lambda>_. 0"]
    by (simp add: demo_execute_def numeral_2_eq_2)
qed

lemma Execute_truncated_unavailable_witness:
  "\<exists>t'. run_requests sql_repo demo_codec (DefaultIdempotencyConfig\<lparr>MaxStoredResponseLen := 2\<rparr>) demo_options
     demo_execute [\<lambda>_. 0, \<lambda>_. hours 1] (demo_table, 0) =
     ([Result ''{x}'' False, Error StoreUnavailable], t', 1)"
proof -
  have "\<forall>s. cd_unmarshal demo_codec (s @ ''...(truncated)'') = None"
    by (simp add: demo_codec_def HasSuffix_def suffix_def)
  then show ?thesis
    using Execute_truncated_unavailable [OF demo_table_ok(1,2) demo_request demo_table_ok(3), of demo_execute 0
        "''{x}''" 1 "''{x}''" "DefaultIdempotencyConfig\<lparr>MaxStoredResponseLen := 2\<rparr>" "[\<lambda>_. hours 1]" "\<lambda>_. 0"]
    by (simp add: demo_execute_def demo_codec_def ttl_of_def DefaultIdempotencyConfig_def demo_options_def)
qed

definition demo_busy :: idem_table where
  "demo_busy = \<lparr>it_rows = [demo_row], it_next = 2, it_faults = []\<rparr>"

lemma demo_busy_ok: "table_inv demo_busy" "table_up demo_busy"
  "table_found demo_busy (op_Scope demo_options) (cd_sha demo_codec ''k1'') = Some demo_row"
  by (simp_all add: demo_busy_def demo_row_def table_inv_def table_up_def table_found_def row_at_def
      demo_options_def demo_codec_def)

lemma Execute_key_conflict_witness:
  "\<exists>t'. Execute (Some sql_repo) demo_codec DefaultIdempotencyConfig (\<lambda>_. 5) (demo_options\<lparr>op_Payload := Some ''[]''\<rparr>)
     demo_execute (demo_busy, 0) = (Error KeyConflict, t', 0) \<and> table_found t' = table_found demo_busy"
proof -
  let ?o = "demo_options\<lparr>op_Payload := Some ''[]''\<rparr>"
  let ?fp = "the (BuildIdempotencyFingerprint demo_codec ''POST'' ''/pay'' ''u1'' (Some ''[]''))"
  have "graphic ''k1''" by (simp add: graphic_def)
  then have v: "valid_request demo_codec ?o ''k1'' ?fp"
    by (simp add: valid_request_def demo_options_def NormalizeIdempotencyKey_def TrimSpace_graphic
        BuildIdempotencyFingerprint_def Let_def)
  have "table_found demo_busy (op_Scope ?o) (cd_sha demo_codec ''k1'') = Some demo_row"
    using demo_busy_ok(3) by simp
  moreover have "ir_Fingerprint demo_row \<noteq> ?fp"
    by (simp add: demo_row_def demo_fp_def BuildIdempotencyFingerprint_def demo_codec_def Let_def)
  ultimately show ?thesis by (rule Execute_key_conflict [OF demo_busy_ok(1,2) v])
qed

lemma Execute_processing_blocks_witness:
  "\<exists>t'. Execute (Some sql_repo) demo_codec DefaultIdempotencyConfig (\<lambda>_. hours 23) demo_options demo_execute
     (demo_busy, 0) = (Error (InProgress (Some 1)), t', 0)"
  using Execute_processing_blocks [OF demo_busy_ok(1,2) demo_request demo_busy_ok(3),
      of "\<lambda>_. hours 23" DefaultIdempotencyConfig demo_execute 0]
  by (simp add: demo_row_def retry_after_def trunc_div.simps)

lemma Execute_backoff_witness:
  "\<exists>t1 t2 n. Execute (Some sql_repo) demo_codec DefaultIdempotencyConfig (\<lambda>_. 0) demo_options
       (\<lambda>n. (Inl ''X'', n + 1)) (demo_table, 0 :: nat) = (Error (ExecutionError ''X''), t1, 1) \<and>
     Execute (Some sql_repo) demo_codec DefaultIdempotencyConfig (\<lambda>_. seconds 2) demo_options demo_execute (t1, 1) =
       (Error (RetryBackoff (Some n)), t2, 1)"
  using Execute_backoff [OF demo_table_ok(1,2) demo_request demo_table_ok(3),
      of "\<lambda>n. (Inl ''X'', n + 1)" "0 :: nat" "''X''" 1 "\<lambda>_. seconds 2" "\<lambda>_. 0" DefaultIdempotencyConfig demo_execute]
  by (auto simp: ttl_of_def DefaultIdempotencyConfig_def demo_options_def)

end
