(* ===== verification/SystemLock.thy ===== *)
theory SystemLock
  imports Idempotency
begin

text \<open>
  The lock of system operations (\<open>backend/internal/service/system_operation_lock_service.go\<close>),
  the second client of the store of idempotency records: one record under a fixed key, held
  while it is in processing with a lock in the future. The holder renews it from a ticker, one
  call of \<open>renew_tick\<close> per tick; the loop is the sequence of its ticks, interleaved with the
  attempts of others in \<open>lock_run\<close>. The clock is read once in \<open>Acquire\<close> and twice in
  \<open>Release\<close>.
\<close>

section \<open>The service\<close>

definition systemOperationLockScope :: string where
  "systemOperationLockScope = ''admin.system.operations.global_lock''"

definition systemOperationLockKey :: string where
  "systemOperationLockKey = ''global-system-operation-lock''"

record SystemOperationLock =
  lk_recordID :: int
  lk_operationID :: string

record SystemOperationLockService =
  ls_lease :: duration
  ls_renewInterval :: duration
  ls_ttl :: duration

definition NewSystemOperationLockService :: "IdempotencyConfig \<Rightarrow> SystemOperationLockService" where
  "NewSystemOperationLockService cfg =
     (let lease = (if ProcessingTimeout cfg \<le> 0 then seconds 30 else ProcessingTimeout cfg);
          interval = trunc_div lease 3
      in \<lparr>ls_lease = lease,
          ls_renewInterval = (if interval < seconds 1 then seconds 1 else interval),
          ls_ttl = (if SystemOperationTTL cfg \<le> 0 then hours 1 else SystemOperationTTL cfg)\<rparr>)"

text \<open>\<open>Busy\<close> carries the metadata, the operation that holds the lock and the seconds to wait.\<close>

datatype lock_error = LockStoreUnavailable | OperationIDRequired | Busy "string option" "int option"

definition busyError :: "string \<Rightarrow> instant option \<Rightarrow> instant \<Rightarrow> lock_error" where
  "busyError operationID lockedUntil now =
     Busy (if operationID = '''' then None else Some operationID)
       (map_option (\<lambda>l. let sec = trunc_div (l - now) (seconds 1) in if sec \<le> 0 then 1 else sec) lockedUntil)"

definition lock_record :: "'d codec \<Rightarrow> SystemOperationLockService \<Rightarrow> instant \<Rightarrow> string \<Rightarrow> IdempotencyRecord" where
  "lock_record cd svc now operationID = \<lparr>ir_ID = 0, ir_Scope = systemOperationLockScope,
     ir_KeyHash = HashIdempotencyKey cd systemOperationLockKey, ir_Fingerprint = operationID,
     ir_Status = Processing, ir_ResponseStatus = None, ir_ResponseBody = None, ir_ErrorReason = None,
     ir_LockedUntil = Some (now + ls_lease svc), ir_ExpiresAt = now + ls_ttl svc\<rparr>"

definition live_lock :: "instant \<Rightarrow> IdempotencyRecord \<Rightarrow> bool" where
  "live_lock now existing \<longleftrightarrow> ir_Status existing = Processing \<and>
     (case ir_LockedUntil existing of None \<Rightarrow> False | Some l \<Rightarrow> now < l)"

definition acquire_existing ::
    "'s IdempotencyRepository \<Rightarrow> 'd codec \<Rightarrow> SystemOperationLockService \<Rightarrow> instant \<Rightarrow> 's
       \<Rightarrow> (lock_error + int) \<times> 's" where
  "acquire_existing repo cd svc now s =
     (let keyHash = HashIdempotencyKey cd systemOperationLockKey
      in case GetByScopeAndKeyHash repo systemOperationLockScope keyHash s of
           (None, s1) \<Rightarrow> (Inl LockStoreUnavailable, s1)
         | (Some None, s1) \<Rightarrow> (Inl LockStoreUnavailable, s1)
         | (Some (Some existing), s1) \<Rightarrow>
             if live_lock now existing
             then (Inl (busyError (ir_Fingerprint existing) (ir_LockedUntil existing) now), s1)
             else (case TryReclaim repo (ir_ID existing) (ir_Status existing) now (now + ls_lease svc)
                          (now + ls_ttl svc) s1 of
                 (None, s2) \<Rightarrow> (Inl LockStoreUnavailable, s2)
               | (Some True, s2) \<Rightarrow> (Inr (ir_ID existing), s2)
               | (Some False, s2) \<Rightarrow>
                   (case GetByScopeAndKeyHash repo systemOperationLockScope keyHash s2 of
                      (Some (Some latest), s3) \<Rightarrow>
                        (Inl (busyError (ir_Fingerprint latest) (ir_LockedUntil latest) now), s3)
                    | (_, s3) \<Rightarrow> (Inl (Busy None None), s3))))"

definition lock_Acquire ::
    "'s IdempotencyRepository option \<Rightarrow> 'd codec \<Rightarrow> SystemOperationLockService \<Rightarrow> instant \<Rightarrow> string \<Rightarrow> 's
       \<Rightarrow> (lock_error + SystemOperationLock) \<times> 's" where
  "lock_Acquire repo0 cd svc now operationID s =
     (case repo0 of
        None \<Rightarrow> (Inl LockStoreUnavailable, s)
      | Some repo \<Rightarrow>
          if operationID = '''' then (Inl OperationIDRequired, s)
          else (let (recordID, s') =
                  (case CreateProcessing repo (lock_record cd svc now operationID) s of
                     (None, s1) \<Rightarrow> (Inl LockStoreUnavailable, s1)
                   | (Some (Some rid), s1) \<Rightarrow> (Inr rid, s1)
                   | (Some None, s1) \<Rightarrow> acquire_existing repo cd svc now s1)
                in case recordID of
                     Inl e \<Rightarrow> (Inl e, s')
                   | Inr rid \<Rightarrow> if rid = 0 then (Inl LockStoreUnavailable, s')
                              else (Inr \<lparr>lk_recordID = rid, lk_operationID = operationID\<rparr>, s')))"

definition lock_Release ::
    "'s IdempotencyRepository option \<Rightarrow> SystemOperationLockService \<Rightarrow> (nat \<Rightarrow> instant) \<Rightarrow> SystemOperationLock option
       \<Rightarrow> bool \<Rightarrow> string \<Rightarrow> 's \<Rightarrow> bool \<times> 's" where
  "lock_Release repo0 svc clk lock0 ok failureReason s =
     (case (repo0, lock0) of
        (Some repo, Some lock) \<Rightarrow>
          let expiresAt = clk 0 + ls_ttl svc
          in if ok
             then MarkSucceeded repo (lk_recordID lock) 200
                    (''{\"operation_id\":\"'' @ lk_operationID lock @ ''\",\"released\":true}'') expiresAt s
             else MarkFailedRetryable repo (lk_recordID lock)
                    (if failureReason = '''' then ''SYSTEM_OPERATION_FAILED'' else failureReason) (clk 1) expiresAt s
      | _ \<Rightarrow> (True, s))"

text \<open>One tick of the renewal; the loop goes on after a storage error and ends when the record
  is not the holder's any more.\<close>

definition renew_tick ::
    "'s IdempotencyRepository \<Rightarrow> SystemOperationLockService \<Rightarrow> SystemOperationLock \<Rightarrow> instant \<Rightarrow> 's \<Rightarrow> bool \<times> 's" where
  "renew_tick repo svc lock now s =
     (case ExtendProcessingLock repo (lk_recordID lock) (lk_operationID lock) (now + ls_lease svc) (now + ls_ttl svc) s of
        (None, s') \<Rightarrow> (True, s')
      | (Some ok, s') \<Rightarrow> (ok, s'))"

text \<open>What happens while a lock is held: ticks of its renewal, as long as the loop is alive,
  and attempts of other operations, with their results.\<close>

datatype lock_event = Tick instant | Contend instant string

fun lock_run ::
    "'s IdempotencyRepository \<Rightarrow> 'd codec \<Rightarrow> SystemOperationLockService \<Rightarrow> SystemOperationLock \<Rightarrow> bool
       \<Rightarrow> lock_event list \<Rightarrow> 's \<Rightarrow> (lock_error + SystemOperationLock) list \<times> bool \<times> 's" where
  "lock_run repo cd svc lock alive [] s = ([], alive, s)"
| "lock_run repo cd svc lock alive (Tick now # es) s =
     (if alive then (let (alive', s') = renew_tick repo svc lock now s in lock_run repo cd svc lock alive' es s')
      else lock_run repo cd svc lock alive es s)"
| "lock_run repo cd svc lock alive (Contend now op # es) s =
     (let (r, s') = lock_Acquire (Some repo) cd svc now op s;
          (rs, alive', s'') = lock_run repo cd svc lock alive es s'
      in (r # rs, alive', s''))"

text \<open>The attempts come before the end of the lock: its start plus the lease, moved by each tick.\<close>

fun in_lease :: "duration \<Rightarrow> instant \<Rightarrow> lock_event list \<Rightarrow> bool" where
  "in_lease lease lockedUntil [] \<longleftrightarrow> True"
| "in_lease lease lockedUntil (Tick now # es) \<longleftrightarrow> in_lease lease (now + lease) es"
| "in_lease lease lockedUntil (Contend now op # es) \<longleftrightarrow> now < lockedUntil \<and> op \<noteq> '''' \<and> in_lease lease lockedUntil es"

fun busy_with :: "string \<Rightarrow> lock_error + SystemOperationLock \<Rightarrow> bool" where
  "busy_with op (Inl (Busy (Some holder) (Some n))) \<longleftrightarrow> holder = op \<and> 1 \<le> n"
| "busy_with op _ \<longleftrightarrow> False"

section \<open>The lock over a working store\<close>

lemma busyError_busy: "op \<noteq> '''' \<Longrightarrow> busy_with op (Inl (busyError op (Some l) now))"
  by (simp add: busyError_def Let_def)

context idempotency_repository
begin

definition lock_at :: "'d codec \<Rightarrow> 's \<Rightarrow> IdempotencyRecord option" where
  "lock_at cd s = found s systemOperationLockScope (HashIdempotencyKey cd systemOperationLockKey)"

lemma acquire_fresh:
  assumes "store_inv s" and "up s" and "lock_at cd s = None" and "op \<noteq> ''''"
  shows "\<exists>rid s'. lock_Acquire (Some repo) cd svc now op s = (Inr \<lparr>lk_recordID = rid, lk_operationID = op\<rparr>, s') \<and>
     store_inv s' \<and> up s' \<and> lock_at cd s' = Some ((lock_record cd svc now op)\<lparr>ir_ID := rid\<rparr>)"
proof -
  obtain rid s' where "CreateProcessing repo (lock_record cd svc now op) s = (Some (Some rid), s')" "rid \<noteq> 0"
    "store_inv s'" "up s'" "lock_at cd s' = Some ((lock_record cd svc now op)\<lparr>ir_ID := rid\<rparr>)"
    using create_law [OF assms(1,2), of "lock_record cd svc now op"] assms(3)
    by (auto simp: lock_at_def lock_record_def)
  with assms(4) show ?thesis by (simp add: lock_Acquire_def)
qed

lemma acquire_found:
  assumes "store_inv s" and "up s" and "lock_at cd s = Some x" and "op \<noteq> ''''"
  shows "\<exists>s1 s2. lock_Acquire (Some repo) cd svc now op s =
       (case acquire_existing repo cd svc now s1 of
          (Inl e, s') \<Rightarrow> (Inl e, s')
        | (Inr rid, s') \<Rightarrow> if rid = 0 then (Inl LockStoreUnavailable, s')
                       else (Inr \<lparr>lk_recordID = rid, lk_operationID = op\<rparr>, s')) \<and>
     GetByScopeAndKeyHash repo systemOperationLockScope (HashIdempotencyKey cd systemOperationLockKey) s1 =
       (Some (Some x), s2) \<and> store_inv s2 \<and> up s2 \<and> lock_at cd s2 = Some x"
proof -
  obtain s1 where c: "CreateProcessing repo (lock_record cd svc now op) s = (Some None, s1)"
    "store_inv s1" "up s1" "found s1 = found s"
    using create_law [OF assms(1,2), of "lock_record cd svc now op"] assms(3)
    by (auto simp: lock_at_def lock_record_def)
  obtain s2 where "GetByScopeAndKeyHash repo systemOperationLockScope (HashIdempotencyKey cd systemOperationLockKey) s1 =
      (Some (Some x), s2)" "store_inv s2" "up s2" "lock_at cd s2 = Some x"
    using get_law [OF c(2,3)] c(4) assms(3) unfolding lock_at_def by metis
  with c(1) assms(4) show ?thesis by (auto simp: lock_Acquire_def split_beta)
qed

lemma acquire_busy:
  assumes "store_inv s" and "up s" and "lock_at cd s = Some x" and "op \<noteq> ''''" and "live_lock now x"
  shows "\<exists>s'. lock_Acquire (Some repo) cd svc now op s =
      (Inl (busyError (ir_Fingerprint x) (ir_LockedUntil x) now), s') \<and>
     store_inv s' \<and> up s' \<and> lock_at cd s' = Some x"
  using acquire_found [OF assms(1-4), of svc now] assms(5) by (auto simp: acquire_existing_def Let_def)

lemma acquire_reclaim:
  assumes "store_inv s" and "up s" and "lock_at cd s = Some x" and "op \<noteq> ''''" and "\<not> live_lock now x"
    and "reclaimable (ir_ID x) (ir_Status x) now x"
  shows "\<exists>s'. lock_Acquire (Some repo) cd svc now op s = (Inr \<lparr>lk_recordID = ir_ID x, lk_operationID = op\<rparr>, s') \<and>
     store_inv s' \<and> up s' \<and> lock_at cd s' = Some (reclaimed (now + ls_lease svc) (now + ls_ttl svc) x)"
proof -
  obtain s1 s2 where a: "lock_Acquire (Some repo) cd svc now op s =
       (case acquire_existing repo cd svc now s1 of
          (Inl e, s') \<Rightarrow> (Inl e, s')
        | (Inr rid, s') \<Rightarrow> if rid = 0 then (Inl LockStoreUnavailable, s')
                       else (Inr \<lparr>lk_recordID = rid, lk_operationID = op\<rparr>, s'))"
     "GetByScopeAndKeyHash repo systemOperationLockScope (HashIdempotencyKey cd systemOperationLockKey) s1 =
       (Some (Some x), s2)" and s2: "store_inv s2" "up s2" "lock_at cd s2 = Some x"
    using acquire_found [OF assms(1-4)] by blast
  note x = s2(3) [unfolded lock_at_def]
  obtain s3 where "TryReclaim repo (ir_ID x) (ir_Status x) now (now + ls_lease svc) (now + ls_ttl svc) s2 = (Some True, s3)"
    "store_inv s3" "up s3" "lock_at cd s3 = Some (reclaimed (now + ls_lease svc) (now + ls_ttl svc) x)"
    using reclaim_law [OF s2(1,2) x, of "ir_Status x" now "now + ls_lease svc" "now + ls_ttl svc"] assms(6)
    by (auto simp: lock_at_def)
  moreover have "ir_ID x \<noteq> 0" using found_id [OF s2(1) x] .
  ultimately show ?thesis using a assms(5) by (simp add: acquire_existing_def Let_def)
qed

text \<open>A lock that the holder can renew keeps everybody out.\<close>

definition held_by :: "'d codec \<Rightarrow> SystemOperationLock \<Rightarrow> instant \<Rightarrow> 's \<Rightarrow> bool" where
  "held_by cd lock l s \<longleftrightarrow> store_inv s \<and> up s \<and>
     (\<exists>x. lock_at cd s = Some x \<and> ir_ID x = lk_recordID lock \<and> ir_Status x = Processing \<and>
        ir_Fingerprint x = lk_operationID lock \<and> ir_LockedUntil x = Some l)"

lemma renew_held:
  assumes "held_by cd lock l s"
  shows "\<exists>s'. renew_tick repo svc lock now s = (True, s') \<and> held_by cd lock (now + ls_lease svc) s'"
proof -
  obtain x where s: "store_inv s" "up s" and x: "lock_at cd s = Some x" "ir_ID x = lk_recordID lock"
    "ir_Status x = Processing" "ir_Fingerprint x = lk_operationID lock"
    using assms by (auto simp: held_by_def)
  from extend_law [OF s x(1) [unfolded lock_at_def], of "lk_operationID lock" "now + ls_lease svc" "now + ls_ttl svc"]
  show ?thesis using x by (auto simp: renew_tick_def held_by_def lock_at_def)
qed

lemma held_run:
  assumes "held_by cd lock l s" and "lk_operationID lock \<noteq> ''''" and "in_lease (ls_lease svc) l es"
  shows "\<exists>rs l' s'. lock_run repo cd svc lock True es s = (rs, True, s') \<and>
     list_all (busy_with (lk_operationID lock)) rs \<and> held_by cd lock l' s'"
  using assms(1,3)
proof (induction es arbitrary: l s)
  case (Cons e es)
  show ?case
  proof (cases e)
    case (Tick now)
    obtain s' where "renew_tick repo svc lock now s = (True, s')" and h: "held_by cd lock (now + ls_lease svc) s'"
      using renew_held [OF Cons.prems(1)] by blast
    with Cons.IH [OF h] Cons.prems(2) Tick show ?thesis by simp
  next
    case (Contend now op)
    obtain x where s: "store_inv s" "up s" and x: "lock_at cd s = Some x" "ir_ID x = lk_recordID lock"
      "ir_Status x = Processing" "ir_Fingerprint x = lk_operationID lock" "ir_LockedUntil x = Some l"
      using Cons.prems(1) by (auto simp: held_by_def)
    have "op \<noteq> ''''" "live_lock now x" using Cons.prems(2) Contend x by (simp_all add: live_lock_def)
    from acquire_busy [OF s x(1) this, of svc] obtain s' where
      a: "lock_Acquire (Some repo) cd svc now op s = (Inl (busyError (ir_Fingerprint x) (ir_LockedUntil x) now), s')"
      and "store_inv s'" "up s'" "lock_at cd s' = Some x" by blast
    then have h: "held_by cd lock l s'" using x by (simp add: held_by_def)
    obtain rs l' s'' where "lock_run repo cd svc lock True es s' = (rs, True, s'')"
      "list_all (busy_with (lk_operationID lock)) rs" "held_by cd lock l' s''"
      using Cons.IH [OF h] Cons.prems(2) Contend by auto
    then show ?thesis using a Contend busyError_busy [OF assms(2)] x(4,5) by auto
  qed
qed (auto simp: held_by_def)

lemma renew_lost:
  assumes "store_inv s" and "up s" and "lock_at cd s = Some x" and "ir_ID x = lk_recordID lock"
    and "ir_Fingerprint x \<noteq> lk_operationID lock"
  shows "\<exists>s'. renew_tick repo svc lock now s = (False, s') \<and> store_inv s' \<and> up s' \<and> lock_at cd s' = Some x"
  using extend_law [OF assms(1,2) assms(3) [unfolded lock_at_def], of "lk_operationID lock" "now + ls_lease svc" "now + ls_ttl svc"]
    assms(3-5) by (auto simp: renew_tick_def lock_at_def)

end

section \<open>Properties\<close>

text \<open>C7. A lock that was acquired on a free key and is renewed in time excludes every other
  operation: over any sequence of renewal ticks and attempts of others, each attempt within the
  lease fails as busy, naming the holder and a wait of at least one second, and the renewal
  stays alive.\<close>

theorem lock_excludes:
  assumes "table_inv t" and "table_up t"
    and "table_found t systemOperationLockScope (cd_sha cd systemOperationLockKey) = None"
    and "op \<noteq> ''''" and "in_lease (ls_lease svc) (now + ls_lease svc) es"
  shows "\<exists>lock t1 rs t2. lock_Acquire (Some sql_repo) cd svc now op t = (Inr lock, t1) \<and>
     lock_run sql_repo cd svc lock True es t1 = (rs, True, t2) \<and> list_all (busy_with op) rs"
proof -
  have "store.lock_at cd t = None" using assms(3) by (simp add: store.lock_at_def HashIdempotencyKey_def)
  from store.acquire_fresh [OF assms(1,2) this assms(4)] obtain rid t1 where
    a: "lock_Acquire (Some sql_repo) cd svc now op t = (Inr \<lparr>lk_recordID = rid, lk_operationID = op\<rparr>, t1)"
    and "table_inv t1" "table_up t1" "store.lock_at cd t1 = Some ((lock_record cd svc now op)\<lparr>ir_ID := rid\<rparr>)" by blast
  then have "store.held_by cd \<lparr>lk_recordID = rid, lk_operationID = op\<rparr> (now + ls_lease svc) t1"
    by (simp add: store.held_by_def lock_record_def)
  from store.held_run [OF this _ assms(5)] assms(4) a show ?thesis by fastforce
qed

text \<open>A lock whose record existed before, under another operation, is not renewed: the
  reclaim leaves the fingerprint of the old operation in the record, so the first tick of the
  renewal ends the loop, and after the lease another operation acquires the same record although
  the holder has not released it.\<close>

theorem lock_reclaimed_not_renewed:
  assumes "table_inv t" and "table_up t"
    and "table_found t systemOperationLockScope (cd_sha cd systemOperationLockKey) = Some x"
    and "\<not> live_lock now x" and "reclaimable (ir_ID x) (ir_Status x) now x" and "ir_Fingerprint x \<noteq> op"
    and "op \<noteq> ''''" and "op2 \<noteq> ''''" and "now + ls_lease svc \<le> later"
  shows "\<exists>lock t1 lock2 t2. lock_Acquire (Some sql_repo) cd svc now op t = (Inr lock, t1) \<and>
     lock_run sql_repo cd svc lock True [Tick tick, Contend later op2] t1 = ([Inr lock2], False, t2) \<and>
     lk_recordID lock2 = lk_recordID lock \<and> lk_operationID lock = op \<and> lk_operationID lock2 = op2"
proof -
  have "store.lock_at cd t = Some x" using assms(3) by (simp add: store.lock_at_def HashIdempotencyKey_def)
  from store.acquire_reclaim [OF assms(1,2) this assms(7,4,5), of svc] obtain t1 where
    a: "lock_Acquire (Some sql_repo) cd svc now op t = (Inr \<lparr>lk_recordID = ir_ID x, lk_operationID = op\<rparr>, t1)"
    and t1: "table_inv t1" "table_up t1"
      "store.lock_at cd t1 = Some (reclaimed (now + ls_lease svc) (now + ls_ttl svc) x)" by blast
  let ?lock = "\<lparr>lk_recordID = ir_ID x, lk_operationID = op\<rparr>"
  let ?y = "reclaimed (now + ls_lease svc) (now + ls_ttl svc) x"
  obtain t2 where r: "renew_tick sql_repo svc ?lock tick t1 = (False, t2)"
    and t2: "table_inv t2" "table_up t2" "store.lock_at cd t2 = Some ?y"
    using store.renew_lost [OF t1, of ?lock svc tick] assms(6) by (auto simp: reclaimed_def)
  have "\<not> live_lock later ?y" "reclaimable (ir_ID ?y) (ir_Status ?y) later ?y"
    using assms(9) by (simp_all add: live_lock_def reclaimable_def reclaimed_def)
  from store.acquire_reclaim [OF t2 assms(8) this, of svc] r a show ?thesis by (auto simp: reclaimed_def)
qed

text \<open>Releasing a lock frees it, whether the operation succeeded or failed: the next
  operation acquires it at any time from the release on.\<close>

theorem lock_Release_frees:
  assumes "table_inv t" and "table_up t"
    and "table_found t systemOperationLockScope (cd_sha cd systemOperationLockKey) = Some x"
    and "lk_recordID lock = ir_ID x" and "clk 1 \<le> later" and "op2 \<noteq> ''''"
  shows "\<exists>t1 lock2 t2. lock_Release (Some sql_repo) svc clk (Some lock) ok reason t = (True, t1) \<and>
     lock_Acquire (Some sql_repo) cd svc later op2 t1 = (Inr lock2, t2) \<and> lk_operationID lock2 = op2"
proof -
  note x = assms(3)
  obtain t1 y where r: "lock_Release (Some sql_repo) svc clk (Some lock) ok reason t = (True, t1)"
    and t1: "table_inv t1" "table_up t1" "store.lock_at cd t1 = Some y"
    and y: "ir_Status y \<noteq> Processing" "pred_option (\<lambda>l. l \<le> later) (ir_LockedUntil y)"
  proof (cases ok)
    case True
    with that store.succeed_law [OF assms(1,2) x] assms(4) show ?thesis
      unfolding lock_Release_def store.lock_at_def HashIdempotencyKey_def
      by (fastforce simp: Let_def succeeded_def)
  next
    case False
    with that store.fail_law [OF assms(1,2) x] assms(4,5) show ?thesis
      unfolding lock_Release_def store.lock_at_def HashIdempotencyKey_def
      by (fastforce simp: Let_def failed_def simp del: One_nat_def)
  qed
  have "\<not> live_lock later y" "reclaimable (ir_ID y) (ir_Status y) later y"
    using y by (auto simp: live_lock_def reclaimable_def split: option.splits)
  from store.acquire_reclaim [OF t1 assms(6) this, of svc] r show ?thesis by auto
qed

definition demo_lock_service :: SystemOperationLockService where
  "demo_lock_service = NewSystemOperationLockService DefaultIdempotencyConfig"

lemma demo_lock_service_simps [simp]:
  "ls_lease demo_lock_service = seconds 30" "ls_ttl demo_lock_service = hours 1"
  "ls_renewInterval demo_lock_service = seconds 10"
  by (simp_all add: demo_lock_service_def NewSystemOperationLockService_def DefaultIdempotencyConfig_def
      Let_def trunc_div.simps)

text \<open>The record of an update that was released.\<close>

definition demo_lock_row :: IdempotencyRecord where
  "demo_lock_row = \<lparr>ir_ID = 1, ir_Scope = systemOperationLockScope, ir_KeyHash = systemOperationLockKey,
     ir_Fingerprint = ''update-1'', ir_Status = Succeeded, ir_ResponseStatus = Some 200, ir_ResponseBody = Some ''{}'',
     ir_ErrorReason = None, ir_LockedUntil = None, ir_ExpiresAt = hours 1\<rparr>"

definition demo_lock_table :: idem_table where
  "demo_lock_table = \<lparr>it_rows = [demo_lock_row], it_next = 2, it_faults = []\<rparr>"

lemma demo_lock_ok: "table_inv demo_lock_table" "table_up demo_lock_table"
  "table_found demo_lock_table systemOperationLockScope (cd_sha demo_codec systemOperationLockKey) = Some demo_lock_row"
  by (simp_all add: demo_lock_table_def demo_lock_row_def table_inv_def table_up_def table_found_def row_at_def demo_codec_def)

lemma lock_excludes_witness:
  "\<exists>lock t1 rs t2. lock_Acquire (Some sql_repo) demo_codec demo_lock_service 0 ''update-1'' demo_table = (Inr lock, t1) \<and>
     lock_run sql_repo demo_codec demo_lock_service lock True
       [Contend (seconds 5) ''restart'', Tick (seconds 10), Tick (seconds 20), Contend (seconds 49) ''rollback''] t1 =
       (rs, True, t2) \<and> list_all (busy_with ''update-1'') rs"
  by (rule lock_excludes [OF demo_table_ok]) simp_all

lemma lock_reclaimed_not_renewed_witness:
  "\<exists>lock t1 lock2 t2. lock_Acquire (Some sql_repo) demo_codec demo_lock_service (seconds 60) ''update-2'' demo_lock_table =
       (Inr lock, t1) \<and>
     lock_run sql_repo demo_codec demo_lock_service lock True [Tick (seconds 70), Contend (seconds 90) ''restart''] t1 =
       ([Inr lock2], False, t2) \<and>
     lk_recordID lock2 = lk_recordID lock \<and> lk_operationID lock = ''update-2'' \<and> lk_operationID lock2 = ''restart''"
  by (rule lock_reclaimed_not_renewed [OF demo_lock_ok])
    (simp_all add: demo_lock_row_def live_lock_def reclaimable_def)

lemma lock_Release_frees_witness:
  "\<exists>t1 lock2 t2. lock_Release (Some sql_repo) demo_lock_service (\<lambda>_. 100)
       (Some \<lparr>lk_recordID = 1, lk_operationID = ''update-1''\<rparr>) False ''boom'' demo_lock_table = (True, t1) \<and>
     lock_Acquire (Some sql_repo) demo_codec demo_lock_service 100 ''restart'' t1 = (Inr lock2, t2) \<and>
     lk_operationID lock2 = ''restart''"
  by (rule lock_Release_frees [OF demo_lock_ok]) (simp_all add: demo_lock_row_def)

end
