(* ===== verification/IdempotencyRace.thy ===== *)
theory IdempotencyRace
  imports Idempotency
begin

text \<open>
  Concurrent requests on one table of idempotency records. Each request of
  \<open>IdempotencyCoordinator.Execute\<close> is a machine whose steps are the repository calls of its
  claim, the execution, and the call that marks the outcome; the steps of several requests,
  the passage of time and the clean-up interleave freely. \<open>claim_key_machine\<close> shows that the
  machine, run without interference, is the coordinator's claim.

  \<open>PRun\<close> is the time from the claim to the mark, in which the executor runs.
\<close>

section \<open>The machine of a request\<close>

datatype pc =
    PCreate claim
  | PGet claim
  | PReclaimExpired claim IdempotencyRecord
  | PGetLatest claim
  | PReclaimFailed claim IdempotencyRecord
  | PRun claim int
  | PStopped claim
  | PSucceeded claim

primrec claim_of :: "pc \<Rightarrow> claim" where
  "claim_of (PCreate c) = c"
| "claim_of (PGet c) = c"
| "claim_of (PReclaimExpired c r) = c"
| "claim_of (PGetLatest c) = c"
| "claim_of (PReclaimFailed c r) = c"
| "claim_of (PRun c i) = c"
| "claim_of (PStopped c) = c"
| "claim_of (PSucceeded c) = c"

text \<open>The snapshot of a record that a request holds between two calls.\<close>

fun held :: "pc \<Rightarrow> IdempotencyRecord option" where
  "held (PReclaimExpired c r) = Some r"
| "held (PReclaimFailed c r) = Some r"
| "held _ = None"

text \<open>The decision on a record by its status, without the lifetime.\<close>

definition decide_pc :: "claim \<Rightarrow> IdempotencyRecord \<Rightarrow> pc" where
  "decide_pc c r =
     (if ir_Status r = FailedRetryable \<and> \<not> (case ir_LockedUntil r of None \<Rightarrow> False | Some l \<Rightarrow> cl_now c < l)
      then PReclaimFailed c r else PStopped c)"

fun pc_step :: "pc \<Rightarrow> idem_table \<Rightarrow> pc \<times> idem_table" where
  "pc_step (PCreate c) t =
     (case sql_CreateProcessing (claim_record c) t of
        (Some (Some rid), t') \<Rightarrow> (PRun c rid, t')
      | (Some None, t') \<Rightarrow> (PGet c, t')
      | (None, t') \<Rightarrow> (PStopped c, t'))"
| "pc_step (PGet c) t =
     (case sql_GetByScopeAndKeyHash (cl_scope c) (cl_keyHash c) t of
        (Some (Some r), t') \<Rightarrow>
          (if ir_Fingerprint r \<noteq> cl_fingerprint c then PStopped c
           else if ir_ExpiresAt r \<le> cl_now c then PReclaimExpired c r
           else decide_pc c r, t')
      | (_, t') \<Rightarrow> (PStopped c, t'))"
| "pc_step (PReclaimExpired c r) t =
     (case sql_TryReclaim (ir_ID r) (ir_Status r) (cl_now c) (cl_lockedUntil c) (cl_expiresAt c) t of
        (Some True, t') \<Rightarrow> (PRun c (ir_ID r), t')
      | (Some False, t') \<Rightarrow> (PGetLatest c, t')
      | (None, t') \<Rightarrow> (PStopped c, t'))"
| "pc_step (PGetLatest c) t =
     (case sql_GetByScopeAndKeyHash (cl_scope c) (cl_keyHash c) t of
        (Some (Some r), t') \<Rightarrow> (if ir_Fingerprint r \<noteq> cl_fingerprint c then PStopped c else decide_pc c r, t')
      | (_, t') \<Rightarrow> (PStopped c, t'))"
| "pc_step (PReclaimFailed c r) t =
     (case sql_TryReclaim (ir_ID r) FailedRetryable (cl_now c) (cl_lockedUntil c) (cl_expiresAt c) t of
        (Some True, t') \<Rightarrow> (PRun c (ir_ID r), t')
      | (_, t') \<Rightarrow> (PStopped c, t'))"
| "pc_step p t = (p, t)"

text \<open>Without interference five calls finish the claim.\<close>

fun run_pc :: "nat \<Rightarrow> pc \<Rightarrow> idem_table \<Rightarrow> pc \<times> idem_table" where
  "run_pc 0 p t = (p, t)"
| "run_pc (Suc n) p t = (let (p', t') = pc_step p t in run_pc n p' t')"

lemma run_pc_stable [simp]: "run_pc n (PStopped c) t = (PStopped c, t)" "run_pc n (PRun c i) t = (PRun c i, t)"
  by (induction n) auto

section \<open>Interleavings\<close>

record race =
  rc_table :: idem_table
  rc_procs :: "nat \<Rightarrow> pc option"
  rc_time :: instant

definition active :: "pc \<Rightarrow> bool" where
  "active p \<longleftrightarrow> (\<forall>c. p \<noteq> PStopped c \<and> p \<noteq> PSucceeded c)"

text \<open>
  A tick is timely if every request in progress stays within its own lock and lifetime, that
  is, if the executors finish before their locks end.
\<close>

definition timely :: "race \<Rightarrow> instant \<Rightarrow> bool" where
  "timely s t \<longleftrightarrow> (\<forall>p pc. rc_procs s p = Some pc \<and> active pc \<longrightarrow>
     t < cl_lockedUntil (claim_of pc) \<and> t < cl_expiresAt (claim_of pc))"

inductive race_step :: "duration \<Rightarrow> race \<Rightarrow> race \<Rightarrow> bool" for timeout where
  start: "rc_procs s p = None \<Longrightarrow> cl_now c = rc_time s \<Longrightarrow> cl_lockedUntil c = rc_time s + timeout \<Longrightarrow>
     rc_time s < cl_expiresAt c \<Longrightarrow> 0 < timeout \<Longrightarrow>
     race_step timeout s (s\<lparr>rc_procs := (rc_procs s)(p \<mapsto> PCreate c)\<rparr>)"
| call: "rc_procs s p = Some pc \<Longrightarrow> pc_step pc (rc_table s) = (pc', t') \<Longrightarrow>
     race_step timeout s (s\<lparr>rc_procs := (rc_procs s)(p \<mapsto> pc'), rc_table := t'\<rparr>)"
| succeed: "rc_procs s p = Some (PRun c rid) \<Longrightarrow>
     race_step timeout s (s\<lparr>rc_procs := (rc_procs s)(p \<mapsto> PSucceeded c),
       rc_table := snd (sql_MarkSucceeded rid 200 body (cl_expiresAt c) (rc_table s))\<rparr>)"
| fail: "rc_procs s p = Some (PRun c rid) \<Longrightarrow>
     race_step timeout s (s\<lparr>rc_procs := (rc_procs s)(p \<mapsto> PStopped c),
       rc_table := snd (sql_MarkFailedRetryable rid reason l (cl_expiresAt c) (rc_table s))\<rparr>)"
| cleanup: "race_step timeout s (s\<lparr>rc_table := snd (sql_DeleteExpired (rc_time s) limit (rc_table s))\<rparr>)"
| tick: "rc_time s \<le> t \<Longrightarrow> timely s t \<Longrightarrow> race_step timeout s (s\<lparr>rc_time := t\<rparr>)"

inductive race_reach :: "duration \<Rightarrow> race \<Rightarrow> race \<Rightarrow> bool" for timeout s0 where
  init: "race_reach timeout s0 s0"
| step: "race_reach timeout s0 s \<Longrightarrow> race_step timeout s s' \<Longrightarrow> race_reach timeout s0 s'"

inductive_cases race_stepE: "race_step timeout s s'"

inductive_simps race_reach_from: "race_reach timeout s0 s"

definition idle :: "race \<Rightarrow> bool" where
  "idle s \<longleftrightarrow> (\<forall>p. rc_procs s p = None)"

section \<open>The invariant\<close>

definition holds :: "claim \<Rightarrow> int \<Rightarrow> idem_table \<Rightarrow> bool" where
  "holds c rid t \<longleftrightarrow> (\<exists>x \<in> set (it_rows t). ir_ID x = rid \<and> ir_Scope x = cl_scope c \<and> ir_KeyHash x = cl_keyHash c \<and>
     ir_Status x = Processing \<and> ir_LockedUntil x = Some (cl_lockedUntil c) \<and> ir_ExpiresAt x = cl_expiresAt c)"

definition snapshot_ok :: "claim \<Rightarrow> IdempotencyRecord \<Rightarrow> idem_table \<Rightarrow> bool" where
  "snapshot_ok c r t \<longleftrightarrow> ir_ID r < it_next t \<and>
     (\<forall>x \<in> set (it_rows t). ir_ID x = ir_ID r \<longrightarrow> ir_Scope x = cl_scope c \<and> ir_KeyHash x = cl_keyHash c)"

definition proc_ok :: "instant \<Rightarrow> idem_table \<Rightarrow> pc \<Rightarrow> bool" where
  "proc_ok now t pc \<longleftrightarrow>
     (active pc \<longrightarrow> cl_now (claim_of pc) \<le> now \<and> now < cl_lockedUntil (claim_of pc) \<and>
        now < cl_expiresAt (claim_of pc)) \<and>
     (\<forall>c rid. pc = PRun c rid \<longrightarrow> holds c rid t) \<and>
     (\<forall>r. held pc = Some r \<longrightarrow> snapshot_ok (claim_of pc) r t)"

definition race_inv :: "race \<Rightarrow> bool" where
  "race_inv s \<longleftrightarrow> table_inv (rc_table s) \<and>
     (\<forall>p pc. rc_procs s p = Some pc \<longrightarrow> proc_ok (rc_time s) (rc_table s) pc) \<and>
     (\<forall>p q c d i j. p \<noteq> q \<longrightarrow> rc_procs s p = Some (PRun c i) \<longrightarrow> rc_procs s q = Some (PRun d j) \<longrightarrow> i \<noteq> j)"

section \<open>The machine is the claim\<close>

lemma with_fault_rows: "with_fault t = (b, t') \<Longrightarrow> it_rows t' = it_rows t \<and> it_next t' = it_next t"
  by (auto simp: with_fault_def split: prod.splits)

lemma table_inv_cong: "it_rows t' = it_rows t \<Longrightarrow> it_next t' = it_next t \<Longrightarrow> table_inv t' = table_inv t"
  by (simp add: table_inv_def)

lemma get_rows:
  assumes "sql_GetByScopeAndKeyHash a b t = (r, t')"
  shows "it_rows t' = it_rows t" and "it_next t' = it_next t"
    and "r = Some (Some x) \<Longrightarrow> x \<in> set (it_rows t) \<and> ir_Scope x = a \<and> ir_KeyHash x = b"
  using assms found_mem [of t a b x]
  by (auto simp: sql_GetByScopeAndKeyHash_def table_found_def split: prod.splits if_splits dest!: with_fault_rows)

lemma decide_machine:
  assumes "decide_existing sql_repo cd c r t = (x, t')" and "ir_ID r \<noteq> 0"
  shows "run_pc (Suc n) (decide_pc c r) t =
    (case x of Own rid \<Rightarrow> PRun c rid | Final _ \<Rightarrow> PStopped c, t')"
  using assms
  by (auto simp: decide_existing_def decide_pc_def sql_repo_def Let_def split: idem_status.splits option.splits if_splits
      prod.splits bool.splits)

lemma create_pos:
  assumes "table_inv t" and "sql_CreateProcessing r t = (Some (Some rid), t')"
  shows "rid = it_next t" and "0 < rid"
  using assms
  by (auto simp: sql_CreateProcessing_def table_inv_def split: prod.splits if_splits dest!: with_fault_rows)

lemma create_same:
  assumes "sql_CreateProcessing r t = (x, t')" and "\<forall>rid. x \<noteq> Some (Some rid)"
  shows "it_rows t' = it_rows t" and "it_next t' = it_next t"
  using assms by (auto simp: sql_CreateProcessing_def split: prod.splits if_splits dest!: with_fault_rows)

lemma update_rows_inv:
  assumes "table_inv t"
    and "\<And>r. ir_Scope (f r) = ir_Scope r \<and> ir_KeyHash (f r) = ir_KeyHash r \<and> ir_ID (f r) = ir_ID r"
  shows "table_inv (snd (update_rows P f t))"
proof -
  have keys: "map (\<lambda>r. (ir_Scope r, ir_KeyHash r)) (it_rows (snd (update_rows P f t))) =
      map (\<lambda>r. (ir_Scope r, ir_KeyHash r)) (it_rows t)"
    "map ir_ID (it_rows (snd (update_rows P f t))) = map ir_ID (it_rows t)"
    by (auto simp: update_rows_def assms(2))
  show ?thesis using assms(1) unfolding table_inv_def keys by (auto simp: update_rows_def assms(2))
qed

lemma reclaim_rows:
  assumes "sql_TryReclaim rid st now l e t = (x, t')"
  shows "it_next t' = it_next t"
    and "it_rows t' = (if x = Some True then map (\<lambda>r. if reclaimable rid st now r then reclaimed l e r else r) (it_rows t)
           else it_rows t)"
    and "x = Some True \<Longrightarrow> \<exists>r \<in> set (it_rows t). reclaimable rid st now r"
proof -
  obtain b u where u: "with_fault t = (b, u)" by fastforce
  let ?m = "map (\<lambda>r. if reclaimable rid st now r then reclaimed l e r else r) (it_rows t)"
  have m: "?m = it_rows t" if "\<not> (\<exists>r \<in> set (it_rows t). reclaimable rid st now r)"
    using that by (intro map_idI) auto
  show "it_rows t' = (if x = Some True then ?m else it_rows t)"
  proof (cases b)
    case True
    then show ?thesis using assms u with_fault_rows [OF u] by (auto simp: sql_TryReclaim_def)
  next
    case False
    then have "x = Some (\<exists>r \<in> set (it_rows t). reclaimable rid st now r)" "it_rows t' = ?m"
      using assms u with_fault_rows [OF u]
      by (auto simp: sql_TryReclaim_def update_rows_def filter_empty_conv)
    with m show ?thesis by auto
  qed
qed (use assms in \<open>auto simp: sql_TryReclaim_def update_rows_def filter_empty_conv split: prod.splits if_splits
      dest!: with_fault_rows\<close>)

lemma reclaim_inv:
  assumes "table_inv t" and "sql_TryReclaim rid st now l e t = (x, t')"
  shows "table_inv t'"
proof -
  let ?u = "snd (update_rows (reclaimable rid st now) (reclaimed l e) t)"
  have "table_inv ?u" by (rule update_rows_inv [OF assms(1) reclaimed_keys])
  moreover have "table_inv t' = table_inv (if x = Some True then ?u else t)"
    using reclaim_rows(1,2) [OF assms(2)] by (intro table_inv_cong) (auto simp: update_rows_def)
  ultimately show ?thesis using assms(1) by (simp split: if_splits)
qed

lemma run_4: "run_pc 4 p t = (case pc_step p t of (p', u) \<Rightarrow> run_pc 3 p' u)"
  and run_3: "run_pc 3 p t = (case pc_step p t of (p', u) \<Rightarrow> run_pc (Suc (Suc 0)) p' u)"
  and run_5: "run_pc 5 p t = (case pc_step p t of (p', u) \<Rightarrow> run_pc 4 p' u)"
  by (simp_all add: eval_nat_numeral run_pc.simps(2) [of _ p] del: run_pc.simps(2))

lemmas sql_repo_sel = sql_repo_def [THEN arg_cong [where f = CreateProcessing], simplified]
  sql_repo_def [THEN arg_cong [where f = GetByScopeAndKeyHash], simplified]
  sql_repo_def [THEN arg_cong [where f = TryReclaim], simplified]

lemma decide_own:
  assumes "decide_existing sql_repo cd c r t = (Own rid, t')"
  shows "rid = ir_ID r"
  using assms by (auto simp: decide_existing_def split: idem_status.splits option.splits if_splits prod.splits bool.splits)

lemma row_ids: "table_inv t \<Longrightarrow> x \<in> set (it_rows t) \<Longrightarrow> ir_ID x \<noteq> 0"
  by (auto simp: table_inv_def)

text \<open>The second read, after a reclaim that changed nothing.\<close>

lemma latest_machine:
  assumes inv: "table_inv t" and n: "n \<ge> 1"
    and e: "(case GetByScopeAndKeyHash sql_repo (cl_scope c) (cl_keyHash c) t of
                    (None, s3) \<Rightarrow> (Final (Error StoreUnavailable), s3)
                  | (Some None, s3) \<Rightarrow> (Final (Error StoreUnavailable), s3)
                  | (Some (Some latest), s3) \<Rightarrow>
                      if ir_Fingerprint latest \<noteq> cl_fingerprint c then (Final (Error KeyConflict), s3)
                      else decide_existing sql_repo cd c latest s3) = (x, t')"
  shows "run_pc (Suc n) (PGetLatest c) t = (case x of Own rid \<Rightarrow> PRun c rid | Final _ \<Rightarrow> PStopped c, t')"
    and "x = Own rid \<Longrightarrow> rid \<noteq> 0"
proof -
  obtain m where m: "n = Suc m" using n by (cases n) auto
  obtain r t1 where g: "sql_GetByScopeAndKeyHash (cl_scope c) (cl_keyHash c) t = (r, t1)" by fastforce
  have ids: "ir_ID y \<noteq> 0" if "r = Some (Some y)" for y
    using get_rows(3) [OF g that] row_ids [OF inv] by blast
  show "run_pc (Suc n) (PGetLatest c) t = (case x of Own rid \<Rightarrow> PRun c rid | Final _ \<Rightarrow> PStopped c, t')"
    using e ids unfolding m
    by (auto simp: sql_repo_sel g decide_machine simp del: run_pc.simps(2) simp: run_pc.simps(2) [of "Suc m"]
        split: option.splits if_splits)
  show "x = Own rid \<Longrightarrow> rid \<noteq> 0"
    using e ids by (auto simp: sql_repo_sel g split: option.splits if_splits dest: decide_own)
qed

lemma existing_machine:
  assumes inv: "table_inv t" and e: "claim_existing sql_repo cd c t = (x, t')"
  shows "run_pc 4 (PGet c) t = (case x of Own rid \<Rightarrow> PRun c rid | Final _ \<Rightarrow> PStopped c, t')"
    and "x = Own rid \<Longrightarrow> rid \<noteq> 0"
proof -
  obtain r t1 where g: "sql_GetByScopeAndKeyHash (cl_scope c) (cl_keyHash c) t = (r, t1)" by fastforce
  note same = get_rows(1,2) [OF g]
  have t1: "table_inv t1" using table_inv_cong [OF same] inv by simp
  have "run_pc 4 (PGet c) t = (case x of Own rid \<Rightarrow> PRun c rid | Final _ \<Rightarrow> PStopped c, t') \<and>
      (\<forall>rid. x = Own rid \<longrightarrow> rid \<noteq> 0)"
  proof (cases "\<exists>y. r = Some (Some y) \<and> ir_Fingerprint y = cl_fingerprint c")
    case False
    with g e show ?thesis
      by (auto simp: claim_existing_def sql_repo_sel run_4 split: option.splits if_splits)
  next
    case True
    then obtain y where y: "r = Some (Some y)" "ir_Fingerprint y = cl_fingerprint c" by blast
    have id0: "ir_ID y \<noteq> 0" using get_rows(3) [OF g y(1)] row_ids [OF inv] by blast
    show ?thesis
    proof (cases "ir_ExpiresAt y \<le> cl_now c")
      case False
      with g y e have d: "decide_existing sql_repo cd c y t1 = (x, t')"
        by (simp add: claim_existing_def sql_repo_sel)
      have "run_pc 4 (PGet c) t = run_pc (Suc (Suc (Suc 0))) (decide_pc c y) t1"
        using False g y by (simp add: run_4 numeral_3_eq_3 del: run_pc.simps(2))
      with decide_machine [OF d id0] decide_own [of cd c y t1 _ t'] d id0 show ?thesis by auto
    next
      case True
      obtain z t2 where z: "sql_TryReclaim (ir_ID y) (ir_Status y) (cl_now c) (cl_lockedUntil c) (cl_expiresAt c) t1 = (z, t2)"
        by fastforce
      have t2: "table_inv t2" by (rule reclaim_inv [OF t1 z])
      have start: "run_pc 4 (PGet c) t = (case pc_step (PReclaimExpired c y) t1 of (p', u) \<Rightarrow> run_pc (Suc (Suc 0)) p' u)"
        using True g y by (simp add: run_4 run_3 del: run_pc.simps(2))
      show ?thesis
      proof (cases "z = Some False")
        case False
        with True g y z e id0 start show ?thesis
          by (auto simp: claim_existing_def sql_repo_sel split: option.splits bool.splits)
      next
        case f: True
        have "run_pc 4 (PGet c) t = run_pc (Suc (Suc 0)) (PGetLatest c) t2"
          using f z start by simp
        moreover have "(case GetByScopeAndKeyHash sql_repo (cl_scope c) (cl_keyHash c) t2 of
                    (None, s3) \<Rightarrow> (Final (Error StoreUnavailable), s3)
                  | (Some None, s3) \<Rightarrow> (Final (Error StoreUnavailable), s3)
                  | (Some (Some latest), s3) \<Rightarrow>
                      if ir_Fingerprint latest \<noteq> cl_fingerprint c then (Final (Error KeyConflict), s3)
                      else decide_existing sql_repo cd c latest s3) = (x, t')"
          using f z e g y True by (simp add: claim_existing_def sql_repo_sel)
        from latest_machine [OF t2 _ this, of "Suc 0"]
        have "run_pc (Suc (Suc 0)) (PGetLatest c) t2 = (case x of Own rid \<Rightarrow> PRun c rid | Final _ \<Rightarrow> PStopped c, t')"
          and "x = Own rid \<Longrightarrow> rid \<noteq> 0" for rid by simp_all
        ultimately show ?thesis by auto
      qed
    qed
  qed
  then show "run_pc 4 (PGet c) t = (case x of Own rid \<Rightarrow> PRun c rid | Final _ \<Rightarrow> PStopped c, t')"
    and "x = Own rid \<Longrightarrow> rid \<noteq> 0" by blast+
qed

lemma claim_key_machine:
  assumes inv: "table_inv t" and c: "claim_key sql_repo cd c t = (x, t')"
  shows "run_pc 5 (PCreate c) t = (case x of Own rid \<Rightarrow> PRun c rid | Final _ \<Rightarrow> PStopped c, t')"
proof (cases "sql_CreateProcessing (claim_record c) t")
  case (Pair r t1)
  show ?thesis
  proof (cases "\<exists>rid. r = Some (Some rid)")
    case True
    then obtain rid where r: "r = Some (Some rid)" ..
    with create_pos(2) [OF inv, of "claim_record c"] Pair have "0 < rid" by blast
    with Pair r c show ?thesis by (auto simp: claim_key_def sql_repo_sel run_5)
  next
    case False
    note same = create_same [OF Pair, unfolded not_ex [symmetric], OF False]
    have t1: "table_inv t1" using table_inv_cong [OF same] inv by simp
    obtain y t2 where y: "claim_existing sql_repo cd c t1 = (y, t2)" by fastforce
    note m = existing_machine [OF t1 y]
    show ?thesis
    proof (cases r)
      case None
      with Pair c show ?thesis by (auto simp: claim_key_def sql_repo_sel run_5)
    next
      case (Some a)
      with False have "a = None" by auto
      with Some Pair c y m show ?thesis
        by (auto simp: claim_key_def sql_repo_sel run_5 split: claimed.splits)
    qed
  qed
qed

section \<open>The invariant is kept\<close>

text \<open>
  \<open>keeps A t t'\<close>: a call may change the rows with an id in \<open>A\<close>, not their scope and key, and
  add rows with new ids.
\<close>

definition keeps :: "int set \<Rightarrow> idem_table \<Rightarrow> idem_table \<Rightarrow> bool" where
  "keeps A t t' \<longleftrightarrow> it_next t \<le> it_next t' \<and>
     (\<forall>x \<in> set (it_rows t). ir_ID x \<notin> A \<longrightarrow> x \<in> set (it_rows t')) \<and>
     (\<forall>x \<in> set (it_rows t'). it_next t \<le> ir_ID x \<or>
        (\<exists>y \<in> set (it_rows t). ir_ID y = ir_ID x \<and> ir_Scope y = ir_Scope x \<and> ir_KeyHash y = ir_KeyHash x))"

lemma keeps_proc_ok:
  assumes "keeps A t t'" and "proc_ok now t pc" and "\<And>c i. pc = PRun c i \<Longrightarrow> i \<notin> A"
  shows "proc_ok now t' pc"
proof -
  have "snapshot_ok c r t'" if s: "snapshot_ok c r t" for c r
    unfolding snapshot_ok_def
  proof (intro conjI ballI impI)
    show "ir_ID r < it_next t'" using assms(1) s by (auto simp: keeps_def snapshot_ok_def)
    fix x
    assume "x \<in> set (it_rows t')" "ir_ID x = ir_ID r"
    then obtain y where "y \<in> set (it_rows t)" "ir_ID y = ir_ID x" "ir_Scope y = ir_Scope x" "ir_KeyHash y = ir_KeyHash x"
      using assms(1) s unfolding keeps_def snapshot_ok_def by (metis linorder_not_le)
    with s \<open>ir_ID x = ir_ID r\<close> show "ir_Scope x = cl_scope c" "ir_KeyHash x = cl_keyHash c"
      by (auto simp: snapshot_ok_def)
  qed
  moreover have "holds c i t'" if "pc = PRun c i" for c i
    using assms that unfolding keeps_def proc_ok_def holds_def by metis
  ultimately show ?thesis using assms(2) unfolding proc_ok_def by blast
qed

lemma keeps_same: "it_rows t' = it_rows t \<Longrightarrow> it_next t' = it_next t \<Longrightarrow> keeps A t t'"
  by (auto simp: keeps_def)

lemma keeps_create:
  assumes "table_inv t" and "sql_CreateProcessing r t = (x, t')"
  shows "keeps {} t t'" and "table_inv t'"
proof -
  have "keeps {} t t' \<and> table_inv t'"
  proof (cases "\<exists>rid. x = Some (Some rid)")
    case False
    then have "\<forall>rid. x \<noteq> Some (Some rid)" by blast
    note same = create_same [OF assms(2) this]
    show ?thesis using keeps_same [OF same] table_inv_cong [OF same] assms(1) by simp
  next
    case True
    obtain b u where w: "with_fault t = (b, u)" by fastforce
    note u = with_fault_rows [OF w]
    have n: "\<not> b" "\<not> list_ex (row_at (ir_Scope r) (ir_KeyHash r)) (it_rows u)"
      using True assms(2) w by (auto simp: sql_CreateProcessing_def split: if_splits)
    with w assms(2) have t': "t' = snd (sql_CreateProcessing r t)" by simp
    obtain z where z: "it_rows t' = it_rows t @ [z]" "ir_ID z = it_next t" "ir_Scope z = ir_Scope r"
      "ir_KeyHash z = ir_KeyHash r" "it_next t' = it_next t + 1"
      using w n u by (simp add: t' sql_CreateProcessing_def)
    have z6: "\<forall>y \<in> set (it_rows t). \<not> (ir_Scope y = ir_Scope z \<and> ir_KeyHash y = ir_KeyHash z)"
      using n(2) u z(3,4) by (simp add: list_ex_iff row_at_def)
    have "keeps {} t t'" by (auto simp: keeps_def z)
    moreover have "table_inv t'"
      unfolding table_inv_def z
    proof (intro conjI)
      show "distinct (map (\<lambda>r. (ir_Scope r, ir_KeyHash r)) (it_rows t @ [z]))"
        using assms(1) z6 by (auto simp: table_inv_def)
      show "distinct (map ir_ID (it_rows t @ [z]))" "0 < it_next t + 1"
        "\<forall>r \<in> set (it_rows t @ [z]). 0 < ir_ID r \<and> ir_ID r < it_next t + 1"
        using assms(1) z(2) by (auto simp: table_inv_def)
    qed
    ultimately show ?thesis ..
  qed
  then show "keeps {} t t'" and "table_inv t'" by auto
qed

lemma keeps_update:
  assumes "\<And>r. ir_Scope (f r) = ir_Scope r \<and> ir_KeyHash (f r) = ir_KeyHash r \<and> ir_ID (f r) = ir_ID r"
    and "\<And>r. P r \<Longrightarrow> ir_ID r = i"
  shows "keeps {i} t (snd (update_rows P f t))"
  using assms by (fastforce simp: keeps_def update_rows_def)

lemma update_after_fault:
  assumes "table_inv t" and "with_fault t = (b, u)"
    and "\<And>r. ir_Scope (f r) = ir_Scope r \<and> ir_KeyHash (f r) = ir_KeyHash r \<and> ir_ID (f r) = ir_ID r"
    and "\<And>r. P r \<Longrightarrow> ir_ID r = i"
  shows "keeps {i} t (snd (update_rows P f u))" and "table_inv (snd (update_rows P f u))"
    and "keeps {i} t u" and "table_inv u"
proof -
  note same = with_fault_rows [OF assms(2)]
  have "keeps {i} t' t'' = keeps {i} t t''" if "it_rows t' = it_rows t" "it_next t' = it_next t" for t' t''
    using that by (simp add: keeps_def)
  then show "keeps {i} t (snd (update_rows P f u))" using keeps_update [of f P i u] assms(3,4) same by blast
  show u: "table_inv u" using table_inv_cong same assms(1) by blast
  show "table_inv (snd (update_rows P f u))" by (rule update_rows_inv [OF u assms(3)])
  show "keeps {i} t u" using same keeps_same by blast
qed

lemma keeps_succeeded:
  assumes "table_inv t"
  shows "keeps {i} t (snd (sql_MarkSucceeded i code body e t))" and "table_inv (snd (sql_MarkSucceeded i code body e t))"
  using update_after_fault [OF assms _ succeeded_keys, of _ _ "\<lambda>r. ir_ID r = i" i]
  by (auto simp: sql_MarkSucceeded_def split: prod.splits)

lemma keeps_failed:
  assumes "table_inv t"
  shows "keeps {i} t (snd (sql_MarkFailedRetryable i reason l e t))" and "table_inv (snd (sql_MarkFailedRetryable i reason l e t))"
  using update_after_fault [OF assms _ failed_keys, of _ _ "\<lambda>r. ir_ID r = i" i]
  by (auto simp: sql_MarkFailedRetryable_def split: prod.splits)

lemma keeps_reclaim:
  assumes "sql_TryReclaim i st now l e t = (x, t')"
  shows "keeps (if x = Some True then {i} else {}) t t'"
proof (cases "x = Some True")
  case True
  have "keeps {i} t (snd (update_rows (reclaimable i st now) (reclaimed l e) t))"
    by (rule keeps_update [OF reclaimed_keys reclaimable_id])
  with True reclaim_rows(1,2) [OF assms] show ?thesis by (simp add: keeps_def update_rows_def)
qed (use reclaim_rows(1,2) [OF assms] keeps_same in auto)

lemma keeps_deleted:
  assumes inv: "table_inv t" and t': "t' = snd (sql_DeleteExpired now limit t)"
  shows "keeps {ir_ID x | x. x \<in> set (it_rows t) \<and> ir_ExpiresAt x \<le> now} t t'" and "table_inv t'"
proof -
  have sub: "\<exists>V. set V \<subseteq> {x \<in> set (it_rows t). ir_ExpiresAt x \<le> now} \<and> it_next t' = it_next t \<and>
      it_rows t' = filter (\<lambda>r. ir_ID r \<notin> ir_ID ` set V) (it_rows t)"
  proof (cases "with_fault t")
    case (Pair b u)
    define V where "V = take (nat (if limit \<le> 0 then 500 else limit))
      (sort_key ir_ExpiresAt (filter (\<lambda>r. ir_ExpiresAt r \<le> now) (it_rows t)))"
    have "set V \<subseteq> {x \<in> set (it_rows t). ir_ExpiresAt x \<le> now}"
      unfolding V_def by (rule order_trans [OF set_take_subset]) auto
    then show ?thesis
    proof (cases b)
      case True
      with Pair t' show ?thesis using with_fault_rows [OF Pair]
        by (intro exI [of _ "[]"]) (simp add: sql_DeleteExpired_def)
    next
      case False
      with Pair t' \<open>set V \<subseteq> _\<close> show ?thesis using with_fault_rows [OF Pair]
        by (intro exI [of _ V]) (simp add: sql_DeleteExpired_def V_def Let_def)
    qed
  qed
  then obtain V where V: "set V \<subseteq> {x \<in> set (it_rows t). ir_ExpiresAt x \<le> now}"
    "it_next t' = it_next t" "it_rows t' = filter (\<lambda>r. ir_ID r \<notin> ir_ID ` set V) (it_rows t)" by blast
  then show "keeps {ir_ID x | x. x \<in> set (it_rows t) \<and> ir_ExpiresAt x \<le> now} t t'"
    by (auto simp: keeps_def)
  show "table_inv t'" using inv V(2,3) by (auto simp: table_inv_def distinct_map_filter)
qed

text \<open>What a call of a request may do to the others: it changes at most the row whose lock ended,
  and if it does it runs on that row.\<close>

definition call_ok :: "instant \<Rightarrow> idem_table \<Rightarrow> pc \<Rightarrow> idem_table \<Rightarrow> bool" where
  "call_ok now t pc' t' \<longleftrightarrow> table_inv t' \<and> proc_ok now t' pc' \<and>
     (\<exists>A. keeps A t t' \<and> (\<forall>i \<in> A. \<exists>c. pc' = PRun c i) \<and>
       (\<forall>c i d. pc' = PRun c i \<and> holds d i t \<longrightarrow> cl_lockedUntil d \<le> now))"

definition in_time :: "instant \<Rightarrow> claim \<Rightarrow> bool" where
  "in_time now c \<longleftrightarrow> cl_now c \<le> now \<and> now < cl_lockedUntil c \<and> now < cl_expiresAt c"

lemma call_ok_same:
  assumes "table_inv t" and "it_rows t' = it_rows t" and "it_next t' = it_next t"
    and "proc_ok now t pc'" and "\<And>c i. pc' \<noteq> PRun c i"
  shows "call_ok now t pc' t'"
proof -
  have k: "keeps {} t t'" by (rule keeps_same [OF assms(2,3)])
  have "proc_ok now t' pc'" by (rule keeps_proc_ok [OF k assms(4)]) simp
  with k assms show ?thesis unfolding call_ok_def using table_inv_cong [OF assms(2,3)] by blast
qed

lemma snapshot_row:
  assumes "table_inv t" and "x \<in> set (it_rows t)" and "ir_Scope x = cl_scope c" and "ir_KeyHash x = cl_keyHash c"
  shows "snapshot_ok c x t"
proof -
  have "y = x" if "y \<in> set (it_rows t)" "ir_ID y = ir_ID x" for y
    using assms(1,2) that by (auto simp: table_inv_def distinct_map inj_on_def)
  moreover have "ir_ID x < it_next t" using assms(1,2) by (auto simp: table_inv_def)
  ultimately show ?thesis using assms(3,4) unfolding snapshot_ok_def by blast
qed

lemma stopped_ok [simp]: "proc_ok now t (PStopped c)"
  by (simp add: proc_ok_def active_def)

lemma get_ok [simp]: "in_time now c \<Longrightarrow> proc_ok now t (PGet c)" "in_time now c \<Longrightarrow> proc_ok now t (PGetLatest c)"
  by (simp_all add: proc_ok_def in_time_def)

lemma decide_ok: "in_time now c \<Longrightarrow> snapshot_ok c r t \<Longrightarrow> proc_ok now t (decide_pc c r)"
  "in_time now c \<Longrightarrow> snapshot_ok c r t \<Longrightarrow> proc_ok now t (PReclaimExpired c r)"
  by (simp_all add: decide_pc_def proc_ok_def in_time_def)

lemma create_call_ok:
  assumes inv: "table_inv t" and c: "in_time now c" and s: "pc_step (PCreate c) t = (pc', t')"
  shows "call_ok now t pc' t'"
proof (cases "sql_CreateProcessing (claim_record c) t")
  case (Pair x u)
  have u: "u = t'" using s Pair by (auto split: option.splits)
  show ?thesis
  proof (cases "\<exists>rid. x = Some (Some rid)")
    case False
    then have "\<forall>rid. x \<noteq> Some (Some rid)" by blast
    note same = create_same [OF Pair this]
    have "pc' = PGet c \<or> pc' = PStopped c" using s Pair False by (auto split: option.splits)
    with c show ?thesis using call_ok_same [OF inv same, of now pc'] u by auto
  next
    case True
    then obtain rid where x: "x = Some (Some rid)" ..
    note k = keeps_create [OF inv Pair]
    have rid: "rid = it_next t" using create_pos(1) [OF inv, of "claim_record c"] Pair x by blast
    have pc': "pc' = PRun c rid" using s Pair x by simp
    have "holds c rid u"
      using Pair x rid by (auto simp: sql_CreateProcessing_def holds_def claim_record_def split: prod.splits if_splits)
    with c have "proc_ok now u pc'" by (simp add: pc' proc_ok_def in_time_def)
    moreover have "\<not> holds d rid t" for d using inv rid by (auto simp: holds_def table_inv_def)
    ultimately show ?thesis using k unfolding call_ok_def pc' u by blast
  qed
qed

lemma get_call_ok:
  assumes inv: "table_inv t" and c: "in_time now c"
    and s: "pc_step pc t = (pc', t')" and pc: "pc = PGet c \<or> pc = PGetLatest c"
  shows "call_ok now t pc' t'"
proof (cases "sql_GetByScopeAndKeyHash (cl_scope c) (cl_keyHash c) t")
  case (Pair x u)
  note same = get_rows(1,2) [OF Pair]
  have u: "u = t'" using s Pair pc by (auto split: option.splits)
  have "proc_ok now t pc' \<and> (\<forall>d i. pc' \<noteq> PRun d i)"
  proof (cases "\<exists>r. x = Some (Some r)")
    case True
    then obtain r where x: "x = Some (Some r)" ..
    have "snapshot_ok c r t"
      using get_rows(3) [OF Pair x] by (intro snapshot_row [OF inv]) auto
    with decide_ok [OF c this] s Pair x pc show ?thesis by (auto simp: decide_pc_def split: if_splits)
  qed (use s Pair pc in \<open>auto split: option.splits\<close>)
  then show ?thesis using call_ok_same [OF inv same] u by blast
qed

lemma reclaim_call_ok:
  assumes inv: "table_inv t" and c: "in_time now c" and snap: "snapshot_ok c r t"
    and t: "sql_TryReclaim (ir_ID r) st (cl_now c) (cl_lockedUntil c) (cl_expiresAt c) t = (Some True, t')"
  shows "call_ok now t (PRun c (ir_ID r)) t'"
proof -
  obtain x where x: "x \<in> set (it_rows t)" "reclaimable (ir_ID r) st (cl_now c) x"
    using reclaim_rows(3) [OF t] by auto
  have one: "y = x" if "y \<in> set (it_rows t)" "ir_ID y = ir_ID r" for y
    using inv x that reclaimable_id [OF x(2)] by (auto simp: table_inv_def distinct_map inj_on_def)
  have "reclaimed (cl_lockedUntil c) (cl_expiresAt c) x \<in> set (it_rows t')"
    using reclaim_rows(2) [OF t] x by (auto intro: rev_image_eqI)
  moreover have "ir_Scope x = cl_scope c \<and> ir_KeyHash x = cl_keyHash c"
    using snap x reclaimable_id [OF x(2)] by (simp add: snapshot_ok_def)
  ultimately have "holds c (ir_ID r) t'"
    using reclaimable_id [OF x(2)] unfolding holds_def
    by (intro bexI [of _ "reclaimed (cl_lockedUntil c) (cl_expiresAt c) x"]) (auto simp: reclaimed_def)
  then have "proc_ok now t' (PRun c (ir_ID r))" using c by (simp add: proc_ok_def in_time_def)
  moreover have "cl_lockedUntil d \<le> now" if "holds d (ir_ID r) t" for d
    using that one x(2) c by (auto simp: holds_def reclaimable_def in_time_def)
  moreover have "keeps {ir_ID r} t t'" using keeps_reclaim [OF t] by simp
  ultimately show ?thesis using reclaim_inv [OF inv t] unfolding call_ok_def by blast
qed

lemma pc_step_ok:
  assumes inv: "table_inv t" and ok: "proc_ok now t pc" and a: "active pc" and s: "pc_step pc t = (pc', t')"
    and run: "\<And>c i. pc \<noteq> PRun c i"
  shows "call_ok now t pc' t'"
proof -
  have c: "in_time now (claim_of pc)" using ok a by (simp add: proc_ok_def in_time_def)
  have rec: "call_ok now t pc' t'"
    if pc: "snapshot_ok (claim_of pc) r t" "sql_TryReclaim (ir_ID r) st (cl_now (claim_of pc)) (cl_lockedUntil (claim_of pc))
        (cl_expiresAt (claim_of pc)) t = (x, t')"
      and x: "x = Some True \<longrightarrow> pc' = PRun (claim_of pc) (ir_ID r)"
        "x \<noteq> Some True \<longrightarrow> pc' = PGetLatest (claim_of pc) \<or> pc' = PStopped (claim_of pc)" for r st x
  proof (cases "x = Some True")
    case True
    with reclaim_call_ok [OF inv c pc(1)] pc(2) x show ?thesis by simp
  next
    case False
    have "it_rows t' = it_rows t" "it_next t' = it_next t" using reclaim_rows(1,2) [OF pc(2)] False by simp_all
    from call_ok_same [OF inv this, of now pc'] x(2) False c show ?thesis by auto
  qed
  show ?thesis
  proof (cases pc)
    case (PCreate d)
    with create_call_ok [OF inv] c s show ?thesis by simp
  next
    case (PGet d)
    with get_call_ok [OF inv c s] show ?thesis by simp
  next
    case (PGetLatest d)
    with get_call_ok [OF inv c s] show ?thesis by simp
  next
    case (PReclaimExpired d r)
    with ok s rec [of r "ir_Status r"] show ?thesis
      by (auto simp: proc_ok_def split: prod.splits option.splits bool.splits)
  next
    case (PReclaimFailed d r)
    with ok s rec [of r FailedRetryable] show ?thesis
      by (auto simp: proc_ok_def split: prod.splits option.splits bool.splits)
  qed (use a run in \<open>auto simp: active_def\<close>)
qed

lemma race_inv_update:
  assumes inv: "race_inv s" and t': "table_inv t'" and k: "keeps A (rc_table s) t'"
    and free: "\<And>q d i. q \<noteq> p \<Longrightarrow> rc_procs s q = Some (PRun d i) \<Longrightarrow> i \<notin> A"
    and ok: "proc_ok (rc_time s) t' pc'"
    and run: "\<And>q c d i. pc' = PRun c i \<Longrightarrow> q \<noteq> p \<Longrightarrow> rc_procs s q \<noteq> Some (PRun d i)"
  shows "race_inv (s\<lparr>rc_procs := (rc_procs s)(p \<mapsto> pc'), rc_table := t'\<rparr>)"
proof -
  have "proc_ok (rc_time s) t' pc" if q: "q \<noteq> p" "rc_procs s q = Some pc" for q pc
  proof (rule keeps_proc_ok [OF k])
    show "proc_ok (rc_time s) (rc_table s) pc" using inv q(2) by (simp add: race_inv_def)
  qed (use free q in blast)
  then show ?thesis
    using inv t' ok run unfolding race_inv_def by (auto split: if_splits)
qed

lemma running_locked:
  assumes "race_inv s" and "rc_procs s q = Some (PRun d i)"
  shows "holds d i (rc_table s)" and "rc_time s < cl_lockedUntil d" and "rc_time s < cl_expiresAt d"
proof -
  have "proc_ok (rc_time s) (rc_table s) (PRun d i)" using assms by (auto simp: race_inv_def)
  then show "holds d i (rc_table s)" and "rc_time s < cl_lockedUntil d" and "rc_time s < cl_expiresAt d"
    by (auto simp: proc_ok_def active_def)
qed

lemma race_step_inv:
  assumes step: "race_step timeout s s'" and inv: "race_inv s"
  shows "race_inv s'"
  using step
proof cases
  case (start p c)
  have "race_inv (s\<lparr>rc_procs := (rc_procs s)(p \<mapsto> PCreate c), rc_table := rc_table s\<rparr>)"
    by (rule race_inv_update [OF inv, where A = "{}"])
      (use inv start in \<open>auto simp: race_inv_def proc_ok_def intro: keeps_same\<close>)
  with start(1) show ?thesis by simp
next
  case (call p pc pc' t')
  show ?thesis
  proof (cases "active pc \<and> (\<forall>c i. pc \<noteq> PRun c i)")
    case False
    then have "pc' = pc" "t' = rc_table s" using call(3) by (auto simp: active_def)
    with call have "s' = s" by (simp add: fun_upd_idem)
    with inv show ?thesis by simp
  next
    case True
    have "call_ok (rc_time s) (rc_table s) pc' t'"
      using True call inv by (intro pc_step_ok [where pc = pc]) (auto simp: race_inv_def)
    then obtain A where k: "table_inv t'" "proc_ok (rc_time s) t' pc'" "keeps A (rc_table s) t'"
      "\<forall>i \<in> A. \<exists>c. pc' = PRun c i"
      "\<forall>c i d. pc' = PRun c i \<and> holds d i (rc_table s) \<longrightarrow> cl_lockedUntil d \<le> rc_time s"
      unfolding call_ok_def by blast
    have not: "rc_procs s q \<noteq> Some (PRun d i)" if "pc' = PRun c i" for q c d i
      using running_locked(1,2) [OF inv, of q d i] k(5) that by fastforce
    have "i \<notin> A" if "rc_procs s q = Some (PRun d i)" for q d i
      using k(4) not that by blast
    with not show ?thesis unfolding call(1) by (intro race_inv_update [OF inv k(1,3) _ k(2)]) auto
  qed
next
  case (succeed p c rid body)
  have t: "table_inv (rc_table s)" using inv by (simp add: race_inv_def)
  have "\<And>q d i. q \<noteq> p \<Longrightarrow> rc_procs s q = Some (PRun d i) \<Longrightarrow> i \<notin> {rid}"
    using inv succeed(2) unfolding race_inv_def by blast
  then show ?thesis unfolding succeed(1)
    by (intro race_inv_update [OF inv keeps_succeeded(2,1) [OF t]]) (auto simp: proc_ok_def active_def)
next
  case (fail p c rid reason l)
  have t: "table_inv (rc_table s)" using inv by (simp add: race_inv_def)
  have "\<And>q d i. q \<noteq> p \<Longrightarrow> rc_procs s q = Some (PRun d i) \<Longrightarrow> i \<notin> {rid}"
    using inv fail(2) unfolding race_inv_def by blast
  then show ?thesis unfolding fail(1)
    by (intro race_inv_update [OF inv keeps_failed(2,1) [OF t]]) auto
next
  case (cleanup limit)
  have t: "table_inv (rc_table s)" using inv by (simp add: race_inv_def)
  note k = keeps_deleted [OF t refl, of "rc_time s" limit]
  have "proc_ok (rc_time s) (snd (sql_DeleteExpired (rc_time s) limit (rc_table s))) pc"
    if p: "rc_procs s p = Some pc" for p pc
  proof (rule keeps_proc_ok [OF k(1)])
    show "proc_ok (rc_time s) (rc_table s) pc" using inv p by (simp add: race_inv_def)
    fix c i
    assume "pc = PRun c i"
    with p have h: "holds c i (rc_table s)" "rc_time s < cl_expiresAt c" using running_locked [OF inv] by blast+
    then obtain x where x: "x \<in> set (it_rows (rc_table s))" "ir_ID x = i" "rc_time s < ir_ExpiresAt x"
      by (auto simp: holds_def)
    have "y = x" if "y \<in> set (it_rows (rc_table s))" "ir_ID y = i" for y
      using t that x by (auto simp: table_inv_def distinct_map inj_on_def)
    with x(3) show "i \<notin> {ir_ID x | x. x \<in> set (it_rows (rc_table s)) \<and> ir_ExpiresAt x \<le> rc_time s}"
      by fastforce
  qed
  with k(2) inv show ?thesis unfolding cleanup race_inv_def by simp
next
  case (tick t)
  have "proc_ok t (rc_table s) pc" if "rc_procs s p = Some pc" for p pc
  proof -
    have "proc_ok (rc_time s) (rc_table s) pc" using inv that by (simp add: race_inv_def)
    moreover have "active pc \<longrightarrow> t < cl_lockedUntil (claim_of pc) \<and> t < cl_expiresAt (claim_of pc)"
      using tick(3) that unfolding timely_def by blast
    ultimately show ?thesis using tick(2) by (auto simp: proc_ok_def)
  qed
  with inv show ?thesis unfolding tick(1) race_inv_def by simp
qed

lemma race_reach_inv:
  assumes "race_reach timeout s0 s" and "race_inv s0"
  shows "race_inv s"
  using assms by induction (auto intro: race_step_inv)

section \<open>Properties\<close>

text \<open>C5. Mutual exclusion: from an idle state of any table of records, through every
  interleaving of requests, clean-up and storage errors in which executors finish before their
  locks end, two requests that execute at the same time do so under different records, with
  different keys.\<close>

theorem race_exclusive:
  assumes "idle s0" and "table_inv (rc_table s0)" and "race_reach timeout s0 s" and "p \<noteq> q"
    and "rc_procs s p = Some (PRun c i)" and "rc_procs s q = Some (PRun d j)"
  shows "i \<noteq> j \<and> (cl_scope c, cl_keyHash c) \<noteq> (cl_scope d, cl_keyHash d)"
proof -
  have "race_inv s0" using assms(1,2) by (simp add: idle_def race_inv_def)
  from race_reach_inv [OF assms(3) this] have inv: "race_inv s" .
  then have ij: "i \<noteq> j" using assms(4-6) by (auto simp: race_inv_def)
  moreover have "table_inv (rc_table s)" using inv by (simp add: race_inv_def)
  then have "i = j" if "cl_scope c = cl_scope d" "cl_keyHash c = cl_keyHash d"
    using running_locked(1) [OF inv assms(5)] running_locked(1) [OF inv assms(6)] that
    by (auto simp: holds_def table_inv_def distinct_map inj_on_def)
  ultimately show ?thesis by auto
qed

text \<open>Two runs, given by their states.\<close>

abbreviation race_at :: "IdempotencyRecord list \<Rightarrow> int \<Rightarrow> (nat \<Rightarrow> pc option) \<Rightarrow> race" where
  "race_at rows n procs \<equiv> \<lparr>rc_table = \<lparr>it_rows = rows, it_next = n, it_faults = []\<rparr>, rc_procs = procs, rc_time = 10\<rparr>"

definition at_claim :: "string \<Rightarrow> claim" where
  "at_claim key = \<lparr>cl_scope = ''pay'', cl_keyHash = key, cl_fingerprint = ''fp'', cl_now = 10,
     cl_lockedUntil = 10 + seconds 30, cl_expiresAt = 10 + hours 24\<rparr>"

definition claimed_row :: "string \<Rightarrow> int \<Rightarrow> IdempotencyRecord" where
  "claimed_row key i = (claim_record (at_claim key))\<lparr>ir_ID := i\<rparr>"

definition expired_row :: IdempotencyRecord where
  "expired_row = \<lparr>ir_ID = 1, ir_Scope = ''pay'', ir_KeyHash = ''k'', ir_Fingerprint = ''fp'', ir_Status = Succeeded,
     ir_ResponseStatus = Some 200, ir_ResponseBody = Some ''{}'', ir_ErrorReason = None, ir_LockedUntil = None,
     ir_ExpiresAt = 10\<rparr>"

lemma reach_start:
  assumes "race_reach (seconds 30) s0 (race_at rows n f)" and "f p = None"
  shows "race_reach (seconds 30) s0 (race_at rows n (f(p \<mapsto> PCreate (at_claim key))))"
  using race_reach.step [OF assms(1) race_step.start [where p = p and c = "at_claim key"]] assms(2)
  by (simp add: at_claim_def)

lemma reach_call:
  assumes "race_reach T s0 (race_at rows n f)" and "f p = Some pc"
    and "pc_step pc \<lparr>it_rows = rows, it_next = n, it_faults = []\<rparr> = (pc', \<lparr>it_rows = rows', it_next = n', it_faults = []\<rparr>)"
  shows "race_reach T s0 (race_at rows' n' (f(p \<mapsto> pc')))"
  using race_reach.step [OF assms(1) race_step.call [where p = p and pc = pc and pc' = pc']] assms(2,3) by simp

lemmas call_simps = at_claim_def claimed_row_def expired_row_def claim_record_def sql_CreateProcessing_def
  sql_GetByScopeAndKeyHash_def sql_TryReclaim_def with_fault_def row_at_def update_rows_def reclaimable_def
  reclaimed_def

lemma race_exclusive_witness:
  "\<exists>s c d. race_reach (seconds 30) (race_at [] 2 Map.empty) s \<and> rc_procs s 0 = Some (PRun c 2) \<and>
     rc_procs s 1 = Some (PRun d 3) \<and> (2 :: int) \<noteq> 3 \<and> (cl_scope c, cl_keyHash c) \<noteq> (cl_scope d, cl_keyHash d)"
proof -
  let ?c = "at_claim ''k''" and ?d = "at_claim ''l''"
  let ?s = "race_at [claimed_row ''k'' 2, claimed_row ''l'' 3] 4 [0 \<mapsto> PRun ?c 2, 1 \<mapsto> PRun ?d 3]"
  let ?T = "race_reach (seconds 30) (race_at [] 2 Map.empty)"
  have r1: "?T (race_at [] 2 [0 \<mapsto> PCreate ?c])"
    by (rule reach_start [OF race_reach.init]) simp
  have r2: "?T (race_at [claimed_row ''k'' 2] 3 [0 \<mapsto> PRun ?c 2])"
    using reach_call [OF r1, of 0 "PCreate ?c" "PRun ?c 2"] by (simp add: call_simps)
  have r3: "?T (race_at [claimed_row ''k'' 2] 3 [0 \<mapsto> PRun ?c 2, 1 \<mapsto> PCreate ?d])"
    by (rule reach_start [OF r2]) simp
  have "?T ?s"
    using reach_call [OF r3, of 1 "PCreate ?d" "PRun ?d 3"] by (simp add: call_simps)
  moreover have "idle (race_at [] 2 Map.empty)" "table_inv (rc_table (race_at [] 2 Map.empty))"
    by (simp_all add: idle_def table_inv_def)
  moreover have "rc_procs ?s 0 = Some (PRun ?c 2)" "rc_procs ?s 1 = Some (PRun ?d 3)" "(0 :: nat) \<noteq> 1" by simp_all
  ultimately have "?T ?s \<and> rc_procs ?s 0 = Some (PRun ?c 2) \<and> rc_procs ?s 1 = Some (PRun ?d 3) \<and>
      (2 :: int) \<noteq> 3 \<and> (cl_scope ?c, cl_keyHash ?c) \<noteq> (cl_scope ?d, cl_keyHash ?d)"
    using race_exclusive [of "race_at [] 2 Map.empty" "seconds 30" ?s 0 1 ?c 2 ?d 3] by metis
  then show ?thesis by blast
qed

text \<open>C6. At the end of a lifetime a request can be executed twice: a request that read the
  expired record reclaims it by its id and old status, also when another request with the same
  key and payload has reclaimed the record, executed and succeeded in the meantime, so that both
  execute although the second starts within the lifetime that the first one stored.\<close>

theorem race_reexecutes:
  "\<exists>s0 s c d. idle s0 \<and> table_inv (rc_table s0) \<and> table_up (rc_table s0) \<and> race_reach (seconds 30) s0 s \<and>
     rc_procs s 1 = Some (PSucceeded d) \<and> rc_procs s 0 = Some (PRun c 1) \<and>
     cl_scope c = cl_scope d \<and> cl_keyHash c = cl_keyHash d \<and> cl_fingerprint c = cl_fingerprint d \<and>
     rc_time s < cl_expiresAt d"
proof -
  let ?c = "at_claim ''k''"
  let ?s0 = "race_at [expired_row] 2 Map.empty"
  let ?T = "race_reach (seconds 30) ?s0"
  let ?done = "succeeded 200 ''{}'' (cl_expiresAt ?c) (reclaimed (cl_lockedUntil ?c) (cl_expiresAt ?c) expired_row)"
  have r1: "?T (race_at [expired_row] 2 [0 \<mapsto> PCreate ?c])"
    by (rule reach_start [OF race_reach.init]) simp
  have r2: "?T (race_at [expired_row] 2 [0 \<mapsto> PGet ?c])"
    using reach_call [OF r1, of 0 "PCreate ?c" "PGet ?c"] by (simp add: call_simps)
  have r3: "?T (race_at [expired_row] 2 [0 \<mapsto> PReclaimExpired ?c expired_row])"
    using reach_call [OF r2, of 0 "PGet ?c" "PReclaimExpired ?c expired_row"] by (simp add: call_simps)
  have r4: "?T (race_at [expired_row] 2 [0 \<mapsto> PReclaimExpired ?c expired_row, 1 \<mapsto> PCreate ?c])"
    by (rule reach_start [OF r3]) simp
  have r5: "?T (race_at [expired_row] 2 [0 \<mapsto> PReclaimExpired ?c expired_row, 1 \<mapsto> PGet ?c])"
    using reach_call [OF r4, of 1 "PCreate ?c" "PGet ?c"] by (simp add: call_simps)
  have r6: "?T (race_at [expired_row] 2 [0 \<mapsto> PReclaimExpired ?c expired_row, 1 \<mapsto> PReclaimExpired ?c expired_row])"
    using reach_call [OF r5, of 1 "PGet ?c" "PReclaimExpired ?c expired_row"] by (simp add: call_simps)
  have r7: "?T (race_at [reclaimed (cl_lockedUntil ?c) (cl_expiresAt ?c) expired_row] 2
      [0 \<mapsto> PReclaimExpired ?c expired_row, 1 \<mapsto> PRun ?c 1])"
    using reach_call [OF r6, of 1 "PReclaimExpired ?c expired_row" "PRun ?c 1"] by (simp add: call_simps)
  have r8: "?T (race_at [?done] 2 [0 \<mapsto> PReclaimExpired ?c expired_row, 1 \<mapsto> PSucceeded ?c])"
    using race_reach.step [OF r7 race_step.succeed [where p = 1 and c = ?c and rid = 1 and body = "''{}''"]]
    by (simp add: sql_MarkSucceeded_def call_simps)
  have r9: "?T (race_at [reclaimed (cl_lockedUntil ?c) (cl_expiresAt ?c) ?done] 2 [0 \<mapsto> PRun ?c 1, 1 \<mapsto> PSucceeded ?c])"
    using reach_call [OF r8, of 0 "PReclaimExpired ?c expired_row" "PRun ?c 1"]
    by (simp add: call_simps succeeded_def fun_upd_twist)
  have "idle ?s0" "table_inv (rc_table ?s0)" "table_up (rc_table ?s0)"
    by (simp_all add: idle_def table_inv_def table_up_def expired_row_def)
  with r9 show ?thesis
    by (intro exI [of _ ?s0] exI [of _ "race_at [reclaimed (cl_lockedUntil ?c) (cl_expiresAt ?c) ?done] 2
        [0 \<mapsto> PRun ?c 1, 1 \<mapsto> PSucceeded ?c]"] exI [of _ ?c] conjI) (auto simp: at_claim_def)
qed

end
