(* ===== verification/AnthropicStream.thy ===== *)
theory AnthropicStream
  imports GoPrelude "HOL-Library.AList"
begin

text \<open>
  Conversion of upstream responses (the Responses API) into Anthropic messages
  (\<open>backend/internal/pkg/apicompat/responses_to_anthropic.go\<close>, with the types of \<open>types.go\<close>):
  a whole response at once, and the stateful conversion of a stream of events.

  The records hold the fields that the converter reads or writes; a pointer is an option, and
  the pointers to a copied index are the index. Raw JSON is its text. The JSON functions of the
  standard library that the converter calls on the arguments of a tool are the parameter
  \<open>json_lib\<close>. A handler maps the event and the state to the events sent and the new state.
\<close>

section \<open>Types\<close>

record json_lib =
  js_object :: "string \<Rightarrow> (string \<times> string) list option"
  js_marshal :: "(string \<times> string) list \<Rightarrow> string option"
  js_query :: "string \<Rightarrow> string"

record AnthropicContentBlock =
  cb_Type :: string
  cb_Text :: string
  cb_Thinking :: string
  cb_ID :: string
  cb_Name :: string
  cb_Input :: string
  cb_ToolUseID :: string
  cb_Content :: string

definition zero_block :: AnthropicContentBlock where
  "zero_block = \<lparr>cb_Type = '''', cb_Text = '''', cb_Thinking = '''', cb_ID = '''', cb_Name = '''', cb_Input = '''',
     cb_ToolUseID = '''', cb_Content = ''''\<rparr>"

record AnthropicUsage =
  au_InputTokens :: int
  au_OutputTokens :: int
  au_CacheCreationInputTokens :: int
  au_CacheReadInputTokens :: int

definition zero_usage :: AnthropicUsage where
  "zero_usage = \<lparr>au_InputTokens = 0, au_OutputTokens = 0, au_CacheCreationInputTokens = 0, au_CacheReadInputTokens = 0\<rparr>"

record AnthropicResponse =
  ar_ID :: string
  ar_Type :: string
  ar_Role :: string
  ar_Content :: "AnthropicContentBlock list"
  ar_Model :: string
  ar_StopReason :: string
  ar_Usage :: AnthropicUsage

record AnthropicDelta =
  ad_Type :: string
  ad_Text :: string
  ad_PartialJSON :: string
  ad_Thinking :: string
  ad_StopReason :: string

definition zero_delta :: AnthropicDelta where
  "zero_delta = \<lparr>ad_Type = '''', ad_Text = '''', ad_PartialJSON = '''', ad_Thinking = '''', ad_StopReason = ''''\<rparr>"

record AnthropicStreamEvent =
  ae_Type :: string
  ae_Message :: "AnthropicResponse option"
  ae_Index :: "int option"
  ae_ContentBlock :: "AnthropicContentBlock option"
  ae_Delta :: "AnthropicDelta option"
  ae_Usage :: "AnthropicUsage option"

definition zero_event :: AnthropicStreamEvent where
  "zero_event = \<lparr>ae_Type = '''', ae_Message = None, ae_Index = None, ae_ContentBlock = None, ae_Delta = None, ae_Usage = None\<rparr>"

record ResponsesContentPart =
  rp_Type :: string
  rp_Text :: string

record ResponsesSummary =
  rs_Type :: string
  rs_Text :: string

record ResponsesOutput =
  ro_Type :: string
  ro_ID :: string
  ro_Content :: "ResponsesContentPart list"
  ro_Status :: string
  ro_Summary :: "ResponsesSummary list"
  ro_CallID :: string
  ro_Name :: string
  ro_Arguments :: string
  ro_Action :: "string option"

record ResponsesUsage =
  ru_InputTokens :: int
  ru_OutputTokens :: int
  ru_CachedTokens :: "int option"

record ResponsesResponse =
  rr_ID :: string
  rr_Model :: string
  rr_Status :: string
  rr_Output :: "ResponsesOutput list"
  rr_Usage :: "ResponsesUsage option"
  rr_IncompleteDetails :: "string option"

record ResponsesStreamEvent =
  re_Type :: string
  re_Response :: "ResponsesResponse option"
  re_Item :: "ResponsesOutput option"
  re_OutputIndex :: int
  re_Delta :: string
  re_Arguments :: string

section \<open>A whole response\<close>

definition fromResponsesCallID :: "string \<Rightarrow> string" where
  "fromResponsesCallID i =
     (case CutPrefix i ''fc_'' of
        None \<Rightarrow> i
      | Some after \<Rightarrow> if HasPrefix after ''toolu_'' \<or> HasPrefix after ''call_'' then after else i)"

definition toResponsesCallID :: "string \<Rightarrow> string" where
  "toResponsesCallID i = (if HasPrefix i ''fc_'' then i else ''fc_'' @ i)"

definition sanitizeAnthropicToolUseInput :: "json_lib \<Rightarrow> string \<Rightarrow> string \<Rightarrow> string" where
  "sanitizeAnthropicToolUseInput js name raw =
     (if name \<noteq> ''Read'' \<or> raw = '''' then raw
      else case js_object js raw of
             None \<Rightarrow> raw
           | Some input \<Rightarrow>
               if map_of input ''pages'' \<noteq> Some ''\"\"'' then raw
               else (case js_marshal js (AList.delete ''pages'' input) of None \<Rightarrow> raw | Some s \<Rightarrow> s))"

definition summary_text :: "ResponsesOutput \<Rightarrow> string" where
  "summary_text item = concat (map rs_Text (filter (\<lambda>s. rs_Type s = ''summary_text'' \<and> rs_Text s \<noteq> '''') (ro_Summary item)))"

definition web_search_blocks :: "json_lib \<Rightarrow> ResponsesOutput \<Rightarrow> AnthropicContentBlock list" where
  "web_search_blocks js item =
     (let toolUseID = ''srvtoolu_'' @ ro_ID item;
          query = (case ro_Action item of None \<Rightarrow> '''' | Some q \<Rightarrow> q)
      in [zero_block\<lparr>cb_Type := ''server_tool_use'', cb_ID := toolUseID, cb_Name := ''web_search'', cb_Input := js_query js query\<rparr>,
          zero_block\<lparr>cb_Type := ''web_search_tool_result'', cb_ToolUseID := toolUseID, cb_Content := ''[]''\<rparr>])"

definition item_blocks :: "json_lib \<Rightarrow> ResponsesOutput \<Rightarrow> AnthropicContentBlock list" where
  "item_blocks js item =
     (if ro_Type item = ''reasoning'' then
        (let text = summary_text item
         in if text \<noteq> '''' then [zero_block\<lparr>cb_Type := ''thinking'', cb_Thinking := text\<rparr>] else [])
      else if ro_Type item = ''message'' then
        map (\<lambda>p. zero_block\<lparr>cb_Type := ''text'', cb_Text := rp_Text p\<rparr>)
          (filter (\<lambda>p. rp_Type p = ''output_text'' \<and> rp_Text p \<noteq> '''') (ro_Content item))
      else if ro_Type item = ''function_call'' then
        [zero_block\<lparr>cb_Type := ''tool_use'', cb_ID := fromResponsesCallID (ro_CallID item), cb_Name := ro_Name item,
           cb_Input := sanitizeAnthropicToolUseInput js (ro_Name item) (ro_Arguments item)\<rparr>]
      else if ro_Type item = ''web_search_call'' then web_search_blocks js item
      else [])"

definition anthropicUsageFromResponsesUsage :: "ResponsesUsage option \<Rightarrow> AnthropicUsage" where
  "anthropicUsageFromResponsesUsage usage0 =
     (case usage0 of
        None \<Rightarrow> zero_usage
      | Some usage \<Rightarrow>
          let cachedTokens = (case ru_CachedTokens usage of None \<Rightarrow> 0 | Some n \<Rightarrow> n);
              inputTokens = ru_InputTokens usage - cachedTokens
          in zero_usage\<lparr>au_InputTokens := if inputTokens < 0 then 0 else inputTokens,
               au_OutputTokens := ru_OutputTokens usage, au_CacheReadInputTokens := cachedTokens\<rparr>)"

definition responsesStatusToAnthropicStopReason :: "string \<Rightarrow> string option \<Rightarrow> AnthropicContentBlock list \<Rightarrow> string" where
  "responsesStatusToAnthropicStopReason status details blocks =
     (if status = ''incomplete'' then
        (if details = Some ''max_output_tokens'' then ''max_tokens'' else ''end_turn'')
      else if status = ''completed'' then
        (if blocks \<noteq> [] \<and> cb_Type (last blocks) = ''tool_use'' then ''tool_use'' else ''end_turn'')
      else ''end_turn'')"

definition ResponsesToAnthropic :: "json_lib \<Rightarrow> ResponsesResponse \<Rightarrow> string \<Rightarrow> AnthropicResponse" where
  "ResponsesToAnthropic js resp model =
     (let blocks0 = concat (map (item_blocks js) (rr_Output resp));
          blocks = (if blocks0 = [] then [zero_block\<lparr>cb_Type := ''text'', cb_Text := ''''\<rparr>] else blocks0)
      in \<lparr>ar_ID = rr_ID resp, ar_Type = ''message'', ar_Role = ''assistant'', ar_Content = blocks, ar_Model = model,
          ar_StopReason = responsesStatusToAnthropicStopReason (rr_Status resp) (rr_IncompleteDetails resp) blocks,
          ar_Usage = (if rr_Usage resp = None then zero_usage else anthropicUsageFromResponsesUsage (rr_Usage resp))\<rparr>)"

section \<open>The state of a stream\<close>

record ResponsesEventToAnthropicState =
  MessageStartSent :: bool
  MessageStopSent :: bool
  ContentBlockIndex :: int
  ContentBlockOpen :: bool
  CurrentBlockType :: string
  CurrentToolName :: string
  CurrentToolArgs :: string
  OutputIndexToBlockIdx :: "int \<Rightarrow> int option"
  InputTokens :: int
  OutputTokens :: int
  CacheReadInputTokens :: int
  ResponseID :: string
  Model :: string
  Created :: int

definition NewResponsesEventToAnthropicState :: "int \<Rightarrow> ResponsesEventToAnthropicState" where
  "NewResponsesEventToAnthropicState now =
     \<lparr>MessageStartSent = False, MessageStopSent = False, ContentBlockIndex = 0, ContentBlockOpen = False,
      CurrentBlockType = '''', CurrentToolName = '''', CurrentToolArgs = '''', OutputIndexToBlockIdx = Map.empty,
      InputTokens = 0, OutputTokens = 0, CacheReadInputTokens = 0, ResponseID = '''', Model = '''', Created = now\<rparr>"

type_synonym converted = "AnthropicStreamEvent list \<times> ResponsesEventToAnthropicState"

text \<open>The kinds of events the handlers build.\<close>

definition block_start :: "int \<Rightarrow> AnthropicContentBlock \<Rightarrow> AnthropicStreamEvent" where
  "block_start idx b = zero_event\<lparr>ae_Type := ''content_block_start'', ae_Index := Some idx, ae_ContentBlock := Some b\<rparr>"

definition block_delta :: "int \<Rightarrow> AnthropicDelta \<Rightarrow> AnthropicStreamEvent" where
  "block_delta idx d = zero_event\<lparr>ae_Type := ''content_block_delta'', ae_Index := Some idx, ae_Delta := Some d\<rparr>"

definition block_stop :: "int \<Rightarrow> AnthropicStreamEvent" where
  "block_stop idx = zero_event\<lparr>ae_Type := ''content_block_stop'', ae_Index := Some idx\<rparr>"

definition message_delta :: "string \<Rightarrow> ResponsesEventToAnthropicState \<Rightarrow> AnthropicStreamEvent" where
  "message_delta stopReason st = zero_event\<lparr>ae_Type := ''message_delta'',
     ae_Delta := Some (zero_delta\<lparr>ad_StopReason := stopReason\<rparr>),
     ae_Usage := Some \<lparr>au_InputTokens = InputTokens st, au_OutputTokens = OutputTokens st,
       au_CacheCreationInputTokens = 0, au_CacheReadInputTokens = CacheReadInputTokens st\<rparr>\<rparr>"

definition message_stop :: AnthropicStreamEvent where
  "message_stop = zero_event\<lparr>ae_Type := ''message_stop''\<rparr>"

definition text_delta :: "string \<Rightarrow> AnthropicDelta" where
  "text_delta s = zero_delta\<lparr>ad_Type := ''text_delta'', ad_Text := s\<rparr>"

definition json_delta :: "string \<Rightarrow> AnthropicDelta" where
  "json_delta s = zero_delta\<lparr>ad_Type := ''input_json_delta'', ad_PartialJSON := s\<rparr>"

definition thinking_delta :: "string \<Rightarrow> AnthropicDelta" where
  "thinking_delta s = zero_delta\<lparr>ad_Type := ''thinking_delta'', ad_Thinking := s\<rparr>"

section \<open>Handlers\<close>

definition closeCurrentBlock :: "ResponsesEventToAnthropicState \<Rightarrow> converted" where
  "closeCurrentBlock st =
     (if \<not> ContentBlockOpen st then ([], st)
      else ([block_stop (ContentBlockIndex st)],
            st\<lparr>ContentBlockOpen := False, ContentBlockIndex := ContentBlockIndex st + 1,
               CurrentToolName := '''', CurrentToolArgs := ''''\<rparr>))"

definition resToAnthHandleCreated :: "ResponsesStreamEvent \<Rightarrow> ResponsesEventToAnthropicState \<Rightarrow> converted" where
  "resToAnthHandleCreated evt st0 =
     (let st = (case re_Response evt of
                  None \<Rightarrow> st0
                | Some r \<Rightarrow> st0\<lparr>ResponseID := rr_ID r, Model := if Model st0 = '''' then rr_Model r else Model st0\<rparr>)
      in if MessageStartSent st then ([], st)
         else ([zero_event\<lparr>ae_Type := ''message_start'',
                  ae_Message := Some \<lparr>ar_ID = ResponseID st, ar_Type = ''message'', ar_Role = ''assistant'',
                    ar_Content = [], ar_Model = Model st, ar_StopReason = '''', ar_Usage = zero_usage\<rparr>\<rparr>],
               st\<lparr>MessageStartSent := True\<rparr>))"

definition resToAnthHandleOutputItemAdded :: "ResponsesStreamEvent \<Rightarrow> ResponsesEventToAnthropicState \<Rightarrow> converted" where
  "resToAnthHandleOutputItemAdded evt st0 =
     (case re_Item evt of
        None \<Rightarrow> ([], st0)
      | Some item \<Rightarrow>
          if ro_Type item = ''function_call'' then
            (let (events, st) = closeCurrentBlock st0;
                 idx = ContentBlockIndex st
             in (events @ [block_start idx (zero_block\<lparr>cb_Type := ''tool_use'', cb_ID := fromResponsesCallID (ro_CallID item),
                             cb_Name := ro_Name item, cb_Input := ''{}''\<rparr>)],
                 st\<lparr>OutputIndexToBlockIdx := (OutputIndexToBlockIdx st)(re_OutputIndex evt \<mapsto> idx), ContentBlockOpen := True,
                    CurrentBlockType := ''tool_use'', CurrentToolName := ro_Name item, CurrentToolArgs := ''''\<rparr>))
          else if ro_Type item = ''reasoning'' then
            (let (events, st) = closeCurrentBlock st0;
                 idx = ContentBlockIndex st
             in (events @ [block_start idx (zero_block\<lparr>cb_Type := ''thinking'', cb_Thinking := ''''\<rparr>)],
                 st\<lparr>OutputIndexToBlockIdx := (OutputIndexToBlockIdx st)(re_OutputIndex evt \<mapsto> idx), ContentBlockOpen := True,
                    CurrentBlockType := ''thinking''\<rparr>))
          else ([], st0))"

definition resToAnthHandleTextDelta :: "ResponsesStreamEvent \<Rightarrow> ResponsesEventToAnthropicState \<Rightarrow> converted" where
  "resToAnthHandleTextDelta evt st0 =
     (if re_Delta evt = '''' then ([], st0)
      else (let (events, st) =
              (if \<not> ContentBlockOpen st0 \<or> CurrentBlockType st0 \<noteq> ''text'' then
                 (let (events, st) = closeCurrentBlock st0
                  in (events @ [block_start (ContentBlockIndex st) (zero_block\<lparr>cb_Type := ''text'', cb_Text := ''''\<rparr>)],
                      st\<lparr>ContentBlockOpen := True, CurrentBlockType := ''text''\<rparr>))
               else ([], st0))
            in (events @ [block_delta (ContentBlockIndex st) (text_delta (re_Delta evt))], st)))"

definition resToAnthHandleFuncArgsDelta :: "ResponsesStreamEvent \<Rightarrow> ResponsesEventToAnthropicState \<Rightarrow> converted" where
  "resToAnthHandleFuncArgsDelta evt st =
     (if re_Delta evt = '''' then ([], st)
      else if CurrentBlockType st = ''tool_use'' \<and> CurrentToolName st = ''Read''
      then ([], st\<lparr>CurrentToolArgs := CurrentToolArgs st @ re_Delta evt\<rparr>)
      else case OutputIndexToBlockIdx st (re_OutputIndex evt) of
             None \<Rightarrow> ([], st)
           | Some blockIdx \<Rightarrow> ([block_delta blockIdx (json_delta (re_Delta evt))], st))"

definition resToAnthHandleBlockDone :: "ResponsesEventToAnthropicState \<Rightarrow> converted" where
  "resToAnthHandleBlockDone st = (if \<not> ContentBlockOpen st then ([], st) else closeCurrentBlock st)"

definition resToAnthHandleFuncArgsDone :: "json_lib \<Rightarrow> ResponsesStreamEvent \<Rightarrow> ResponsesEventToAnthropicState \<Rightarrow> converted" where
  "resToAnthHandleFuncArgsDone js evt st =
     (if CurrentBlockType st \<noteq> ''tool_use'' \<or> CurrentToolName st \<noteq> ''Read'' then resToAnthHandleBlockDone st
      else (let raw = (if re_Arguments evt = '''' then CurrentToolArgs st else re_Arguments evt);
                sanitized = sanitizeAnthropicToolUseInput js (CurrentToolName st) raw
            in if sanitized = '''' then closeCurrentBlock st
               else (let (events, st') = closeCurrentBlock st
                     in (block_delta (ContentBlockIndex st) (json_delta sanitized) # events, st'))))"

definition resToAnthHandleReasoningDelta :: "ResponsesStreamEvent \<Rightarrow> ResponsesEventToAnthropicState \<Rightarrow> converted" where
  "resToAnthHandleReasoningDelta evt st =
     (if re_Delta evt = '''' then ([], st)
      else case OutputIndexToBlockIdx st (re_OutputIndex evt) of
             None \<Rightarrow> ([], st)
           | Some blockIdx \<Rightarrow> ([block_delta blockIdx (thinking_delta (re_Delta evt))], st))"

definition resToAnthHandleWebSearchDone ::
    "json_lib \<Rightarrow> ResponsesOutput \<Rightarrow> ResponsesEventToAnthropicState \<Rightarrow> converted" where
  "resToAnthHandleWebSearchDone js item st0 =
     (let (events, st) = closeCurrentBlock st0;
          toolUseID = ''srvtoolu_'' @ ro_ID item;
          query = (case ro_Action item of None \<Rightarrow> '''' | Some q \<Rightarrow> q);
          idx1 = ContentBlockIndex st;
          idx2 = idx1 + 1
      in (events @
           [block_start idx1 (zero_block\<lparr>cb_Type := ''server_tool_use'', cb_ID := toolUseID, cb_Name := ''web_search'',
              cb_Input := js_query js query\<rparr>),
            block_stop idx1,
            block_start idx2 (zero_block\<lparr>cb_Type := ''web_search_tool_result'', cb_ToolUseID := toolUseID,
              cb_Content := ''[]''\<rparr>),
            block_stop idx2],
          st\<lparr>ContentBlockIndex := idx2 + 1\<rparr>))"

definition resToAnthHandleOutputItemDone ::
    "json_lib \<Rightarrow> ResponsesStreamEvent \<Rightarrow> ResponsesEventToAnthropicState \<Rightarrow> converted" where
  "resToAnthHandleOutputItemDone js evt st =
     (case re_Item evt of
        None \<Rightarrow> ([], st)
      | Some item \<Rightarrow>
          if ro_Type item = ''web_search_call'' \<and> ro_Status item = ''completed''
          then resToAnthHandleWebSearchDone js item st
          else if ContentBlockOpen st then closeCurrentBlock st else ([], st))"

definition completed_reason :: "ResponsesStreamEvent \<Rightarrow> ResponsesEventToAnthropicState \<Rightarrow> string" where
  "completed_reason evt st =
     (case re_Response evt of
        None \<Rightarrow> ''end_turn''
      | Some r \<Rightarrow>
          if rr_Status r = ''incomplete'' then
            (if rr_IncompleteDetails r = Some ''max_output_tokens'' then ''max_tokens'' else ''end_turn'')
          else if rr_Status r = ''completed'' then
            (if ContentBlockIndex st > 0 \<and> CurrentBlockType st = ''tool_use'' then ''tool_use'' else ''end_turn'')
          else ''end_turn'')"

definition take_usage :: "ResponsesStreamEvent \<Rightarrow> ResponsesEventToAnthropicState \<Rightarrow> ResponsesEventToAnthropicState" where
  "take_usage evt st =
     (case re_Response evt of
        None \<Rightarrow> st
      | Some r \<Rightarrow>
          if rr_Usage r = None then st
          else (let usage = anthropicUsageFromResponsesUsage (rr_Usage r)
                in st\<lparr>InputTokens := au_InputTokens usage, OutputTokens := au_OutputTokens usage,
                     CacheReadInputTokens := au_CacheReadInputTokens usage\<rparr>))"

definition resToAnthHandleCompleted :: "ResponsesStreamEvent \<Rightarrow> ResponsesEventToAnthropicState \<Rightarrow> converted" where
  "resToAnthHandleCompleted evt st0 =
     (if MessageStopSent st0 then ([], st0)
      else (let (events, st1) = closeCurrentBlock st0;
                st = take_usage evt st1
            in (events @ [message_delta (completed_reason evt st) st, message_stop], st\<lparr>MessageStopSent := True\<rparr>)))"

definition ResponsesEventToAnthropicEvents ::
    "json_lib \<Rightarrow> ResponsesStreamEvent \<Rightarrow> ResponsesEventToAnthropicState \<Rightarrow> converted" where
  "ResponsesEventToAnthropicEvents js evt st =
     (let t = re_Type evt
      in if t = ''response.created'' then resToAnthHandleCreated evt st
         else if t = ''response.output_item.added'' then resToAnthHandleOutputItemAdded evt st
         else if t = ''response.output_text.delta'' then resToAnthHandleTextDelta evt st
         else if t = ''response.output_text.done'' then resToAnthHandleBlockDone st
         else if t = ''response.function_call_arguments.delta'' then resToAnthHandleFuncArgsDelta evt st
         else if t = ''response.function_call_arguments.done'' then resToAnthHandleFuncArgsDone js evt st
         else if t = ''response.output_item.done'' then resToAnthHandleOutputItemDone js evt st
         else if t = ''response.reasoning_summary_text.delta'' then resToAnthHandleReasoningDelta evt st
         else if t = ''response.reasoning_summary_text.done'' then resToAnthHandleBlockDone st
         else if t \<in> {''response.completed'', ''response.incomplete'', ''response.failed''}
         then resToAnthHandleCompleted evt st
         else ([], st))"

definition FinalizeResponsesAnthropicStream :: "ResponsesEventToAnthropicState \<Rightarrow> converted" where
  "FinalizeResponsesAnthropicStream st0 =
     (if \<not> MessageStartSent st0 \<or> MessageStopSent st0 then ([], st0)
      else (let (events, st) = closeCurrentBlock st0
            in (events @ [message_delta ''end_turn'' st, message_stop], st\<lparr>MessageStopSent := True\<rparr>)))"

text \<open>The loop of the gateway over the upstream events, and the stream a client receives.\<close>

fun convert_all :: "json_lib \<Rightarrow> ResponsesStreamEvent list \<Rightarrow> ResponsesEventToAnthropicState \<Rightarrow> converted" where
  "convert_all js [] st = ([], st)"
| "convert_all js (e # es) st =
     (let (events, st1) = ResponsesEventToAnthropicEvents js e st;
          (rest, st2) = convert_all js es st1
      in (events @ rest, st2))"

definition converted_stream :: "json_lib \<Rightarrow> int \<Rightarrow> string \<Rightarrow> ResponsesStreamEvent list \<Rightarrow> AnthropicStreamEvent list" where
  "converted_stream js now originalModel es =
     (let (events, st) = convert_all js es ((NewResponsesEventToAnthropicState now)\<lparr>Model := originalModel\<rparr>);
          (final, _) = FinalizeResponsesAnthropicStream st
      in events @ final)"

section \<open>The block structure of the stream\<close>

text \<open>The opening and closing of content blocks in a stream.\<close>

datatype mark = Open int | Close int

definition mark_of :: "AnthropicStreamEvent \<Rightarrow> mark option" where
  "mark_of e =
     (case ae_Index e of
        None \<Rightarrow> None
      | Some i \<Rightarrow> if ae_Type e = ''content_block_start'' then Some (Open i)
                else if ae_Type e = ''content_block_stop'' then Some (Close i) else None)"

definition marks :: "AnthropicStreamEvent list \<Rightarrow> mark list" where
  "marks es = List.map_filter mark_of es"

text \<open>The blocks \<open>0, ..., n - 1\<close>, each closed before the next is opened, and an open block.\<close>

definition closed_blocks :: "nat \<Rightarrow> mark list" where
  "closed_blocks n = concat (map (\<lambda>i. [Open (int i), Close (int i)]) [0..<n])"

definition emitted :: "ResponsesEventToAnthropicState \<Rightarrow> mark list" where
  "emitted st = closed_blocks (nat (ContentBlockIndex st)) @ (if ContentBlockOpen st then [Open (ContentBlockIndex st)] else [])"

lemma marks_simps [simp]:
  "marks [] = []" "marks (a @ b) = marks a @ marks b"
  "marks (block_start i blk # es) = Open i # marks es"
  "marks (block_stop i # es) = Close i # marks es"
  "marks (block_delta i d # es) = marks es"
  "marks (message_delta r st # es) = marks es"
  "marks (message_stop # es) = marks es"
  by (simp_all add: marks_def List.map_filter_def mark_of_def block_start_def block_stop_def block_delta_def
      message_delta_def message_stop_def zero_event_def)

lemma marks_start [simp]: "ae_Index e = None \<Longrightarrow> marks (e # es) = marks es"
  by (simp add: marks_def List.map_filter_def mark_of_def)

lemma closed_blocks_Suc: "0 \<le> i \<Longrightarrow> closed_blocks (nat (i + 1)) = closed_blocks (nat i) @ [Open i, Close i]"
  by (simp add: closed_blocks_def nat_add_distrib)

text \<open>A handler that extends the emitted marks by the marks it sends keeps the structure.\<close>

definition structured :: "ResponsesEventToAnthropicState \<Rightarrow> converted \<Rightarrow> bool" where
  "structured st r \<longleftrightarrow> (0 \<le> ContentBlockIndex st \<longrightarrow>
     0 \<le> ContentBlockIndex (snd r) \<and> emitted (snd r) = emitted st @ marks (fst r))"

lemma structured_trans:
  "structured st (a, st1) \<Longrightarrow> structured st1 (b, st2) \<Longrightarrow> structured st (a @ b, st2)"
  by (auto simp: structured_def)

lemma structured_close: "structured st (closeCurrentBlock st)"
  by (simp add: structured_def closeCurrentBlock_def emitted_def closed_blocks_Suc)

lemma close_closed: "closeCurrentBlock st = (a, st1) \<Longrightarrow> \<not> ContentBlockOpen st1"
  by (auto simp: closeCurrentBlock_def split: if_splits)

lemma structured_same:
  "ContentBlockIndex st' = ContentBlockIndex st \<Longrightarrow> ContentBlockOpen st' = ContentBlockOpen st \<Longrightarrow> marks a = [] \<Longrightarrow>
     structured st (a, st')"
  by (simp add: structured_def emitted_def)

lemma structured_open:
  assumes "closeCurrentBlock st = (a, st1)" and "ContentBlockIndex st' = ContentBlockIndex st1" and "ContentBlockOpen st'"
  shows "structured st (a @ [block_start (ContentBlockIndex st1) b], st')"
proof (rule structured_trans)
  show "structured st (a, st1)" using structured_close [of st] assms(1) by simp
  show "structured st1 ([block_start (ContentBlockIndex st1) b], st')"
    using assms(2,3) close_closed [OF assms(1)] by (simp add: structured_def emitted_def)
qed

lemma structured_after_close:
  assumes "closeCurrentBlock st = (a, st1)" and "ContentBlockIndex st' = ContentBlockIndex st1"
    and "ContentBlockOpen st' = ContentBlockOpen st1" and "marks b = []"
  shows "structured st (a @ b, st')"
proof (rule structured_trans)
  show "structured st (a, st1)" using structured_close [of st] assms(1) by simp
qed (use assms structured_same in blast)

lemma structured_added: "structured st (resToAnthHandleOutputItemAdded evt st)"
proof -
  obtain a st1 where c: "closeCurrentBlock st = (a, st1)" by fastforce
  show ?thesis
    by (auto simp: resToAnthHandleOutputItemAdded_def c Let_def structured_same intro!: structured_open [OF c]
        split: option.splits)
qed

lemma structured_text: "structured st (resToAnthHandleTextDelta evt st)"
proof (cases "\<not> ContentBlockOpen st \<or> CurrentBlockType st \<noteq> ''text''")
  case True
  obtain a st1 where c: "closeCurrentBlock st = (a, st1)" by fastforce
  let ?st = "st1\<lparr>ContentBlockOpen := True, CurrentBlockType := ''text''\<rparr>"
  have "structured st (a @ [block_start (ContentBlockIndex st1) (zero_block\<lparr>cb_Type := ''text'', cb_Text := ''''\<rparr>)], ?st)"
    by (rule structured_open [OF c]) simp_all
  from structured_trans [OF this structured_same [of ?st ?st "[block_delta (ContentBlockIndex st1) (text_delta (re_Delta evt))]"]]
  show ?thesis using True c by (auto simp: resToAnthHandleTextDelta_def structured_same)
qed (auto simp: resToAnthHandleTextDelta_def intro!: structured_same)

lemma structured_web: "structured st (resToAnthHandleWebSearchDone js item st)"
proof -
  obtain a st1 where c: "closeCurrentBlock st = (a, st1)" by fastforce
  have "structured st (a, st1)" using structured_close [of st] c by simp
  moreover have "\<not> ContentBlockOpen st1" by (rule close_closed [OF c])
  moreover have "emitted st2 = emitted st1 @ [Open i, Close i, Open (i + 1), Close (i + 1)]"
    if "0 \<le> i" "ContentBlockIndex st1 = i" "ContentBlockIndex st2 = i + 1 + 1" "\<not> ContentBlockOpen st2" "\<not> ContentBlockOpen st1"
    for i and st2 :: ResponsesEventToAnthropicState
    using that closed_blocks_Suc [of i] closed_blocks_Suc [of "i + 1"] by (simp add: emitted_def)
  ultimately show ?thesis by (auto simp: resToAnthHandleWebSearchDone_def c structured_def Let_def)
qed

lemma structured_completed: "structured st (resToAnthHandleCompleted evt st)"
proof -
  obtain a st1 where c: "closeCurrentBlock st = (a, st1)" by fastforce
  show ?thesis
    by (auto simp: resToAnthHandleCompleted_def c take_usage_def Let_def structured_same
        intro!: structured_after_close [OF c] split: option.splits)
qed

lemma structured_event: "structured st (ResponsesEventToAnthropicEvents js evt st)"
proof -
  have "structured st (resToAnthHandleCreated evt st)"
    by (auto simp: resToAnthHandleCreated_def Let_def zero_event_def intro!: structured_same split: option.splits)
  moreover have blk: "structured st (resToAnthHandleBlockDone st)"
    by (simp add: resToAnthHandleBlockDone_def structured_close structured_same)
  moreover have "structured st (resToAnthHandleFuncArgsDelta evt st)"
    by (auto simp: resToAnthHandleFuncArgsDelta_def intro!: structured_same split: option.splits)
  moreover have "structured st (resToAnthHandleReasoningDelta evt st)"
    by (auto simp: resToAnthHandleReasoningDelta_def intro!: structured_same split: option.splits)
  moreover have "structured st (resToAnthHandleOutputItemDone js evt st)"
    by (auto simp: resToAnthHandleOutputItemDone_def structured_web structured_close intro!: structured_same split: option.splits)
  moreover have "structured st (resToAnthHandleFuncArgsDone js evt st)"
    using blk structured_close [of st]
    by (auto simp: resToAnthHandleFuncArgsDone_def Let_def split_beta structured_def)
  ultimately show ?thesis
    using structured_added structured_text structured_completed
    by (simp add: ResponsesEventToAnthropicEvents_def Let_def structured_same)
qed

lemma structured_all: "structured st (convert_all js es st)"
proof (induction es arbitrary: st)
  case (Cons e es)
  obtain a st1 b st2 where "ResponsesEventToAnthropicEvents js e st = (a, st1)" "convert_all js es st1 = (b, st2)"
    by fastforce
  with Cons [of st1] structured_event [of st js e] structured_trans show ?case by auto
qed (simp add: structured_same)

lemma structured_final: "structured st (FinalizeResponsesAnthropicStream st)"
proof -
  obtain a st1 where c: "closeCurrentBlock st = (a, st1)" by fastforce
  show ?thesis
    by (auto simp: FinalizeResponsesAnthropicStream_def c structured_same intro!: structured_after_close [OF c])
qed

section \<open>Framing of the stream\<close>

definition terminal :: "ResponsesStreamEvent \<Rightarrow> bool" where
  "terminal e \<longleftrightarrow> re_Type e \<in> {''response.completed'', ''response.incomplete'', ''response.failed''}"

definition block_event :: "AnthropicStreamEvent \<Rightarrow> bool" where
  "block_event e \<longleftrightarrow> ae_Type e \<in> {''content_block_start'', ''content_block_delta'', ''content_block_stop''}"

lemma block_event_simps [simp]:
  "block_event (block_start i blk)" "block_event (block_delta i d)" "block_event (block_stop i)"
  by (simp_all add: block_event_def block_start_def block_delta_def block_stop_def)

text \<open>In a started message a handler that does not end it sends block events only.\<close>

definition in_body :: "ResponsesEventToAnthropicState \<Rightarrow> converted \<Rightarrow> bool" where
  "in_body st r \<longleftrightarrow> (MessageStartSent st \<longrightarrow> list_all block_event (fst r) \<and> MessageStartSent (snd r) \<and>
     MessageStopSent (snd r) = MessageStopSent st)"

lemma close_body: "closeCurrentBlock st = (a, st1) \<Longrightarrow>
    list_all block_event a \<and> MessageStartSent st1 = MessageStartSent st \<and> MessageStopSent st1 = MessageStopSent st"
  by (auto simp: closeCurrentBlock_def split: if_splits)

lemma in_body_event:
  assumes "\<not> terminal evt"
  shows "in_body st (ResponsesEventToAnthropicEvents js evt st)"
proof -
  obtain a st1 where c: "closeCurrentBlock st = (a, st1)" by fastforce
  note close = close_body [OF c]
  have "in_body st (resToAnthHandleCreated evt st)"
    by (auto simp: in_body_def resToAnthHandleCreated_def Let_def split: option.splits)
  moreover have "in_body st (resToAnthHandleOutputItemAdded evt st)"
    using close by (auto simp: in_body_def resToAnthHandleOutputItemAdded_def c Let_def split: option.splits)
  moreover have "in_body st (resToAnthHandleTextDelta evt st)"
    using close by (auto simp: in_body_def resToAnthHandleTextDelta_def c)
  moreover have "in_body st (resToAnthHandleBlockDone st)" "in_body st (resToAnthHandleFuncArgsDelta evt st)"
    "in_body st (resToAnthHandleReasoningDelta evt st)"
    using close by (auto simp: in_body_def resToAnthHandleBlockDone_def resToAnthHandleFuncArgsDelta_def
        resToAnthHandleReasoningDelta_def c split: option.splits)
  moreover have "in_body st (resToAnthHandleOutputItemDone js evt st)"
    using close by (auto simp: in_body_def resToAnthHandleOutputItemDone_def resToAnthHandleWebSearchDone_def c Let_def
        split: option.splits)
  moreover have "in_body st (resToAnthHandleFuncArgsDone js evt st)"
    using close by (auto simp: in_body_def resToAnthHandleFuncArgsDone_def resToAnthHandleBlockDone_def c Let_def)
  ultimately show ?thesis using assms
    by (simp add: ResponsesEventToAnthropicEvents_def terminal_def in_body_def Let_def)
qed

lemma in_body_all:
  assumes "list_all (\<lambda>e. \<not> terminal e) es"
  shows "in_body st (convert_all js es st)"
  using assms
proof (induction es arbitrary: st)
  case (Cons e es)
  obtain a st1 b st2 where r: "ResponsesEventToAnthropicEvents js e st = (a, st1)" "convert_all js es st1 = (b, st2)"
    by fastforce
  have "in_body st (a, st1)" using in_body_event [of e st js] Cons.prems r by simp
  with Cons.IH [of st1] Cons.prems r show ?case by (auto simp: in_body_def)
qed (simp add: in_body_def)

lemma convert_append:
  "convert_all js (es @ fs) st =
     (let (a, st1) = convert_all js es st; (b, st2) = convert_all js fs st1 in (a @ b, st2))"
  by (induction es arbitrary: st) (auto simp: Let_def split_beta)

lemma after_stop:
  assumes "MessageStopSent st" and "list_all terminal es"
  shows "convert_all js es st = ([], st)"
  using assms(2)
proof (induction es)
  case (Cons e es)
  have "ResponsesEventToAnthropicEvents js e st = ([], st)"
    using Cons.prems assms(1)
    by (auto simp: ResponsesEventToAnthropicEvents_def terminal_def resToAnthHandleCompleted_def Let_def)
  with Cons show ?case by simp
qed simp

text \<open>The end of a message: a block that is open is closed, then the delta and the stop are sent.\<close>

lemma terminal_end:
  assumes "terminal e" and "\<not> MessageStopSent st"
  shows "\<exists>a r u st'. ResponsesEventToAnthropicEvents js e st = (a @ [message_delta r u, message_stop], st') \<and>
     list_all block_event a \<and> MessageStopSent st' \<and> \<not> ContentBlockOpen st'"
proof -
  obtain a st1 where c: "closeCurrentBlock st = (a, st1)" by fastforce
  have "ResponsesEventToAnthropicEvents js e st = resToAnthHandleCompleted e st"
    using assms(1) by (auto simp: ResponsesEventToAnthropicEvents_def terminal_def Let_def)
  then show ?thesis
    using assms(2) close_body [OF c] close_closed [OF c]
    by (auto simp: resToAnthHandleCompleted_def c Let_def take_usage_def split: option.splits)
qed

lemma finalize_end:
  assumes "MessageStartSent st" and "\<not> MessageStopSent st"
  shows "\<exists>a u st'. FinalizeResponsesAnthropicStream st = (a @ [message_delta ''end_turn'' u, message_stop], st') \<and>
     list_all block_event a \<and> \<not> ContentBlockOpen st'"
proof -
  obtain a st1 where c: "closeCurrentBlock st = (a, st1)" by fastforce
  show ?thesis
    using assms close_body [OF c] close_closed [OF c]
    by (auto simp: FinalizeResponsesAnthropicStream_def c)
qed

lemma stream_ends:
  assumes "MessageStartSent st" and "\<not> MessageStopSent st" and "list_all terminal ts"
  shows "\<exists>a r u st1 fin st2. convert_all js ts st = (fst (convert_all js ts st), st1) \<and>
     FinalizeResponsesAnthropicStream st1 = (fin, st2) \<and>
     fst (convert_all js ts st) @ fin = a @ [message_delta r u, message_stop] \<and> list_all block_event a \<and>
     \<not> ContentBlockOpen st2"
proof (cases ts)
  case Nil
  then show ?thesis using finalize_end [OF assms(1,2)] by auto
next
  case (Cons t ts')
  from terminal_end [of t st js] assms Cons obtain a r u st1 where
    t: "ResponsesEventToAnthropicEvents js t st = (a @ [message_delta r u, message_stop], st1)"
    "list_all block_event a" "MessageStopSent st1" "\<not> ContentBlockOpen st1" by auto
  have "convert_all js ts st = (a @ [message_delta r u, message_stop], st1)"
    using t(1) after_stop [OF t(3), of ts' js] assms(3) Cons by simp
  then show ?thesis using t(2-4) by (simp add: FinalizeResponsesAnthropicStream_def) blast
qed

section \<open>Text\<close>

definition text_of :: "AnthropicStreamEvent \<Rightarrow> string" where
  "text_of e = (case ae_Delta e of None \<Rightarrow> '''' | Some d \<Rightarrow> if ad_Type d = ''text_delta'' then ad_Text d else '''')"

definition texts :: "AnthropicStreamEvent list \<Rightarrow> string" where
  "texts es = concat (map text_of es)"

definition upstream_text :: "ResponsesStreamEvent list \<Rightarrow> string" where
  "upstream_text es = concat (map re_Delta (filter (\<lambda>e. re_Type e = ''response.output_text.delta'') es))"

lemma texts_simps [simp]:
  "texts [] = ''''" "texts (a @ b) = texts a @ texts b"
  "texts (block_start i blk # es) = texts es" "texts (block_stop i # es) = texts es"
  "texts (block_delta i (text_delta s) # es) = s @ texts es"
  "texts (block_delta i (json_delta s) # es) = texts es"
  "texts (block_delta i (thinking_delta s) # es) = texts es"
  "texts (message_delta r st # es) = texts es" "texts (message_stop # es) = texts es"
  by (simp_all add: texts_def text_of_def block_start_def block_stop_def block_delta_def text_delta_def json_delta_def
      thinking_delta_def message_delta_def message_stop_def zero_event_def zero_delta_def)

lemma texts_no_delta: "ae_Delta e = None \<Longrightarrow> texts (e # es) = texts es"
  by (simp add: texts_def text_of_def)

lemma close_text: "closeCurrentBlock st = (a, st1) \<Longrightarrow> texts a = ''''"
  by (auto simp: closeCurrentBlock_def split: if_splits)

lemma texts_event:
  "texts (fst (ResponsesEventToAnthropicEvents js e st)) =
     (if re_Type e = ''response.output_text.delta'' then re_Delta e else '''')"
proof -
  obtain a st1 where c: "closeCurrentBlock st = (a, st1)" by fastforce
  note t = close_text [OF c]
  have "texts (fst (resToAnthHandleCreated e st)) = ''''"
    by (auto simp: resToAnthHandleCreated_def Let_def texts_no_delta zero_event_def split: option.splits)
  moreover have "texts (fst (resToAnthHandleOutputItemAdded e st)) = ''''"
    by (simp add: resToAnthHandleOutputItemAdded_def c t Let_def split: option.splits)
  moreover have "texts (fst (resToAnthHandleTextDelta e st)) = re_Delta e"
    by (simp add: resToAnthHandleTextDelta_def c t)
  moreover have "texts (fst (resToAnthHandleBlockDone st)) = ''''" "texts (fst (resToAnthHandleFuncArgsDelta e st)) = ''''"
    "texts (fst (resToAnthHandleReasoningDelta e st)) = ''''" "texts (fst (resToAnthHandleFuncArgsDone js e st)) = ''''"
    by (simp_all add: resToAnthHandleBlockDone_def resToAnthHandleFuncArgsDelta_def resToAnthHandleReasoningDelta_def
        resToAnthHandleFuncArgsDone_def c t Let_def split: option.splits)
  moreover have "texts (fst (resToAnthHandleOutputItemDone js e st)) = ''''"
    by (simp add: resToAnthHandleOutputItemDone_def resToAnthHandleWebSearchDone_def c t Let_def split: option.splits)
  moreover have "texts (fst (resToAnthHandleCompleted e st)) = ''''"
    by (simp add: resToAnthHandleCompleted_def c t Let_def)
  ultimately show ?thesis by (simp add: ResponsesEventToAnthropicEvents_def Let_def)
qed

lemma texts_all: "texts (fst (convert_all js es st)) = upstream_text es"
proof (induction es arbitrary: st)
  case (Cons e es)
  then show ?case using texts_event [of js e st] by (simp add: split_beta upstream_text_def)
qed (simp add: upstream_text_def)

lemma texts_final: "texts (fst (FinalizeResponsesAnthropicStream st)) = ''''"
proof -
  obtain a st1 where c: "closeCurrentBlock st = (a, st1)" by fastforce
  show ?thesis by (simp add: FinalizeResponsesAnthropicStream_def c close_text [OF c])
qed

section \<open>What a client collects\<close>

text \<open>
  An Anthropic client: blocks arrive in order, one at a time; a delta belongs to the open block
  and has its kind; the partial JSON of a tool replaces the input when the block stops. \<open>None\<close>
  is a violation of the protocol.
\<close>

record client =
  co_done :: "AnthropicContentBlock list"
  co_open :: "AnthropicContentBlock option"
  co_json :: string

definition apply_delta :: "AnthropicDelta \<Rightarrow> AnthropicContentBlock \<Rightarrow> string \<Rightarrow> (AnthropicContentBlock \<times> string) option" where
  "apply_delta d b json =
     (if ad_Type d = ''text_delta'' \<and> cb_Type b = ''text'' then Some (b\<lparr>cb_Text := cb_Text b @ ad_Text d\<rparr>, json)
      else if ad_Type d = ''thinking_delta'' \<and> cb_Type b = ''thinking''
      then Some (b\<lparr>cb_Thinking := cb_Thinking b @ ad_Thinking d\<rparr>, json)
      else if ad_Type d = ''input_json_delta'' \<and> cb_Type b = ''tool_use'' then Some (b, json @ ad_PartialJSON d)
      else None)"

definition client_event :: "AnthropicStreamEvent \<Rightarrow> client \<Rightarrow> client option" where
  "client_event e c =
     (if ae_Type e = ''content_block_start'' then
        (if co_open c = None \<and> ae_Index e = Some (int (length (co_done c))) \<and> ae_ContentBlock e \<noteq> None
         then Some (c\<lparr>co_open := ae_ContentBlock e, co_json := ''''\<rparr>) else None)
      else if ae_Type e = ''content_block_delta'' then
        (case (co_open c, ae_Delta e) of
           (Some b, Some d) \<Rightarrow>
             if ae_Index e = Some (int (length (co_done c)))
             then map_option (\<lambda>(b', j). c\<lparr>co_open := Some b', co_json := j\<rparr>) (apply_delta d b (co_json c)) else None
         | _ \<Rightarrow> None)
      else if ae_Type e = ''content_block_stop'' then
        (case co_open c of
           None \<Rightarrow> None
         | Some b \<Rightarrow>
             if ae_Index e = Some (int (length (co_done c)))
             then Some \<lparr>co_done = co_done c @ [if co_json c = '''' then b else b\<lparr>cb_Input := co_json c\<rparr>],
                        co_open = None, co_json = ''''\<rparr> else None)
      else Some c)"

fun client_all :: "AnthropicStreamEvent list \<Rightarrow> client \<Rightarrow> client option" where
  "client_all [] c = Some c"
| "client_all (e # es) c = (case client_event e c of None \<Rightarrow> None | Some c' \<Rightarrow> client_all es c')"

definition collect :: "AnthropicStreamEvent list \<Rightarrow> AnthropicContentBlock list option" where
  "collect es =
     (case client_all es \<lparr>co_done = [], co_open = None, co_json = ''''\<rparr> of
        None \<Rightarrow> None | Some c \<Rightarrow> if co_open c = None then Some (co_done c) else None)"

lemma client_append: "client_all (a @ b) c = (case client_all a c of None \<Rightarrow> None | Some c' \<Rightarrow> client_all b c')"
  by (induction a arbitrary: c) (auto split: option.splits)

abbreviation after_blocks :: "AnthropicContentBlock list \<Rightarrow> client" where
  "after_blocks bs \<equiv> \<lparr>co_done = bs, co_open = None, co_json = ''''\<rparr>"

abbreviation in_block :: "AnthropicContentBlock list \<Rightarrow> AnthropicContentBlock \<Rightarrow> string \<Rightarrow> client" where
  "in_block bs b j \<equiv> \<lparr>co_done = bs, co_open = Some b, co_json = j\<rparr>"

lemma client_simps [simp]:
  "i = int (length bs) \<Longrightarrow> client_event (block_start i b) (after_blocks bs) = Some (in_block bs b '''')"
  "i = int (length bs) \<Longrightarrow> client_event (block_stop i) (in_block bs b j) =
     Some (after_blocks (bs @ [if j = '''' then b else b\<lparr>cb_Input := j\<rparr>]))"
  "i = int (length bs) \<Longrightarrow> cb_Type b = ''text'' \<Longrightarrow> client_event (block_delta i (text_delta s)) (in_block bs b j) =
     Some (in_block bs (b\<lparr>cb_Text := cb_Text b @ s\<rparr>) j)"
  "i = int (length bs) \<Longrightarrow> cb_Type b = ''thinking'' \<Longrightarrow> client_event (block_delta i (thinking_delta s)) (in_block bs b j) =
     Some (in_block bs (b\<lparr>cb_Thinking := cb_Thinking b @ s\<rparr>) j)"
  "i = int (length bs) \<Longrightarrow> cb_Type b = ''tool_use'' \<Longrightarrow> client_event (block_delta i (json_delta s)) (in_block bs b j) =
     Some (in_block bs b (j @ s))"
  "client_event (message_delta r u) c = Some c" "client_event message_stop c = Some c"
  by (simp_all add: client_event_def apply_delta_def block_start_def block_stop_def block_delta_def text_delta_def
      thinking_delta_def json_delta_def message_delta_def message_stop_def zero_event_def zero_delta_def)

section \<open>Upstream streams of a response\<close>

definition up_event :: "string \<Rightarrow> int \<Rightarrow> ResponsesOutput option \<Rightarrow> string \<Rightarrow> string \<Rightarrow> ResponsesStreamEvent" where
  "up_event t oi item delta arguments = \<lparr>re_Type = t, re_Response = None, re_Item = item, re_OutputIndex = oi,
     re_Delta = delta, re_Arguments = arguments\<rparr>"

abbreviation up_delta :: "string \<Rightarrow> int \<Rightarrow> string \<Rightarrow> ResponsesStreamEvent" where
  "up_delta t oi s \<equiv> up_event t oi None s ''''"

abbreviation up_added :: "int \<Rightarrow> ResponsesOutput \<Rightarrow> ResponsesStreamEvent" where
  "up_added oi item \<equiv> up_event ''response.output_item.added'' oi (Some item) '''' ''''"

abbreviation up_done :: "int \<Rightarrow> ResponsesOutput \<Rightarrow> ResponsesStreamEvent" where
  "up_done oi item \<equiv> up_event ''response.output_item.done'' oi (Some item) '''' ''''"

definition up_text :: "int \<Rightarrow> string list \<Rightarrow> ResponsesStreamEvent list" where
  "up_text oi cs = map (up_delta ''response.output_text.delta'' oi) cs @ [up_event ''response.output_text.done'' oi None '''' '''']"

text \<open>
  The documented order of the events of an output item: it is added (perhaps still without its
  content), its text comes in chunks, and it is done. A reasoning item has one summary part.
\<close>

inductive item_stream :: "int \<Rightarrow> ResponsesOutput \<Rightarrow> ResponsesStreamEvent list \<Rightarrow> bool" where
  reasoning: "\<lbrakk>ro_Type item = ''reasoning''; ro_Type item0 = ''reasoning'';
      ro_Summary item = [\<lparr>rs_Type = ''summary_text'', rs_Text = concat cs\<rparr>]; concat cs \<noteq> ''''\<rbrakk> \<Longrightarrow>
    item_stream oi item (up_added oi item0 # map (up_delta ''response.reasoning_summary_text.delta'' oi) cs @
      [up_event ''response.reasoning_summary_text.done'' oi None '''' '''', up_done oi item])"
| message: "\<lbrakk>ro_Type item = ''message''; ro_Type item0 = ''message'';
      ro_Content item = map (\<lambda>cs. \<lparr>rp_Type = ''output_text'', rp_Text = concat cs\<rparr>) css\<rbrakk> \<Longrightarrow>
    item_stream oi item (up_added oi item0 # concat (map (up_text oi) css) @ [up_done oi item])"
| function_call: "\<lbrakk>ro_Type item = ''function_call''; ro_Type item0 = ''function_call''; ro_CallID item0 = ro_CallID item;
      ro_Name item0 = ro_Name item; ro_Arguments item = concat cs; concat cs \<noteq> ''''\<rbrakk> \<Longrightarrow>
    item_stream oi item (up_added oi item0 # map (up_delta ''response.function_call_arguments.delta'' oi) cs @
      [up_event ''response.function_call_arguments.done'' oi None '''' (ro_Arguments item), up_done oi item])"
| web_search: "\<lbrakk>ro_Type item = ''web_search_call''; ro_Type item0 = ''web_search_call''; ro_Status item = ''completed''\<rbrakk> \<Longrightarrow>
    item_stream oi item [up_added oi item0, up_done oi item]"

text \<open>The conversion of a part: the client, which has the blocks \<open>bs\<close>, collects \<open>new\<close>, of
  which the state remembers the last type.\<close>

definition part_ok ::
    "json_lib \<Rightarrow> AnthropicContentBlock list \<Rightarrow> ResponsesStreamEvent list \<Rightarrow> ResponsesEventToAnthropicState
      \<Rightarrow> AnthropicContentBlock list \<Rightarrow> bool \<Rightarrow> bool" where
  "part_ok js bs es st new typed \<longleftrightarrow> (\<exists>out st'. convert_all js es st = (out, st') \<and> \<not> ContentBlockOpen st' \<and>
     ContentBlockIndex st' = int (length (bs @ new)) \<and>
     MessageStopSent st' = MessageStopSent st \<and> MessageStartSent st' = MessageStartSent st \<and>
     (typed \<longrightarrow> CurrentBlockType st' = (if new = [] then CurrentBlockType st else cb_Type (last new))) \<and>
     client_all out (after_blocks bs) = Some (after_blocks (bs @ new)))"

definition ready :: "AnthropicContentBlock list \<Rightarrow> ResponsesEventToAnthropicState \<Rightarrow> bool" where
  "ready bs st \<longleftrightarrow> \<not> ContentBlockOpen st \<and> ContentBlockIndex st = int (length bs)"

lemma up_event_sel [simp]:
  "re_Type (up_event t oi item d a) = t" "re_Response (up_event t oi item d a) = None" "re_Item (up_event t oi item d a) = item"
  "re_OutputIndex (up_event t oi item d a) = oi" "re_Delta (up_event t oi item d a) = d" "re_Arguments (up_event t oi item d a) = a"
  by (simp_all add: up_event_def)

lemma dispatch [simp]:
  "ResponsesEventToAnthropicEvents js (up_added oi item) st = resToAnthHandleOutputItemAdded (up_added oi item) st"
  "ResponsesEventToAnthropicEvents js (up_done oi item) st = resToAnthHandleOutputItemDone js (up_done oi item) st"
  "ResponsesEventToAnthropicEvents js (up_delta ''response.output_text.delta'' oi s) st =
     resToAnthHandleTextDelta (up_delta ''response.output_text.delta'' oi s) st"
  "ResponsesEventToAnthropicEvents js (up_event ''response.output_text.done'' oi x d a) st = resToAnthHandleBlockDone st"
  "ResponsesEventToAnthropicEvents js (up_delta ''response.function_call_arguments.delta'' oi s) st =
     resToAnthHandleFuncArgsDelta (up_delta ''response.function_call_arguments.delta'' oi s) st"
  "ResponsesEventToAnthropicEvents js (up_event ''response.function_call_arguments.done'' oi x d a) st =
     resToAnthHandleFuncArgsDone js (up_event ''response.function_call_arguments.done'' oi x d a) st"
  "ResponsesEventToAnthropicEvents js (up_delta ''response.reasoning_summary_text.delta'' oi s) st =
     resToAnthHandleReasoningDelta (up_delta ''response.reasoning_summary_text.delta'' oi s) st"
  "ResponsesEventToAnthropicEvents js (up_event ''response.reasoning_summary_text.done'' oi x d a) st = resToAnthHandleBlockDone st"
  by (simp_all add: ResponsesEventToAnthropicEvents_def Let_def)

lemma convert_snoc: "convert_all js (es @ [e]) st =
     (let (a, st1) = convert_all js es st; (b, st2) = ResponsesEventToAnthropicEvents js e st1 in (a @ b, st2))"
  by (simp add: convert_append split_beta Let_def)

text \<open>Chunks in an open block.\<close>

lemma thinking_chunks:
  assumes "OutputIndexToBlockIdx st oi = Some (int (length bs))" and "cb_Type b = ''thinking''"
  shows "\<exists>out. convert_all js (map (up_delta ''response.reasoning_summary_text.delta'' oi) cs) st = (out, st) \<and>
     client_all out (in_block bs b j) = Some (in_block bs (b\<lparr>cb_Thinking := cb_Thinking b @ concat cs\<rparr>) j)"
  using assms(2)
proof (induction cs arbitrary: b)
  case (Cons s cs)
  from Cons.IH [of "b\<lparr>cb_Thinking := cb_Thinking b @ s\<rparr>"] Cons.prems assms(1)
  show ?case by (auto simp: resToAnthHandleReasoningDelta_def Let_def)
qed simp

lemma args_chunks:
  assumes "OutputIndexToBlockIdx st oi = Some (int (length bs))" and "cb_Type b = ''tool_use''" and "CurrentToolName st \<noteq> ''Read''"
  shows "\<exists>out. convert_all js (map (up_delta ''response.function_call_arguments.delta'' oi) cs) st = (out, st) \<and>
     client_all out (in_block bs b j) = Some (in_block bs b (j @ concat cs))"
proof (induction cs arbitrary: j)
  case (Cons s cs)
  from Cons.IH [of "j @ s"] assms show ?case by (auto simp: resToAnthHandleFuncArgsDelta_def)
qed simp

lemma args_chunks_read:
  assumes "CurrentBlockType st = ''tool_use''" and "CurrentToolName st = ''Read''"
  shows "convert_all js (map (up_delta ''response.function_call_arguments.delta'' oi) cs) st =
    ([], st\<lparr>CurrentToolArgs := CurrentToolArgs st @ concat cs\<rparr>)"
  using assms by (induction cs arbitrary: st) (simp_all add: resToAnthHandleFuncArgsDelta_def)

lemma text_chunks_open:
  assumes "ContentBlockOpen st" and "CurrentBlockType st = ''text''" and "ContentBlockIndex st = int (length bs)"
    and "cb_Type b = ''text''"
  shows "\<exists>out. convert_all js (map (up_delta ''response.output_text.delta'' oi) cs) st = (out, st) \<and>
     client_all out (in_block bs b j) = Some (in_block bs (b\<lparr>cb_Text := cb_Text b @ concat cs\<rparr>) j)"
  using assms(4)
proof (induction cs arbitrary: b)
  case (Cons s cs)
  from Cons.IH [of "b\<lparr>cb_Text := cb_Text b @ s\<rparr>"] Cons.prems assms(1-3)
  show ?case by (auto simp: resToAnthHandleTextDelta_def Let_def)
qed simp

lemma close_ready [simp]: "ready bs st \<Longrightarrow> closeCurrentBlock st = ([], st)"
  by (simp add: ready_def closeCurrentBlock_def)

lemma close_open: "ContentBlockOpen st \<Longrightarrow> closeCurrentBlock st = ([block_stop (ContentBlockIndex st)],
    st\<lparr>ContentBlockOpen := False, ContentBlockIndex := ContentBlockIndex st + 1, CurrentToolName := '''', CurrentToolArgs := ''''\<rparr>)"
  by (simp add: closeCurrentBlock_def)

definition text_blocks :: "string \<Rightarrow> AnthropicContentBlock list" where
  "text_blocks s = (if s = '''' then [] else [zero_block\<lparr>cb_Type := ''text'', cb_Text := s\<rparr>])"

lemma zero_block_sel [simp]: "cb_Type zero_block = ''''" "cb_Text zero_block = ''''" "cb_Thinking zero_block = ''''"
  "cb_ID zero_block = ''''" "cb_Name zero_block = ''''" "cb_Input zero_block = ''''"
  by (simp_all add: zero_block_def)

lemma text_part_ok:
  assumes "ready bs st"
  shows "part_ok js bs (up_text oi cs) st (text_blocks (concat cs)) True"
  using assms
proof (induction cs)
  case Nil
  then show ?case
    by (simp add: part_ok_def up_text_def text_blocks_def resToAnthHandleBlockDone_def ready_def)
next
  case (Cons s cs)
  show ?case
  proof (cases "s = ''''")
    case True
    with Cons show ?thesis by (simp add: part_ok_def up_text_def resToAnthHandleTextDelta_def Let_def split_beta)
  next
    case False
    let ?st = "st\<lparr>ContentBlockOpen := True, CurrentBlockType := ''text''\<rparr>"
    let ?b = "zero_block\<lparr>cb_Type := ''text'', cb_Text := s\<rparr>"
    from Cons.prems have r: "\<not> ContentBlockOpen st" "ContentBlockIndex st = int (length bs)" by (simp_all add: ready_def)
    obtain out where out: "convert_all js (map (up_delta ''response.output_text.delta'' oi) cs) ?st = (out, ?st)"
      "client_all out (in_block bs ?b '''') = Some (in_block bs (?b\<lparr>cb_Text := s @ concat cs\<rparr>) '''')"
      using text_chunks_open [of ?st bs ?b js oi cs "''''"] r by auto
    have "resToAnthHandleTextDelta (up_delta ''response.output_text.delta'' oi s) st =
        ([block_start (ContentBlockIndex st) (zero_block\<lparr>cb_Type := ''text'', cb_Text := ''''\<rparr>),
          block_delta (ContentBlockIndex st) (text_delta s)], ?st)"
      using False r Cons.prems by (simp add: resToAnthHandleTextDelta_def)
    then have "convert_all js (up_text oi (s # cs)) st =
        ([block_start (ContentBlockIndex st) (zero_block\<lparr>cb_Type := ''text'', cb_Text := ''''\<rparr>),
          block_delta (ContentBlockIndex st) (text_delta s)] @ out @ [block_stop (ContentBlockIndex st)],
         ?st\<lparr>ContentBlockOpen := False, ContentBlockIndex := ContentBlockIndex st + 1, CurrentToolName := '''', CurrentToolArgs := ''''\<rparr>)"
      using out(1) by (simp add: up_text_def convert_snoc resToAnthHandleBlockDone_def close_open)
    then show ?thesis
      using False r out(2) by (simp add: part_ok_def client_append text_blocks_def)
  qed
qed

lemma part_ok_append:
  assumes "part_ok js bs es st new t" and "\<And>st'. ready (bs @ new) st' \<Longrightarrow> part_ok js (bs @ new) fs st' new' t'"
    and "ready bs st"
  shows "part_ok js bs (es @ fs) st (new @ new') (t \<and> t')"
proof -
  obtain out st' where 1: "convert_all js es st = (out, st')" "\<not> ContentBlockOpen st'"
    "ContentBlockIndex st' = int (length (bs @ new))" "MessageStopSent st' = MessageStopSent st"
    "MessageStartSent st' = MessageStartSent st"
    "t \<longrightarrow> CurrentBlockType st' = (if new = [] then CurrentBlockType st else cb_Type (last new))"
    "client_all out (after_blocks bs) = Some (after_blocks (bs @ new))"
    using assms(1) unfolding part_ok_def by blast
  have "part_ok js (bs @ new) fs st' new' t'" by (rule assms(2)) (simp add: ready_def 1(2,3))
  then obtain out2 st2 where 2: "convert_all js fs st' = (out2, st2)" "\<not> ContentBlockOpen st2"
    "ContentBlockIndex st2 = int (length ((bs @ new) @ new'))" "MessageStopSent st2 = MessageStopSent st'"
    "MessageStartSent st2 = MessageStartSent st'"
    "t' \<longrightarrow> CurrentBlockType st2 = (if new' = [] then CurrentBlockType st' else cb_Type (last new'))"
    "client_all out2 (after_blocks (bs @ new)) = Some (after_blocks ((bs @ new) @ new'))"
    unfolding part_ok_def by blast
  show ?thesis unfolding part_ok_def
    by (intro exI [of _ "out @ out2"] exI [of _ st2])
      (use 1 2 in \<open>auto simp: convert_append client_append\<close>)
qed

lemma text_parts_ok:
  assumes "ready bs st"
  shows "part_ok js bs (concat (map (up_text oi) css)) st (concat (map (text_blocks \<circ> concat) css)) True"
  using assms
proof (induction css arbitrary: bs st)
  case Nil
  then show ?case by (simp add: part_ok_def ready_def)
next
  case (Cons cs css)
  from part_ok_append [OF text_part_ok [OF Cons.prems] Cons.IH Cons.prems] show ?case by simp
qed

text \<open>An item adds no block until its own are opened, and its end adds none.\<close>

lemma added_quiet:
  "ro_Type item = ''message'' \<or> ro_Type item = ''web_search_call'' \<Longrightarrow>
     resToAnthHandleOutputItemAdded (up_added oi item) st = ([], st)"
  by (auto simp: resToAnthHandleOutputItemAdded_def)

lemma done_quiet:
  "ready bs st \<Longrightarrow> ro_Type item \<noteq> ''web_search_call'' \<Longrightarrow> resToAnthHandleOutputItemDone js (up_done oi item) st = ([], st)"
  by (simp add: resToAnthHandleOutputItemDone_def ready_def)

lemma part_ok_done:
  assumes "part_ok js bs es st new t" and "ro_Type item \<noteq> ''web_search_call''" and "ready bs st"
  shows "part_ok js bs (es @ [up_done oi item]) st new t"
proof -
  have "part_ok js (bs @ new) [up_done oi item] st' [] True" if "ready (bs @ new) st'" for st'
    using done_quiet [OF that assms(2)] that by (simp add: part_ok_def ready_def)
  from part_ok_append [OF assms(1) this assms(3)] show ?thesis by simp
qed

lemma message_ok:
  assumes "ready bs st" and "ro_Type item = ''message''" and "ro_Type item0 = ''message''"
    and "ro_Content item = map (\<lambda>cs. \<lparr>rp_Type = ''output_text'', rp_Text = concat cs\<rparr>) css"
  shows "part_ok js bs (up_added oi item0 # concat (map (up_text oi) css) @ [up_done oi item]) st (item_blocks js item) True"
proof -
  have "map (\<lambda>p. zero_block\<lparr>cb_Type := ''text'', cb_Text := rp_Text p\<rparr>)
      (filter (\<lambda>p. rp_Type p = ''output_text'' \<and> rp_Text p \<noteq> '''') (map (\<lambda>cs. \<lparr>rp_Type = ''output_text'', rp_Text = concat cs\<rparr>) css)) =
      concat (map (text_blocks \<circ> concat) css)"
    by (induction css) (auto simp: text_blocks_def)
  then have b: "item_blocks js item = concat (map (text_blocks \<circ> concat) css)"
    using assms(2,4) by (simp add: item_blocks_def)
  have "part_ok js bs (concat (map (up_text oi) css) @ [up_done oi item]) st (item_blocks js item) True"
    unfolding b by (rule part_ok_done [OF text_parts_ok [OF assms(1)] _ assms(1)]) (simp add: assms(2))
  then show ?thesis by (simp add: part_ok_def added_quiet assms(3) split_beta Let_def)
qed

lemma reasoning_ok:
  assumes "ready bs st" and "ro_Type item = ''reasoning''" and "ro_Type item0 = ''reasoning''"
    and "ro_Summary item = [\<lparr>rs_Type = ''summary_text'', rs_Text = concat cs\<rparr>]" and "concat cs \<noteq> ''''"
  shows "part_ok js bs (up_added oi item0 # map (up_delta ''response.reasoning_summary_text.delta'' oi) cs @
      [up_event ''response.reasoning_summary_text.done'' oi None '''' '''', up_done oi item]) st (item_blocks js item) True"
proof -
  let ?b = "zero_block\<lparr>cb_Type := ''thinking'', cb_Thinking := ''''\<rparr>"
  let ?es = "up_added oi item0 # map (up_delta ''response.reasoning_summary_text.delta'' oi) cs @
      [up_event ''response.reasoning_summary_text.done'' oi None '''' '''']"
  let ?st = "st\<lparr>OutputIndexToBlockIdx := (OutputIndexToBlockIdx st)(oi \<mapsto> int (length bs)), ContentBlockOpen := True,
                    CurrentBlockType := ''thinking''\<rparr>"
  have i: "ContentBlockIndex st = int (length bs)" using assms(1) by (simp add: ready_def)
  have b: "item_blocks js item = [?b\<lparr>cb_Thinking := concat cs\<rparr>]"
    using assms(2,4,5) by (simp add: item_blocks_def summary_text_def)
  obtain out where out: "convert_all js (map (up_delta ''response.reasoning_summary_text.delta'' oi) cs) ?st = (out, ?st)"
    "client_all out (in_block bs ?b '''') = Some (in_block bs (?b\<lparr>cb_Thinking := concat cs\<rparr>) '''')"
    using thinking_chunks [of ?st oi bs ?b js cs "''''"] by auto
  have "resToAnthHandleOutputItemAdded (up_added oi item0) st = ([block_start (int (length bs)) ?b], ?st)"
    using assms(1,3) i by (simp add: resToAnthHandleOutputItemAdded_def Let_def)
  then have "convert_all js ?es st = (block_start (int (length bs)) ?b # out @ [block_stop (int (length bs))],
      ?st\<lparr>ContentBlockOpen := False, ContentBlockIndex := int (length bs) + 1, CurrentToolName := '''', CurrentToolArgs := ''''\<rparr>)"
    using out(1) i by (simp add: convert_append resToAnthHandleBlockDone_def close_open)
  then have "part_ok js bs ?es st (item_blocks js item) True"
    using out(2) b by (simp add: part_ok_def client_append)
  from part_ok_done [OF this _ assms(1), of item oi] assms(2) show ?thesis by simp
qed

lemma sanitized_nonempty:
  assumes "\<forall>kvs s. js_marshal js kvs = Some s \<longrightarrow> s \<noteq> ''''" and "raw \<noteq> ''''"
  shows "sanitizeAnthropicToolUseInput js name raw \<noteq> ''''"
  using assms by (auto simp: sanitizeAnthropicToolUseInput_def split: option.splits)

lemma function_call_ok:
  assumes "ready bs st" and "ro_Type item = ''function_call''" and "ro_Type item0 = ''function_call''"
    and "ro_CallID item0 = ro_CallID item" and "ro_Name item0 = ro_Name item" and "ro_Arguments item = concat cs"
    and "concat cs \<noteq> ''''" and js: "\<forall>kvs s. js_marshal js kvs = Some s \<longrightarrow> s \<noteq> ''''"
  shows "part_ok js bs (up_added oi item0 # map (up_delta ''response.function_call_arguments.delta'' oi) cs @
      [up_event ''response.function_call_arguments.done'' oi None '''' (ro_Arguments item), up_done oi item]) st (item_blocks js item) True"
proof -
  let ?b = "zero_block\<lparr>cb_Type := ''tool_use'', cb_ID := fromResponsesCallID (ro_CallID item), cb_Name := ro_Name item, cb_Input := ''{}''\<rparr>"
  let ?i = "int (length bs)"
  let ?in = "sanitizeAnthropicToolUseInput js (ro_Name item) (concat cs)"
  let ?deltas = "map (up_delta ''response.function_call_arguments.delta'' oi) cs"
  let ?es = "up_added oi item0 # ?deltas @ [up_event ''response.function_call_arguments.done'' oi None '''' (ro_Arguments item)]"
  let ?st = "st\<lparr>OutputIndexToBlockIdx := (OutputIndexToBlockIdx st)(oi \<mapsto> ?i), ContentBlockOpen := True,
                    CurrentBlockType := ''tool_use'', CurrentToolName := ro_Name item, CurrentToolArgs := ''''\<rparr>"
  let ?after = "?st\<lparr>ContentBlockOpen := False, ContentBlockIndex := ?i + 1, CurrentToolName := '''', CurrentToolArgs := ''''\<rparr>"
  have i: "ContentBlockIndex st = ?i" using assms(1) by (simp add: ready_def)
  have b: "item_blocks js item = [?b\<lparr>cb_Input := ?in\<rparr>]" using assms(2,6) by (simp add: item_blocks_def)
  have ne: "?in \<noteq> ''''" by (rule sanitized_nonempty [OF js assms(7)])
  have added: "resToAnthHandleOutputItemAdded (up_added oi item0) st = ([block_start ?i ?b], ?st)"
    using assms(1,3-5) i by (simp add: resToAnthHandleOutputItemAdded_def Let_def)
  have "\<exists>out. convert_all js ?es st = (block_start ?i ?b # out @ [block_stop ?i], ?after) \<and>
      client_all out (in_block bs ?b '''') = Some (in_block bs ?b ?in)"
  proof (cases "ro_Name item = ''Read''")
    case True
    have "convert_all js ?deltas ?st = ([], ?st\<lparr>CurrentToolArgs := concat cs\<rparr>)"
      using args_chunks_read [of ?st js oi cs] True by simp
    then show ?thesis
      using added True i ne assms(6,7)
      by (intro exI [of _ "[block_delta ?i (json_delta ?in)]"])
        (simp add: convert_append resToAnthHandleFuncArgsDone_def close_open Let_def)
  next
    case False
    obtain out where out: "convert_all js ?deltas ?st = (out, ?st)"
      "client_all out (in_block bs ?b '''') = Some (in_block bs ?b (concat cs))"
      using args_chunks [of ?st oi bs ?b js cs "''''"] False by auto
    with False added i show ?thesis
      by (intro exI [of _ out])
        (simp add: convert_append resToAnthHandleFuncArgsDone_def resToAnthHandleBlockDone_def close_open
          sanitizeAnthropicToolUseInput_def)
  qed
  then have "part_ok js bs ?es st (item_blocks js item) True"
    using b ne by (auto simp: part_ok_def client_append)
  from part_ok_done [OF this _ assms(1), of item oi] assms(2) show ?thesis by simp
qed

lemma web_search_ok:
  assumes "ready bs st" and "ro_Type item = ''web_search_call''" and "ro_Type item0 = ''web_search_call''"
    and "ro_Status item = ''completed''"
  shows "part_ok js bs [up_added oi item0, up_done oi item] st (item_blocks js item) False"
  using assms
  by (simp add: part_ok_def added_quiet resToAnthHandleOutputItemDone_def resToAnthHandleWebSearchDone_def
      item_blocks_def web_search_blocks_def ready_def closeCurrentBlock_def Let_def)

lemma item_stream_ok:
  assumes "item_stream oi item es" and "ready bs st" and "\<forall>kvs s. js_marshal js kvs = Some s \<longrightarrow> s \<noteq> ''''"
  shows "part_ok js bs es st (item_blocks js item) (ro_Type item \<noteq> ''web_search_call'')"
  using assms(1)
proof cases
  case (reasoning item0 cs)
  with reasoning_ok [OF assms(2)] show ?thesis by simp
next
  case (message item0 css)
  with message_ok [OF assms(2)] show ?thesis by simp
next
  case (function_call item0 cs)
  with function_call_ok [OF assms(2) _ _ _ _ _ _ assms(3)] show ?thesis by simp
next
  case (web_search item0)
  with web_search_ok [OF assms(2)] show ?thesis by simp
qed

inductive response_stream :: "ResponsesOutput list \<Rightarrow> ResponsesStreamEvent list \<Rightarrow> bool" where
  no_item: "response_stream [] []"
| next_item: "item_stream oi item es \<Longrightarrow> response_stream items fs \<Longrightarrow> response_stream (item # items) (es @ fs)"

definition no_web_search :: "ResponsesOutput list \<Rightarrow> bool" where
  "no_web_search items = list_all (\<lambda>i. ro_Type i \<noteq> ''web_search_call'') items"

lemma response_stream_ok:
  assumes "response_stream items es" and "ready bs st" and "\<forall>kvs s. js_marshal js kvs = Some s \<longrightarrow> s \<noteq> ''''"
  shows "part_ok js bs es st (concat (map (item_blocks js) items)) (no_web_search items)"
  using assms(1,2)
proof (induction arbitrary: bs st rule: response_stream.induct)
  case no_item
  then show ?case by (simp add: part_ok_def ready_def)
next
  case (next_item oi item es items fs)
  from part_ok_append [OF item_stream_ok [OF next_item.hyps(1) next_item.prems assms(3)] next_item.IH next_item.prems]
  show ?case by (simp add: no_web_search_def)
qed

abbreviation fresh_state :: "int \<Rightarrow> string \<Rightarrow> ResponsesEventToAnthropicState" where
  "fresh_state now m \<equiv> (NewResponsesEventToAnthropicState now)\<lparr>Model := m\<rparr>"

lemma created_step:
  assumes "re_Type created = ''response.created''"
  shows "\<exists>e st. ResponsesEventToAnthropicEvents js created (fresh_state now m) = ([e], st) \<and>
     ae_Type e = ''message_start'' \<and> ae_Index e = None \<and> ready [] st \<and> CurrentBlockType st = '''' \<and>
     MessageStartSent st \<and> \<not> MessageStopSent st"
  using assms
  by (cases "re_Response created")
    (simp_all add: ResponsesEventToAnthropicEvents_def resToAnthHandleCreated_def NewResponsesEventToAnthropicState_def
      ready_def zero_event_def Let_def)

text \<open>The whole stream: the message starts, the items follow, and the response ends it.\<close>

lemma whole_stream:
  assumes "response_stream (rr_Output resp) es" and js: "\<forall>kvs s. js_marshal js kvs = Some s \<longrightarrow> s \<noteq> ''''"
    and "re_Type created = ''response.created''" and "terminal fin" and "re_Response fin = Some resp"
  shows "\<exists>pre st. converted_stream js now m (created # es @ [fin]) =
      pre @ [message_delta (completed_reason fin (take_usage fin st)) (take_usage fin st), message_stop] \<and>
      client_all pre (after_blocks []) = Some (after_blocks (concat (map (item_blocks js) (rr_Output resp)))) \<and>
      ContentBlockIndex st = int (length (concat (map (item_blocks js) (rr_Output resp)))) \<and>
      (no_web_search (rr_Output resp) \<longrightarrow> CurrentBlockType st =
         (if concat (map (item_blocks js) (rr_Output resp)) = [] then ''''
          else cb_Type (last (concat (map (item_blocks js) (rr_Output resp))))))"
proof -
  let ?bs = "concat (map (item_blocks js) (rr_Output resp))"
  let ?st0 = "fresh_state now m"
  obtain e1 st1 where c: "ResponsesEventToAnthropicEvents js created ?st0 = ([e1], st1)"
    and e1: "ae_Type e1 = ''message_start''" and st1: "ready [] st1" "CurrentBlockType st1 = ''''" "MessageStartSent st1" "\<not> MessageStopSent st1"
    using created_step [OF assms(3), where js = js and now = now and m = m] by blast
  obtain out st where r: "convert_all js es st1 = (out, st)" "\<not> ContentBlockOpen st" "ContentBlockIndex st = int (length ?bs)"
    "MessageStopSent st = MessageStopSent st1"
    "no_web_search (rr_Output resp) \<longrightarrow> CurrentBlockType st = (if ?bs = [] then CurrentBlockType st1 else cb_Type (last ?bs))"
    "client_all out (after_blocks []) = Some (after_blocks ?bs)"
    using response_stream_ok [OF assms(1) st1(1) js] unfolding part_ok_def by auto
  have "closeCurrentBlock st = ([], st)" using r(2) by (simp add: closeCurrentBlock_def)
  then have f: "ResponsesEventToAnthropicEvents js fin st =
      ([message_delta (completed_reason fin (take_usage fin st)) (take_usage fin st), message_stop],
       (take_usage fin st)\<lparr>MessageStopSent := True\<rparr>)"
    using assms(4) r(4) st1(4)
    by (auto simp: ResponsesEventToAnthropicEvents_def terminal_def resToAnthHandleCompleted_def Let_def)
  have "converted_stream js now m (created # es @ [fin]) = (e1 # out) @
      [message_delta (completed_reason fin (take_usage fin st)) (take_usage fin st), message_stop]"
    using c r(1) f by (simp add: converted_stream_def convert_append FinalizeResponsesAnthropicStream_def split_beta Let_def)
  moreover have "client_all (e1 # out) (after_blocks []) = Some (after_blocks ?bs)"
    using e1 r(6) by (simp add: client_event_def)
  ultimately show ?thesis using r(3,5) st1(2)
    by (intro exI [of _ "e1 # out"] exI [of _ st]) simp
qed

section \<open>Properties\<close>

text \<open>C10. The blocks of every converted stream, whatever the upstream sends, are numbered from 0
  without gaps, and each is stopped before the next starts; at most the last one is left open.\<close>

theorem stream_bracketed:
  "\<exists>n. marks (converted_stream js now m es) = closed_blocks n \<or>
       marks (converted_stream js now m es) = closed_blocks n @ [Open (int n)]"
proof -
  let ?st0 = "fresh_state now m"
  obtain a st1 b st2 where r: "convert_all js es ?st0 = (a, st1)" "FinalizeResponsesAnthropicStream st1 = (b, st2)" by fastforce
  have "structured ?st0 (a @ b, st2)"
    using structured_trans structured_all [of ?st0 js es] structured_final [of st1] r by metis
  then have "0 \<le> ContentBlockIndex st2" "emitted st2 = marks (a @ b)"
    by (simp_all add: structured_def emitted_def NewResponsesEventToAnthropicState_def closed_blocks_def)
  then have "marks (a @ b) = closed_blocks (nat (ContentBlockIndex st2)) @
      (if ContentBlockOpen st2 then [Open (int (nat (ContentBlockIndex st2)))] else [])"
    unfolding emitted_def by (metis int_nat_eq)
  moreover have "converted_stream js now m es = a @ b" using r by (simp add: converted_stream_def)
  ultimately show ?thesis by (cases "ContentBlockOpen st2") (auto split: if_splits)
qed

text \<open>C9. A stream that starts with the creation of the response, and in which nothing but final
  events follows a final event, is converted into one whole message, also if the upstream breaks
  off or repeats the final event: a start, block events in which every block is closed, one
  message delta and one stop.\<close>

theorem stream_framed:
  assumes "re_Type created = ''response.created''" and "list_all (\<lambda>e. \<not> terminal e) es" and "list_all terminal ts"
  shows "\<exists>start body n r u. converted_stream js now m (created # es @ ts) = start # body @ [message_delta r u, message_stop] \<and>
     ae_Type start = ''message_start'' \<and> list_all block_event body \<and> marks body = closed_blocks n"
proof -
  let ?st0 = "fresh_state now m"
  obtain e1 st1 where c: "ResponsesEventToAnthropicEvents js created ?st0 = ([e1], st1)"
    and e1: "ae_Type e1 = ''message_start''" "ae_Index e1 = None" and st1: "MessageStartSent st1" "\<not> MessageStopSent st1"
    using created_step [OF assms(1), where js = js and now = now and m = m] by blast
  obtain a st2 where a: "convert_all js es st1 = (a, st2)" by fastforce
  have body: "list_all block_event a" "MessageStartSent st2" "\<not> MessageStopSent st2"
    using in_body_all [OF assms(2), of st1 js] st1 a by (simp_all add: in_body_def)
  obtain b r u st3 fin st4 where t: "convert_all js ts st2 = (fst (convert_all js ts st2), st3)"
    "FinalizeResponsesAnthropicStream st3 = (fin, st4)"
    "fst (convert_all js ts st2) @ fin = b @ [message_delta r u, message_stop]" "list_all block_event b" "\<not> ContentBlockOpen st4"
    using stream_ends [OF body(2,3) assms(3), of js] by blast
  have all: "convert_all js (created # es @ ts) ?st0 = (e1 # a @ fst (convert_all js ts st2), st3)"
    using c a arg_cong [OF t(1), of snd] by (simp add: convert_append split_beta Let_def)
  have s: "converted_stream js now m (created # es @ ts) = e1 # (a @ b) @ [message_delta r u, message_stop]"
    unfolding converted_stream_def all using t(2,3) by simp
  have "structured ?st0 (([e1] @ a @ fst (convert_all js ts st2)) @ fin, st4)"
  proof (rule structured_trans)
    show "structured ?st0 ([e1] @ a @ fst (convert_all js ts st2), st3)"
      using structured_all [of ?st0 js "created # es @ ts"] unfolding all by simp
    show "structured st3 (fin, st4)" using structured_final [of st3] t(2) by simp
  qed
  then have "marks (([e1] @ a @ fst (convert_all js ts st2)) @ fin) = closed_blocks (nat (ContentBlockIndex st4))"
    using t(5) by (simp add: structured_def emitted_def NewResponsesEventToAnthropicState_def closed_blocks_def)
  then have "marks (a @ b @ [message_delta r u, message_stop]) = closed_blocks (nat (ContentBlockIndex st4))"
    using t(3) e1(2) by simp
  then show ?thesis using s e1(1) body(1) t(4) by (intro exI [of _ e1] exI [of _ "a @ b"]) auto
qed

text \<open>No text is lost, repeated or reordered: for every upstream stream, the text deltas sent to
  the client concatenate to the text deltas received.\<close>

theorem stream_text_preserved:
  "texts (converted_stream js now m es) = upstream_text es"
proof -
  let ?st0 = "fresh_state now m"
  obtain a st1 b st2 where r: "convert_all js es ?st0 = (a, st1)" "FinalizeResponsesAnthropicStream st1 = (b, st2)" by fastforce
  then show ?thesis
    using texts_all [of js es ?st0] texts_final [of st1] by (simp add: converted_stream_def)
qed

text \<open>C8. The streaming and the whole conversion agree on the documented shape of a stream: the event that announces the
  response, for each item of its output in order the events of \<open>item_stream\<close> (a message of text parts, a function call with
  arguments, a completed web search, or a reasoning item with one summary part that is not empty), and a terminal event that
  carries the response. If the JSON library never writes the empty text, a strict client of the
  converted stream collects the blocks into which the whole response is converted (which adds an empty text
  if there are none). For other reasoning items the two differ: see \<open>stream_empty_summary\<close> and
  \<open>stream_second_summary_part\<close>.
\<close>

theorem stream_equals_whole:
  assumes "response_stream (rr_Output resp) es" and "\<forall>kvs s. js_marshal js kvs = Some s \<longrightarrow> s \<noteq> ''''"
    and "re_Type created = ''response.created''" and "terminal fin" and "re_Response fin = Some resp"
  shows "\<exists>bs. collect (converted_stream js now m (created # es @ [fin])) = Some bs \<and>
     ar_Content (ResponsesToAnthropic js resp m) = (if bs = [] then [zero_block\<lparr>cb_Type := ''text'', cb_Text := ''''\<rparr>] else bs)"
proof -
  let ?bs = "concat (map (item_blocks js) (rr_Output resp))"
  obtain pre r u where "converted_stream js now m (created # es @ [fin]) = pre @ [message_delta r u, message_stop]"
    "client_all pre (after_blocks []) = Some (after_blocks ?bs)"
    using whole_stream [OF assms, of now m] by blast
  then have "collect (converted_stream js now m (created # es @ [fin])) = Some ?bs"
    by (simp add: collect_def client_append)
  then show ?thesis by (simp add: ResponsesToAnthropic_def Let_def)
qed

text \<open>The end of the stream carries the usage of the response, and its stop reason is the one
  of the whole conversion if the response has no web search.\<close>

theorem stream_ends_as_whole:
  assumes "response_stream (rr_Output resp) es" and "\<forall>kvs s. js_marshal js kvs = Some s \<longrightarrow> s \<noteq> ''''"
    and "re_Type created = ''response.created''" and "terminal fin" and "re_Response fin = Some resp"
    and "rr_Usage resp = Some usage" and "no_web_search (rr_Output resp)"
  shows "\<exists>pre u. converted_stream js now m (created # es @ [fin]) =
       pre @ [message_delta (ar_StopReason (ResponsesToAnthropic js resp m)) u, message_stop] \<and>
     ae_Usage (message_delta (ar_StopReason (ResponsesToAnthropic js resp m)) u) = Some (ar_Usage (ResponsesToAnthropic js resp m))"
proof -
  define bs where "bs = concat (map (item_blocks js) (rr_Output resp))"
  let ?whole = "ResponsesToAnthropic js resp m"
  obtain pre st where s: "converted_stream js now m (created # es @ [fin]) =
      pre @ [message_delta (completed_reason fin (take_usage fin st)) (take_usage fin st), message_stop]"
    "ContentBlockIndex st = int (length bs)"
    "CurrentBlockType st = (if bs = [] then '''' else cb_Type (last bs))"
    using whole_stream [OF assms(1-5), of now m] assms(7) unfolding bs_def [symmetric] by blast
  have "completed_reason fin (take_usage fin st) = ar_StopReason ?whole"
    using assms(5) s(2,3)
    by (auto simp: completed_reason_def take_usage_def ResponsesToAnthropic_def responsesStatusToAnthropicStopReason_def
        Let_def bs_def [symmetric])
  moreover have "ae_Usage (message_delta r (take_usage fin st)) = Some (ar_Usage ?whole)" for r
    using assms(5,6)
    by (simp add: message_delta_def take_usage_def ResponsesToAnthropic_def anthropicUsageFromResponsesUsage_def
        zero_usage_def Let_def)
  ultimately show ?thesis using s(1) by auto
qed

text \<open>A reasoning item without a summary leaves a client of the stream with an empty thinking block; the
  whole conversion makes no block of it.\<close>

theorem stream_empty_summary:
  assumes "re_Type created = ''response.created''" and "terminal fin" and "ro_Type item = ''reasoning''" and "ro_Summary item = []"
  shows "collect (converted_stream js now m [created, up_added oi item, up_done oi item, fin]) =
       Some [zero_block\<lparr>cb_Type := ''thinking'', cb_Thinking := ''''\<rparr>] \<and> item_blocks js item = []"
proof -
  let ?b = "zero_block\<lparr>cb_Type := ''thinking'', cb_Thinking := ''''\<rparr>"
  obtain e1 st1 where c: "ResponsesEventToAnthropicEvents js created (fresh_state now m) = ([e1], st1)"
    and e1: "ae_Type e1 = ''message_start''" and st1: "ready [] st1" "\<not> MessageStopSent st1"
    using created_step [OF assms(1), where js = js and now = now and m = m] by blast
  have i: "ContentBlockIndex st1 = 0" "\<not> ContentBlockOpen st1" using st1(1) by (simp_all add: ready_def)
  define st where "st = st1\<lparr>OutputIndexToBlockIdx := (OutputIndexToBlockIdx st1)(oi \<mapsto> 0), ContentBlockOpen := False,
      CurrentBlockType := ''thinking'', ContentBlockIndex := 1, CurrentToolName := '''', CurrentToolArgs := ''''\<rparr>"
  have "closeCurrentBlock st = ([], st)" "\<not> MessageStopSent st" using st1(2) by (simp_all add: st_def closeCurrentBlock_def)
  then have f: "ResponsesEventToAnthropicEvents js fin st =
      ([message_delta (completed_reason fin (take_usage fin st)) (take_usage fin st), message_stop],
       (take_usage fin st)\<lparr>MessageStopSent := True\<rparr>)"
    using assms(2) by (auto simp: ResponsesEventToAnthropicEvents_def terminal_def resToAnthHandleCompleted_def Let_def)
  have "convert_all js [up_added oi item, up_done oi item] st1 = ([block_start 0 ?b, block_stop 0], st)"
    using assms(3) i st1(1) by (simp add: st_def resToAnthHandleOutputItemAdded_def resToAnthHandleOutputItemDone_def close_open Let_def split_beta)
  then have "converted_stream js now m [created, up_added oi item, up_done oi item, fin] =
      [e1, block_start 0 ?b, block_stop 0, message_delta (completed_reason fin (take_usage fin st)) (take_usage fin st), message_stop]"
    using c f by (simp add: converted_stream_def FinalizeResponsesAnthropicStream_def split_beta Let_def split: prod.splits)
  moreover have "client_event e1 (after_blocks []) = Some (after_blocks [])" using e1 by (simp add: client_event_def)
  ultimately show ?thesis using assms(3,4) by (simp add: collect_def item_blocks_def summary_text_def)
qed

text \<open>A reasoning item with a second summary part breaks the protocol: the end of the first part
  stops the thinking block, and the text of the second part is sent as a delta of the stopped
  block, which a strict client rejects.\<close>

theorem stream_second_summary_part:
  assumes "re_Type created = ''response.created''" and "terminal fin" and "ro_Type item = ''reasoning''"
    and "first \<noteq> ''''" and "second \<noteq> ''''"
  shows "\<exists>pre post. converted_stream js now m
       [created, up_added oi item, up_delta ''response.reasoning_summary_text.delta'' oi first,
        up_event ''response.reasoning_summary_text.done'' oi None '''' '''',
        up_delta ''response.reasoning_summary_text.delta'' oi second,
        up_event ''response.reasoning_summary_text.done'' oi None '''' '''', up_done oi item, fin] =
       pre @ [block_stop 0, block_delta 0 (thinking_delta second)] @ post \<and>
     collect (pre @ [block_stop 0, block_delta 0 (thinking_delta second)] @ post) = None"
proof -
  obtain e1 st1 where c: "ResponsesEventToAnthropicEvents js created (fresh_state now m) = ([e1], st1)"
    and e1: "ae_Type e1 = ''message_start''" and st1: "ready [] st1" "\<not> MessageStopSent st1"
    using created_step [OF assms(1), where js = js and now = now and m = m] by blast
  let ?b = "zero_block\<lparr>cb_Type := ''thinking'', cb_Thinking := ''''\<rparr>"
  let ?pre = "[e1, block_start 0 ?b, block_delta 0 (thinking_delta first)]"
  have i: "ContentBlockIndex st1 = 0" "\<not> ContentBlockOpen st1" using st1(1) by (simp_all add: ready_def)
  have client: "client_all (?pre @ [block_stop 0, block_delta 0 (thinking_delta second)] @ post) (after_blocks []) = None" for post
  proof -
    have "client_event (block_delta 0 (thinking_delta second)) (after_blocks [b]) = None" for b
      by (simp add: client_event_def block_delta_def zero_event_def)
    moreover have "client_event e1 (after_blocks []) = Some (after_blocks [])" using e1 by (simp add: client_event_def)
    ultimately show ?thesis by simp
  qed
  obtain r u post where "terminal fin \<longrightarrow> ResponsesEventToAnthropicEvents js fin
      (st1\<lparr>OutputIndexToBlockIdx := (OutputIndexToBlockIdx st1)(oi \<mapsto> 0), ContentBlockOpen := False, CurrentBlockType := ''thinking'',
         ContentBlockIndex := 1, CurrentToolName := '''', CurrentToolArgs := ''''\<rparr>) = (post, u)" by fastforce
  with assms(2) have f: "ResponsesEventToAnthropicEvents js fin
      (st1\<lparr>OutputIndexToBlockIdx := (OutputIndexToBlockIdx st1)(oi \<mapsto> 0), ContentBlockOpen := False, CurrentBlockType := ''thinking'',
         ContentBlockIndex := 1, CurrentToolName := '''', CurrentToolArgs := ''''\<rparr>) = (post, u)" by simp
  have "\<exists>post. converted_stream js now m
       [created, up_added oi item, up_delta ''response.reasoning_summary_text.delta'' oi first,
        up_event ''response.reasoning_summary_text.done'' oi None '''' '''',
        up_delta ''response.reasoning_summary_text.delta'' oi second,
        up_event ''response.reasoning_summary_text.done'' oi None '''' '''', up_done oi item, fin] =
       ?pre @ [block_stop 0, block_delta 0 (thinking_delta second)] @ post"
    using assms(3-5) c i st1(1) f
    by (simp add: converted_stream_def resToAnthHandleOutputItemAdded_def resToAnthHandleReasoningDelta_def
        resToAnthHandleBlockDone_def resToAnthHandleOutputItemDone_def close_open Let_def split_beta)
  then obtain post where "converted_stream js now m
       [created, up_added oi item, up_delta ''response.reasoning_summary_text.delta'' oi first,
        up_event ''response.reasoning_summary_text.done'' oi None '''' '''',
        up_delta ''response.reasoning_summary_text.delta'' oi second,
        up_event ''response.reasoning_summary_text.done'' oi None '''' '''', up_done oi item, fin] =
       ?pre @ [block_stop 0, block_delta 0 (thinking_delta second)] @ post" by blast
  with client [of post] show ?thesis by (intro exI [of _ ?pre] exI [of _ post]) (simp add: collect_def)
qed

text \<open>C11. Which tool call ids survive the way to the upstream and back: an id without the upstream prefix \<open>fc_\<close> exactly if
  it starts with \<open>toolu_\<close> or \<open>call_\<close>; an id with the prefix \<open>fc_\<close> exactly if what follows the prefix does
  not start with one of these.
\<close>

theorem call_id_roundtrip:
  "fromResponsesCallID (toResponsesCallID i) = i \<longleftrightarrow>
     (if HasPrefix i ''fc_'' then \<not> (HasPrefix (drop 3 i) ''toolu_'' \<or> HasPrefix (drop 3 i) ''call_'')
      else HasPrefix i ''toolu_'' \<or> HasPrefix i ''call_'')"
proof (cases "HasPrefix i ''fc_''")
  case True
  have "drop 3 i \<noteq> i" using True by (auto simp: HasPrefix_def prefix_def)
  moreover have "length ''fc_'' = 3" by simp
  ultimately show ?thesis using True
    by (simp only: toResponsesCallID_def fromResponsesCallID_def CutPrefix_def if_True option.case split: if_split) simp
next
  case False
  have "HasPrefix (''fc_'' @ i) ''fc_''" by (simp add: HasPrefix_def)
  moreover have "''fc_'' @ i \<noteq> i" by simp
  ultimately show ?thesis using False by (auto simp: toResponsesCallID_def fromResponsesCallID_def CutPrefix_def)
qed

section \<open>A concrete response\<close>

definition demo_json :: json_lib where
  "demo_json = \<lparr>js_object = (\<lambda>raw. if raw = ''{\"pages\":\"\"}'' then Some [(''pages'', ''\"\"'')] else None),
     js_marshal = (\<lambda>kvs. Some ''{}''), js_query = (\<lambda>q. ''{}'')\<rparr>"

definition zero_output :: ResponsesOutput where
  "zero_output = \<lparr>ro_Type = '''', ro_ID = '''', ro_Content = [], ro_Status = '''', ro_Summary = [], ro_CallID = '''',
     ro_Name = '''', ro_Arguments = '''', ro_Action = None\<rparr>"

definition demo_items :: "ResponsesOutput list" where
  "demo_items =
     [zero_output\<lparr>ro_Type := ''reasoning'', ro_Summary := [\<lparr>rs_Type = ''summary_text'', rs_Text = ''think''\<rparr>]\<rparr>,
      zero_output\<lparr>ro_Type := ''message'', ro_Content := [\<lparr>rp_Type = ''output_text'', rp_Text = ''hello''\<rparr>]\<rparr>,
      zero_output\<lparr>ro_Type := ''function_call'', ro_CallID := ''fc_toolu_1'', ro_Name := ''Read'',
        ro_Arguments := ''{\"pages\":\"\"}''\<rparr>]"

definition demo_response :: ResponsesResponse where
  "demo_response = \<lparr>rr_ID = ''r1'', rr_Model = ''gpt'', rr_Status = ''completed'', rr_Output = demo_items,
     rr_Usage = Some \<lparr>ru_InputTokens = 10, ru_OutputTokens = 3, ru_CachedTokens = Some 4\<rparr>, rr_IncompleteDetails = None\<rparr>"

definition demo_upstream :: "ResponsesStreamEvent list" where
  "demo_upstream =
     [up_added 0 (demo_items ! 0),
      up_delta ''response.reasoning_summary_text.delta'' 0 ''thi'', up_delta ''response.reasoning_summary_text.delta'' 0 ''nk'',
      up_event ''response.reasoning_summary_text.done'' 0 None '''' '''', up_done 0 (demo_items ! 0),
      up_added 1 (demo_items ! 1),
      up_delta ''response.output_text.delta'' 1 ''hel'', up_delta ''response.output_text.delta'' 1 ''lo'',
      up_event ''response.output_text.done'' 1 None '''' '''', up_done 1 (demo_items ! 1),
      up_added 2 (demo_items ! 2),
      up_delta ''response.function_call_arguments.delta'' 2 ''{\"pages\":\"\"}'',
      up_event ''response.function_call_arguments.done'' 2 None '''' ''{\"pages\":\"\"}'', up_done 2 (demo_items ! 2)]"

definition demo_created :: ResponsesStreamEvent where
  "demo_created = \<lparr>re_Type = ''response.created'', re_Response = None, re_Item = None, re_OutputIndex = 0, re_Delta = '''',
     re_Arguments = ''''\<rparr>"

definition demo_final :: ResponsesStreamEvent where
  "demo_final = \<lparr>re_Type = ''response.completed'', re_Response = Some demo_response, re_Item = None, re_OutputIndex = 0,
     re_Delta = '''', re_Arguments = ''''\<rparr>"

lemma demo_events: "re_Type demo_created = ''response.created''" "terminal demo_final"
  "re_Response demo_final = Some demo_response" "rr_Output demo_response = demo_items"
  by (simp_all add: demo_created_def demo_final_def terminal_def demo_response_def)

lemma demo_stream: "response_stream demo_items demo_upstream"
proof -
  have r: "item_stream 0 (demo_items ! 0) (up_added 0 (demo_items ! 0) #
      map (up_delta ''response.reasoning_summary_text.delta'' 0) [''thi'', ''nk''] @
      [up_event ''response.reasoning_summary_text.done'' 0 None '''' '''', up_done 0 (demo_items ! 0)])"
    by (rule item_stream.reasoning) (simp_all add: demo_items_def)
  have m: "item_stream 1 (demo_items ! 1) (up_added 1 (demo_items ! 1) # concat (map (up_text 1) [[''hel'', ''lo'']]) @
      [up_done 1 (demo_items ! 1)])"
    by (rule item_stream.message) (simp_all add: demo_items_def)
  have f: "item_stream 2 (demo_items ! 2) (up_added 2 (demo_items ! 2) #
      map (up_delta ''response.function_call_arguments.delta'' 2) [''{\"pages\":\"\"}''] @
      [up_event ''response.function_call_arguments.done'' 2 None '''' (ro_Arguments (demo_items ! 2)), up_done 2 (demo_items ! 2)])"
    by (rule item_stream.function_call) (simp_all add: demo_items_def)
  have items: "demo_items = [demo_items ! 0, demo_items ! 1, demo_items ! 2]" by (simp add: demo_items_def)
  have args: "ro_Arguments (demo_items ! 2) = ''{\"pages\":\"\"}''" by (simp add: demo_items_def)
  have "response_stream [demo_items ! 0, demo_items ! 1, demo_items ! 2] demo_upstream"
    using response_stream.next_item [OF r response_stream.next_item [OF m response_stream.next_item [OF f response_stream.no_item]]]
    by (simp add: demo_upstream_def up_text_def args del: nth_Cons_numeral)
  then show ?thesis by (subst items)
qed

lemma demo_marshal: "\<forall>kvs s. js_marshal demo_json kvs = Some s \<longrightarrow> s \<noteq> ''''"
  by (simp add: demo_json_def)

lemma stream_framed_witness:
  "\<exists>start body n r u. converted_stream demo_json 0 ''claude'' (demo_created # take 8 demo_upstream @ []) =
       start # body @ [message_delta r u, message_stop] \<and>
     ae_Type start = ''message_start'' \<and> list_all block_event body \<and> marks body = closed_blocks n"
  by (rule stream_framed [OF demo_events(1)]) (simp_all add: demo_upstream_def terminal_def)

lemma stream_equals_whole_witness:
  "\<exists>bs. collect (converted_stream demo_json 0 ''claude'' (demo_created # demo_upstream @ [demo_final])) = Some bs \<and>
     ar_Content (ResponsesToAnthropic demo_json demo_response ''claude'') =
       (if bs = [] then [zero_block\<lparr>cb_Type := ''text'', cb_Text := ''''\<rparr>] else bs)"
  by (rule stream_equals_whole [OF _ demo_marshal demo_events(1-3)]) (simp add: demo_events(4) demo_stream)

lemma stream_ends_as_whole_witness:
  "\<exists>pre u. converted_stream demo_json 0 ''claude'' (demo_created # demo_upstream @ [demo_final]) =
       pre @ [message_delta (ar_StopReason (ResponsesToAnthropic demo_json demo_response ''claude'')) u, message_stop] \<and>
     ae_Usage (message_delta (ar_StopReason (ResponsesToAnthropic demo_json demo_response ''claude'')) u) =
       Some (ar_Usage (ResponsesToAnthropic demo_json demo_response ''claude''))"
  by (rule stream_ends_as_whole [OF demo_stream [folded demo_events(4)] demo_marshal demo_events(1-3)])
    (simp_all add: demo_response_def no_web_search_def demo_items_def)

lemma stream_second_summary_part_witness:
  "\<exists>pre post. converted_stream demo_json 0 ''claude''
       [demo_created, up_added 0 (demo_items ! 0), up_delta ''response.reasoning_summary_text.delta'' 0 ''one'',
        up_event ''response.reasoning_summary_text.done'' 0 None '''' '''',
        up_delta ''response.reasoning_summary_text.delta'' 0 ''two'',
        up_event ''response.reasoning_summary_text.done'' 0 None '''' '''', up_done 0 (demo_items ! 0), demo_final] =
       pre @ [block_stop 0, block_delta 0 (thinking_delta ''two'')] @ post \<and>
     collect (pre @ [block_stop 0, block_delta 0 (thinking_delta ''two'')] @ post) = None"
  by (rule stream_second_summary_part [OF demo_events(1,2)]) (simp_all add: demo_items_def)

end
