(* ===== verification/Subscription.thy ===== *)
theory Subscription
  imports GoPrelude
begin

text \<open>
  Subscriptions (\<open>backend/internal/service/user_subscription.go\<close>, \<open>subscription_service.go\<close> and
  \<open>subscription_expiry_service.go\<close>, over \<open>backend/internal/repository/user_subscription_repo.go\<close>):
  assignment, extension and revocation, the usage windows and their limits.

  The database holds the subscriptions that are not deleted, with at most one per user and group
  (the unique index). A storage call takes the next entry of the schedule of faults; if it fails
  it changes nothing. A transaction works on the rows and restores them when it is rolled back. The
  service keeps a cache of active subscriptions (\<open>subCacheL1\<close>), of which a caller gets a copy;
  its lifetime, which the code jitters, is an argument, and so are the readings of the clock.
  The shared billing cache is left out.
\<close>

section \<open>Subscriptions\<close>

record UserSubscription =
  us_ID :: int
  us_UserID :: int
  us_GroupID :: int
  us_StartsAt :: instant
  us_ExpiresAt :: instant
  us_Status :: string
  us_DailyWindowStart :: "instant option"
  us_WeeklyWindowStart :: "instant option"
  us_MonthlyWindowStart :: "instant option"
  us_DailyUsageUSD :: float64
  us_WeeklyUsageUSD :: float64
  us_MonthlyUsageUSD :: float64
  us_AssignedBy :: "int option"
  us_AssignedAt :: instant
  us_Notes :: string

record Group =
  gr_ID :: int
  gr_Status :: string
  gr_SubscriptionType :: string
  gr_DailyLimitUSD :: "float64 option"
  gr_WeeklyLimitUSD :: "float64 option"
  gr_MonthlyLimitUSD :: "float64 option"

definition SubscriptionStatusActive :: string where "SubscriptionStatusActive = ''active''"

definition SubscriptionStatusExpired :: string where "SubscriptionStatusExpired = ''expired''"

definition SubscriptionStatusSuspended :: string where "SubscriptionStatusSuspended = ''suspended''"

definition MaxExpiresAt :: instant where
  "MaxExpiresAt = seconds 4102444799"

definition MaxValidityDays :: int where
  "MaxValidityDays = 36500"

datatype sub_error =
    StorageError | SubscriptionNotFound | SubscriptionExpired | SubscriptionSuspended | SubscriptionAlreadyExists
  | SubscriptionAssignConflict string | GroupNotFound | GroupNotSubscriptionType | InvalidInput
  | DailyLimitExceeded | WeeklyLimitExceeded | MonthlyLimitExceeded | AdjustWouldExpire | CannotShortenExpired

definition IsSubscriptionType :: "Group \<Rightarrow> bool" where
  "IsSubscriptionType g \<longleftrightarrow> gr_SubscriptionType g = ''subscription''"

definition IsExpired :: "instant \<Rightarrow> UserSubscription \<Rightarrow> bool" where
  "IsExpired now s \<longleftrightarrow> us_ExpiresAt s < now"

definition IsActive_Subscription :: "instant \<Rightarrow> UserSubscription \<Rightarrow> bool" where
  "IsActive_Subscription now s \<longleftrightarrow> us_Status s = SubscriptionStatusActive \<and> now < us_ExpiresAt s"

definition IsWindowActivated :: "UserSubscription \<Rightarrow> bool" where
  "IsWindowActivated s \<longleftrightarrow>
     us_DailyWindowStart s \<noteq> None \<or> us_WeeklyWindowStart s \<noteq> None \<or> us_MonthlyWindowStart s \<noteq> None"

definition needs_reset :: "duration \<Rightarrow> instant \<Rightarrow> instant option \<Rightarrow> bool" where
  "needs_reset len now start = (case start of None \<Rightarrow> False | Some t \<Rightarrow> len \<le> now - t)"

definition NeedsDailyReset :: "instant \<Rightarrow> UserSubscription \<Rightarrow> bool" where
  "NeedsDailyReset now s = needs_reset (hours 24) now (us_DailyWindowStart s)"

definition NeedsWeeklyReset :: "instant \<Rightarrow> UserSubscription \<Rightarrow> bool" where
  "NeedsWeeklyReset now s = needs_reset (hours (7 * 24)) now (us_WeeklyWindowStart s)"

definition NeedsMonthlyReset :: "instant \<Rightarrow> UserSubscription \<Rightarrow> bool" where
  "NeedsMonthlyReset now s = needs_reset (hours (30 * 24)) now (us_MonthlyWindowStart s)"

definition within_limit :: "float64 option \<Rightarrow> float64 \<Rightarrow> float64 \<Rightarrow> bool" where
  "within_limit limit usage additionalCost =
     (case limit of None \<Rightarrow> True | Some l \<Rightarrow> if \<not> l > 0 then True else usage + additionalCost \<le> l)"

definition CheckDailyLimit :: "UserSubscription \<Rightarrow> Group \<Rightarrow> float64 \<Rightarrow> bool" where
  "CheckDailyLimit s g c = within_limit (gr_DailyLimitUSD g) (us_DailyUsageUSD s) c"

definition CheckWeeklyLimit :: "UserSubscription \<Rightarrow> Group \<Rightarrow> float64 \<Rightarrow> bool" where
  "CheckWeeklyLimit s g c = within_limit (gr_WeeklyLimitUSD g) (us_WeeklyUsageUSD s) c"

definition CheckMonthlyLimit :: "UserSubscription \<Rightarrow> Group \<Rightarrow> float64 \<Rightarrow> bool" where
  "CheckMonthlyLimit s g c = within_limit (gr_MonthlyLimitUSD g) (us_MonthlyUsageUSD s) c"

definition CheckUsageLimits :: "UserSubscription \<Rightarrow> Group \<Rightarrow> float64 \<Rightarrow> sub_error option" where
  "CheckUsageLimits s g c =
     (if \<not> CheckDailyLimit s g c then Some DailyLimitExceeded
      else if \<not> CheckWeeklyLimit s g c then Some WeeklyLimitExceeded
      else if \<not> CheckMonthlyLimit s g c then Some MonthlyLimitExceeded
      else None)"

text \<open>The check of a request: whether maintenance is due, the error, and the subscription with the
  usage of elapsed windows cleared.\<close>

definition ValidateAndCheckLimits ::
    "(nat \<Rightarrow> instant) \<Rightarrow> UserSubscription \<Rightarrow> Group \<Rightarrow> bool \<times> sub_error option \<times> UserSubscription" where
  "ValidateAndCheckLimits clk s0 g =
     (if us_Status s0 = SubscriptionStatusExpired then (False, Some SubscriptionExpired, s0)
      else if us_Status s0 = SubscriptionStatusSuspended then (False, Some SubscriptionSuspended, s0)
      else if IsExpired (clk 0) s0 then (False, Some SubscriptionExpired, s0)
      else (let daily = NeedsDailyReset (clk 1) s0;
                s1 = (if daily then s0\<lparr>us_DailyUsageUSD := 0\<rparr> else s0);
                weekly = NeedsWeeklyReset (clk 2) s1;
                s2 = (if weekly then s1\<lparr>us_WeeklyUsageUSD := 0\<rparr> else s1);
                monthly = NeedsMonthlyReset (clk 3) s2;
                s = (if monthly then s2\<lparr>us_MonthlyUsageUSD := 0\<rparr> else s2)
            in (daily \<or> weekly \<or> monthly \<or> \<not> IsWindowActivated s, CheckUsageLimits s g 0, s)))"

definition normalizeAssignValidityDays :: "int \<Rightarrow> int" where
  "normalizeAssignValidityDays days0 =
     (let days = (if days0 \<le> 0 then 30 else days0) in if days > MaxValidityDays then MaxValidityDays else days)"

definition cap_expiry :: "instant \<Rightarrow> instant" where
  "cap_expiry t = (if t > MaxExpiresAt then MaxExpiresAt else t)"

section \<open>The repository\<close>

record subdb =
  sd_subs :: "UserSubscription list"
  sd_next :: int
  sd_groups :: "int \<Rightarrow> Group option"
  sd_faults :: faults

type_synonym 'a sub_result = "(sub_error + 'a) \<times> subdb"

definition sub_call :: "subdb \<Rightarrow> bool \<times> subdb" where
  "sub_call db = (let (fail, fs) = io (sd_faults db) in (fail, db\<lparr>sd_faults := fs\<rparr>))"

definition group_GetByID :: "int \<Rightarrow> subdb \<Rightarrow> Group sub_result" where
  "group_GetByID gid db0 =
     (let (fail, db) = sub_call db0
      in if fail then (Inl StorageError, db)
         else case sd_groups db gid of None \<Rightarrow> (Inl GroupNotFound, db) | Some g \<Rightarrow> (Inr g, db))"

definition repo_find :: "(UserSubscription \<Rightarrow> bool) \<Rightarrow> subdb \<Rightarrow> UserSubscription sub_result" where
  "repo_find P db0 =
     (let (fail, db) = sub_call db0
      in if fail then (Inl StorageError, db)
         else case find P (sd_subs db) of None \<Rightarrow> (Inl SubscriptionNotFound, db) | Some s \<Rightarrow> (Inr s, db))"

definition repo_GetByID :: "int \<Rightarrow> subdb \<Rightarrow> UserSubscription sub_result" where
  "repo_GetByID i = repo_find (\<lambda>s. us_ID s = i)"

definition of_pair :: "int \<Rightarrow> int \<Rightarrow> UserSubscription \<Rightarrow> bool" where
  "of_pair uid gid s \<longleftrightarrow> us_UserID s = uid \<and> us_GroupID s = gid"

definition repo_GetByUserIDAndGroupID :: "int \<Rightarrow> int \<Rightarrow> subdb \<Rightarrow> UserSubscription sub_result" where
  "repo_GetByUserIDAndGroupID uid gid = repo_find (of_pair uid gid)"

definition repo_GetActiveByUserIDAndGroupID :: "instant \<Rightarrow> int \<Rightarrow> int \<Rightarrow> subdb \<Rightarrow> UserSubscription sub_result" where
  "repo_GetActiveByUserIDAndGroupID now uid gid = repo_find (\<lambda>s. of_pair uid gid s \<and> IsActive_Subscription now s)"

definition repo_ExistsByUserIDAndGroupID :: "int \<Rightarrow> int \<Rightarrow> subdb \<Rightarrow> bool sub_result" where
  "repo_ExistsByUserIDAndGroupID uid gid db0 =
     (let (fail, db) = sub_call db0
      in if fail then (Inl StorageError, db) else (Inr (list_ex (of_pair uid gid) (sd_subs db)), db))"

definition repo_Create :: "UserSubscription \<Rightarrow> subdb \<Rightarrow> int sub_result" where
  "repo_Create s db0 =
     (let (fail, db) = sub_call db0
      in if fail then (Inl StorageError, db)
         else if list_ex (of_pair (us_UserID s) (us_GroupID s)) (sd_subs db) then (Inl SubscriptionAlreadyExists, db)
         else (Inr (sd_next db), db\<lparr>sd_subs := sd_subs db @ [s\<lparr>us_ID := sd_next db\<rparr>], sd_next := sd_next db + 1\<rparr>))"

text \<open>\<open>UpdateOneID\<close>: an update of a missing row is an error.\<close>

definition repo_update :: "int \<Rightarrow> (UserSubscription \<Rightarrow> UserSubscription) \<Rightarrow> subdb \<Rightarrow> unit sub_result" where
  "repo_update i f db0 =
     (let (fail, db) = sub_call db0
      in if fail then (Inl StorageError, db)
         else if list_ex (\<lambda>s. us_ID s = i) (sd_subs db)
         then (Inr (), db\<lparr>sd_subs := map (\<lambda>s. if us_ID s = i then f s else s) (sd_subs db)\<rparr>)
         else (Inl SubscriptionNotFound, db))"

definition repo_ExtendExpiry :: "int \<Rightarrow> instant \<Rightarrow> subdb \<Rightarrow> unit sub_result" where
  "repo_ExtendExpiry i t = repo_update i (\<lambda>s. s\<lparr>us_ExpiresAt := t\<rparr>)"

definition repo_UpdateStatus :: "int \<Rightarrow> string \<Rightarrow> subdb \<Rightarrow> unit sub_result" where
  "repo_UpdateStatus i st = repo_update i (\<lambda>s. s\<lparr>us_Status := st\<rparr>)"

definition repo_UpdateNotes :: "int \<Rightarrow> string \<Rightarrow> subdb \<Rightarrow> unit sub_result" where
  "repo_UpdateNotes i n = repo_update i (\<lambda>s. s\<lparr>us_Notes := n\<rparr>)"

definition repo_ActivateWindows :: "int \<Rightarrow> instant \<Rightarrow> subdb \<Rightarrow> unit sub_result" where
  "repo_ActivateWindows i t = repo_update i (\<lambda>s. s\<lparr>us_DailyWindowStart := Some t, us_WeeklyWindowStart := Some t,
     us_MonthlyWindowStart := Some t\<rparr>)"

definition repo_ResetDailyUsage :: "int \<Rightarrow> instant \<Rightarrow> subdb \<Rightarrow> unit sub_result" where
  "repo_ResetDailyUsage i t = repo_update i (\<lambda>s. s\<lparr>us_DailyUsageUSD := 0, us_DailyWindowStart := Some t\<rparr>)"

definition repo_ResetWeeklyUsage :: "int \<Rightarrow> instant \<Rightarrow> subdb \<Rightarrow> unit sub_result" where
  "repo_ResetWeeklyUsage i t = repo_update i (\<lambda>s. s\<lparr>us_WeeklyUsageUSD := 0, us_WeeklyWindowStart := Some t\<rparr>)"

definition repo_ResetMonthlyUsage :: "int \<Rightarrow> instant \<Rightarrow> subdb \<Rightarrow> unit sub_result" where
  "repo_ResetMonthlyUsage i t = repo_update i (\<lambda>s. s\<lparr>us_MonthlyUsageUSD := 0, us_MonthlyWindowStart := Some t\<rparr>)"

definition add_usage :: "float64 \<Rightarrow> UserSubscription \<Rightarrow> UserSubscription" where
  "add_usage c s = s\<lparr>us_DailyUsageUSD := us_DailyUsageUSD s + c, us_WeeklyUsageUSD := us_WeeklyUsageUSD s + c,
     us_MonthlyUsageUSD := us_MonthlyUsageUSD s + c\<rparr>"

definition repo_IncrementUsage :: "int \<Rightarrow> float64 \<Rightarrow> subdb \<Rightarrow> unit sub_result" where
  "repo_IncrementUsage i c db0 =
     (let (fail, db) = sub_call db0;
          hit = (\<lambda>s. us_ID s = i \<and> sd_groups db (us_GroupID s) \<noteq> None)
      in if fail then (Inl StorageError, db)
         else if list_ex hit (sd_subs db)
         then (Inr (), db\<lparr>sd_subs := map (\<lambda>s. if hit s then add_usage c s else s) (sd_subs db)\<rparr>)
         else (Inl SubscriptionNotFound, db))"

definition repo_Delete :: "int \<Rightarrow> subdb \<Rightarrow> unit sub_result" where
  "repo_Delete i db0 =
     (let (fail, db) = sub_call db0
      in if fail then (Inl StorageError, db) else (Inr (), db\<lparr>sd_subs := filter (\<lambda>s. us_ID s \<noteq> i) (sd_subs db)\<rparr>))"

definition repo_BatchUpdateExpiredStatus :: "instant \<Rightarrow> subdb \<Rightarrow> int sub_result" where
  "repo_BatchUpdateExpiredStatus now db0 =
     (let (fail, db) = sub_call db0;
          due = (\<lambda>s. us_Status s = SubscriptionStatusActive \<and> us_ExpiresAt s \<le> now)
      in if fail then (Inl StorageError, db)
         else (Inr (int (length (filter due (sd_subs db)))),
               db\<lparr>sd_subs := map (\<lambda>s. if due s then s\<lparr>us_Status := SubscriptionStatusExpired\<rparr> else s) (sd_subs db)\<rparr>))"

text \<open>A transaction: begin and commit are storage calls; a failed body is rolled back.\<close>

definition transaction :: "(subdb \<Rightarrow> 'a sub_result) \<Rightarrow> subdb \<Rightarrow> 'a sub_result" where
  "transaction = run_tx sub_call StorageError (\<lambda>db db'. db\<lparr>sd_faults := sd_faults db'\<rparr>)"

section \<open>The service\<close>

type_synonym sub_cache = "int \<times> int \<Rightarrow> (UserSubscription \<times> instant) option"

record sub_service =
  sv_db :: subdb
  sv_cache :: "sub_cache option"

definition on_db :: "(subdb \<Rightarrow> 'a sub_result) \<Rightarrow> sub_service \<Rightarrow> (sub_error + 'a) \<times> sub_service" where
  "on_db call svc = (let (r, db) = call (sv_db svc) in (r, svc\<lparr>sv_db := db\<rparr>))"

definition InvalidateSubCache :: "int \<Rightarrow> int \<Rightarrow> sub_service \<Rightarrow> sub_service" where
  "InvalidateSubCache uid gid svc = svc\<lparr>sv_cache := map_option (\<lambda>c. c((uid, gid) := None)) (sv_cache svc)\<rparr>"

record AssignSubscriptionInput =
  in_UserID :: int
  in_GroupID :: int
  in_ValidityDays :: int
  in_AssignedBy :: int
  in_Notes :: string

definition new_subscription :: "instant \<Rightarrow> AssignSubscriptionInput \<Rightarrow> UserSubscription" where
  "new_subscription now input =
     \<lparr>us_ID = 0, us_UserID = in_UserID input, us_GroupID = in_GroupID input, us_StartsAt = now,
      us_ExpiresAt = cap_expiry (AddDays now (normalizeAssignValidityDays (in_ValidityDays input))),
      us_Status = SubscriptionStatusActive, us_DailyWindowStart = None, us_WeeklyWindowStart = None,
      us_MonthlyWindowStart = None, us_DailyUsageUSD = 0, us_WeeklyUsageUSD = 0, us_MonthlyUsageUSD = 0,
      us_AssignedBy = (if in_AssignedBy input > 0 then Some (in_AssignedBy input) else None), us_AssignedAt = now,
      us_Notes = in_Notes input\<rparr>"

definition createSubscription :: "instant \<Rightarrow> AssignSubscriptionInput \<Rightarrow> subdb \<Rightarrow> UserSubscription sub_result" where
  "createSubscription now input db = and_then (repo_Create (new_subscription now input) db) repo_GetByID"

definition new_expiry :: "instant \<Rightarrow> int \<Rightarrow> UserSubscription \<Rightarrow> instant" where
  "new_expiry now n existing =
     cap_expiry (if now < us_ExpiresAt existing then AddDays (us_ExpiresAt existing) n else AddDays now n)"

definition newline :: string where
  "newline = [char_of (10 :: nat)]"

definition extend_existing :: "instant \<Rightarrow> AssignSubscriptionInput \<Rightarrow> UserSubscription \<Rightarrow> subdb \<Rightarrow> unit sub_result" where
  "extend_existing now input existing =
     transaction (\<lambda>db.
       and_then (repo_ExtendExpiry (us_ID existing)
           (new_expiry now (normalizeAssignValidityDays (in_ValidityDays input)) existing) db) (\<lambda>_ db.
       and_then (if us_Status existing \<noteq> SubscriptionStatusActive
           then repo_UpdateStatus (us_ID existing) SubscriptionStatusActive db else (Inr (), db)) (\<lambda>_ db.
       if in_Notes input \<noteq> ''''
       then repo_UpdateNotes (us_ID existing)
              ((if us_Notes existing \<noteq> '''' then us_Notes existing @ newline else us_Notes existing) @ in_Notes input) db
       else (Inr (), db))))"

definition AssignOrExtendSubscription ::
    "instant \<Rightarrow> AssignSubscriptionInput \<Rightarrow> sub_service \<Rightarrow> (sub_error + UserSubscription \<times> bool) \<times> sub_service" where
  "AssignOrExtendSubscription now input svc =
     and_then (on_db (group_GetByID (in_GroupID input)) svc) (\<lambda>group svc.
     if \<not> IsSubscriptionType group then (Inl GroupNotSubscriptionType, svc)
     else case on_db (repo_GetByUserIDAndGroupID (in_UserID input) (in_GroupID input)) svc of
            (Inr existing, svc) \<Rightarrow>
              and_then (on_db (extend_existing now input existing) svc) (\<lambda>_ svc.
              and_then (on_db (repo_GetByID (us_ID existing)) (InvalidateSubCache (in_UserID input) (in_GroupID input) svc))
                (\<lambda>s svc. (Inr (s, True), svc)))
          | (Inl _, svc) \<Rightarrow>
              and_then (on_db (createSubscription now input) svc) (\<lambda>s svc.
              (Inr (s, False), InvalidateSubCache (in_UserID input) (in_GroupID input) svc)))"

text \<open>The zero time of the language.\<close>

definition year_one :: instant where
  "year_one = seconds (- 62135596800)"

definition detectAssignSemanticConflict :: "UserSubscription \<Rightarrow> AssignSubscriptionInput \<Rightarrow> string option" where
  "detectAssignSemanticConflict existing input =
     (if us_StartsAt existing \<noteq> year_one \<and>
         us_ExpiresAt existing \<noteq> cap_expiry (AddDays (us_StartsAt existing) (normalizeAssignValidityDays (in_ValidityDays input)))
      then Some ''validity_days_mismatch''
      else if TrimSpace (us_Notes existing) \<noteq> TrimSpace (in_Notes input) then Some ''notes_mismatch''
      else None)"

definition assignSubscriptionWithReuse ::
    "instant \<Rightarrow> AssignSubscriptionInput \<Rightarrow> sub_service \<Rightarrow> (sub_error + UserSubscription \<times> bool) \<times> sub_service" where
  "assignSubscriptionWithReuse now input svc =
     and_then (on_db (group_GetByID (in_GroupID input)) svc) (\<lambda>group svc.
     if \<not> IsSubscriptionType group then (Inl GroupNotSubscriptionType, svc)
     else and_then (on_db (repo_ExistsByUserIDAndGroupID (in_UserID input) (in_GroupID input)) svc) (\<lambda>there svc.
       if there then
         and_then (on_db (repo_GetByUserIDAndGroupID (in_UserID input) (in_GroupID input)) svc) (\<lambda>s svc.
           case detectAssignSemanticConflict s input of
             Some reason \<Rightarrow> (Inl (SubscriptionAssignConflict reason), svc)
           | None \<Rightarrow> (Inr (s, True), svc))
       else
         and_then (on_db (createSubscription now input) svc) (\<lambda>s svc.
         (Inr (s, False), InvalidateSubCache (in_UserID input) (in_GroupID input) svc))))"

text \<open>The outcome of each user of a bulk assignment; the counts of the result are counts of it.\<close>

fun BulkAssignSubscription ::
    "instant \<Rightarrow> AssignSubscriptionInput \<Rightarrow> int list \<Rightarrow> sub_service
       \<Rightarrow> (int \<times> (sub_error + UserSubscription \<times> bool)) list \<times> sub_service" where
  "BulkAssignSubscription now input [] svc = ([], svc)"
| "BulkAssignSubscription now input (u # us) svc =
     (let (r, svc') = assignSubscriptionWithReuse now (input\<lparr>in_UserID := u\<rparr>) svc;
          (rs, svc'') = BulkAssignSubscription now input us svc'
      in ((u, r) # rs, svc''))"

definition RevokeSubscription :: "int \<Rightarrow> sub_service \<Rightarrow> (sub_error + unit) \<times> sub_service" where
  "RevokeSubscription i svc =
     and_then (on_db (repo_GetByID i) svc) (\<lambda>s svc.
     and_then (on_db (repo_Delete i) svc) (\<lambda>_ svc.
     (Inr (), InvalidateSubCache (us_UserID s) (us_GroupID s) svc)))"

definition ExtendSubscription :: "instant \<Rightarrow> int \<Rightarrow> int \<Rightarrow> sub_service \<Rightarrow> (sub_error + UserSubscription) \<times> sub_service" where
  "ExtendSubscription now i days0 svc0 =
     (case on_db (repo_GetByID i) svc0 of
        (Inl _, svc) \<Rightarrow> (Inl SubscriptionNotFound, svc)
      | (Inr s, svc) \<Rightarrow>
          let days1 = (if days0 > MaxValidityDays then MaxValidityDays else days0);
              days = (if days1 < - MaxValidityDays then - MaxValidityDays else days1);
              expired = (us_ExpiresAt s \<le> now);
              newExpiresAt = cap_expiry (if expired then AddDays now days else AddDays (us_ExpiresAt s) days)
          in if expired \<and> days < 0 then (Inl CannotShortenExpired, svc)
             else if newExpiresAt \<le> now then (Inl AdjustWouldExpire, svc)
             else and_then (on_db (repo_ExtendExpiry i newExpiresAt) svc) (\<lambda>_ svc.
               and_then (if us_Status s = SubscriptionStatusExpired
                   then on_db (repo_UpdateStatus i SubscriptionStatusActive) svc else (Inr (), svc)) (\<lambda>_ svc.
               on_db (repo_GetByID i) (InvalidateSubCache (us_UserID s) (us_GroupID s) svc))))"

definition GetActiveSubscription ::
    "instant \<Rightarrow> duration \<Rightarrow> int \<Rightarrow> int \<Rightarrow> sub_service \<Rightarrow> (sub_error + UserSubscription) \<times> sub_service" where
  "GetActiveSubscription now ttl uid gid svc =
     (case Option.bind (sv_cache svc) (\<lambda>c. c (uid, gid)) of
        Some (s, until) \<Rightarrow>
          if now < until then (Inr s, svc)
          else and_then (on_db (repo_GetActiveByUserIDAndGroupID now uid gid) svc) (\<lambda>s svc.
            (Inr s, svc\<lparr>sv_cache := map_option (\<lambda>c. c((uid, gid) \<mapsto> (s, now + ttl))) (sv_cache svc)\<rparr>))
      | None \<Rightarrow>
          and_then (on_db (repo_GetActiveByUserIDAndGroupID now uid gid) svc) (\<lambda>s svc.
            (Inr s, svc\<lparr>sv_cache := map_option (\<lambda>c. c((uid, gid) \<mapsto> (s, now + ttl))) (sv_cache svc)\<rparr>)))"

definition CheckAndActivateWindow :: "duration \<Rightarrow> instant \<Rightarrow> UserSubscription \<Rightarrow> subdb \<Rightarrow> unit sub_result" where
  "CheckAndActivateWindow tz now s db =
     (if IsWindowActivated s then (Inr (), db) else repo_ActivateWindows (us_ID s) (start_of_day tz now) db)"

text \<open>The resets of due windows, with the caller's copy updated alongside.\<close>

definition reset_window ::
    "bool \<Rightarrow> (subdb \<Rightarrow> unit sub_result) \<Rightarrow> (UserSubscription \<Rightarrow> UserSubscription) \<Rightarrow> UserSubscription \<times> bool \<Rightarrow> subdb
       \<Rightarrow> (UserSubscription \<times> bool) sub_result" where
  "reset_window due call f st db =
     (let (s, changed) = st
      in if due then and_then (call db) (\<lambda>_ db. (Inr (f s, True), db)) else (Inr (s, changed), db))"

definition reset_windows ::
    "duration \<Rightarrow> (nat \<Rightarrow> instant) \<Rightarrow> UserSubscription \<Rightarrow> subdb \<Rightarrow> (UserSubscription \<times> bool) sub_result" where
  "reset_windows tz clk s0 db0 =
     (let t = start_of_day tz (clk 0)
      in and_then (reset_window (NeedsDailyReset (clk 1) s0) (repo_ResetDailyUsage (us_ID s0) t)
           (\<lambda>s. s\<lparr>us_DailyWindowStart := Some t, us_DailyUsageUSD := 0\<rparr>) (s0, False) db0) (\<lambda>st db.
         and_then (reset_window (NeedsWeeklyReset (clk 2) (fst st)) (repo_ResetWeeklyUsage (us_ID s0) t)
           (\<lambda>s. s\<lparr>us_WeeklyWindowStart := Some t, us_WeeklyUsageUSD := 0\<rparr>) st db) (\<lambda>st db.
         reset_window (NeedsMonthlyReset (clk 3) (fst st)) (repo_ResetMonthlyUsage (us_ID s0) t)
           (\<lambda>s. s\<lparr>us_MonthlyWindowStart := Some t, us_MonthlyUsageUSD := 0\<rparr>) st db)))"

definition CheckAndResetWindows ::
    "duration \<Rightarrow> (nat \<Rightarrow> instant) \<Rightarrow> UserSubscription \<Rightarrow> sub_service \<Rightarrow> (sub_error + UserSubscription) \<times> sub_service" where
  "CheckAndResetWindows tz clk s svc =
     and_then (on_db (reset_windows tz clk s) svc) (\<lambda>(s', changed) svc.
     (Inr s', if changed then InvalidateSubCache (us_UserID s) (us_GroupID s) svc else svc))"

text \<open>Maintenance; its errors are only logged.\<close>

definition doWindowMaintenance :: "duration \<Rightarrow> (nat \<Rightarrow> instant) \<Rightarrow> UserSubscription \<Rightarrow> sub_service \<Rightarrow> sub_service" where
  "doWindowMaintenance tz clk s svc0 =
     (let (_, svc1) = on_db (CheckAndActivateWindow tz (clk 4) s) svc0;
          (_, svc2) = CheckAndResetWindows tz clk s svc1
      in InvalidateSubCache (us_UserID s) (us_GroupID s) svc2)"

definition AdminResetQuota ::
    "duration \<Rightarrow> instant \<Rightarrow> int \<Rightarrow> bool \<Rightarrow> bool \<Rightarrow> bool \<Rightarrow> sub_service \<Rightarrow> (sub_error + UserSubscription) \<times> sub_service" where
  "AdminResetQuota tz now i resetDaily resetWeekly resetMonthly svc =
     (if \<not> resetDaily \<and> \<not> resetWeekly \<and> \<not> resetMonthly then (Inl InvalidInput, svc)
      else (let t = start_of_day tz now
        in and_then (on_db (repo_GetByID i) svc) (\<lambda>s svc.
           and_then (if resetDaily then on_db (repo_ResetDailyUsage (us_ID s) t) svc else (Inr (), svc)) (\<lambda>_ svc.
           and_then (if resetWeekly then on_db (repo_ResetWeeklyUsage (us_ID s) t) svc else (Inr (), svc)) (\<lambda>_ svc.
           and_then (if resetMonthly then on_db (repo_ResetMonthlyUsage (us_ID s) t) svc else (Inr (), svc)) (\<lambda>_ svc.
           on_db (repo_GetByID i) (InvalidateSubCache (us_UserID s) (us_GroupID s) svc)))))))"

definition RecordUsage :: "int \<Rightarrow> float64 \<Rightarrow> sub_service \<Rightarrow> (sub_error + unit) \<times> sub_service" where
  "RecordUsage i c = on_db (repo_IncrementUsage i c)"

definition ValidateSubscription :: "instant \<Rightarrow> UserSubscription \<Rightarrow> sub_service \<Rightarrow> sub_error option \<times> sub_service" where
  "ValidateSubscription now s svc =
     (if us_Status s = SubscriptionStatusExpired then (Some SubscriptionExpired, svc)
      else if us_Status s = SubscriptionStatusSuspended then (Some SubscriptionSuspended, svc)
      else if IsExpired now s
      then (Some SubscriptionExpired, snd (on_db (repo_UpdateStatus (us_ID s) SubscriptionStatusExpired) svc))
      else (None, svc))"

text \<open>One round of the expiry service, and the corrections of listed subscriptions.\<close>

definition expiry_runOnce :: "instant \<Rightarrow> sub_service \<Rightarrow> sub_service" where
  "expiry_runOnce now svc = snd (on_db (repo_BatchUpdateExpiredStatus now) svc)"

definition normalizeExpiredWindows :: "instant \<Rightarrow> UserSubscription list \<Rightarrow> UserSubscription list" where
  "normalizeExpiredWindows now subs =
     map (\<lambda>s0. let s1 = (if NeedsDailyReset now s0 then s0\<lparr>us_DailyWindowStart := None, us_DailyUsageUSD := 0\<rparr> else s0);
                 s2 = (if NeedsWeeklyReset now s1 then s1\<lparr>us_WeeklyWindowStart := None, us_WeeklyUsageUSD := 0\<rparr> else s1)
             in if NeedsMonthlyReset now s2 then s2\<lparr>us_MonthlyWindowStart := None, us_MonthlyUsageUSD := 0\<rparr> else s2) subs"

definition normalizeSubscriptionStatus :: "instant \<Rightarrow> UserSubscription list \<Rightarrow> UserSubscription list" where
  "normalizeSubscriptionStatus now subs =
     map (\<lambda>s. if us_Status s = SubscriptionStatusActive \<and> us_ExpiresAt s \<le> now
             then s\<lparr>us_Status := SubscriptionStatusExpired\<rparr> else s) subs"

section \<open>The rows\<close>

definition subs_inv :: "subdb \<Rightarrow> bool" where
  "subs_inv db \<longleftrightarrow> distinct (map us_ID (sd_subs db)) \<and>
     distinct (map (\<lambda>s. (us_UserID s, us_GroupID s)) (sd_subs db)) \<and> (\<forall>s \<in> set (sd_subs db). us_ID s < sd_next db)"

definition sub_at :: "int \<Rightarrow> subdb \<Rightarrow> UserSubscription option" where
  "sub_at i db = find (\<lambda>s. us_ID s = i) (sd_subs db)"

definition sub_up :: "subdb \<Rightarrow> bool" where
  "sub_up db \<longleftrightarrow> sd_faults db = []"

lemma sub_call_up [simp]: "sub_up db \<Longrightarrow> sub_call db = (False, db)"
  by (cases db) (simp add: sub_call_def sub_up_def)

lemma sub_call_rows:
  assumes "sub_call db = (b, db')"
  shows "sd_subs db' = sd_subs db" and "sd_next db' = sd_next db" and "sd_groups db' = sd_groups db"
  using assms by (auto simp: sub_call_def split: prod.splits)

text \<open>The database apart from its faults.\<close>

definition same_rows :: "subdb \<Rightarrow> subdb \<Rightarrow> bool" where
  "same_rows db db' \<longleftrightarrow> sd_subs db' = sd_subs db \<and> sd_next db' = sd_next db \<and> sd_groups db' = sd_groups db"

lemma same_rows_refl [simp]: "same_rows db db"
  by (simp add: same_rows_def)

lemma same_rows_faults [simp]: "same_rows db (db\<lparr>sd_faults := fs\<rparr>)"
  by (simp add: same_rows_def)

lemma same_rows_trans: "same_rows a b \<Longrightarrow> same_rows b c \<Longrightarrow> same_rows a c"
  by (simp add: same_rows_def)

lemma same_rows_inv: "same_rows db db' \<Longrightarrow> subs_inv db' = subs_inv db"
  by (simp add: same_rows_def subs_inv_def)

lemma sub_call_same: "sub_call db = (b, db') \<Longrightarrow> same_rows db db'"
  using sub_call_rows by (simp add: same_rows_def)

lemma repo_find_same: "repo_find P db = (r, db') \<Longrightarrow> same_rows db db' \<and> (\<forall>s. r = Inr s \<longrightarrow> find P (sd_subs db) = Some s)"
  by (cases "sub_call db") (auto simp: repo_find_def dest: sub_call_same simp flip: sub_call_rows(1) split: if_splits option.splits)

lemma group_find_same: "group_GetByID g db = (r, db') \<Longrightarrow> same_rows db db' \<and> (\<forall>x. r = Inr x \<longrightarrow> sd_groups db g = Some x)"
  by (cases "sub_call db") (auto simp: group_GetByID_def dest: sub_call_same simp flip: sub_call_rows(3) split: if_splits option.splits)

text \<open>The effect of an update on a row.\<close>

definition at_id :: "int \<Rightarrow> (UserSubscription \<Rightarrow> UserSubscription) \<Rightarrow> UserSubscription list \<Rightarrow> UserSubscription list" where
  "at_id i f = map (\<lambda>s. if us_ID s = i then f s else s)"

lemma at_id_comp: "(\<And>s. us_ID (f s) = us_ID s) \<Longrightarrow> at_id i g (at_id i f ss) = at_id i (g \<circ> f) ss"
  by (simp add: at_id_def)

lemma at_id_cong: "\<forall>s \<in> set ss. us_ID s = i \<longrightarrow> f s = g s \<Longrightarrow> at_id i f ss = at_id i g ss"
  by (simp add: at_id_def)

lemma at_id_same: "\<forall>s \<in> set ss. us_ID s = i \<longrightarrow> f s = s \<Longrightarrow> at_id i f ss = ss"
  by (simp add: at_id_def map_idI)

lemma repo_update_cases:
  assumes "repo_update i f db = (r, db')"
  shows "sd_next db' = sd_next db" and "sd_groups db' = sd_groups db"
    and "sd_subs db' = (case r of Inl _ \<Rightarrow> sd_subs db | Inr _ \<Rightarrow> at_id i f (sd_subs db))"
  using assms by (cases "sub_call db"; force simp: repo_update_def at_id_def sub_call_rows split: if_splits)+

lemma repo_update_up:
  assumes "sub_up db" and "list_ex (\<lambda>s. us_ID s = i) (sd_subs db)"
  shows "repo_update i f db = (Inr (), db\<lparr>sd_subs := at_id i f (sd_subs db)\<rparr>)"
  using assms by (simp add: repo_update_def at_id_def)

lemma find_at_id:
  assumes "\<And>s. us_ID (f s) = us_ID s"
  shows "find (\<lambda>s. us_ID s = j) (at_id i f ss) = map_option (\<lambda>s. if j = i then f s else s) (find (\<lambda>s. us_ID s = j) ss)"
  by (induction ss) (auto simp: at_id_def assms)

lemma list_ex_at_id [simp]:
  assumes "\<And>s. us_ID (f s) = us_ID s"
  shows "list_ex (\<lambda>s. us_ID s = j) (at_id i f ss) = list_ex (\<lambda>s. us_ID s = j) ss"
  by (induction ss) (auto simp: at_id_def assms)

section \<open>Granting a subscription\<close>

text \<open>What \<open>AssignOrExtendSubscription\<close> does to the rows, as a function: the row of the user and
  group is extended, active and noted, or a new one is added.\<close>

definition extended :: "instant \<Rightarrow> AssignSubscriptionInput \<Rightarrow> UserSubscription \<Rightarrow> UserSubscription" where
  "extended now input s =
     s\<lparr>us_ExpiresAt := new_expiry now (normalizeAssignValidityDays (in_ValidityDays input)) s,
       us_Status := SubscriptionStatusActive,
       us_Notes := if in_Notes input = '''' then us_Notes s
                   else (if us_Notes s \<noteq> '''' then us_Notes s @ newline else us_Notes s) @ in_Notes input\<rparr>"

definition granted :: "instant \<Rightarrow> AssignSubscriptionInput \<Rightarrow> subdb \<Rightarrow> UserSubscription list" where
  "granted now input db =
     (case find (of_pair (in_UserID input) (in_GroupID input)) (sd_subs db) of
        Some s \<Rightarrow> at_id (us_ID s) (extended now input) (sd_subs db)
      | None \<Rightarrow> sd_subs db @ [(new_subscription now input)\<lparr>us_ID := sd_next db\<rparr>])"

lemma row_unique:
  "subs_inv db \<Longrightarrow> s \<in> set (sd_subs db) \<Longrightarrow> t \<in> set (sd_subs db) \<Longrightarrow> us_ID s = us_ID t \<Longrightarrow> s = t"
  by (auto simp: subs_inv_def distinct_map inj_on_def)

lemma transaction_result:
  assumes "transaction body db = (r, db')"
  obtains (rolled_back) e where "r = Inl e" and "same_rows db db'"
    | (committed) b a c where "same_rows db b" and "body b = (Inr a, c)" and "r = Inr a" and "same_rows c db'"
proof (cases rule: run_tx_result [OF assms [unfolded transaction_def]])
  case (1 e)
  then show ?thesis using rolled_back sub_call_same by blast
next
  case (2 e s s')
  have "same_rows db (s\<lparr>sd_faults := sd_faults s'\<rparr>)" using sub_call_same [OF 2(2)] by (simp add: same_rows_def)
  with 2 show ?thesis using rolled_back by blast
next
  case (3 a s s')
  then show ?thesis using committed sub_call_same by blast
qed

lemma status_kept: "us_Status s = st \<Longrightarrow> s\<lparr>us_ExpiresAt := e, us_Status := st\<rparr> = s\<lparr>us_ExpiresAt := e\<rparr>"
  by (cases s) simp

lemma notes_kept: "n = us_Notes s \<Longrightarrow> s\<lparr>us_ExpiresAt := e, us_Status := st, us_Notes := n\<rparr> = s\<lparr>us_ExpiresAt := e, us_Status := st\<rparr>"
  by (cases s) simp

lemma repo_update_Inr:
  "repo_update i f db = (Inr u, db') \<Longrightarrow>
     sd_subs db' = at_id i f (sd_subs db) \<and> sd_next db' = sd_next db \<and> sd_groups db' = sd_groups db"
  by (frule repo_update_cases(1), frule repo_update_cases(2), drule repo_update_cases(3)) simp

text \<open>A committed extension is the updates of the transaction, composed.\<close>

lemma extend_existing_result:
  assumes e: "extend_existing now input s db = (r, db')" and inv: "subs_inv db" and s: "s \<in> set (sd_subs db)"
  obtains (rolled_back) e where "r = Inl e" and "same_rows db db'"
    | (committed) "r = Inr ()" and "sd_subs db' = at_id (us_ID s) (extended now input) (sd_subs db)"
        and "sd_next db' = sd_next db" and "sd_groups db' = sd_groups db"
proof (cases rule: transaction_result [OF e [unfolded extend_existing_def]])
  case (1 e)
  then show ?thesis by (rule rolled_back)
next
  case (2 b a c)
  from 2(2) obtain c1 where c1: "repo_ExtendExpiry (us_ID s) (new_expiry now (normalizeAssignValidityDays (in_ValidityDays input)) s) b = (Inr (), c1)"
    by (elim and_then_InrE) auto
  note c1' = repo_update_Inr [OF c1 [unfolded repo_ExtendExpiry_def]]
  from 2(2) [simplified c1 and_then_simps] obtain c2 where
    c2: "(if us_Status s \<noteq> SubscriptionStatusActive then repo_UpdateStatus (us_ID s) SubscriptionStatusActive c1 else (Inr (), c1)) = (Inr (), c2)"
    and c3: "(if in_Notes input \<noteq> '''' then repo_UpdateNotes (us_ID s)
        ((if us_Notes s \<noteq> '''' then us_Notes s @ newline else us_Notes s) @ in_Notes input) c2 else (Inr (), c2)) = (Inr a, c)"
    by (elim and_then_InrE) auto
  let ?st = "\<lambda>t. t\<lparr>us_ExpiresAt := new_expiry now (normalizeAssignValidityDays (in_ValidityDays input)) s, us_Status := SubscriptionStatusActive\<rparr>"
  have r: "us_Status t = us_Status s \<and> us_Notes t = us_Notes s \<and> new_expiry now n t = new_expiry now n s"
    if "t \<in> set (sd_subs b)" and "us_ID t = us_ID s" for t n
    using row_unique [OF inv _ s, of t] 2(1) that by (fastforce simp: same_rows_def)
  have "sd_subs c2 = at_id (us_ID s) ?st (sd_subs b) \<and> sd_next c2 = sd_next b \<and> sd_groups c2 = sd_groups b"
    using c1' c2 r by (auto split: if_splits dest!: repo_update_Inr
        simp: repo_UpdateStatus_def at_id_comp comp_def status_kept intro!: at_id_cong)
  then have "sd_subs c = at_id (us_ID s) (extended now input) (sd_subs b) \<and> sd_next c = sd_next b \<and> sd_groups c = sd_groups b"
    using c3 r by (auto split: if_splits dest!: repo_update_Inr
        simp: repo_UpdateNotes_def at_id_comp comp_def extended_def notes_kept intro!: at_id_cong)
  with 2 show ?thesis by (intro committed) (auto simp: same_rows_def)
qed

lemma createSubscription_result:
  assumes "createSubscription now input db = (r, db')"
  obtains (refused) e where "r = Inl e" and "same_rows db db'"
    | (created) "\<not> list_ex (of_pair (in_UserID input) (in_GroupID input)) (sd_subs db)"
        and "sd_subs db' = sd_subs db @ [(new_subscription now input)\<lparr>us_ID := sd_next db\<rparr>]"
        and "sd_next db' = sd_next db + 1" and "sd_groups db' = sd_groups db"
        and "\<And>s. r = Inr s \<Longrightarrow> find (\<lambda>t. us_ID t = sd_next db) (sd_subs db') = Some s"
proof -
  obtain x b where b: "sub_call db = (x, b)" by fastforce
  have n: "us_UserID (new_subscription now input) = in_UserID input" "us_GroupID (new_subscription now input) = in_GroupID input"
    by (simp_all add: new_subscription_def)
  show thesis
  proof (cases "x \<or> list_ex (of_pair (in_UserID input) (in_GroupID input)) (sd_subs b)")
    case True
    with assms b have "(\<exists>e. r = Inl e) \<and> db' = b"
      unfolding createSubscription_def repo_Create_def n by (cases x; simp; blast?)
    with sub_call_same [OF b] refused show ?thesis by blast
  next
    case False
    let ?c = "b\<lparr>sd_subs := sd_subs b @ [(new_subscription now input)\<lparr>us_ID := sd_next b\<rparr>], sd_next := sd_next b + 1\<rparr>"
    from assms b False have g: "repo_find (\<lambda>t. us_ID t = sd_next b) ?c = (r, db')"
      by (simp add: createSubscription_def repo_Create_def repo_GetByID_def n)
    from repo_find_same [OF g] False sub_call_rows [OF b] show ?thesis
      by (intro created) (auto simp: same_rows_def)
  qed
qed

lemma sub_inv_at_id:
  assumes "subs_inv db" and "\<And>s. us_ID (f s) = us_ID s \<and> us_UserID (f s) = us_UserID s \<and> us_GroupID (f s) = us_GroupID s"
  shows "sd_next db' = sd_next db \<Longrightarrow> sd_subs db' = at_id i f (sd_subs db) \<Longrightarrow> subs_inv db'"
proof -
  have "map us_ID (at_id i f ss) = map us_ID ss"
    and "map (\<lambda>s. (us_UserID s, us_GroupID s)) (at_id i f ss) = map (\<lambda>s. (us_UserID s, us_GroupID s)) ss" for ss
    using assms(2) by (auto simp: at_id_def)
  with assms(1) show "sd_next db' = sd_next db \<Longrightarrow> sd_subs db' = at_id i f (sd_subs db) \<Longrightarrow> subs_inv db'"
    using assms(2) by (auto simp: subs_inv_def) (auto simp: at_id_def split: if_splits)
qed

lemma granted_inv:
  assumes "subs_inv db" and "sd_subs db' = granted now input db"
    and "sd_next db' = (if list_ex (of_pair (in_UserID input) (in_GroupID input)) (sd_subs db) then sd_next db else sd_next db + 1)"
  shows "subs_inv db'"
proof (cases "find (of_pair (in_UserID input) (in_GroupID input)) (sd_subs db)")
  case None
  then have "\<not> list_ex (of_pair (in_UserID input) (in_GroupID input)) (sd_subs db)"
    by (auto simp: find_None_all list_ex_iff)
  with None assms show ?thesis
    by (auto simp: granted_def subs_inv_def new_subscription_def list_ex_iff of_pair_def)
next
  case (Some s)
  then have "list_ex (of_pair (in_UserID input) (in_GroupID input)) (sd_subs db)"
    by (auto dest: find_Some_mem simp: list_ex_iff)
  with Some assms show ?thesis
    by (intro sub_inv_at_id [OF assms(1), of "extended now input"]) (auto simp: granted_def extended_def)
qed

text \<open>The ways an assignment can end, under any faults: an error and nothing changed, or the rows
  granted. A returned row is the row of the user and group, and the cache has forgotten them.\<close>

definition assigned ::
    "instant \<Rightarrow> AssignSubscriptionInput \<Rightarrow> sub_service \<Rightarrow> sub_error + UserSubscription \<times> bool \<Rightarrow> sub_service \<Rightarrow> bool" where
  "assigned now input svc r svc' \<longleftrightarrow>
     (let P = of_pair (in_UserID input) (in_GroupID input); db = sv_db svc; db' = sv_db svc'
      in isl r \<and> same_rows db db' \<or>
         sd_subs db' = granted now input db \<and>
         sd_next db' = (if list_ex P (sd_subs db) then sd_next db else sd_next db + 1) \<and>
         (\<forall>s b. r = Inr (s, b) \<longrightarrow> b = list_ex P (sd_subs db) \<and> s \<in> set (sd_subs db') \<and> P s \<and>
            Option.bind (sv_cache svc') (\<lambda>c. c (in_UserID input, in_GroupID input)) = None))"

lemma invalidated [simp]: "Option.bind (sv_cache (InvalidateSubCache u g svc)) (\<lambda>c. c (u, g)) = None"
  by (cases "sv_cache svc") (simp_all add: InvalidateSubCache_def)

lemma invalidated_db [simp]: "sv_db (InvalidateSubCache u g svc) = sv_db svc"
  by (simp add: InvalidateSubCache_def)

lemma assigned_created:
  assumes inv: "subs_inv (sv_db svc)" and sc: "same_rows (sv_db svc) c"
    and d: "createSubscription now input c = (rc, d)" and svc': "sv_db svc' = d"
    and r: "r = (case rc of Inl e \<Rightarrow> Inl e | Inr s \<Rightarrow> Inr (s, False))"
    and del: "\<not> isl rc \<Longrightarrow> Option.bind (sv_cache svc') (\<lambda>c. c (in_UserID input, in_GroupID input)) = None"
  shows "assigned now input svc r svc'"
proof (cases rule: createSubscription_result [OF d])
  case (1 e)
  with r svc' sc same_rows_trans show ?thesis by (fastforce simp: assigned_def)
next
  case 2
  note rows = sc [unfolded same_rows_def]
  have n: "find (of_pair (in_UserID input) (in_GroupID input)) (sd_subs (sv_db svc)) = None"
    using 2(1) rows by (auto simp: find_None_all list_ex_iff)
  have "s \<in> set (sd_subs d) \<and> of_pair (in_UserID input) (in_GroupID input) s" if "rc = Inr s" for s
    using find_Some_mem [OF 2(5) [OF that]] 2(2) inv rows by (auto simp: subs_inv_def new_subscription_def of_pair_def)
  with 2 r rows n svc' del show ?thesis by (cases rc) (auto simp: assigned_def granted_def Let_def)
qed

lemma assigned_extended:
  assumes inv: "subs_inv (sv_db svc)" and sc: "same_rows (sv_db svc) c"
    and s: "find (of_pair (in_UserID input) (in_GroupID input)) (sd_subs c) = Some s"
    and d: "extend_existing now input s c = (re, d)" and h: "repo_find (\<lambda>t. us_ID t = us_ID s) d = (rh, h)"
    and r: "r = (case re of Inl e \<Rightarrow> Inl e | Inr _ \<Rightarrow> case rh of Inl e \<Rightarrow> Inl e | Inr t \<Rightarrow> Inr (t, True))"
    and svc': "sv_db svc' = (if isl re then d else h)"
    and del: "\<not> isl re \<Longrightarrow> Option.bind (sv_cache svc') (\<lambda>c. c (in_UserID input, in_GroupID input)) = None"
  shows "assigned now input svc r svc'"
proof -
  note rows = sc [unfolded same_rows_def]
  have invc: "subs_inv c" using inv same_rows_inv [OF sc] by simp
  from s have sm: "s \<in> set (sd_subs c)" "of_pair (in_UserID input) (in_GroupID input) s" by (auto dest: find_Some_mem)
  show ?thesis
  proof (cases rule: extend_existing_result [OF d invc sm(1)])
    case (1 e)
    with r sc svc' show ?thesis by (auto simp: assigned_def Let_def dest: same_rows_trans)
  next
    case 2
    note hh = repo_find_same [OF h]
    have t: "t \<in> set (sd_subs h) \<and> of_pair (in_UserID input) (in_GroupID input) t" if "rh = Inr t" for t
      using hh that 2(2) row_unique [OF invc _ sm(1)] sm(2)
      by (fastforce simp: same_rows_def at_id_def extended_def of_pair_def dest: find_Some_mem)
    have "list_ex (of_pair (in_UserID input) (in_GroupID input)) (sd_subs (sv_db svc))"
      using sm rows by (auto simp: list_ex_iff)
    with 2 r t s rows hh svc' del show ?thesis
      by (cases rh) (auto simp: assigned_def granted_def same_rows_def Let_def)
  qed
qed

lemma AssignOrExtend_assigned:
  assumes inv: "subs_inv (sv_db svc)" and a: "AssignOrExtendSubscription now input svc = (r, svc')"
  shows "assigned now input svc r svc'"
proof -
  let ?P = "of_pair (in_UserID input) (in_GroupID input)"
  obtain rg b where g: "group_GetByID (in_GroupID input) (sv_db svc) = (rg, b)" by fastforce
  obtain rf c where f: "repo_find ?P b = (rf, c)" by fastforce
  have sb: "same_rows (sv_db svc) b" and sc: "same_rows (sv_db svc) c"
    using group_find_same [OF g] repo_find_same [OF f] by (auto intro: same_rows_trans)
  note defs = AssignOrExtendSubscription_def on_db_def repo_GetByUserIDAndGroupID_def repo_GetByID_def
  show ?thesis
  proof (cases "\<exists>gr. rg = Inr gr \<and> IsSubscriptionType gr")
    case False
    with a g sb show ?thesis by (cases rg) (auto simp: defs assigned_def)
  next
    case True
    then obtain gr where gr: "rg = Inr gr" "IsSubscriptionType gr" by blast
    show ?thesis
    proof (cases rf)
      case (Inl e)
      obtain rc d where d: "createSubscription now input c = (rc, d)" by fastforce
      show ?thesis
        by (rule assigned_created [OF inv sc d]; use a g gr f Inl d in \<open>cases rc; auto simp: defs\<close>)
    next
      case (Inr s)
      with repo_find_same [OF f] repo_find_same [OF f] have s: "find ?P (sd_subs c) = Some s" by (simp add: same_rows_def)
      obtain re d where d: "extend_existing now input s c = (re, d)" by fastforce
      obtain rh h where h: "repo_find (\<lambda>t. us_ID t = us_ID s) d = (rh, h)" by fastforce
      show ?thesis
        by (rule assigned_extended [OF inv sc s d h]; use a g gr f Inr d h in \<open>cases re; cases rh; auto simp: defs\<close>)
    qed
  qed
qed

section \<open>An assignment under working storage\<close>

lemma sub_up_rows [simp]: "sub_up (db\<lparr>sd_subs := ss\<rparr>) = sub_up db" "sub_up (db\<lparr>sd_subs := ss, sd_next := n\<rparr>) = sub_up db"
  by (simp_all add: sub_up_def)

lemma repo_find_up: "sub_up db \<Longrightarrow> find P (sd_subs db) = Some s \<Longrightarrow> repo_find P db = (Inr s, db)"
  by (simp add: repo_find_def)

lemma extend_existing_up:
  assumes "sub_up db" and "list_ex (\<lambda>t. us_ID t = us_ID s) (sd_subs db)"
  shows "\<exists>db'. extend_existing now input s db = (Inr (), db') \<and> sub_up db'"
  using assms
  by (simp add: extend_existing_def transaction_def run_tx_def repo_ExtendExpiry_def repo_UpdateStatus_def repo_UpdateNotes_def
      repo_update_up at_id_comp)

lemma AssignOrExtend_up:
  assumes inv: "subs_inv (sv_db svc)" and up: "sub_up (sv_db svc)"
    and g: "sd_groups (sv_db svc) (in_GroupID input) = Some g" "IsSubscriptionType g"
  shows "\<exists>s b svc'. AssignOrExtendSubscription now input svc = (Inr (s, b), svc')"
proof -
  let ?P = "of_pair (in_UserID input) (in_GroupID input)" and ?db = "sv_db svc"
  have G: "on_db (group_GetByID (in_GroupID input)) svc = (Inr g, svc)"
    using up g by (simp add: on_db_def group_GetByID_def)
  show ?thesis
  proof (cases "find ?P (sd_subs ?db)")
    case None
    then have F: "on_db (repo_find ?P) svc = (Inl SubscriptionNotFound, svc)" using up by (simp add: on_db_def repo_find_def)
    have "\<not> list_ex ?P (sd_subs ?db)" using None by (auto simp: find_None_all list_ex_iff)
    then have "repo_Create (new_subscription now input) ?db = (Inr (sd_next ?db), ?db\<lparr>sd_subs := sd_subs ?db @
        [(new_subscription now input)\<lparr>us_ID := sd_next ?db\<rparr>], sd_next := sd_next ?db + 1\<rparr>)"
      using up by (simp add: repo_Create_def) (simp add: new_subscription_def)
    moreover have "filter (\<lambda>t. us_ID t = sd_next ?db) (sd_subs ?db) = []"
      using inv by (auto simp: filter_empty_conv subs_inv_def)
    then have "find (\<lambda>t. us_ID t = sd_next ?db) (sd_subs ?db @ [(new_subscription now input)\<lparr>us_ID := sd_next ?db\<rparr>])
        = Some ((new_subscription now input)\<lparr>us_ID := sd_next ?db\<rparr>)"
      by (simp add: find_filter)
    ultimately have "\<exists>s db'. on_db (createSubscription now input) svc = (Inr s, db')"
      using up by (auto simp: on_db_def createSubscription_def repo_GetByID_def repo_find_def)
    with G F g(2) show ?thesis by (auto simp: AssignOrExtendSubscription_def repo_GetByUserIDAndGroupID_def)
  next
    case (Some s)
    then have F: "on_db (repo_find ?P) svc = (Inr s, svc)" using up by (simp add: on_db_def repo_find_up)
    have x: "list_ex (\<lambda>t. us_ID t = us_ID s) (sd_subs ?db)" using Some by (auto simp: list_ex_iff dest: find_Some_mem)
    obtain db' where e: "extend_existing now input s ?db = (Inr (), db')" "sub_up db'"
      using extend_existing_up [OF up x] by blast
    from Some have "s \<in> set (sd_subs ?db)" by (auto dest: find_Some_mem)
    from extend_existing_result [OF e(1) inv this] have "sd_subs db' = at_id (us_ID s) (extended now input) (sd_subs ?db)"
      by blast
    then have "list_ex (\<lambda>t. us_ID t = us_ID s) (sd_subs db')" using x by (simp add: extended_def)
    then have "find (\<lambda>t. us_ID t = us_ID s) (sd_subs db') \<noteq> None" by (auto simp: find_None_all list_ex_iff)
    then obtain t where "repo_find (\<lambda>t. us_ID t = us_ID s) db' = (Inr t, db')" using e(2) repo_find_up by blast
    with G F g(2) e show ?thesis
      by (auto simp: AssignOrExtendSubscription_def repo_GetByUserIDAndGroupID_def repo_GetByID_def on_db_def)
  qed
qed

lemma pair_unique:
  "subs_inv db \<Longrightarrow> s \<in> set (sd_subs db) \<Longrightarrow> t \<in> set (sd_subs db) \<Longrightarrow> of_pair u g s \<Longrightarrow> of_pair u g t \<Longrightarrow> s = t"
  by (auto simp: subs_inv_def distinct_map inj_on_def of_pair_def)

lemma extended_pair [simp]: "of_pair u g (extended now input s) = of_pair u g s"
  by (simp add: of_pair_def extended_def)

text \<open>The expiry that an assignment leads to.\<close>

lemma cap_expiry_min: "cap_expiry t = min MaxExpiresAt t"
  by (simp add: cap_expiry_def min_def)

lemma new_expiry_max: "new_expiry now n s = min MaxExpiresAt (AddDays (max now (us_ExpiresAt s)) n)"
  by (auto simp: new_expiry_def cap_expiry_min max_def)

lemma granted_row:
  assumes "subs_inv db" and "s \<in> set (granted now input db)" and "of_pair (in_UserID input) (in_GroupID input) s"
  shows "s = (case find (of_pair (in_UserID input) (in_GroupID input)) (sd_subs db) of
      Some t \<Rightarrow> extended now input t | None \<Rightarrow> (new_subscription now input)\<lparr>us_ID := sd_next db\<rparr>)"
proof (cases "find (of_pair (in_UserID input) (in_GroupID input)) (sd_subs db)")
  case None
  moreover from None have "\<forall>q \<in> set (sd_subs db). \<not> of_pair (in_UserID input) (in_GroupID input) q"
    by (simp add: find_None_all)
  ultimately show ?thesis using assms by (auto simp: granted_def)
next
  case (Some t)
  then have t: "t \<in> set (sd_subs db)" "of_pair (in_UserID input) (in_GroupID input) t" by (auto dest: find_Some_mem)
  from assms(2) Some obtain q where q: "q \<in> set (sd_subs db)" "s = (if us_ID q = us_ID t then extended now input q else q)"
    by (auto simp: granted_def at_id_def)
  with assms(3) have "of_pair (in_UserID input) (in_GroupID input) q" by (simp split: if_splits)
  with pair_unique [OF assms(1) q(1) t(1)] t(2) have "q = t" by blast
  with q Some show ?thesis by simp
qed

text \<open>The rows of other users and groups stay.\<close>

lemma granted_others:
  assumes "subs_inv db"
  shows "filter (\<lambda>s. \<not> of_pair (in_UserID input) (in_GroupID input) s) (granted now input db)
    = filter (\<lambda>s. \<not> of_pair (in_UserID input) (in_GroupID input) s) (sd_subs db)"
proof (cases "find (of_pair (in_UserID input) (in_GroupID input)) (sd_subs db)")
  case None
  then show ?thesis by (simp add: granted_def of_pair_def new_subscription_def)
next
  case (Some t)
  then have t: "t \<in> set (sd_subs db)" "of_pair (in_UserID input) (in_GroupID input) t" by (auto dest: find_Some_mem)
  have q: "us_ID q = us_ID t \<longleftrightarrow> of_pair (in_UserID input) (in_GroupID input) q" if "q \<in> set (sd_subs db)" for q
    using row_unique [OF assms that t(1)] pair_unique [OF assms that t(1)] t(2) by auto
  have "set ss \<subseteq> set (sd_subs db) \<Longrightarrow>
      filter (\<lambda>s. \<not> of_pair (in_UserID input) (in_GroupID input) s) (at_id (us_ID t) (extended now input) ss)
        = filter (\<lambda>s. \<not> of_pair (in_UserID input) (in_GroupID input) s) ss" for ss
    by (induction ss) (auto simp: at_id_def q)
  with Some show ?thesis by (simp add: granted_def)
qed

lemma assigned_inv: "subs_inv (sv_db svc) \<Longrightarrow> assigned now input svc r svc' \<Longrightarrow> subs_inv (sv_db svc')"
  unfolding assigned_def Let_def using granted_inv same_rows_inv by blast

lemma pair_filter:
  assumes "subs_inv db" and "s \<in> set (sd_subs db)" and "of_pair u g s"
  shows "filter (of_pair u g) (sd_subs db) = [s]"
proof -
  have "\<forall>x \<in> set (filter (of_pair u g) (sd_subs db)). x = s"
    using pair_unique [OF assms(1) _ assms(2)] assms(3) by auto
  moreover have "distinct (filter (of_pair u g) (sd_subs db))"
    using assms(1) by (auto simp: subs_inv_def distinct_map)
  moreover have "s \<in> set (filter (of_pair u g) (sd_subs db))" using assms by simp
  ultimately show ?thesis by (cases "filter (of_pair u g) (sd_subs db)" rule: remdups_adj.cases) auto
qed

text \<open>C12. Whatever storage calls fail, an assignment is all or nothing: either it returns an error
  and the stored subscriptions are as before, or they are the granted ones; a subscription is
  returned only when it was stored, it is the row of the user and group, and the cache has
  forgotten the older one; there is still at most one row for each user and group.\<close>

theorem AssignOrExtendSubscription_atomic:
  assumes "subs_inv (sv_db svc)" and "AssignOrExtendSubscription now input svc = (r, svc')"
  shows "subs_inv (sv_db svc') \<and>
    (isl r \<and> sd_subs (sv_db svc') = sd_subs (sv_db svc) \<or> sd_subs (sv_db svc') = granted now input (sv_db svc)) \<and>
    (\<forall>s b. r = Inr (s, b) \<longrightarrow> sd_subs (sv_db svc') = granted now input (sv_db svc) \<and> s \<in> set (sd_subs (sv_db svc')) \<and>
      of_pair (in_UserID input) (in_GroupID input) s \<and>
      b = list_ex (of_pair (in_UserID input) (in_GroupID input)) (sd_subs (sv_db svc)) \<and>
      Option.bind (sv_cache svc') (\<lambda>c. c (in_UserID input, in_GroupID input)) = None)"
  using AssignOrExtend_assigned [OF assms] assigned_inv [OF assms(1) AssignOrExtend_assigned [OF assms]]
  by (auto simp: assigned_def same_rows_def Let_def)

text \<open>C13. With working storage and a subscription group, an assignment succeeds: the user's row of
  the group is active and expires the days of the assignment (1 to 36500, 30 when none are given)
  after its old expiry, or after now if that has passed, but not after the maximum; the rows of
  other users and groups are unchanged.\<close>

theorem AssignOrExtendSubscription_grants:
  assumes "subs_inv (sv_db svc)" and "sub_up (sv_db svc)"
    and "sd_groups (sv_db svc) (in_GroupID input) = Some g" and "IsSubscriptionType g"
  shows "\<exists>s svc'. let P = of_pair (in_UserID input) (in_GroupID input); rows = sd_subs (sv_db svc);
      rows' = sd_subs (sv_db svc'); old = map_option us_ExpiresAt (find P rows);
      n = (if in_ValidityDays input \<le> 0 then 30 else min 36500 (in_ValidityDays input))
    in AssignOrExtendSubscription now input svc = (Inr (s, list_ex P rows), svc') \<and>
       filter P rows' = [s] \<and> us_Status s = SubscriptionStatusActive \<and>
       us_ExpiresAt s = min MaxExpiresAt (max now (option_or old now) + days n) \<and>
       filter (\<lambda>t. \<not> P t) rows' = filter (\<lambda>t. \<not> P t) rows"
proof -
  let ?P = "of_pair (in_UserID input) (in_GroupID input)"
  obtain s b svc' where a: "AssignOrExtendSubscription now input svc = (Inr (s, b), svc')"
    using AssignOrExtend_up [OF assms] by blast
  note as = AssignOrExtend_assigned [OF assms(1) a]
  from as have g: "sd_subs (sv_db svc') = granted now input (sv_db svc)" and b: "b = list_ex ?P (sd_subs (sv_db svc))"
    and s: "s \<in> set (sd_subs (sv_db svc'))" "?P s"
    by (auto simp: assigned_def Let_def)
  note row = granted_row [OF assms(1) s(1) [unfolded g] s(2)]
  have n: "normalizeAssignValidityDays n = (if n \<le> 0 then 30 else min 36500 n)" for n
    by (simp add: normalizeAssignValidityDays_def MaxValidityDays_def)
  have "us_Status s = SubscriptionStatusActive \<and> us_ExpiresAt s = min MaxExpiresAt (max now (option_or
      (map_option us_ExpiresAt (find ?P (sd_subs (sv_db svc)))) now) + days (normalizeAssignValidityDays (in_ValidityDays input)))"
    using row by (auto simp: extended_def new_subscription_def new_expiry_max cap_expiry_min AddDays_def split: option.splits)
  moreover note pair_filter [OF assigned_inv [OF assms(1) as] s]
  moreover note granted_others [OF assms(1), of input now]
  ultimately show ?thesis
    using a b g n by (intro exI [of _ s] exI [of _ svc']) (simp add: Let_def)
qed

text \<open>A subscription of 30 days whose daily window is long over.\<close>

definition demo_group :: Group where
  "demo_group = \<lparr>gr_ID = 7, gr_Status = ''active'', gr_SubscriptionType = ''subscription'', gr_DailyLimitUSD = Some (Fin 10),
     gr_WeeklyLimitUSD = None, gr_MonthlyLimitUSD = Some (Fin 0)\<rparr>"

definition demo_sub :: UserSubscription where
  "demo_sub = \<lparr>us_ID = 1, us_UserID = 5, us_GroupID = 7, us_StartsAt = 0, us_ExpiresAt = days 30,
     us_Status = ''active'', us_DailyWindowStart = Some 0, us_WeeklyWindowStart = Some (days 2), us_MonthlyWindowStart = Some 0,
     us_DailyUsageUSD = Fin 9, us_WeeklyUsageUSD = Fin 9, us_MonthlyUsageUSD = Fin 9, us_AssignedBy = None,
     us_AssignedAt = 0, us_Notes = ''''\<rparr>"

definition demo_service :: sub_service where
  "demo_service = \<lparr>sv_db = \<lparr>sd_subs = [demo_sub], sd_next = 2, sd_groups = [7 \<mapsto> demo_group], sd_faults = []\<rparr>,
     sv_cache = Some Map.empty\<rparr>"

definition demo_input :: AssignSubscriptionInput where
  "demo_input = \<lparr>in_UserID = 5, in_GroupID = 7, in_ValidityDays = 10, in_AssignedBy = 0, in_Notes = ''gift''\<rparr>"

lemma demo_ok:
  "subs_inv (sv_db demo_service)" "sub_up (sv_db demo_service)"
  "sd_groups (sv_db demo_service) (in_GroupID demo_input) = Some demo_group" "IsSubscriptionType demo_group"
  by (simp_all add: demo_service_def demo_sub_def demo_input_def demo_group_def subs_inv_def sub_up_def IsSubscriptionType_def)

lemma AssignOrExtendSubscription_grants_witness:
  "\<exists>s svc'. AssignOrExtendSubscription (days 40) demo_input demo_service = (Inr (s, True), svc') \<and>
     us_ExpiresAt s = days 50 \<and> us_Status s = ''active''"
  using AssignOrExtendSubscription_grants [OF demo_ok, of "days 40"]
  by (auto simp: Let_def demo_service_def demo_sub_def demo_input_def of_pair_def MaxExpiresAt_def
      SubscriptionStatusActive_def)

lemma AssignOrExtendSubscription_atomic_witness:
  "\<exists>r svc'. AssignOrExtendSubscription (days 40) demo_input
       (demo_service\<lparr>sv_db := (sv_db demo_service)\<lparr>sd_faults := [False, True]\<rparr>\<rparr>) = (r, svc') \<and>
     isl r \<and> sd_subs (sv_db svc') = [demo_sub]"
proof -
  let ?svc = "demo_service\<lparr>sv_db := (sv_db demo_service)\<lparr>sd_faults := [False, True]\<rparr>\<rparr>"
  obtain r svc' where a: "AssignOrExtendSubscription (days 40) demo_input ?svc = (r, svc')" by fastforce
  moreover have "subs_inv (sv_db ?svc)" using demo_ok(1) by (simp add: subs_inv_def)
  moreover from a have "isl r"
    by (auto simp: AssignOrExtendSubscription_def on_db_def group_GetByID_def sub_call_def demo_service_def demo_input_def
        demo_group_def IsSubscriptionType_def repo_GetByUserIDAndGroupID_def repo_find_def createSubscription_def
        repo_Create_def new_subscription_def of_pair_def demo_sub_def)
  moreover from a have "sd_subs (sv_db svc') \<noteq> granted (days 40) demo_input (sv_db ?svc)"
    by (auto simp: AssignOrExtendSubscription_def on_db_def group_GetByID_def sub_call_def demo_service_def demo_input_def
        demo_group_def IsSubscriptionType_def repo_GetByUserIDAndGroupID_def repo_find_def createSubscription_def
        repo_Create_def new_subscription_def of_pair_def demo_sub_def granted_def at_id_def extended_def newline_def)
  ultimately show ?thesis
    using AssignOrExtendSubscription_atomic [of ?svc "days 40" demo_input r svc'] by (auto simp: demo_service_def)
qed

section \<open>Usage windows\<close>

lemma needs_reset_iff: "needs_reset len now st \<longleftrightarrow> (\<exists>t. st = Some t \<and> t + len \<le> now)"
  by (auto simp: needs_reset_def split: option.splits)

lemma add_zero [simp]: "u + 0 = (u :: float64)"
  by (cases u) (simp_all add: float_defs)

lemma within_limit_iff: "within_limit l u 0 \<longleftrightarrow> (case l of None \<Rightarrow> True | Some v \<Rightarrow> u \<le> v \<or> v \<le> 0 \<or> v = NaN)"
proof -
  have "\<not> v > 0 \<longleftrightarrow> v \<le> 0 \<or> v = NaN" for v :: float64
    by (cases v) (auto simp: float_defs)
  then show ?thesis by (auto simp: within_limit_def split: option.splits)
qed

lemma NeedsReset_usage [simp]:
  "NeedsWeeklyReset now (s\<lparr>us_DailyUsageUSD := x\<rparr>) = NeedsWeeklyReset now s"
  "NeedsMonthlyReset now (s\<lparr>us_DailyUsageUSD := x\<rparr>) = NeedsMonthlyReset now s"
  "NeedsMonthlyReset now (s\<lparr>us_WeeklyUsageUSD := x\<rparr>) = NeedsMonthlyReset now s"
  by (simp_all add: NeedsWeeklyReset_def NeedsMonthlyReset_def)

lemma CheckUsageLimits_None: "CheckUsageLimits s g c = None \<longleftrightarrow>
    within_limit (gr_DailyLimitUSD g) (us_DailyUsageUSD s) c \<and> within_limit (gr_WeeklyLimitUSD g) (us_WeeklyUsageUSD s) c \<and>
    within_limit (gr_MonthlyLimitUSD g) (us_MonthlyUsageUSD s) c"
  by (simp add: CheckUsageLimits_def CheckDailyLimit_def CheckWeeklyLimit_def CheckMonthlyLimit_def)

lemma ValidateAndCheckLimits_limits:
  "fst (snd (ValidateAndCheckLimits clk s g)) = None \<longleftrightarrow>
     us_Status s \<notin> {SubscriptionStatusExpired, SubscriptionStatusSuspended} \<and> \<not> IsExpired (clk 0) s \<and>
     within_limit (gr_DailyLimitUSD g) (if NeedsDailyReset (clk 1) s then 0 else us_DailyUsageUSD s) 0 \<and>
     within_limit (gr_WeeklyLimitUSD g) (if NeedsWeeklyReset (clk 2) s then 0 else us_WeeklyUsageUSD s) 0 \<and>
     within_limit (gr_MonthlyLimitUSD g) (if NeedsMonthlyReset (clk 3) s then 0 else us_MonthlyUsageUSD s) 0"
  by (cases "NeedsDailyReset (clk 1) s"; cases "NeedsWeeklyReset (clk 2) s"; cases "NeedsMonthlyReset (clk 3) s")
    (simp_all add: ValidateAndCheckLimits_def CheckUsageLimits_None Let_def del: One_nat_def)

text \<open>A request is let through exactly when the subscription is neither expired nor suspended,
  its end has not passed, and in every period with a positive limit the usage of the current window
  is within the limit, where the usage of an elapsed window counts as nothing.\<close>

theorem ValidateAndCheckLimits_accepts:
  "fst (snd (ValidateAndCheckLimits clk s g)) = None \<longleftrightarrow>
    (let used = (\<lambda>len now start u. if \<exists>t. start = Some t \<and> t + len \<le> now then 0 else u);
         fits = (\<lambda>limit u. case limit of None \<Rightarrow> True | Some v \<Rightarrow> u \<le> v \<or> v \<le> 0 \<or> v = NaN)
     in us_Status s \<notin> {''expired'', ''suspended''} \<and> clk 0 \<le> us_ExpiresAt s \<and>
        fits (gr_DailyLimitUSD g) (used (hours 24) (clk 1) (us_DailyWindowStart s) (us_DailyUsageUSD s)) \<and>
        fits (gr_WeeklyLimitUSD g) (used (days 7) (clk 2) (us_WeeklyWindowStart s) (us_WeeklyUsageUSD s)) \<and>
        fits (gr_MonthlyLimitUSD g) (used (days 30) (clk 3) (us_MonthlyWindowStart s) (us_MonthlyUsageUSD s)))"
  unfolding ValidateAndCheckLimits_limits
  by (simp add: within_limit_iff NeedsDailyReset_def NeedsWeeklyReset_def NeedsMonthlyReset_def needs_reset_iff
      SubscriptionStatusExpired_def SubscriptionStatusSuspended_def IsExpired_def not_less Let_def)

text \<open>The effect on a row of the resets that are due for a copy.\<close>

definition reset_row :: "duration \<Rightarrow> instant \<Rightarrow> UserSubscription \<Rightarrow> UserSubscription \<Rightarrow> UserSubscription" where
  "reset_row tz now s r =
     (let t = start_of_day tz now
      in r\<lparr>us_DailyWindowStart := if NeedsDailyReset now s then Some t else us_DailyWindowStart r,
           us_WeeklyWindowStart := if NeedsWeeklyReset now s then Some t else us_WeeklyWindowStart r,
           us_MonthlyWindowStart := if NeedsMonthlyReset now s then Some t else us_MonthlyWindowStart r,
           us_DailyUsageUSD := if NeedsDailyReset now s then 0 else us_DailyUsageUSD r,
           us_WeeklyUsageUSD := if NeedsWeeklyReset now s then 0 else us_WeeklyUsageUSD r,
           us_MonthlyUsageUSD := if NeedsMonthlyReset now s then 0 else us_MonthlyUsageUSD r\<rparr>)"

definition some_reset :: "instant \<Rightarrow> UserSubscription \<Rightarrow> bool" where
  "some_reset now s \<longleftrightarrow> NeedsDailyReset now s \<or> NeedsWeeklyReset now s \<or> NeedsMonthlyReset now s"

lemma reset_window_up:
  assumes "sub_up db" and "list_ex (\<lambda>t. us_ID t = i) (sd_subs db)" and "\<And>r. us_ID (f r) = us_ID r"
  shows "\<exists>db'. reset_window due (repo_update i f) g (s, ch) db = (Inr (if due then g s else s, ch \<or> due), db') \<and>
    sub_up db' \<and> list_ex (\<lambda>t. us_ID t = i) (sd_subs db') \<and> sd_next db' = sd_next db \<and> sd_groups db' = sd_groups db \<and>
    sd_subs db' = at_id i (\<lambda>r. if due then f r else r) (sd_subs db)"
  using assms by (cases due) (simp_all add: reset_window_def repo_update_up at_id_same)

lemma reset_row_split:
  "reset_row tz now s r =
     (\<lambda>r. if NeedsMonthlyReset now s then r\<lparr>us_MonthlyUsageUSD := 0, us_MonthlyWindowStart := Some (start_of_day tz now)\<rparr> else r)
     ((\<lambda>r. if NeedsWeeklyReset now s then r\<lparr>us_WeeklyUsageUSD := 0, us_WeeklyWindowStart := Some (start_of_day tz now)\<rparr> else r)
     ((\<lambda>r. if NeedsDailyReset now s then r\<lparr>us_DailyUsageUSD := 0, us_DailyWindowStart := Some (start_of_day tz now)\<rparr> else r) r))"
  by (cases r) (simp add: reset_row_def Let_def)

lemma reset_row_copy:
  "reset_row tz now s r =
     (\<lambda>r. if NeedsMonthlyReset now s then r\<lparr>us_MonthlyWindowStart := Some (start_of_day tz now), us_MonthlyUsageUSD := 0\<rparr> else r)
     ((\<lambda>r. if NeedsWeeklyReset now s then r\<lparr>us_WeeklyWindowStart := Some (start_of_day tz now), us_WeeklyUsageUSD := 0\<rparr> else r)
     ((\<lambda>r. if NeedsDailyReset now s then r\<lparr>us_DailyWindowStart := Some (start_of_day tz now), us_DailyUsageUSD := 0\<rparr> else r) r))"
  by (cases r) (simp add: reset_row_def Let_def)

lemma NeedsReset_other [simp]:
  "NeedsWeeklyReset now (s\<lparr>us_DailyWindowStart := w\<rparr>) = NeedsWeeklyReset now s"
  "NeedsMonthlyReset now (s\<lparr>us_DailyWindowStart := w\<rparr>) = NeedsMonthlyReset now s"
  "NeedsMonthlyReset now (s\<lparr>us_WeeklyWindowStart := w\<rparr>) = NeedsMonthlyReset now s"
  by (simp_all add: NeedsWeeklyReset_def NeedsMonthlyReset_def)

lemma reset_windows_up:
  assumes up: "sub_up db" and x: "list_ex (\<lambda>t. us_ID t = us_ID s) (sd_subs db)"
  shows "\<exists>db'. reset_windows tz (\<lambda>_. now) s db = (Inr (reset_row tz now s s, some_reset now s), db') \<and> sub_up db' \<and>
    sd_next db' = sd_next db \<and> sd_groups db' = sd_groups db \<and> sd_subs db' = at_id (us_ID s) (reset_row tz now s) (sd_subs db)"
proof -
  let ?t = "Some (start_of_day tz now)"
  let ?d = "NeedsDailyReset now s" and ?w = "NeedsWeeklyReset now s" and ?m = "NeedsMonthlyReset now s"
  let ?f = "\<lambda>r. if ?d then r\<lparr>us_DailyWindowStart := ?t, us_DailyUsageUSD := 0\<rparr> else r"
  let ?g = "\<lambda>r. if ?w then r\<lparr>us_WeeklyWindowStart := ?t, us_WeeklyUsageUSD := 0\<rparr> else r"
  obtain d1 where d1: "reset_window ?d (repo_ResetDailyUsage (us_ID s) (start_of_day tz now))
      (\<lambda>s. s\<lparr>us_DailyWindowStart := ?t, us_DailyUsageUSD := 0\<rparr>) (s, False) db = (Inr (?f s, ?d), d1)"
    and 1: "sub_up d1" "list_ex (\<lambda>t. us_ID t = us_ID s) (sd_subs d1)" "sd_next d1 = sd_next db" "sd_groups d1 = sd_groups db"
      "sd_subs d1 = at_id (us_ID s) (\<lambda>r. if ?d then r\<lparr>us_DailyUsageUSD := 0, us_DailyWindowStart := ?t\<rparr> else r) (sd_subs db)"
    using reset_window_up [OF up x, of "\<lambda>s. s\<lparr>us_DailyUsageUSD := 0, us_DailyWindowStart := ?t\<rparr>" ?d
      "\<lambda>s. s\<lparr>us_DailyWindowStart := ?t, us_DailyUsageUSD := 0\<rparr>" "s" "False"] unfolding repo_ResetDailyUsage_def by auto
  obtain d2 where d2: "reset_window ?w (repo_ResetWeeklyUsage (us_ID s) (start_of_day tz now))
      (\<lambda>s. s\<lparr>us_WeeklyWindowStart := ?t, us_WeeklyUsageUSD := 0\<rparr>) (?f s, ?d) d1 = (Inr (?g (?f s), ?d \<or> ?w), d2)"
    and 2: "sub_up d2" "list_ex (\<lambda>t. us_ID t = us_ID s) (sd_subs d2)" "sd_next d2 = sd_next d1" "sd_groups d2 = sd_groups d1"
      "sd_subs d2 = at_id (us_ID s) (\<lambda>r. if ?w then r\<lparr>us_WeeklyUsageUSD := 0, us_WeeklyWindowStart := ?t\<rparr> else r) (sd_subs d1)"
    using reset_window_up [OF 1(1,2), of "\<lambda>s. s\<lparr>us_WeeklyUsageUSD := 0, us_WeeklyWindowStart := ?t\<rparr>" ?w
      "\<lambda>s. s\<lparr>us_WeeklyWindowStart := ?t, us_WeeklyUsageUSD := 0\<rparr>" "?f s" "?d"] unfolding repo_ResetWeeklyUsage_def by auto
  obtain d3 where d3: "reset_window ?m (repo_ResetMonthlyUsage (us_ID s) (start_of_day tz now))
      (\<lambda>s. s\<lparr>us_MonthlyWindowStart := ?t, us_MonthlyUsageUSD := 0\<rparr>) (?g (?f s), ?d \<or> ?w) d2
      = (Inr (reset_row tz now s s, some_reset now s), d3)"
    and 3: "sub_up d3" "sd_next d3 = sd_next d2" "sd_groups d3 = sd_groups d2"
      "sd_subs d3 = at_id (us_ID s) (\<lambda>r. if ?m then r\<lparr>us_MonthlyUsageUSD := 0, us_MonthlyWindowStart := ?t\<rparr> else r) (sd_subs d2)"
    using reset_window_up [OF 2(1,2), of "\<lambda>s. s\<lparr>us_MonthlyUsageUSD := 0, us_MonthlyWindowStart := ?t\<rparr>" ?m
      "\<lambda>s. s\<lparr>us_MonthlyWindowStart := ?t, us_MonthlyUsageUSD := 0\<rparr>" "?g (?f s)" "?d \<or> ?w"] 
    unfolding repo_ResetMonthlyUsage_def by (auto simp: some_reset_def reset_row_copy)
  have "NeedsWeeklyReset now (?f s) = ?w" "NeedsMonthlyReset now (?g (?f s)) = ?m" by simp_all
  with d1 d2 d3 have "reset_windows tz (\<lambda>_. now) s db = (Inr (reset_row tz now s s, some_reset now s), d3)"
    by (simp add: reset_windows_def)
  moreover have "sd_subs d3 = at_id (us_ID s) (reset_row tz now s) (sd_subs db)"
    unfolding 3(4) 2(5) 1(5)
    by (simp add: at_id_comp comp_def) (intro at_id_cong ballI impI, simp only: reset_row_split)
  ultimately show ?thesis using 1 2 3 by auto
qed

text \<open>After the resets nothing is due.\<close>

lemma reset_row_fresh [simp]: "\<not> some_reset now (reset_row tz now s s)"
proof -
  have "now - start_of_day tz now < days 1" using start_of_day_gt [of now tz] by simp
  then show ?thesis
    by (auto simp: some_reset_def NeedsDailyReset_def NeedsWeeklyReset_def NeedsMonthlyReset_def reset_row_def
        needs_reset_def Let_def)
qed

lemma reset_row_id [simp]: "us_ID (reset_row tz now s r) = us_ID r"
  by (simp add: reset_row_def Let_def)

lemma reset_row_none: "\<not> some_reset now s \<Longrightarrow> reset_row tz now s r = r"
  by (simp add: reset_row_split some_reset_def)

lemma at_id_row:
  assumes "subs_inv db" and "s \<in> set (sd_subs db)"
  shows "at_id (us_ID s) f (sd_subs db) = map (\<lambda>t. if t = s then f s else t) (sd_subs db)"
  using row_unique [OF assms(1) _ assms(2)] by (auto simp: at_id_def)

lemma CheckAndResetWindows_up:
  assumes up: "sub_up (sv_db svc)" and x: "list_ex (\<lambda>t. us_ID t = us_ID s) (sd_subs (sv_db svc))"
  shows "\<exists>svc'. CheckAndResetWindows tz (\<lambda>_. now) s svc = (Inr (reset_row tz now s s), svc') \<and> sub_up (sv_db svc') \<and>
    sd_next (sv_db svc') = sd_next (sv_db svc) \<and> sd_groups (sv_db svc') = sd_groups (sv_db svc) \<and>
    sd_subs (sv_db svc') = at_id (us_ID s) (reset_row tz now s) (sd_subs (sv_db svc)) \<and>
    (some_reset now s \<longrightarrow> Option.bind (sv_cache svc') (\<lambda>c. c (us_UserID s, us_GroupID s)) = None)"
  using reset_windows_up [OF up x, of tz now] by (auto simp: CheckAndResetWindows_def on_db_def)

text \<open>Resetting the windows of a subscription that its caller read just now clears exactly the
  usage of the elapsed windows and starts them at midnight, in the row as in the returned copy; no
  window is due afterwards, so that a second round changes nothing, and other rows stay.\<close>

theorem CheckAndResetWindows_resets:
  assumes "subs_inv (sv_db svc)" and "sub_up (sv_db svc)" and "s \<in> set (sd_subs (sv_db svc))"
  shows "\<exists>s' svc'. CheckAndResetWindows tz (\<lambda>_. now) s svc = (Inr s', svc') \<and>
    sd_subs (sv_db svc') = map (\<lambda>t. if t = s then s' else t) (sd_subs (sv_db svc)) \<and>
    us_DailyUsageUSD s' = (if NeedsDailyReset now s then 0 else us_DailyUsageUSD s) \<and>
    us_WeeklyUsageUSD s' = (if NeedsWeeklyReset now s then 0 else us_WeeklyUsageUSD s) \<and>
    us_MonthlyUsageUSD s' = (if NeedsMonthlyReset now s then 0 else us_MonthlyUsageUSD s) \<and>
    us_DailyWindowStart s' = (if NeedsDailyReset now s then Some (start_of_day tz now) else us_DailyWindowStart s) \<and>
    us_ExpiresAt s' = us_ExpiresAt s \<and> us_Status s' = us_Status s \<and>
    \<not> NeedsDailyReset now s' \<and> \<not> NeedsWeeklyReset now s' \<and> \<not> NeedsMonthlyReset now s' \<and>
    CheckAndResetWindows tz (\<lambda>_. now) s' svc' = (Inr s', svc')"
proof -
  have x: "list_ex (\<lambda>t. us_ID t = us_ID s) (sd_subs (sv_db svc))" using assms(3) by (auto simp: list_ex_iff)
  obtain svc' where c: "CheckAndResetWindows tz (\<lambda>_. now) s svc = (Inr (reset_row tz now s s), svc')" "sub_up (sv_db svc')"
      "sd_subs (sv_db svc') = at_id (us_ID s) (reset_row tz now s) (sd_subs (sv_db svc))"
    using CheckAndResetWindows_up [OF assms(2) x, of tz now] by blast
  let ?s = "reset_row tz now s s"
  have n: "\<not> NeedsDailyReset now ?s" "\<not> NeedsWeeklyReset now ?s" "\<not> NeedsMonthlyReset now ?s"
    using reset_row_fresh [of now tz s] by (simp_all add: some_reset_def)
  then have "CheckAndResetWindows tz (\<lambda>_. now) ?s svc' = (Inr ?s, svc')"
    by (simp add: CheckAndResetWindows_def on_db_def reset_windows_def reset_window_def)
  with c n at_id_row [OF assms(1,3)] show ?thesis
    by (intro exI [of _ ?s] exI [of _ svc']) (simp add: reset_row_def Let_def)
qed

lemma CheckAndResetWindows_resets_witness:
  "\<exists>s' svc'. CheckAndResetWindows 0 (\<lambda>_. days 8) demo_sub demo_service = (Inr s', svc') \<and>
     sd_subs (sv_db svc') = [s'] \<and> us_DailyUsageUSD s' = 0 \<and> us_WeeklyUsageUSD s' = Fin 9 \<and>
     us_DailyWindowStart s' = Some (days 8)"
  using CheckAndResetWindows_resets [OF demo_ok(1,2), of demo_sub 0 "days 8"]
  by (auto simp: demo_service_def demo_sub_def NeedsDailyReset_def NeedsWeeklyReset_def needs_reset_def start_of_day_def)

section \<open>Stale copies\<close>

lemma doWindowMaintenance_up:
  assumes up: "sub_up (sv_db svc)" and x: "list_ex (\<lambda>t. us_ID t = us_ID s) (sd_subs (sv_db svc))" and "IsWindowActivated s"
  shows "sub_up (sv_db (doWindowMaintenance tz (\<lambda>_. now) s svc)) \<and>
    sd_groups (sv_db (doWindowMaintenance tz (\<lambda>_. now) s svc)) = sd_groups (sv_db svc) \<and>
    sd_subs (sv_db (doWindowMaintenance tz (\<lambda>_. now) s svc)) = at_id (us_ID s) (reset_row tz now s) (sd_subs (sv_db svc))"
proof -
  have "on_db (CheckAndActivateWindow tz now s) svc = (Inr (), svc)"
    using assms(3) by (simp add: on_db_def CheckAndActivateWindow_def)
  with CheckAndResetWindows_up [OF up x, of tz now] show ?thesis by (auto simp: doWindowMaintenance_def)
qed

lemma RecordUsage_up:
  assumes "sub_up (sv_db svc)" and "list_ex (\<lambda>t. us_ID t = i) (sd_subs (sv_db svc))"
    and "\<forall>t \<in> set (sd_subs (sv_db svc)). us_ID t = i \<longrightarrow> sd_groups (sv_db svc) (us_GroupID t) \<noteq> None"
  shows "\<exists>svc'. RecordUsage i c svc = (Inr (), svc') \<and> sub_up (sv_db svc') \<and> sv_cache svc' = sv_cache svc \<and>
    sd_groups (sv_db svc') = sd_groups (sv_db svc) \<and> sd_subs (sv_db svc') = at_id i (add_usage c) (sd_subs (sv_db svc))"
proof -
  have "list_ex (\<lambda>t. us_ID t = i \<and> sd_groups (sv_db svc) (us_GroupID t) \<noteq> None) (sd_subs (sv_db svc))"
    using assms(2,3) by (auto simp: list_ex_iff)
  moreover have "map (\<lambda>t. if us_ID t = i \<and> sd_groups (sv_db svc) (us_GroupID t) \<noteq> None then add_usage c t else t)
      (sd_subs (sv_db svc)) = at_id i (add_usage c) (sd_subs (sv_db svc))"
    using assms(3) by (auto simp: at_id_def)
  ultimately show ?thesis using assms(1) by (simp add: RecordUsage_def on_db_def repo_IncrementUsage_def)
qed

lemma add_usage_id [simp]: "us_ID (add_usage c s) = us_ID s"
  by (simp add: add_usage_def)

text \<open>Maintenance runs in the background on the copy its request read: when two requests find
  the daily window elapsed in the same copy, the maintenance of the second clears the daily usage
  again that was recorded after the maintenance of the first.\<close>

theorem doWindowMaintenance_loses_usage:
  assumes "subs_inv (sv_db svc)" and "sub_up (sv_db svc)" and "s \<in> set (sd_subs (sv_db svc))"
    and "sd_groups (sv_db svc) (us_GroupID s) \<noteq> None"
    and "NeedsDailyReset now s" and "now \<le> now'"
  shows "let svc1 = doWindowMaintenance tz (\<lambda>_. now) s svc;
             (r, svc2) = RecordUsage (us_ID s) c svc1;
             svc3 = doWindowMaintenance tz (\<lambda>_. now') s svc2
         in r = Inr () \<and> map_option us_DailyUsageUSD (sub_at (us_ID s) (sv_db svc2)) = Some (0 + c) \<and>
            map_option us_DailyUsageUSD (sub_at (us_ID s) (sv_db svc3)) = Some 0"
proof -
  let ?svc1 = "doWindowMaintenance tz (\<lambda>_. now) s svc"
  have w: "IsWindowActivated s" and d: "NeedsDailyReset now' s"
    using assms(5,6) by (auto simp: IsWindowActivated_def NeedsDailyReset_def needs_reset_iff)
  have x: "list_ex (\<lambda>t. us_ID t = us_ID s) (sd_subs (sv_db svc))" using assms(3) by (auto simp: list_ex_iff)
  have g: "sd_groups (sv_db svc) (us_GroupID t) \<noteq> None" if "t \<in> set (sd_subs (sv_db svc))" "us_ID t = us_ID s" for t
    using row_unique [OF assms(1) that(1) assms(3) that(2)] assms(4) by simp
  note 1 = doWindowMaintenance_up [OF assms(2) x w, of tz now]
  have "\<forall>t \<in> set (sd_subs (sv_db ?svc1)). us_ID t = us_ID s \<longrightarrow> sd_groups (sv_db ?svc1) (us_GroupID t) \<noteq> None"
    using 1 g by (auto simp: at_id_def reset_row_def Let_def)
  then obtain svc2 where 2: "RecordUsage (us_ID s) c ?svc1 = (Inr (), svc2)" "sub_up (sv_db svc2)"
      "sd_subs (sv_db svc2) = at_id (us_ID s) (add_usage c) (sd_subs (sv_db ?svc1))"
    using RecordUsage_up [of ?svc1 "us_ID s" c] 1 x by auto
  have x2: "list_ex (\<lambda>t. us_ID t = us_ID s) (sd_subs (sv_db svc2))" using 1 2 x by simp
  note 3 = doWindowMaintenance_up [OF 2(2) x2 w, of tz now']
  obtain t where t: "sub_at (us_ID s) (sv_db svc) = Some t"
    using x by (cases "sub_at (us_ID s) (sv_db svc)") (auto simp: sub_at_def find_None_all list_ex_iff)
  then show ?thesis
    using 1 2 3 assms(5) d by (simp add: Let_def sub_at_def find_at_id) (simp add: reset_row_def add_usage_def Let_def)
qed

lemma doWindowMaintenance_loses_usage_witness:
  "let svc1 = doWindowMaintenance 0 (\<lambda>_. days 8) demo_sub demo_service;
       (r, svc2) = RecordUsage 1 (Fin 5) svc1;
       svc3 = doWindowMaintenance 0 (\<lambda>_. days 8) demo_sub svc2
   in r = Inr () \<and> map_option us_DailyUsageUSD (sub_at 1 (sv_db svc2)) = Some (0 + Fin 5) \<and>
      map_option us_DailyUsageUSD (sub_at 1 (sv_db svc3)) = Some 0"
  using doWindowMaintenance_loses_usage [OF demo_ok(1,2), of demo_sub "days 8" "days 8" 0 "Fin 5"]
  by (simp add: demo_service_def demo_sub_def NeedsDailyReset_def needs_reset_def)

lemma extend_existing_rows:
  assumes "sub_up db" and "list_ex (\<lambda>t. us_ID t = us_ID s) (sd_subs db)"
  shows "\<exists>db'. extend_existing now input s db = (Inr (), db') \<and> sub_up db' \<and>
    map_option us_ExpiresAt (sub_at i db') = (if i = us_ID s
      then Some (new_expiry now (normalizeAssignValidityDays (in_ValidityDays input)) s) else map_option us_ExpiresAt (sub_at i db)) \<and>
    (\<forall>j. list_ex (\<lambda>t. us_ID t = j) (sd_subs db') = list_ex (\<lambda>t. us_ID t = j) (sd_subs db))"
proof -
  have "sub_at (us_ID s) db \<noteq> None" using assms(2) by (auto simp: sub_at_def find_None_all list_ex_iff)
  then obtain t where "find (\<lambda>r. us_ID r = us_ID s) (sd_subs db) = Some t" by (auto simp: sub_at_def)
  with assms show ?thesis
    by (auto simp: extend_existing_def transaction_def run_tx_def repo_ExtendExpiry_def repo_UpdateStatus_def repo_UpdateNotes_def
      repo_update_up at_id_comp sub_at_def find_at_id option.map_comp comp_def)
qed

text \<open>C14. Two extensions of one subscription that read it before either commits: both succeed, and
  the row expires the days of the second after the old expiry, so the days of the first are lost,
  although one after the other they would have added both.\<close>

theorem AssignOrExtendSubscription_lost_update:
  assumes "subs_inv db" and "sub_up db" and "s \<in> set (sd_subs db)" and "now \<le> us_ExpiresAt s"
    and "normalizeAssignValidityDays (in_ValidityDays a) = m" and "normalizeAssignValidityDays (in_ValidityDays b) = n"
    and "us_ExpiresAt s + days (m + n) \<le> MaxExpiresAt"
  shows "let (r1, db1) = extend_existing now a s db; (r2, db2) = extend_existing now b s db1;
             (r3, db3) = extend_existing now b (the (sub_at (us_ID s) db1)) db1
         in r1 = Inr () \<and> r2 = Inr () \<and> r3 = Inr () \<and>
            map_option us_ExpiresAt (sub_at (us_ID s) db2) = Some (us_ExpiresAt s + days n) \<and>
            map_option us_ExpiresAt (sub_at (us_ID s) db3) = Some (us_ExpiresAt s + days (m + n))"
proof -
  have pos: "0 < m" "0 < n" using assms(5,6) by (auto simp: normalizeAssignValidityDays_def MaxValidityDays_def Let_def split: if_splits)
  have x: "list_ex (\<lambda>t. us_ID t = us_ID s) (sd_subs db)" using assms(3) by (auto simp: list_ex_iff)
  have e: "new_expiry now k t = us_ExpiresAt t + days k"
    if "us_ExpiresAt t = us_ExpiresAt s + days j" and "0 \<le> j" and "j + k \<le> m + n" for j k t
    using that assms(4,7) by (auto simp: new_expiry_max AddDays_def)
  obtain db1 where 1: "extend_existing now a s db = (Inr (), db1)" "sub_up db1"
      "map_option us_ExpiresAt (sub_at (us_ID s) db1) = Some (us_ExpiresAt s + days m)"
      "list_ex (\<lambda>t. us_ID t = us_ID s) (sd_subs db1)"
    using extend_existing_rows [OF assms(2) x, of now a "us_ID s"] x e [of s 0 m] pos assms(5) by auto
  then obtain t where t: "sub_at (us_ID s) db1 = Some t" "us_ExpiresAt t = us_ExpiresAt s + days m" by auto
  then have i: "us_ID t = us_ID s" by (auto simp: sub_at_def dest: find_Some_mem)
  show ?thesis
    using extend_existing_rows [OF 1(2,4), of now b "us_ID s"] extend_existing_rows [OF 1(2), of t now b "us_ID s"]
      1(1,4) t i e [of s 0 n] e [of t m n] pos assms(6) by (auto simp: Let_def algebra_simps)
qed

lemma AssignOrExtendSubscription_lost_update_witness:
  "let (r1, db1) = extend_existing 0 demo_input demo_sub (sv_db demo_service);
       (r2, db2) = extend_existing 0 demo_input demo_sub db1;
       (r3, db3) = extend_existing 0 demo_input (the (sub_at 1 db1)) db1
   in map_option us_ExpiresAt (sub_at 1 db2) = Some (days 40) \<and> map_option us_ExpiresAt (sub_at 1 db3) = Some (days 50)"
  using AssignOrExtendSubscription_lost_update [OF demo_ok(1,2), of demo_sub 0 demo_input 10 demo_input 10]
  by (auto simp: demo_service_def demo_sub_def demo_input_def normalizeAssignValidityDays_def MaxValidityDays_def
      MaxExpiresAt_def Let_def split: prod.splits)

end
