(* ===== verification/GoText.thy ===== *)
theory GoText
  imports GoPrelude
begin

text \<open>
  Texts that stand for numbers and times, as the standard library of Go reads them, calendar dates, and
  the dynamic values of a decoded JSON document.
\<close>

section \<open>Numbers\<close>

text \<open>\<open>strconv.ParseInt\<close> to the base 10 and 64 bits, and \<open>Atoi\<close>: a sign and digits.\<close>

definition is_digit :: "char \<Rightarrow> bool" where
  "is_digit c \<longleftrightarrow> 48 \<le> (of_char c :: nat) \<and> (of_char c :: nat) \<le> 57"

definition digits_value :: "string \<Rightarrow> int" where
  "digits_value s = foldl (\<lambda>n c. n * 10 + (of_char c - 48)) 0 s"

definition ParseInt :: "string \<Rightarrow> int option" where
  "ParseInt s =
     (let neg = (s \<noteq> '''' \<and> hd s = CHR ''-'');
          ds = (if s \<noteq> '''' \<and> hd s \<in> {CHR ''-'', CHR ''+''} then tl s else s);
          n = (if neg then - digits_value ds else digits_value ds)
      in if ds = '''' \<or> \<not> list_all is_digit ds \<or> n < - (2 ^ 63) \<or> 2 ^ 63 \<le> n then None else Some n)"

text \<open>Go's conversion of a float64 to a 64-bit int; out of range it yields the least one.\<close>

definition int_of_float :: "float64 \<Rightarrow> int" where
  "int_of_float x =
     (case x of
        Fin r \<Rightarrow> let n = (if r < 0 then \<lceil>r\<rceil> else \<lfloor>r\<rfloor>) in if - (2 ^ 63) \<le> n \<and> n < 2 ^ 63 then n else - (2 ^ 63)
      | _ \<Rightarrow> - (2 ^ 63))"

text \<open>\<open>strconv.ParseFloat\<close>: decimal and hexadecimal literals with underscores between digits, infinities and
  NaN; a value that rounds beyond the largest float64 is an error.\<close>

definition digit_value :: "bool \<Rightarrow> char \<Rightarrow> int option" where
  "digit_value hex c =
     (let n = of_char (lower_char c) :: int
      in if is_digit c then Some (n - 48) else if hex \<and> 97 \<le> n \<and> n \<le> 102 then Some (n - 87) else None)"

text \<open>The mantissa: its value, the number of digits after the point, whether there was a digit, and the rest.\<close>

fun scan_mantissa :: "bool \<Rightarrow> bool \<Rightarrow> int \<Rightarrow> nat \<Rightarrow> bool \<Rightarrow> string \<Rightarrow> int \<times> nat \<times> bool \<times> string" where
  "scan_mantissa hex dot m k saw [] = (m, k, saw, [])"
| "scan_mantissa hex dot m k saw (c # cs) =
     (if c = CHR ''_'' then scan_mantissa hex dot m k saw cs
      else if c = CHR ''.'' then (if dot then (m, k, saw, c # cs) else scan_mantissa hex True m k saw cs)
      else case digit_value hex c of
             Some d \<Rightarrow> scan_mantissa hex dot (m * (if hex then 16 else 10) + d) (if dot then k + 1 else k) True cs
           | None \<Rightarrow> (m, k, saw, c # cs))"

fun scan_exponent :: "int \<Rightarrow> string \<Rightarrow> int \<times> string" where
  "scan_exponent e [] = (e, [])"
| "scan_exponent e (c # cs) =
     (if c = CHR ''_'' then scan_exponent e cs
      else if is_digit c then scan_exponent (if e < 10000 then e * 10 + (of_char c - 48) else e) cs
      else (e, c # cs))"

text \<open>\<open>None\<close> where there is no exponent that can be read.\<close>

definition read_exponent :: "string \<Rightarrow> (int \<times> string) option" where
  "read_exponent s =
     (let neg = (s \<noteq> '''' \<and> hd s = CHR ''-''); ds = (if s \<noteq> '''' \<and> hd s \<in> {CHR ''-'', CHR ''+''} then tl s else s)
      in if ds = '''' \<or> \<not> is_digit (hd ds) then None
         else let (e, rest) = scan_exponent 0 ds in Some (if neg then - e else e, rest))"

fun underscores_between :: "bool \<Rightarrow> char \<Rightarrow> string \<Rightarrow> bool" where
  "underscores_between hex saw [] \<longleftrightarrow> saw \<noteq> CHR ''_''"
| "underscores_between hex saw (c # cs) \<longleftrightarrow>
     (if digit_value hex c \<noteq> None then underscores_between hex (CHR ''0'') cs
      else if c = CHR ''_'' then saw = CHR ''0'' \<and> underscores_between hex (CHR ''_'') cs
      else saw \<noteq> CHR ''_'' \<and> underscores_between hex (CHR ''!'') cs)"

definition underscoreOK :: "string \<Rightarrow> bool" where
  "underscoreOK s0 \<longleftrightarrow>
     (let s = (if s0 \<noteq> '''' \<and> hd s0 \<in> {CHR ''-'', CHR ''+''} then tl s0 else s0);
          prefixed = (2 \<le> length s \<and> hd s = CHR ''0'' \<and> lower_char (s ! 1) \<in> {CHR ''b'', CHR ''o'', CHR ''x''})
      in if prefixed then underscores_between (lower_char (s ! 1) = CHR ''x'') (CHR ''0'') (drop 2 s)
         else underscores_between False (CHR ''^'') s)"

definition base_power :: "rat \<Rightarrow> int \<Rightarrow> rat" where
  "base_power b e = (if e < 0 then 1 / b ^ nat (- e) else b ^ nat e)"

definition float_limit :: rat where
  "float_limit = 2 ^ 1024 - 2 ^ 970"

definition read_number :: "string \<Rightarrow> rat option" where
  "read_number s =
     (let hex = (3 \<le> length s \<and> hd s = CHR ''0'' \<and> lower_char (s ! 1) = CHR ''x'');
          (m, k, saw, rest) = scan_mantissa hex False 0 0 False (if hex then drop 2 s else s);
          tail = (if rest \<noteq> '''' \<and> lower_char (hd rest) = (if hex then CHR ''p'' else CHR ''e'') then read_exponent (tl rest)
                  else if hex then None else Some (0, rest))
      in case tail of
           Some (e, []) \<Rightarrow> if saw then Some (of_int m * base_power (if hex then 16 else 10) (- int k) * base_power (if hex then 2 else 10) e)
                           else None
         | _ \<Rightarrow> None)"

definition ParseFloat :: "string \<Rightarrow> float64 option" where
  "ParseFloat s =
     (let neg = (s \<noteq> '''' \<and> hd s = CHR ''-''); ds = (if s \<noteq> '''' \<and> hd s \<in> {CHR ''-'', CHR ''+''} then tl s else s)
      in if ToLower ds \<in> {''inf'', ''infinity''} then Some (if neg then NInf else PInf)
         else if ToLower s = ''nan'' then Some NaN
         else case read_number ds of
                None \<Rightarrow> None
              | Some r \<Rightarrow> if CHR ''_'' \<in> set s \<and> \<not> underscoreOK s then None
                          else if float_limit \<le> r then None
                          else Some (Fin (if neg then - r else r)))"

section \<open>Dates\<close>

text \<open>Days are counted from 1 January 1970; the month is a number from 1.\<close>

definition leap_year :: "int \<Rightarrow> bool" where
  "leap_year y \<longleftrightarrow> y mod 4 = 0 \<and> (y mod 100 \<noteq> 0 \<or> y mod 400 = 0)"

definition days_in :: "int \<Rightarrow> int \<Rightarrow> int" where
  "days_in m y = (if m = 2 then (if leap_year y then 29 else 28) else if m \<in> {4, 6, 9, 11} then 30 else 31)"

definition days_before_year :: "int \<Rightarrow> int" where
  "days_before_year y = 365 * (y - 1) + (y - 1) div 4 - (y - 1) div 100 + (y - 1) div 400"

definition days_before_month :: "int \<Rightarrow> int \<Rightarrow> int" where
  "days_before_month m y = sum_list (map (\<lambda>k. days_in k y) [1..m - 1])"

definition day_number :: "int \<Rightarrow> int \<Rightarrow> int \<Rightarrow> int" where
  "day_number y m d = days_before_year y + days_before_month m y + d - 1 - 719162"

text \<open>The zero value of \<open>time.Time\<close>: 1 January of the year 1.\<close>

definition zero_time :: instant where
  "zero_time = days (- 719162)"

text \<open>A zone gives the offset of local time at each instant. \<open>time.Date\<close> of a local time finds the offset with the
  local time taken for an instant, and once more with that offset.\<close>

type_synonym zone = "instant \<Rightarrow> duration"

definition UTC :: zone where
  "UTC t = 0"

definition local_time :: "zone \<Rightarrow> instant \<Rightarrow> int" where
  "local_time tz t = t + tz t"

definition Date :: "zone \<Rightarrow> int \<Rightarrow> instant" where
  "Date tz w = (if tz w = 0 then w else w - tz (w - tz w))"

text \<open>\<open>AddDate(0, 0, n)\<close>: the same time of the clock, some days later.\<close>

definition AddDate :: "zone \<Rightarrow> instant \<Rightarrow> int \<Rightarrow> instant" where
  "AddDate tz t n = Date tz (local_time tz t + days n)"

definition weekday_at :: "zone \<Rightarrow> instant \<Rightarrow> int" where
  "weekday_at tz t = (local_time tz t div days 1 + 4) mod 7"

section \<open>RFC 3339\<close>

text \<open>\<open>time.Parse\<close> with the layouts RFC3339 and RFC3339Nano, which accept the same texts: the hour may have
  one digit, a fraction of any length may follow the seconds.\<close>

definition getnum :: "bool \<Rightarrow> string \<Rightarrow> (int \<times> string) option" where
  "getnum fixed s =
     (case s of
        a # b # rest \<Rightarrow> if \<not> is_digit a then None
                        else if is_digit b then Some (digits_value [a, b], rest)
                        else if fixed then None else Some (digits_value [a], b # rest)
      | [a] \<Rightarrow> if is_digit a \<and> \<not> fixed then Some (digits_value [a], []) else None
      | [] \<Rightarrow> None)"

definition skip_char :: "char \<Rightarrow> string \<Rightarrow> string option" where
  "skip_char c s = (case s of [] \<Rightarrow> None | d # rest \<Rightarrow> if d = c then Some rest else None)"

definition then_num :: "bool \<Rightarrow> char \<Rightarrow> int \<Rightarrow> int \<Rightarrow> string \<Rightarrow> (int \<times> string) option" where
  "then_num fixed c lo hi s =
     (case skip_char c s of
        None \<Rightarrow> None
      | Some s' \<Rightarrow> (case getnum fixed s' of
                     None \<Rightarrow> None
                   | Some (n, rest) \<Rightarrow> if lo \<le> n \<and> n \<le> hi then Some (n, rest) else None))"

definition read_fraction :: "string \<Rightarrow> int \<times> string" where
  "read_fraction s =
     (if 2 \<le> length s \<and> hd s \<in> {CHR ''.'', CHR '',''} \<and> is_digit (s ! 1)
      then let ds = take 9 (takeWhile is_digit (tl s))
           in (digits_value ds * 10 ^ (9 - length ds), dropWhile is_digit (tl s))
      else (0, s))"

text \<open>The offset in nanoseconds; the text must end after it.\<close>

definition read_offset :: "string \<Rightarrow> duration option" where
  "read_offset s =
     (if s = ''Z'' then Some 0
      else if length s = 6 \<and> s ! 3 = CHR '':'' \<and> s ! 0 \<in> {CHR ''+'', CHR ''-''}
      then (case (getnum True (take 2 (tl s)), getnum True (drop 4 s)) of
              (Some (h, _), Some (m, _)) \<Rightarrow>
                if h \<le> 24 \<and> m \<le> 60 then Some (if s ! 0 = CHR ''-'' then - (hours h + minutes m) else hours h + minutes m)
                else None
            | _ \<Rightarrow> None)
      else None)"

definition read_date :: "string \<Rightarrow> (int \<times> string) option" where
  "read_date s =
     (if length s < 4 \<or> \<not> list_all is_digit (take 4 s) then None
      else let y = digits_value (take 4 s)
           in case then_num True (CHR ''-'') 1 12 (drop 4 s) of
                None \<Rightarrow> None
              | Some (m, s1) \<Rightarrow>
                  (case then_num True (CHR ''-'') 1 (days_in m y) s1 of
                     None \<Rightarrow> None
                   | Some (d, s2) \<Rightarrow> Some (day_number y m d, s2)))"

definition read_clock :: "string \<Rightarrow> (duration \<times> string) option" where
  "read_clock s =
     (case then_num False (CHR ''T'') 0 23 s of
        None \<Rightarrow> None
      | Some (h, s1) \<Rightarrow>
          (case then_num True (CHR '':'') 0 59 s1 of
             None \<Rightarrow> None
           | Some (m, s2) \<Rightarrow>
               (case then_num True (CHR '':'') 0 59 s2 of
                  None \<Rightarrow> None
                | Some (sec, s3) \<Rightarrow> let (f, s4) = read_fraction s3 in Some (hours h + minutes m + seconds sec + f, s4))))"

definition ParseRFC3339 :: "string \<Rightarrow> instant option" where
  "ParseRFC3339 s =
     (case read_date s of
        None \<Rightarrow> None
      | Some (d, s1) \<Rightarrow>
          (case read_clock s1 of
             None \<Rightarrow> None
           | Some (c, s2) \<Rightarrow> map_option (\<lambda>off. days d + c - off) (read_offset s2)))"

section \<open>Texts of times\<close>

definition digit_char :: "int \<Rightarrow> char" where
  "digit_char n = char_of (nat (48 + n mod 10))"

definition two :: "int \<Rightarrow> string" where
  "two n = [digit_char (n div 10), digit_char n]"

definition four :: "int \<Rightarrow> string" where
  "four n = two (n div 100) @ two (n mod 100)"

definition six :: "int \<Rightarrow> string" where
  "six n = four (n div 100) @ two (n mod 100)"

text \<open>The date of a day: the year by an estimate that is off by at most one, the month by subtraction.\<close>

definition year_of :: "int \<Rightarrow> int" where
  "year_of n =
     (let y = n * 400 div 146097 + 1
      in if n < days_before_year y then y - 1 else if days_before_year (y + 1) \<le> n then y + 1 else y)"

function month_from :: "int \<Rightarrow> int \<Rightarrow> int \<Rightarrow> int \<times> int" where
  "month_from y m d = (if d < days_in m y \<or> 12 \<le> m then (m, d + 1) else month_from y (m + 1) (d - days_in m y))"
  by pat_completeness auto
termination by (relation "measure (\<lambda>(y, m, d). nat (12 - m))") auto

declare month_from.simps [simp del]

definition civil :: "int \<Rightarrow> int \<times> int \<times> int" where
  "civil d = (let n = d + 719162; y = year_of n; (m, k) = month_from y 1 (n - days_before_year y) in (y, m, k))"

definition date_text :: "instant \<Rightarrow> string" where
  "date_text t = (let (y, m, d) = civil (t div days 1) in four y @ CHR ''-'' # two m @ CHR ''-'' # two d)"

definition clock_text :: "instant \<Rightarrow> string" where
  "clock_text t = (let s = t mod days 1 div seconds 1 in two (s div 3600) @ CHR '':'' # two (s div 60 mod 60) @ CHR '':'' # two (s mod 60))"

text \<open>\<open>Format(time.RFC3339)\<close> of a time in UTC, and \<open>to_char\<close> with microseconds.\<close>

definition FormatRFC3339 :: "instant \<Rightarrow> string" where
  "FormatRFC3339 t = date_text t @ CHR ''T'' # clock_text t @ ''Z''"

definition format_micros :: "instant \<Rightarrow> string" where
  "format_micros t = date_text t @ CHR ''T'' # clock_text t @ CHR ''.'' # six (t mod seconds 1 div 1000) @ ''Z''"

lemma digit_char_nat: "(of_char (digit_char n) :: nat) = nat (48 + n mod 10)"
  and digit_char_digit [simp]: "is_digit (digit_char n)"
proof -
  obtain k where k: "n mod 10 = int k" "k < 10"
    by (metis nonneg_int_cases of_nat_less_iff of_nat_numeral pos_mod_bound pos_mod_sign zero_less_numeral)
  then have e: "nat (48 + n mod 10) = 48 + k" by simp
  show "(of_char (digit_char n) :: nat) = nat (48 + n mod 10)" unfolding digit_char_def e using k(2) by simp
  then show "is_digit (digit_char n)" using k(2) unfolding is_digit_def by (simp add: e)
qed

lemma digit_char_value [simp]: "(of_char (digit_char n) :: int) = 48 + n mod 10"
  using of_nat_of_char [where 'a = int, of "digit_char n"] by (simp add: digit_char_nat)

lemma two_value: "0 \<le> n \<Longrightarrow> n < 100 \<Longrightarrow> digits_value (two n) = n"
  by (simp add: digits_value_def two_def)

lemma getnum_two [simp]: "0 \<le> n \<Longrightarrow> n < 100 \<Longrightarrow> getnum fixed (two n @ s) = Some (n, s)"
  using two_value [of n] by (simp add: getnum_def two_def)

lemma then_num_two: "0 \<le> n \<Longrightarrow> n < 100 \<Longrightarrow> lo \<le> n \<Longrightarrow> n \<le> hi \<Longrightarrow> then_num fixed c lo hi (c # two n @ s) = Some (n, s)"
  by (simp add: then_num_def skip_char_def)

lemma four_value: "0 \<le> n \<Longrightarrow> n < 10000 \<Longrightarrow> digits_value (four n) = n"
  by (simp add: digits_value_def four_def two_def)

lemma six_value: "0 \<le> n \<Longrightarrow> n < 1000000 \<Longrightarrow> digits_value (six n) = n"
  by (simp add: digits_value_def six_def four_def two_def)

lemma fixed_digits [simp]: "list_all is_digit (two n)" "list_all is_digit (four n)" "list_all is_digit (six n)"
  "length (two n) = 2" "length (four n) = 4" "length (six n) = 6"
  by (simp_all add: two_def four_def six_def)

lemma div_bounds: "0 < k \<Longrightarrow> k * (x div k) \<le> x \<and> x \<le> k * (x div k) + (k - 1)" for x k :: int
  using mult_div_mod_eq [of k x] pos_mod_sign [of k x] pos_mod_bound [of k x] by linarith

lemma days_before_year_bounds:
  "146097 * (y - 1) - 699 \<le> 400 * days_before_year y \<and> 400 * days_before_year y \<le> 146097 * (y - 1) + 396"
proof -
  define a b c where "a = (y - 1) div 4" and "b = (y - 1) div 100" and "c = (y - 1) div 400"
  have "4 * a \<le> y - 1" "y - 1 \<le> 4 * a + 3" "100 * b \<le> y - 1" "y - 1 \<le> 100 * b + 99" "400 * c \<le> y - 1" "y - 1 \<le> 400 * c + 399"
    using div_bounds [of 4 "y - 1"] div_bounds [of 100 "y - 1"] div_bounds [of 400 "y - 1"] by (simp_all add: a_def b_def c_def)
  then show ?thesis by (simp add: days_before_year_def a_def [symmetric] b_def [symmetric] c_def [symmetric])
qed

lemma year_of: "days_before_year (year_of n) \<le> n \<and> n < days_before_year (year_of n + 1)"
proof -
  define y where "y = n * 400 div 146097 + 1"
  have y: "146097 * (y - 1) \<le> 400 * n \<and> 400 * n < 146097 * y"
    using div_bounds [of 146097 "n * 400"] by (simp add: y_def algebra_simps)
  have "400 * days_before_year (y - 1) \<le> 400 * n" "400 * n < 400 * days_before_year (y + 1 + 1)"
    using days_before_year_bounds [of "y - 1"] days_before_year_bounds [of "y + 1 + 1"] y by (simp_all add: algebra_simps)
  then have lo: "days_before_year (y - 1) \<le> n" and hi: "n < days_before_year (y + 1 + 1)" by simp_all
  show ?thesis
  proof (cases "n < days_before_year y")
    case True
    then show ?thesis using lo by (simp add: year_of_def y_def [symmetric])
  next
    case False
    then show ?thesis using hi by (auto simp: year_of_def y_def [symmetric] Let_def)
  qed
qed

lemma days_in_pos: "28 \<le> days_in m y" "days_in m y \<le> 31"
  by (simp_all add: days_in_def)

lemma days_before_month_Suc: "1 \<le> m \<Longrightarrow> days_before_month (m + 1) y = days_before_month m y + days_in m y"
proof -
  assume "1 \<le> m"
  then have "[1..m + 1 - 1] = [1..m - 1] @ [m]" using upto_rec2 [of 1 m] by simp
  then show ?thesis by (simp add: days_before_month_def)
qed

lemma div_pred: "0 < k \<Longrightarrow> y div k - (y - 1) div k = (if y mod k = 0 then 1 else 0 :: int)"
proof -
  assume k: "0 < k"
  have y: "y = k * (y div k) + y mod k" "0 \<le> y mod k" "y mod k < k" using k by simp_all
  show ?thesis
  proof (cases "y mod k = 0")
    case True
    then have "y - 1 = k * (y div k - 1) + (k - 1)" using y(1) by (metis add.right_neutral diff_add_cancel add_diff_eq mult.right_neutral right_diff_distrib)
    then have "(y - 1) div k = y div k - 1" using k by (intro int_div_pos_eq [of _ _ _ "k - 1"]) simp_all
    then show ?thesis using True by simp
  next
    case False
    then have "y - 1 = k * (y div k) + (y mod k - 1)" using y(1) by simp
    then have "(y - 1) div k = y div k" using y False by (intro int_div_pos_eq [of _ _ _ "y mod k - 1"]) simp_all
    then show ?thesis using False by simp
  qed
qed

lemma year_length: "days_before_year (y + 1) = days_before_year y + days_before_month 13 y"
proof -
  have m: "days_before_month 13 y = 365 + (if leap_year y then 1 else 0)"
    by (simp add: days_before_month_def days_in_def upto.simps)
  define p q r where "p \<longleftrightarrow> y mod 4 = 0" and "q \<longleftrightarrow> y mod 100 = 0" and "r \<longleftrightarrow> y mod 400 = 0"
  have "400 dvd y \<longrightarrow> 100 dvd y" "100 dvd y \<longrightarrow> 4 dvd y" by (auto intro: dvd_trans)
  then have "(r \<longrightarrow> q) \<and> (q \<longrightarrow> p)" unfolding p_def q_def r_def dvd_eq_mod_eq_0 by blast
  moreover have "leap_year y \<longleftrightarrow> p \<and> (\<not> q \<or> r)" by (simp only: leap_year_def p_def q_def r_def simp_thms)
  ultimately have "(if p then 1 else 0) - (if q then 1 else 0) + (if r then 1 else 0) = (if leap_year y then 1 else 0 :: int)"
    by (cases p; cases q; cases r; simp only: simp_thms if_True if_False)
  moreover have "(365 * y + a - b + c) - (365 * (y - 1) + a' - b' + c') = 365 + ((a - a') - (b - b') + (c - c'))" for a b c a' b' c' :: int
    by (simp add: algebra_simps)
  then have "days_before_year (y + 1) - days_before_year y =
      365 + ((y div 4 - (y - 1) div 4) - (y div 100 - (y - 1) div 100) + (y div 400 - (y - 1) div 400))"
    unfolding days_before_year_def add_diff_cancel_right' by this
  ultimately have "days_before_year (y + 1) - days_before_year y = 365 + (if leap_year y then 1 else 0)"
    by (simp only: div_pred [of _ y] zero_less_numeral p_def q_def r_def)
  then show ?thesis using m by simp
qed

lemma month_from:
  assumes "1 \<le> m" "m \<le> 12" "0 \<le> d" "days_before_month m y + d < days_before_month 13 y" "month_from y m d = (m', k)"
  shows "1 \<le> m' \<and> m' \<le> 12 \<and> 1 \<le> k \<and> k \<le> days_in m' y \<and> days_before_month m' y + k = days_before_month m y + d + 1"
  using assms
proof (induction y m d arbitrary: m' k rule: month_from.induct)
  case (1 y m d)
  have s: "days_before_month (m + 1) y = days_before_month m y + days_in m y" by (rule days_before_month_Suc [OF 1(2)])
  show ?case
  proof (cases "d < days_in m y \<or> 12 \<le> m")
    case True
    then have "m' = m" "k = d + 1" using 1(6) by (simp_all add: month_from.simps [of y m])
    moreover have "d < days_in m y" using True 1(3,5) s by auto
    ultimately show ?thesis using 1 by simp
  next
    case False
    then have "month_from y (m + 1) (d - days_in m y) = (m', k)" using 1(6) by (simp add: month_from.simps [of y m])
    then show ?thesis using 1(1) [OF False _ _ _ _] 1(2,3,5) s False by simp
  qed
qed

lemma civil:
  assumes "civil n = (y, m, d)"
  shows "day_number y m d = n \<and> 1 \<le> m \<and> m \<le> 12 \<and> 1 \<le> d \<and> d \<le> days_in m y"
    and "days_before_year y \<le> n + 719162 \<and> n + 719162 < days_before_year (y + 1)"
proof -
  have y: "y = year_of (n + 719162)" and m: "month_from y 1 (n + 719162 - days_before_year y) = (m, d)"
    using assms by (auto simp: civil_def Let_def split: prod.splits)
  show r: "days_before_year y \<le> n + 719162 \<and> n + 719162 < days_before_year (y + 1)" unfolding y by (rule year_of)
  have "days_before_month 1 y = 0" by (simp add: days_before_month_def)
  then show "day_number y m d = n \<and> 1 \<le> m \<and> m \<le> 12 \<and> 1 \<le> d \<and> d \<le> days_in m y"
    using month_from [OF _ _ _ _ m] r year_length [of y] by (simp add: day_number_def)
qed

text \<open>The years that four digits can show.\<close>

definition printable :: "instant \<Rightarrow> bool" where
  "printable t \<longleftrightarrow> 0 \<le> fst (civil (t div days 1)) \<and> fst (civil (t div days 1)) < 10000"

lemma read_date_text:
  assumes "printable t"
  shows "read_date (date_text t @ s) = Some (t div days 1, s)"
proof -
  obtain y m d where c: "civil (t div days 1) = (y, m, d)" by (rule prod_cases3)
  then have y: "0 \<le> y" "y < 10000" using assms by (simp_all add: printable_def)
  note r = civil(1) [OF c] days_in_pos [of m y]
  have d: "date_text t @ s = four y @ CHR ''-'' # two m @ CHR ''-'' # two d @ s" using c by (simp add: date_text_def)
  show ?thesis unfolding d using r y by (simp add: read_date_def four_value then_num_two)
qed

lemma read_clock_text:
  assumes "read_fraction s = (f, rest)"
  shows "read_clock (CHR ''T'' # clock_text t @ s) = Some (t mod days 1 - t mod seconds 1 + f, rest)"
proof -
  define x where "x = t mod days 1 div seconds 1"
  have x: "0 \<le> x" "x < 86400" unfolding x_def by simp_all
  define h m n where "h = x div 3600" and "m = x div 60 mod 60" and "n = x mod 60"
  have c: "clock_text t @ s = two h @ CHR '':'' # two m @ CHR '':'' # two n @ s"
    by (simp add: clock_text_def x_def h_def m_def n_def Let_def)
  have r: "0 \<le> h" "h \<le> 23" "0 \<le> m" "m \<le> 59" "0 \<le> n" "n \<le> 59" using x by (simp_all add: h_def m_def n_def)
  have "m = x div 60 - 60 * h" "60 * (x div 60) + n = x"
    using minus_mult_div_eq_mod [of "x div 60" 60] zdiv_zmult2_eq [of 60 x 60] by (simp_all add: h_def m_def n_def)
  then have v: "hours h + minutes m + seconds n = seconds x" by linarith
  have "t mod days 1 mod seconds 1 = t mod seconds 1" by (rule mod_mod_cancel) simp
  then have t: "seconds x = t mod days 1 - t mod seconds 1"
    using minus_mod_eq_mult_div [of "t mod days 1" "seconds 1"] by (simp add: x_def)
  have "read_clock (CHR ''T'' # clock_text t @ s) = Some (hours h + minutes m + seconds n + f, rest)"
    unfolding c using r assms by (simp add: read_clock_def then_num_two)
  then show ?thesis unfolding v t .
qed

lemma days_split: "days (t div days 1) + t mod days 1 = t"
  using mult_div_mod_eq [of "days 1" t] by (simp add: mult.commute)

lemma read_offset_Z [simp]: "read_offset ''Z'' = Some 0"
  by (simp add: read_offset_def)

lemma Parse_FormatRFC3339: "printable t \<Longrightarrow> ParseRFC3339 (FormatRFC3339 t) = Some (t - t mod seconds 1)"
  using read_date_text [of t "CHR ''T'' # clock_text t @ ''Z''"] read_clock_text [of "''Z''" 0 "''Z''" t] days_split [of t]
  by (simp add: ParseRFC3339_def FormatRFC3339_def read_fraction_def)

lemma takeWhile_six [simp]: "takeWhile is_digit (six n @ ''Z'') = six n" "dropWhile is_digit (six n @ ''Z'') = ''Z''"
  by (simp_all add: six_def four_def two_def is_digit_def [of "CHR ''Z''"])

lemma read_fraction_six: "0 \<le> n \<Longrightarrow> n < 1000000 \<Longrightarrow> read_fraction (CHR ''.'' # six n @ ''Z'') = (1000 * n, ''Z'')"
  using six_value [of n] by (simp add: read_fraction_def nth_append) (simp add: six_def four_def two_def)

lemma Parse_format_micros: "printable t \<Longrightarrow> ParseRFC3339 (format_micros t) = Some (t - t mod 1000)"
proof -
  define n where "n = t mod seconds 1 div 1000"
  have n: "0 \<le> n" "n < 1000000" unfolding n_def by simp_all
  have "t mod seconds 1 mod 1000 = t mod 1000" by (rule mod_mod_cancel) simp
  then have v: "1000 * n = t mod seconds 1 - t mod 1000"
    using minus_mod_eq_mult_div [of "t mod seconds 1" 1000] by (simp add: n_def)
  have e: "format_micros t = date_text t @ CHR ''T'' # clock_text t @ CHR ''.'' # six n @ ''Z''" by (simp add: format_micros_def n_def)
  assume "printable t"
  then show ?thesis
    unfolding e using read_date_text [of t "CHR ''T'' # clock_text t @ CHR ''.'' # six n @ ''Z''"] read_clock_text [OF read_fraction_six [OF n], of t]
      days_split [of t] v
    by (simp add: ParseRFC3339_def)
qed

section \<open>Dynamic values\<close>

text \<open>The values behind \<open>any\<close> in documents that were decoded from JSON or built by the code. A map is the list of its
  entries in the order of some iteration.\<close>

datatype any = ANil | ABool bool | AString string | ANumber string | AFloat float64 | AInt int | AList "any list"
  | AMap "(string \<times> any) list" | AStrings "string list"

type_synonym document = "(string \<times> any) list"

definition get_string :: "any option \<Rightarrow> string option" where
  "get_string v = (case v of Some (AString s) \<Rightarrow> Some s | _ \<Rightarrow> None)"

definition get_bool :: "any option \<Rightarrow> bool option" where
  "get_bool v = (case v of Some (ABool b) \<Rightarrow> Some b | _ \<Rightarrow> None)"

text \<open>The common pattern of the code: the value if it is a number or a text that stands for one.\<close>

definition any_int :: "any option \<Rightarrow> int option" where
  "any_int v =
     (case v of
        Some (AInt n) \<Rightarrow> Some n
      | Some (AFloat x) \<Rightarrow> Some (int_of_float x)
      | Some (ANumber s) \<Rightarrow> ParseInt s
      | Some (AString s) \<Rightarrow> ParseInt (TrimSpace s)
      | _ \<Rightarrow> None)"

definition any_float :: "any option \<Rightarrow> float64 option" where
  "any_float v =
     (case v of
        Some (AFloat x) \<Rightarrow> Some x
      | Some (AInt n) \<Rightarrow> Some (Fin (of_int n))
      | Some (ANumber s) \<Rightarrow> ParseFloat s
      | Some (AString s) \<Rightarrow> ParseFloat (TrimSpace s)
      | _ \<Rightarrow> None)"

end
