(* ===== verification/Redeem.thy ===== *)
theory Redeem
  imports Subscription GoText
begin

text \<open>
  Redeem codes (\<open>backend/internal/service/redeem_code.go\<close> and \<open>redeem_service.go\<close>, over
  \<open>repository/redeem_code_repo.go\<close>, \<open>user_repo.go\<close> and \<open>redeem_cache.go\<close>): a code is marked as used and
  its value is granted in one database transaction, behind a rate limit and a lock in Redis.

  The state holds the subscription service (with the schedule of faults that every storage call
  consumes), the users, the codes, and the Redis cache if there is one. The lifetimes of the Redis
  keys are left out: a counter or a lock is there or not. A transaction restores users, codes and
  subscriptions when it is rolled back, except for the rows that a transaction inside it has
  committed: the subscription service extends a subscription in a transaction of its own, on its
  own client, whatever transaction its context carries.
\<close>

section \<open>Data\<close>

record User =
  usr_Status :: string
  usr_Balance :: float64
  usr_TotalRecharged :: float64
  usr_Concurrency :: int

record RedeemCode =
  rc_ID :: int
  rc_Code :: string
  rc_Type :: string
  rc_Value :: float64
  rc_Status :: string
  rc_UsedBy :: "int option"
  rc_UsedAt :: "instant option"
  rc_GroupID :: "int option"
  rc_ValidityDays :: int

definition StatusUnused :: string where "StatusUnused = ''unused''"

definition StatusUsed :: string where "StatusUsed = ''used''"

definition RedeemTypeBalance :: string where "RedeemTypeBalance = ''balance''"

definition RedeemTypeConcurrency :: string where "RedeemTypeConcurrency = ''concurrency''"

definition RedeemTypeSubscription :: string where "RedeemTypeSubscription = ''subscription''"

definition RedeemTypeInvitation :: string where "RedeemTypeInvitation = ''invitation''"

definition IsUsed :: "RedeemCode \<Rightarrow> bool" where
  "IsUsed c \<longleftrightarrow> rc_Status c = StatusUsed"

definition CanUse :: "RedeemCode \<Rightarrow> bool" where
  "CanUse c \<longleftrightarrow> rc_Status c = StatusUnused"

datatype redeem_error =
    RedeemStorageError | RedeemRateLimited | RedeemCodeLocked | RedeemCodeNotFound | RedeemCodeUsed | RedeemCodeInvalid
  | RedeemCodeExists | UserNotFound | UnsupportedRedeemType | CodeRequired | ValueRequired | DeleteUsedCode
  | RedeemSubscription sub_error

definition redeemMaxErrorsPerHour :: int where
  "redeemMaxErrorsPerHour = 20"

text \<open>The Redis counters and locks.\<close>

record redeem_cache =
  rk_attempts :: "int \<Rightarrow> int"
  rk_locks :: "string \<Rightarrow> bool"

record shop =
  sh_svc :: sub_service
  sh_users :: "int \<Rightarrow> User option"
  sh_codes :: "RedeemCode list"
  sh_next :: int
  sh_cache :: "redeem_cache option"

type_synonym 'a redeem_result = "(redeem_error + 'a) \<times> shop"

definition sh_db :: "shop \<Rightarrow> subdb" where
  "sh_db sh = sv_db (sh_svc sh)"

definition shop_call :: "shop \<Rightarrow> bool \<times> shop" where
  "shop_call sh = (let (fail, db) = sub_call (sh_db sh) in (fail, sh\<lparr>sh_svc := (sh_svc sh)\<lparr>sv_db := db\<rparr>\<rparr>))"

text \<open>A call of the subscription service or its repository.\<close>

definition on_svc :: "(sub_service \<Rightarrow> (sub_error + 'a) \<times> sub_service) \<Rightarrow> shop \<Rightarrow> 'a redeem_result" where
  "on_svc call sh =
     (case call (sh_svc sh) of
        (Inl e, svc) \<Rightarrow> (Inl (RedeemSubscription e), sh\<lparr>sh_svc := svc\<rparr>)
      | (Inr a, svc) \<Rightarrow> (Inr a, sh\<lparr>sh_svc := svc\<rparr>))"

section \<open>The repositories\<close>

definition code_find :: "(RedeemCode \<Rightarrow> bool) \<Rightarrow> shop \<Rightarrow> RedeemCode redeem_result" where
  "code_find P sh0 =
     (let (fail, sh) = shop_call sh0
      in if fail then (Inl RedeemStorageError, sh)
         else case find P (sh_codes sh) of None \<Rightarrow> (Inl RedeemCodeNotFound, sh) | Some c \<Rightarrow> (Inr c, sh))"

definition code_GetByCode :: "string \<Rightarrow> shop \<Rightarrow> RedeemCode redeem_result" where
  "code_GetByCode code = code_find (\<lambda>c. rc_Code c = code)"

definition code_GetByID :: "int \<Rightarrow> shop \<Rightarrow> RedeemCode redeem_result" where
  "code_GetByID i = code_find (\<lambda>c. rc_ID c = i)"

definition code_Create :: "RedeemCode \<Rightarrow> shop \<Rightarrow> unit redeem_result" where
  "code_Create c sh0 =
     (let (fail, sh) = shop_call sh0
      in if fail then (Inl RedeemStorageError, sh)
         else if list_ex (\<lambda>d. rc_Code d = rc_Code c) (sh_codes sh) then (Inl RedeemCodeExists, sh)
         else (Inr (), sh\<lparr>sh_codes := sh_codes sh @ [c\<lparr>rc_ID := sh_next sh\<rparr>], sh_next := sh_next sh + 1\<rparr>))"

definition code_Delete :: "int \<Rightarrow> shop \<Rightarrow> unit redeem_result" where
  "code_Delete i sh0 =
     (let (fail, sh) = shop_call sh0
      in if fail then (Inl RedeemStorageError, sh) else (Inr (), sh\<lparr>sh_codes := filter (\<lambda>c. rc_ID c \<noteq> i) (sh_codes sh)\<rparr>))"

text \<open>The conditional update that marks a code as used.\<close>

definition use_code :: "instant \<Rightarrow> int \<Rightarrow> RedeemCode \<Rightarrow> RedeemCode" where
  "use_code now uid c = c\<lparr>rc_Status := StatusUsed, rc_UsedBy := Some uid, rc_UsedAt := Some now\<rparr>"

definition code_Use :: "instant \<Rightarrow> int \<Rightarrow> int \<Rightarrow> shop \<Rightarrow> unit redeem_result" where
  "code_Use now i uid sh0 =
     (let (fail, sh) = shop_call sh0; hit = (\<lambda>c. rc_ID c = i \<and> rc_Status c = StatusUnused)
      in if fail then (Inl RedeemStorageError, sh)
         else if list_ex hit (sh_codes sh)
         then (Inr (), sh\<lparr>sh_codes := map (\<lambda>c. if hit c then use_code now uid c else c) (sh_codes sh)\<rparr>)
         else (Inl RedeemCodeUsed, sh))"

definition user_GetByID :: "int \<Rightarrow> shop \<Rightarrow> User redeem_result" where
  "user_GetByID uid sh0 =
     (let (fail, sh) = shop_call sh0
      in if fail then (Inl RedeemStorageError, sh)
         else case sh_users sh uid of None \<Rightarrow> (Inl UserNotFound, sh) | Some u \<Rightarrow> (Inr u, sh))"

definition user_update :: "int \<Rightarrow> (User \<Rightarrow> User) \<Rightarrow> shop \<Rightarrow> unit redeem_result" where
  "user_update uid f sh0 =
     (let (fail, sh) = shop_call sh0
      in if fail then (Inl RedeemStorageError, sh)
         else case sh_users sh uid of
                None \<Rightarrow> (Inl UserNotFound, sh)
              | Some u \<Rightarrow> (Inr (), sh\<lparr>sh_users := (sh_users sh)(uid \<mapsto> f u)\<rparr>))"

definition add_balance :: "float64 \<Rightarrow> User \<Rightarrow> User" where
  "add_balance amount u =
     (if 0 < amount then u\<lparr>usr_Balance := usr_Balance u + amount, usr_TotalRecharged := usr_TotalRecharged u + amount\<rparr>
      else u\<lparr>usr_Balance := usr_Balance u + amount\<rparr>)"

definition user_UpdateBalance :: "int \<Rightarrow> float64 \<Rightarrow> shop \<Rightarrow> unit redeem_result" where
  "user_UpdateBalance uid amount = user_update uid (add_balance amount)"

definition user_DeductBalance :: "int \<Rightarrow> float64 \<Rightarrow> shop \<Rightarrow> unit redeem_result" where
  "user_DeductBalance uid amount = user_update uid (\<lambda>u. u\<lparr>usr_Balance := usr_Balance u + - amount\<rparr>)"

definition user_UpdateConcurrency :: "int \<Rightarrow> int \<Rightarrow> shop \<Rightarrow> unit redeem_result" where
  "user_UpdateConcurrency uid n = user_update uid (\<lambda>u. u\<lparr>usr_Concurrency := usr_Concurrency u + n\<rparr>)"

section \<open>The service\<close>

definition CreateCode :: "RedeemCode \<Rightarrow> shop \<Rightarrow> unit redeem_result" where
  "CreateCode c0 sh =
     (let c1 = c0\<lparr>rc_Code := TrimSpace (rc_Code c0)\<rparr>;
          c2 = (if rc_Type c1 = '''' then c1\<lparr>rc_Type := RedeemTypeBalance\<rparr> else c1);
          c3 = (if rc_Status c2 = '''' then c2\<lparr>rc_Status := StatusUnused\<rparr> else c2)
      in if rc_Code c1 = '''' then (Inl CodeRequired, sh)
         else if rc_Type c2 \<noteq> RedeemTypeInvitation \<and> rc_Value c2 = 0 then (Inl ValueRequired, sh)
         else code_Create c3 sh)"

definition checkRedeemRateLimit :: "int \<Rightarrow> shop \<Rightarrow> bool \<times> shop" where
  "checkRedeemRateLimit uid sh0 =
     (case sh_cache sh0 of
        None \<Rightarrow> (True, sh0)
      | Some k \<Rightarrow>
          let (fail, sh) = shop_call sh0
          in if fail then (True, sh) else (\<not> redeemMaxErrorsPerHour \<le> rk_attempts k uid, sh))"

definition incrementRedeemErrorCount :: "int \<Rightarrow> shop \<Rightarrow> shop" where
  "incrementRedeemErrorCount uid sh0 =
     (case sh_cache sh0 of
        None \<Rightarrow> sh0
      | Some k \<Rightarrow>
          let (fail, sh) = shop_call sh0
          in if fail then sh else sh\<lparr>sh_cache := Some (k\<lparr>rk_attempts := (rk_attempts k)(uid := rk_attempts k uid + 1)\<rparr>)\<rparr>)"

definition acquireRedeemLock :: "string \<Rightarrow> shop \<Rightarrow> bool \<times> shop" where
  "acquireRedeemLock code sh0 =
     (case sh_cache sh0 of
        None \<Rightarrow> (True, sh0)
      | Some k \<Rightarrow>
          let (fail, sh) = shop_call sh0
          in if fail then (True, sh)
             else if rk_locks k code then (False, sh)
             else (True, sh\<lparr>sh_cache := Some (k\<lparr>rk_locks := (rk_locks k)(code := True)\<rparr>)\<rparr>))"

definition releaseRedeemLock :: "string \<Rightarrow> shop \<Rightarrow> shop" where
  "releaseRedeemLock code sh0 =
     (case sh_cache sh0 of
        None \<Rightarrow> sh0
      | Some k \<Rightarrow>
          let (fail, sh) = shop_call sh0
          in if fail then sh else sh\<lparr>sh_cache := Some (k\<lparr>rk_locks := (rk_locks k)(code := False)\<rparr>)\<rparr>)"

text \<open>The notes, in Chinese: redeemed by a code; refund of some days by a code.\<close>

definition redeem_notes :: "string \<Rightarrow> string" where
  "redeem_notes code =
     utf8 [233, 128, 154, 232, 191, 135, 229, 133, 145, 230, 141, 162, 231, 160, 129, 32] @ code
     @ utf8 [32, 229, 133, 145, 230, 141, 162]"

definition reduce_notes :: "string \<Rightarrow> int \<Rightarrow> string" where
  "reduce_notes code n =
     utf8 [233, 128, 154, 232, 191, 135, 229, 133, 145, 230, 141, 162, 231, 160, 129, 32] @ code
     @ utf8 [32, 233, 128, 128, 230, 172, 190, 230, 137, 163, 229, 135, 143, 32] @ itoa n @ utf8 [32, 229, 164, 169]"

text \<open>Shortening a subscription, on the caller's transaction.\<close>

definition reduceOrCancelSubscription ::
    "instant \<Rightarrow> int \<Rightarrow> int \<Rightarrow> int \<Rightarrow> string \<Rightarrow> sub_service \<Rightarrow> (sub_error + unit) \<times> sub_service" where
  "reduceOrCancelSubscription now uid gid reduceDays code svc0 =
     (case on_db (repo_GetByUserIDAndGroupID uid gid) svc0 of
        (Inl _, svc) \<Rightarrow> (Inl SubscriptionNotFound, svc)
      | (Inr s, svc) \<Rightarrow>
          let remaining = max 0 (trunc_div (us_ExpiresAt s - now) (days 1))
          in and_then
              (if remaining \<le> reduceDays
               then and_then (on_db (repo_UpdateStatus (us_ID s) SubscriptionStatusExpired) svc) (\<lambda>_.
                 on_db (repo_ExtendExpiry (us_ID s) now))
               else on_db (repo_ExtendExpiry (us_ID s) (AddDays (us_ExpiresAt s) (- reduceDays))) svc) (\<lambda>_ svc.
             and_then (on_db (repo_UpdateNotes (us_ID s)
                ((if us_Notes s \<noteq> '''' then us_Notes s @ newline else us_Notes s) @ reduce_notes code reduceDays)) svc) (\<lambda>_ svc.
             (Inr (), InvalidateSubCache uid gid svc))))"

text \<open>What the code grants, inside the transaction.\<close>

definition redeem_effect :: "instant \<Rightarrow> int \<Rightarrow> RedeemCode \<Rightarrow> User \<Rightarrow> shop \<Rightarrow> unit redeem_result" where
  "redeem_effect now uid c user sh =
     (if rc_Type c = RedeemTypeBalance
      then user_UpdateBalance uid
             (if rc_Value c < 0 \<and> usr_Balance user + rc_Value c < 0 then - usr_Balance user else rc_Value c) sh
      else if rc_Type c = RedeemTypeConcurrency
      then user_UpdateConcurrency uid
             (let delta = int_of_float (rc_Value c)
              in if delta < 0 \<and> usr_Concurrency user + delta < 0 then - usr_Concurrency user else delta) sh
      else if rc_Type c = RedeemTypeSubscription
      then (let gid = (case rc_GroupID c of None \<Rightarrow> 0 | Some g \<Rightarrow> g)
        in if rc_ValidityDays c < 0
           then on_svc (reduceOrCancelSubscription now uid gid (- rc_ValidityDays c) (rc_Code c)) sh
           else and_then (on_svc (AssignOrExtendSubscription now
               \<lparr>in_UserID = uid, in_GroupID = gid,
                in_ValidityDays = (if rc_ValidityDays c = 0 then 30 else rc_ValidityDays c),
                in_AssignedBy = 0, in_Notes = redeem_notes (rc_Code c)\<rparr>) sh) (\<lambda>_ sh. (Inr (), sh)))
      else (Inl UnsupportedRedeemType, sh))"

text \<open>The subscriptions that stay when the surrounding transaction is rolled back: an existing
  subscription is extended in a transaction of its own.\<close>

definition durable_rows :: "int \<Rightarrow> RedeemCode \<Rightarrow> shop \<Rightarrow> shop \<Rightarrow> UserSubscription list" where
  "durable_rows uid c sh sh' =
     (if rc_Type c = RedeemTypeSubscription \<and> 0 \<le> rc_ValidityDays c \<and>
         list_ex (of_pair uid (case rc_GroupID c of None \<Rightarrow> 0 | Some g \<Rightarrow> g)) (sd_subs (sh_db sh))
      then sd_subs (sh_db sh') else sd_subs (sh_db sh))"

definition roll_back :: "UserSubscription list \<Rightarrow> shop \<Rightarrow> shop \<Rightarrow> shop" where
  "roll_back rows sh sh' =
     sh\<lparr>sh_svc := (sh_svc sh')\<lparr>sv_db := (sh_db sh')\<lparr>sd_subs := rows\<rparr>\<rparr>, sh_cache := sh_cache sh'\<rparr>"

definition redeem_tx :: "(nat \<Rightarrow> instant) \<Rightarrow> int \<Rightarrow> RedeemCode \<Rightarrow> User \<Rightarrow> shop \<Rightarrow> unit redeem_result" where
  "redeem_tx clk uid c user =
     run_tx shop_call RedeemStorageError (\<lambda>sh sh'. roll_back (durable_rows uid c sh sh') sh sh')
       (\<lambda>sh. and_then (code_Use (clk 0) (rc_ID c) uid sh) (\<lambda>_. redeem_effect (clk 1) uid c user))"

definition redeem_locked :: "(nat \<Rightarrow> instant) \<Rightarrow> int \<Rightarrow> string \<Rightarrow> shop \<Rightarrow> RedeemCode redeem_result" where
  "redeem_locked clk uid code sh0 =
     (case code_GetByCode code sh0 of
        (Inl e, sh) \<Rightarrow> if e = RedeemCodeNotFound then (Inl e, incrementRedeemErrorCount uid sh) else (Inl e, sh)
      | (Inr c, sh) \<Rightarrow>
          if \<not> CanUse c then (Inl RedeemCodeUsed, incrementRedeemErrorCount uid sh)
          else if rc_Type c = RedeemTypeSubscription \<and> rc_GroupID c = None then (Inl RedeemCodeInvalid, sh)
          else and_then (user_GetByID uid sh) (\<lambda>user sh.
               and_then (redeem_tx clk uid c user sh) (\<lambda>_ sh.
               code_GetByID (rc_ID c) sh)))"

definition Redeem :: "(nat \<Rightarrow> instant) \<Rightarrow> int \<Rightarrow> string \<Rightarrow> shop \<Rightarrow> RedeemCode redeem_result" where
  "Redeem clk uid code sh0 =
     (let (ok, sh1) = checkRedeemRateLimit uid sh0
      in if \<not> ok then (Inl RedeemRateLimited, sh1)
         else let (got, sh2) = acquireRedeemLock code sh1
              in if \<not> got then (Inl RedeemCodeLocked, sh2)
                 else let (r, sh3) = redeem_locked clk uid code sh2 in (r, releaseRedeemLock code sh3))"

definition redeem_Delete :: "int \<Rightarrow> shop \<Rightarrow> unit redeem_result" where
  "redeem_Delete i sh =
     and_then (code_GetByID i sh) (\<lambda>c sh. if IsUsed c then (Inl DeleteUsedCode, sh) else code_Delete i sh)"

section \<open>What calls leave alone\<close>

text \<open>The shop apart from faults and caches.\<close>

definition same_shop :: "shop \<Rightarrow> shop \<Rightarrow> bool" where
  "same_shop sh sh' \<longleftrightarrow> sh_users sh' = sh_users sh \<and> sh_codes sh' = sh_codes sh \<and> sh_next sh' = sh_next sh \<and>
     same_rows (sh_db sh) (sh_db sh')"

lemma same_shop_refl [simp]: "same_shop sh sh"
  by (simp add: same_shop_def)

lemma same_shop_trans [trans]: "same_shop a b \<Longrightarrow> same_shop b c \<Longrightarrow> same_shop a c"
  by (auto simp: same_shop_def intro: same_rows_trans)

lemma same_shop_cache [simp]: "same_shop sh (sh'\<lparr>sh_cache := k\<rparr>) = same_shop sh sh'"
  by (simp add: same_shop_def sh_db_def)

lemma shop_call_same: "shop_call sh = (b, sh') \<Longrightarrow> same_shop sh sh'"
  by (cases "sub_call (sh_db sh)") (auto simp: shop_call_def same_shop_def sh_db_def dest: sub_call_same)

lemma shop_call_snd: "same_shop sh (snd (shop_call sh))"
  by (rule shop_call_same [of _ "fst (shop_call sh)"]) simp

lemma code_find_same: "code_find P sh = (r, sh') \<Longrightarrow> same_shop sh sh' \<and> (\<forall>c. r = Inr c \<longrightarrow> find P (sh_codes sh) = Some c)"
  using shop_call_snd [of sh]
  by (cases "shop_call sh") (auto simp: code_find_def same_shop_def split: if_splits option.splits)

lemma user_GetByID_same: "user_GetByID uid sh = (r, sh') \<Longrightarrow> same_shop sh sh' \<and> (\<forall>u. r = Inr u \<longrightarrow> sh_users sh uid = Some u)"
  using shop_call_snd [of sh]
  by (cases "shop_call sh") (auto simp: user_GetByID_def same_shop_def split: if_splits option.splits)

lemma checkRedeemRateLimit_same: "checkRedeemRateLimit uid sh = (b, sh') \<Longrightarrow> same_shop sh sh'"
  using shop_call_snd [of sh]
  by (cases "shop_call sh") (auto simp: checkRedeemRateLimit_def split: if_splits option.splits)

lemma acquireRedeemLock_same: "acquireRedeemLock code sh = (b, sh') \<Longrightarrow> same_shop sh sh'"
  using shop_call_snd [of sh]
  by (cases "shop_call sh") (auto simp: acquireRedeemLock_def split: if_splits option.splits)

lemma releaseRedeemLock_same: "same_shop sh (releaseRedeemLock code sh)"
  using shop_call_snd [of sh]
  by (cases "shop_call sh") (auto simp: releaseRedeemLock_def split: option.splits)

lemma incrementRedeemErrorCount_same: "same_shop sh (incrementRedeemErrorCount uid sh)"
  using shop_call_snd [of sh]
  by (cases "shop_call sh") (auto simp: incrementRedeemErrorCount_def split: option.splits)

lemma roll_back_fields [simp]:
  "sh_users (roll_back rows sh sh') = sh_users sh" "sh_codes (roll_back rows sh sh') = sh_codes sh"
  "sh_next (roll_back rows sh sh') = sh_next sh" "sd_subs (sh_db (roll_back rows sh sh')) = rows"
  by (simp_all add: roll_back_def sh_db_def)

lemma durable_rows_other [simp]:
  "rc_Type c \<noteq> RedeemTypeSubscription \<Longrightarrow> durable_rows uid c sh sh' = sd_subs (sh_db sh)"
  by (simp add: durable_rows_def)

section \<open>Redeeming\<close>

definition codes_inv :: "shop \<Rightarrow> bool" where
  "codes_inv sh \<longleftrightarrow> distinct (map rc_ID (sh_codes sh)) \<and> distinct (map rc_Code (sh_codes sh)) \<and>
     (\<forall>c \<in> set (sh_codes sh). rc_ID c < sh_next sh)"

lemma code_unique:
  "codes_inv sh \<Longrightarrow> c \<in> set (sh_codes sh) \<Longrightarrow> d \<in> set (sh_codes sh) \<Longrightarrow> rc_ID c = rc_ID d \<Longrightarrow> c = d"
  by (auto simp: codes_inv_def distinct_map inj_on_def)

lemma find_by_code:
  assumes "codes_inv sh" and "c \<in> set (sh_codes sh)"
  shows "find (\<lambda>d. rc_Code d = rc_Code c) (sh_codes sh) = Some c"
proof (cases "find (\<lambda>d. rc_Code d = rc_Code c) (sh_codes sh)")
  case None
  with assms(2) show ?thesis by (auto simp: find_None_all)
next
  case (Some d)
  then have "d \<in> set (sh_codes sh)" "rc_Code d = rc_Code c" by (auto dest: find_Some_mem)
  with assms have "d = c" by (auto simp: codes_inv_def distinct_map dest: inj_onD)
  with Some show ?thesis by simp
qed

lemma same_shop_codes_inv: "same_shop sh sh' \<Longrightarrow> codes_inv sh' = codes_inv sh"
  by (simp add: same_shop_def codes_inv_def)

text \<open>The users after a redemption.\<close>

definition redeemed_users :: "int \<Rightarrow> RedeemCode \<Rightarrow> User \<Rightarrow> (int \<Rightarrow> User option) \<Rightarrow> int \<Rightarrow> User option" where
  "redeemed_users uid c u users =
     (if rc_Type c = RedeemTypeBalance
      then users(uid \<mapsto> add_balance (if rc_Value c < 0 \<and> usr_Balance u + rc_Value c < 0 then - usr_Balance u else rc_Value c) u)
      else if rc_Type c = RedeemTypeConcurrency
      then users(uid \<mapsto> u\<lparr>usr_Concurrency := usr_Concurrency u +
        (let delta = int_of_float (rc_Value c)
         in if delta < 0 \<and> usr_Concurrency u + delta < 0 then - usr_Concurrency u else delta)\<rparr>)
      else users)"

lemma user_update_result:
  assumes "user_update uid f sh = (r, sh')"
  shows "sh_codes sh' = sh_codes sh \<and> sh_next sh' = sh_next sh \<and> same_rows (sh_db sh) (sh_db sh') \<and>
    (case r of Inl _ \<Rightarrow> sh_users sh' = sh_users sh
     | Inr _ \<Rightarrow> \<exists>u. sh_users sh uid = Some u \<and> sh_users sh' = (sh_users sh)(uid \<mapsto> f u))"
  using assms shop_call_snd [of sh]
  by (cases "shop_call sh") (auto simp: user_update_def same_shop_def sh_db_def split: if_splits option.splits)

lemma on_svc_frame:
  "on_svc call sh = (r, sh') \<Longrightarrow> sh_users sh' = sh_users sh \<and> sh_codes sh' = sh_codes sh \<and> sh_next sh' = sh_next sh"
  by (auto simp: on_svc_def split: prod.splits sum.splits)

lemma redeem_effect_result:
  assumes "redeem_effect now uid c u sh = (r, sh')" and "sh_users sh uid = Some u"
  shows "sh_codes sh' = sh_codes sh \<and> sh_next sh' = sh_next sh \<and>
    (\<not> isl r \<longrightarrow> sh_users sh' = redeemed_users uid c u (sh_users sh)) \<and>
    (rc_Type c \<noteq> RedeemTypeSubscription \<longrightarrow> same_rows (sh_db sh) (sh_db sh'))"
proof -
  consider (b) "rc_Type c = RedeemTypeBalance" | (c) "rc_Type c = RedeemTypeConcurrency"
    | (s) "rc_Type c = RedeemTypeSubscription" | (x) "rc_Type c \<notin> {RedeemTypeBalance, RedeemTypeConcurrency, RedeemTypeSubscription}"
    by blast
  then show ?thesis
  proof cases
    case b
    with assms show ?thesis
      by (auto simp: redeem_effect_def user_UpdateBalance_def redeemed_users_def dest!: user_update_result split: sum.splits)
  next
    case c
    then have "rc_Type c \<noteq> RedeemTypeBalance" by (simp add: RedeemTypeBalance_def RedeemTypeConcurrency_def)
    with c assms show ?thesis
      by (auto simp: redeem_effect_def user_UpdateConcurrency_def redeemed_users_def dest!: user_update_result split: sum.splits)
  next
    case s
    then have "rc_Type c \<noteq> RedeemTypeBalance" "rc_Type c \<noteq> RedeemTypeConcurrency"
      by (simp_all add: RedeemTypeBalance_def RedeemTypeConcurrency_def RedeemTypeSubscription_def)
    with s assms(1) show ?thesis
      by (auto simp: redeem_effect_def redeemed_users_def and_then_def Let_def dest: on_svc_frame split: if_splits prod.splits sum.splits)
  next
    case x
    with assms show ?thesis by (auto simp: redeem_effect_def)
  qed
qed

text \<open>A redemption is undone or done; the subscriptions are another matter when the code grants one.\<close>

definition redeem_outcome ::
    "instant \<Rightarrow> int \<Rightarrow> RedeemCode \<Rightarrow> User \<Rightarrow> shop \<Rightarrow> redeem_error + 'a \<Rightarrow> shop \<Rightarrow> bool" where
  "redeem_outcome now uid c u sh r sh' \<longleftrightarrow>
     sh_next sh' = sh_next sh \<and>
     (rc_Type c \<noteq> RedeemTypeSubscription \<longrightarrow> sd_subs (sh_db sh') = sd_subs (sh_db sh)) \<and>
     (isl r \<and> sh_users sh' = sh_users sh \<and> sh_codes sh' = sh_codes sh \<or>
      sh_users sh' = redeemed_users uid c u (sh_users sh) \<and>
      sh_codes sh' = map (\<lambda>d. if d = c then use_code now uid c else d) (sh_codes sh))"

lemma code_Use_result:
  assumes "code_Use now (rc_ID c) uid sh = (r, sh')" and "codes_inv sh" and "c \<in> set (sh_codes sh)" and "CanUse c"
  shows "sh_users sh' = sh_users sh \<and> sh_next sh' = sh_next sh \<and> same_rows (sh_db sh) (sh_db sh') \<and>
    (isl r \<or> sh_codes sh' = map (\<lambda>d. if d = c then use_code now uid c else d) (sh_codes sh))"
proof -
  obtain b s where s: "shop_call sh = (b, s)" by fastforce
  note same = shop_call_same [OF s, unfolded same_shop_def]
  have m: "map (\<lambda>d. if rc_ID d = rc_ID c \<and> rc_Status d = StatusUnused then use_code now uid d else d) (sh_codes sh)
      = map (\<lambda>d. if d = c then use_code now uid c else d) (sh_codes sh)"
    using code_unique [OF assms(2) _ assms(3)] assms(4) by (auto simp: CanUse_def)
  show ?thesis
    using assms(1) s same m by (auto simp: code_Use_def sh_db_def split: if_splits)
qed

lemma redeem_tx_result:
  assumes "redeem_tx clk uid c u sh = (r, sh')" and "codes_inv sh" and "c \<in> set (sh_codes sh)" and "CanUse c"
    and "sh_users sh uid = Some u"
  shows "redeem_outcome (clk 0) uid c u sh r sh'"
proof (cases rule: run_tx_result [OF assms(1) [unfolded redeem_tx_def]])
  case (1 e)
  with shop_call_same [OF 1(2)] show ?thesis by (simp add: redeem_outcome_def same_shop_def same_rows_def)
next
  case (2 e s s')
  with shop_call_same [OF 2(2)] show ?thesis by (simp add: redeem_outcome_def same_shop_def same_rows_def)
next
  case (3 a s s')
  note same = shop_call_same [OF 3(2)] and same' = shop_call_same [OF 3(4)]
  from 3(3) obtain s1 where 1: "code_Use (clk 0) (rc_ID c) uid s = (Inr (), s1)"
    and 2: "redeem_effect (clk 1) uid c u s1 = (Inr a, s')" by (elim and_then_InrE) auto
  have inv: "codes_inv s" "c \<in> set (sh_codes s)"
    using same_shop_codes_inv [OF same] same assms(2,3) by (auto simp: same_shop_def)
  note u1 = code_Use_result [OF 1 inv assms(4)]
  have "sh_users s1 uid = Some u" using u1 same assms(5) by (simp add: same_shop_def)
  from redeem_effect_result [OF 2 this] u1 same same' 3(1) show ?thesis
    by (auto simp: redeem_outcome_def same_shop_def same_rows_def)
qed

text \<open>The outcome of the whole operation: nothing, or the redemption of the code.\<close>

lemma redeem_outcome_frame:
  assumes "redeem_outcome now uid c u sh1 r sh2" and "same_shop sh0 sh1" and "same_shop sh2 sh3"
    and "isl r \<Longrightarrow> isl q"
  shows "redeem_outcome now uid c u sh0 q sh3"
  using assms by (auto simp: redeem_outcome_def same_shop_def same_rows_def)

lemma redeem_locked_result:
  assumes l: "redeem_locked clk uid code sh = (r, sh')" and inv: "codes_inv sh"
  shows "isl r \<and> same_shop sh sh' \<or>
    (\<exists>c u. find (\<lambda>c. rc_Code c = code) (sh_codes sh) = Some c \<and> CanUse c \<and> sh_users sh uid = Some u \<and>
       redeem_outcome (clk 0) uid c u sh r sh')"
proof -
  obtain r1 s1 where s1: "code_GetByCode code sh = (r1, s1)" by fastforce
  note g1 = code_find_same [OF s1 [unfolded code_GetByCode_def]]
  show ?thesis
  proof (cases "\<exists>c. r1 = Inr c \<and> CanUse c \<and> \<not> (rc_Type c = RedeemTypeSubscription \<and> rc_GroupID c = None)")
    case False
    with l s1 g1 same_shop_trans [OF conjunct1 [OF g1] incrementRedeemErrorCount_same] show ?thesis
      by (cases r1) (auto simp: redeem_locked_def split: if_splits)
  next
    case True
    then obtain c where c: "r1 = Inr c" "CanUse c" "\<not> (rc_Type c = RedeemTypeSubscription \<and> rc_GroupID c = None)" by blast
    obtain r2 s2 where s2: "user_GetByID uid s1 = (r2, s2)" by fastforce
    note g2 = user_GetByID_same [OF s2]
    have same: "same_shop sh s2" using g1 g2 same_shop_trans by blast
    show ?thesis
    proof (cases r2)
      case (Inl e)
      with l s1 c s2 same show ?thesis by (auto simp: redeem_locked_def)
    next
      case (Inr u)
      obtain r3 s3 where s3: "redeem_tx clk uid c u s2 = (r3, s3)" by fastforce
      obtain r4 s4 where s4: "code_GetByID (rc_ID c) s3 = (r4, s4)" by fastforce
      have f: "find (\<lambda>c. rc_Code c = code) (sh_codes sh) = Some c" using g1 c by simp
      then have "c \<in> set (sh_codes s2)" using same by (auto simp: same_shop_def dest: find_Some_mem)
      moreover have u: "sh_users sh uid = Some u" "sh_users s2 uid = Some u"
        using g1 g2 Inr by (auto simp: same_shop_def)
      ultimately have o: "redeem_outcome (clk 0) uid c u s2 r3 s3"
        using redeem_tx_result [OF s3 _ _ c(2)] inv same_shop_codes_inv [OF same] by blast
      have "r = (case r3 of Inl e \<Rightarrow> Inl e | Inr _ \<Rightarrow> r4) \<and> sh' = (if isl r3 then s3 else s4)"
        using l s1 c s2 Inr s3 s4 by (cases r3) (auto simp: redeem_locked_def)
      moreover have "same_shop s3 s4" using code_find_same [OF s4 [unfolded code_GetByID_def]] by blast
      ultimately have "redeem_outcome (clk 0) uid c u sh r sh'"
        using redeem_outcome_frame [OF o same, of sh' r] by (auto simp: isl_def split: sum.splits)
      with f u c show ?thesis by blast
    qed
  qed
qed

lemma Redeem_result:
  assumes rd: "Redeem clk uid code sh = (r, sh')" and inv: "codes_inv sh"
  shows "isl r \<and> same_shop sh sh' \<or>
    (\<exists>c u. find (\<lambda>c. rc_Code c = code) (sh_codes sh) = Some c \<and> CanUse c \<and> sh_users sh uid = Some u \<and>
       redeem_outcome (clk 0) uid c u sh r sh')"
proof -
  obtain b1 s1 where s1: "checkRedeemRateLimit uid sh = (b1, s1)" by fastforce
  obtain b2 s2 where s2: "acquireRedeemLock code s1 = (b2, s2)" by fastforce
  obtain r3 s3 where s3: "redeem_locked clk uid code s2 = (r3, s3)" by fastforce
  note same1 = checkRedeemRateLimit_same [OF s1] and same2 = acquireRedeemLock_same [OF s2]
  have same: "same_shop sh s2" using same1 same2 same_shop_trans by blast
  have same': "same_shop s3 (releaseRedeemLock code s3)" by (rule releaseRedeemLock_same)
  show ?thesis
  proof (cases "b1 \<and> b2")
    case False
    with rd s1 s2 same1 same show ?thesis by (cases b1; cases b2) (auto simp: Redeem_def isl_def)
  next
    case True
    with rd s1 s2 s3 have r: "r = r3" "sh' = releaseRedeemLock code s3" by (simp_all add: Redeem_def)
    have "codes_inv s2" using inv same_shop_codes_inv [OF same] by simp
    from redeem_locked_result [OF s3 this] show ?thesis
    proof (elim disjE exE conjE)
      assume "isl r3" and "same_shop s2 s3"
      with r same same' show ?thesis using same_shop_trans by blast
    next
      fix c u
      assume f: "find (\<lambda>c. rc_Code c = code) (sh_codes s2) = Some c" "CanUse c" "sh_users s2 uid = Some u"
        and "redeem_outcome (clk 0) uid c u s2 r3 s3"
      then have "redeem_outcome (clk 0) uid c u sh r sh'"
        using redeem_outcome_frame [OF _ same same'] r by blast
      with f same show ?thesis by (auto simp: same_shop_def)
    qed
  qed
qed

lemma redeemed_inv:
  assumes "codes_inv sh" and "sh_codes sh' = map (\<lambda>d. if d = c then use_code now uid c else d) (sh_codes sh)"
    and "sh_next sh' = sh_next sh"
  shows "codes_inv sh'"
proof -
  have "map rc_ID (sh_codes sh') = map rc_ID (sh_codes sh)" and "map rc_Code (sh_codes sh') = map rc_Code (sh_codes sh)"
    using assms(2) by (auto simp: use_code_def)
  moreover have "\<forall>d \<in> set (sh_codes sh'). rc_ID d \<in> rc_ID ` set (sh_codes sh)" using assms(2) by (auto simp: use_code_def)
  ultimately show ?thesis using assms(1,3) by (auto simp: codes_inv_def)
qed

lemma find_redeemed:
  assumes "find (\<lambda>c. rc_Code c = code) cs = Some c"
  shows "find (\<lambda>c. rc_Code c = code) (map (\<lambda>d. if d = c then use_code now uid c else d) cs) = Some (use_code now uid c)"
  using assms by (induction cs) (auto simp: use_code_def split: if_splits)

text \<open>C15. Whatever storage calls fail, redeeming a balance or concurrency code is all or nothing:
  either it returns an error and users, codes and subscriptions are as before, or exactly that
  code becomes used by the user and the user gets its value once (a negative value takes no more
  than there is). A code that is returned was redeemed, and a second redemption of it by anyone
  returns an error and changes nothing.\<close>

theorem Redeem_exactly_once:
  assumes "codes_inv sh" and "Redeem clk uid code sh = (r, sh1)" and "Redeem clk' uid' code sh1 = (r', sh2)"
    and "find (\<lambda>c. rc_Code c = code) (sh_codes sh) = Some c" and "rc_Type c \<noteq> RedeemTypeSubscription"
  shows "sd_subs (sh_db sh1) = sd_subs (sh_db sh) \<and>
    (isl r \<and> sh_users sh1 = sh_users sh \<and> sh_codes sh1 = sh_codes sh \<or>
     (\<exists>u. CanUse c \<and> sh_users sh uid = Some u \<and> sh_users sh1 = redeemed_users uid c u (sh_users sh) \<and>
        sh_codes sh1 = map (\<lambda>d. if d = c then use_code (clk 0) uid c else d) (sh_codes sh) \<and>
        isl r' \<and> sh_users sh2 = sh_users sh1 \<and> sh_codes sh2 = sh_codes sh1))"
proof -
  from Redeem_result [OF assms(2,1)] assms(4) consider (no) "isl r" "same_shop sh sh1"
    | (yes) u where "CanUse c" "sh_users sh uid = Some u" "redeem_outcome (clk 0) uid c u sh r sh1" by auto
  then show ?thesis
  proof cases
    case no
    then show ?thesis by (simp add: same_shop_def same_rows_def)
  next
    case (yes u)
    show ?thesis
    proof (cases "isl r \<and> sh_users sh1 = sh_users sh \<and> sh_codes sh1 = sh_codes sh")
      case True
      with yes assms(5) show ?thesis by (simp add: redeem_outcome_def)
    next
      case False
      with yes have o: "sh_users sh1 = redeemed_users uid c u (sh_users sh)"
        "sh_codes sh1 = map (\<lambda>d. if d = c then use_code (clk 0) uid c else d) (sh_codes sh)"
        by (auto simp: redeem_outcome_def)
      have inv: "codes_inv sh1" using redeemed_inv [OF assms(1) o(2)] yes by (simp add: redeem_outcome_def)
      have f: "find (\<lambda>c. rc_Code c = code) (sh_codes sh1) = Some (use_code (clk 0) uid c)"
        using find_redeemed [OF assms(4)] o(2) by simp
      have "isl r' \<and> same_shop sh1 sh2"
        using Redeem_result [OF assms(3) inv] f by (auto simp: CanUse_def use_code_def StatusUsed_def StatusUnused_def)
      with yes o assms(5) show ?thesis by (auto simp: redeem_outcome_def same_shop_def)
    qed
  qed
qed

section \<open>Subscription codes\<close>

text \<open>A call whose next fault is none.\<close>

lemma sub_call_ok: "sd_faults db = False # fs \<Longrightarrow> sub_call db = (False, db\<lparr>sd_faults := fs\<rparr>)"
  by (simp add: sub_call_def)

lemma shop_call_ok: "sd_faults (sh_db sh) = False # fs \<Longrightarrow>
    shop_call sh = (False, sh\<lparr>sh_svc := (sh_svc sh)\<lparr>sv_db := (sh_db sh)\<lparr>sd_faults := fs\<rparr>\<rparr>\<rparr>)"
  by (simp add: shop_call_def sub_call_ok)

lemma shop_call_up: "sub_up (sh_db sh) \<Longrightarrow> shop_call sh = (False, sh)"
  by (cases sh) (simp add: shop_call_def sh_db_def)

lemma sh_db_update [simp]: "sh_db (sh\<lparr>sh_svc := svc\<rparr>) = sv_db svc" "sh_db (sh\<lparr>sh_codes := cs\<rparr>) = sh_db sh"
  "sh_db (sh\<lparr>sh_users := us\<rparr>) = sh_db sh" "sh_db (sh\<lparr>sh_cache := k\<rparr>) = sh_db sh"
  by (simp_all add: sh_db_def)

text \<open>An extension that meets no fault: seven calls.\<close>

lemma repo_update_ok:
  assumes "sd_faults db = False # fs" and "list_ex (\<lambda>s. us_ID s = i) (sd_subs db)"
  shows "repo_update i f db = (Inr (), db\<lparr>sd_faults := fs, sd_subs := at_id i f (sd_subs db)\<rparr>)"
  using assms by (simp add: repo_update_def sub_call_ok at_id_def)

lemma AssignOrExtend_ok:
  assumes inv: "subs_inv (sv_db svc)" and s: "find (of_pair (in_UserID input) (in_GroupID input)) (sd_subs (sv_db svc)) = Some s"
    and f: "sd_faults (sv_db svc) = [False, False, False, False, False, False, False] @ fs"
    and g: "sd_groups (sv_db svc) (in_GroupID input) = Some g" "IsSubscriptionType g"
    and "us_Status s = SubscriptionStatusActive" and "in_Notes input \<noteq> ''''"
  shows "\<exists>t svc'. AssignOrExtendSubscription now input svc = (Inr (t, True), svc') \<and> sd_faults (sv_db svc') = fs \<and>
    sd_subs (sv_db svc') = at_id (us_ID s) (extended now input) (sd_subs (sv_db svc)) \<and>
    sd_next (sv_db svc') = sd_next (sv_db svc) \<and> sd_groups (sv_db svc') = sd_groups (sv_db svc)"
proof -
  have x: "list_ex (\<lambda>t. us_ID t = us_ID s) (sd_subs (sv_db svc))" using s by (auto simp: list_ex_iff dest: find_Some_mem)
  then obtain t0 where "find (\<lambda>t. us_ID t = us_ID s) (sd_subs (sv_db svc)) = Some t0"
    by (cases "find (\<lambda>t. us_ID t = us_ID s) (sd_subs (sv_db svc))") (auto simp: find_None_all list_ex_iff)
  then have "\<exists>t svc'. AssignOrExtendSubscription now input svc = (Inr (t, True), svc') \<and> sd_faults (sv_db svc') = fs \<and>
      sd_groups (sv_db svc') = sd_groups (sv_db svc)"
    using assms x
    by (simp add: AssignOrExtendSubscription_def on_db_def group_GetByID_def sub_call_ok repo_GetByUserIDAndGroupID_def
        repo_find_def extend_existing_def transaction_def run_tx_def repo_ExtendExpiry_def repo_UpdateNotes_def repo_update_ok
        at_id_comp comp_def repo_GetByID_def find_at_id InvalidateSubCache_def)
  then obtain t svc' where a: "AssignOrExtendSubscription now input svc = (Inr (t, True), svc')"
      "sd_faults (sv_db svc') = fs" "sd_groups (sv_db svc') = sd_groups (sv_db svc)" by blast
  have "list_ex (of_pair (in_UserID input) (in_GroupID input)) (sd_subs (sv_db svc))"
    using s by (auto simp: list_ex_iff dest: find_Some_mem)
  with AssignOrExtend_assigned [OF inv a(1)] s a show ?thesis by (auto simp: assigned_def granted_def Let_def)
qed

definition code_input :: "int \<Rightarrow> int \<Rightarrow> RedeemCode \<Rightarrow> AssignSubscriptionInput" where
  "code_input uid gid c = \<lparr>in_UserID = uid, in_GroupID = gid,
     in_ValidityDays = (if rc_ValidityDays c = 0 then 30 else rc_ValidityDays c),
     in_AssignedBy = 0, in_Notes = redeem_notes (rc_Code c)\<rparr>"

lemma redeem_notes_nonempty: "redeem_notes code \<noteq> ''''"
  by (simp add: redeem_notes_def utf8_def)

text \<open>A subscription code whose redemption meets a fault at most when it commits.\<close>

lemma redeem_tx_extends:
  assumes inv: "codes_inv sh" "subs_inv (sh_db sh)"
    and f: "sd_faults (sh_db sh) = replicate 9 False @ b # fs"
    and c: "c \<in> set (sh_codes sh)" "CanUse c" "rc_Type c = RedeemTypeSubscription" "rc_GroupID c = Some gid" "0 \<le> rc_ValidityDays c"
    and s: "find (of_pair uid gid) (sd_subs (sh_db sh)) = Some s" "us_Status s = SubscriptionStatusActive"
    and g: "sd_groups (sh_db sh) gid = Some g" "IsSubscriptionType g"
  shows "\<exists>sh'. redeem_tx (\<lambda>_. now) uid c u sh = ((if b then Inl RedeemStorageError else Inr ()), sh') \<and>
    sd_faults (sh_db sh') = fs \<and> sh_users sh' = sh_users sh \<and> sh_next sh' = sh_next sh \<and> sh_cache sh' = sh_cache sh \<and>
    sd_subs (sh_db sh') = at_id (us_ID s) (extended now (code_input uid gid c)) (sd_subs (sh_db sh)) \<and>
    sd_groups (sh_db sh') = sd_groups (sh_db sh) \<and> sd_next (sh_db sh') = sd_next (sh_db sh) \<and>
    sh_codes sh' = (if b then sh_codes sh else map (\<lambda>d. if d = c then use_code now uid c else d) (sh_codes sh))"
proof -
  let ?in = "code_input uid gid c"
  have f': "sd_faults (sh_db sh) = False # False # [False, False, False, False, False, False, False] @ b # fs"
    using f by (simp add: numeral_eq_Suc)
  define s0 where "s0 = sh\<lparr>sh_svc := (sh_svc sh)\<lparr>sv_db := (sh_db sh)\<lparr>sd_faults := False # [False, False, False, False, False, False, False] @ b # fs\<rparr>\<rparr>\<rparr>"
  have 0: "shop_call sh = (False, s0)" by (simp add: shop_call_ok [OF f'] s0_def)
  have s0: "same_shop sh s0" "sd_faults (sh_db s0) = False # [False, False, False, False, False, False, False] @ b # fs"
    using shop_call_same [OF 0] by (simp_all add: s0_def)
  define s1 where "s1 = s0\<lparr>sh_svc := (sh_svc s0)\<lparr>sv_db := (sh_db s0)\<lparr>sd_faults := [False, False, False, False, False, False, False] @ b # fs\<rparr>\<rparr>,
     sh_codes := map (\<lambda>d. if d = c then use_code now uid c else d) (sh_codes sh)\<rparr>"
  have "list_ex (\<lambda>d. rc_ID d = rc_ID c \<and> rc_Status d = StatusUnused) (sh_codes sh)"
    using c(1,2) by (auto simp: list_ex_iff CanUse_def)
  moreover have "map (\<lambda>d. if rc_ID d = rc_ID c \<and> rc_Status d = StatusUnused then use_code now uid d else d) (sh_codes sh)
      = map (\<lambda>d. if d = c then use_code now uid c else d) (sh_codes sh)"
    using code_unique [OF inv(1) _ c(1)] c(2) by (auto simp: CanUse_def)
  ultimately have 1: "code_Use now (rc_ID c) uid s0 = (Inr (), s1)"
    using s0 by (simp add: code_Use_def shop_call_ok s1_def same_shop_def)
  have db1: "sv_db (sh_svc s1) = (sh_db sh)\<lparr>sd_faults := [False, False, False, False, False, False, False] @ b # fs\<rparr>"
    by (simp add: s1_def s0_def)
  have inv1: "subs_inv (sv_db (sh_svc s1))" using inv(2) by (simp add: db1 subs_inv_def)
  obtain t svc where a: "AssignOrExtendSubscription now ?in (sh_svc s1) = (Inr (t, True), svc)" "sd_faults (sv_db svc) = b # fs"
      "sd_subs (sv_db svc) = at_id (us_ID s) (extended now ?in) (sd_subs (sh_db sh))"
      "sd_next (sv_db svc) = sd_next (sh_db sh)" "sd_groups (sv_db svc) = sd_groups (sh_db sh)"
    using AssignOrExtend_ok [OF inv1, of ?in s "b # fs" g now] s g redeem_notes_nonempty
    by (auto simp: db1 code_input_def)
  define s2 where "s2 = s1\<lparr>sh_svc := svc\<rparr>"
  have ne: "RedeemTypeSubscription \<noteq> RedeemTypeBalance" "RedeemTypeSubscription \<noteq> RedeemTypeConcurrency"
    by (simp_all add: RedeemTypeBalance_def RedeemTypeConcurrency_def RedeemTypeSubscription_def)
  have 2: "redeem_effect now uid c u s1 = (Inr (), s2)"
    using a(1) c(3,4,5) ne by (auto simp: redeem_effect_def on_svc_def code_input_def s2_def Let_def)
  define s3 where "s3 = s2\<lparr>sh_svc := svc\<lparr>sv_db := (sv_db svc)\<lparr>sd_faults := fs\<rparr>\<rparr>\<rparr>"
  have 3: "shop_call s2 = (b, s3)" using a(2) by (simp add: shop_call_def sub_call_def s2_def s3_def)
  have "list_ex (of_pair uid gid) (sd_subs (sh_db sh))" using s(1) by (auto simp: list_ex_iff dest: find_Some_mem)
  then have d: "durable_rows uid c s0 s3 = sd_subs (sv_db svc)"
    using c(3,4,5) by (simp add: durable_rows_def s0_def s3_def)
  have "redeem_tx (\<lambda>_. now) uid c u sh =
      (if b then (Inl RedeemStorageError, roll_back (sd_subs (sv_db svc)) s0 s3) else (Inr (), s3))"
    by (simp add: redeem_tx_def run_tx_def 0 1 2 3 d)
  then show ?thesis
    using a by (auto simp: s3_def s2_def s1_def s0_def roll_back_def)
qed

lemma Redeem_extends:
  assumes inv: "codes_inv sh" "subs_inv (sh_db sh)" and k: "sh_cache sh = None"
    and f: "sd_faults (sh_db sh) = replicate 11 False @ b # fs" and nb: "\<not> b \<Longrightarrow> fs = []"
    and c: "c \<in> set (sh_codes sh)" "CanUse c" "rc_Type c = RedeemTypeSubscription" "rc_GroupID c = Some gid" "0 \<le> rc_ValidityDays c"
    and u: "sh_users sh uid = Some u"
    and s: "find (of_pair uid gid) (sd_subs (sh_db sh)) = Some s" "us_Status s = SubscriptionStatusActive"
    and g: "sd_groups (sh_db sh) gid = Some g" "IsSubscriptionType g"
  shows "\<exists>r sh'. Redeem (\<lambda>_. now) uid (rc_Code c) sh = (r, sh') \<and> isl r = b \<and>
    sd_faults (sh_db sh') = fs \<and> sh_users sh' = sh_users sh \<and> sh_next sh' = sh_next sh \<and> sh_cache sh' = None \<and>
    sd_subs (sh_db sh') = at_id (us_ID s) (extended now (code_input uid gid c)) (sd_subs (sh_db sh)) \<and>
    sd_groups (sh_db sh') = sd_groups (sh_db sh) \<and> sd_next (sh_db sh') = sd_next (sh_db sh) \<and>
    sh_codes sh' = (if b then sh_codes sh else map (\<lambda>d. if d = c then use_code now uid c else d) (sh_codes sh))"
proof -
  define s1 where "s1 = sh\<lparr>sh_svc := (sh_svc sh)\<lparr>sv_db := (sh_db sh)\<lparr>sd_faults := replicate 10 False @ b # fs\<rparr>\<rparr>\<rparr>"
  define s2 where "s2 = sh\<lparr>sh_svc := (sh_svc sh)\<lparr>sv_db := (sh_db sh)\<lparr>sd_faults := replicate 9 False @ b # fs\<rparr>\<rparr>\<rparr>"
  have "find (\<lambda>d. rc_Code d = rc_Code c) (sh_codes sh) = Some c" by (rule find_by_code [OF inv(1) c(1)])
  moreover have "shop_call sh = (False, s1)" using f by (simp add: shop_call_ok [of _ "replicate 10 False @ b # fs"] s1_def numeral_eq_Suc)
  ultimately have 1: "code_GetByCode (rc_Code c) sh = (Inr c, s1)" by (simp add: code_GetByCode_def code_find_def s1_def)
  have "shop_call s1 = (False, s2)"
    by (simp add: shop_call_ok [of _ "replicate 9 False @ b # fs"] s1_def s2_def numeral_eq_Suc)
  then have 2: "user_GetByID uid s1 = (Inr u, s2)" using u by (simp add: user_GetByID_def s2_def)
  have db2: "sh_db s2 = (sh_db sh)\<lparr>sd_faults := replicate 9 False @ b # fs\<rparr>" "sh_codes s2 = sh_codes sh" by (simp_all add: s2_def)
  have inv2: "codes_inv s2" "subs_inv (sh_db s2)" using inv by (simp_all add: s2_def subs_inv_def codes_inv_def)
  obtain s3 where 3: "redeem_tx (\<lambda>_. now) uid c u s2 = ((if b then Inl RedeemStorageError else Inr ()), s3)"
      "sd_faults (sh_db s3) = fs" "sh_users s3 = sh_users sh" "sh_next s3 = sh_next sh" "sh_cache s3 = None"
      "sd_subs (sh_db s3) = at_id (us_ID s) (extended now (code_input uid gid c)) (sd_subs (sh_db sh))"
      "sd_groups (sh_db s3) = sd_groups (sh_db sh)" "sd_next (sh_db s3) = sd_next (sh_db sh)"
      "sh_codes s3 = (if b then sh_codes sh else map (\<lambda>d. if d = c then use_code now uid c else d) (sh_codes sh))"
    using redeem_tx_extends [OF inv2, of b fs c gid uid s g now u] db2 c s g k by (auto simp: s2_def)
  have "rc_ID (use_code now uid c) = rc_ID c" by (simp add: use_code_def)
  then have i: "\<not> b \<Longrightarrow> find (\<lambda>d. rc_ID d = rc_ID c) (sh_codes s3) \<noteq> None"
    using 3(9) c(1) by (auto simp: find_None_all)
  have "Redeem (\<lambda>_. now) uid (rc_Code c) sh = (if b then (Inl RedeemStorageError, s3) else code_GetByID (rc_ID c) s3)"
    using 1 2 3(1,5) k c by (auto simp: Redeem_def checkRedeemRateLimit_def acquireRedeemLock_def releaseRedeemLock_def
        redeem_locked_def code_GetByID_def code_find_def shop_call_def Let_def split: prod.splits option.splits)
  moreover have "\<not> b \<Longrightarrow> \<exists>d. code_GetByID (rc_ID c) s3 = (Inr d, s3)"
    using i 3(2) nb by (auto simp: code_GetByID_def code_find_def shop_call_up sub_up_def)
  ultimately show ?thesis using 3 by (cases b) auto
qed

lemma extended_id [simp]: "us_ID (extended now input s) = us_ID s"
  by (simp add: extended_def)

lemma find_by_id:
  assumes "subs_inv db" and "s \<in> set (sd_subs db)"
  shows "find (\<lambda>t. us_ID t = us_ID s) (sd_subs db) = Some s"
proof (cases "find (\<lambda>t. us_ID t = us_ID s) (sd_subs db)")
  case None
  with assms(2) show ?thesis by (auto simp: find_None_all)
next
  case (Some t)
  with row_unique [OF assms(1) _ assms(2), of t] show ?thesis by (auto dest: find_Some_mem)
qed

lemma find_pair:
  assumes "subs_inv db" and "s \<in> set (sd_subs db)" and "of_pair u g s"
  shows "find (of_pair u g) (sd_subs db) = Some s"
  using pair_filter [OF assms] by (simp add: find_filter)

text \<open>C16. The extension of a subscription by a code is not undone with the redemption: if only the
  commit of the redemption fails, the code stays unused but the subscription has been extended,
  and redeeming the code again, which the error invites, extends it a second time.\<close>

theorem Redeem_subscription_extends_twice:
  assumes "codes_inv sh" and "subs_inv (sh_db sh)" and "sh_cache sh = None"
    and "sd_faults (sh_db sh) = replicate 11 False @ True # replicate 11 False @ [False]"
    and "c \<in> set (sh_codes sh)" and "CanUse c" and "rc_Type c = RedeemTypeSubscription" and "rc_GroupID c = Some gid"
    and "rc_ValidityDays c = n" and "0 < n" and "n \<le> 36500"
    and "sh_users sh uid = Some u" and "sd_groups (sh_db sh) gid = Some g" and "IsSubscriptionType g"
    and "s \<in> set (sd_subs (sh_db sh))" and "of_pair uid gid s" and "us_Status s = SubscriptionStatusActive"
    and "now \<le> us_ExpiresAt s" and "us_ExpiresAt s + days (2 * n) \<le> MaxExpiresAt"
  shows "\<exists>e c' sh1 sh2. Redeem (\<lambda>_. now) uid (rc_Code c) sh = (Inl e, sh1) \<and> sh_codes sh1 = sh_codes sh \<and>
    map_option us_ExpiresAt (sub_at (us_ID s) (sh_db sh1)) = Some (us_ExpiresAt s + days n) \<and>
    Redeem (\<lambda>_. now) uid (rc_Code c) sh1 = (Inr c', sh2) \<and>
    map_option us_ExpiresAt (sub_at (us_ID s) (sh_db sh2)) = Some (us_ExpiresAt s + days (2 * n))"
proof -
  let ?in = "code_input uid gid c"
  have f: "find (of_pair uid gid) (sd_subs (sh_db sh)) = Some s" by (rule find_pair [OF assms(2,15,16)])
  have n: "normalizeAssignValidityDays (in_ValidityDays ?in) = n"
    using assms(9-11) by (simp add: code_input_def normalizeAssignValidityDays_def MaxValidityDays_def)
  obtain r1 sh1 where 1: "Redeem (\<lambda>_. now) uid (rc_Code c) sh = (r1, sh1)" "isl r1" "sd_faults (sh_db sh1) = replicate 11 False @ [False]"
      "sh_users sh1 = sh_users sh" "sh_cache sh1 = None" "sh_next sh1 = sh_next sh"
      "sd_subs (sh_db sh1) = at_id (us_ID s) (extended now ?in) (sd_subs (sh_db sh))"
      "sd_groups (sh_db sh1) = sd_groups (sh_db sh)" "sd_next (sh_db sh1) = sd_next (sh_db sh)" "sh_codes sh1 = sh_codes sh"
    using Redeem_extends [OF assms(1-4) _ assms(5-8) _ assms(12) f assms(17,13,14), of now] assms(9,10) by auto
  let ?s = "extended now ?in s"
  have inv1: "codes_inv sh1" "subs_inv (sh_db sh1)"
    using assms(1) 1 sub_inv_at_id [OF assms(2), of "extended now ?in"] by (auto simp: codes_inv_def extended_def)
  have s1: "?s \<in> set (sd_subs (sh_db sh1))" "of_pair uid gid ?s" "us_Status ?s = SubscriptionStatusActive" "us_ID ?s = us_ID s"
    using assms(15,16) by (auto simp: 1(7) at_id_def extended_def of_pair_def)
  have f1: "find (of_pair uid gid) (sd_subs (sh_db sh1)) = Some ?s" by (rule find_pair [OF inv1(2) s1(1,2)])
  obtain r2 sh2 where 2: "Redeem (\<lambda>_. now) uid (rc_Code c) sh1 = (r2, sh2)" "\<not> isl r2"
      "sd_subs (sh_db sh2) = at_id (us_ID s) (extended now ?in) (sd_subs (sh_db sh1))"
    using Redeem_extends [OF inv1 1(5), of False "[]" c gid uid u ?s g now] 1 f1 s1 assms by auto
  have e: "us_ExpiresAt ?s = us_ExpiresAt s + days n" "us_ExpiresAt (extended now ?in ?s) = us_ExpiresAt s + days (2 * n)"
    using assms(10,18,19) by (simp_all add: extended_def n new_expiry_max AddDays_def)
  have "find (\<lambda>t. us_ID t = us_ID s) (sd_subs (sh_db sh)) = Some s" by (rule find_by_id [OF assms(2,15)])
  then have "map_option us_ExpiresAt (sub_at (us_ID s) (sh_db sh1)) = Some (us_ExpiresAt s + days n)"
    and "map_option us_ExpiresAt (sub_at (us_ID s) (sh_db sh2)) = Some (us_ExpiresAt s + days (2 * n))"
    using e by (simp_all add: sub_at_def 1(7) 2(3) find_at_id extended_id)
  with 1 2 show ?thesis by (cases r1; cases r2) auto
qed

text \<open>A shop with a user, a code of ten days and a code of twenty dollars.\<close>

definition demo_user :: User where
  "demo_user = \<lparr>usr_Status = ''active'', usr_Balance = Fin 1, usr_TotalRecharged = Fin 0, usr_Concurrency = 5\<rparr>"

definition demo_days :: RedeemCode where
  "demo_days = \<lparr>rc_ID = 1, rc_Code = ''D10'', rc_Type = ''subscription'', rc_Value = Fin 1, rc_Status = ''unused'',
     rc_UsedBy = None, rc_UsedAt = None, rc_GroupID = Some 7, rc_ValidityDays = 10\<rparr>"

definition demo_money :: RedeemCode where
  "demo_money = \<lparr>rc_ID = 2, rc_Code = ''M20'', rc_Type = ''balance'', rc_Value = Fin 20, rc_Status = ''unused'',
     rc_UsedBy = None, rc_UsedAt = None, rc_GroupID = None, rc_ValidityDays = 0\<rparr>"

definition demo_shop :: "faults \<Rightarrow> shop" where
  "demo_shop fs = \<lparr>sh_svc = demo_service\<lparr>sv_db := (sv_db demo_service)\<lparr>sd_faults := fs\<rparr>\<rparr>, sh_users = [5 \<mapsto> demo_user],
     sh_codes = [demo_days, demo_money], sh_next = 3, sh_cache = None\<rparr>"

lemma demo_shop_ok: "codes_inv (demo_shop fs)" "subs_inv (sh_db (demo_shop fs))"
  using demo_ok(1) by (auto simp: demo_shop_def codes_inv_def sh_db_def demo_days_def demo_money_def subs_inv_def)

lemma Redeem_subscription_extends_twice_witness:
  "\<exists>e c' sh1 sh2. Redeem (\<lambda>_. 0) 5 ''D10'' (demo_shop (replicate 11 False @ True # replicate 11 False @ [False])) = (Inl e, sh1) \<and>
     Redeem (\<lambda>_. 0) 5 ''D10'' sh1 = (Inr c', sh2) \<and>
     map_option us_ExpiresAt (sub_at 1 (sh_db sh2)) = Some (days 50)"
  using Redeem_subscription_extends_twice [of "demo_shop (replicate 11 False @ True # replicate 11 False @ [False])"
      demo_days 7 10 5 demo_user demo_group demo_sub 0, OF demo_shop_ok]
  by (auto simp: demo_shop_def sh_db_def demo_days_def CanUse_def StatusUnused_def RedeemTypeSubscription_def
      demo_service_def demo_group_def IsSubscriptionType_def demo_sub_def of_pair_def SubscriptionStatusActive_def MaxExpiresAt_def)

lemma Redeem_exactly_once_witness:
  "\<exists>r sh1 r' sh2. Redeem (\<lambda>_. 0) 5 ''M20'' (demo_shop []) = (r, sh1) \<and> Redeem (\<lambda>_. 0) 6 ''M20'' sh1 = (r', sh2) \<and>
     (isl r \<or> map_option usr_Balance (sh_users sh2 5) = Some (Fin 21) \<and> isl r')"
proof -
  obtain r sh1 r' sh2 where rd: "Redeem (\<lambda>_. 0) 5 ''M20'' (demo_shop []) = (r, sh1)" "Redeem (\<lambda>_. 0) 6 ''M20'' sh1 = (r', sh2)"
    by fastforce
  have "sh_users sh2 5 = Some (add_balance (Fin 20) demo_user) \<and> isl r' \<or> isl r"
    using Redeem_exactly_once [OF demo_shop_ok(1) rd, of demo_money]
    by (auto simp: demo_shop_def demo_money_def demo_days_def RedeemTypeSubscription_def RedeemTypeBalance_def redeemed_users_def
        Fin_zero)
  with rd show ?thesis by (auto simp: add_balance_def demo_user_def Fin_zero)
qed

end
