(* ===== verification/Affiliate.thy ===== *)
theory Affiliate
  imports Redeem
begin

text \<open>
  Invitation rebates (\<open>backend/internal/service/affiliate_service.go\<close>, with the settings of
  \<open>setting_service.go\<close> and the SQL of \<open>repository/affiliate_repo.go\<close>): profiles, the rebate of an
  inviter for a recharge of an invitee, its freezing and thawing, and its transfer to the balance.

  The columns of the tables are decimal numbers, here rational ones. Generated codes are an argument,
  one for each attempt. A setting is \<open>None\<close> when it is missing, unreadable or does not parse. An
  insertion that violates the uniqueness of codes aborts a surrounding transaction, as PostgreSQL
  has it, so that the attempts that follow it fail.
\<close>

section \<open>Data\<close>

record Affiliate =
  af_UserID :: int
  af_AffCode :: string
  af_AffCodeCustom :: bool
  af_RebateRatePercent :: "float64 option"
  af_InviterID :: "int option"
  af_Count :: int
  af_Quota :: rat
  af_FrozenQuota :: rat
  af_HistoryQuota :: rat
  af_CreatedAt :: instant

record ledger_entry =
  le_UserID :: int
  le_Action :: string
  le_Amount :: rat
  le_SourceUserID :: "int option"
  le_FrozenUntil :: "instant option"

record affdb =
  ad_shop :: shop
  ad_rows :: "Affiliate list"
  ad_ledger :: "ledger_entry list"

datatype aff_error =
    AffStorageError | AffCodeClash | AffUserNotFound | AffProfileNotFound | AffCodeInvalid | AffCodeTaken
  | AffAlreadyBound | AffQuotaEmpty | AffInvalidRate

type_synonym 'a aff_result = "(aff_error + 'a) \<times> affdb"

record aff_settings =
  st_Enabled :: "bool option"
  st_RebateRate :: "float64 option"
  st_FreezeHours :: "int option"
  st_DurationDays :: "int option"
  st_PerInviteeCap :: "float64 option"

section \<open>Settings\<close>

definition AffiliateRebateRateDefault :: rat where "AffiliateRebateRateDefault = 20"

definition clampAffiliateRebateRate :: "float64 \<Rightarrow> rat" where
  "clampAffiliateRebateRate v =
     (case v of Fin r \<Rightarrow> if r < 0 then 0 else if r > 100 then 100 else r | _ \<Rightarrow> AffiliateRebateRateDefault)"

definition IsAffiliateEnabled :: "aff_settings option \<Rightarrow> bool" where
  "IsAffiliateEnabled st = (case st of None \<Rightarrow> False | Some s \<Rightarrow> st_Enabled s = Some True)"

definition globalRebateRatePercent :: "aff_settings option \<Rightarrow> rat" where
  "globalRebateRatePercent st =
     (case Option.bind st st_RebateRate of None \<Rightarrow> AffiliateRebateRateDefault | Some r \<Rightarrow> clampAffiliateRebateRate r)"

definition GetAffiliateRebateFreezeHours :: "aff_settings \<Rightarrow> int" where
  "GetAffiliateRebateFreezeHours s =
     (case st_FreezeHours s of None \<Rightarrow> 0 | Some h \<Rightarrow> if h < 0 then 0 else if h > 720 then 720 else h)"

definition GetAffiliateRebateDurationDays :: "aff_settings \<Rightarrow> int" where
  "GetAffiliateRebateDurationDays s =
     (case st_DurationDays s of None \<Rightarrow> 0 | Some d \<Rightarrow> if d < 0 then 0 else if d > 3650 then 3650 else d)"

definition GetAffiliateRebatePerInviteeCap :: "aff_settings \<Rightarrow> rat" where
  "GetAffiliateRebatePerInviteeCap s = (case st_PerInviteeCap s of Some (Fin c) \<Rightarrow> if c < 0 then 0 else c | _ \<Rightarrow> 0)"

definition resolveRebateRatePercent :: "aff_settings option \<Rightarrow> Affiliate \<Rightarrow> rat" where
  "resolveRebateRatePercent st a =
     (case af_RebateRatePercent a of
        Some (Fin r) \<Rightarrow> clampAffiliateRebateRate (Fin r)
      | _ \<Rightarrow> globalRebateRatePercent st)"

text \<open>\<open>math.Round\<close> rounds halves away from zero.\<close>

definition roundTo :: "rat \<Rightarrow> nat \<Rightarrow> rat" where
  "roundTo v scale = round_decimal v scale"

section \<open>The repository\<close>

definition aff_call :: "affdb \<Rightarrow> bool \<times> affdb" where
  "aff_call ad = (let (fail, sh) = shop_call (ad_shop ad) in (fail, ad\<lparr>ad_shop := sh\<rparr>))"

definition query_aff :: "(Affiliate \<Rightarrow> bool) \<Rightarrow> affdb \<Rightarrow> Affiliate aff_result" where
  "query_aff P ad0 =
     (let (fail, ad) = aff_call ad0
      in if fail then (Inl AffStorageError, ad)
         else case find P (ad_rows ad) of None \<Rightarrow> (Inl AffProfileNotFound, ad) | Some a \<Rightarrow> (Inr a, ad))"

definition queryAffiliateByUserID :: "int \<Rightarrow> affdb \<Rightarrow> Affiliate aff_result" where
  "queryAffiliateByUserID uid = query_aff (\<lambda>a. af_UserID a = uid)"

definition queryAffiliateByCode :: "string \<Rightarrow> affdb \<Rightarrow> Affiliate aff_result" where
  "queryAffiliateByCode code = query_aff (\<lambda>a. af_AffCode a = ToUpper (TrimSpace code))"

definition new_affiliate :: "int \<Rightarrow> string \<Rightarrow> instant \<Rightarrow> Affiliate" where
  "new_affiliate uid code now =
     \<lparr>af_UserID = uid, af_AffCode = code, af_AffCodeCustom = False, af_RebateRatePercent = None, af_InviterID = None,
      af_Count = 0, af_Quota = 0, af_FrozenQuota = 0, af_HistoryQuota = 0, af_CreatedAt = now\<rparr>"

definition insert_affiliate :: "int \<Rightarrow> string \<Rightarrow> instant \<Rightarrow> affdb \<Rightarrow> unit aff_result" where
  "insert_affiliate uid code now ad0 =
     (let (fail, ad) = aff_call ad0
      in if fail \<or> sh_users (ad_shop ad) uid = None then (Inl AffStorageError, ad)
         else if list_ex (\<lambda>a. af_UserID a = uid) (ad_rows ad) then (Inr (), ad)
         else if list_ex (\<lambda>a. af_AffCode a = code) (ad_rows ad) then (Inl AffCodeClash, ad)
         else (Inr (), ad\<lparr>ad_rows := ad_rows ad @ [new_affiliate uid code now]\<rparr>))"

text \<open>The attempts of \<open>ensureUserAffiliateWithClient\<close>, with the number that are left.\<close>

primrec insert_attempts :: "bool \<Rightarrow> (nat \<Rightarrow> string) \<Rightarrow> int \<Rightarrow> instant \<Rightarrow> nat \<Rightarrow> affdb \<Rightarrow> unit aff_result" where
  "insert_attempts in_tx gen uid now 0 ad = (Inr (), ad)"
| "insert_attempts in_tx gen uid now (Suc n) ad =
     (case insert_affiliate uid (gen n) now ad of
        (Inr _, ad') \<Rightarrow> (Inr (), ad')
      | (Inl e, ad') \<Rightarrow>
          if e \<noteq> AffCodeClash then (Inl e, ad')
          else if in_tx then (Inl AffStorageError, ad')
          else insert_attempts in_tx gen uid now n ad')"

definition ensureUserAffiliate :: "bool \<Rightarrow> (nat \<Rightarrow> string) \<Rightarrow> instant \<Rightarrow> int \<Rightarrow> affdb \<Rightarrow> Affiliate aff_result" where
  "ensureUserAffiliate in_tx gen now uid ad0 =
     (if uid \<le> 0 then (Inl AffUserNotFound, ad0)
      else case queryAffiliateByUserID uid ad0 of
             (Inr a, ad) \<Rightarrow> (Inr a, ad)
           | (Inl e, ad) \<Rightarrow>
               if e \<noteq> AffProfileNotFound then (Inl e, ad)
               else and_then (insert_attempts in_tx gen uid now 12 ad) (\<lambda>_. queryAffiliateByUserID uid))"

definition aff_update :: "int \<Rightarrow> (Affiliate \<Rightarrow> Affiliate) \<Rightarrow> affdb \<Rightarrow> bool aff_result" where
  "aff_update uid f ad0 =
     (let (fail, ad) = aff_call ad0
      in if fail then (Inl AffStorageError, ad)
         else (Inr (list_ex (\<lambda>a. af_UserID a = uid) (ad_rows ad)),
               ad\<lparr>ad_rows := map (\<lambda>a. if af_UserID a = uid then f a else a) (ad_rows ad)\<rparr>))"

definition ledger_insert :: "ledger_entry \<Rightarrow> affdb \<Rightarrow> unit aff_result" where
  "ledger_insert e ad0 =
     (let (fail, ad) = aff_call ad0
      in if fail then (Inl AffStorageError, ad) else (Inr (), ad\<lparr>ad_ledger := ad_ledger ad @ [e]\<rparr>))"

text \<open>A transaction of the repository; nothing of it stays when it is rolled back.\<close>

definition faults_from :: "shop \<Rightarrow> shop \<Rightarrow> shop" where
  "faults_from sh sh' = sh\<lparr>sh_svc := (sh_svc sh)\<lparr>sv_db := (sh_db sh)\<lparr>sd_faults := sd_faults (sh_db sh')\<rparr>\<rparr>\<rparr>"

definition aff_tx :: "(affdb \<Rightarrow> 'a aff_result) \<Rightarrow> affdb \<Rightarrow> 'a aff_result" where
  "aff_tx = run_tx aff_call AffStorageError (\<lambda>ad ad'. ad\<lparr>ad_shop := faults_from (ad_shop ad) (ad_shop ad')\<rparr>)"

definition AccrueQuota :: "instant \<Rightarrow> int \<Rightarrow> int \<Rightarrow> rat \<Rightarrow> int \<Rightarrow> affdb \<Rightarrow> bool aff_result" where
  "AccrueQuota now inviter invitee amount freezeHours ad =
     (if amount \<le> 0 then (Inr False, ad)
      else and_then (aff_update inviter (\<lambda>a. if freezeHours > 0
               then a\<lparr>af_FrozenQuota := af_FrozenQuota a + amount, af_HistoryQuota := af_HistoryQuota a + amount\<rparr>
               else a\<lparr>af_Quota := af_Quota a + amount, af_HistoryQuota := af_HistoryQuota a + amount\<rparr>) ad) (\<lambda>hit ad.
           if \<not> hit then (Inr False, ad)
           else and_then (ledger_insert \<lparr>le_UserID = inviter, le_Action = ''accrue'', le_Amount = amount,
                  le_SourceUserID = Some invitee,
                  le_FrozenUntil = (if freezeHours > 0 then Some (now + hours freezeHours) else None)\<rparr> ad) (\<lambda>_ ad.
                (Inr True, ad))))"

definition total :: "(ledger_entry \<Rightarrow> bool) \<Rightarrow> ledger_entry list \<Rightarrow> rat" where
  "total P es = sum_list (map le_Amount (filter P es))"

definition GetAccruedRebateFromInvitee :: "int \<Rightarrow> int \<Rightarrow> affdb \<Rightarrow> rat aff_result" where
  "GetAccruedRebateFromInvitee inviter invitee ad0 =
     (let (fail, ad) = aff_call ad0
      in if fail then (Inl AffStorageError, ad)
         else (Inr (total (\<lambda>e. le_UserID e = inviter \<and> le_SourceUserID e = Some invitee \<and> le_Action e = ''accrue'')
                 (ad_ledger ad)), ad))"

definition matured :: "int \<Rightarrow> instant \<Rightarrow> ledger_entry \<Rightarrow> bool" where
  "matured uid now e \<longleftrightarrow> le_UserID e = uid \<and> (case le_FrozenUntil e of None \<Rightarrow> False | Some t \<Rightarrow> t \<le> now)"

definition thawFrozenQuotaTx :: "instant \<Rightarrow> int \<Rightarrow> affdb \<Rightarrow> rat aff_result" where
  "thawFrozenQuotaTx now uid ad0 =
     (let (fail, ad) = aff_call ad0;
          thawed = total (matured uid now) (ad_ledger ad);
          ad' = ad\<lparr>ad_ledger := map (\<lambda>e. if matured uid now e then e\<lparr>le_FrozenUntil := None\<rparr> else e) (ad_ledger ad)\<rparr>
      in if fail then (Inl AffStorageError, ad)
         else if thawed \<le> 0 then (Inr 0, ad')
         else and_then (aff_update uid (\<lambda>a. a\<lparr>af_Quota := af_Quota a + thawed,
                  af_FrozenQuota := max (af_FrozenQuota a - thawed) 0\<rparr>) ad') (\<lambda>_ ad. (Inr thawed, ad)))"

definition ThawFrozenQuota :: "instant \<Rightarrow> int \<Rightarrow> affdb \<Rightarrow> rat aff_result" where
  "ThawFrozenQuota now uid = aff_tx (thawFrozenQuotaTx now uid)"

text \<open>Taking the quota: the amount if it is positive.\<close>

definition claim_quota :: "int \<Rightarrow> affdb \<Rightarrow> rat aff_result" where
  "claim_quota uid ad0 =
     (let (fail, ad) = aff_call ad0
      in if fail then (Inl AffStorageError, ad)
         else case find (\<lambda>a. af_UserID a = uid \<and> af_Quota a > 0) (ad_rows ad) of
                None \<Rightarrow> (Inl AffQuotaEmpty, ad)
              | Some a \<Rightarrow> (Inr (af_Quota a),
                  ad\<lparr>ad_rows := map (\<lambda>a. if af_UserID a = uid then a\<lparr>af_Quota := 0\<rparr> else a) (ad_rows ad)\<rparr>))"

definition credit_user :: "int \<Rightarrow> rat \<Rightarrow> affdb \<Rightarrow> unit aff_result" where
  "credit_user uid amount ad =
     (case user_update uid (\<lambda>u. u\<lparr>usr_Balance := usr_Balance u + Fin amount,
             usr_TotalRecharged := usr_TotalRecharged u + Fin amount\<rparr>) (ad_shop ad) of
        (Inl e, sh) \<Rightarrow> (Inl (if e = UserNotFound then AffUserNotFound else AffStorageError), ad\<lparr>ad_shop := sh\<rparr>)
      | (Inr _, sh) \<Rightarrow> (Inr (), ad\<lparr>ad_shop := sh\<rparr>))"

definition queryUserBalance :: "int \<Rightarrow> affdb \<Rightarrow> float64 aff_result" where
  "queryUserBalance uid ad =
     (case user_GetByID uid (ad_shop ad) of
        (Inl e, sh) \<Rightarrow> (Inl (if e = UserNotFound then AffUserNotFound else AffStorageError), ad\<lparr>ad_shop := sh\<rparr>)
      | (Inr u, sh) \<Rightarrow> (Inr (usr_Balance u), ad\<lparr>ad_shop := sh\<rparr>))"

definition TransferQuotaToBalance :: "(nat \<Rightarrow> string) \<Rightarrow> instant \<Rightarrow> int \<Rightarrow> affdb \<Rightarrow> (rat \<times> float64) aff_result" where
  "TransferQuotaToBalance gen now uid = aff_tx (\<lambda>ad.
     and_then (ensureUserAffiliate True gen now uid ad) (\<lambda>_ ad.
     and_then (thawFrozenQuotaTx now uid ad) (\<lambda>_ ad.
     and_then (claim_quota uid ad) (\<lambda>transferred ad.
     and_then (credit_user uid transferred ad) (\<lambda>_ ad.
     and_then (queryUserBalance uid ad) (\<lambda>balance ad.
     and_then (ledger_insert \<lparr>le_UserID = uid, le_Action = ''transfer'', le_Amount = transferred,
         le_SourceUserID = None, le_FrozenUntil = None\<rparr> ad) (\<lambda>_ ad.
     (Inr (transferred, balance), ad))))))))"

definition BindInviter :: "(nat \<Rightarrow> string) \<Rightarrow> instant \<Rightarrow> int \<Rightarrow> int \<Rightarrow> affdb \<Rightarrow> bool aff_result" where
  "BindInviter gen now uid inviter = aff_tx (\<lambda>ad.
     and_then (ensureUserAffiliate True gen now uid ad) (\<lambda>_ ad.
     and_then (ensureUserAffiliate True gen now inviter ad) (\<lambda>_ ad.
     let (fail, ad) = aff_call ad; free = (\<lambda>a. af_UserID a = uid \<and> af_InviterID a = None)
     in if fail then (Inl AffStorageError, ad)
        else if \<not> list_ex free (ad_rows ad) then (Inr False, ad)
        else and_then (aff_update inviter (\<lambda>a. a\<lparr>af_Count := af_Count a + 1\<rparr>)
               (ad\<lparr>ad_rows := map (\<lambda>a. if free a then a\<lparr>af_InviterID := Some inviter\<rparr> else a) (ad_rows ad)\<rparr>)) (\<lambda>_ ad.
             (Inr True, ad)))))"

definition UpdateUserAffCode :: "(nat \<Rightarrow> string) \<Rightarrow> instant \<Rightarrow> int \<Rightarrow> string \<Rightarrow> affdb \<Rightarrow> unit aff_result" where
  "UpdateUserAffCode gen now uid newCode ad0 =
     (let code = ToUpper (TrimSpace newCode)
      in if uid \<le> 0 then (Inl AffUserNotFound, ad0)
         else if code = '''' then (Inl AffCodeInvalid, ad0)
         else aff_tx (\<lambda>ad.
           and_then (ensureUserAffiliate True gen now uid ad) (\<lambda>_ ad.
           if list_ex (\<lambda>a. af_AffCode a = code \<and> af_UserID a \<noteq> uid) (ad_rows ad)
           then let (fail, ad) = aff_call ad in (Inl (if fail then AffStorageError else AffCodeTaken), ad)
           else and_then (aff_update uid (\<lambda>a. a\<lparr>af_AffCode := code, af_AffCodeCustom := True\<rparr>) ad) (\<lambda>hit ad.
             (if hit then Inr () else Inl AffUserNotFound, ad)))) ad0)"

definition SetUserRebateRate :: "(nat \<Rightarrow> string) \<Rightarrow> instant \<Rightarrow> int \<Rightarrow> float64 option \<Rightarrow> affdb \<Rightarrow> unit aff_result" where
  "SetUserRebateRate gen now uid rate ad0 =
     (if uid \<le> 0 then (Inl AffUserNotFound, ad0)
      else aff_tx (\<lambda>ad.
        and_then (ensureUserAffiliate True gen now uid ad) (\<lambda>_ ad.
        and_then (aff_update uid (\<lambda>a. a\<lparr>af_RebateRatePercent := rate\<rparr>) ad) (\<lambda>hit ad.
        (if hit then Inr () else Inl AffUserNotFound, ad)))) ad0)"

section \<open>The service\<close>

definition affiliate_code_char :: "char \<Rightarrow> bool" where
  "affiliate_code_char c \<longleftrightarrow>
     (let n = of_char c :: nat in 65 \<le> n \<and> n \<le> 90 \<or> 48 \<le> n \<and> n \<le> 57 \<or> n = 95 \<or> n = 45)"

definition isValidAffiliateCodeFormat :: "string \<Rightarrow> bool" where
  "isValidAffiliateCodeFormat code \<longleftrightarrow>
     4 \<le> length code \<and> length code \<le> 32 \<and> list_all affiliate_code_char code"

definition BindInviterByCode ::
    "aff_settings option \<Rightarrow> (nat \<Rightarrow> string) \<Rightarrow> instant \<Rightarrow> int \<Rightarrow> string \<Rightarrow> affdb \<Rightarrow> unit aff_result" where
  "BindInviterByCode st gen now uid rawCode ad0 =
     (let code = ToUpper (TrimSpace rawCode)
      in if code = '''' then (Inr (), ad0)
         else if \<not> IsAffiliateEnabled st then (Inr (), ad0)
         else if \<not> isValidAffiliateCodeFormat code then (Inl AffCodeInvalid, ad0)
         else and_then (ensureUserAffiliate False gen now uid ad0) (\<lambda>self ad.
           if af_InviterID self \<noteq> None then (Inr (), ad)
           else case queryAffiliateByCode code ad of
                  (Inl e, ad) \<Rightarrow> (Inl (if e = AffProfileNotFound then AffCodeInvalid else e), ad)
                | (Inr ia, ad) \<Rightarrow>
                    if af_UserID ia \<le> 0 \<or> af_UserID ia = uid then (Inl AffCodeInvalid, ad)
                    else and_then (BindInviter gen now uid (af_UserID ia) ad) (\<lambda>bound ad.
                      (if bound then Inr () else Inl AffAlreadyBound, ad))))"

text \<open>The rebate for a recharge; it runs in the transaction of the payment.\<close>

definition capped_rebate :: "aff_settings option \<Rightarrow> int \<Rightarrow> int \<Rightarrow> rat \<Rightarrow> affdb \<Rightarrow> rat aff_result" where
  "capped_rebate st inviter invitee rebate ad =
     (let limit = (case st of None \<Rightarrow> 0 | Some s \<Rightarrow> GetAffiliateRebatePerInviteeCap s)
      in if \<not> limit > 0 then (Inr rebate, ad)
         else and_then (GetAccruedRebateFromInvitee inviter invitee ad) (\<lambda>existing ad.
           (Inr (if limit \<le> existing then 0
                 else if rebate > limit - existing then roundTo (limit - existing) 8 else rebate), ad)))"

definition AccrueInviteRebate ::
    "aff_settings option \<Rightarrow> (nat \<Rightarrow> string) \<Rightarrow> instant \<Rightarrow> int \<Rightarrow> float64 \<Rightarrow> affdb \<Rightarrow> rat aff_result" where
  "AccrueInviteRebate st gen now invitee base ad0 =
     (case base of
        Fin b \<Rightarrow>
          if invitee \<le> 0 \<or> b \<le> 0 \<or> \<not> IsAffiliateEnabled st then (Inr 0, ad0)
          else and_then (ensureUserAffiliate True gen now invitee ad0) (\<lambda>ie ad.
            case af_InviterID ie of
              None \<Rightarrow> (Inr 0, ad)
            | Some inviter \<Rightarrow>
                if inviter \<le> 0 then (Inr 0, ad)
                else and_then (ensureUserAffiliate True gen now inviter ad) (\<lambda>ir ad.
                  let n = (case st of None \<Rightarrow> 0 | Some s \<Rightarrow> GetAffiliateRebateDurationDays s);
                      rebate = roundTo (b * (resolveRebateRatePercent st ir / 100)) 8;
                      freeze = (case st of None \<Rightarrow> 0 | Some s \<Rightarrow> GetAffiliateRebateFreezeHours s)
                  in if n > 0 \<and> AddDays (af_CreatedAt ie) n < now then (Inr 0, ad)
                     else if rebate \<le> 0 then (Inr 0, ad)
                     else and_then (capped_rebate st inviter invitee rebate ad) (\<lambda>amount ad.
                       if amount = 0 then (Inr 0, ad)
                       else and_then (AccrueQuota now inviter invitee amount freeze ad) (\<lambda>applied ad.
                         (Inr (if applied then amount else 0), ad)))))
      | _ \<Rightarrow> (Inr 0, ad0))"

definition validateExclusiveRate :: "float64 option \<Rightarrow> bool" where
  "validateExclusiveRate rate = (case rate of None \<Rightarrow> True | Some (Fin v) \<Rightarrow> 0 \<le> v \<and> v \<le> 100 | _ \<Rightarrow> False)"

definition AdminSetUserRebateRate :: "(nat \<Rightarrow> string) \<Rightarrow> instant \<Rightarrow> int \<Rightarrow> float64 option \<Rightarrow> affdb \<Rightarrow> unit aff_result" where
  "AdminSetUserRebateRate gen now uid rate ad =
     (if \<not> validateExclusiveRate rate then (Inl AffInvalidRate, ad) else SetUserRebateRate gen now uid rate ad)"

definition AdminUpdateUserAffCode :: "(nat \<Rightarrow> string) \<Rightarrow> instant \<Rightarrow> int \<Rightarrow> string \<Rightarrow> affdb \<Rightarrow> unit aff_result" where
  "AdminUpdateUserAffCode gen now uid rawCode ad =
     (let code = ToUpper (TrimSpace rawCode)
      in if \<not> isValidAffiliateCodeFormat code then (Inl AffCodeInvalid, ad) else UpdateUserAffCode gen now uid code ad)"

section \<open>Where the money is\<close>

definition of_user :: "int \<Rightarrow> string \<Rightarrow> ledger_entry \<Rightarrow> bool" where
  "of_user u action e \<longleftrightarrow> le_UserID e = u \<and> le_Action e = action"

definition frozen :: "ledger_entry \<Rightarrow> bool" where
  "frozen e \<longleftrightarrow> le_FrozenUntil e \<noteq> None"

text \<open>The accounts agree with the ledger: of what was accrued, some is frozen, some was transferred
  and the rest is available.\<close>

definition row_ok :: "ledger_entry list \<Rightarrow> Affiliate \<Rightarrow> bool" where
  "row_ok es a \<longleftrightarrow>
     af_HistoryQuota a = total (of_user (af_UserID a) ''accrue'') es \<and>
     af_FrozenQuota a = total (\<lambda>e. of_user (af_UserID a) ''accrue'' e \<and> frozen e) es \<and>
     af_Quota a + af_FrozenQuota a + total (of_user (af_UserID a) ''transfer'') es = af_HistoryQuota a"

definition entry_ok :: "Affiliate list \<Rightarrow> ledger_entry \<Rightarrow> bool" where
  "entry_ok rows e \<longleftrightarrow> 0 < le_Amount e \<and> le_Action e \<in> {''accrue'', ''transfer''} \<and>
     (le_Action e = ''transfer'' \<longrightarrow> \<not> frozen e) \<and> le_UserID e \<in> af_UserID ` set rows"

definition aff_inv :: "affdb \<Rightarrow> bool" where
  "aff_inv ad \<longleftrightarrow> distinct (map af_UserID (ad_rows ad)) \<and>
     (\<forall>a \<in> set (ad_rows ad). row_ok (ad_ledger ad) a \<and> 0 \<le> af_Quota a) \<and>
     (\<forall>e \<in> set (ad_ledger ad). entry_ok (ad_rows ad) e)"

lemma total_Nil [simp]: "total P [] = 0"
  by (simp add: total_def)

lemma total_append [simp]: "total P (es @ fs) = total P es + total P fs"
  by (simp add: total_def)

lemma total_single [simp]: "total P [e] = (if P e then le_Amount e else 0)"
  by (simp add: total_def)

lemma total_cong: "\<forall>e \<in> set es. P e = Q e \<Longrightarrow> total P es = total Q es"
  unfolding total_def by (rule arg_cong [where f = "\<lambda>xs. sum_list (map le_Amount xs)"]) (rule filter_cong; simp)

lemma total_none: "\<forall>e \<in> set es. \<not> P e \<Longrightarrow> total P es = 0"
  by (simp add: total_def)

lemma total_map: "(\<And>e. le_Amount (f e) = le_Amount e) \<Longrightarrow> total P (map f es) = total (\<lambda>e. P (f e)) es"
  by (induction es) (auto simp: total_def)

lemma total_split: "total P es = total (\<lambda>e. P e \<and> Q e) es + total (\<lambda>e. P e \<and> \<not> Q e) es"
  by (induction es) (auto simp: total_def)

lemma total_nonneg: "\<forall>e \<in> set es. 0 < le_Amount e \<Longrightarrow> 0 \<le> total P es"
  unfolding total_def by (rule sum_list_nonneg) (auto intro: less_imp_le)

lemma total_pos: "\<forall>e \<in> set es. 0 < le_Amount e \<Longrightarrow> e \<in> set es \<Longrightarrow> P e \<Longrightarrow> 0 < total P es"
proof -
  assume a: "\<forall>e \<in> set es. 0 < le_Amount e" "e \<in> set es" "P e"
  from split_list [OF a(2)] obtain xs ys where es: "es = xs @ e # ys" by blast
  have "0 \<le> total P xs" "0 \<le> total P ys" using a(1) es by (auto intro: total_nonneg)
  moreover have "total P es = total P xs + le_Amount e + total P ys" using a(3) by (simp add: es total_def)
  ultimately show ?thesis using a(1,2) by fastforce
qed

lemma row_unique_aff: "aff_inv ad \<Longrightarrow> a \<in> set (ad_rows ad) \<Longrightarrow> b \<in> set (ad_rows ad) \<Longrightarrow> af_UserID a = af_UserID b \<Longrightarrow> a = b"
  by (auto simp: aff_inv_def distinct_map inj_on_def)

text \<open>What storage calls leave alone.\<close>

definition same_aff :: "affdb \<Rightarrow> affdb \<Rightarrow> bool" where
  "same_aff ad ad' \<longleftrightarrow> ad_rows ad' = ad_rows ad \<and> ad_ledger ad' = ad_ledger ad \<and> sh_users (ad_shop ad') = sh_users (ad_shop ad)"

lemma same_aff_refl [simp]: "same_aff ad ad"
  by (simp add: same_aff_def)

lemma same_aff_trans [trans]: "same_aff a b \<Longrightarrow> same_aff b c \<Longrightarrow> same_aff a c"
  by (simp add: same_aff_def)

lemma same_aff_inv: "same_aff ad ad' \<Longrightarrow> aff_inv ad' = aff_inv ad"
  by (simp add: same_aff_def aff_inv_def)

lemma aff_call_same: "aff_call ad = (b, ad') \<Longrightarrow> same_aff ad ad'"
  using shop_call_snd [of "ad_shop ad"]
  by (cases "shop_call (ad_shop ad)") (auto simp: aff_call_def same_aff_def same_shop_def)

lemma query_aff_same: "query_aff P ad = (r, ad') \<Longrightarrow> same_aff ad ad' \<and> (\<forall>a. r = Inr a \<longrightarrow> find P (ad_rows ad) = Some a)"
  using aff_call_same [of ad "fst (aff_call ad)" "snd (aff_call ad)"]
  by (cases "aff_call ad") (auto simp: query_aff_def same_aff_def split: if_splits option.splits)

text \<open>The balances, against what they were before any transfer.\<close>

definition aff_good :: "(int \<Rightarrow> rat) \<Rightarrow> affdb \<Rightarrow> bool" where
  "aff_good base ad \<longleftrightarrow> aff_inv ad \<and>
     (\<forall>u x. sh_users (ad_shop ad) u = Some x \<longrightarrow> usr_Balance x = Fin (base u + total (of_user u ''transfer'') (ad_ledger ad)))"

lemma same_aff_good: "same_aff ad ad' \<Longrightarrow> aff_good base ad' = aff_good base ad"
  using same_aff_inv [of ad ad'] by (simp add: aff_good_def same_aff_def)

lemma insert_affiliate_good:
  assumes "insert_affiliate uid code now ad = (r, ad')" and "aff_good base ad"
  shows "aff_good base ad'"
proof -
  obtain b s where s: "aff_call ad = (b, s)" by fastforce
  have g: "aff_good base s" using assms(2) same_aff_good [OF aff_call_same [OF s]] by simp
  show ?thesis
  proof (cases "ad' = s")
    case True
    with g show ?thesis by simp
  next
    case False
    with assms(1) s have "ad' = s\<lparr>ad_rows := ad_rows s @ [new_affiliate uid code now]\<rparr>" and n: "uid \<notin> af_UserID ` set (ad_rows s)"
      by (auto simp: insert_affiliate_def list_ex_iff split: if_splits)
    moreover have "\<forall>e \<in> set (ad_ledger s). le_UserID e \<noteq> uid"
      using g n by (auto simp: aff_good_def aff_inv_def entry_ok_def)
    then have "row_ok (ad_ledger s) (new_affiliate uid code now)"
      by (auto simp: row_ok_def new_affiliate_def of_user_def intro!: total_none [symmetric] total_none)
    ultimately show ?thesis using g
      by (auto simp: aff_good_def aff_inv_def entry_ok_def) (auto simp: new_affiliate_def)
  qed
qed

lemma insert_attempts_good:
  "insert_attempts in_tx gen uid now n ad = (r, ad') \<Longrightarrow> aff_good base ad \<Longrightarrow> aff_good base ad'"
proof (induction n arbitrary: ad)
  case 0
  then show ?case by simp
next
  case (Suc n)
  obtain q s where s: "insert_affiliate uid (gen n) now ad = (q, s)" by fastforce
  have "aff_good base s" by (rule insert_affiliate_good [OF s Suc.prems(2)])
  with Suc s show ?case by (auto split: sum.splits if_splits)
qed

lemma ensure_good:
  assumes "ensureUserAffiliate in_tx gen now uid ad = (r, ad')" and "aff_good base ad"
  shows "aff_good base ad' \<and> (\<forall>a. r = Inr a \<longrightarrow> a \<in> set (ad_rows ad') \<and> af_UserID a = uid)"
proof -
  obtain r1 s1 where 1: "queryAffiliateByUserID uid ad = (r1, s1)" by fastforce
  obtain r2 s2 where 2: "insert_attempts in_tx gen uid now 12 s1 = (r2, s2)" by fastforce
  obtain r3 s3 where 3: "queryAffiliateByUserID uid s2 = (r3, s3)" by fastforce
  note q1 = query_aff_same [OF 1 [unfolded queryAffiliateByUserID_def]]
  note q3 = query_aff_same [OF 3 [unfolded queryAffiliateByUserID_def]]
  have g1: "aff_good base s1" using assms(2) q1 same_aff_good by blast
  have g2: "aff_good base s2" by (rule insert_attempts_good [OF 2 g1])
  have g3: "aff_good base s3" using g2 q3 same_aff_good by blast
  have "r = r1 \<and> ad' = s1 \<or> isl r \<and> ad' \<in> {ad, s1, s2} \<or> r = r3 \<and> ad' = s3"
    using assms(1) 1 2 3 by (auto simp: ensureUserAffiliate_def and_then_def split: if_splits sum.splits)
  with assms(2) g1 g2 g3 q1 q3 show ?thesis by (auto simp: same_aff_def dest!: find_Some_mem)
qed

text \<open>Updates of the rows keep the invariant if the new rows agree with the new ledger.\<close>

lemma aff_inv_map:
  assumes "distinct (map af_UserID rows)" and "\<And>a. af_UserID (g a) = af_UserID a"
    and "\<forall>a \<in> set rows. row_ok es (g a) \<and> 0 \<le> af_Quota (g a)" and "\<forall>e \<in> set es. entry_ok rows e"
    and "ad_rows ad' = map g rows" and "ad_ledger ad' = es"
  shows "aff_inv ad'"
proof -
  have "af_UserID \<circ> g = af_UserID" using assms(2) by auto
  moreover have "af_UserID ` g ` set rows = af_UserID ` set rows" using assms(2) by (simp add: image_image)
  ultimately show ?thesis using assms unfolding aff_inv_def entry_ok_def by simp
qed

text \<open>An update that leaves the money alone.\<close>

lemma aff_update_good:
  assumes "aff_update uid f ad = (r, ad')" and "aff_good base ad"
    and "\<And>a. af_UserID (f a) = af_UserID a \<and> af_Quota (f a) = af_Quota a \<and> af_FrozenQuota (f a) = af_FrozenQuota a \<and>
      af_HistoryQuota (f a) = af_HistoryQuota a"
  shows "aff_good base ad'"
proof -
  obtain b s where s: "aff_call ad = (b, s)" by fastforce
  have g: "aff_good base s" using assms(2) same_aff_good [OF aff_call_same [OF s]] by simp
  show ?thesis
  proof (cases b)
    case True
    with assms(1) s g show ?thesis by (simp add: aff_update_def)
  next
    case False
    with assms(1) s have e: "ad' = s\<lparr>ad_rows := map (\<lambda>a. if af_UserID a = uid then f a else a) (ad_rows s)\<rparr>"
      by (auto simp: aff_update_def)
    have "aff_inv ad'"
      by (rule aff_inv_map [of "ad_rows s" "\<lambda>a. if af_UserID a = uid then f a else a" "ad_ledger s"])
        (use g e assms(3) in \<open>auto simp: aff_good_def aff_inv_def row_ok_def\<close>)
    with g e show ?thesis by (simp add: aff_good_def)
  qed
qed

lemma aff_tx_good:
  assumes "aff_tx body ad = (r, ad')" and "aff_good base ad"
    and "\<And>s a s'. aff_good base s \<Longrightarrow> body s = (Inr a, s') \<Longrightarrow> aff_good base s'"
  shows "aff_good base ad'"
proof (cases rule: run_tx_result [OF assms(1) [unfolded aff_tx_def]])
  case (1 e)
  then show ?thesis using assms(2) same_aff_good aff_call_same by blast
next
  case (2 e s s')
  then have "aff_good base s" using assms(2) same_aff_good aff_call_same by blast
  moreover have "same_aff s ad'" using 2 by (simp add: same_aff_def faults_from_def)
  ultimately show ?thesis using same_aff_good by blast
next
  case (3 a s s')
  then show ?thesis using assms(2,3) same_aff_good aff_call_same by blast
qed

lemma aff_update_Inr:
  assumes "aff_update uid f ad = (Inr hit, ad')"
  shows "ad_rows ad' = map (\<lambda>a. if af_UserID a = uid then f a else a) (ad_rows ad) \<and> ad_ledger ad' = ad_ledger ad \<and>
    sh_users (ad_shop ad') = sh_users (ad_shop ad) \<and> hit = list_ex (\<lambda>a. af_UserID a = uid) (ad_rows ad)"
  using assms aff_call_same [of ad "fst (aff_call ad)" "snd (aff_call ad)"]
  by (cases "aff_call ad") (auto simp: aff_update_def same_aff_def split: if_splits)

lemma ledger_insert_Inr:
  assumes "ledger_insert e ad = (Inr x, ad')"
  shows "ad_rows ad' = ad_rows ad \<and> ad_ledger ad' = ad_ledger ad @ [e] \<and> sh_users (ad_shop ad') = sh_users (ad_shop ad)"
  using assms aff_call_same [of ad "fst (aff_call ad)" "snd (aff_call ad)"]
  by (cases "aff_call ad") (auto simp: ledger_insert_def same_aff_def split: if_splits)

lemma AccrueQuota_good:
  assumes a: "AccrueQuota now inviter invitee amount freeze ad = (Inr applied, ad')" and g: "aff_good base ad"
  shows "aff_good base ad' \<and> total (of_user u ''accrue'') (ad_ledger ad') =
    total (of_user u ''accrue'') (ad_ledger ad) + (if applied \<and> u = inviter then amount else 0) \<and> (applied \<longrightarrow> 0 < amount)"
proof (cases "amount \<le> 0")
  case True
  with a g show ?thesis by (simp add: AccrueQuota_def)
next
  case False
  define f where "f a = (if freeze > 0
      then a\<lparr>af_FrozenQuota := af_FrozenQuota a + amount, af_HistoryQuota := af_HistoryQuota a + amount\<rparr>
      else a\<lparr>af_Quota := af_Quota a + amount, af_HistoryQuota := af_HistoryQuota a + amount\<rparr>)" for a :: Affiliate
  define e where "e = \<lparr>le_UserID = inviter, le_Action = ''accrue'', le_Amount = amount, le_SourceUserID = Some invitee,
      le_FrozenUntil = (if freeze > 0 then Some (now + hours freeze) else None)\<rparr>"
  have "and_then (aff_update inviter f ad) (\<lambda>hit s. if \<not> hit then (Inr False, s)
      else and_then (ledger_insert e s) (\<lambda>_ ad. (Inr True, ad))) = (Inr applied, ad')"
    using a False unfolding AccrueQuota_def f_def [abs_def] e_def by simp
  then obtain hit s where s: "aff_update inviter f ad = (Inr hit, s)"
    and r: "(if \<not> hit then (Inr False, s) else and_then (ledger_insert e s) (\<lambda>_ ad. (Inr True, ad))) = (Inr applied, ad')"
    by (rule and_then_InrE)
  note up = aff_update_Inr [OF s]
  show ?thesis
  proof (cases hit)
    case False
    then have "map (\<lambda>a. if af_UserID a = inviter then f a else a) (ad_rows ad) = ad_rows ad"
      using up by (intro map_idI) (auto simp: list_ex_iff)
    then have "same_aff ad s" using up by (simp add: same_aff_def)
    moreover from False r have "\<not> applied" "ad' = s" by auto
    ultimately show ?thesis using g same_aff_good [of ad s base] by (simp add: same_aff_def)
  next
    case True
    with r obtain t where t: "ledger_insert e s = (Inr t, ad')" "applied" by (auto elim!: and_then_InrE)
    have rows: "ad_rows ad' = map (\<lambda>a. if af_UserID a = inviter then f a else a) (ad_rows ad)"
      and led: "ad_ledger ad' = ad_ledger ad @ [e]" and us: "sh_users (ad_shop ad') = sh_users (ad_shop ad)"
      and hit: "inviter \<in> af_UserID ` set (ad_rows ad)"
      using True up ledger_insert_Inr [OF t(1)] by (auto simp: list_ex_iff)
    have "aff_inv ad'"
      by (rule aff_inv_map [OF _ _ _ _ rows led])
        (use g False hit in \<open>auto simp: aff_good_def aff_inv_def row_ok_def entry_ok_def f_def e_def of_user_def frozen_def\<close>)
    with g led us t False show ?thesis by (auto simp: aff_good_def e_def of_user_def)
  qed
qed

definition unfreeze :: "int \<Rightarrow> instant \<Rightarrow> ledger_entry \<Rightarrow> ledger_entry" where
  "unfreeze uid now e = (if matured uid now e then e\<lparr>le_FrozenUntil := None\<rparr> else e)"

lemma unfreeze_simps [simp]: "le_Amount (unfreeze uid now e) = le_Amount e" "le_UserID (unfreeze uid now e) = le_UserID e"
  "le_Action (unfreeze uid now e) = le_Action e" "of_user u a (unfreeze uid now e) = of_user u a e"
  "frozen (unfreeze uid now e) \<longleftrightarrow> frozen e \<and> \<not> matured uid now e"
  by (auto simp: unfreeze_def of_user_def frozen_def)

lemma total_unfreeze [simp]:
  "total (of_user u a) (map (unfreeze uid now) es) = total (of_user u a) es"
  "total (\<lambda>e. of_user u a e \<and> frozen e) (map (unfreeze uid now) es) = total (\<lambda>e. of_user u a e \<and> frozen e \<and> \<not> matured uid now e) es"
  by (simp_all add: total_map)

lemma thaw_row:
  assumes "\<forall>e \<in> set es. entry_ok rows e" and "row_ok es a"
  shows "row_ok (map (unfreeze uid now) es) (if af_UserID a = uid
    then a\<lparr>af_Quota := af_Quota a + total (matured uid now) es, af_FrozenQuota := max (af_FrozenQuota a - total (matured uid now) es) 0\<rparr>
    else a)"
proof (cases "af_UserID a = uid")
  case True
  let ?F = "\<lambda>e. of_user uid ''accrue'' e \<and> frozen e"
  have m: "total (matured uid now) es = total (\<lambda>e. ?F e \<and> matured uid now e) es"
    using assms(1) by (intro total_cong) (auto simp: entry_ok_def of_user_def matured_def frozen_def split: option.splits)
  have "total ?F es = total (matured uid now) es + total (\<lambda>e. ?F e \<and> \<not> matured uid now e) es"
    unfolding m by (rule total_split)
  moreover have "0 \<le> total (\<lambda>e. ?F e \<and> \<not> matured uid now e) es"
    using assms(1) by (intro total_nonneg) (simp add: entry_ok_def)
  ultimately show ?thesis using assms(2) True by (auto simp: row_ok_def conj_assoc)
next
  case False
  have "total (\<lambda>e. of_user (af_UserID a) ''accrue'' e \<and> frozen e \<and> \<not> matured uid now e) es
      = total (\<lambda>e. of_user (af_UserID a) ''accrue'' e \<and> frozen e) es"
    using False by (intro total_cong) (auto simp: of_user_def matured_def)
  with False assms(2) show ?thesis by (simp add: row_ok_def)
qed

lemma thaw_good:
  assumes th: "thawFrozenQuotaTx now uid ad = (Inr thawed, ad')" and g: "aff_good base ad"
  shows "aff_good base ad' \<and> total (of_user u a) (ad_ledger ad') = total (of_user u a) (ad_ledger ad)"
proof -
  obtain b s where s: "aff_call ad = (b, s)" by fastforce
  note same = aff_call_same [OF s]
  have gs: "aff_good base s" using g same_aff_good [OF same] by simp
  then have e: "\<forall>e \<in> set (ad_ledger s). entry_ok (ad_rows s) e" by (simp add: aff_good_def aff_inv_def)
  define s1 where "s1 = s\<lparr>ad_ledger := map (unfreeze uid now) (ad_ledger s)\<rparr>"
  define f where "f a = a\<lparr>af_Quota := af_Quota a + total (matured uid now) (ad_ledger s),
      af_FrozenQuota := max (af_FrozenQuota a - total (matured uid now) (ad_ledger s)) 0\<rparr>" for a :: Affiliate
  have eq: "(if total (matured uid now) (ad_ledger s) \<le> 0 then (Inr 0, s1)
      else and_then (aff_update uid f s1) (\<lambda>_ ad. (Inr (total (matured uid now) (ad_ledger s)), ad))) = (Inr thawed, ad')"
    using th s by (simp add: thawFrozenQuotaTx_def s1_def unfreeze_def [abs_def] f_def [abs_def] Let_def split: if_splits)
  show ?thesis
  proof (cases "total (matured uid now) (ad_ledger s) \<le> 0")
    case True
    then have "\<forall>e \<in> set (ad_ledger s). \<not> matured uid now e" using e total_pos by (fastforce simp: entry_ok_def)
    then have "map (unfreeze uid now) (ad_ledger s) = ad_ledger s" by (intro map_idI) (simp add: unfreeze_def)
    with True eq gs same show ?thesis by (auto simp: s1_def same_aff_def)
  next
    case False
    with eq obtain hit where up: "aff_update uid f s1 = (Inr hit, ad')" by (auto elim!: and_then_InrE)
    note u = aff_update_Inr [OF up]
    have "aff_inv ad'"
    proof (rule aff_inv_map [of "ad_rows s" "\<lambda>a. if af_UserID a = uid then f a else a" "ad_ledger ad'"])
      show "\<forall>a \<in> set (ad_rows s). row_ok (ad_ledger ad') (if af_UserID a = uid then f a else a) \<and>
          0 \<le> af_Quota (if af_UserID a = uid then f a else a)"
      proof
        fix a
        assume "a \<in> set (ad_rows s)"
        then have "row_ok (ad_ledger s) a" "0 \<le> af_Quota a" using gs by (simp_all add: aff_good_def aff_inv_def)
        with thaw_row [OF e this(1), of uid now] u False
        show "row_ok (ad_ledger ad') (if af_UserID a = uid then f a else a) \<and> 0 \<le> af_Quota (if af_UserID a = uid then f a else a)"
          by (cases "af_UserID a = uid") (simp_all add: s1_def f_def)
      qed
      show "\<forall>e \<in> set (ad_ledger ad'). entry_ok (ad_rows s) e"
        using e u by (auto simp: s1_def entry_ok_def)
    qed (use gs u in \<open>auto simp: s1_def f_def aff_good_def aff_inv_def\<close>)
    with u gs same show ?thesis by (simp add: aff_good_def s1_def same_aff_def)
  qed
qed

lemma claim_quota_Inr:
  assumes "claim_quota uid ad = (Inr amount, ad')" and "aff_inv ad"
  shows "0 < amount \<and> ad_ledger ad' = ad_ledger ad \<and> sh_users (ad_shop ad') = sh_users (ad_shop ad) \<and>
    ad_rows ad' = map (\<lambda>a. if af_UserID a = uid then a\<lparr>af_Quota := 0\<rparr> else a) (ad_rows ad) \<and>
    (\<exists>a \<in> set (ad_rows ad). af_UserID a = uid) \<and> (\<forall>a \<in> set (ad_rows ad). af_UserID a = uid \<longrightarrow> af_Quota a = amount)"
proof -
  obtain b s where s: "aff_call ad = (b, s)" by fastforce
  note same = aff_call_same [OF s, unfolded same_aff_def]
  from assms(1) s obtain a where a: "find (\<lambda>a. af_UserID a = uid \<and> af_Quota a > 0) (ad_rows s) = Some a" "amount = af_Quota a"
      "ad' = s\<lparr>ad_rows := map (\<lambda>a. if af_UserID a = uid then a\<lparr>af_Quota := 0\<rparr> else a) (ad_rows s)\<rparr>"
    by (auto simp: claim_quota_def split: if_splits option.splits)
  from find_Some_mem [OF a(1)] same have m: "a \<in> set (ad_rows ad)" "af_UserID a = uid" "0 < af_Quota a" by simp_all
  have "\<forall>c \<in> set (ad_rows ad). af_UserID c = uid \<longrightarrow> af_Quota c = amount"
  proof (intro ballI impI)
    fix c
    assume c: "c \<in> set (ad_rows ad)" "af_UserID c = uid"
    then have "c = a" by (intro row_unique_aff [OF assms(2) c(1) m(1)]) (simp add: m(2))
    with a(2) show "af_Quota c = amount" by simp
  qed
  moreover have "\<exists>a \<in> set (ad_rows ad). af_UserID a = uid" using m by blast
  ultimately show ?thesis using m(3) by (simp add: a(2,3) same)
qed

lemma credit_user_Inr:
  assumes "credit_user uid amount ad = (Inr x, ad')"
  shows "ad_rows ad' = ad_rows ad \<and> ad_ledger ad' = ad_ledger ad \<and> (\<exists>u. sh_users (ad_shop ad) uid = Some u \<and>
    sh_users (ad_shop ad') = (sh_users (ad_shop ad))(uid \<mapsto> u\<lparr>usr_Balance := usr_Balance u + Fin amount,
       usr_TotalRecharged := usr_TotalRecharged u + Fin amount\<rparr>))"
proof -
  obtain r sh where u: "user_update uid (\<lambda>u. u\<lparr>usr_Balance := usr_Balance u + Fin amount,
      usr_TotalRecharged := usr_TotalRecharged u + Fin amount\<rparr>) (ad_shop ad) = (r, sh)" by fastforce
  with assms have "r = Inr ()" "ad' = ad\<lparr>ad_shop := sh\<rparr>" by (cases r; simp add: credit_user_def)+
  with user_update_result [OF u] show ?thesis by auto
qed

lemma queryUserBalance_same: "queryUserBalance uid ad = (r, ad') \<Longrightarrow> same_aff ad ad'"
  by (cases "user_GetByID uid (ad_shop ad)")
    (auto simp: queryUserBalance_def same_aff_def same_shop_def dest!: user_GetByID_same split: sum.splits)

lemma transfer_body_good:
  assumes g: "aff_good base ad" and c: "claim_quota uid ad = (Inr amount, s1)" and d: "credit_user uid amount s1 = (Inr x, s2)"
    and q: "queryUserBalance uid s2 = (Inr balance, s3)"
    and l: "ledger_insert \<lparr>le_UserID = uid, le_Action = ''transfer'', le_Amount = amount, le_SourceUserID = None,
      le_FrozenUntil = None\<rparr> s3 = (Inr y, ad')"
  shows "aff_good base ad'"
proof -
  let ?e = "\<lparr>le_UserID = uid, le_Action = ''transfer'', le_Amount = amount, le_SourceUserID = None, le_FrozenUntil = None\<rparr> :: ledger_entry"
  have inv: "aff_inv ad" using g by (simp add: aff_good_def)
  note c' = claim_quota_Inr [OF c inv]
  from credit_user_Inr [OF d] obtain u where d': "ad_rows s2 = ad_rows s1" "ad_ledger s2 = ad_ledger s1"
      "sh_users (ad_shop s1) uid = Some u" "sh_users (ad_shop s2) = (sh_users (ad_shop s1))(uid \<mapsto>
        u\<lparr>usr_Balance := usr_Balance u + Fin amount, usr_TotalRecharged := usr_TotalRecharged u + Fin amount\<rparr>)" by blast
  note q' = queryUserBalance_same [OF q, unfolded same_aff_def] and l' = ledger_insert_Inr [OF l]
  have rows: "ad_rows ad' = map (\<lambda>a. if af_UserID a = uid then a\<lparr>af_Quota := 0\<rparr> else a) (ad_rows ad)"
    and led: "ad_ledger ad' = ad_ledger ad @ [?e]"
    and us: "sh_users (ad_shop ad') = (sh_users (ad_shop ad))(uid \<mapsto> u\<lparr>usr_Balance := usr_Balance u + Fin amount,
        usr_TotalRecharged := usr_TotalRecharged u + Fin amount\<rparr>)" and u: "sh_users (ad_shop ad) uid = Some u"
    using c' d' q' l' by simp_all
  have "aff_inv ad'"
    by (rule aff_inv_map [OF _ _ _ _ rows led])
      (use inv c' in \<open>auto simp: aff_inv_def row_ok_def entry_ok_def of_user_def frozen_def\<close>)
  moreover have "usr_Balance w = Fin (base v + total (of_user v ''transfer'') (ad_ledger ad'))"
    if "sh_users (ad_shop ad') v = Some w" for v w
    using that g u by (auto simp: us led aff_good_def of_user_def split: if_splits)
  ultimately show ?thesis by (simp add: aff_good_def)
qed

lemma TransferQuotaToBalance_good:
  assumes "TransferQuotaToBalance gen now uid ad = (r, ad')" and "aff_good base ad"
  shows "aff_good base ad'"
proof (rule aff_tx_good [OF assms(1) [unfolded TransferQuotaToBalance_def] assms(2)])
  fix s a s'
  assume g: "aff_good base s"
  assume "and_then (ensureUserAffiliate True gen now uid s) (\<lambda>_ ad.
     and_then (thawFrozenQuotaTx now uid ad) (\<lambda>_ ad. and_then (claim_quota uid ad) (\<lambda>transferred ad.
     and_then (credit_user uid transferred ad) (\<lambda>_ ad. and_then (queryUserBalance uid ad) (\<lambda>balance ad.
     and_then (ledger_insert \<lparr>le_UserID = uid, le_Action = ''transfer'', le_Amount = transferred,
         le_SourceUserID = None, le_FrozenUntil = None\<rparr> ad) (\<lambda>_ ad. (Inr (transferred, balance), ad))))))) = (Inr a, s')"
  then show "aff_good base s'"
  proof (elim and_then_InrE)
    fix a1 s1 a2 s2 amount s3 x s4 balance s5 y s6
    assume "ensureUserAffiliate True gen now uid s = (Inr a1, s1)" and t: "thawFrozenQuotaTx now uid s1 = (Inr a2, s2)"
      and c: "claim_quota uid s2 = (Inr amount, s3)" and d: "credit_user uid amount s3 = (Inr x, s4)"
      and q: "queryUserBalance uid s4 = (Inr balance, s5)"
      and l: "ledger_insert \<lparr>le_UserID = uid, le_Action = ''transfer'', le_Amount = amount, le_SourceUserID = None,
        le_FrozenUntil = None\<rparr> s5 = (Inr y, s6)" and e: "(Inr (amount, balance), s6) = (Inr a, s')"
    then have "aff_good base s1" using ensure_good g by blast
    then have "aff_good base s2" using thaw_good [OF t] by blast
    from transfer_body_good [OF this c d q l] e show "aff_good base s'" by simp
  qed
qed

lemma ThawFrozenQuota_good: "ThawFrozenQuota now uid ad = (r, ad') \<Longrightarrow> aff_good base ad \<Longrightarrow> aff_good base ad'"
  unfolding ThawFrozenQuota_def by (erule aff_tx_good) (auto dest: thaw_good)

lemma SetUserRebateRate_good:
  assumes "SetUserRebateRate gen now uid rate ad = (r, ad')" and "aff_good base ad"
  shows "aff_good base ad'"
proof (cases "uid \<le> 0")
  case True
  with assms show ?thesis by (simp add: SetUserRebateRate_def)
next
  case False
  with assms(1) have tx: "aff_tx (\<lambda>ad. and_then (ensureUserAffiliate True gen now uid ad) (\<lambda>_ ad.
        and_then (aff_update uid (\<lambda>a. a\<lparr>af_RebateRatePercent := rate\<rparr>) ad) (\<lambda>hit ad.
        (if hit then Inr () else Inl AffUserNotFound, ad)))) ad = (r, ad')"
    by (simp add: SetUserRebateRate_def)
  show ?thesis
  proof (rule aff_tx_good [OF tx assms(2)], elim and_then_InrE)
    fix s a s' a1 s1 hit s2
    assume "aff_good base s" "ensureUserAffiliate True gen now uid s = (Inr a1, s1)"
      and u: "aff_update uid (\<lambda>a. a\<lparr>af_RebateRatePercent := rate\<rparr>) s1 = (Inr hit, s2)"
      and e: "(if hit then Inr () else Inl AffUserNotFound, s2) = (Inr a, s')"
    then have "aff_good base s1" by (blast dest: ensure_good)
    with aff_update_good [OF u] e show "aff_good base s'" by simp
  qed
qed

lemma UpdateUserAffCode_good:
  assumes "UpdateUserAffCode gen now uid newCode ad = (r, ad')" and "aff_good base ad"
  shows "aff_good base ad'"
proof (cases "uid \<le> 0 \<or> ToUpper (TrimSpace newCode) = ''''")
  case True
  with assms show ?thesis by (auto simp: UpdateUserAffCode_def Let_def split: if_splits)
next
  case False
  define code where "code = ToUpper (TrimSpace newCode)"
  from False assms(1) have tx: "aff_tx (\<lambda>ad. and_then (ensureUserAffiliate True gen now uid ad) (\<lambda>_ ad.
           if list_ex (\<lambda>a. af_AffCode a = code \<and> af_UserID a \<noteq> uid) (ad_rows ad)
           then let (fail, ad) = aff_call ad in (Inl (if fail then AffStorageError else AffCodeTaken), ad)
           else and_then (aff_update uid (\<lambda>a. a\<lparr>af_AffCode := code, af_AffCodeCustom := True\<rparr>) ad) (\<lambda>hit ad.
             (if hit then Inr () else Inl AffUserNotFound, ad)))) ad = (r, ad')"
    unfolding code_def by (simp add: UpdateUserAffCode_def Let_def)
  show ?thesis
  proof (rule aff_tx_good [OF tx assms(2)], elim and_then_InrE)
    fix s a s' a1 s1
    assume "aff_good base s" "ensureUserAffiliate True gen now uid s = (Inr a1, s1)"
      and e: "(if list_ex (\<lambda>a. af_AffCode a = code \<and> af_UserID a \<noteq> uid) (ad_rows s1)
           then let (fail, ad) = aff_call s1 in (Inl (if fail then AffStorageError else AffCodeTaken), ad)
           else and_then (aff_update uid (\<lambda>a. a\<lparr>af_AffCode := code, af_AffCodeCustom := True\<rparr>) s1) (\<lambda>hit ad.
             (if hit then Inr () else Inl AffUserNotFound, ad))) = (Inr a, s')"
    then have g: "aff_good base s1" by (blast dest: ensure_good)
    from e obtain hit where "aff_update uid (\<lambda>a. a\<lparr>af_AffCode := code, af_AffCodeCustom := True\<rparr>) s1 = (Inr hit, s')"
      by (auto elim!: and_then_InrE split: if_splits prod.splits)
    from aff_update_good [OF this g] show "aff_good base s'" by simp
  qed
qed

lemma BindInviter_good:
  assumes "BindInviter gen now uid inviter ad = (r, ad')" and "aff_good base ad"
  shows "aff_good base ad'"
proof (rule aff_tx_good [OF assms(1) [unfolded BindInviter_def] assms(2)], elim and_then_InrE)
  fix s a s' a1 s1 a2 s2
  let ?free = "\<lambda>a. af_UserID a = uid \<and> af_InviterID a = None"
  assume "aff_good base s" and i: "ensureUserAffiliate True gen now uid s = (Inr a1, s1)"
      "ensureUserAffiliate True gen now inviter s1 = (Inr a2, s2)"
    and e: "(let (fail, ad) = aff_call s2; free = ?free
     in if fail then (Inl AffStorageError, ad)
        else if \<not> list_ex free (ad_rows ad) then (Inr False, ad)
        else and_then (aff_update inviter (\<lambda>a. a\<lparr>af_Count := af_Count a + 1\<rparr>)
               (ad\<lparr>ad_rows := map (\<lambda>a. if free a then a\<lparr>af_InviterID := Some inviter\<rparr> else a) (ad_rows ad)\<rparr>)) (\<lambda>_ ad.
             (Inr True, ad))) = (Inr a, s')"
  then have g: "aff_good base s2" using ensure_good by blast
  obtain b t where t: "aff_call s2 = (b, t)" by fastforce
  have gt: "aff_good base t" using g same_aff_good [OF aff_call_same [OF t]] by simp
  define t' where "t' = t\<lparr>ad_rows := map (\<lambda>a. if ?free a then a\<lparr>af_InviterID := Some inviter\<rparr> else a) (ad_rows t)\<rparr>"
  have "aff_inv t'"
    by (rule aff_inv_map [of "ad_rows t" "\<lambda>a. if ?free a then a\<lparr>af_InviterID := Some inviter\<rparr> else a" "ad_ledger t"])
      (use gt in \<open>auto simp: t'_def aff_good_def aff_inv_def row_ok_def\<close>)
  then have gt': "aff_good base t'" using gt by (simp add: aff_good_def t'_def)
  from e t have "s' = t \<or> (\<exists>hit. aff_update inviter (\<lambda>a. a\<lparr>af_Count := af_Count a + 1\<rparr>) t' = (Inr hit, s'))"
    by (auto simp: t'_def Let_def elim!: and_then_InrE split: if_splits)
  then show "aff_good base s'"
  proof
    assume "\<exists>hit. aff_update inviter (\<lambda>a. a\<lparr>af_Count := af_Count a + 1\<rparr>) t' = (Inr hit, s')"
    then obtain hit where u: "aff_update inviter (\<lambda>a. a\<lparr>af_Count := af_Count a + 1\<rparr>) t' = (Inr hit, s')" by blast
    show ?thesis by (rule aff_update_good [OF u gt']) simp
  qed (simp add: gt)
qed

lemma BindInviterByCode_good:
  assumes "BindInviterByCode st gen now uid rawCode ad = (r, ad')" and "aff_good base ad"
  shows "aff_good base ad'"
proof -
  let ?code = "ToUpper (TrimSpace rawCode)"
  obtain r1 s1 where 1: "ensureUserAffiliate False gen now uid ad = (r1, s1)" by fastforce
  obtain r2 s2 where 2: "queryAffiliateByCode ?code s1 = (r2, s2)" by fastforce
  note g1 = ensure_good [OF 1 assms(2)]
  have g2: "aff_good base s2"
    using g1 query_aff_same [OF 2 [unfolded queryAffiliateByCode_def]] same_aff_good by blast
  have "ad' \<in> {ad, s1, s2} \<or> (\<exists>i b. BindInviter gen now uid i s2 = (b, ad'))"
    using assms(1) 1 2
    by (auto simp: BindInviterByCode_def Let_def and_then_def split: if_splits sum.splits prod.splits)
  with assms(2) g1 g2 show ?thesis by (auto intro: BindInviter_good)
qed

lemma capped_rebate_same: "capped_rebate st inviter invitee rebate ad = (r, ad') \<Longrightarrow> same_aff ad ad'"
  using aff_call_same [of ad "fst (aff_call ad)" "snd (aff_call ad)"]
  by (cases "aff_call ad")
    (auto simp: capped_rebate_def GetAccruedRebateFromInvitee_def Let_def and_then_def split: if_splits sum.splits)

text \<open>What an accrual did: nothing to the ledger, or the whole of \<open>AccrueQuota\<close>.\<close>

lemma insert_attempts_ledger: "insert_attempts in_tx gen uid now n ad = (r, ad') \<Longrightarrow> ad_ledger ad' = ad_ledger ad"
proof (induction n arbitrary: ad)
  case (Suc n)
  obtain b t where t: "aff_call ad = (b, t)" by fastforce
  obtain q s where s: "insert_affiliate uid (gen n) now ad = (q, s)" by fastforce
  have "ad_ledger s = ad_ledger ad"
    using s t aff_call_same [OF t] by (auto simp: insert_affiliate_def same_aff_def split: if_splits)
  with Suc s show ?case by (auto split: sum.splits if_splits)
qed simp

lemma ensure_ledger: "ensureUserAffiliate in_tx gen now uid ad = (r, ad') \<Longrightarrow> ad_ledger ad' = ad_ledger ad"
  by (auto simp: ensureUserAffiliate_def queryAffiliateByUserID_def and_then_def same_aff_def
      dest!: query_aff_same insert_attempts_ledger split: if_splits sum.splits prod.splits)

definition keeps_good :: "affdb \<Rightarrow> affdb \<Rightarrow> bool" where
  "keeps_good ad ad' \<longleftrightarrow> (\<forall>base. aff_good base ad \<longrightarrow> aff_good base ad')"

lemma keeps_good_refl [simp]: "keeps_good ad ad"
  by (simp add: keeps_good_def)

lemma AccrueInviteRebate_steps:
  assumes "AccrueInviteRebate st gen now invitee base ad = (Inr amount, ad')"
  obtains (none) "ad_ledger ad' = ad_ledger ad" "amount = 0" "keeps_good ad ad'"
  | (accrued) ie s1 inviter ir s rebate given freeze t applied where
      "ensureUserAffiliate True gen now invitee ad = (Inr ie, s1)" "af_InviterID ie = Some inviter"
      "ensureUserAffiliate True gen now inviter s1 = (Inr ir, s)" "capped_rebate st inviter invitee rebate s = (Inr given, t)"
      "AccrueQuota now inviter invitee given freeze t = (Inr applied, ad')" "amount = (if applied then given else 0)"
proof -
  have ?thesis if n: "\<not> (ad_ledger ad' = ad_ledger ad \<and> amount = 0 \<and> keeps_good ad ad')"
  proof -
    from assms n obtain b where b: "base = Fin b" "\<not> (invitee \<le> 0 \<or> b \<le> 0 \<or> \<not> IsAffiliateEnabled st)"
      by (auto simp: AccrueInviteRebate_def split: float64.splits if_splits)
    from assms b obtain ie s1 where 1: "ensureUserAffiliate True gen now invitee ad = (Inr ie, s1)"
      by (auto simp: AccrueInviteRebate_def elim!: and_then_InrE)
    have k1: "keeps_good ad s1" using ensure_good [OF 1] by (simp add: keeps_good_def)
    obtain inviter where i: "af_InviterID ie = Some inviter" "0 < inviter"
      using assms b 1 n k1 ensure_ledger [OF 1] by (auto simp: AccrueInviteRebate_def and_then_def split: option.splits if_splits)
    obtain q s where 2: "ensureUserAffiliate True gen now inviter s1 = (q, s)" by fastforce
    have k2: "keeps_good ad s" using ensure_good [OF 2] k1 by (auto simp: keeps_good_def)
    from 2 obtain ir where q: "q = Inr ir"
      using assms b 1 i by (cases q) (auto simp: AccrueInviteRebate_def and_then_def)
    define rebate where "rebate = roundTo (b * (resolveRebateRatePercent st ir / 100)) 8"
    define freeze where "freeze = (case st of None \<Rightarrow> 0 | Some s \<Rightarrow> GetAffiliateRebateFreezeHours s)"
    obtain g t where 3: "capped_rebate st inviter invitee rebate s = (g, t)" by fastforce
    have l: "ad_ledger s = ad_ledger ad" "ad_ledger t = ad_ledger s"
      using ensure_ledger [OF 1] ensure_ledger [OF 2] capped_rebate_same [OF 3] by (simp_all add: same_aff_def)
    have k3: "keeps_good ad t" using k2 same_aff_good [OF capped_rebate_same [OF 3]] by (auto simp: keeps_good_def)
    from assms b 1 i 2 q 3 n l k2 k3 have "\<exists>given applied. g = Inr given \<and>
        AccrueQuota now inviter invitee given freeze t = (Inr applied, ad') \<and> amount = (if applied then given else 0)"
      by (auto simp: AccrueInviteRebate_def rebate_def [symmetric] freeze_def [symmetric] Let_def and_then_def
          simp del: times_divide_eq_right split: if_splits sum.splits prod.splits)
    with accrued [OF 1 i(1) 2 [unfolded q]] 3 show ?thesis by blast
  qed
  then show ?thesis using none by blast
qed

lemma AccrueInviteRebate_good:
  assumes a: "AccrueInviteRebate st gen now invitee b ad = (Inr amount, ad')" and g: "aff_good base ad"
  shows "aff_good base ad'"
proof (cases rule: AccrueInviteRebate_steps [OF a])
  case 1
  with g show ?thesis by (simp add: keeps_good_def)
next
  case (2 ie s1 inviter ir s rebate given freeze t applied)
  from ensure_good [OF 2(1) g] have "aff_good base s1" by blast
  from ensure_good [OF 2(3) this] have "aff_good base s" by blast
  then have "aff_good base t" using same_aff_good [OF capped_rebate_same [OF 2(4)]] by blast
  from AccrueQuota_good [OF 2(5) this] show ?thesis by blast
qed

section \<open>Reachable states\<close>

text \<open>The operations, each with settings, generated codes and a time of its own; \<open>faults\<close> schedules the
  storage calls that fail, and \<open>recharged\<close> is what the rest of the program does to a balance.\<close>

definition with_faults :: "faults \<Rightarrow> affdb \<Rightarrow> affdb" where
  "with_faults fs ad = ad\<lparr>ad_shop := (ad_shop ad)\<lparr>sh_svc := (sh_svc (ad_shop ad))\<lparr>sv_db :=
     (sh_db (ad_shop ad))\<lparr>sd_faults := fs\<rparr>\<rparr>\<rparr>\<rparr>"

definition with_balance :: "int \<Rightarrow> User \<Rightarrow> rat \<Rightarrow> affdb \<Rightarrow> affdb" where
  "with_balance u x b ad = ad\<lparr>ad_shop := (ad_shop ad)\<lparr>sh_users := (sh_users (ad_shop ad))(u \<mapsto> x\<lparr>usr_Balance := Fin b\<rparr>)\<rparr>\<rparr>"

inductive aff_reach :: "(int \<Rightarrow> rat) \<Rightarrow> affdb \<Rightarrow> bool" where
  start: "\<lbrakk>ad_rows ad = []; ad_ledger ad = []; \<And>u x. sh_users (ad_shop ad) u = Some x \<Longrightarrow> usr_Balance x = Fin (base u)\<rbrakk> \<Longrightarrow>
     aff_reach base ad"
| faults: "aff_reach base ad \<Longrightarrow> aff_reach base (with_faults fs ad)"
| recharged: "aff_reach base ad \<Longrightarrow>
     aff_reach (base(u := b)) (with_balance u x (b + total (of_user u ''transfer'') (ad_ledger ad)) ad)"
| ensure: "aff_reach base ad \<Longrightarrow> ensureUserAffiliate False gen now uid ad = (r, ad') \<Longrightarrow> aff_reach base ad'"
| bind: "aff_reach base ad \<Longrightarrow> BindInviterByCode st gen now uid code ad = (r', ad') \<Longrightarrow> aff_reach base ad'"
| accrue: "aff_reach base ad \<Longrightarrow> aff_tx (AccrueInviteRebate st gen now invitee recharge) ad = (given, ad') \<Longrightarrow> aff_reach base ad'"
| thaw: "aff_reach base ad \<Longrightarrow> ThawFrozenQuota now uid ad = (thawed, ad') \<Longrightarrow> aff_reach base ad'"
| transfer: "aff_reach base ad \<Longrightarrow> TransferQuotaToBalance gen now uid ad = (moved, ad') \<Longrightarrow> aff_reach base ad'"
| set_code: "aff_reach base ad \<Longrightarrow> AdminUpdateUserAffCode gen now uid code ad = (r', ad') \<Longrightarrow> aff_reach base ad'"
| set_rate: "aff_reach base ad \<Longrightarrow> AdminSetUserRebateRate gen now uid rate ad = (r', ad') \<Longrightarrow> aff_reach base ad'"

lemma aff_reach_good: "aff_reach base ad \<Longrightarrow> aff_good base ad"
proof (induction rule: aff_reach.induct)
  case (start ad base)
  then show ?case by (simp add: aff_good_def aff_inv_def)
next
  case (faults base ad fs)
  have "same_aff ad (with_faults fs ad)" by (simp add: same_aff_def with_faults_def)
  with faults show ?case using same_aff_good by blast
next
  case (recharged base ad u b x)
  then show ?case by (auto simp: aff_good_def aff_inv_def with_balance_def)
next
  case (ensure base ad gen now uid r ad')
  then show ?case using ensure_good by blast
next
  case (bind base ad st gen now uid code r' ad')
  then show ?case using BindInviterByCode_good by blast
next
  case (accrue base ad st gen now invitee recharge given ad')
  show ?case by (rule aff_tx_good [OF accrue(2,3)]) (rule AccrueInviteRebate_good)
next
  case (thaw base ad now uid thawed ad')
  then show ?case using ThawFrozenQuota_good by blast
next
  case (transfer base ad gen now uid moved ad')
  then show ?case using TransferQuotaToBalance_good by blast
next
  case (set_code base ad gen now uid code r' ad')
  then show ?case using UpdateUserAffCode_good by (auto simp: AdminUpdateUserAffCode_def Let_def split: if_splits)
next
  case (set_rate base ad gen now uid rate r' ad')
  then show ?case using SetUserRebateRate_good by (auto simp: AdminSetUserRebateRate_def split: if_splits)
qed

section \<open>Properties\<close>

text \<open>C17. No money is lost or made: in every reachable state, whatever storage calls failed on the way,
  what an inviter accrued is what is available, what is frozen and what was transferred; nothing of it
  is negative; and the balance of the user is what the rest of the program made it and the transfers.\<close>

lemma rebates_conserved:
  assumes "aff_reach base ad" and "a \<in> set (ad_rows ad)"
  shows "af_HistoryQuota a = total (of_user (af_UserID a) ''accrue'') (ad_ledger ad) \<and>
    af_Quota a + af_FrozenQuota a + total (of_user (af_UserID a) ''transfer'') (ad_ledger ad) = af_HistoryQuota a \<and>
    0 \<le> af_Quota a \<and> 0 \<le> af_FrozenQuota a \<and>
    map_option usr_Balance (sh_users (ad_shop ad) (af_UserID a)) \<in>
      {None, Some (Fin (base (af_UserID a) + total (of_user (af_UserID a) ''transfer'') (ad_ledger ad)))}"
proof -
  have g: "aff_good base ad" by (rule aff_reach_good [OF assms(1)])
  then have "row_ok (ad_ledger ad) a" "0 \<le> af_Quota a" "\<forall>e \<in> set (ad_ledger ad). 0 < le_Amount e"
    using assms(2) by (auto simp: aff_good_def aff_inv_def entry_ok_def)
  with g total_nonneg show ?thesis
    by (cases "sh_users (ad_shop ad) (af_UserID a)") (auto simp: row_ok_def aff_good_def)
qed

lemma AccrueQuota_ledger:
  assumes "AccrueQuota now inviter invitee amount freeze ad = (Inr applied, ad')"
  shows "if applied then \<exists>t. ad_ledger ad' = ad_ledger ad @ [\<lparr>le_UserID = inviter, le_Action = ''accrue'',
      le_Amount = amount, le_SourceUserID = Some invitee, le_FrozenUntil = t\<rparr>]
    else ad_ledger ad' = ad_ledger ad"
  using assms by (auto simp: AccrueQuota_def dest!: aff_update_Inr ledger_insert_Inr elim!: and_then_InrE split: if_splits)

definition accrued_from :: "int \<Rightarrow> int \<Rightarrow> affdb \<Rightarrow> rat" where
  "accrued_from inviter invitee ad =
     total (\<lambda>e. le_UserID e = inviter \<and> le_SourceUserID e = Some invitee \<and> le_Action e = ''accrue'') (ad_ledger ad)"

lemma capped_rebate_le:
  assumes "capped_rebate (Some st) inviter invitee rebate ad = (Inr given, ad')" and "0 < GetAffiliateRebatePerInviteeCap st"
  shows "given = 0 \<or> given + accrued_from inviter invitee ad \<le> GetAffiliateRebatePerInviteeCap st + 1 / (2 * 10 ^ 8)"
proof -
  obtain b s where s: "aff_call ad = (b, s)" by fastforce
  let ?cap = "GetAffiliateRebatePerInviteeCap st"
  let ?old = "accrued_from inviter invitee ad"
  have "given = (if ?cap \<le> ?old then 0 else if rebate > ?cap - ?old then roundTo (?cap - ?old) 8 else rebate)"
    using assms s aff_call_same [OF s]
    by (auto simp: capped_rebate_def GetAccruedRebateFromInvitee_def accrued_from_def same_aff_def Let_def elim!: and_then_InrE split: if_splits)
  with round_decimal_le [of "?cap - ?old" 8, folded roundTo_def] show ?thesis by (cases "?cap \<le> ?old") (auto split: if_splits)
qed

text \<open>C18. The cap on what one invitee brings: with a cap set, no accrual takes what an inviter gets from
  an invitee past it by more than the half unit of the eighth decimal that the rounding may add.\<close>

lemma AccrueInviteRebate_within_cap:
  assumes a: "AccrueInviteRebate (Some st) gen now invitee recharge ad = (Inr amount, ad')"
    and cap: "0 < GetAffiliateRebatePerInviteeCap st"
  shows "accrued_from inviter u ad' \<le> max (accrued_from inviter u ad) (GetAffiliateRebatePerInviteeCap st + 1 / (2 * 10 ^ 8))"
proof (cases rule: AccrueInviteRebate_steps [OF a])
  case 1
  then show ?thesis by (simp add: accrued_from_def)
next
  case (2 ie s1 i ir s rebate given freeze t applied)
  have l: "ad_ledger t = ad_ledger ad" "ad_ledger s = ad_ledger ad"
    using ensure_ledger [OF 2(1)] ensure_ledger [OF 2(3)] capped_rebate_same [OF 2(4)] by (simp_all add: same_aff_def)
  with capped_rebate_le [OF 2(4) cap]
  have le: "given = 0 \<or> given + accrued_from i invitee ad \<le> GetAffiliateRebatePerInviteeCap st + 1 / (2 * 10 ^ 8)"
    by (simp add: accrued_from_def)
  from AccrueQuota_ledger [OF 2(5)] l have "accrued_from inviter u ad' =
      accrued_from inviter u ad + (if applied \<and> inviter = i \<and> u = invitee then given else 0)"
    by (auto simp: accrued_from_def split: if_splits)
  with le show ?thesis by (auto split: if_splits)
qed

text \<open>Two users: one invites the other, who recharges 100 and brings 20.\<close>

definition demo_settings :: aff_settings where
  "demo_settings = \<lparr>st_Enabled = Some True, st_RebateRate = Some (Fin 20), st_FreezeHours = None, st_DurationDays = None,
     st_PerInviteeCap = Some (Fin 15)\<rparr>"

definition demo_aff :: affdb where
  "demo_aff = \<lparr>ad_shop = (demo_shop [])\<lparr>sh_users := [1 \<mapsto> demo_user, 2 \<mapsto> demo_user]\<rparr>, ad_rows = [], ad_ledger = []\<rparr>"

definition demo_ensured :: affdb where
  "demo_ensured = snd (ensureUserAffiliate False (\<lambda>_. ''INVITE'') 0 1 demo_aff)"

definition demo_bound :: affdb where
  "demo_bound = snd (BindInviterByCode (Some demo_settings) (\<lambda>_. ''OTHER'') 0 2 '' invite '' demo_ensured)"

definition demo_accrued :: affdb where
  "demo_accrued = snd (aff_tx (AccrueInviteRebate (Some demo_settings) (\<lambda>_. '''') 0 2 (Fin 100)) demo_bound)"

definition demo_transferred :: affdb where
  "demo_transferred = snd (TransferQuotaToBalance (\<lambda>_. '''') 0 1 demo_accrued)"

lemma demo_transferred_eq: "ad_rows demo_transferred = [\<lparr>af_UserID = 1, af_AffCode = ''INVITE'', af_AffCodeCustom = False,
     af_RebateRatePercent = None, af_InviterID = None, af_Count = 1, af_Quota = 0, af_FrozenQuota = 0, af_HistoryQuota = 15, af_CreatedAt = 0\<rparr>,
   \<lparr>af_UserID = 2, af_AffCode = ''OTHER'', af_AffCodeCustom = False,
     af_RebateRatePercent = None, af_InviterID = Some 1, af_Count = 0, af_Quota = 0, af_FrozenQuota = 0, af_HistoryQuota = 0, af_CreatedAt = 0\<rparr>]"
  by code_simp

lemma demo_transferred_reach: "aff_reach (\<lambda>_. 1) demo_transferred"
proof -
  have "aff_reach (\<lambda>_. 1) demo_aff"
    by (rule aff_reach.start) (auto simp: demo_aff_def demo_user_def split: if_splits)
  then have "aff_reach (\<lambda>_. 1) demo_ensured" unfolding demo_ensured_def by (rule aff_reach.ensure [OF _ surjective_pairing])
  then have "aff_reach (\<lambda>_. 1) demo_bound" unfolding demo_bound_def by (rule aff_reach.bind [OF _ surjective_pairing])
  then have "aff_reach (\<lambda>_. 1) demo_accrued" unfolding demo_accrued_def by (rule aff_reach.accrue [OF _ surjective_pairing])
  then show ?thesis unfolding demo_transferred_def by (rule aff_reach.transfer [OF _ surjective_pairing])
qed

lemma rebates_conserved_witness:
  "total (of_user 1 ''transfer'') (ad_ledger demo_transferred) = 15 \<and>
   map_option usr_Balance (sh_users (ad_shop demo_transferred) 1) \<in> {None, Some (Fin 16)}"
proof -
  let ?a = "hd (ad_rows demo_transferred)"
  have a: "?a \<in> set (ad_rows demo_transferred)" "af_UserID ?a = 1" "af_HistoryQuota ?a = 15" "af_Quota ?a = 0" "af_FrozenQuota ?a = 0"
    by (simp_all add: demo_transferred_eq)
  from rebates_conserved [OF demo_transferred_reach a(1)] a(2-) show ?thesis by auto
qed

lemma AccrueInviteRebate_within_cap_witness:
  "accrued_from 1 2 (snd (AccrueInviteRebate (Some demo_settings) (\<lambda>_. '''') 0 2 (Fin 100) demo_bound))
     \<le> max (accrued_from 1 2 demo_bound) (15 + 1 / (2 * 10 ^ 8)) \<and>
   fst (AccrueInviteRebate (Some demo_settings) (\<lambda>_. '''') 0 2 (Fin 100) demo_bound) = Inr 15"
proof -
  have r: "fst (AccrueInviteRebate (Some demo_settings) (\<lambda>_. '''') 0 2 (Fin 100) demo_bound) = Inr 15" by code_simp
  have cap: "GetAffiliateRebatePerInviteeCap demo_settings = 15"
    by (simp add: GetAffiliateRebatePerInviteeCap_def demo_settings_def)
  have "AccrueInviteRebate (Some demo_settings) (\<lambda>_. '''') 0 2 (Fin 100) demo_bound =
      (Inr 15, snd (AccrueInviteRebate (Some demo_settings) (\<lambda>_. '''') 0 2 (Fin 100) demo_bound))"
    using r by (simp add: prod_eq_iff)
  from AccrueInviteRebate_within_cap [OF this, of 1 2] r cap show ?thesis by simp
qed

end
