(* ===== verification/PaymentMethods.thy ===== *)
theory PaymentMethods
  imports GoPrelude "HOL-Library.Word"
begin

text \<open>
  Payment methods (\<open>backend/internal/payment/types.go\<close>, \<open>load_balancer.go\<close>, \<open>fee.go\<close> and
  \<open>service/payment_amounts.go\<close>, \<open>payment_config_limits.go\<close>, \<open>payment_visible_method_instances.go\<close>,
  the names of methods in \<open>payment_resume_service.go\<close>): the instances of payment providers, the
  selection of one for an order, the limits that are shown to users, and amounts.

  A configuration is a map, \<open>None\<close> where the code has a nil map. The decoding of JSON and of the old
  encrypted form is a parameter (\<open>codec\<close>). The amounts that an instance took today are an argument of
  the selection, as the query returns them.
\<close>

section \<open>Payment types\<close>

definition TypeAlipay :: string where "TypeAlipay = ''alipay''"

definition TypeWxpay :: string where "TypeWxpay = ''wxpay''"

definition TypeAlipayDirect :: string where "TypeAlipayDirect = ''alipay_direct''"

definition TypeWxpayDirect :: string where "TypeWxpayDirect = ''wxpay_direct''"

definition TypeStripe :: string where "TypeStripe = ''stripe''"

definition TypeCard :: string where "TypeCard = ''card''"

definition TypeLink :: string where "TypeLink = ''link''"

definition TypeEasyPay :: string where "TypeEasyPay = ''easypay''"

lemmas payment_types = TypeAlipay_def TypeWxpay_def TypeAlipayDirect_def TypeWxpayDirect_def TypeStripe_def TypeCard_def
  TypeLink_def TypeEasyPay_def

definition GetBasePaymentType :: "string \<Rightarrow> string" where
  "GetBasePaymentType t =
     (if t = TypeEasyPay then TypeEasyPay
      else if t = TypeStripe \<or> t = TypeCard \<or> t = TypeLink then TypeStripe
      else if HasPrefix t TypeAlipay then TypeAlipay
      else if HasPrefix t TypeWxpay then TypeWxpay
      else t)"

definition NormalizeVisibleMethod :: "string \<Rightarrow> string" where
  "NormalizeVisibleMethod method = GetBasePaymentType (TrimSpace method)"

definition normalizeVisibleMethodSupportType :: "string \<Rightarrow> string" where
  "normalizeVisibleMethodSupportType t =
     (let s = TrimSpace t
      in if s = TypeAlipay \<or> s = TypeAlipayDirect then TypeAlipay
         else if s = TypeWxpay \<or> s = TypeWxpayDirect then TypeWxpay
         else s)"

definition legacyVisibleMethodAlias :: "string \<Rightarrow> string" where
  "legacyVisibleMethodAlias t =
     (let n = normalizeVisibleMethodSupportType t
      in if n = TypeAlipay then TypeAlipayDirect else if n = TypeWxpay then TypeWxpayDirect else '''')"

text \<open>\<open>strings.Split\<close> at commas.\<close>

fun split_comma :: "string \<Rightarrow> string list" where
  "split_comma [] = [[]]"
| "split_comma (c # cs) =
     (if c = CHR '','' then [] # split_comma cs
      else case split_comma cs of [] \<Rightarrow> [[c]] | p # ps \<Rightarrow> (c # p) # ps)"

definition InstanceSupportsType :: "string \<Rightarrow> string \<Rightarrow> bool" where
  "InstanceSupportsType supportedTypes target \<longleftrightarrow>
     supportedTypes = '''' \<or>
     list_ex (\<lambda>t. let s = TrimSpace t in s = target \<or>
       normalizeVisibleMethodSupportType s = normalizeVisibleMethodSupportType target) (split_comma supportedTypes)"

definition splitTypes :: "string \<Rightarrow> string list" where
  "splitTypes s = (if s = '''' then [] else filter (\<lambda>p. p \<noteq> '''') (map TrimSpace (split_comma s)))"

section \<open>Instances\<close>

record ProviderInstance =
  pi_ID :: int
  pi_ProviderKey :: string
  pi_Config :: string
  pi_SupportedTypes :: string
  pi_Enabled :: bool
  pi_PaymentMode :: string
  pi_SortOrder :: int
  pi_Limits :: string
  pi_RefundEnabled :: bool
  pi_AllowUserRefund :: bool

record ChannelLimits =
  cl_DailyLimit :: float64
  cl_SingleMin :: float64
  cl_SingleMax :: float64

definition no_limits :: ChannelLimits where
  "no_limits = \<lparr>cl_DailyLimit = 0, cl_SingleMin = 0, cl_SingleMax = 0\<rparr>"

type_synonym config = "string \<Rightarrow> string option"

text \<open>Decoding: a JSON object of strings (\<open>Some None\<close> for \<open>null\<close>), the old encryption with the key that is
  set, and a JSON object of limits.\<close>

record codec =
  cd_json :: "string \<Rightarrow> config option option"
  cd_decrypt :: "string \<Rightarrow> string option"
  cd_limits :: "string \<Rightarrow> (string \<Rightarrow> ChannelLimits option) option"

definition decryptConfig :: "codec \<Rightarrow> string \<Rightarrow> config option" where
  "decryptConfig cd stored =
     (if stored = '''' then None
      else case cd_json cd stored of
             Some c \<Rightarrow> c
           | None \<Rightarrow> (case Option.bind (cd_decrypt cd stored) (cd_json cd) of Some c \<Rightarrow> c | None \<Rightarrow> None))"

definition config_at :: "config option \<Rightarrow> string \<Rightarrow> string" where
  "config_at c k = (case Option.bind c (\<lambda>m. m k) of None \<Rightarrow> '''' | Some v \<Rightarrow> v)"

definition resolveWxpayJSAPIAppID :: "config option \<Rightarrow> string" where
  "resolveWxpayJSAPIAppID c =
     (let mp = TrimSpace (config_at c ''mpAppId'') in if mp \<noteq> '''' then mp else TrimSpace (config_at c ''appId''))"

section \<open>Selection of an instance\<close>

record InstanceSelection =
  se_InstanceID :: string
  se_ProviderKey :: string
  se_Config :: config
  se_SupportedTypes :: string
  se_PaymentMode :: string

definition matches_payment_type :: "codec \<Rightarrow> string \<Rightarrow> string \<Rightarrow> ProviderInstance \<Rightarrow> bool" where
  "matches_payment_type cd appID paymentType inst \<longleftrightarrow>
     (if paymentType = TypeStripe then pi_ProviderKey inst = TypeStripe
      else InstanceSupportsType (pi_SupportedTypes inst) paymentType \<and>
        (appID \<noteq> '''' \<and> normalizeVisibleMethodSupportType paymentType = TypeWxpay \<and> pi_ProviderKey inst = TypeWxpay \<longrightarrow>
         resolveWxpayJSAPIAppID (decryptConfig cd (pi_Config inst)) = appID))"

definition queryEnabledInstances :: "codec \<Rightarrow> string \<Rightarrow> string \<Rightarrow> string \<Rightarrow> ProviderInstance list \<Rightarrow> ProviderInstance list" where
  "queryEnabledInstances cd appID providerKey paymentType table =
     filter (matches_payment_type cd appID paymentType)
       (sort_key pi_SortOrder (filter (\<lambda>i. pi_Enabled i \<and> (providerKey \<noteq> '''' \<longrightarrow> pi_ProviderKey i = providerKey)) table))"

definition getInstanceChannelLimits :: "codec \<Rightarrow> ProviderInstance \<Rightarrow> string \<Rightarrow> ChannelLimits" where
  "getInstanceChannelLimits cd inst paymentType =
     (if pi_Limits inst = '''' then no_limits
      else case cd_limits cd (pi_Limits inst) of
             None \<Rightarrow> no_limits
           | Some limits \<Rightarrow>
               let key = (if pi_ProviderKey inst = ''stripe'' then ''stripe'' else paymentType);
                   alias = legacyVisibleMethodAlias key
               in case limits key of
                    Some cl \<Rightarrow> cl
                  | None \<Rightarrow>
                      if alias \<noteq> '''' then (case limits alias of Some cl \<Rightarrow> cl | None \<Rightarrow> no_limits)
                      else no_limits)"

definition within_limits :: "ChannelLimits \<Rightarrow> float64 \<Rightarrow> float64 \<Rightarrow> bool" where
  "within_limits cl used amount \<longleftrightarrow>
     \<not> (cl_SingleMin cl > 0 \<and> amount < cl_SingleMin cl) \<and>
     \<not> (cl_SingleMax cl > 0 \<and> cl_SingleMax cl < amount) \<and>
     \<not> (cl_DailyLimit cl > 0 \<and> cl_DailyLimit cl < used + amount)"

definition filterByLimits ::
    "codec \<Rightarrow> (ProviderInstance \<times> float64) list \<Rightarrow> string \<Rightarrow> float64 \<Rightarrow> (ProviderInstance \<times> float64) list" where
  "filterByLimits cd candidates paymentType amount =
     filter (\<lambda>(i, used). within_limits (getInstanceChannelLimits cd i paymentType) used amount) candidates"

definition pickLeastAmount :: "(ProviderInstance \<times> float64) list \<Rightarrow> ProviderInstance \<times> float64" where
  "pickLeastAmount cs = fold (\<lambda>c best. if snd c < snd best then c else best) (tl cs) (hd cs)"

text \<open>The counter is a 64-bit word that all selections share.\<close>

definition pickByStrategy ::
    "string \<Rightarrow> (ProviderInstance \<times> float64) list \<Rightarrow> 64 word \<Rightarrow> (ProviderInstance \<times> float64) \<times> 64 word" where
  "pickByStrategy strategy cs counter =
     (if strategy = ''least-amount'' \<and> length cs > 1 then (pickLeastAmount cs, counter)
      else (cs ! (unat (counter + 1) mod length cs), counter + 1))"

definition buildSelection :: "codec \<Rightarrow> ProviderInstance \<Rightarrow> InstanceSelection" where
  "buildSelection cd inst =
     (let c = (case decryptConfig cd (pi_Config inst) of None \<Rightarrow> Map.empty | Some m \<Rightarrow> m)
      in \<lparr>se_InstanceID = itoa (pi_ID inst), se_ProviderKey = pi_ProviderKey inst,
          se_Config = (if pi_PaymentMode inst \<noteq> '''' then c(''paymentMode'' \<mapsto> pi_PaymentMode inst) else c),
          se_SupportedTypes = pi_SupportedTypes inst, se_PaymentMode = pi_PaymentMode inst\<rparr>)"

definition SelectInstance ::
    "codec \<Rightarrow> string \<Rightarrow> (int \<Rightarrow> float64) \<Rightarrow> ProviderInstance list \<Rightarrow> string \<Rightarrow> string \<Rightarrow> string \<Rightarrow> float64 \<Rightarrow>
     64 word \<Rightarrow> InstanceSelection option \<times> 64 word" where
  "SelectInstance cd appID usage table providerKey paymentType strategy amount counter =
     (let instances = queryEnabledInstances cd appID providerKey paymentType table;
          candidates = map (\<lambda>i. (i, usage (pi_ID i))) instances;
          available = filterByLimits cd candidates paymentType amount
      in if instances = [] then (None, counter)
         else let (c, counter') = pickByStrategy strategy (if available = [] then candidates else available) counter
              in (Some (buildSelection cd (fst c)), counter'))"

section \<open>The limits shown to users\<close>

record MethodLimits =
  ml_PaymentType :: string
  ml_SingleMin :: float64
  ml_SingleMax :: float64
  ml_DailyLimit :: float64

definition pcInstanceTypeLimits :: "codec \<Rightarrow> ProviderInstance \<Rightarrow> string \<Rightarrow> ChannelLimits option" where
  "pcInstanceTypeLimits cd inst pt =
     (if pi_Limits inst = '''' then None
      else case cd_limits cd (pi_Limits inst) of None \<Rightarrow> None | Some limits \<Rightarrow> limits pt)"

text \<open>The union of two limits, with whether there is still a limit.\<close>

definition unionFloat :: "float64 \<Rightarrow> bool \<Rightarrow> float64 \<Rightarrow> bool \<Rightarrow> float64 \<times> bool" where
  "unionFloat agg limited val wantMin =
     (if val = 0 then (agg, False)
      else if \<not> limited then (agg, False)
      else if agg = 0 then (val, True)
      else if wantMin \<and> val < agg then (val, True)
      else if \<not> wantMin \<and> agg < val then (val, True)
      else (agg, True))"

definition union_all :: "bool \<Rightarrow> float64 list \<Rightarrow> float64" where
  "union_all wantMin vs =
     (let (agg, limited) = fold (\<lambda>v (agg, limited). unionFloat agg limited v wantMin) vs (0, True)
      in if limited then agg else 0)"

definition pcAggregateMethodLimits :: "codec \<Rightarrow> string \<Rightarrow> ProviderInstance list \<Rightarrow> MethodLimits" where
  "pcAggregateMethodLimits cd pt instances =
     (let cls = map (\<lambda>i. pcInstanceTypeLimits cd i pt) instances
      in if None \<in> set cls then \<lparr>ml_PaymentType = pt, ml_SingleMin = 0, ml_SingleMax = 0, ml_DailyLimit = 0\<rparr>
         else \<lparr>ml_PaymentType = pt,
               ml_SingleMin = union_all True (map (cl_SingleMin \<circ> the) cls),
               ml_SingleMax = union_all False (map (cl_SingleMax \<circ> the) cls),
               ml_DailyLimit = union_all False (map (cl_DailyLimit \<circ> the) cls)\<rparr>)"

definition pcComputeGlobalRange :: "MethodLimits list \<Rightarrow> float64 \<times> float64" where
  "pcComputeGlobalRange methods = (union_all True (map ml_SingleMin methods), union_all False (map ml_SingleMax methods))"

definition GetMethodLimits :: "codec \<Rightarrow> ProviderInstance list \<Rightarrow> string list \<Rightarrow> MethodLimits list" where
  "GetMethodLimits cd table types =
     map (\<lambda>pt. pcAggregateMethodLimits cd pt
       (filter (\<lambda>i. InstanceSupportsType (pi_SupportedTypes i) pt) (filter pi_Enabled table))) types"

text \<open>The groups, in the order in which their types first appear.\<close>

definition add_to_group ::
    "string \<Rightarrow> ProviderInstance \<Rightarrow> (string \<times> ProviderInstance list) list \<Rightarrow> (string \<times> ProviderInstance list) list" where
  "add_to_group key inst groups =
     (if key \<notin> fst ` set groups then groups @ [(key, [inst])]
      else map (\<lambda>(k, is). (k, if k = key \<and> pi_ID inst \<notin> pi_ID ` set is then is @ [inst] else is)) groups)"

definition pcGroupByPaymentType :: "ProviderInstance list \<Rightarrow> (string \<times> ProviderInstance list) list" where
  "pcGroupByPaymentType instances =
     fold (\<lambda>i groups.
       if pi_ProviderKey i = TypeStripe then add_to_group TypeStripe i groups
       else fold (\<lambda>t. add_to_group t i) (splitTypes (pi_SupportedTypes i)) groups) instances []"

section \<open>Visible methods\<close>

definition enabledVisibleMethodsForProvider :: "string \<Rightarrow> string \<Rightarrow> string list" where
  "enabledVisibleMethodsForProvider providerKey supportedTypes =
     (let key = TrimSpace providerKey; ts = splitTypes supportedTypes;
          methods = (if key = TypeAlipay \<or> key = TypeWxpay
             then (if TrimSpace supportedTypes = '''' \<or> list_ex (\<lambda>t. NormalizeVisibleMethod t = key) ts
                   then [NormalizeVisibleMethod key] else [])
             else if key = TypeEasyPay then map NormalizeVisibleMethod ts
             else [])
      in filter (\<lambda>m. m \<in> set methods) [TypeAlipay, TypeWxpay])"

definition providerSupportsVisibleMethod :: "ProviderInstance \<Rightarrow> string \<Rightarrow> bool" where
  "providerSupportsVisibleMethod inst method \<longleftrightarrow>
     pi_Enabled inst \<and>
     NormalizeVisibleMethod method \<in> set (enabledVisibleMethodsForProvider (pi_ProviderKey inst) (pi_SupportedTypes inst))"

definition filterEnabledVisibleMethodInstances :: "ProviderInstance list \<Rightarrow> string \<Rightarrow> ProviderInstance list" where
  "filterEnabledVisibleMethodInstances instances method =
     filter (\<lambda>i. providerSupportsVisibleMethod i method) instances"

definition distinctVisibleMethodProviderKeys :: "ProviderInstance list \<Rightarrow> string list" where
  "distinctVisibleMethodProviderKeys instances =
     fold (\<lambda>i keys. let key = TrimSpace (pi_ProviderKey i)
       in if key = '''' \<or> ToLower key \<in> ToLower ` set keys then keys else keys @ [key]) instances []"

definition selectVisibleMethodInstanceByProviderKey :: "ProviderInstance list \<Rightarrow> string \<Rightarrow> ProviderInstance option" where
  "selectVisibleMethodInstanceByProviderKey instances providerKey =
     (let key = TrimSpace providerKey
      in if key = '''' then None else find (\<lambda>i. EqualFold (TrimSpace (pi_ProviderKey i)) key) instances)"

text \<open>\<open>None\<close>: an error; the configured source is the provider key it stands for, empty if there is none.\<close>

definition resolveVisibleMethodProviderKey :: "string option \<Rightarrow> ProviderInstance list \<Rightarrow> string option" where
  "resolveVisibleMethodProviderKey source matching =
     (let keys = distinctVisibleMethodProviderKeys matching
      in if keys = [] then Some ''''
         else if length keys = 1 then Some (TrimSpace (hd keys))
         else case source of
                None \<Rightarrow> None
              | Some key \<Rightarrow>
                  if key = '''' then Some ''''
                  else case selectVisibleMethodInstanceByProviderKey matching key of
                         None \<Rightarrow> None
                       | Some i \<Rightarrow> Some (TrimSpace (pi_ProviderKey i)))"

text \<open>The provider key that orders of a method go to: \<open>None\<close> for an error, \<open>Some None\<close> if no instance takes
  the method, and the empty key for any provider.\<close>

definition resolveEnabledVisibleMethodInstance ::
    "string option \<Rightarrow> ProviderInstance list \<Rightarrow> string \<Rightarrow> string option option" where
  "resolveEnabledVisibleMethodInstance source table method0 =
     (let method = NormalizeVisibleMethod method0;
          matching = filterEnabledVisibleMethodInstances (sort_key pi_SortOrder (filter pi_Enabled table)) method
      in if method \<noteq> TypeAlipay \<and> method \<noteq> TypeWxpay then Some None
         else case resolveVisibleMethodProviderKey source matching of
                None \<Rightarrow> None
              | Some key \<Rightarrow>
                  if key = '''' then Some (if matching = [] then None else Some '''')
                  else Some (map_option pi_ProviderKey (selectVisibleMethodInstanceByProviderKey matching key)))"

text \<open>The groups are a Go map; here the list of its entries. An entry is set or removed.\<close>

definition set_group ::
    "string \<Rightarrow> ProviderInstance list \<Rightarrow> (string \<times> ProviderInstance list) list \<Rightarrow> (string \<times> ProviderInstance list) list" where
  "set_group key is groups =
     (if key \<in> fst ` set groups then map (\<lambda>(k, js). (k, if k = key then is else js)) groups else groups @ [(key, is)])"

definition delete_group :: "string \<Rightarrow> (string \<times> ProviderInstance list) list \<Rightarrow> (string \<times> ProviderInstance list) list" where
  "delete_group key = filter (\<lambda>(k, _). k \<noteq> key)"

definition filterVisibleMethodInstancesByProviderKey :: "ProviderInstance list \<Rightarrow> string \<Rightarrow> string \<Rightarrow> ProviderInstance list" where
  "filterVisibleMethodInstancesByProviderKey instances method providerKey =
     filter (\<lambda>i. providerSupportsVisibleMethod i method \<and>
       EqualFold (TrimSpace (pi_ProviderKey i)) (TrimSpace providerKey)) instances"

definition pcApplyEnabledVisibleMethodInstances ::
    "(string \<Rightarrow> string option) \<Rightarrow> ProviderInstance list \<Rightarrow> (string \<times> ProviderInstance list) list \<Rightarrow>
     (string \<times> ProviderInstance list) list" where
  "pcApplyEnabledVisibleMethodInstances sources instances groups =
     (if groups = [] then groups
      else fold (\<lambda>method gs.
        let matching = filterEnabledVisibleMethodInstances instances method
        in case resolveVisibleMethodProviderKey (sources method) matching of
             None \<Rightarrow> delete_group method gs
           | Some key \<Rightarrow>
               if key = '''' then (if matching = [] then delete_group method gs else set_group method matching gs)
               else let selected = filterVisibleMethodInstancesByProviderKey instances method key
                    in if selected = [] then delete_group method gs else set_group method selected gs)
        [TypeAlipay, TypeWxpay] groups)"

definition GetAvailableMethodLimits ::
    "codec \<Rightarrow> (string \<Rightarrow> string option) \<Rightarrow> ProviderInstance list \<Rightarrow> MethodLimits list \<times> float64 \<times> float64" where
  "GetAvailableMethodLimits cd sources table =
     (let instances = filter pi_Enabled table;
          methods = map (\<lambda>(pt, is). pcAggregateMethodLimits cd pt is)
            (pcApplyEnabledVisibleMethodInstances sources instances (pcGroupByPaymentType instances))
      in (methods, pcComputeGlobalRange methods))"

definition select_visible ::
    "codec \<Rightarrow> string \<Rightarrow> string option \<Rightarrow> (int \<Rightarrow> float64) \<Rightarrow> ProviderInstance list \<Rightarrow> string \<Rightarrow> string \<Rightarrow> string \<Rightarrow>
     float64 \<Rightarrow> 64 word \<Rightarrow> InstanceSelection option \<times> 64 word" where
  "select_visible cd appID source usage table providerKey paymentType strategy amount counter =
     (let method = NormalizeVisibleMethod paymentType
      in if providerKey \<noteq> '''' \<or> (method \<noteq> TypeAlipay \<and> method \<noteq> TypeWxpay)
         then SelectInstance cd appID usage table providerKey paymentType strategy amount counter
         else case resolveEnabledVisibleMethodInstance source table method of
                Some (Some key) \<Rightarrow> SelectInstance cd appID usage table key paymentType strategy amount counter
              | _ \<Rightarrow> (None, counter))"

section \<open>Amounts\<close>

text \<open>The decimal library rounds halves away from zero; the fee is rounded up.\<close>

definition amountToleranceCNY :: rat where "amountToleranceCNY = 1 / 100"

definition normalizeBalanceRechargeMultiplier :: "float64 \<Rightarrow> rat" where
  "normalizeBalanceRechargeMultiplier m = (case m of Fin r \<Rightarrow> if r \<le> 0 then 1 else r | _ \<Rightarrow> 1)"

definition calculateCreditedBalance :: "rat \<Rightarrow> float64 \<Rightarrow> rat" where
  "calculateCreditedBalance paymentAmount m = round_decimal (paymentAmount * normalizeBalanceRechargeMultiplier m) 2"

definition round_up :: "rat \<Rightarrow> nat \<Rightarrow> rat" where
  "round_up v n = (let x = v * 10 ^ n in of_int (if x < 0 then \<lfloor>x\<rfloor> else \<lceil>x\<rceil>) / 10 ^ n)"

definition CalculatePayAmount :: "rat \<Rightarrow> rat \<Rightarrow> rat" where
  "CalculatePayAmount amount feeRate =
     (if feeRate \<le> 0 then round_decimal amount 2 else round_decimal (amount + round_up (amount * feeRate / 100) 2) 2)"

definition calculateGatewayRefundAmount :: "rat \<Rightarrow> rat \<Rightarrow> rat \<Rightarrow> rat" where
  "calculateGatewayRefundAmount orderAmount payAmount refundAmount =
     (if orderAmount \<le> 0 \<or> payAmount \<le> 0 \<or> refundAmount \<le> 0 then 0
      else if \<bar>refundAmount - orderAmount\<bar> \<le> amountToleranceCNY then round_decimal payAmount 2
      else round_decimal (payAmount * refundAmount / orderAmount) 2)"

section \<open>Selection\<close>

lemma pickLeastAmount_fold:
  assumes "\<forall>c \<in> set (b # cs). fin_nonneg (snd c)"
  shows "fold (\<lambda>c best. if snd c < snd best then c else best) cs b \<in> set (b # cs) \<and>
    (\<forall>c \<in> set (b # cs). snd (fold (\<lambda>c best. if snd c < snd best then c else best) cs b) \<le> snd c)"
  using assms
proof (induction cs arbitrary: b)
  case Nil
  then show ?case by (auto elim!: fin_nonnegE)
next
  case (Cons c cs)
  let ?b = "if snd c < snd b then c else b"
  have ih: "fold (\<lambda>c best. if snd c < snd best then c else best) cs ?b \<in> set (?b # cs) \<and>
    (\<forall>d \<in> set (?b # cs). snd (fold (\<lambda>c best. if snd c < snd best then c else best) cs ?b) \<le> snd d)"
    using Cons.prems by (intro Cons.IH) auto
  moreover have "snd ?b \<le> snd c" "snd ?b \<le> snd b" using Cons.prems by (auto elim!: fin_nonnegE)
  moreover have "fin_nonneg (snd (fold (\<lambda>c best. if snd c < snd best then c else best) cs ?b))"
    using ih Cons.prems by (auto split: if_splits)
  ultimately show ?case using Cons.prems by (auto elim!: fin_nonnegE split: if_splits)
qed

lemma pickLeastAmount_least:
  assumes "cs \<noteq> []" and "\<forall>c \<in> set cs. fin_nonneg (snd c)"
  shows "pickLeastAmount cs \<in> set cs \<and> (\<forall>c \<in> set cs. snd (pickLeastAmount cs) \<le> snd c)"
  using pickLeastAmount_fold [of "hd cs" "tl cs"] assms by (simp add: pickLeastAmount_def)

lemma pickLeastAmount_mem: "cs \<noteq> [] \<Longrightarrow> pickLeastAmount cs \<in> set cs"
proof -
  have "fold (\<lambda>c best. if snd c < snd best then c else best) xs b \<in> set (b # xs)" for b and xs :: "(ProviderInstance \<times> float64) list"
    by (induction xs arbitrary: b) auto
  then show "cs \<noteq> [] \<Longrightarrow> ?thesis" by (cases cs) (auto simp: pickLeastAmount_def)
qed

lemma pickByStrategy_mem: "cs \<noteq> [] \<Longrightarrow> fst (pickByStrategy strategy cs counter) \<in> set cs"
  by (auto simp: pickByStrategy_def pickLeastAmount_mem)

text \<open>The instances that could take the order, with what they took today.\<close>

definition candidates :: "codec \<Rightarrow> string \<Rightarrow> ProviderInstance list \<Rightarrow> string \<Rightarrow> string \<Rightarrow> ProviderInstance set" where
  "candidates cd appID table providerKey paymentType =
     {i \<in> set table. pi_Enabled i \<and> (providerKey \<noteq> '''' \<longrightarrow> pi_ProviderKey i = providerKey) \<and> matches_payment_type cd appID paymentType i}"

definition fits :: "codec \<Rightarrow> (int \<Rightarrow> float64) \<Rightarrow> string \<Rightarrow> float64 \<Rightarrow> ProviderInstance \<Rightarrow> bool" where
  "fits cd usage paymentType amount i \<longleftrightarrow> within_limits (getInstanceChannelLimits cd i paymentType) (usage (pi_ID i)) amount"

lemma set_queryEnabledInstances: "set (queryEnabledInstances cd appID key pt table) = candidates cd appID table key pt"
  by (auto simp: queryEnabledInstances_def candidates_def)

lemma set_filterByLimits:
  "set (filterByLimits cd (map (\<lambda>i. (i, usage (pi_ID i))) is) pt amount) = (\<lambda>i. (i, usage (pi_ID i))) ` {i \<in> set is. fits cd usage pt amount i}"
  by (auto simp: filterByLimits_def fits_def)

text \<open>C19. An order goes to an enabled instance of the wanted provider that takes its payment type; to one
  within its limits if there is any; and with the strategy of the least amount to one that took no
  more today than any other choice.\<close>

theorem SelectInstance_sound:
  assumes "SelectInstance cd appID usage table providerKey paymentType strategy amount counter = (Some sel, counter')"
    and "\<forall>i \<in> set table. fin_nonneg (usage (pi_ID i))"
  defines "cs \<equiv> candidates cd appID table providerKey paymentType"
  shows "\<exists>i \<in> cs. sel = buildSelection cd i \<and>
    (fits cd usage paymentType amount i \<or> (\<forall>j \<in> cs. \<not> fits cd usage paymentType amount j)) \<and>
    (strategy = ''least-amount'' \<longrightarrow> (\<forall>j \<in> cs. fits cd usage paymentType amount j \<or> \<not> fits cd usage paymentType amount i \<longrightarrow>
       usage (pi_ID i) \<le> usage (pi_ID j)))"
proof -
  let ?is = "queryEnabledInstances cd appID providerKey paymentType table"
  let ?pair = "\<lambda>i. (i, usage (pi_ID i))"
  define av where "av = (let a = filterByLimits cd (map ?pair ?is) paymentType amount in if a = [] then map ?pair ?is else a)"
  from assms(1) have ne: "?is \<noteq> []" and sel: "sel = buildSelection cd (fst (fst (pickByStrategy strategy av counter)))"
    by (auto simp: SelectInstance_def av_def Let_def split: if_splits prod.splits)
  have cset: "set ?is = cs" unfolding cs_def by (rule set_queryEnabledInstances)
  define ok where "ok i \<longleftrightarrow> fits cd usage paymentType amount i \<or> (\<forall>j \<in> cs. \<not> fits cd usage paymentType amount j)" for i
  have fl: "set (filterByLimits cd (map ?pair ?is) paymentType amount) = ?pair ` {i \<in> cs. fits cd usage paymentType amount i}"
    by (simp add: set_filterByLimits cset)
  have av: "set av = ?pair ` {i \<in> cs. ok i}"
    using fl cset by (cases "\<exists>i \<in> cs. fits cd usage paymentType amount i")
      (auto simp: av_def ok_def Let_def simp flip: set_empty)
  moreover have "av \<noteq> []" using ne by (simp add: av_def Let_def)
  ultimately have "fst (pickByStrategy strategy av counter) \<in> ?pair ` {i \<in> cs. ok i}" using pickByStrategy_mem by blast
  then obtain i where i: "i \<in> cs" "ok i" "fst (pickByStrategy strategy av counter) = ?pair i" by auto
  have "usage (pi_ID i) \<le> usage (pi_ID j)" if l: "strategy = ''least-amount''" and j: "j \<in> cs" "ok j" for j
  proof -
    have nn: "\<forall>c \<in> set av. fin_nonneg (snd c)" using av assms(2) by (auto simp: cs_def candidates_def)
    have mem: "?pair j \<in> set av" "?pair i \<in> set av" using av i j by auto
    show ?thesis
    proof (cases "length av > 1")
      case True
      with l i(3) have "pickLeastAmount av = ?pair i" by (simp add: pickByStrategy_def)
      with pickLeastAmount_least [OF \<open>av \<noteq> []\<close> nn] mem show ?thesis by force
    next
      case False
      with mem have "i = j" by (cases av) auto
      with nn mem show ?thesis by (auto elim!: fin_nonnegE)
    qed
  qed
  with i sel show ?thesis by (intro bexI [of _ i]) (auto simp: ok_def)
qed

text \<open>Selections one after another from the same candidates.\<close>

primrec picks :: "string \<Rightarrow> (ProviderInstance \<times> float64) list \<Rightarrow> nat \<Rightarrow> 64 word \<Rightarrow> (ProviderInstance \<times> float64) list" where
  "picks strategy cs 0 counter = []"
| "picks strategy cs (Suc n) counter =
     (let (c, counter') = pickByStrategy strategy cs counter in c # picks strategy cs n counter')"

lemma picks_round_robin:
  assumes "strategy \<noteq> ''least-amount''" and "unat counter + n < 2 ^ 64"
  shows "picks strategy cs n counter = map (\<lambda>k. cs ! ((unat counter + 1 + k) mod length cs)) [0..<n]"
  using assms(2)
proof (induction n arbitrary: counter)
  case 0
  then show ?case by simp
next
  case (Suc n)
  have u: "unat (counter + 1) = unat counter + 1"
    using Suc.prems by (simp add: unat_word_ariths)
  have "picks strategy cs n (counter + 1) = map (\<lambda>k. cs ! ((unat counter + 1 + Suc k) mod length cs)) [0..<n]"
    using Suc u by simp
  moreover have "[0..<Suc n] = 0 # map Suc [0..<n]" by (simp add: upt_conv_Cons map_Suc_upt del: upt_Suc)
  ultimately show ?case using assms(1) u
    by (simp add: pickByStrategy_def del: upt_Suc)
qed

lemma rotated_mset:
  assumes "xs \<noteq> []"
  shows "mset (map (\<lambda>k. xs ! ((s + k) mod length xs)) [0..<length xs]) = mset xs"
proof -
  have r: "map (\<lambda>k. xs ! ((s + k) mod length xs)) [0..<length xs] = rotate s xs"
    using assms by (intro nth_equalityI) (simp_all add: nth_rotate)
  have "mset (rotate s xs) = mset xs"
    by (simp add: rotate_drop_take) (metis append_take_drop_id mset_append union_commute)
  with r show ?thesis by simp
qed

text \<open>C20. The turns are fair: over as many selections as there are candidates each of them is chosen once,
  wherever the shared counter stands (away from the wrap-around of the 64-bit counter).\<close>

theorem round_robin_fair:
  assumes "cs \<noteq> []" and "strategy \<noteq> ''least-amount''" and "unat counter + length cs < 2 ^ 64"
  shows "mset (picks strategy cs (length cs) counter) = mset cs"
  using picks_round_robin [OF assms(2,3)] rotated_mset [OF assms(1), of "unat counter + 1"] by simp

section \<open>Limits\<close>

definition better :: "bool \<Rightarrow> float64 \<Rightarrow> float64 \<Rightarrow> bool" where
  "better wantMin a b \<longleftrightarrow> (if wantMin then a \<le> b else b \<le> a)"

lemma unionFloat_pos:
  assumes "fin_nonneg a" "a \<noteq> 0" "fin_nonneg v" "v \<noteq> 0"
  shows "\<exists>b \<in> {a, v}. unionFloat a True v w = (b, True) \<and> better w b a \<and> better w b v"
  using assms by (auto simp: unionFloat_def better_def elim!: fin_nonnegE)

lemma union_fold_pos:
  assumes "\<forall>v \<in> set (a # vs). fin_nonneg v \<and> v \<noteq> 0"
  shows "\<exists>b \<in> set (a # vs). fold (\<lambda>v (agg, limited). unionFloat agg limited v w) vs (a, True) = (b, True) \<and>
    (\<forall>v \<in> set (a # vs). better w b v)"
  using assms
proof (induction vs arbitrary: a)
  case Nil
  then show ?case by (auto simp: better_def elim!: fin_nonnegE)
next
  case (Cons v vs)
  then obtain b where b: "b \<in> {a, v}" "unionFloat a True v w = (b, True)" "better w b a" "better w b v"
    using unionFloat_pos [of a v w] by auto
  with Cons.prems have "\<forall>x \<in> set (b # vs). fin_nonneg x \<and> x \<noteq> 0" by auto
  from Cons.IH [OF this] obtain c where c: "c \<in> set (b # vs)"
      "fold (\<lambda>v (agg, limited). unionFloat agg limited v w) vs (b, True) = (c, True)" "\<forall>x \<in> set (b # vs). better w c x" by blast
  have fin: "fin_nonneg a" "fin_nonneg v" "fin_nonneg b" "fin_nonneg c" using b(1) c(1) Cons.prems by auto
  have "better w c b" using c(3) by simp
  with b(3,4) fin have "better w c a" "better w c v" by (auto simp: better_def elim!: fin_nonnegE split: if_splits)
  with b(1,2) c show ?case by auto
qed

lemma union_fold_unlimited: "\<not> snd (fold (\<lambda>v (agg, limited). unionFloat agg limited v w) vs (a, False))"
  by (induction vs arbitrary: a) (auto simp: unionFloat_def)

lemma union_fold_zero: "0 \<in> set vs \<Longrightarrow> \<not> snd (fold (\<lambda>v (agg, limited). unionFloat agg limited v w) vs (a, l))"
proof (induction vs arbitrary: a l)
  case (Cons v vs)
  obtain b k where b: "unionFloat a l v w = (b, k)" by fastforce
  show ?case
  proof (cases "0 \<in> set vs")
    case True
    with Cons.IH b show ?thesis by simp
  next
    case False
    with Cons.prems b have "k = False" by (auto simp: unionFloat_def)
    with b union_fold_unlimited show ?thesis by simp
  qed
qed simp

lemma union_all_result:
  assumes "\<forall>v \<in> set vs. fin_nonneg v"
  shows "union_all w vs = 0 \<and> (vs = [] \<or> 0 \<in> set vs) \<or> union_all w vs \<in> set vs \<and> (\<forall>v \<in> set vs. better w (union_all w vs) v)"
proof (cases "vs = [] \<or> 0 \<in> set vs")
  case True
  with union_fold_zero [of vs w 0 True] show ?thesis by (auto simp: union_all_def split: prod.splits)
next
  case False
  then obtain v vs' where vs: "vs = v # vs'" by (cases vs) auto
  have f: "unionFloat 0 True v w = (v, True)" using False vs by (simp add: unionFloat_def)
  have "\<forall>x \<in> set (v # vs'). fin_nonneg x \<and> x \<noteq> 0" using assms False vs by auto
  from union_fold_pos [OF this, of w] show ?thesis by (auto simp: vs union_all_def f)
qed

lemma union_all_permuted:
  assumes "\<forall>v \<in> set vs. fin_nonneg v" and "mset vs = mset ws"
  shows "union_all w vs = union_all w ws"
proof -
  have s: "set vs = set ws" "vs = [] \<longleftrightarrow> ws = []" using mset_eq_setD [OF assms(2)] assms(2) by auto
  have zero: "0 \<in> set xs \<or> xs = [] \<Longrightarrow> union_all w xs = 0" for xs
    using union_fold_zero [of xs w 0 True] by (auto simp: union_all_def split: prod.splits)
  show ?thesis
  proof (cases "vs = [] \<or> 0 \<in> set vs")
    case True
    then show ?thesis using zero [of vs] zero [of ws] s by metis
  next
    case False
    note a = union_all_result [OF assms(1), of w] and b = union_all_result [of ws w]
    from False a b assms(1) s have "union_all w vs \<in> set vs" "union_all w ws \<in> set vs"
      "better w (union_all w vs) (union_all w ws)" "better w (union_all w ws) (union_all w vs)" by auto
    moreover from this assms(1) have "fin_nonneg (union_all w vs)" "fin_nonneg (union_all w ws)" by blast+
    ultimately show ?thesis by (auto simp: better_def elim!: fin_nonnegE split: if_splits)
  qed
qed

text \<open>The global range does not depend on the order in which Go iterates over the map of methods.\<close>

theorem pcComputeGlobalRange_order_independent:
  assumes "mset methods = mset methods'"
    and "list_all (\<lambda>m. fin_nonneg (ml_SingleMin m) \<and> fin_nonneg (ml_SingleMax m)) methods"
  shows "pcComputeGlobalRange methods = pcComputeGlobalRange methods'"
  using union_all_permuted [of "map ml_SingleMin methods" "map ml_SingleMin methods'" True]
    union_all_permuted [of "map ml_SingleMax methods" "map ml_SingleMax methods'" False] assms
  by (simp add: pcComputeGlobalRange_def list_all_iff)

definition accepts :: "float64 \<Rightarrow> float64 \<Rightarrow> float64 \<Rightarrow> bool" where
  "accepts lo hi amount \<longleftrightarrow> \<not> (lo > 0 \<and> amount < lo) \<and> \<not> (hi > 0 \<and> hi < amount)"

definition sane_limits :: "ChannelLimits \<Rightarrow> bool" where
  "sane_limits cl \<longleftrightarrow> fin_nonneg (cl_SingleMin cl) \<and> fin_nonneg (cl_SingleMax cl) \<and> fin_nonneg (cl_DailyLimit cl)"

text \<open>C21. The limits shown for a method are no stricter than those of any instance: an amount that one
  instance accepts is accepted, and so is every amount if some instance has no limits.\<close>

theorem method_limits_widest:
  assumes "i \<in> set instances" and "\<forall>j \<in> set instances. \<forall>cl. pcInstanceTypeLimits cd j pt = Some cl \<longrightarrow> sane_limits cl"
    and "\<forall>cl. pcInstanceTypeLimits cd i pt = Some cl \<longrightarrow> accepts (cl_SingleMin cl) (cl_SingleMax cl) amount"
    and "fin_nonneg amount"
  shows "accepts (ml_SingleMin (pcAggregateMethodLimits cd pt instances)) (ml_SingleMax (pcAggregateMethodLimits cd pt instances)) amount"
proof (cases "None \<in> set (map (\<lambda>i. pcInstanceTypeLimits cd i pt) instances)")
  case True
  then show ?thesis by (simp add: pcAggregateMethodLimits_def accepts_def Fin_zero)
next
  case False
  define cls where "cls = map (the \<circ> (\<lambda>i. pcInstanceTypeLimits cd i pt)) instances"
  have ag: "ml_SingleMin (pcAggregateMethodLimits cd pt instances) = union_all True (map cl_SingleMin cls)"
    "ml_SingleMax (pcAggregateMethodLimits cd pt instances) = union_all False (map cl_SingleMax cls)"
    using False by (simp_all add: pcAggregateMethodLimits_def cls_def comp_def)
  have some: "\<forall>j \<in> set instances. \<exists>cl. pcInstanceTypeLimits cd j pt = Some cl"
    using False by (metis image_eqI list.set_map not_None_eq)
  have sane: "\<forall>cl \<in> set cls. sane_limits cl" using some assms(2) by (fastforce simp: cls_def)
  obtain cl where cl: "cl \<in> set cls" "accepts (cl_SingleMin cl) (cl_SingleMax cl) amount"
    using some assms(1,3) by (fastforce simp: cls_def)
  have lo: "union_all True (map cl_SingleMin cls) = 0 \<or> union_all True (map cl_SingleMin cls) \<le> cl_SingleMin cl \<and>
      fin_nonneg (union_all True (map cl_SingleMin cls))"
    using union_all_result [of "map cl_SingleMin cls" True] sane cl(1) by (auto simp: sane_limits_def better_def)
  have hi: "union_all False (map cl_SingleMax cls) = 0 \<or> cl_SingleMax cl \<le> union_all False (map cl_SingleMax cls) \<and>
      cl_SingleMax cl \<noteq> 0 \<and> fin_nonneg (union_all False (map cl_SingleMax cls))"
  proof (cases "0 \<in> set (map cl_SingleMax cls)")
    case True
    then show ?thesis using union_fold_zero [of "map cl_SingleMax cls" False 0 True] by (auto simp: union_all_def split: prod.splits)
  next
    case False
    then have "cl_SingleMax cl \<noteq> 0" using cl(1) by auto
    with union_all_result [of "map cl_SingleMax cls" False] sane cl(1) show ?thesis by (auto simp: sane_limits_def better_def)
  qed
  have "fin_nonneg (cl_SingleMin cl)" "fin_nonneg (cl_SingleMax cl)" using sane cl(1) by (auto simp: sane_limits_def)
  with lo hi cl(2) assms(4) show ?thesis unfolding ag accepts_def by (auto simp: Fin_zero elim!: fin_nonnegE)
qed

section \<open>Amounts are bounded\<close>

lemma round_decimal_cents: "round_decimal (of_int k / 100) 2 = of_int k / 100"
  using round_decimal_of_int [of k 2] by simp

lemma round_up_cents: "\<exists>k. round_up v 2 = of_int k / 100"
  by (auto simp: round_up_def Let_def)

lemma round_up_bounds: "0 \<le> v \<Longrightarrow> v \<le> round_up v 2 \<and> round_up v 2 < v + 1 / 100"
proof -
  assume v: "0 \<le> v"
  then have r: "round_up v 2 = of_int \<lceil>v * 100\<rceil> / 100" by (simp add: round_up_def Let_def not_less)
  have "v * 100 \<le> of_int \<lceil>v * 100\<rceil>" "of_int \<lceil>v * 100\<rceil> < v * 100 + 1" by linarith+
  then show ?thesis unfolding r by (simp add: field_simps)
qed

text \<open>The user pays the amount and the fee, rounded up to a cent: never less than the fee asks for,
  and less than a cent more.\<close>

theorem CalculatePayAmount_bounds:
  assumes "0 \<le> feeRate" and "0 \<le> k"
  shows "of_int k / 100 * (1 + feeRate / 100) \<le> CalculatePayAmount (of_int k / 100) feeRate \<and>
    CalculatePayAmount (of_int k / 100) feeRate < of_int k / 100 * (1 + feeRate / 100) + 1 / 100"
proof (cases "feeRate = 0")
  case True
  then show ?thesis by (simp add: CalculatePayAmount_def round_decimal_cents)
next
  case False
  let ?a = "of_int k / 100 :: rat"
  let ?fee = "?a * feeRate / 100"
  obtain f where f: "round_up ?fee 2 = of_int f / 100" using round_up_cents by blast
  have s: "?a + of_int f / 100 = of_int (k + f) / 100" by (simp add: add_divide_distrib)
  have "CalculatePayAmount ?a feeRate = round_decimal (?a + round_up ?fee 2) 2"
    using False assms(1) by (simp add: CalculatePayAmount_def)
  then have pay: "CalculatePayAmount ?a feeRate = ?a + round_up ?fee 2"
    by (simp only: f s round_decimal_cents)
  have "0 \<le> ?fee" using assms by simp
  from round_up_bounds [OF this] show ?thesis unfolding pay by (simp add: ring_distribs)
qed

text \<open>A refund of at most the order pays back at most what was paid; a refund of the whole order pays
  back exactly that.\<close>

theorem calculateGatewayRefundAmount_bounds:
  assumes "0 < k" and "0 < refundAmount" and "refundAmount \<le> orderAmount"
  shows "0 \<le> calculateGatewayRefundAmount orderAmount (of_int k / 100) refundAmount \<and>
    calculateGatewayRefundAmount orderAmount (of_int k / 100) refundAmount \<le> of_int k / 100 \<and>
    calculateGatewayRefundAmount orderAmount (of_int k / 100) orderAmount = of_int k / 100"
proof -
  let ?p = "of_int k / 100 :: rat" and ?x = "of_int k / 100 * refundAmount / orderAmount :: rat"
  have o: "0 < orderAmount" using assms(2,3) by simp
  have full: "calculateGatewayRefundAmount orderAmount ?p orderAmount = ?p"
    using o assms(1) by (simp add: calculateGatewayRefundAmount_def amountToleranceCNY_def round_decimal_cents)
  have x: "0 \<le> ?x" "?x \<le> ?p"
  proof -
    show "0 \<le> ?x" using assms o by simp
    have "?p * refundAmount \<le> ?p * orderAmount" using assms by (intro mult_left_mono) simp_all
    then show "?x \<le> ?p" using o by (simp add: divide_le_eq)
  qed
  have "round_decimal 0 2 \<le> round_decimal ?x 2" "round_decimal ?x 2 \<le> round_decimal ?p 2"
    using x by (intro round_decimal_mono; simp)+
  moreover have "round_decimal 0 2 = (0 :: rat)" using round_decimal_cents [of 0] by simp
  ultimately show ?thesis using o assms full round_decimal_cents [of k]
    by (auto simp: calculateGatewayRefundAmount_def)
qed

section \<open>Examples\<close>

definition demo_codec :: codec where
  "demo_codec = \<lparr>cd_json = \<lambda>_. Some None, cd_decrypt = \<lambda>_. None,
     cd_limits = \<lambda>s. Some [''alipay'' \<mapsto> if s = ''small'' then \<lparr>cl_DailyLimit = Fin 100, cl_SingleMin = Fin 1, cl_SingleMax = Fin 50\<rparr>
       else \<lparr>cl_DailyLimit = Fin 9000, cl_SingleMin = Fin 10, cl_SingleMax = Fin 500\<rparr>]\<rparr>"

definition demo_instance :: "int \<Rightarrow> string \<Rightarrow> ProviderInstance" where
  "demo_instance i limits = \<lparr>pi_ID = i, pi_ProviderKey = TypeEasyPay, pi_Config = '''', pi_SupportedTypes = ''alipay, wxpay'',
     pi_Enabled = True, pi_PaymentMode = '''', pi_SortOrder = i, pi_Limits = limits, pi_RefundEnabled = True, pi_AllowUserRefund = True\<rparr>"

lemma SelectInstance_sound_witness:
  "\<exists>i. i \<in> candidates demo_codec '''' [demo_instance 1 ''small'', demo_instance 2 ''big''] '''' ''alipay'' \<and>
     fst (SelectInstance demo_codec '''' (\<lambda>_. Fin 0) [demo_instance 1 ''small'', demo_instance 2 ''big''] '''' ''alipay''
       ''least-amount'' (Fin 300) 0) = Some (buildSelection demo_codec i)"
proof -
  define S where "S = SelectInstance demo_codec '''' (\<lambda>_. Fin 0) [demo_instance 1 ''small'', demo_instance 2 ''big''] '''' ''alipay''
    ''least-amount'' (Fin 300) 0"
  have "map_option se_InstanceID (fst S) = Some ''2''" unfolding S_def by code_simp
  then obtain sel where sel: "fst S = Some sel" by auto
  then have "S = (Some sel, snd S)" by (metis prod.collapse)
  from SelectInstance_sound [OF this [unfolded S_def]] obtain i where
    "i \<in> candidates demo_codec '''' [demo_instance 1 ''small'', demo_instance 2 ''big''] '''' ''alipay''" "sel = buildSelection demo_codec i"
    by (force simp: S_def)
  with sel show ?thesis unfolding S_def by blast
qed

lemma round_robin_fair_witness:
  "mset (picks ''round-robin'' [(demo_instance 1 '''', 0), (demo_instance 2 '''', 0)] 2 5) =
     {#(demo_instance 1 '''', 0), (demo_instance 2 '''', 0)#}"
proof -
  let ?cs = "[(demo_instance 1 '''', 0), (demo_instance 2 '''', 0)]"
  have n: "length ?cs = 2" by simp
  have "unat (5 :: 64 word) + length ?cs < 2 ^ 64" by simp
  from round_robin_fair [OF _ _ this, of "''round-robin''"] show ?thesis unfolding n by (simp del: picks.simps)
qed

lemma method_limits_widest_witness:
  "accepts (ml_SingleMin (pcAggregateMethodLimits demo_codec ''alipay'' [demo_instance 1 ''small'', demo_instance 2 ''big'']))
     (ml_SingleMax (pcAggregateMethodLimits demo_codec ''alipay'' [demo_instance 1 ''small'', demo_instance 2 ''big''])) (Fin 300) \<and>
   \<not> accepts (Fin 1) (Fin 50) (Fin 300)"
  using method_limits_widest [of "demo_instance 2 ''big''" "[demo_instance 1 ''small'', demo_instance 2 ''big'']" demo_codec
      "''alipay''" "Fin 300"]
  by (auto simp: pcInstanceTypeLimits_def demo_instance_def demo_codec_def accepts_def sane_limits_def Fin_zero Fin_one)

lemma CalculatePayAmount_bounds_witness: "CalculatePayAmount (1001 / 100) (3 / 2) < 1001 / 100 * (1 + 3 / 200) + 1 / 100"
  using CalculatePayAmount_bounds [of "3 / 2" 1001] by simp

lemma calculateGatewayRefundAmount_bounds_witness: "calculateGatewayRefundAmount 7 (1050 / 100) 2 \<le> 1050 / 100"
  using calculateGatewayRefundAmount_bounds [of 1050 2 7] by simp

lemma pcComputeGlobalRange_order_independent_witness:
  "pcComputeGlobalRange [\<lparr>ml_PaymentType = ''a'', ml_SingleMin = Fin 3, ml_SingleMax = Fin 9, ml_DailyLimit = 0\<rparr>,
       \<lparr>ml_PaymentType = ''b'', ml_SingleMin = Fin 1, ml_SingleMax = Fin 7, ml_DailyLimit = 0\<rparr>] =
     pcComputeGlobalRange [\<lparr>ml_PaymentType = ''b'', ml_SingleMin = Fin 1, ml_SingleMax = Fin 7, ml_DailyLimit = 0\<rparr>,
       \<lparr>ml_PaymentType = ''a'', ml_SingleMin = Fin 3, ml_SingleMax = Fin 9, ml_DailyLimit = 0\<rparr>]"
  by (rule pcComputeGlobalRange_order_independent) (simp_all add: add_mset_commute)

end
