(* ===== verification/Payment.thy ===== *)
theory Payment
  imports Affiliate PaymentMethods
begin

text \<open>
  Payment orders (\<open>backend/internal/service/payment_fulfillment.go\<close>, \<open>payment_order_lifecycle.go\<close>,
  \<open>payment_order_provider_snapshot.go\<close>, parts of \<open>payment_service.go\<close>, \<open>payment_refund.go\<close> and
  \<open>payment_stats.go\<close>): from the notification of a provider to the credited balance or subscription.

  The state holds the database (orders, audit log, provider instances, and the tables of the other
  services, with the schedule of storage faults that all of them share) and the registry of loaded
  providers. A provider is a record of its answers to the calls the service makes; it is created from
  an instance by a parameter, as its clients are not part of this repository's state. Within one call
  of the service the clock reads one time. The texts of errors and of audit details are left out.

  The list \<open>pd_refunds\<close> holds what providers have paid back, as order and amount, and whether the answer of the
  provider confirmed it.
  Writing to a nil map panics in Go; the error \<open>PayPanic\<close> stands for that, and no code handles it.
\<close>

section \<open>Data\<close>

datatype order_status =
    OrderStatusPending | OrderStatusPaid | OrderStatusRecharging | OrderStatusCompleted | OrderStatusExpired
  | OrderStatusCancelled | OrderStatusFailed | OrderStatusRefundRequested | OrderStatusRefunding
  | OrderStatusPartiallyRefunded | OrderStatusRefunded | OrderStatusRefundFailed

definition OrderTypeBalance :: string where "OrderTypeBalance = ''balance''"

definition OrderTypeSubscription :: string where "OrderTypeSubscription = ''subscription''"

definition EntityStatusActive :: string where "EntityStatusActive = ''active''"

definition orderIDPrefix :: string where "orderIDPrefix = ''sub2_''"

definition paymentGraceMinutes :: int where "paymentGraceMinutes = 5"

text \<open>The values of the JSON snapshot of a provider.\<close>

datatype snap_value = SnapString string | SnapInt int | SnapFloat float64 | SnapOther

record PaymentOrder =
  po_ID :: int
  po_UserID :: int
  po_Amount :: rat
  po_PayAmount :: rat
  po_RechargeCode :: string
  po_OutTradeNo :: string
  po_PaymentType :: string
  po_PaymentTradeNo :: string
  po_OrderType :: string
  po_SubscriptionGroupID :: "int option"
  po_SubscriptionDays :: "int option"
  po_ProviderInstanceID :: "string option"
  po_ProviderKey :: "string option"
  po_ProviderSnapshot :: "string \<Rightarrow> snap_value option"
  po_Status :: order_status
  po_RefundAmount :: rat
  po_RefundReason :: "string option"
  po_RefundRequestReason :: "string option"
  po_ForceRefund :: bool
  po_ExpiresAt :: instant
  po_PaidAt :: "instant option"
  po_CompletedAt :: "instant option"
  po_FailedAt :: "instant option"
  po_RefundAt :: "instant option"
  po_RefundRequestedAt :: "instant option"
  po_CreatedAt :: instant
  po_UpdatedAt :: instant

record audit_log =
  au_OrderID :: int
  au_Action :: string
  au_Operator :: string
  au_CreatedAt :: instant

record query_response =
  qr_TradeNo :: string
  qr_Paid :: bool
  qr_Amount :: float64
  qr_Metadata :: "(string \<times> string) list"

text \<open>A provider: its key and types, the trade number with which it answers a payment of an order number and
  an amount (\<open>None\<close> for an error), its answers to the queries of one call in turn (\<open>None\<close> for an error),
  the outcome of a refund (\<open>pv_Refund\<close> of trade number, order number and amount), and the
  identity of its merchant. If it cannot report an identity, the last is \<open>None\<close>.

  A refund has one of three outcomes: the adapter confirms it (as succeeded or pending); the money is not paid back and the
  adapter returns an error; or the money is paid back and the adapter returns an error all the same, as after
  a timeout of the request.\<close>

datatype refund_outcome = RefundConfirmed | RefundRefused | RefundUnconfirmed

record provider =
  pv_ProviderKey :: string
  pv_SupportedTypes :: "string list"
  pv_CreatePayment :: "string \<Rightarrow> rat \<Rightarrow> string option"
  pv_QueryOrder :: "nat \<Rightarrow> string \<Rightarrow> query_response option"
  pv_Refund :: "string \<Rightarrow> string \<Rightarrow> rat \<Rightarrow> refund_outcome"
  pv_Identity :: "(string \<times> string) list option"

record SubscriptionPlan =
  pl_ID :: int
  pl_GroupID :: int
  pl_Price :: rat
  pl_ValidityDays :: int
  pl_ValidityUnit :: string
  pl_ForSale :: bool

record paydb =
  pd_aff :: affdb
  pd_orders :: "PaymentOrder list"
  pd_audits :: "audit_log list"
  pd_instances :: "ProviderInstance list"
  pd_plans :: "SubscriptionPlan list"
  pd_next :: int
  pd_registry :: "string \<Rightarrow> provider option"
  pd_loaded :: bool
  pd_counter :: "64 word"
  pd_refunds :: "(int \<times> rat \<times> bool) list"

datatype pay_error =
    PayStorageError | PayOrderNotFound | PayNotFound | PayForbidden | PayInvalidStatus | PayConflict | PayProviderMismatch
  | PayMetadataMismatch | PayInvalidAmount | PayAmountMismatch | PayBeingProcessed | PayNotPaid | PayGroupInactive
  | PayAlreadyClaimed | PayClaimMissing | PayInstanceUnresolved | PayProviderNotFound | PayPanic
  | PayRedeem redeem_error | PayAffiliate aff_error | PaySubscription sub_error
  | PayInvalidOutTradeNo | PayBalanceNotEnough | PayInvalidOrderType | PayUserRefundDisabled | PayRefundDisabled
  | PayProviderLookup | PayInvalidRefundAmount | PayRefundExceeded | PayRefundFailed
  | PayDisabled | PayTooManyPending | PayDailyLimit | PayCancelLimited | PayUserInactive | PayPlanUnavailable | PayNoInstance
  | PayCreateFailed

type_synonym 'a pay_result = "(pay_error + 'a) \<times> paydb"

text \<open>What the service is configured with: the decoding of configurations, the creation of providers, the
  affiliate service (if there is one) and its settings, its generated codes, and the lifetime of the
  subscription service's cache, and the provider key that is set as the source of a visible method.\<close>

record pay_env =
  pe_codec :: codec
  pe_CreateProvider :: "string \<Rightarrow> string \<Rightarrow> (string \<Rightarrow> string option) option \<Rightarrow> provider option"
  pe_affiliate :: bool
  pe_settings :: "aff_settings option"
  pe_codes :: "nat \<Rightarrow> string"
  pe_sub_ttl :: duration
  pe_source :: "string \<Rightarrow> string option"

section \<open>The database\<close>

definition pay_call :: "paydb \<Rightarrow> bool \<times> paydb" where
  "pay_call pd = (let (fail, ad) = aff_call (pd_aff pd) in (fail, pd\<lparr>pd_aff := ad\<rparr>))"

definition on_aff :: "(affdb \<Rightarrow> 'a aff_result) \<Rightarrow> paydb \<Rightarrow> 'a pay_result" where
  "on_aff call pd =
     (case call (pd_aff pd) of
        (Inl e, ad) \<Rightarrow> (Inl (PayAffiliate e), pd\<lparr>pd_aff := ad\<rparr>)
      | (Inr a, ad) \<Rightarrow> (Inr a, pd\<lparr>pd_aff := ad\<rparr>))"

definition on_shop :: "(shop \<Rightarrow> 'a redeem_result) \<Rightarrow> paydb \<Rightarrow> 'a pay_result" where
  "on_shop call pd =
     (case call (ad_shop (pd_aff pd)) of
        (Inl e, sh) \<Rightarrow> (Inl (PayRedeem e), pd\<lparr>pd_aff := (pd_aff pd)\<lparr>ad_shop := sh\<rparr>\<rparr>)
      | (Inr a, sh) \<Rightarrow> (Inr a, pd\<lparr>pd_aff := (pd_aff pd)\<lparr>ad_shop := sh\<rparr>\<rparr>))"

definition on_subs :: "(sub_service \<Rightarrow> (sub_error + 'a) \<times> sub_service) \<Rightarrow> paydb \<Rightarrow> 'a pay_result" where
  "on_subs call pd =
     (let sh = ad_shop (pd_aff pd); put = (\<lambda>svc. pd\<lparr>pd_aff := (pd_aff pd)\<lparr>ad_shop := sh\<lparr>sh_svc := svc\<rparr>\<rparr>\<rparr>)
      in case call (sh_svc sh) of
           (Inl e, svc) \<Rightarrow> (Inl (PaySubscription e), put svc)
         | (Inr a, svc) \<Rightarrow> (Inr a, put svc))"

definition order_Get :: "int \<Rightarrow> paydb \<Rightarrow> PaymentOrder pay_result" where
  "order_Get i pd0 =
     (let (fail, pd) = pay_call pd0
      in if fail then (Inl PayStorageError, pd)
         else case find (\<lambda>ord. po_ID ord = i) (pd_orders pd) of None \<Rightarrow> (Inl PayNotFound, pd) | Some ord \<Rightarrow> (Inr ord, pd))"

text \<open>\<open>Only\<close>: an error if there is not exactly one.\<close>

definition order_by_out_trade_no :: "string \<Rightarrow> paydb \<Rightarrow> PaymentOrder pay_result" where
  "order_by_out_trade_no no pd0 =
     (let (fail, pd) = pay_call pd0
      in if fail then (Inl PayStorageError, pd)
         else case filter (\<lambda>ord. po_OutTradeNo ord = no) (pd_orders pd) of
                [] \<Rightarrow> (Inl PayNotFound, pd)
              | [ord] \<Rightarrow> (Inr ord, pd)
              | _ \<Rightarrow> (Inl PayStorageError, pd))"

text \<open>A conditional update; the answer says whether a row was changed.\<close>

definition order_update :: "instant \<Rightarrow> (PaymentOrder \<Rightarrow> bool) \<Rightarrow> (PaymentOrder \<Rightarrow> PaymentOrder) \<Rightarrow> paydb \<Rightarrow> bool pay_result" where
  "order_update now P f pd0 =
     (let (fail, pd) = pay_call pd0
      in if fail then (Inl PayStorageError, pd)
         else (Inr (list_ex P (pd_orders pd)),
               pd\<lparr>pd_orders := map (\<lambda>ord. if P ord then (f ord)\<lparr>po_UpdatedAt := now\<rparr> else ord) (pd_orders pd)\<rparr>))"

text \<open>The audit log has one entry for each order and action; a failed insertion is ignored.\<close>

definition has_audit :: "int \<Rightarrow> string \<Rightarrow> audit_log list \<Rightarrow> bool" where
  "has_audit oid action = list_ex (\<lambda>a. au_OrderID a = oid \<and> au_Action a = action)"

definition new_audit :: "instant \<Rightarrow> int \<Rightarrow> string \<Rightarrow> string \<Rightarrow> audit_log" where
  "new_audit now oid action operator =
     \<lparr>au_OrderID = oid, au_Action = action, au_Operator = operator, au_CreatedAt = now\<rparr>"

definition writeAuditLog :: "instant \<Rightarrow> int \<Rightarrow> string \<Rightarrow> string \<Rightarrow> paydb \<Rightarrow> paydb" where
  "writeAuditLog now oid action operator pd0 =
     (let (fail, pd) = pay_call pd0
      in if fail \<or> has_audit oid action (pd_audits pd) then pd
         else pd\<lparr>pd_audits := pd_audits pd @ [new_audit now oid action operator]\<rparr>)"

definition hasAuditLog :: "int \<Rightarrow> string \<Rightarrow> paydb \<Rightarrow> bool \<times> paydb" where
  "hasAuditLog oid action pd0 =
     (let (fail, pd) = pay_call pd0 in (\<not> fail \<and> has_audit oid action (pd_audits pd), pd))"

definition instance_Get :: "int \<Rightarrow> paydb \<Rightarrow> ProviderInstance pay_result" where
  "instance_Get i pd0 =
     (let (fail, pd) = pay_call pd0
      in if fail then (Inl PayStorageError, pd)
         else case find (\<lambda>p. pi_ID p = i) (pd_instances pd) of None \<Rightarrow> (Inl PayNotFound, pd) | Some p \<Rightarrow> (Inr p, pd))"

definition instance_Query :: "(ProviderInstance \<Rightarrow> bool) \<Rightarrow> paydb \<Rightarrow> ProviderInstance list pay_result" where
  "instance_Query P pd0 =
     (let (fail, pd) = pay_call pd0
      in if fail then (Inl PayStorageError, pd) else (Inr (filter P (pd_instances pd)), pd))"

text \<open>A transaction of the payment service's client; the sequence of identifiers is not rolled back.\<close>

definition pay_tx :: "(paydb \<Rightarrow> 'a pay_result) \<Rightarrow> paydb \<Rightarrow> 'a pay_result" where
  "pay_tx = run_tx pay_call PayStorageError
     (\<lambda>pd pd'. pd\<lparr>pd_aff := (pd_aff pd)\<lparr>ad_shop := faults_from (ad_shop (pd_aff pd)) (ad_shop (pd_aff pd'))\<rparr>,
       pd_next := pd_next pd'\<rparr>)"

section \<open>The provider of an order\<close>

definition psStringValue :: "string option \<Rightarrow> string" where
  "psStringValue v = (case v of None \<Rightarrow> '''' | Some s \<Rightarrow> s)"

definition psSnapshotStringValue :: "snap_value option \<Rightarrow> string" where
  "psSnapshotStringValue v = (case v of Some (SnapString s) \<Rightarrow> TrimSpace s | _ \<Rightarrow> '''')"

definition psSnapshotIntValue :: "snap_value option \<Rightarrow> int" where
  "psSnapshotIntValue v =
     (case v of
        Some (SnapInt n) \<Rightarrow> n
      | Some (SnapFloat x) \<Rightarrow> int_of_float x
      | Some (SnapString s) \<Rightarrow> (case ParseInt (TrimSpace s) of Some n \<Rightarrow> n | None \<Rightarrow> 0)
      | _ \<Rightarrow> 0)"

record provider_snapshot =
  sn_SchemaVersion :: int
  sn_ProviderInstanceID :: string
  sn_ProviderKey :: string
  sn_PaymentMode :: string
  sn_MerchantAppID :: string
  sn_MerchantID :: string
  sn_Currency :: string

definition psOrderProviderSnapshot :: "PaymentOrder \<Rightarrow> provider_snapshot option" where
  "psOrderProviderSnapshot ord =
     (let m = po_ProviderSnapshot ord;
          sn = \<lparr>sn_SchemaVersion = psSnapshotIntValue (m ''schema_version''),
            sn_ProviderInstanceID = psSnapshotStringValue (m ''provider_instance_id''),
            sn_ProviderKey = psSnapshotStringValue (m ''provider_key''),
            sn_PaymentMode = psSnapshotStringValue (m ''payment_mode''),
            sn_MerchantAppID = psSnapshotStringValue (m ''merchant_app_id''),
            sn_MerchantID = psSnapshotStringValue (m ''merchant_id''),
            sn_Currency = psSnapshotStringValue (m ''currency'')\<rparr>
      in if sn = \<lparr>sn_SchemaVersion = 0, sn_ProviderInstanceID = '''', sn_ProviderKey = '''', sn_PaymentMode = '''',
            sn_MerchantAppID = '''', sn_MerchantID = '''', sn_Currency = ''''\<rparr>
         then None else Some sn)"

definition resolveSnapshotOrderProviderInstance ::
    "PaymentOrder \<Rightarrow> provider_snapshot \<Rightarrow> paydb \<Rightarrow> ProviderInstance option pay_result" where
  "resolveSnapshotOrderProviderInstance ord sn pd0 =
     (let snapshotID = TrimSpace (sn_ProviderInstanceID sn); columnID = TrimSpace (psStringValue (po_ProviderInstanceID ord));
          wanted = (if snapshotID = '''' then columnID else snapshotID)
      in if wanted = '''' then (Inl PayInstanceUnresolved, pd0)
         else if columnID \<noteq> '''' \<and> sn_ProviderInstanceID sn \<noteq> '''' \<and> \<not> EqualFold columnID (sn_ProviderInstanceID sn)
         then (Inl PayInstanceUnresolved, pd0)
         else case ParseInt wanted of
                None \<Rightarrow> (Inl PayInstanceUnresolved, pd0)
              | Some i \<Rightarrow>
                  (case instance_Get i pd0 of
                     (Inl e, pd) \<Rightarrow> (Inl (if e = PayNotFound then PayInstanceUnresolved else e), pd)
                   | (Inr inst, pd) \<Rightarrow>
                       if sn_ProviderKey sn \<noteq> '''' \<and> \<not> EqualFold (TrimSpace (pi_ProviderKey inst)) (sn_ProviderKey sn)
                       then (Inl PayInstanceUnresolved, pd) else (Inr (Some inst), pd)))"

definition psLegacyOrderMatchesInstance :: "string \<Rightarrow> ProviderInstance \<Rightarrow> bool" where
  "psLegacyOrderMatchesInstance orderPaymentType inst \<longleftrightarrow>
     (let baseType = GetBasePaymentType (TrimSpace orderPaymentType); key = TrimSpace (pi_ProviderKey inst)
      in if baseType = '''' then False
         else if baseType = TypeStripe then key = TypeStripe
         else if key = TypeStripe then False
         else key = baseType \<or> InstanceSupportsType (pi_SupportedTypes inst) baseType)"

definition psFilterLegacyOrderProviderInstances :: "string \<Rightarrow> ProviderInstance list \<Rightarrow> ProviderInstance list" where
  "psFilterLegacyOrderProviderInstances orderPaymentType instances =
     (if TrimSpace orderPaymentType = '''' then instances
      else filter (psLegacyOrderMatchesInstance orderPaymentType) instances)"

definition the_only :: "'a list \<Rightarrow> 'a option" where
  "the_only xs = (case xs of [x] \<Rightarrow> Some x | _ \<Rightarrow> None)"

definition resolveUniqueLegacyOrderProviderInstance :: "PaymentOrder \<Rightarrow> paydb \<Rightarrow> ProviderInstance option pay_result" where
  "resolveUniqueLegacyOrderProviderInstance ord pd =
     (let paymentType = GetBasePaymentType (TrimSpace (po_PaymentType ord)); key = TrimSpace (psStringValue (po_ProviderKey ord))
      in if key \<noteq> ''''
         then and_then (instance_Query (\<lambda>i. pi_ProviderKey i = key) pd) (\<lambda>is pd.
           (Inr (the_only (psFilterLegacyOrderProviderInstances paymentType is)), pd))
         else if paymentType = '''' then (Inr None, pd)
         else and_then (instance_Query (\<lambda>_. True) pd) (\<lambda>is pd.
           (Inr (the_only (psFilterLegacyOrderProviderInstances paymentType is)), pd)))"

definition getOrderProviderInstance :: "PaymentOrder \<Rightarrow> paydb \<Rightarrow> ProviderInstance option pay_result" where
  "getOrderProviderInstance ord pd =
     (case psOrderProviderSnapshot ord of
        Some sn \<Rightarrow> resolveSnapshotOrderProviderInstance ord sn pd
      | None \<Rightarrow>
          let idStr = TrimSpace (psStringValue (po_ProviderInstanceID ord))
          in if idStr = '''' then resolveUniqueLegacyOrderProviderInstance ord pd
             else case ParseInt idStr of
                    None \<Rightarrow> (Inr None, pd)
                  | Some i \<Rightarrow> and_then (instance_Get i pd) (\<lambda>inst pd. (Inr (Some inst), pd)))"

definition getRefundOrderProviderInstance :: "PaymentOrder \<Rightarrow> paydb \<Rightarrow> ProviderInstance option pay_result" where
  "getRefundOrderProviderInstance ord pd =
     (case psOrderProviderSnapshot ord of
        Some sn \<Rightarrow> resolveSnapshotOrderProviderInstance ord sn pd
      | None \<Rightarrow>
          let idStr = TrimSpace (psStringValue (po_ProviderInstanceID ord))
          in if idStr = '''' then (Inr None, pd)
             else case ParseInt idStr of
                    None \<Rightarrow> (Inl PayInstanceUnresolved, pd)
                  | Some i \<Rightarrow>
                      (case instance_Get i pd of
                         (Inl e, pd) \<Rightarrow> (Inl (if e = PayNotFound then PayInstanceUnresolved else e), pd)
                       | (Inr inst, pd) \<Rightarrow> (Inr (Some inst), pd)))"

definition GetProviderKey :: "string \<Rightarrow> paydb \<Rightarrow> string" where
  "GetProviderKey paymentType pd = (case pd_registry pd paymentType of None \<Rightarrow> '''' | Some p \<Rightarrow> pv_ProviderKey p)"

definition expectedNotificationProviderKey :: "paydb \<Rightarrow> string \<Rightarrow> string \<Rightarrow> string \<Rightarrow> string" where
  "expectedNotificationProviderKey pd orderPaymentType orderProviderKey instanceProviderKey =
     (if TrimSpace instanceProviderKey \<noteq> '''' then TrimSpace instanceProviderKey
      else if TrimSpace orderProviderKey \<noteq> '''' then TrimSpace orderProviderKey
      else if TrimSpace (GetProviderKey orderPaymentType pd) \<noteq> '''' then TrimSpace (GetProviderKey orderPaymentType pd)
      else TrimSpace orderPaymentType)"

definition expectedNotificationProviderKeyForOrder :: "paydb \<Rightarrow> PaymentOrder \<Rightarrow> string \<Rightarrow> string" where
  "expectedNotificationProviderKeyForOrder pd ord instanceProviderKey =
     expectedNotificationProviderKey pd (po_PaymentType ord)
       (case psOrderProviderSnapshot ord of
          None \<Rightarrow> psStringValue (po_ProviderKey ord)
        | Some sn \<Rightarrow> if sn_ProviderKey sn \<noteq> '''' then sn_ProviderKey sn else psStringValue (po_ProviderKey ord))
       instanceProviderKey"

text \<open>The merchant that is named must be the one of the order. The metadata are a list of keys and values,
  as only the empty list skips the check.\<close>

definition identity_ok :: "string \<Rightarrow> string \<Rightarrow> bool" where
  "identity_ok expected actual \<longleftrightarrow>
     TrimSpace expected = '''' \<or> TrimSpace actual \<noteq> '''' \<and> EqualFold (TrimSpace expected) (TrimSpace actual)"

definition validateProviderSnapshotMetadata :: "PaymentOrder \<Rightarrow> string \<Rightarrow> (string \<times> string) list \<Rightarrow> bool" where
  "validateProviderSnapshotMetadata ord providerKey metadata \<longleftrightarrow>
     metadata = [] \<or>
     (case psOrderProviderSnapshot ord of
        None \<Rightarrow> True
      | Some sn \<Rightarrow>
          let key = TrimSpace providerKey; md = (\<lambda>k. psStringValue (map_of metadata k))
          in if key = TypeWxpay
             then identity_ok (sn_MerchantAppID sn) (md ''appid'') \<and> identity_ok (sn_MerchantID sn) (md ''mchid'') \<and>
               identity_ok (sn_Currency sn) (md ''currency'') \<and>
               (TrimSpace (md ''trade_state'') = '''' \<or> EqualFold (TrimSpace (md ''trade_state'')) ''SUCCESS'')
             else if key = TypeAlipay then identity_ok (sn_MerchantAppID sn) (md ''app_id'')
             else if key = TypeEasyPay then identity_ok (sn_MerchantID sn) (md ''pid'')
             else True)"

section \<open>Fulfilment\<close>

definition psIsRefundStatus :: "order_status \<Rightarrow> bool" where
  "psIsRefundStatus s \<longleftrightarrow>
     s \<in> {OrderStatusRefundRequested, OrderStatusRefunding, OrderStatusPartiallyRefunded, OrderStatusRefunded, OrderStatusRefundFailed}"

definition tryClaimAffiliateRebateAudit :: "instant \<Rightarrow> int \<Rightarrow> paydb \<Rightarrow> bool pay_result" where
  "tryClaimAffiliateRebateAudit now oid pd0 =
     (let (fail, pd) = pay_call pd0
      in if fail then (Inl PayStorageError, pd)
         else if has_audit oid ''AFFILIATE_REBATE_APPLIED'' (pd_audits pd) \<or> has_audit oid ''AFFILIATE_REBATE_SKIPPED'' (pd_audits pd)
         then (Inr False, pd)
         else (Inr True, pd\<lparr>pd_audits := pd_audits pd @ [new_audit now oid ''AFFILIATE_REBATE_APPLIED'' ''system'']\<rparr>))"

definition updateClaimedAffiliateRebateAudit :: "int \<Rightarrow> string \<Rightarrow> paydb \<Rightarrow> unit pay_result" where
  "updateClaimedAffiliateRebateAudit oid action pd0 =
     (let (fail, pd) = pay_call pd0; hit = (\<lambda>a. au_OrderID a = oid \<and> au_Action a = ''AFFILIATE_REBATE_APPLIED'')
      in if fail then (Inl PayStorageError, pd)
         else if \<not> list_ex hit (pd_audits pd) then (Inl PayClaimMissing, pd)
         else (Inr (), pd\<lparr>pd_audits := map (\<lambda>a. if hit a then a\<lparr>au_Action := action, au_Operator := ''system''\<rparr> else a) (pd_audits pd)\<rparr>))"

text \<open>The rebate, in a transaction: the claim, the accrual and the final entry of the log. A claim that
  was made before ends the transaction without a commit.\<close>

definition rebate_body :: "pay_env \<Rightarrow> instant \<Rightarrow> PaymentOrder \<Rightarrow> paydb \<Rightarrow> unit pay_result" where
  "rebate_body env now ord pd =
     and_then (tryClaimAffiliateRebateAudit now (po_ID ord) pd) (\<lambda>claimed pd.
       if \<not> claimed then (Inl PayAlreadyClaimed, pd)
       else and_then (on_aff (AccrueInviteRebate (pe_settings env) (pe_codes env) now (po_UserID ord) (Fin (po_Amount ord))) pd) (\<lambda>rebate.
         updateClaimedAffiliateRebateAudit (po_ID ord)
           (if rebate \<le> 0 then ''AFFILIATE_REBATE_SKIPPED'' else ''AFFILIATE_REBATE_APPLIED'')))"

definition applyAffiliateRebateForOrder :: "pay_env \<Rightarrow> instant \<Rightarrow> PaymentOrder \<Rightarrow> paydb \<Rightarrow> unit pay_result" where
  "applyAffiliateRebateForOrder env now ord pd0 =
     (if po_OrderType ord \<noteq> OrderTypeBalance \<or> po_Amount ord \<le> 0 \<or> \<not> pe_affiliate env then (Inr (), pd0)
      else case pay_tx (rebate_body env now ord) pd0 of
             (Inl e, pd) \<Rightarrow>
               if e = PayAlreadyClaimed then (Inr (), pd)
               else (Inl e, writeAuditLog now (po_ID ord) ''AFFILIATE_REBATE_FAILED'' ''system'' pd)
           | (Inr _, pd) \<Rightarrow> (Inr (), pd))"

definition markCompleted :: "instant \<Rightarrow> PaymentOrder \<Rightarrow> string \<Rightarrow> paydb \<Rightarrow> unit pay_result" where
  "markCompleted now ord action pd =
     and_then (order_update now (\<lambda>d. po_ID d = po_ID ord \<and> po_Status d = OrderStatusRecharging)
         (\<lambda>d. d\<lparr>po_Status := OrderStatusCompleted, po_CompletedAt := Some now\<rparr>) pd) (\<lambda>_ pd.
       (Inr (), writeAuditLog now (po_ID ord) action ''system'' pd))"

definition markFailed :: "instant \<Rightarrow> int \<Rightarrow> paydb \<Rightarrow> paydb" where
  "markFailed now oid pd0 =
     (case order_update now (\<lambda>d. po_ID d = oid \<and> po_Status d = OrderStatusRecharging)
             (\<lambda>d. d\<lparr>po_Status := OrderStatusFailed, po_FailedAt := Some now\<rparr>) pd0 of
        (Inr True, pd) \<Rightarrow> writeAuditLog now oid ''FULFILLMENT_FAILED'' ''system'' pd
      | (_, pd) \<Rightarrow> pd)"

datatype redeem_action = redeemActionCreate | redeemActionRedeem | redeemActionSkipCompleted

definition resolveRedeemAction :: "redeem_error + RedeemCode \<Rightarrow> redeem_action" where
  "resolveRedeemAction r =
     (case r of Inl _ \<Rightarrow> redeemActionCreate | Inr c \<Rightarrow> if IsUsed c then redeemActionSkipCompleted else redeemActionRedeem)"

definition order_code :: "PaymentOrder \<Rightarrow> RedeemCode" where
  "order_code ord =
     \<lparr>rc_ID = 0, rc_Code = po_RechargeCode ord, rc_Type = RedeemTypeBalance, rc_Value = Fin (po_Amount ord),
      rc_Status = StatusUnused, rc_UsedBy = None, rc_UsedAt = None, rc_GroupID = None, rc_ValidityDays = 0\<rparr>"

text \<open>Crediting the balance of the order with a redeem code of its own.\<close>

definition credit_order :: "instant \<Rightarrow> PaymentOrder \<Rightarrow> paydb \<Rightarrow> unit pay_result" where
  "credit_order now ord pd0 =
     (let (existing, sh) = code_GetByCode (po_RechargeCode ord) (ad_shop (pd_aff pd0));
          pd = pd0\<lparr>pd_aff := (pd_aff pd0)\<lparr>ad_shop := sh\<rparr>\<rparr>
      in case resolveRedeemAction existing of
           redeemActionSkipCompleted \<Rightarrow> (Inr (), pd)
         | redeemActionCreate \<Rightarrow>
             and_then (on_shop (CreateCode (order_code ord)) pd) (\<lambda>_ pd.
             and_then (on_shop (Redeem (\<lambda>_. now) (po_UserID ord) (po_RechargeCode ord)) pd) (\<lambda>_ pd. (Inr (), pd)))
         | redeemActionRedeem \<Rightarrow>
             and_then (on_shop (Redeem (\<lambda>_. now) (po_UserID ord) (po_RechargeCode ord)) pd) (\<lambda>_ pd. (Inr (), pd)))"

definition doBalance :: "pay_env \<Rightarrow> instant \<Rightarrow> PaymentOrder \<Rightarrow> paydb \<Rightarrow> unit pay_result" where
  "doBalance env now ord pd =
     and_then (credit_order now ord pd) (\<lambda>_ pd.
     and_then (applyAffiliateRebateForOrder env now ord pd) (\<lambda>_ pd.
     markCompleted now ord ''RECHARGE_SUCCESS'' pd))"

definition order_notes :: "int \<Rightarrow> string" where
  "order_notes i = ''payment order '' @ itoa i"

definition doSub :: "instant \<Rightarrow> PaymentOrder \<Rightarrow> int \<Rightarrow> int \<Rightarrow> paydb \<Rightarrow> unit pay_result" where
  "doSub now ord gid n pd0 =
     (case on_subs (on_db (group_GetByID gid)) pd0 of
        (Inl _, pd) \<Rightarrow> (Inl PayGroupInactive, pd)
      | (Inr g, pd1) \<Rightarrow>
          if gr_Status g \<noteq> EntityStatusActive then (Inl PayGroupInactive, pd1)
          else let (assigned, pd) = hasAuditLog (po_ID ord) ''SUBSCRIPTION_SUCCESS'' pd1
               in if assigned then markCompleted now ord ''SUBSCRIPTION_SUCCESS'' pd
                  else and_then (on_subs (AssignOrExtendSubscription now
                           \<lparr>in_UserID = po_UserID ord, in_GroupID = gid, in_ValidityDays = n, in_AssignedBy = 0,
                            in_Notes = order_notes (po_ID ord)\<rparr>) pd) (\<lambda>_ pd.
                         markCompleted now ord ''SUBSCRIPTION_SUCCESS'' pd))"

text \<open>The checks that both kinds of fulfilment begin with: the order is complete already, cannot be
  fulfilled, or is to be locked.\<close>

definition can_fulfill :: "PaymentOrder \<Rightarrow> (pay_error + unit) option" where
  "can_fulfill ord =
     (if po_Status ord = OrderStatusCompleted then Some (Inr ())
      else if psIsRefundStatus (po_Status ord) then Some (Inl PayInvalidStatus)
      else if po_Status ord \<noteq> OrderStatusPaid \<and> po_Status ord \<noteq> OrderStatusFailed then Some (Inl PayInvalidStatus)
      else None)"

definition lock_order :: "instant \<Rightarrow> int \<Rightarrow> paydb \<Rightarrow> bool pay_result" where
  "lock_order now oid =
     order_update now (\<lambda>d. po_ID d = oid \<and> po_Status d \<in> {OrderStatusPaid, OrderStatusFailed})
       (\<lambda>d. d\<lparr>po_Status := OrderStatusRecharging\<rparr>)"

definition ExecuteBalanceFulfillment :: "pay_env \<Rightarrow> instant \<Rightarrow> int \<Rightarrow> paydb \<Rightarrow> unit pay_result" where
  "ExecuteBalanceFulfillment env now oid pd0 =
     (case order_Get oid pd0 of
        (Inl _, pd) \<Rightarrow> (Inl PayNotFound, pd)
      | (Inr ord, pd) \<Rightarrow>
          (case can_fulfill ord of
             Some r \<Rightarrow> (r, pd)
           | None \<Rightarrow> and_then (lock_order now oid pd) (\<lambda>locked pd.
               if \<not> locked then (Inr (), pd)
               else case doBalance env now ord pd of
                      (Inl e, pd) \<Rightarrow> (Inl e, markFailed now oid pd)
                    | (Inr _, pd) \<Rightarrow> (Inr (), pd))))"

definition ExecuteSubscriptionFulfillment :: "instant \<Rightarrow> int \<Rightarrow> paydb \<Rightarrow> unit pay_result" where
  "ExecuteSubscriptionFulfillment now oid pd0 =
     (case order_Get oid pd0 of
        (Inl _, pd) \<Rightarrow> (Inl PayNotFound, pd)
      | (Inr ord, pd) \<Rightarrow>
          (case can_fulfill ord of
             Some r \<Rightarrow> (r, pd)
           | None \<Rightarrow>
               (case (po_SubscriptionGroupID ord, po_SubscriptionDays ord) of
                  (Some gid, Some n) \<Rightarrow>
                    and_then (lock_order now oid pd) (\<lambda>locked pd.
                      if \<not> locked then (Inr (), pd)
                      else case doSub now ord gid n pd of
                             (Inl e, pd) \<Rightarrow> (Inl e, markFailed now oid pd)
                           | (Inr _, pd) \<Rightarrow> (Inr (), pd))
                | _ \<Rightarrow> (Inl PayInvalidStatus, pd))))"

definition executeFulfillment :: "pay_env \<Rightarrow> instant \<Rightarrow> int \<Rightarrow> paydb \<Rightarrow> unit pay_result" where
  "executeFulfillment env now oid pd =
     and_then (order_Get oid pd) (\<lambda>ord pd.
       if po_OrderType ord = OrderTypeSubscription then ExecuteSubscriptionFulfillment now oid pd
       else ExecuteBalanceFulfillment env now oid pd)"

definition RetryFulfillment :: "pay_env \<Rightarrow> instant \<Rightarrow> int \<Rightarrow> paydb \<Rightarrow> unit pay_result" where
  "RetryFulfillment env now oid pd0 =
     (case order_Get oid pd0 of
        (Inl _, pd) \<Rightarrow> (Inl PayNotFound, pd)
      | (Inr ord, pd) \<Rightarrow>
          if po_PaidAt ord = None then (Inl PayNotPaid, pd)
          else if psIsRefundStatus (po_Status ord) then (Inl PayInvalidStatus, pd)
          else if po_Status ord = OrderStatusRecharging then (Inl PayBeingProcessed, pd)
          else if po_Status ord = OrderStatusCompleted then (Inl PayInvalidStatus, pd)
          else if po_Status ord \<noteq> OrderStatusFailed \<and> po_Status ord \<noteq> OrderStatusPaid then (Inl PayInvalidStatus, pd)
          else and_then (order_update now (\<lambda>d. po_ID d = oid \<and> po_Status d \<in> {OrderStatusFailed, OrderStatusPaid})
                   (\<lambda>d. d\<lparr>po_Status := OrderStatusPaid, po_FailedAt := None\<rparr>) pd) (\<lambda>_ pd.
                 executeFulfillment env now oid (writeAuditLog now oid ''RECHARGE_RETRY'' ''admin'' pd)))"

section \<open>Notifications\<close>

definition isValidProviderAmount :: "float64 \<Rightarrow> bool" where
  "isValidProviderAmount x \<longleftrightarrow> (case x of Fin r \<Rightarrow> r > 0 | _ \<Rightarrow> False)"

text \<open>The column of the paid amount has two decimals.\<close>

definition paid_amount :: "float64 \<Rightarrow> rat" where
  "paid_amount x = (case x of Fin r \<Rightarrow> round_decimal r 2 | _ \<Rightarrow> 0)"

definition alreadyProcessed :: "pay_env \<Rightarrow> instant \<Rightarrow> int \<Rightarrow> paydb \<Rightarrow> unit pay_result" where
  "alreadyProcessed env now oid pd0 =
     (case order_Get oid pd0 of
        (Inl _, pd) \<Rightarrow> (Inr (), pd)
      | (Inr cur, pd) \<Rightarrow>
          (case po_Status cur of
             OrderStatusFailed \<Rightarrow> executeFulfillment env now oid pd
           | OrderStatusPaid \<Rightarrow> (Inl PayBeingProcessed, pd)
           | OrderStatusRecharging \<Rightarrow> (Inl PayBeingProcessed, pd)
           | OrderStatusExpired \<Rightarrow> (Inr (), writeAuditLog now oid ''PAYMENT_AFTER_EXPIRY'' ''system'' pd)
           | _ \<Rightarrow> (Inr (), pd)))"

definition payable :: "instant \<Rightarrow> int \<Rightarrow> PaymentOrder \<Rightarrow> bool" where
  "payable now oid d \<longleftrightarrow>
     po_ID d = oid \<and>
     (po_Status d = OrderStatusPending \<or> po_Status d = OrderStatusCancelled \<or>
      po_Status d = OrderStatusExpired \<and> now - minutes paymentGraceMinutes \<le> po_UpdatedAt d)"

definition toPaid :: "pay_env \<Rightarrow> instant \<Rightarrow> PaymentOrder \<Rightarrow> string \<Rightarrow> float64 \<Rightarrow> string \<Rightarrow> paydb \<Rightarrow> unit pay_result" where
  "toPaid env now ord tradeNo paid pk pd0 =
     and_then (order_update now (payable now (po_ID ord))
         (\<lambda>d. d\<lparr>po_Status := OrderStatusPaid, po_PayAmount := paid_amount paid, po_PaymentTradeNo := tradeNo,
            po_PaidAt := Some now, po_FailedAt := None\<rparr>) pd0) (\<lambda>hit pd.
       if \<not> hit then alreadyProcessed env now (po_ID ord) pd
       else let pd1 = (if po_Status ord = OrderStatusCancelled \<or> po_Status ord = OrderStatusExpired
                       then writeAuditLog now (po_ID ord) ''ORDER_RECOVERED'' pk pd else pd)
            in executeFulfillment env now (po_ID ord) (writeAuditLog now (po_ID ord) ''ORDER_PAID'' pk pd1))"

definition confirmPayment ::
    "pay_env \<Rightarrow> instant \<Rightarrow> int \<Rightarrow> string \<Rightarrow> float64 \<Rightarrow> string \<Rightarrow> (string \<times> string) list \<Rightarrow> paydb \<Rightarrow> unit pay_result" where
  "confirmPayment env now oid tradeNo paid pk metadata pd0 =
     (case order_Get oid pd0 of
        (Inl _, pd) \<Rightarrow> (Inr (), pd)
      | (Inr ord, pd1) \<Rightarrow>
          let (r, pd) = getOrderProviderInstance ord pd1;
              instanceKey = (case r of Inr (Some inst) \<Rightarrow> pi_ProviderKey inst | _ \<Rightarrow> '''');
              expected = expectedNotificationProviderKeyForOrder pd ord instanceKey;
              reject = (\<lambda>e action. (Inl e, writeAuditLog now oid action pk pd))
          in if expected \<noteq> '''' \<and> TrimSpace pk \<noteq> '''' \<and> \<not> EqualFold expected (TrimSpace pk)
             then reject PayProviderMismatch ''PAYMENT_PROVIDER_MISMATCH''
             else if \<not> validateProviderSnapshotMetadata ord pk metadata
             then reject PayMetadataMismatch ''PAYMENT_PROVIDER_METADATA_MISMATCH''
             else if \<not> isValidProviderAmount paid then reject PayInvalidAmount ''PAYMENT_INVALID_AMOUNT''
             else if Fin amountToleranceCNY < float_abs (paid - Fin (po_PayAmount ord))
             then reject PayAmountMismatch ''PAYMENT_AMOUNT_MISMATCH''
             else toPaid env now ord tradeNo paid pk pd)"

definition parseLegacyPaymentOrderID :: "string \<Rightarrow> int option" where
  "parseLegacyPaymentOrderID orderID =
     (let s = TrimSpace orderID; trimmed = TrimPrefix s orderIDPrefix
      in if \<not> HasPrefix s orderIDPrefix then None
         else if trimmed = '''' \<or> trimmed = s then None
         else case ParseInt trimmed of None \<Rightarrow> None | Some i \<Rightarrow> if i \<le> 0 then None else Some i)"

record notification =
  no_TradeNo :: string
  no_OrderID :: string
  no_Amount :: float64
  no_Success :: bool
  no_Metadata :: "(string \<times> string) list"

definition HandlePaymentNotification :: "pay_env \<Rightarrow> instant \<Rightarrow> notification \<Rightarrow> string \<Rightarrow> paydb \<Rightarrow> unit pay_result" where
  "HandlePaymentNotification env now n pk pd0 =
     (if \<not> no_Success n then (Inr (), pd0)
      else case order_by_out_trade_no (no_OrderID n) pd0 of
             (Inr ord, pd) \<Rightarrow> confirmPayment env now (po_ID ord) (no_TradeNo n) (no_Amount n) pk (no_Metadata n) pd
           | (Inl e, pd) \<Rightarrow>
               if e \<noteq> PayNotFound then (Inl e, pd)
               else case parseLegacyPaymentOrderID (no_OrderID n) of
                      Some oid \<Rightarrow> confirmPayment env now oid (no_TradeNo n) (no_Amount n) pk (no_Metadata n) pd
                    | None \<Rightarrow> (Inl PayOrderNotFound, pd))"

section \<open>Providers\<close>

definition known_provider :: "string \<Rightarrow> bool" where
  "known_provider key \<longleftrightarrow> key \<in> {TypeEasyPay, TypeAlipay, TypeWxpay, TypeStripe}"

text \<open>The configuration with the mode of payment written into it: writing to a nil map panics.\<close>

definition provider_of_instance :: "pay_env \<Rightarrow> ProviderInstance \<Rightarrow> ProviderInstance \<Rightarrow> pay_error + provider" where
  "provider_of_instance env inst stored =
     (let cfg = decryptConfig (pe_codec env) (pi_Config stored)
      in if pi_PaymentMode inst \<noteq> '''' \<and> cfg = None then Inl PayPanic
         else let cfg' = (if pi_PaymentMode inst \<noteq> '''' then map_option (\<lambda>m. m(''paymentMode'' \<mapsto> pi_PaymentMode inst)) cfg else cfg)
              in if \<not> known_provider (pi_ProviderKey inst) then Inl PayProviderNotFound
                 else case pe_CreateProvider env (pi_ProviderKey inst) (itoa (pi_ID inst)) cfg' of
                        None \<Rightarrow> Inl PayProviderNotFound
                      | Some p \<Rightarrow> Inr p)"

definition createProviderFromInstance :: "pay_env \<Rightarrow> ProviderInstance \<Rightarrow> paydb \<Rightarrow> provider pay_result" where
  "createProviderFromInstance env inst pd =
     and_then (instance_Get (pi_ID inst) pd) (\<lambda>stored pd. (provider_of_instance env inst stored, pd))"

definition Register :: "provider \<Rightarrow> paydb \<Rightarrow> paydb" where
  "Register p pd = pd\<lparr>pd_registry := \<lambda>t. if t \<in> set (pv_SupportedTypes p) then Some p else pd_registry pd t\<rparr>"

text \<open>An instance that cannot be created is skipped; a panic is not.\<close>

fun register_all :: "pay_env \<Rightarrow> ProviderInstance list \<Rightarrow> paydb \<Rightarrow> unit pay_result" where
  "register_all env [] pd = (Inr (), pd)"
| "register_all env (inst # is) pd0 =
     (case createProviderFromInstance env inst pd0 of
        (Inr p, pd) \<Rightarrow> register_all env is (Register p pd)
      | (Inl e, pd) \<Rightarrow> if e = PayPanic then (Inl PayPanic, pd) else register_all env is pd)"

definition loadProviders :: "pay_env \<Rightarrow> paydb \<Rightarrow> unit pay_result" where
  "loadProviders env pd0 =
     (case instance_Query pi_Enabled pd0 of
        (Inl _, pd) \<Rightarrow> (Inr (), pd)
      | (Inr is, pd) \<Rightarrow> register_all env is pd)"

definition EnsureProviders :: "pay_env \<Rightarrow> paydb \<Rightarrow> unit pay_result" where
  "EnsureProviders env pd =
     (if pd_loaded pd then (Inr (), pd)
      else and_then (loadProviders env pd) (\<lambda>_ pd. (Inr (), pd\<lparr>pd_loaded := True\<rparr>)))"

definition RefreshProviders :: "pay_env \<Rightarrow> paydb \<Rightarrow> unit pay_result" where
  "RefreshProviders env pd =
     and_then (loadProviders env (pd\<lparr>pd_registry := Map.empty\<rparr>)) (\<lambda>_ pd. (Inr (), pd\<lparr>pd_loaded := True\<rparr>))"

definition webhookRegistryFallbackAllowed :: "string \<Rightarrow> paydb \<Rightarrow> bool \<times> paydb" where
  "webhookRegistryFallbackAllowed providerKey pd0 =
     (let key = TrimSpace providerKey
      in if key = '''' then (False, pd0)
         else case instance_Query (\<lambda>i. pi_ProviderKey i = key \<and> pi_Enabled i) pd0 of
                (Inl _, pd) \<Rightarrow> (False, pd)
              | (Inr is, pd) \<Rightarrow> (length is \<le> 1, pd))"

definition paymentOrderAllowsRegistryFallback :: "PaymentOrder \<Rightarrow> bool" where
  "paymentOrderAllowsRegistryFallback ord \<longleftrightarrow>
     psOrderProviderSnapshot ord = None \<and> TrimSpace (psStringValue (po_ProviderInstanceID ord)) = '''' \<and>
     TrimSpace (psStringValue (po_ProviderKey ord)) = ''''"

definition paymentOrderFallbackProviderKey :: "paydb \<Rightarrow> PaymentOrder \<Rightarrow> string" where
  "paymentOrderFallbackProviderKey pd ord =
     (let key = TrimSpace (GetProviderKey (po_PaymentType ord) pd)
      in if key \<noteq> '''' then key else TrimSpace (GetBasePaymentType (TrimSpace (po_PaymentType ord))))"

definition getOrderProvider :: "pay_env \<Rightarrow> PaymentOrder \<Rightarrow> paydb \<Rightarrow> provider pay_result" where
  "getOrderProvider env ord pd =
     and_then (getOrderProviderInstance ord pd) (\<lambda>inst pd.
       case inst of
         Some i \<Rightarrow> createProviderFromInstance env i pd
       | None \<Rightarrow>
           if \<not> paymentOrderAllowsRegistryFallback ord then (Inl PayInstanceUnresolved, pd)
           else if paymentOrderFallbackProviderKey pd ord = '''' then (Inl PayInstanceUnresolved, pd)
           else let (allowed, pd) = webhookRegistryFallbackAllowed (paymentOrderFallbackProviderKey pd ord) pd
                in if \<not> allowed then (Inl PayInstanceUnresolved, pd)
                   else and_then (EnsureProviders env pd) (\<lambda>_ pd.
                     (case pd_registry pd (po_PaymentType ord) of None \<Rightarrow> Inl PayProviderNotFound | Some p \<Rightarrow> Inr p, pd)))"

text \<open>The candidates for verifying a webhook.\<close>

definition psHasPinnedProviderInstance :: "PaymentOrder \<Rightarrow> bool" where
  "psHasPinnedProviderInstance ord \<longleftrightarrow>
     psOrderProviderSnapshot ord \<noteq> None \<or> TrimSpace (psStringValue (po_ProviderInstanceID ord)) \<noteq> ''''"

definition getPinnedOrderProvider :: "pay_env \<Rightarrow> PaymentOrder \<Rightarrow> paydb \<Rightarrow> provider pay_result" where
  "getPinnedOrderProvider env ord pd =
     and_then (getOrderProviderInstance ord pd) (\<lambda>inst pd.
       case inst of None \<Rightarrow> (Inl PayInstanceUnresolved, pd) | Some i \<Rightarrow> createProviderFromInstance env i pd)"

fun create_all :: "pay_env \<Rightarrow> ProviderInstance list \<Rightarrow> paydb \<Rightarrow> provider list pay_result" where
  "create_all env [] pd = (Inr [], pd)"
| "create_all env (inst # is) pd0 =
     (case createProviderFromInstance env inst pd0 of
        (Inr p, pd) \<Rightarrow> and_then (create_all env is pd) (\<lambda>ps pd. (Inr (p # ps), pd))
      | (Inl e, pd) \<Rightarrow> if e = PayPanic then (Inl PayPanic, pd) else create_all env is pd)"

definition getEnabledWebhookProvidersByKey :: "pay_env \<Rightarrow> string \<Rightarrow> paydb \<Rightarrow> provider list pay_result" where
  "getEnabledWebhookProvidersByKey env providerKey pd =
     and_then (instance_Query (\<lambda>i. pi_ProviderKey i = TrimSpace providerKey \<and> pi_Enabled i) pd) (\<lambda>is pd.
       and_then (create_all env (sort_key pi_SortOrder is) pd) (\<lambda>ps pd.
         (if ps = [] then Inl PayProviderNotFound else Inr ps, pd)))"

text \<open>The registry is a Go map, iterated in any order: \<open>pick\<close> chooses the provider of a key.\<close>

definition webhook_fallback ::
    "(string \<Rightarrow> (string \<Rightarrow> provider option) \<Rightarrow> provider option) \<Rightarrow> pay_env \<Rightarrow> string \<Rightarrow> paydb \<Rightarrow> provider list pay_result" where
  "webhook_fallback pick env providerKey pd =
     (if TrimSpace providerKey = TypeWxpay then getEnabledWebhookProvidersByKey env providerKey pd
      else let (allowed, pd) = webhookRegistryFallbackAllowed providerKey pd
           in if \<not> allowed then (Inl PayInstanceUnresolved, pd)
              else and_then (EnsureProviders env pd) (\<lambda>_ pd.
                (case pick providerKey (pd_registry pd) of None \<Rightarrow> Inl PayProviderNotFound | Some p \<Rightarrow> Inr [p], pd)))"

definition GetWebhookProviders ::
    "(string \<Rightarrow> (string \<Rightarrow> provider option) \<Rightarrow> provider option) \<Rightarrow> pay_env \<Rightarrow> string \<Rightarrow> string \<Rightarrow> paydb \<Rightarrow> provider list pay_result" where
  "GetWebhookProviders pick env providerKey outTradeNo pd0 =
     (if outTradeNo = '''' then webhook_fallback pick env providerKey pd0
      else case order_by_out_trade_no outTradeNo pd0 of
             (Inl _, pd) \<Rightarrow> webhook_fallback pick env providerKey pd
           | (Inr ord, pd) \<Rightarrow>
               if psHasPinnedProviderInstance ord
               then and_then (getPinnedOrderProvider env ord pd) (\<lambda>p pd. (Inr [p], pd))
               else and_then (getOrderProviderInstance ord pd) (\<lambda>inst pd.
                 case inst of
                   Some i \<Rightarrow> and_then (createProviderFromInstance env i pd) (\<lambda>p pd. (Inr [p], pd))
                 | None \<Rightarrow> webhook_fallback pick env providerKey pd))"

section \<open>Cancellation and expiry\<close>

definition paymentOrderQueryReference :: "PaymentOrder \<Rightarrow> provider \<Rightarrow> string" where
  "paymentOrderQueryReference ord prov =
     (let k1 = TrimSpace (pv_ProviderKey prov);
          k2 = (if k1 = '''' then (case psOrderProviderSnapshot ord of None \<Rightarrow> '''' | Some sn \<Rightarrow> TrimSpace (sn_ProviderKey sn)) else k1);
          k3 = (if k2 = '''' then TrimSpace (psStringValue (po_ProviderKey ord)) else k2);
          k4 = (if k3 = '''' then TrimSpace (po_PaymentType ord) else k3)
      in if GetBasePaymentType k4 \<in> {TypeAlipay, TypeEasyPay, TypeWxpay} then TrimSpace (po_OutTradeNo ord)
         else if TrimSpace (po_PaymentTradeNo ord) \<noteq> '''' then TrimSpace (po_PaymentTradeNo ord)
         else TrimSpace (po_OutTradeNo ord))"

definition paymentOrderShouldPersistUpstreamTradeNo :: "string \<Rightarrow> string \<Rightarrow> string \<Rightarrow> bool" where
  "paymentOrderShouldPersistUpstreamTradeNo queryRef upstream current \<longleftrightarrow>
     TrimSpace upstream \<noteq> '''' \<and> \<not> EqualFold (TrimSpace upstream) (TrimSpace current) \<and>
     \<not> EqualFold (TrimSpace upstream) (TrimSpace queryRef)"

definition requeryPaidOrderOnce :: "provider \<Rightarrow> string \<Rightarrow> query_response option" where
  "requeryPaidOrderOnce prov queryRef =
     (case pv_QueryOrder prov 1 queryRef of
        None \<Rightarrow> None
      | Some resp \<Rightarrow> if qr_Paid resp \<and> isValidProviderAmount (qr_Amount resp) then Some resp else None)"

text \<open>The answer: the provider says the order was paid. Only a panic gets through as an error.\<close>

definition settle_paid :: "pay_env \<Rightarrow> instant \<Rightarrow> PaymentOrder \<Rightarrow> provider \<Rightarrow> string \<Rightarrow> query_response \<Rightarrow> paydb \<Rightarrow> bool pay_result" where
  "settle_paid env now ord prov queryRef resp pd0 =
     (let upstream = TrimSpace (qr_TradeNo resp);
          persist = paymentOrderShouldPersistUpstreamTradeNo queryRef upstream (po_PaymentTradeNo ord);
          pd1 = (if persist
                 then snd (order_update now (\<lambda>d. po_ID d = po_ID ord) (\<lambda>d. d\<lparr>po_PaymentTradeNo := upstream\<rparr>) pd0)
                 else pd0);
          n = \<lparr>no_TradeNo = if persist then upstream else po_PaymentTradeNo ord, no_OrderID = po_OutTradeNo ord,
               no_Amount = qr_Amount resp, no_Success = True, no_Metadata = qr_Metadata resp\<rparr>
      in (Inr True, snd (HandlePaymentNotification env now n (pv_ProviderKey prov) pd1)))"

definition checkPaid :: "pay_env \<Rightarrow> instant \<Rightarrow> PaymentOrder \<Rightarrow> paydb \<Rightarrow> bool pay_result" where
  "checkPaid env now ord pd0 =
     (case getOrderProvider env ord pd0 of
        (Inl e, pd) \<Rightarrow> if e = PayPanic then (Inl PayPanic, pd) else (Inr False, pd)
      | (Inr prov, pd) \<Rightarrow>
          let queryRef = paymentOrderQueryReference ord prov
          in if queryRef = '''' then (Inr False, pd)
             else case pv_QueryOrder prov 0 queryRef of
                    None \<Rightarrow> (Inr False, pd)
                  | Some resp \<Rightarrow>
                      if \<not> qr_Paid resp then (Inr False, pd)
                      else if isValidProviderAmount (qr_Amount resp) then settle_paid env now ord prov queryRef resp pd
                      else let pd = writeAuditLog now (po_ID ord) ''PAYMENT_INVALID_AMOUNT'' (pv_ProviderKey prov) pd
                           in case requeryPaidOrderOnce prov queryRef of
                                None \<Rightarrow> (Inr False, pd)
                              | Some resp' \<Rightarrow> settle_paid env now ord prov queryRef resp' pd)"

definition cancelCore :: "pay_env \<Rightarrow> instant \<Rightarrow> PaymentOrder \<Rightarrow> order_status \<Rightarrow> string \<Rightarrow> paydb \<Rightarrow> bool pay_result" where
  "cancelCore env now ord final operator pd0 =
     and_then (if po_PaymentTradeNo ord \<noteq> '''' \<or> po_PaymentType ord \<noteq> '''' then checkPaid env now ord pd0 else (Inr False, pd0))
       (\<lambda>paid pd.
         if paid then (Inr True, pd)
         else and_then (order_update now (\<lambda>d. po_ID d = po_ID ord \<and> po_Status d = OrderStatusPending) (\<lambda>d. d\<lparr>po_Status := final\<rparr>) pd)
           (\<lambda>hit pd. (Inr False,
             if hit then writeAuditLog now (po_ID ord)
               (if final = OrderStatusExpired then ''ORDER_EXPIRED'' else ''ORDER_CANCELLED'') operator pd else pd)))"

definition user_operator :: "int \<Rightarrow> string" where
  "user_operator uid = ''user:'' @ itoa uid"

definition CancelOrder :: "pay_env \<Rightarrow> instant \<Rightarrow> int \<Rightarrow> int \<Rightarrow> paydb \<Rightarrow> bool pay_result" where
  "CancelOrder env now oid uid pd0 =
     (case order_Get oid pd0 of
        (Inl _, pd) \<Rightarrow> (Inl PayNotFound, pd)
      | (Inr ord, pd) \<Rightarrow>
          if po_UserID ord \<noteq> uid then (Inl PayForbidden, pd)
          else if po_Status ord \<noteq> OrderStatusPending then (Inl PayInvalidStatus, pd)
          else cancelCore env now ord OrderStatusCancelled (user_operator uid) pd)"

definition AdminCancelOrder :: "pay_env \<Rightarrow> instant \<Rightarrow> int \<Rightarrow> paydb \<Rightarrow> bool pay_result" where
  "AdminCancelOrder env now oid pd0 =
     (case order_Get oid pd0 of
        (Inl _, pd) \<Rightarrow> (Inl PayNotFound, pd)
      | (Inr ord, pd) \<Rightarrow>
          if po_Status ord \<noteq> OrderStatusPending then (Inl PayInvalidStatus, pd)
          else cancelCore env now ord OrderStatusCancelled ''admin'' pd)"

fun expire_orders :: "pay_env \<Rightarrow> instant \<Rightarrow> PaymentOrder list \<Rightarrow> paydb \<Rightarrow> int pay_result" where
  "expire_orders env now [] pd = (Inr 0, pd)"
| "expire_orders env now (ord # ords) pd0 =
     (case cancelCore env now ord OrderStatusExpired ''system'' pd0 of
        (Inl e, pd) \<Rightarrow> if e = PayPanic then (Inl PayPanic, pd) else expire_orders env now ords pd
      | (Inr paid, pd) \<Rightarrow> and_then (expire_orders env now ords pd) (\<lambda>n pd. (Inr (if paid then n else n + 1), pd)))"

definition ExpireTimedOutOrders :: "pay_env \<Rightarrow> instant \<Rightarrow> paydb \<Rightarrow> int pay_result" where
  "ExpireTimedOutOrders env now pd0 =
     (let (fail, pd) = pay_call pd0
      in if fail then (Inl PayStorageError, pd)
         else expire_orders env now (filter (\<lambda>d. po_Status d = OrderStatusPending \<and> po_ExpiresAt d \<le> now) (pd_orders pd)) pd)"

definition trade_no_char :: "char \<Rightarrow> bool" where
  "trade_no_char c \<longleftrightarrow>
     (let n = of_char c :: nat in 97 \<le> n \<and> n \<le> 122 \<or> 65 \<le> n \<and> n \<le> 90 \<or> 48 \<le> n \<and> n \<le> 57 \<or> n = 95 \<or> n = 45)"

definition normalizeOrderLookupOutTradeNo :: "string \<Rightarrow> string option" where
  "normalizeOrderLookupOutTradeNo raw =
     (let s = TrimSpace raw in if s = '''' \<or> length s > 64 \<or> \<not> list_all trade_no_char s then None else Some s)"

definition VerifyOrderByOutTradeNo :: "pay_env \<Rightarrow> instant \<Rightarrow> string \<Rightarrow> int \<Rightarrow> paydb \<Rightarrow> PaymentOrder pay_result" where
  "VerifyOrderByOutTradeNo env now raw uid pd0 =
     (case normalizeOrderLookupOutTradeNo raw of
        None \<Rightarrow> (Inl PayInvalidOutTradeNo, pd0)
      | Some no \<Rightarrow>
          (case order_by_out_trade_no no pd0 of
             (Inl _, pd) \<Rightarrow> (Inl PayNotFound, pd)
           | (Inr ord, pd) \<Rightarrow>
               if po_UserID ord \<noteq> uid then (Inl PayForbidden, pd)
               else if po_Status ord = OrderStatusPending \<or> po_Status ord = OrderStatusExpired
               then and_then (checkPaid env now ord pd) (\<lambda>paid pd. if paid then order_Get (po_ID ord) pd else (Inr ord, pd))
               else (Inr ord, pd)))"

end
