(* ===== verification/PaymentRefund.thy ===== *)
theory PaymentRefund
  imports Payment
begin

text \<open>
  Refunds of payment orders (\<open>backend/internal/service/payment_refund.go\<close>): the request of a user, the
  plan of an administrator, the deduction, the refund at the provider, and the way back when it fails.
  The service takes an error of a provider for a refund that was not paid; the provider may have paid nevertheless
  (\<open>RefundUnconfirmed\<close>), and the list \<open>pd_refunds\<close> holds that payment, too.
\<close>

section \<open>Requests\<close>

definition validateRefundRequest :: "int \<Rightarrow> int \<Rightarrow> paydb \<Rightarrow> PaymentOrder pay_result" where
  "validateRefundRequest oid uid pd0 =
     (case order_Get oid pd0 of
        (Inl _, pd) \<Rightarrow> (Inl PayNotFound, pd)
      | (Inr ord, pd) \<Rightarrow>
          if po_UserID ord \<noteq> uid then (Inl PayForbidden, pd)
          else if po_OrderType ord \<noteq> OrderTypeBalance then (Inl PayInvalidOrderType, pd)
          else if po_Status ord \<noteq> OrderStatusCompleted then (Inl PayInvalidStatus, pd)
          else case getRefundOrderProviderInstance ord pd of
                 (Inr (Some inst), pd) \<Rightarrow> (if pi_AllowUserRefund inst then Inr ord else Inl PayUserRefundDisabled, pd)
               | (_, pd) \<Rightarrow> (Inl PayUserRefundDisabled, pd))"

definition RequestRefund :: "instant \<Rightarrow> int \<Rightarrow> int \<Rightarrow> string \<Rightarrow> paydb \<Rightarrow> unit pay_result" where
  "RequestRefund now oid uid reason pd0 =
     and_then (validateRefundRequest oid uid pd0) (\<lambda>ord pd.
     and_then (on_shop (user_GetByID (po_UserID ord)) pd) (\<lambda>u pd.
       if usr_Balance u < Fin (po_Amount ord) then (Inl PayBalanceNotEnough, pd)
       else and_then (order_update now (\<lambda>d. po_ID d = oid \<and> po_UserID d = uid \<and> po_Status d = OrderStatusCompleted \<and>
                po_OrderType d = OrderTypeBalance)
              (\<lambda>d. d\<lparr>po_Status := OrderStatusRefundRequested, po_RefundRequestedAt := Some now,
                 po_RefundRequestReason := Some (TrimSpace reason), po_RefundAmount := po_Amount ord\<rparr>) pd) (\<lambda>hit pd.
            if \<not> hit then (Inl PayConflict, pd)
            else (Inr (), writeAuditLog now oid ''REFUND_REQUESTED'' (user_operator uid) pd))))"

section \<open>The plan\<close>

datatype deduction_type = DeductionTypeBalance | DeductionTypeSubscription | DeductionTypeNone

record RefundPlan =
  rp_Order :: PaymentOrder
  rp_RefundAmount :: rat
  rp_GatewayAmount :: rat
  rp_Reason :: string
  rp_Force :: bool
  rp_DeductionType :: deduction_type
  rp_BalanceToDeduct :: float64
  rp_SubDaysToDeduct :: int
  rp_SubscriptionID :: int

text \<open>\<open>None\<close> where the result asks for the force flag.\<close>

definition prepDeduct :: "pay_env \<Rightarrow> instant \<Rightarrow> PaymentOrder \<Rightarrow> bool \<Rightarrow> RefundPlan \<Rightarrow> paydb \<Rightarrow> RefundPlan option \<times> paydb" where
  "prepDeduct env now ord force p pd0 =
     (if po_OrderType ord = OrderTypeSubscription
      then let p1 = p\<lparr>rp_DeductionType := DeductionTypeSubscription\<rparr>
           in (case (po_SubscriptionGroupID ord, po_SubscriptionDays ord) of
                 (Some gid, Some n) \<Rightarrow>
                   let p2 = p1\<lparr>rp_SubDaysToDeduct := n\<rparr>
                   in (case on_subs (GetActiveSubscription now (pe_sub_ttl env) (po_UserID ord) gid) pd0 of
                         (Inr s, pd) \<Rightarrow> (Some (p2\<lparr>rp_SubscriptionID := us_ID s\<rparr>), pd)
                       | (Inl _, pd) \<Rightarrow> (if force then Some p2 else None, pd))
               | _ \<Rightarrow> (Some p1, pd0))
      else case on_shop (user_GetByID (po_UserID ord)) pd0 of
             (Inl _, pd) \<Rightarrow> (if force then Some p else None, pd)
           | (Inr u, pd) \<Rightarrow>
               (Some (p\<lparr>rp_DeductionType := DeductionTypeBalance,
                        rp_BalanceToDeduct := float_min (Fin (rp_RefundAmount p)) (usr_Balance u)\<rparr>), pd))"

definition refundable :: "order_status \<Rightarrow> bool" where
  "refundable s \<longleftrightarrow> s \<in> {OrderStatusCompleted, OrderStatusRefundRequested, OrderStatusRefundFailed}"

definition refund_reason :: "string \<Rightarrow> PaymentOrder \<Rightarrow> string" where
  "refund_reason reason ord =
     (let r1 = TrimSpace reason;
          r2 = (if r1 = '''' then psStringValue (po_RefundRequestReason ord) else r1)
      in if r2 = '''' then ''refund order:'' @ itoa (po_ID ord) else r2)"

definition PrepareRefund ::
    "pay_env \<Rightarrow> instant \<Rightarrow> int \<Rightarrow> float64 \<Rightarrow> string \<Rightarrow> bool \<Rightarrow> bool \<Rightarrow> paydb \<Rightarrow> RefundPlan option pay_result" where
  "PrepareRefund env now oid amt reason force deduct pd0 =
     (case order_Get oid pd0 of
        (Inl _, pd) \<Rightarrow> (Inl PayNotFound, pd)
      | (Inr ord, pd) \<Rightarrow>
          if \<not> refundable (po_Status ord) then (Inl PayInvalidStatus, pd)
          else case getRefundOrderProviderInstance ord pd of
                 (Inl _, pd) \<Rightarrow> (Inl PayProviderLookup, pd)
               | (Inr None, pd) \<Rightarrow> (Inl PayRefundDisabled, pd)
               | (Inr (Some inst), pd) \<Rightarrow>
                   if \<not> pi_RefundEnabled inst then (Inl PayRefundDisabled, pd)
                   else case amt of
                          Fin a0 \<Rightarrow>
                            let a = (if a0 \<le> 0 then po_Amount ord else a0);
                                p = \<lparr>rp_Order = ord, rp_RefundAmount = a,
                                     rp_GatewayAmount = calculateGatewayRefundAmount (po_Amount ord) (po_PayAmount ord) a,
                                     rp_Reason = refund_reason reason ord, rp_Force = force, rp_DeductionType = DeductionTypeNone,
                                     rp_BalanceToDeduct = 0, rp_SubDaysToDeduct = 0, rp_SubscriptionID = 0\<rparr>
                            in if a - po_Amount ord > amountToleranceCNY then (Inl PayRefundExceeded, pd)
                               else if deduct then (case prepDeduct env now ord force p pd of (r, pd) \<Rightarrow> (Inr r, pd))
                               else (Inr (Some p), pd)
                        | _ \<Rightarrow> (Inl PayInvalidRefundAmount, pd))"

section \<open>Execution\<close>

text \<open>Updates of one order by its identifier; the ones here ignore errors.\<close>

definition set_order :: "instant \<Rightarrow> int \<Rightarrow> (PaymentOrder \<Rightarrow> PaymentOrder) \<Rightarrow> paydb \<Rightarrow> paydb" where
  "set_order now oid f pd = snd (order_update now (\<lambda>d. po_ID d = oid) f pd)"

definition restoreStatus :: "instant \<Rightarrow> RefundPlan \<Rightarrow> paydb \<Rightarrow> paydb" where
  "restoreStatus now p =
     set_order now (po_ID (rp_Order p))
       (\<lambda>d. d\<lparr>po_Status := (if po_Status (rp_Order p) = OrderStatusRefundRequested then OrderStatusRefundRequested
          else OrderStatusCompleted)\<rparr>)"

definition getRefundProvider :: "pay_env \<Rightarrow> PaymentOrder \<Rightarrow> paydb \<Rightarrow> provider pay_result" where
  "getRefundProvider env ord pd =
     and_then (getRefundOrderProviderInstance ord pd) (\<lambda>inst pd.
       case inst of None \<Rightarrow> (Inl PayInstanceUnresolved, pd) | Some i \<Rightarrow> createProviderFromInstance env i pd)"

definition gwRefund :: "pay_env \<Rightarrow> instant \<Rightarrow> RefundPlan \<Rightarrow> paydb \<Rightarrow> unit pay_result" where
  "gwRefund env now p pd0 =
     (let ord = rp_Order p; amount = round_decimal (rp_GatewayAmount p) 2
      in if po_PaymentTradeNo ord = '''' then (Inr (), writeAuditLog now (po_ID ord) ''REFUND_NO_TRADE_NO'' ''admin'' pd0)
         else and_then (getRefundProvider env ord pd0) (\<lambda>prov pd.
           if \<not> validateProviderSnapshotMetadata ord (pv_ProviderKey prov) (case pv_Identity prov of None \<Rightarrow> [] | Some m \<Rightarrow> m)
           then (Inl PayMetadataMismatch, writeAuditLog now (po_ID ord) ''REFUND_PROVIDER_METADATA_MISMATCH'' ''admin'' pd)
           else case pv_Refund prov (po_PaymentTradeNo ord) (po_OutTradeNo ord) amount of
                  RefundConfirmed \<Rightarrow> (Inr (), pd\<lparr>pd_refunds := pd_refunds pd @ [(po_ID ord, amount, True)]\<rparr>)
                | RefundUnconfirmed \<Rightarrow> (Inl PayRefundFailed, pd\<lparr>pd_refunds := pd_refunds pd @ [(po_ID ord, amount, False)]\<rparr>)
                | RefundRefused \<Rightarrow> (Inl PayRefundFailed, pd)))"

definition extend_sub :: "instant \<Rightarrow> int \<Rightarrow> int \<Rightarrow> paydb \<Rightarrow> UserSubscription pay_result" where
  "extend_sub now i n = on_subs (ExtendSubscription now i n)"

definition RollbackRefund :: "instant \<Rightarrow> RefundPlan \<Rightarrow> paydb \<Rightarrow> bool \<times> paydb" where
  "RollbackRefund now p pd0 =
     (let oid = po_ID (rp_Order p); failed = (\<lambda>pd. (False, writeAuditLog now oid ''REFUND_ROLLBACK_FAILED'' ''admin'' pd))
      in if rp_DeductionType p = DeductionTypeBalance \<and> rp_BalanceToDeduct p > 0
         then (case on_shop (user_UpdateBalance (po_UserID (rp_Order p)) (rp_BalanceToDeduct p)) pd0 of
                 (Inl _, pd) \<Rightarrow> failed pd | (Inr _, pd) \<Rightarrow> (True, pd))
         else if rp_DeductionType p = DeductionTypeSubscription \<and> rp_SubDaysToDeduct p > 0 \<and> rp_SubscriptionID p > 0
         then (case extend_sub now (rp_SubscriptionID p) (rp_SubDaysToDeduct p) pd0 of
                 (Inl _, pd) \<Rightarrow> failed pd | (Inr _, pd) \<Rightarrow> (True, pd))
         else (True, pd0))"

datatype refund_result = RefundSuccess float64 int | RefundRolledBack

definition handleGwFail :: "instant \<Rightarrow> RefundPlan \<Rightarrow> paydb \<Rightarrow> refund_result pay_result" where
  "handleGwFail now p pd0 =
     (let oid = po_ID (rp_Order p); (back, pd) = RollbackRefund now p pd0
      in if back then (Inr RefundRolledBack, writeAuditLog now oid ''REFUND_GATEWAY_FAILED'' ''admin'' (restoreStatus now p pd))
         else (Inl PayRefundFailed, writeAuditLog now oid ''REFUND_FAILED'' ''admin''
           (set_order now oid (\<lambda>d. d\<lparr>po_Status := OrderStatusRefundFailed, po_FailedAt := Some now\<rparr>) pd)))"

definition markRefundOk :: "instant \<Rightarrow> RefundPlan \<Rightarrow> paydb \<Rightarrow> refund_result pay_result" where
  "markRefundOk now p pd0 =
     (let oid = po_ID (rp_Order p);
          final = (if rp_RefundAmount p < po_Amount (rp_Order p) then OrderStatusPartiallyRefunded else OrderStatusRefunded)
      in and_then (order_update now (\<lambda>d. po_ID d = oid)
            (\<lambda>d. d\<lparr>po_Status := final, po_RefundAmount := round_decimal (rp_RefundAmount p) 2, po_RefundReason := Some (rp_Reason p),
               po_RefundAt := Some now, po_ForceRefund := rp_Force p\<rparr>) pd0) (\<lambda>hit pd.
           if \<not> hit then (Inl PayNotFound, pd)
           else (Inr (RefundSuccess (rp_BalanceToDeduct p) (rp_SubDaysToDeduct p)), writeAuditLog now oid ''REFUND_SUCCESS'' ''admin'' pd)))"

text \<open>The deductions, with the plan that is left: nothing is deducted again after a failed rollback. Errors
  restore the status and end the refund.\<close>

definition deduct_balance :: "instant \<Rightarrow> RefundPlan \<Rightarrow> paydb \<Rightarrow> RefundPlan pay_result" where
  "deduct_balance now p pd0 =
     (if rp_DeductionType p = DeductionTypeBalance \<and> rp_BalanceToDeduct p > 0
      then let (before, pd) = hasAuditLog (po_ID (rp_Order p)) ''REFUND_ROLLBACK_FAILED'' pd0
           in if before then (Inr (p\<lparr>rp_BalanceToDeduct := 0\<rparr>), pd)
              else case on_shop (user_DeductBalance (po_UserID (rp_Order p)) (rp_BalanceToDeduct p)) pd of
                     (Inl e, pd) \<Rightarrow> (Inl e, restoreStatus now p pd)
                   | (Inr _, pd) \<Rightarrow> (Inr p, pd)
      else (Inr p, pd0))"

definition deduct_days :: "instant \<Rightarrow> RefundPlan \<Rightarrow> paydb \<Rightarrow> RefundPlan pay_result" where
  "deduct_days now p pd0 =
     (if rp_DeductionType p = DeductionTypeSubscription \<and> rp_SubDaysToDeduct p > 0 \<and> rp_SubscriptionID p > 0
      then let (before, pd) = hasAuditLog (po_ID (rp_Order p)) ''REFUND_ROLLBACK_FAILED'' pd0
           in if before then (Inr (p\<lparr>rp_SubDaysToDeduct := 0\<rparr>), pd)
              else case extend_sub now (rp_SubscriptionID p) (- rp_SubDaysToDeduct p) pd of
                     (Inr _, pd) \<Rightarrow> (Inr p, pd)
                   | (Inl e, pd) \<Rightarrow>
                       if e \<noteq> PaySubscription AdjustWouldExpire then (Inl e, restoreStatus now p pd)
                       else case on_subs (RevokeSubscription (rp_SubscriptionID p)) pd of
                              (Inl e', pd) \<Rightarrow> (Inl e', restoreStatus now p pd)
                            | (Inr _, pd) \<Rightarrow> (Inr p, pd)
      else (Inr p, pd0))"

definition ExecuteRefund :: "pay_env \<Rightarrow> instant \<Rightarrow> RefundPlan \<Rightarrow> paydb \<Rightarrow> refund_result pay_result" where
  "ExecuteRefund env now p pd0 =
     and_then (order_update now (\<lambda>d. po_ID d = po_ID (rp_Order p) \<and> refundable (po_Status d))
         (\<lambda>d. d\<lparr>po_Status := OrderStatusRefunding\<rparr>) pd0) (\<lambda>locked pd.
       if \<not> locked then (Inl PayConflict, pd)
       else and_then (deduct_balance now p pd) (\<lambda>p pd. and_then (deduct_days now p pd) (\<lambda>p pd.
         case gwRefund env now p pd of
           (Inl e, pd) \<Rightarrow> if e = PayPanic then (Inl PayPanic, pd) else handleGwFail now p pd
         | (Inr _, pd) \<Rightarrow> markRefundOk now p pd)))"

end
