(* ===== verification/PaymentCreate.thy ===== *)
theory PaymentCreate
  imports Payment
begin

text \<open>
  Creation of payment orders (\<open>backend/internal/service/payment_order.go\<close>, with the limit on
  cancellations of \<open>payment_order_lifecycle.go\<close> and the plans of \<open>payment_config_plans.go\<close>). The
  settings are an argument. The detour over the authorization of WeChat, the signed resume token and the
  texts for the payment page are left out. Random order numbers are an argument, one for each attempt.
\<close>

record PaymentConfig =
  pc_Enabled :: bool
  pc_MinAmount :: float64
  pc_MaxAmount :: float64
  pc_DailyLimit :: float64
  pc_OrderTimeoutMin :: int
  pc_MaxPendingOrders :: int
  pc_BalanceDisabled :: bool
  pc_BalanceRechargeMultiplier :: float64
  pc_RechargeFeeRate :: rat
  pc_LoadBalanceStrategy :: string
  pc_CancelRateLimitEnabled :: bool
  pc_CancelRateLimitMax :: int
  pc_CancelRateLimitWindow :: int
  pc_CancelRateLimitUnit :: string
  pc_CancelRateLimitMode :: string

record CreateOrderRequest =
  rq_UserID :: int
  rq_Amount :: float64
  rq_PaymentType :: string
  rq_OrderType :: string
  rq_PlanID :: int
  rq_OpenID :: string

definition psComputeValidityDays :: "int \<Rightarrow> string \<Rightarrow> int" where
  "psComputeValidityDays n unit = (if unit = ''week'' then n * 7 else if unit = ''month'' then n * 30 else n)"

section \<open>Checks\<close>

definition cancelRateLimitWindowStart :: "duration \<Rightarrow> instant \<Rightarrow> PaymentConfig \<Rightarrow> instant" where
  "cancelRateLimitWindowStart tz now cfg =
     (let w = (if pc_CancelRateLimitWindow cfg \<le> 0 then 1 else pc_CancelRateLimitWindow cfg);
          unit = (if pc_CancelRateLimitUnit cfg = '''' then ''day'' else pc_CancelRateLimitUnit cfg)
      in if pc_CancelRateLimitMode cfg = ''fixed''
         then (if unit = ''minute'' then now - now mod minutes 1 - minutes (w - 1)
               else if unit = ''day'' then AddDays (start_of_day tz now) (- (w - 1))
               else now - now mod hours 1 - hours (w - 1))
         else (if unit = ''minute'' then now - minutes w
               else if unit = ''day'' then AddDays now (- w)
               else now - hours w))"

definition checkCancelRateLimit :: "duration \<Rightarrow> instant \<Rightarrow> int \<Rightarrow> PaymentConfig \<Rightarrow> paydb \<Rightarrow> bool \<times> paydb" where
  "checkCancelRateLimit tz now uid cfg pd0 =
     (if \<not> pc_CancelRateLimitEnabled cfg \<or> pc_CancelRateLimitMax cfg \<le> 0 then (True, pd0)
      else let (fail, pd) = pay_call pd0;
               n = length (filter (\<lambda>a. au_Action a = ''ORDER_CANCELLED'' \<and> au_Operator a = user_operator uid \<and>
                     cancelRateLimitWindowStart tz now cfg \<le> au_CreatedAt a) (pd_audits pd))
           in (fail \<or> int n < pc_CancelRateLimitMax cfg, pd))"

definition GetPlan :: "int \<Rightarrow> paydb \<Rightarrow> SubscriptionPlan option \<times> paydb" where
  "GetPlan i pd0 = (let (fail, pd) = pay_call pd0 in (if fail then None else find (\<lambda>p. pl_ID p = i) (pd_plans pd), pd))"

definition validateSubOrder :: "CreateOrderRequest \<Rightarrow> paydb \<Rightarrow> SubscriptionPlan pay_result" where
  "validateSubOrder req pd0 =
     (if rq_PlanID req = 0 then (Inl PayPlanUnavailable, pd0)
      else case GetPlan (rq_PlanID req) pd0 of
             (None, pd) \<Rightarrow> (Inl PayPlanUnavailable, pd)
           | (Some plan, pd) \<Rightarrow>
               if \<not> pl_ForSale plan then (Inl PayPlanUnavailable, pd)
               else case on_subs (on_db (group_GetByID (pl_GroupID plan))) pd of
                      (Inl _, pd) \<Rightarrow> (Inl PayGroupInactive, pd)
                    | (Inr g, pd) \<Rightarrow>
                        if gr_Status g \<noteq> EntityStatusActive \<or> \<not> IsSubscriptionType g then (Inl PayGroupInactive, pd)
                        else (Inr plan, pd))"

definition validateOrderInput :: "CreateOrderRequest \<Rightarrow> PaymentConfig \<Rightarrow> paydb \<Rightarrow> SubscriptionPlan option pay_result" where
  "validateOrderInput req cfg pd =
     (if rq_OrderType req = OrderTypeBalance \<and> pc_BalanceDisabled cfg then (Inl PayDisabled, pd)
      else if rq_OrderType req = OrderTypeSubscription then and_then (validateSubOrder req pd) (\<lambda>p pd. (Inr (Some p), pd))
      else if \<not> isValidProviderAmount (rq_Amount req) then (Inl PayInvalidAmount, pd)
      else if pc_MinAmount cfg > 0 \<and> rq_Amount req < pc_MinAmount cfg \<or> pc_MaxAmount cfg > 0 \<and> pc_MaxAmount cfg < rq_Amount req
      then (Inl PayInvalidAmount, pd)
      else (Inr None, pd))"

definition checkPendingLimit :: "int \<Rightarrow> int \<Rightarrow> paydb \<Rightarrow> unit pay_result" where
  "checkPendingLimit uid max0 pd0 =
     (let (fail, pd) = pay_call pd0; limit = (if max0 \<le> 0 then 3 else max0)
      in if fail then (Inl PayStorageError, pd)
         else if limit \<le> int (length (filter (\<lambda>d. po_UserID d = uid \<and> po_Status d = OrderStatusPending) (pd_orders pd)))
         then (Inl PayTooManyPending, pd)
         else (Inr (), pd))"

definition daily_usage :: "instant \<Rightarrow> int \<Rightarrow> PaymentOrder list \<Rightarrow> rat" where
  "daily_usage since uid ords =
     sum_list (map (\<lambda>d. if po_OrderType d = OrderTypeBalance then po_PayAmount d else po_Amount d)
       (filter (\<lambda>d. po_UserID d = uid \<and> po_Status d \<in> {OrderStatusPaid, OrderStatusRecharging, OrderStatusCompleted} \<and>
          (case po_PaidAt d of None \<Rightarrow> False | Some t \<Rightarrow> since \<le> t)) ords))"

definition checkDailyLimit :: "instant \<Rightarrow> int \<Rightarrow> rat \<Rightarrow> float64 \<Rightarrow> paydb \<Rightarrow> unit pay_result" where
  "checkDailyLimit now uid amount limit pd0 =
     (if limit \<le> 0 then (Inr (), pd0)
      else let (fail, pd) = pay_call pd0
           in if fail then (Inl PayStorageError, pd)
              else if limit < Fin (daily_usage (start_of_day 0 now) uid (pd_orders pd) + amount) then (Inl PayDailyLimit, pd)
              else (Inr (), pd))"

fun allocateOutTradeNo :: "string list \<Rightarrow> paydb \<Rightarrow> string pay_result" where
  "allocateOutTradeNo [] pd = (Inl PayCreateFailed, pd)"
| "allocateOutTradeNo (no # nos) pd0 =
     (let (fail, pd) = pay_call pd0
      in if fail then (Inl PayStorageError, pd)
         else if list_ex (\<lambda>d. po_OutTradeNo d = no) (pd_orders pd) then allocateOutTradeNo nos pd
         else (Inr no, pd))"

section \<open>The instance\<close>

text \<open>What an instance took today, with the orders that are not paid yet.\<close>

definition daily_used :: "duration \<Rightarrow> instant \<Rightarrow> PaymentOrder list \<Rightarrow> int \<Rightarrow> float64" where
  "daily_used tz now ords i =
     Fin (sum_list (map po_PayAmount (filter (\<lambda>d. po_ProviderInstanceID d = Some (itoa i) \<and>
       po_Status d \<in> {OrderStatusPending, OrderStatusPaid, OrderStatusCompleted, OrderStatusRecharging} \<and>
       start_of_day tz now \<le> po_CreatedAt d) ords)))"

text \<open>The provider key that a visible method is routed to.\<close>

definition route_method :: "pay_env \<Rightarrow> string \<Rightarrow> paydb \<Rightarrow> string option \<times> paydb" where
  "route_method env paymentType pd0 =
     (let method = NormalizeVisibleMethod paymentType
      in if method \<noteq> TypeAlipay \<and> method \<noteq> TypeWxpay then (Some '''', pd0)
         else let (fail, pd) = pay_call pd0
              in (if fail then None
                  else Option.bind (resolveEnabledVisibleMethodInstance (pe_source env method) (pd_instances pd) method) id, pd))"

definition selectCreateOrderInstance ::
    "pay_env \<Rightarrow> duration \<Rightarrow> instant \<Rightarrow> PaymentConfig \<Rightarrow> string \<Rightarrow> rat \<Rightarrow> paydb \<Rightarrow> InstanceSelection pay_result" where
  "selectCreateOrderInstance env tz now cfg paymentType amount pd0 =
     (case route_method env paymentType pd0 of
        (None, pd) \<Rightarrow> (Inl PayNoInstance, pd)
      | (Some key, pd1) \<Rightarrow>
          let (fail, pd) = pay_call pd1; cd = pe_codec env
          in if fail \<or> queryEnabledInstances cd '''' key paymentType (pd_instances pd) = [] then (Inl PayNoInstance, pd)
             else let (fail', pd') = pay_call pd;
                      usage = (if fail' then (\<lambda>_. 0) else daily_used tz now (pd_orders pd'));
                      (sel, counter) = SelectInstance cd '''' usage (pd_instances pd') key paymentType (pc_LoadBalanceStrategy cfg)
                        (Fin amount) (pd_counter pd')
                  in (case sel of None \<Rightarrow> Inl PayNoInstance | Some s \<Rightarrow> Inr s, pd'\<lparr>pd_counter := counter\<rparr>))"

section \<open>The order\<close>

definition snapshot_entry :: "string \<Rightarrow> string \<Rightarrow> (string \<Rightarrow> snap_value option) \<Rightarrow> (string \<Rightarrow> snap_value option)" where
  "snapshot_entry k v m = (if v = '''' then m else m(k \<mapsto> SnapString v))"

definition buildPaymentOrderProviderSnapshot :: "InstanceSelection \<Rightarrow> CreateOrderRequest \<Rightarrow> string \<Rightarrow> snap_value option" where
  "buildPaymentOrderProviderSnapshot sel req =
     (let key = TrimSpace (se_ProviderKey sel); cfg = (\<lambda>k. TrimSpace (config_at (Some (se_Config sel)) k));
          base = snapshot_entry ''payment_mode'' (TrimSpace (se_PaymentMode sel))
            (snapshot_entry ''provider_key'' key (snapshot_entry ''provider_instance_id'' (TrimSpace (se_InstanceID sel)) Map.empty));
          full = (if key = TypeWxpay
              then snapshot_entry ''currency'' ''CNY'' (snapshot_entry ''merchant_id'' (cfg ''mchId'')
                (snapshot_entry ''merchant_app_id''
                  (if TrimSpace (rq_OpenID req) \<noteq> '''' then resolveWxpayJSAPIAppID (Some (se_Config sel)) else cfg ''appId'') base))
              else if key = TypeAlipay then snapshot_entry ''merchant_app_id'' (cfg ''appId'') base
              else if key = TypeEasyPay then snapshot_entry ''merchant_id'' (cfg ''pid'') base
              else base)
      in if TrimSpace (se_InstanceID sel) = '''' \<and> key = '''' \<and> TrimSpace (se_PaymentMode sel) = '''' then Map.empty
         else full(''schema_version'' \<mapsto> SnapInt 2))"

definition nil_if_empty :: "string \<Rightarrow> string option" where
  "nil_if_empty s = (if s = '''' then None else Some s)"

definition recharge_code :: "int \<Rightarrow> instant \<Rightarrow> string" where
  "recharge_code i now = ''PAY-'' @ itoa i @ ''-'' @ itoa (now mod 100000)"

definition new_order ::
    "instant \<Rightarrow> CreateOrderRequest \<Rightarrow> SubscriptionPlan option \<Rightarrow> PaymentConfig \<Rightarrow> rat \<Rightarrow> rat \<Rightarrow> InstanceSelection \<Rightarrow> string \<Rightarrow> int \<Rightarrow> PaymentOrder" where
  "new_order now req plan cfg orderAmount payAmount sel no i =
     \<lparr>po_ID = i, po_UserID = rq_UserID req, po_Amount = round_decimal orderAmount 2, po_PayAmount = round_decimal payAmount 2,
      po_RechargeCode = recharge_code i now, po_OutTradeNo = no, po_PaymentType = rq_PaymentType req, po_PaymentTradeNo = '''',
      po_OrderType = rq_OrderType req, po_SubscriptionGroupID = map_option pl_GroupID plan,
      po_SubscriptionDays = map_option (\<lambda>p. psComputeValidityDays (pl_ValidityDays p) (pl_ValidityUnit p)) plan,
      po_ProviderInstanceID = nil_if_empty (TrimSpace (se_InstanceID sel)), po_ProviderKey = nil_if_empty (TrimSpace (se_ProviderKey sel)),
      po_ProviderSnapshot = buildPaymentOrderProviderSnapshot sel req, po_Status = OrderStatusPending,
      po_RefundAmount = 0, po_RefundReason = None, po_RefundRequestReason = None, po_ForceRefund = False,
      po_ExpiresAt = now + minutes (if pc_OrderTimeoutMin cfg \<le> 0 then 30 else pc_OrderTimeoutMin cfg),
      po_PaidAt = None, po_CompletedAt = None, po_FailedAt = None, po_RefundAt = None, po_RefundRequestedAt = None,
      po_CreatedAt = now, po_UpdatedAt = now\<rparr>"

text \<open>The insertion and the update that sets the recharge code are two calls.\<close>

definition insert_order :: "(int \<Rightarrow> PaymentOrder) \<Rightarrow> paydb \<Rightarrow> PaymentOrder pay_result" where
  "insert_order mk pd0 =
     (let (fail1, pd1) = pay_call pd0; (fail2, pd2) = pay_call pd1; ord = mk (pd_next pd0)
      in if fail1 then (Inl PayStorageError, pd1)
         else if fail2 then (Inl PayStorageError, pd2\<lparr>pd_next := pd_next pd2 + 1\<rparr>)
         else (Inr ord, pd2\<lparr>pd_orders := pd_orders pd2 @ [ord], pd_next := pd_next pd2 + 1\<rparr>))"

definition createOrderInTx ::
    "instant \<Rightarrow> string list \<Rightarrow> CreateOrderRequest \<Rightarrow> SubscriptionPlan option \<Rightarrow> PaymentConfig \<Rightarrow> rat \<Rightarrow> rat \<Rightarrow> rat \<Rightarrow>
     InstanceSelection \<Rightarrow> paydb \<Rightarrow> PaymentOrder pay_result" where
  "createOrderInTx now nos req plan cfg orderAmount limitAmount payAmount sel = pay_tx (\<lambda>pd.
     and_then (checkPendingLimit (rq_UserID req) (pc_MaxPendingOrders cfg) pd) (\<lambda>_ pd.
     and_then (checkDailyLimit now (rq_UserID req) limitAmount (pc_DailyLimit cfg) pd) (\<lambda>_ pd.
     and_then (allocateOutTradeNo (take 5 nos) pd) (\<lambda>no.
     insert_order (new_order now req plan cfg orderAmount payAmount sel no)))))"

definition invokeProvider :: "pay_env \<Rightarrow> instant \<Rightarrow> PaymentOrder \<Rightarrow> InstanceSelection \<Rightarrow> rat \<Rightarrow> paydb \<Rightarrow> unit pay_result" where
  "invokeProvider env now ord sel payAmount pd =
     (case (if known_provider (se_ProviderKey sel)
            then pe_CreateProvider env (se_ProviderKey sel) (se_InstanceID sel) (Some (se_Config sel)) else None) of
        None \<Rightarrow> (Inl PayCreateFailed, pd)
      | Some prov \<Rightarrow>
          (case pv_CreatePayment prov (po_OutTradeNo ord) payAmount of
             None \<Rightarrow> (Inl PayCreateFailed, pd)
           | Some tradeNo \<Rightarrow>
               and_then (order_update now (\<lambda>d. po_ID d = po_ID ord)
                   (\<lambda>d. d\<lparr>po_PaymentTradeNo := (if tradeNo = '''' then po_PaymentTradeNo d else tradeNo),
                      po_ProviderInstanceID := (if se_InstanceID sel = '''' then po_ProviderInstanceID d else Some (se_InstanceID sel)),
                      po_ProviderKey := (if se_ProviderKey sel = '''' then po_ProviderKey d else Some (se_ProviderKey sel))\<rparr>) pd) (\<lambda>hit pd.
                 if \<not> hit then (Inl PayNotFound, pd)
                 else (Inr (), writeAuditLog now (po_ID ord) ''ORDER_CREATED'' (user_operator (po_UserID ord)) pd))))"

text \<open>The amount that is credited, and the one that limits and fees are applied to.\<close>

definition order_amounts :: "CreateOrderRequest \<Rightarrow> SubscriptionPlan option \<Rightarrow> PaymentConfig \<Rightarrow> rat \<times> rat" where
  "order_amounts req plan cfg =
     (let a = (case rq_Amount req of Fin r \<Rightarrow> r | _ \<Rightarrow> 0)
      in case plan of
           Some p \<Rightarrow> (pl_Price p, pl_Price p)
         | None \<Rightarrow> (if rq_OrderType req = OrderTypeBalance then calculateCreditedBalance a (pc_BalanceRechargeMultiplier cfg) else a, a))"

definition CreateOrder ::
    "pay_env \<Rightarrow> duration \<Rightarrow> instant \<Rightarrow> string list \<Rightarrow> CreateOrderRequest \<Rightarrow> PaymentConfig \<Rightarrow> paydb \<Rightarrow> PaymentOrder pay_result" where
  "CreateOrder env tz now nos req0 cfg pd =
     (let method = NormalizeVisibleMethod (rq_PaymentType req0);
          req = req0\<lparr>rq_OrderType := (if rq_OrderType req0 = '''' then OrderTypeBalance else rq_OrderType req0),
            rq_PaymentType := (if method \<noteq> '''' then method else rq_PaymentType req0)\<rparr>
      in if \<not> pc_Enabled cfg then (Inl PayDisabled, pd)
         else and_then (validateOrderInput req cfg pd) (\<lambda>plan pd.
           case checkCancelRateLimit tz now (rq_UserID req) cfg pd of
             (False, pd) \<Rightarrow> (Inl PayCancelLimited, pd)
           | (True, pd) \<Rightarrow>
               and_then (on_shop (user_GetByID (rq_UserID req)) pd) (\<lambda>user pd.
                 if usr_Status user \<noteq> EntityStatusActive then (Inl PayUserInactive, pd)
                 else let (orderAmount, limitAmount) = order_amounts req plan cfg;
                          payAmount = CalculatePayAmount limitAmount (pc_RechargeFeeRate cfg)
                      in and_then (selectCreateOrderInstance env tz now cfg (rq_PaymentType req) payAmount pd) (\<lambda>sel pd.
                         and_then (createOrderInTx now nos req plan cfg orderAmount limitAmount payAmount sel pd) (\<lambda>ord pd.
                           case invokeProvider env now ord sel payAmount pd of
                             (Inl e, pd) \<Rightarrow> (Inl e, snd (order_update now (\<lambda>d. po_ID d = po_ID ord)
                                 (\<lambda>d. d\<lparr>po_Status := OrderStatusFailed\<rparr>) pd))
                           | (Inr _, pd) \<Rightarrow> (Inr ord, pd))))))"

end
