(* ===== verification/PaymentFrames.thy ===== *)
theory PaymentFrames
  imports PaymentRefund PaymentCreate
begin

text \<open>
  What the operations of the payment service leave unchanged. The locale \<open>pay_frame\<close> states the contract of
  a relation between states that is blind to the audit log, the registry and the schedule of faults; every
  operation that only reads orders and writes the log keeps such a relation. It is interpreted on the
  statuses of an order, and on the users and redeem codes.
\<close>

section \<open>Reading\<close>

locale pay_frame = state_frame R for R :: "paydb \<Rightarrow> paydb \<Rightarrow> bool" +
  assumes call: "R pd (snd (pay_call pd))"
    and audits: "R pd (pd\<lparr>pd_audits := logs\<rparr>)"
    and registry: "R pd (pd\<lparr>pd_registry := reg\<rparr>)"
    and loaded: "R pd (pd\<lparr>pd_loaded := b\<rparr>)"
begin

lemma pay_call_leads [leads_intros]: "R pd0 pd \<Longrightarrow> leads R pd0 (pay_call pd)"
  by (auto simp: leads_def intro: frame_trans call)

lemma audits_leads [leads_intros]: "R pd0 pd \<Longrightarrow> R pd0 (pd\<lparr>pd_audits := logs\<rparr>)"
  by (blast intro: frame_trans audits)

lemma registry_leads [leads_intros]: "R pd0 pd \<Longrightarrow> R pd0 (pd\<lparr>pd_registry := reg\<rparr>)"
  by (blast intro: frame_trans registry)

lemma loaded_leads [leads_intros]: "R pd0 pd \<Longrightarrow> R pd0 (pd\<lparr>pd_loaded := b\<rparr>)"
  by (blast intro: frame_trans loaded)

lemma order_Get_leads [leads_intros]: "R pd0 pd \<Longrightarrow> leads R pd0 (order_Get i pd)"
  unfolding order_Get_def Let_def by (intro leads_intros)

lemma order_by_out_trade_no_leads [leads_intros]: "R pd0 pd \<Longrightarrow> leads R pd0 (order_by_out_trade_no no pd)"
  unfolding order_by_out_trade_no_def Let_def by (intro leads_intros)

lemma instance_Get_leads [leads_intros]: "R pd0 pd \<Longrightarrow> leads R pd0 (instance_Get i pd)"
  unfolding instance_Get_def Let_def by (intro leads_intros)

lemma instance_Query_leads [leads_intros]: "R pd0 pd \<Longrightarrow> leads R pd0 (instance_Query P pd)"
  unfolding instance_Query_def Let_def by (intro leads_intros)

lemma hasAuditLog_leads [leads_intros]: "R pd0 pd \<Longrightarrow> leads R pd0 (hasAuditLog i a pd)"
  unfolding hasAuditLog_def Let_def by (intro leads_intros)

lemma writeAuditLog_leads [leads_intros]: "R pd0 pd \<Longrightarrow> R pd0 (writeAuditLog now i a u pd)"
  using pay_call_leads [of pd0 pd] audits
  by (auto simp: writeAuditLog_def leads_def intro: frame_trans split: prod.splits)

lemma resolveSnapshotOrderProviderInstance_leads [leads_intros]:
  "R pd0 pd \<Longrightarrow> leads R pd0 (resolveSnapshotOrderProviderInstance ord sn pd)"
  unfolding resolveSnapshotOrderProviderInstance_def Let_def by (intro leads_intros)

lemma resolveUniqueLegacyOrderProviderInstance_leads [leads_intros]:
  "R pd0 pd \<Longrightarrow> leads R pd0 (resolveUniqueLegacyOrderProviderInstance ord pd)"
  unfolding resolveUniqueLegacyOrderProviderInstance_def Let_def by (intro leads_intros)

lemma getOrderProviderInstance_leads [leads_intros]: "R pd0 pd \<Longrightarrow> leads R pd0 (getOrderProviderInstance ord pd)"
  unfolding getOrderProviderInstance_def Let_def by (intro leads_intros)

lemma getRefundOrderProviderInstance_leads [leads_intros]:
  "R pd0 pd \<Longrightarrow> leads R pd0 (getRefundOrderProviderInstance ord pd)"
  unfolding getRefundOrderProviderInstance_def Let_def by (intro leads_intros)

lemma createProviderFromInstance_leads [leads_intros]: "R pd0 pd \<Longrightarrow> leads R pd0 (createProviderFromInstance env i pd)"
  unfolding createProviderFromInstance_def by (intro leads_intros)

lemma register_all_leads [leads_intros]: "R pd0 pd \<Longrightarrow> leads R pd0 (register_all env is pd)"
proof (induction "is" arbitrary: pd)
  case Nil
  then show ?case by (simp add: leads_def)
next
  case (Cons i "is")
  show ?case unfolding register_all.simps Register_def by (intro leads_intros Cons.IH Cons.prems)
qed

lemma loadProviders_leads [leads_intros]: "R pd0 pd \<Longrightarrow> leads R pd0 (loadProviders env pd)"
  unfolding loadProviders_def by (intro leads_intros)

lemma EnsureProviders_leads [leads_intros]: "R pd0 pd \<Longrightarrow> leads R pd0 (EnsureProviders env pd)"
  unfolding EnsureProviders_def by (intro leads_intros)

lemma RefreshProviders_leads [leads_intros]: "R pd0 pd \<Longrightarrow> leads R pd0 (RefreshProviders env pd)"
  unfolding RefreshProviders_def by (intro leads_intros)

lemma webhookRegistryFallbackAllowed_leads [leads_intros]:
  "R pd0 pd \<Longrightarrow> leads R pd0 (webhookRegistryFallbackAllowed k pd)"
  unfolding webhookRegistryFallbackAllowed_def Let_def by (intro leads_intros)

lemma getOrderProvider_leads [leads_intros]: "R pd0 pd \<Longrightarrow> leads R pd0 (getOrderProvider env ord pd)"
  unfolding getOrderProvider_def Let_def by (intro leads_intros)

lemma getRefundProvider_leads [leads_intros]: "R pd0 pd \<Longrightarrow> leads R pd0 (getRefundProvider env ord pd)"
  unfolding getRefundProvider_def by (intro leads_intros)

lemma create_all_leads [leads_intros]: "R pd0 pd \<Longrightarrow> leads R pd0 (create_all env is pd)"
proof (induction "is" arbitrary: pd)
  case Nil
  then show ?case by (simp add: leads_def)
next
  case (Cons i "is")
  show ?case unfolding create_all.simps by (intro leads_intros Cons.IH Cons.prems)
qed

lemma webhook_fallback_leads [leads_intros]: "R pd0 pd \<Longrightarrow> leads R pd0 (webhook_fallback pick env k pd)"
  unfolding webhook_fallback_def getEnabledWebhookProvidersByKey_def Let_def by (intro leads_intros)

lemma GetWebhookProviders_leads: "R pd0 pd \<Longrightarrow> leads R pd0 (GetWebhookProviders pick env k no pd)"
  unfolding GetWebhookProviders_def getPinnedOrderProvider_def by (intro leads_intros)

lemma checkCancelRateLimit_leads [leads_intros]: "R pd0 pd \<Longrightarrow> leads R pd0 (checkCancelRateLimit tz now uid cfg pd)"
  unfolding checkCancelRateLimit_def Let_def by (intro leads_intros)

lemma GetPlan_leads [leads_intros]: "R pd0 pd \<Longrightarrow> leads R pd0 (GetPlan i pd)"
  unfolding GetPlan_def Let_def by (intro leads_intros)

lemma checkPendingLimit_leads [leads_intros]: "R pd0 pd \<Longrightarrow> leads R pd0 (checkPendingLimit uid limit pd)"
  unfolding checkPendingLimit_def Let_def by (intro leads_intros)

lemma checkDailyLimit_leads [leads_intros]: "R pd0 pd \<Longrightarrow> leads R pd0 (checkDailyLimit now uid a limit pd)"
  unfolding checkDailyLimit_def Let_def by (intro leads_intros)

lemma allocateOutTradeNo_leads [leads_intros]: "R pd0 pd \<Longrightarrow> leads R pd0 (allocateOutTradeNo nos pd)"
proof (induction nos arbitrary: pd)
  case Nil
  then show ?case by (simp add: leads_def)
next
  case (Cons no nos)
  show ?case unfolding allocateOutTradeNo.simps Let_def by (intro leads_intros Cons.IH Cons.prems)
qed

lemma route_method_leads [leads_intros]: "R pd0 pd \<Longrightarrow> leads R pd0 (route_method env t pd)"
  unfolding route_method_def Let_def by (intro leads_intros)

lemma tryClaimAffiliateRebateAudit_leads [leads_intros]: "R pd0 pd \<Longrightarrow> leads R pd0 (tryClaimAffiliateRebateAudit now i pd)"
  unfolding tryClaimAffiliateRebateAudit_def Let_def by (intro leads_intros)

lemma updateClaimedAffiliateRebateAudit_leads [leads_intros]:
  "R pd0 pd \<Longrightarrow> leads R pd0 (updateClaimedAffiliateRebateAudit i a pd)"
  unfolding updateClaimedAffiliateRebateAudit_def Let_def by (intro leads_intros)

end

section \<open>Writing orders\<close>

text \<open>
  A relation that is blind to the tables of the other services, to new orders, and to updates of orders
  that are \<open>free\<close>, that have a \<open>loose\<close> status, or whose status stays.
\<close>

locale order_frame = pay_frame R for R :: "paydb \<Rightarrow> paydb \<Rightarrow> bool" +
  fixes free :: "int \<Rightarrow> bool" and loose :: "order_status \<Rightarrow> bool"
  assumes aff: "R pd (pd\<lparr>pd_aff := ad\<rparr>)"
    and counter: "R pd (pd\<lparr>pd_counter := c\<rparr>)"
    and rolled: "R pd pd' \<Longrightarrow> R pd (pd\<lparr>pd_aff := ad, pd_next := pd_next pd'\<rparr>)"
    and skipped: "R pd (pd\<lparr>pd_next := pd_next pd + 1\<rparr>)"
    and inserted: "po_ID d = pd_next pd \<Longrightarrow> R pd (pd\<lparr>pd_orders := pd_orders pd @ [d], pd_next := pd_next pd + 1\<rparr>)"
    and updated: "(\<And>d. po_ID (f d) = po_ID d) \<Longrightarrow>
      (\<And>d. P d \<Longrightarrow> free (po_ID d) \<or> loose (po_Status d) \<or> po_Status (f d) = po_Status d) \<Longrightarrow>
      R pd (pd\<lparr>pd_orders := map (\<lambda>d. if P d then f d else d) (pd_orders pd)\<rparr>)"
begin

lemma order_update_leads:
  assumes "R pd0 pd" and "\<And>d. po_ID (f d) = po_ID d"
    and "\<And>d. P d \<Longrightarrow> free (po_ID d) \<or> loose (po_Status d) \<or> po_Status (f d) = po_Status d"
  shows "leads R pd0 (order_update now P f pd)"
proof -
  obtain b s where s: "pay_call pd = (b, s)" by fastforce
  have "R pd0 s" using pay_call_leads [OF assms(1)] s by (simp add: leads_def)
  moreover have "R s (s\<lparr>pd_orders := map (\<lambda>d. if P d then (f d)\<lparr>po_UpdatedAt := now\<rparr> else d) (pd_orders s)\<rparr>)"
    by (rule updated [of "\<lambda>d. (f d)\<lparr>po_UpdatedAt := now\<rparr>"]) (use assms in simp_all)
  ultimately show ?thesis using s by (auto simp: order_update_def leads_def intro: frame_trans)
qed

lemma on_aff_leads [leads_intros]: "R pd0 pd \<Longrightarrow> leads R pd0 (on_aff c pd)"
  by (auto simp: on_aff_def leads_def intro: frame_trans aff split: prod.splits sum.splits)

lemma on_shop_leads [leads_intros]: "R pd0 pd \<Longrightarrow> leads R pd0 (on_shop c pd)"
  by (auto simp: on_shop_def leads_def intro: frame_trans aff split: prod.splits sum.splits)

lemma on_subs_leads [leads_intros]: "R pd0 pd \<Longrightarrow> leads R pd0 (on_subs c pd)"
  by (auto simp: on_subs_def leads_def Let_def intro: frame_trans aff split: prod.splits sum.splits)

lemma aff_leads [leads_intros]: "R pd0 pd \<Longrightarrow> R pd0 (pd\<lparr>pd_aff := ad\<rparr>)"
  by (blast intro: frame_trans aff)

lemma counter_leads [leads_intros]: "R pd0 pd \<Longrightarrow> R pd0 (pd\<lparr>pd_counter := c\<rparr>)"
  by (blast intro: frame_trans counter)

lemma pay_tx_leads: "R pd0 pd \<Longrightarrow> (\<And>s. leads R s (body s)) \<Longrightarrow> leads R pd0 (pay_tx body pd)"
  unfolding pay_tx_def by (rule run_tx_leads) (auto intro: rolled simp: leads_def call)

subsection \<open>Fulfilment\<close>

lemma rebate_body_leads: "leads R pd (rebate_body env now ord pd)"
  unfolding rebate_body_def by (intro leads_intros frame_refl)

lemma applyAffiliateRebateForOrder_leads [leads_intros]:
  "R pd0 pd \<Longrightarrow> leads R pd0 (applyAffiliateRebateForOrder env now ord pd)"
  unfolding applyAffiliateRebateForOrder_def by (intro leads_intros pay_tx_leads rebate_body_leads)

lemma markCompleted_leads [leads_intros]:
  "R pd0 pd \<Longrightarrow> free (po_ID ord) \<Longrightarrow> leads R pd0 (markCompleted now ord a pd)"
  unfolding markCompleted_def by (intro leads_intros order_update_leads) auto

lemma markFailed_leads [leads_intros]: "R pd0 pd \<Longrightarrow> free oid \<Longrightarrow> R pd0 (markFailed now oid pd)"
proof -
  assume a: "R pd0 pd" "free oid"
  obtain r s where s: "order_update now (\<lambda>d. po_ID d = oid \<and> po_Status d = OrderStatusRecharging)
             (\<lambda>d. d\<lparr>po_Status := OrderStatusFailed, po_FailedAt := Some now\<rparr>) pd = (r, s)" by fastforce
  have "leads R pd0 (order_update now (\<lambda>d. po_ID d = oid \<and> po_Status d = OrderStatusRecharging)
             (\<lambda>d. d\<lparr>po_Status := OrderStatusFailed, po_FailedAt := Some now\<rparr>) pd)"
    by (intro order_update_leads) (use a in auto)
  then have "R pd0 s" by (simp add: leads_def s)
  with s show ?thesis by (auto simp: markFailed_def intro: writeAuditLog_leads split: sum.splits bool.splits)
qed

lemma credit_order_leads [leads_intros]: "R pd0 pd \<Longrightarrow> leads R pd0 (credit_order now ord pd)"
proof -
  assume a: "R pd0 pd"
  obtain r sh where c: "code_GetByCode (po_RechargeCode ord) (ad_shop (pd_aff pd)) = (r, sh)" by fastforce
  show ?thesis unfolding credit_order_def Let_def c
    by (cases "resolveRedeemAction r"; simp; intro leads_intros a)
qed

lemma doBalance_leads [leads_intros]: "R pd0 pd \<Longrightarrow> free (po_ID ord) \<Longrightarrow> leads R pd0 (doBalance env now ord pd)"
  unfolding doBalance_def by (intro leads_intros)

lemma doSub_leads [leads_intros]: "R pd0 pd \<Longrightarrow> free (po_ID ord) \<Longrightarrow> leads R pd0 (doSub now ord gid n pd)"
  unfolding doSub_def Let_def by (intro leads_intros)

subsection \<open>Refunds\<close>

lemma set_order_leads [leads_intros]:
  "R pd0 pd \<Longrightarrow> free oid \<Longrightarrow> (\<And>d. po_ID (f d) = po_ID d) \<Longrightarrow> R pd0 (set_order now oid f pd)"
  using order_update_leads [of pd0 pd f "\<lambda>d. po_ID d = oid" now] by (auto simp: set_order_def leads_def)

lemma restoreStatus_leads [leads_intros]: "R pd0 pd \<Longrightarrow> free (po_ID (rp_Order p)) \<Longrightarrow> R pd0 (restoreStatus now p pd)"
  unfolding restoreStatus_def by (intro leads_intros) auto

lemma RollbackRefund_leads [leads_intros]: "R pd0 pd \<Longrightarrow> leads R pd0 (RollbackRefund now p pd)"
  unfolding RollbackRefund_def extend_sub_def Let_def by (intro leads_intros)

lemma handleGwFail_leads [leads_intros]: "R pd0 pd \<Longrightarrow> free (po_ID (rp_Order p)) \<Longrightarrow> leads R pd0 (handleGwFail now p pd)"
  unfolding handleGwFail_def Let_def by (intro leads_intros) auto

lemma markRefundOk_leads [leads_intros]: "R pd0 pd \<Longrightarrow> free (po_ID (rp_Order p)) \<Longrightarrow> leads R pd0 (markRefundOk now p pd)"
  unfolding markRefundOk_def Let_def by (intro leads_intros order_update_leads) auto

lemma deduct_balance_leads [leads_intros]: "R pd0 pd \<Longrightarrow> free (po_ID (rp_Order p)) \<Longrightarrow> leads R pd0 (deduct_balance now p pd)"
  unfolding deduct_balance_def Let_def by (intro leads_intros)

lemma deduct_days_leads [leads_intros]: "R pd0 pd \<Longrightarrow> free (po_ID (rp_Order p)) \<Longrightarrow> leads R pd0 (deduct_days now p pd)"
  unfolding deduct_days_def extend_sub_def Let_def by (intro leads_intros)

text \<open>A deduction that succeeds has not touched the order.\<close>

lemma deduct_balance_ok:
  assumes d: "deduct_balance now p pd = (Inr q, pd')" and r: "R pd0 pd"
  shows "R pd0 pd'"
proof -
  obtain b s where h: "hasAuditLog (po_ID (rp_Order p)) ''REFUND_ROLLBACK_FAILED'' pd = (b, s)" by fastforce
  obtain x s' where u: "on_shop (user_DeductBalance (po_UserID (rp_Order p)) (rp_BalanceToDeduct p)) s = (x, s')" by fastforce
  have "R pd0 s" by (rule leads_result [OF h hasAuditLog_leads [OF r]])
  moreover from this have "R pd0 s'" by (rule leads_result [OF u on_shop_leads])
  ultimately show ?thesis using d r by (cases x) (auto simp: deduct_balance_def h u split: if_splits)
qed

lemma deduct_days_ok:
  assumes d: "deduct_days now p pd = (Inr q, pd')" and r: "R pd0 pd"
  shows "R pd0 pd'"
proof -
  obtain b s where h: "hasAuditLog (po_ID (rp_Order p)) ''REFUND_ROLLBACK_FAILED'' pd = (b, s)" by fastforce
  obtain x s' where u: "on_subs (ExtendSubscription now (rp_SubscriptionID p) (- rp_SubDaysToDeduct p)) s = (x, s')" by fastforce
  obtain y s'' where v: "on_subs (RevokeSubscription (rp_SubscriptionID p)) s' = (y, s'')" by fastforce
  have "R pd0 s" by (rule leads_result [OF h hasAuditLog_leads [OF r]])
  moreover from this have "R pd0 s'" by (rule leads_result [OF u on_subs_leads])
  moreover from this have "R pd0 s''" by (rule leads_result [OF v on_subs_leads])
  ultimately show ?thesis using d r by (cases x; cases y) (auto simp: deduct_days_def extend_sub_def h u v split: if_splits)
qed

lemma validateRefundRequest_leads [leads_intros]: "R pd0 pd \<Longrightarrow> leads R pd0 (validateRefundRequest oid uid pd)"
  unfolding validateRefundRequest_def by (intro leads_intros)

lemma prepDeduct_leads [leads_intros]: "R pd0 pd \<Longrightarrow> leads R pd0 (prepDeduct env now ord force p pd)"
  unfolding prepDeduct_def Let_def
  by (cases "po_SubscriptionGroupID ord"; cases "po_SubscriptionDays ord"; simp only: prod.case option.case; intro leads_intros)

subsection \<open>Creation\<close>

lemma leads_case_pair: "(\<And>a b. leads R s0 (h a b)) \<Longrightarrow> leads R s0 (case x of (a, b) \<Rightarrow> h a b)"
  by (simp split: prod.split)

lemma validateSubOrder_leads [leads_intros]: "R pd0 pd \<Longrightarrow> leads R pd0 (validateSubOrder req pd)"
  unfolding validateSubOrder_def by (intro leads_intros)

lemma validateOrderInput_leads [leads_intros]: "R pd0 pd \<Longrightarrow> leads R pd0 (validateOrderInput req cfg pd)"
  unfolding validateOrderInput_def by (intro leads_intros)

lemma selectCreateOrderInstance_leads [leads_intros]:
  "R pd0 pd \<Longrightarrow> leads R pd0 (selectCreateOrderInstance env tz now cfg t a pd)"
  unfolding selectCreateOrderInstance_def Let_def
  by (intro leads_intros) (auto simp: split_beta intro: leads_intros)

lemma insert_order_leads [leads_intros]: "(\<And>i. po_ID (mk i) = i) \<Longrightarrow> R pd0 pd \<Longrightarrow> leads R pd0 (insert_order mk pd)"
proof -
  assume a: "\<And>i. po_ID (mk i) = i" "R pd0 pd"
  obtain b1 s1 where s1: "pay_call pd = (b1, s1)" by fastforce
  obtain b2 s2 where s2: "pay_call s1 = (b2, s2)" by fastforce
  have "R pd0 s1" using pay_call_leads [OF a(2)] s1 by (simp add: leads_def)
  moreover from this have "R pd0 s2" using pay_call_leads [of pd0 s1] s2 by (simp add: leads_def)
  moreover have "pd_next s2 = pd_next pd"
    using s1 s2 by (auto simp: pay_call_def split: prod.splits)
  ultimately show ?thesis
    using s1 s2 inserted [of "mk (pd_next s2)" s2] skipped [of s2] a
    by (auto simp: insert_order_def leads_def Let_def intro: frame_trans)
qed

lemma createOrderInTx_leads [leads_intros]:
  "R pd0 pd \<Longrightarrow> leads R pd0 (createOrderInTx now nos req plan cfg a l pa sel pd)"
  unfolding createOrderInTx_def
  by (intro pay_tx_leads leads_intros frame_refl) (simp_all add: new_order_def)

lemma invokeProvider_leads [leads_intros]: "R pd0 pd \<Longrightarrow> leads R pd0 (invokeProvider env now ord sel pa pd)"
  unfolding invokeProvider_def by (intro leads_intros order_update_leads) auto

end

section \<open>Fresh identifiers\<close>

definition next_grows :: "paydb \<Rightarrow> paydb \<Rightarrow> bool" where
  "next_grows pd pd' \<longleftrightarrow> pd_next pd \<le> pd_next pd'"

lemma pay_call_next: "pd_next (snd (pay_call pd)) = pd_next pd"
  by (simp add: pay_call_def split: prod.splits)

interpretation fresh: order_frame next_grows "\<lambda>_. True" "\<lambda>_. True"
  by unfold_locales (auto simp: next_grows_def pay_call_next)

lemma createOrderInTx_fresh:
  assumes "createOrderInTx now nos req plan cfg a l pa sel pd = (Inr ord, pd')"
  shows "pd_next pd \<le> po_ID ord"
proof -
  define body where "body = (\<lambda>pd. and_then (checkPendingLimit (rq_UserID req) (pc_MaxPendingOrders cfg) pd) (\<lambda>_ pd.
     and_then (checkDailyLimit now (rq_UserID req) l (pc_DailyLimit cfg) pd) (\<lambda>_ pd.
     and_then (allocateOutTradeNo (take 5 nos) pd) (\<lambda>no. insert_order (new_order now req plan cfg a pa sel no)))))"
  have body: "pd_next s \<le> po_ID ord" if b: "body s = (Inr ord, s')" for s s'
  proof -
    from b obtain u s1 where 1: "checkPendingLimit (rq_UserID req) (pc_MaxPendingOrders cfg) s = (Inr u, s1)"
      and b1: "and_then (checkDailyLimit now (rq_UserID req) l (pc_DailyLimit cfg) s1) (\<lambda>_ pd.
        and_then (allocateOutTradeNo (take 5 nos) pd) (\<lambda>no. insert_order (new_order now req plan cfg a pa sel no))) = (Inr ord, s')"
      unfolding body_def by (rule and_then_InrE)
    from b1 obtain u s2 where 2: "checkDailyLimit now (rq_UserID req) l (pc_DailyLimit cfg) s1 = (Inr u, s2)"
      and b2: "and_then (allocateOutTradeNo (take 5 nos) s2) (\<lambda>no. insert_order (new_order now req plan cfg a pa sel no)) = (Inr ord, s')"
      by (rule and_then_InrE)
    from b2 obtain no s3 where 3: "allocateOutTradeNo (take 5 nos) s2 = (Inr no, s3)"
      and b3: "insert_order (new_order now req plan cfg a pa sel no) s3 = (Inr ord, s')" by (rule and_then_InrE)
    have "next_grows s s1" by (rule leads_result [OF 1 fresh.checkPendingLimit_leads [OF fresh.frame_refl]])
    then have "next_grows s s2" by (rule leads_result [OF 2 fresh.checkDailyLimit_leads])
    then have "next_grows s s3" by (rule leads_result [OF 3 fresh.allocateOutTradeNo_leads])
    then show ?thesis using b3 by (auto simp: insert_order_def Let_def new_order_def next_grows_def split: prod.splits if_splits)
  qed
  obtain b s where c: "pay_call pd = (b, s)" by fastforce
  then have "pd_next s = pd_next pd" using pay_call_next [of pd] by simp
  then show ?thesis using assms body [of s]
    by (auto simp: createOrderInTx_def body_def [symmetric] pay_tx_def run_tx_def c split: prod.splits sum.splits if_splits)
qed

lemmas TrueI [leads_intros]

section \<open>Whole operations\<close>

text \<open>
  An operation that takes an order by a conditional update may then do anything to it. Such operations
  keep a relation \<open>R\<close> that is only about orders which are not loose: the update that takes the order
  \<open>releases\<close> \<open>R\<close>, and from then on the weaker relation \<open>W\<close> is enough.
\<close>

locale guarded_frame = order_frame R free loose + w: order_frame W "\<lambda>_. True" loose
  for R :: "paydb \<Rightarrow> paydb \<Rightarrow> bool" and W :: "paydb \<Rightarrow> paydb \<Rightarrow> bool" and free loose +
  assumes release: "\<not> free oid \<Longrightarrow>
      pd_next pd \<le> oid \<or> (\<exists>d \<in> set (pd_orders pd). po_ID d = oid \<and> loose (po_Status d)) \<Longrightarrow> W pd pd' \<Longrightarrow> R pd pd'"
    and loose_open: "loose OrderStatusPaid" "loose OrderStatusFailed" "loose OrderStatusPending" "loose OrderStatusCancelled"
      "loose OrderStatusExpired" "loose OrderStatusCompleted" "loose OrderStatusRefundRequested" "loose OrderStatusRefundFailed"
begin

lemma guarded_and_then:
  assumes r: "R pd0 pd" and f: "\<And>d. po_ID (f d) = po_ID d" and P: "\<And>d. P d \<Longrightarrow> po_ID d = oid \<and> loose (po_Status d)"
    and free: "\<And>hit s. R pd0 s \<Longrightarrow> free oid \<Longrightarrow> leads R pd0 (g hit s)" and missed: "\<And>s. R pd0 s \<Longrightarrow> leads R pd0 (g False s)"
    and w: "\<And>hit s. W pd s \<Longrightarrow> leads W pd (g hit s)"
  shows "leads R pd0 (and_then (order_update now P f pd) g)"
proof (rule leads_and_then)
  show u: "leads R pd0 (order_update now P f pd)" by (rule order_update_leads [OF r f]) (use P in blast)
  fix hit s
  assume upd: "order_update now P f pd = (Inr hit, s)" and s: "R pd0 s"
  show "leads R pd0 (g hit s)"
  proof (cases "free oid \<or> \<not> hit")
    case True
    then show ?thesis using free [OF s] missed [OF s] by auto
  next
    case False
    have "leads W pd (order_update now P f pd)" by (rule w.order_update_leads [OF w.frame_refl f]) simp
    then have "leads W pd (g hit s)" using w upd by (simp add: leads_def)
    moreover have "\<exists>d \<in> set (pd_orders pd). P d"
      using upd False by (auto simp: order_update_def pay_call_def list_ex_iff split: prod.splits if_splits)
    ultimately have "leads R pd (g hit s)" using release [of oid pd] P False by (auto simp: leads_def)
    with r show ?thesis by (rule leads_trans)
  qed
qed

lemma order_Get_id: "order_Get i pd = (Inr ord, pd') \<Longrightarrow> po_ID ord = i"
  by (auto simp: order_Get_def pay_call_def find_Some_iff split: if_splits option.splits prod.splits)

lemma ExecuteBalanceFulfillment_leads [leads_intros]:
  "R pd0 pd \<Longrightarrow> leads R pd0 (ExecuteBalanceFulfillment env now oid pd)"
  unfolding ExecuteBalanceFulfillment_def lock_order_def
  by (intro guarded_and_then [where oid = oid] leads_case_prod leads_case_sum leads_case_option leads_pair order_Get_leads)
    (auto simp: loose_open dest!: order_Get_id intro!: leads_intros)

lemma ExecuteSubscriptionFulfillment_leads [leads_intros]:
  "R pd0 pd \<Longrightarrow> leads R pd0 (ExecuteSubscriptionFulfillment now oid pd)"
  unfolding ExecuteSubscriptionFulfillment_def lock_order_def case_prod_conv
  by (intro guarded_and_then [where oid = oid] leads_case_prod leads_case_sum leads_case_option leads_pair order_Get_leads)
    (auto simp: loose_open dest!: order_Get_id intro!: leads_intros)

lemma executeFulfillment_leads [leads_intros]: "R pd0 pd \<Longrightarrow> leads R pd0 (executeFulfillment env now oid pd)"
  unfolding executeFulfillment_def by (intro leads_intros)

lemma RetryFulfillment_leads: "R pd0 pd \<Longrightarrow> leads R pd0 (RetryFulfillment env now oid pd)"
  unfolding RetryFulfillment_def
  by (intro leads_intros order_update_leads) (auto simp: loose_open)

lemma alreadyProcessed_leads [leads_intros]: "R pd0 pd \<Longrightarrow> leads R pd0 (alreadyProcessed env now oid pd)"
  unfolding alreadyProcessed_def
  by (intro leads_case_prod leads_case_sum order_Get_leads leads_pair) (auto split: order_status.split intro!: leads_intros)

lemma toPaid_leads [leads_intros]: "R pd0 pd \<Longrightarrow> leads R pd0 (toPaid env now ord no x pk pd)"
  unfolding toPaid_def Let_def
  by (intro leads_intros order_update_leads) (auto simp: payable_def loose_open)

lemma confirmPayment_leads [leads_intros]: "R pd0 pd \<Longrightarrow> leads R pd0 (confirmPayment env now oid no x pk md pd)"
  unfolding confirmPayment_def Let_def by (intro leads_intros)

lemma HandlePaymentNotification_leads [leads_intros]:
  "R pd0 pd \<Longrightarrow> leads R pd0 (HandlePaymentNotification env now n pk pd)"
  unfolding HandlePaymentNotification_def by (intro leads_intros)

lemma settle_paid_leads [leads_intros]: "R pd0 pd \<Longrightarrow> leads R pd0 (settle_paid env now ord prov ref resp pd)"
proof -
  assume "R pd0 pd"
  moreover have "R pd0 (snd (order_update now (\<lambda>d. po_ID d = po_ID ord) (\<lambda>d. d\<lparr>po_PaymentTradeNo := x\<rparr>) pd))"
    if "R pd0 pd" for x
    using order_update_leads [OF that, of "\<lambda>d. d\<lparr>po_PaymentTradeNo := x\<rparr>" "\<lambda>d. po_ID d = po_ID ord" now] by (simp add: leads_def)
  ultimately show ?thesis
    using HandlePaymentNotification_leads by (simp add: settle_paid_def Let_def leads_def)
qed

lemma checkPaid_leads [leads_intros]: "R pd0 pd \<Longrightarrow> leads R pd0 (checkPaid env now ord pd)"
  unfolding checkPaid_def Let_def by (intro leads_intros)

lemma cancelCore_leads [leads_intros]: "R pd0 pd \<Longrightarrow> leads R pd0 (cancelCore env now ord final u pd)"
  unfolding cancelCore_def by (intro leads_intros order_update_leads) (auto simp: loose_open)

lemma CancelOrder_leads: "R pd0 pd \<Longrightarrow> leads R pd0 (CancelOrder env now oid uid pd)"
  unfolding CancelOrder_def by (intro leads_intros)

lemma AdminCancelOrder_leads: "R pd0 pd \<Longrightarrow> leads R pd0 (AdminCancelOrder env now oid pd)"
  unfolding AdminCancelOrder_def by (intro leads_intros)

lemma expire_orders_leads [leads_intros]: "R pd0 pd \<Longrightarrow> leads R pd0 (expire_orders env now ords pd)"
proof (induction ords arbitrary: pd)
  case Nil
  then show ?case by (simp add: leads_def)
next
  case (Cons ord ords)
  show ?case unfolding expire_orders.simps by (intro leads_intros Cons.IH Cons.prems)
qed

lemma ExpireTimedOutOrders_leads: "R pd0 pd \<Longrightarrow> leads R pd0 (ExpireTimedOutOrders env now pd)"
  unfolding ExpireTimedOutOrders_def Let_def by (intro leads_intros)

lemma VerifyOrderByOutTradeNo_leads: "R pd0 pd \<Longrightarrow> leads R pd0 (VerifyOrderByOutTradeNo env now no uid pd)"
  unfolding VerifyOrderByOutTradeNo_def by (intro leads_intros)

lemma RequestRefund_leads: "R pd0 pd \<Longrightarrow> leads R pd0 (RequestRefund now oid uid reason pd)"
  unfolding RequestRefund_def by (intro leads_intros order_update_leads) (auto simp: loose_open)

lemma PrepareRefund_leads: "R pd0 pd \<Longrightarrow> leads R pd0 (PrepareRefund env now oid amt reason force deduct pd)"
  unfolding PrepareRefund_def Let_def
  by (intro leads_case_prod leads_case_sum leads_case_option leads_pair leads_if order_Get_leads getRefundOrderProviderInstance_leads)
    (auto split: float64.split intro!: leads_intros)

lemma create_rest_leads:
  assumes "R pd0 pd"
  shows "leads R pd0 (and_then (createOrderInTx now nos req plan cfg a l pa sel pd) (\<lambda>ord pd.
    case invokeProvider env now ord sel pa pd of
      (Inl e, pd) \<Rightarrow> (Inl e, snd (order_update now (\<lambda>d. po_ID d = po_ID ord) (\<lambda>d. d\<lparr>po_Status := OrderStatusFailed\<rparr>) pd))
    | (Inr _, pd) \<Rightarrow> (Inr ord, pd)))" (is "leads R pd0 (and_then ?tx ?g)")
proof (rule leads_and_then)
  show "leads R pd0 ?tx" using assms by (intro leads_intros)
  fix ord s assume tx: "?tx = (Inr ord, s)" and s: "R pd0 s"
  obtain r s' where inv: "invokeProvider env now ord sel pa s = (r, s')" by fastforce
  show "leads R pd0 (?g ord s)"
  proof (cases "free (po_ID ord)")
    case True
    have "R pd0 s'" by (rule leads_result [OF inv invokeProvider_leads [OF s]])
    then have "leads R pd0 (order_update now (\<lambda>d. po_ID d = po_ID ord) (\<lambda>d. d\<lparr>po_Status := OrderStatusFailed\<rparr>) s')"
      by (rule order_update_leads) (use True in auto)
    with \<open>R pd0 s'\<close> show ?thesis by (auto simp: inv leads_def split: sum.split)
  next
    case False
    have "W pd s" by (rule leads_result [OF tx w.createOrderInTx_leads [OF w.frame_refl]])
    then have "W pd s'" by (rule leads_result [OF inv w.invokeProvider_leads])
    moreover from this have "leads W pd (order_update now (\<lambda>d. po_ID d = po_ID ord) (\<lambda>d. d\<lparr>po_Status := OrderStatusFailed\<rparr>) s')"
      by (rule w.order_update_leads) auto
    ultimately have "leads W pd (?g ord s)" by (auto simp: inv leads_def split: sum.split)
    then have "leads R pd (?g ord s)" using release [OF False] createOrderInTx_fresh [OF tx] by (simp add: leads_def)
    with assms show ?thesis by (rule leads_trans)
  qed
qed

lemma CreateOrder_leads: "R pd0 pd \<Longrightarrow> leads R pd0 (CreateOrder env tz now nos req cfg pd)"
  unfolding CreateOrder_def Let_def
  by (intro leads_intros;
      (assumption | rule leads_case_pair, rule leads_and_then, erule selectCreateOrderInstance_leads, erule create_rest_leads))

end

section \<open>Paying back\<close>

lemma leads_case_refund [leads_intros]:
  "\<lbrakk>v = RefundConfirmed \<Longrightarrow> leads R s a; v = RefundRefused \<Longrightarrow> leads R s b; v = RefundUnconfirmed \<Longrightarrow> leads R s c\<rbrakk> \<Longrightarrow>
   leads R s (case v of RefundConfirmed \<Rightarrow> a | RefundRefused \<Rightarrow> b | RefundUnconfirmed \<Rightarrow> c)"
  by (cases v) simp_all

text \<open>Relations that are blind to the payments of providers, too.\<close>

locale refund_frame = guarded_frame R W free loose for R W :: "paydb \<Rightarrow> paydb \<Rightarrow> bool" and free loose +
  assumes refunds: "R pd (pd\<lparr>pd_refunds := x\<rparr>)" and refunds_W: "W pd (pd\<lparr>pd_refunds := x\<rparr>)"
begin

lemma refunds_leads [leads_intros]: "R pd0 pd \<Longrightarrow> R pd0 (pd\<lparr>pd_refunds := x\<rparr>)"
  by (blast intro: frame_trans refunds)

lemma refunds_W_leads [leads_intros]: "W pd0 pd \<Longrightarrow> W pd0 (pd\<lparr>pd_refunds := x\<rparr>)"
  by (blast intro: w.frame_trans refunds_W)

lemma gwRefund_leads [leads_intros]: "R pd0 pd \<Longrightarrow> leads R pd0 (gwRefund env now p pd)"
  unfolding gwRefund_def Let_def by (intro leads_intros)

lemma gwRefund_W_leads [leads_intros]: "W pd0 pd \<Longrightarrow> leads W pd0 (gwRefund env now p pd)"
  unfolding gwRefund_def Let_def by (intro leads_intros)

lemma deduct_balance_order: "deduct_balance now p pd = (Inr q, pd') \<Longrightarrow> rp_Order q = rp_Order p"
  by (auto simp: deduct_balance_def split: prod.splits sum.splits if_splits)

lemma deduct_days_order: "deduct_days now p pd = (Inr q, pd') \<Longrightarrow> rp_Order q = rp_Order p"
  by (auto simp: deduct_days_def split: prod.splits sum.splits if_splits)

lemma ExecuteRefund_leads: "R pd0 pd \<Longrightarrow> leads R pd0 (ExecuteRefund env now p pd)"
  unfolding ExecuteRefund_def
  by (intro guarded_and_then [where oid = "po_ID (rp_Order p)"] leads_intros)
    (auto simp: loose_open refundable_def dest!: deduct_balance_order deduct_days_order intro!: leads_intros)

end

end
