(* ===== verification/PaymentFlow.thy ===== *)
theory PaymentFlow
  imports PaymentFrames
begin

text \<open>
  The life of payment orders under any sequence of operations of the payment service, with any answers of
  providers and any storage faults, while other parts of the system change users, subscriptions, redeem
  codes, plans and instances at will. Operations that are resumed with a copy of an order read earlier
  (a cancellation, the transition to paid, the execution of a refund plan) are steps of their own, for
  any copy, so that a request which overtakes another one is covered at these points.
\<close>

section \<open>Steps\<close>

inductive pay_step :: "paydb \<Rightarrow> paydb \<Rightarrow> bool" where
  step_others: "pay_step pd (pd\<lparr>pd_aff := ad, pd_instances := insts, pd_plans := plans\<rparr>)"
| step_create: "CreateOrder env tz now nos req cfg pd = (r1, pd') \<Longrightarrow> pay_step pd pd'"
| step_notify: "HandlePaymentNotification env now n pk pd = (r2, pd') \<Longrightarrow> pay_step pd pd'"
| step_paid: "toPaid env now ord no x pk pd = (r2, pd') \<Longrightarrow> pay_step pd pd'"
| step_retry: "RetryFulfillment env now oid pd = (r2, pd') \<Longrightarrow> pay_step pd pd'"
| step_cancel: "CancelOrder env now oid uid pd = (r3, pd') \<Longrightarrow> pay_step pd pd'"
| step_admin_cancel: "AdminCancelOrder env now oid pd = (r3, pd') \<Longrightarrow> pay_step pd pd'"
| step_cancel_stale: "cancelCore env now ord final u pd = (r3, pd') \<Longrightarrow> pay_step pd pd'"
| step_expire: "ExpireTimedOutOrders env now pd = (r4, pd') \<Longrightarrow> pay_step pd pd'"
| step_verify: "VerifyOrderByOutTradeNo env now no uid pd = (r5, pd') \<Longrightarrow> pay_step pd pd'"
| step_webhook: "GetWebhookProviders pick env pk no pd = (r6, pd') \<Longrightarrow> pay_step pd pd'"
| step_refresh: "RefreshProviders env pd = (r2, pd') \<Longrightarrow> pay_step pd pd'"
| step_request: "RequestRefund now oid uid reason pd = (r2, pd') \<Longrightarrow> pay_step pd pd'"
| step_prepare: "PrepareRefund env now oid amt reason force deduct pd = (r7, pd') \<Longrightarrow> pay_step pd pd'"
| step_refund: "ExecuteRefund env now p pd = (r8, pd') \<Longrightarrow> pay_step pd pd'"

text \<open>A relation that all operations keep is kept by the steps.\<close>

context guarded_frame
begin

lemmas op_leads = CreateOrder_leads HandlePaymentNotification_leads toPaid_leads RetryFulfillment_leads CancelOrder_leads
  AdminCancelOrder_leads cancelCore_leads ExpireTimedOutOrders_leads VerifyOrderByOutTradeNo_leads GetWebhookProviders_leads
  RefreshProviders_leads RequestRefund_leads PrepareRefund_leads

lemma step_leads:
  assumes "pay_step pd pd'" and "\<And>env now p r. ExecuteRefund env now p pd = (r, pd') \<Longrightarrow> R pd pd'"
    and "\<And>ad insts plans. R pd (pd\<lparr>pd_aff := ad, pd_instances := insts, pd_plans := plans\<rparr>)"
  shows "R pd pd'"
  using assms(1)
proof cases
  case (step_others ad insts plans)
  then show ?thesis using assms(3) by simp
next
  case (step_refund env now p r)
  then show ?thesis using assms(2) by simp
qed (erule leads_result, rule op_leads, rule frame_refl)+

end

section \<open>Statuses\<close>

text \<open>The statuses of orders that someone works on, or that are at their end.\<close>

definition settled :: "order_status \<Rightarrow> bool" where
  "settled s \<longleftrightarrow> s \<in> {OrderStatusRecharging, OrderStatusRefunding, OrderStatusPartiallyRefunded, OrderStatusRefunded}"

definition stat :: "int \<Rightarrow> paydb \<Rightarrow> order_status list" where
  "stat i pd = map po_Status (filter (\<lambda>d. po_ID d = i) (pd_orders pd))"

definition ids_ok :: "paydb \<Rightarrow> bool" where
  "ids_ok pd \<longleftrightarrow> distinct (map po_ID (pd_orders pd)) \<and> (\<forall>d \<in> set (pd_orders pd). po_ID d < pd_next pd)"

definition grows :: "paydb \<Rightarrow> paydb \<Rightarrow> bool" where
  "grows pd pd' \<longleftrightarrow> pd_next pd \<le> pd_next pd' \<and> (ids_ok pd \<longrightarrow> ids_ok pd')"

definition still :: "int \<Rightarrow> paydb \<Rightarrow> paydb \<Rightarrow> bool" where
  "still i pd pd' \<longleftrightarrow> grows pd pd' \<and> (ids_ok pd \<longrightarrow> (\<forall>s. stat i pd = [s] \<longrightarrow> settled s \<longrightarrow> stat i pd' = [s]))"

lemma pay_call_orders [simp]:
  "pay_call pd = (b, pd') \<Longrightarrow> pd_orders pd' = pd_orders pd" "pay_call pd = (b, pd') \<Longrightarrow> pd_next pd' = pd_next pd"
  "pay_call pd = (b, pd') \<Longrightarrow> pd_refunds pd' = pd_refunds pd"
  by (auto simp: pay_call_def split: prod.splits)

lemma map_ids: "(\<And>d. po_ID (f d) = po_ID d) \<Longrightarrow> map po_ID (map (\<lambda>d. if P d then f d else d) ds) = map po_ID ds"
  by (simp add: if_distrib cong: if_cong)

lemma ids_ok_cong: "map po_ID (pd_orders pd') = map po_ID (pd_orders pd) \<Longrightarrow> pd_next pd \<le> pd_next pd' \<Longrightarrow> ids_ok pd \<Longrightarrow> ids_ok pd'"
  unfolding ids_ok_def
  by (metis (no_types, lifting) image_iff list.set_map order_less_le_trans)

lemma stat_map:
  assumes f: "\<And>d. po_ID (f d) = po_ID d" and P: "\<And>d. d \<in> set ds \<Longrightarrow> po_ID d = i \<Longrightarrow> P d \<Longrightarrow> po_Status (f d) = po_Status d"
  shows "map po_Status (filter (\<lambda>d. po_ID d = i) (map (\<lambda>d. if P d then f d else d) ds)) = map po_Status (filter (\<lambda>d. po_ID d = i) ds)"
  using P by (induction ds) (simp_all add: f)

lemma stat_single: "stat i pd = [s] \<Longrightarrow> \<exists>z. filter (\<lambda>d. po_ID d = i) (pd_orders pd) = [z] \<and> po_Status z = s"
  by (simp add: stat_def map_eq_Cons_conv)

lemma stat_mem: "stat i pd = [s] \<Longrightarrow> d \<in> set (pd_orders pd) \<Longrightarrow> po_ID d = i \<Longrightarrow> po_Status d = s"
  by (drule stat_single) (metis (mono_tags, lifting) mem_Collect_eq set_filter list.set(1) list.set(2) singletonD)

lemma stat_id: "ids_ok pd \<Longrightarrow> stat i pd = [s] \<Longrightarrow> i < pd_next pd"
  using stat_single [of i pd s] by (auto simp: ids_ok_def dest!: filter_eq_ConsD)

lemma growsI: "map po_ID (pd_orders pd') = map po_ID (pd_orders pd) \<Longrightarrow> pd_next pd \<le> pd_next pd' \<Longrightarrow> grows pd pd'"
  using ids_ok_cong [of pd' pd] by (auto simp: grows_def)

lemma grows_update:
  fixes f :: "PaymentOrder \<Rightarrow> PaymentOrder"
  assumes "\<And>d. po_ID (f d) = po_ID d"
  shows "grows pd (pd\<lparr>pd_orders := map (\<lambda>d. if P d then f d else d) (pd_orders pd)\<rparr>)"
  by (rule growsI) (simp_all add: map_ids [OF assms] del: map_map)

lemma grows_trans: "grows a b \<Longrightarrow> grows b c \<Longrightarrow> grows a c"
  by (auto simp: grows_def)

lemma grows_same: "pd_orders pd' = pd_orders pd \<Longrightarrow> pd_next pd \<le> pd_next pd' \<Longrightarrow> grows pd pd'"
  by (rule growsI) simp_all

lemma grows_insert:
  assumes "po_ID d = pd_next pd"
  shows "grows pd (pd\<lparr>pd_orders := pd_orders pd @ [d], pd_next := pd_next pd + 1\<rparr>)"
proof -
  have "pd_next pd \<notin> po_ID ` set (pd_orders pd)" if "\<forall>d \<in> set (pd_orders pd). po_ID d < pd_next pd"
    using that by (metis imageE less_irrefl)
  moreover have "\<forall>d \<in> set (pd_orders pd). po_ID d < pd_next pd + 1" if "\<forall>d \<in> set (pd_orders pd). po_ID d < pd_next pd"
    using that by (metis less_add_one order.strict_trans)
  ultimately show ?thesis using assms by (simp add: grows_def ids_ok_def)
qed

interpretation growing: order_frame grows "\<lambda>_. True" "\<lambda>s. \<not> settled s"
proof unfold_locales
  show "grows pd pd' \<Longrightarrow> grows pd (pd\<lparr>pd_aff := ad, pd_next := pd_next pd'\<rparr>)" for pd pd' ad
    by (rule grows_same) (simp_all add: grows_def)
next
  show "grows pd (pd\<lparr>pd_orders := map (\<lambda>d. if P d then f d else d) (pd_orders pd)\<rparr>)"
    if "\<And>d. po_ID (f d) = po_ID d" for pd P and f :: "PaymentOrder \<Rightarrow> PaymentOrder"
    by (rule grows_update) (rule that)
next
  show "grows a c" if "grows a b" "grows b c" for a b c using that by (rule grows_trans)
qed (auto intro: grows_insert grows_same simp: pay_call_def split: prod.split)

lemma still_update:
  fixes f :: "PaymentOrder \<Rightarrow> PaymentOrder"
  assumes f: "\<And>d. po_ID (f d) = po_ID d"
    and P: "\<And>d. P d \<Longrightarrow> po_ID d \<noteq> i \<or> \<not> settled (po_Status d) \<or> po_Status (f d) = po_Status d"
  shows "still i pd (pd\<lparr>pd_orders := map (\<lambda>d. if P d then f d else d) (pd_orders pd)\<rparr>)"
  unfolding still_def
proof (intro conjI impI allI grows_update f)
  fix s assume s: "stat i pd = [s]" "settled s"
  have "po_Status (f d) = po_Status d" if "d \<in> set (pd_orders pd)" "po_ID d = i" "P d" for d
    using P [OF that(3)] that(2) stat_mem [OF s(1) that(1,2)] s(2) by auto
  then show "stat i (pd\<lparr>pd_orders := map (\<lambda>d. if P d then f d else d) (pd_orders pd)\<rparr>) = [s]"
    using s(1) stat_map [of f "pd_orders pd" i P, OF f] by (simp add: stat_def)
qed

lemma still_trans: "still i a b \<Longrightarrow> still i b c \<Longrightarrow> still i a c"
  unfolding still_def using grows_trans [of a b c] by (auto simp: grows_def)

lemma still_same: "pd_orders pd' = pd_orders pd \<Longrightarrow> pd_next pd \<le> pd_next pd' \<Longrightarrow> still i pd pd'"
  unfolding still_def by (auto simp: stat_def intro: grows_same)

lemma still_insert:
  assumes "po_ID d = pd_next pd"
  shows "still i pd (pd\<lparr>pd_orders := pd_orders pd @ [d], pd_next := pd_next pd + 1\<rparr>)"
  unfolding still_def
proof (intro conjI impI allI grows_insert assms)
  fix s assume "ids_ok pd" "stat i pd = [s]"
  moreover from this have "i < pd_next pd" by (rule stat_id)
  ultimately show "stat i (pd\<lparr>pd_orders := pd_orders pd @ [d], pd_next := pd_next pd + 1\<rparr>) = [s]"
    using assms by (simp add: stat_def)
qed

lemma still_release:
  assumes "pd_next pd \<le> i \<or> (\<exists>d \<in> set (pd_orders pd). po_ID d = i \<and> \<not> settled (po_Status d))" and "grows pd pd'"
  shows "still i pd pd'"
  unfolding still_def using assms stat_id [of pd i] stat_mem [of i pd] by fastforce

interpretation still: refund_frame "still i" grows "\<lambda>j. j \<noteq> i" "\<lambda>s. \<not> settled s" for i
proof unfold_locales
  show "still i pd pd' \<Longrightarrow> still i pd (pd\<lparr>pd_aff := ad, pd_next := pd_next pd'\<rparr>)" for pd pd' ad
    by (rule still_same) (simp_all add: grows_def still_def)
next
  show "still i pd (pd\<lparr>pd_orders := map (\<lambda>d. if P d then f d else d) (pd_orders pd)\<rparr>)"
    if "\<And>d. po_ID (f d) = po_ID d" "\<And>d. P d \<Longrightarrow> po_ID d \<noteq> i \<or> \<not> settled (po_Status d) \<or> po_Status (f d) = po_Status d"
    for pd P and f :: "PaymentOrder \<Rightarrow> PaymentOrder"
    by (rule still_update) (use that in blast)+
next
  show "still i a c" if "still i a b" "still i b c" for a b c using that by (rule still_trans)
next
  show "still i pd pd'"
    if "\<not> oid \<noteq> i" "pd_next pd \<le> oid \<or> (\<exists>d \<in> set (pd_orders pd). po_ID d = oid \<and> \<not> settled (po_Status d))" "grows pd pd'" for pd pd' oid
    using that by (intro still_release) auto
qed (auto intro: still_insert still_same grows_same simp: pay_call_def settled_def split: prod.split)

lemma step_still: "pay_step pd pd' \<Longrightarrow> still i pd pd'"
  by (rule still.step_leads) (auto intro: leads_result [OF _ still.ExecuteRefund_leads] still_same still.frame_refl)

section \<open>Paying back once\<close>

definition same_refunds :: "paydb \<Rightarrow> paydb \<Rightarrow> bool" where
  "same_refunds pd pd' \<longleftrightarrow> pd_refunds pd' = pd_refunds pd"

interpretation paid: guarded_frame same_refunds same_refunds "\<lambda>_. True" "\<lambda>_. True"
  by unfold_locales (auto simp: same_refunds_def pay_call_def split: prod.split)

definition refund_status :: "order_status \<Rightarrow> bool" where
  "refund_status s \<longleftrightarrow> s \<in> {OrderStatusRefunding, OrderStatusPartiallyRefunded, OrderStatusRefunded}"

lemma refund_status_settled: "refund_status s \<Longrightarrow> settled s" "\<not> (refundable s \<and> refund_status s)"
  by (auto simp: refund_status_def settled_def refundable_def)

lemma gwRefund_refunds:
  assumes "gwRefund env now p pd = (r, pd')"
  shows "pd_refunds pd' = pd_refunds pd \<or>
    pd_refunds pd' = pd_refunds pd @ [(po_ID (rp_Order p), round_decimal (rp_GatewayAmount p) 2, r = Inr ())]"
proof -
  obtain x s where x: "getRefundProvider env (rp_Order p) pd = (x, s)" by fastforce
  have "same_refunds pd s" by (rule leads_result [OF x paid.getRefundProvider_leads [OF paid.frame_refl]])
  moreover have "same_refunds t (writeAuditLog now i a u t)" for i a u t by (rule paid.writeAuditLog_leads [OF paid.frame_refl])
  ultimately show ?thesis using assms
    by (cases x) (auto simp: gwRefund_def Let_def x same_refunds_def split: if_splits refund_outcome.splits)
qed

text \<open>An update by identifier sets the status of the order.\<close>

lemma stat_update:
  assumes "order_update now P f pd = (Inr h, pd')" and "\<And>d. po_ID (f d) = po_ID d"
  shows "stat i pd' = map (\<lambda>d. if P d then po_Status (f d) else po_Status d) (filter (\<lambda>d. po_ID d = i) (pd_orders pd))"
  using assms by (auto simp: order_update_def stat_def filter_map comp_def if_distrib split: prod.splits if_splits cong: if_cong)

lemma distinct_map_filter_single:
  "distinct (map f xs) \<Longrightarrow> x \<in> set xs \<Longrightarrow> filter (\<lambda>y. f y = f x) xs = [x]"
  by (induction xs) (auto simp: filter_empty_conv image_iff)

lemma lock_refunding:
  assumes lock: "order_update now (\<lambda>d. po_ID d = i \<and> refundable (po_Status d)) (\<lambda>d. d\<lparr>po_Status := OrderStatusRefunding\<rparr>) pd = (Inr True, pd')"
    and ids: "ids_ok pd"
  shows "(\<exists>s. stat i pd = [s] \<and> refundable s) \<and> stat i pd' = [OrderStatusRefunding]"
proof -
  obtain d where d: "d \<in> set (pd_orders pd)" "po_ID d = i" "refundable (po_Status d)"
    using lock by (auto simp: order_update_def list_ex_iff split: prod.splits if_splits)
  have "filter (\<lambda>e. po_ID e = i) (pd_orders pd) = [d]"
    using ids d(1,2) unfolding ids_ok_def
    using distinct_map_filter_single [of po_ID "pd_orders pd" d] by simp
  then show ?thesis using d stat_update [OF lock, of i] by (simp add: stat_def)
qed

lemma markRefundOk_stat:
  assumes "markRefundOk now p pd = (r, pd')" and "stat (po_ID (rp_Order p)) pd = [OrderStatusRefunding]"
  shows "same_refunds pd pd' \<and> (\<exists>s. stat (po_ID (rp_Order p)) pd' = [s] \<and> refund_status s)"
proof -
  have same: "same_refunds pd pd'" by (rule leads_result [OF assms(1) paid.markRefundOk_leads]) (simp_all add: paid.frame_refl)
  have log: "stat i (writeAuditLog now j a u t) = stat i t" for i j a u t
    by (auto simp: writeAuditLog_def stat_def Let_def split: prod.split)
  obtain z where z: "filter (\<lambda>d. po_ID d = po_ID (rp_Order p)) (pd_orders pd) = [z]" "po_Status z = OrderStatusRefunding"
    using stat_single [OF assms(2)] by blast
  obtain x s where u: "order_update now (\<lambda>d. po_ID d = po_ID (rp_Order p)) (\<lambda>d. d\<lparr>po_Status :=
      (if rp_RefundAmount p < po_Amount (rp_Order p) then OrderStatusPartiallyRefunded else OrderStatusRefunded),
      po_RefundAmount := round_decimal (rp_RefundAmount p) 2, po_RefundReason := Some (rp_Reason p),
      po_RefundAt := Some now, po_ForceRefund := rp_Force p\<rparr>) pd = (x, s)" by fastforce
  have "\<exists>t. stat (po_ID (rp_Order p)) s = [t] \<and> refund_status t"
  proof (cases x)
    case (Inl e)
    then have "pd_orders s = pd_orders pd" using u by (auto simp: order_update_def split: prod.splits if_splits)
    then show ?thesis using assms(2) by (simp add: stat_def refund_status_def)
  next
    case (Inr h)
    then show ?thesis using stat_update [of now _ _ pd h s "po_ID (rp_Order p)"] u z by (simp add: refund_status_def)
  qed
  then show ?thesis using same assms(1) u log
    by (cases x) (auto simp: markRefundOk_def Let_def refund_status_def split: if_splits)
qed

lemma refund_after_lock:
  assumes e: "and_then (deduct_balance now p s0) (\<lambda>p pd. and_then (deduct_days now p pd) (\<lambda>p pd.
      case gwRefund env now p pd of
        (Inl e, pd) \<Rightarrow> if e = PayPanic then (Inl PayPanic, pd) else handleGwFail now p pd
      | (Inr _, pd) \<Rightarrow> markRefundOk now p pd)) = (r, pd')"
    and ids: "ids_ok s0" and st: "stat (po_ID (rp_Order p)) s0 = [OrderStatusRefunding]"
  shows "same_refunds s0 pd' \<or> (\<exists>a c. pd_refunds pd' = pd_refunds s0 @ [(po_ID (rp_Order p), a, c)] \<and>
    (c \<longrightarrow> (\<exists>t. stat (po_ID (rp_Order p)) pd' = [t] \<and> refund_status t)))"
proof -
  let ?i = "po_ID (rp_Order p)"
  obtain q1 s1 where d1: "deduct_balance now p s0 = (q1, s1)" by fastforce
  obtain q2 s2 where d2: "deduct_days now (projr q1) s1 = (q2, s2)" by fastforce
  obtain q3 s3 where g: "gwRefund env now (projr q2) s2 = (q3, s3)" by fastforce
  have r1: "same_refunds s0 s1" by (rule leads_result [OF d1 paid.deduct_balance_leads [OF paid.frame_refl]]) simp
  have r2: "same_refunds s0 s2" by (rule leads_result [OF d2 paid.deduct_days_leads [OF r1]]) simp
  show ?thesis
  proof (cases "q1 \<noteq> Inr (projr q1) \<or> q2 \<noteq> Inr (projr q2)")
    case True
    then show ?thesis using e r1 r2 d1 d2 by (cases q1; cases q2) auto
  next
    case 2: False
    have q: "rp_Order (projr q1) = rp_Order p" "rp_Order (projr q2) = rp_Order p"
      using 2 d1 d2 still.deduct_balance_order still.deduct_days_order by metis+
    have e3: "(case q3 of Inl e \<Rightarrow> if e = PayPanic then (Inl PayPanic, s3) else handleGwFail now (projr q2) s3
        | Inr _ \<Rightarrow> markRefundOk now (projr q2) s3) = (r, pd')"
      using e d1 d2 g 2 by (cases q1; cases q2; cases q3) auto
    show ?thesis
    proof (cases "q3 = Inr ()")
      case True
      have "still ?i s0 s1" "still ?i s1 s2" "still ?i s2 s3"
        using 2 d1 d2 g still.deduct_balance_ok still.deduct_days_ok still.frame_refl
          leads_result [OF g still.gwRefund_leads] by metis+
      then have "still ?i s0 s3" using still_trans by blast
      then have "stat ?i s3 = [OrderStatusRefunding]" using st ids by (simp add: still_def settled_def)
      then show ?thesis using e3 True gwRefund_refunds [OF g] markRefundOk_stat [of now "projr q2" s3 r pd'] r2 q
        by (auto simp: same_refunds_def)
    next
      case False
      have "same_refunds s3 (snd (handleGwFail now (projr q2) s3))"
        using paid.handleGwFail_leads [OF paid.frame_refl, where p = "projr q2" and now = now] by (simp add: leads_def)
      then have "pd_refunds pd' = pd_refunds s3" using e3 False by (cases q3) (auto simp: same_refunds_def split: if_splits)
      then show ?thesis using r2 gwRefund_refunds [OF g] False q by (auto simp: same_refunds_def)
    qed
  qed
qed

lemma ExecuteRefund_refunds:
  assumes e: "ExecuteRefund env now p pd = (r, pd')" and ids: "ids_ok pd"
  shows "same_refunds pd pd' \<or> (\<exists>s a c. pd_refunds pd' = pd_refunds pd @ [(po_ID (rp_Order p), a, c)] \<and>
    stat (po_ID (rp_Order p)) pd = [s] \<and> refundable s \<and> (c \<longrightarrow> (\<exists>t. stat (po_ID (rp_Order p)) pd' = [t] \<and> refund_status t)))"
proof -
  let ?P = "\<lambda>d. po_ID d = po_ID (rp_Order p) \<and> refundable (po_Status d)" and ?f = "\<lambda>d. d\<lparr>po_Status := OrderStatusRefunding\<rparr>"
  obtain h s0 where u: "order_update now ?P ?f pd = (h, s0)" by fastforce
  have r0: "same_refunds pd s0" by (rule leads_result [OF u paid.order_update_leads [OF paid.frame_refl]]) simp_all
  show ?thesis
  proof (cases "h = Inr True")
    case False
    then show ?thesis using e u r0 by (cases h) (auto simp: ExecuteRefund_def split: bool.splits)
  next
    case True
    have "ids_ok s0" using leads_result [OF u growing.order_update_leads [OF growing.frame_refl]] ids by (simp add: grows_def)
    then show ?thesis
      using refund_after_lock [of now p s0 env r pd'] lock_refunding [OF u [unfolded True] ids] e u True r0
      by (auto simp: ExecuteRefund_def same_refunds_def)
  qed
qed

section \<open>Properties\<close>

text \<open>The states that are reached from consistent ones, with the payments of providers since then.\<close>

definition pay_reach :: "paydb \<Rightarrow> bool" where
  "pay_reach pd \<longleftrightarrow> (\<exists>pd0. ids_ok pd0 \<and> pd_refunds pd0 = [] \<and> pay_step\<^sup>*\<^sup>* pd0 pd)"

definition refunds_ok :: "paydb \<Rightarrow> bool" where
  "refunds_ok pd \<longleftrightarrow> ids_ok pd \<and> sorted_wrt (\<lambda>(i, _, c) (j, _). i = j \<longrightarrow> \<not> c) (pd_refunds pd) \<and>
     list_all (\<lambda>(i, _, c). c \<longrightarrow> (\<exists>s. stat i pd = [s] \<and> refund_status s)) (pd_refunds pd)"

lemma step_refunds:
  assumes step: "pay_step pd pd'" and inv: "refunds_ok pd"
  shows "refunds_ok pd'"
proof -
  have ids: "ids_ok pd" "ids_ok pd'" using inv step_still [OF step] by (auto simp: refunds_ok_def still_def grows_def)
  have old: "\<exists>s. stat i pd' = [s] \<and> refund_status s" if m: "(i, a, True) \<in> set (pd_refunds pd)" for i a
  proof -
    obtain s where s: "stat i pd = [s]" "refund_status s" using m inv by (fastforce simp: refunds_ok_def list_all_iff)
    then have "stat i pd' = [s]" using step_still [OF step, of i] ids(1) refund_status_settled(1) by (simp add: still_def)
    with s show ?thesis by simp
  qed
  have "same_refunds pd pd' \<or> (\<exists>i s a c. pd_refunds pd' = pd_refunds pd @ [(i, a, c)] \<and>
      stat i pd = [s] \<and> refundable s \<and> (c \<longrightarrow> (\<exists>t. stat i pd' = [t] \<and> refund_status t)))"
  proof (cases "\<exists>env now p r. ExecuteRefund env now p pd = (r, pd')")
    case True
    then show ?thesis using ExecuteRefund_refunds [OF _ ids(1)] by blast
  next
    case False
    have "same_refunds pd pd'"
    proof (rule paid.step_leads [OF step])
      show "same_refunds pd pd'" if "ExecuteRefund env now p pd = (r, pd')" for env now p r using that False by blast
    qed (simp add: same_refunds_def)
    then show ?thesis by blast
  qed
  then show ?thesis
  proof (elim disjE exE conjE)
    assume "same_refunds pd pd'"
    then show ?thesis using ids old inv by (fastforce simp: refunds_ok_def same_refunds_def list_all_iff)
  next
    fix i s a c
    assume n: "pd_refunds pd' = pd_refunds pd @ [(i, a, c)]" "stat i pd = [s]" "refundable s"
      "c \<longrightarrow> (\<exists>t. stat i pd' = [t] \<and> refund_status t)"
    have "(i, b, True) \<notin> set (pd_refunds pd)" for b
      using inv n(2,3) refund_status_settled(2) [of s] by (fastforce simp: refunds_ok_def list_all_iff)
    then show ?thesis using n ids old inv by (fastforce simp: refunds_ok_def list_all_iff sorted_wrt_append)
  qed
qed

lemma reach_refunds: "pay_reach pd \<Longrightarrow> refunds_ok pd"
proof -
  assume "pay_reach pd"
  then obtain pd0 where "ids_ok pd0" "pd_refunds pd0 = []" and r: "pay_step\<^sup>*\<^sup>* pd0 pd" by (auto simp: pay_reach_def)
  then have "refunds_ok pd0" by (simp add: refunds_ok_def)
  with r show ?thesis by (induction rule: rtranclp_induct) (auto intro: step_refunds)
qed

text \<open>C22. An order that is being fulfilled or refunded, or that has been refunded, keeps its status under
  every other operation, with every answer of providers and every fault of the storage: only the operation
  that took it can finish it. (So an order whose last update failed stays where it is.)\<close>

theorem settled_orders_stay:
  assumes "pay_step\<^sup>*\<^sup>* pd pd'" and "ids_ok pd" and "stat i pd = [s]"
    and "s \<in> {OrderStatusRecharging, OrderStatusRefunding, OrderStatusPartiallyRefunded, OrderStatusRefunded}"
  shows "stat i pd' = [s]"
proof -
  from assms(1) have "still i pd pd'"
    by (induction rule: rtranclp_induct) (auto intro: still.frame_refl still_trans step_still)
  then show ?thesis using assms(2-) by (auto simp: still_def settled_def)
qed

text \<open>A completed order of 10 at an instance with refunds, and a plan that pays it back.\<close>

definition demo_provider :: provider where
  "demo_provider = \<lparr>pv_ProviderKey = TypeStripe, pv_SupportedTypes = [TypeStripe], pv_CreatePayment = (\<lambda>_ _. Some ''trade''),
     pv_QueryOrder = (\<lambda>_ _. None), pv_Refund = (\<lambda>_ _ _. RefundConfirmed), pv_Identity = None\<rparr>"

definition demo_pay_env :: pay_env where
  "demo_pay_env = \<lparr>pe_codec = \<lparr>cd_json = (\<lambda>_. Some (Some Map.empty)), cd_decrypt = (\<lambda>_. None), cd_limits = (\<lambda>_. None)\<rparr>,
     pe_CreateProvider = (\<lambda>_ _ _. Some demo_provider), pe_affiliate = False, pe_settings = None, pe_codes = (\<lambda>_. ''''),
     pe_sub_ttl = 0, pe_source = (\<lambda>_. None)\<rparr>"

definition demo_order :: "order_status \<Rightarrow> PaymentOrder" where
  "demo_order s = \<lparr>po_ID = 1, po_UserID = 1, po_Amount = 10, po_PayAmount = 10, po_RechargeCode = ''PAY-1-0'', po_OutTradeNo = ''no'',
     po_PaymentType = TypeStripe, po_PaymentTradeNo = ''trade'', po_OrderType = OrderTypeBalance, po_SubscriptionGroupID = None,
     po_SubscriptionDays = None, po_ProviderInstanceID = Some ''1'', po_ProviderKey = Some TypeStripe, po_ProviderSnapshot = Map.empty,
     po_Status = s, po_RefundAmount = 0, po_RefundReason = None, po_RefundRequestReason = None, po_ForceRefund = False,
     po_ExpiresAt = 10, po_PaidAt = Some 0, po_CompletedAt = None, po_FailedAt = None, po_RefundAt = None,
     po_RefundRequestedAt = None, po_CreatedAt = 0, po_UpdatedAt = 0\<rparr>"

definition demo_pay :: "order_status \<Rightarrow> paydb" where
  "demo_pay s = \<lparr>pd_aff = demo_aff, pd_orders = [demo_order s], pd_audits = [],
     pd_instances = [\<lparr>pi_ID = 1, pi_ProviderKey = TypeStripe, pi_Config = ''c'', pi_SupportedTypes = TypeStripe, pi_Enabled = True,
       pi_PaymentMode = '''', pi_SortOrder = 0, pi_Limits = '''', pi_RefundEnabled = True, pi_AllowUserRefund = True\<rparr>],
     pd_plans = [], pd_next = 2, pd_registry = Map.empty, pd_loaded = False, pd_counter = 0, pd_refunds = []\<rparr>"

definition demo_plan :: RefundPlan where
  "demo_plan = \<lparr>rp_Order = demo_order OrderStatusCompleted, rp_RefundAmount = 10, rp_GatewayAmount = 10, rp_Reason = '''',
     rp_Force = False, rp_DeductionType = DeductionTypeNone, rp_BalanceToDeduct = 0, rp_SubDaysToDeduct = 0, rp_SubscriptionID = 0\<rparr>"

text \<open>The plan is executed while the answer of the provider is lost, and then again.\<close>

definition lossy_pay_env :: pay_env where
  "lossy_pay_env = demo_pay_env\<lparr>pe_CreateProvider := (\<lambda>_ _ _. Some (demo_provider\<lparr>pv_Refund := \<lambda>_ _ _. RefundUnconfirmed\<rparr>))\<rparr>"

definition demo_paid_twice :: paydb where
  "demo_paid_twice = snd (ExecuteRefund demo_pay_env 0 demo_plan (snd (ExecuteRefund lossy_pay_env 0 demo_plan (demo_pay OrderStatusCompleted))))"

lemma demo_pay_ids: "ids_ok (demo_pay s)"
  by (simp add: ids_ok_def demo_pay_def demo_order_def)

lemma demo_refunds_reached: "pay_reach (snd (ExecuteRefund env now p (snd (ExecuteRefund env' now' p' (demo_pay s)))))"
proof -
  have "pay_step\<^sup>*\<^sup>* (demo_pay s) (snd (ExecuteRefund env now p (snd (ExecuteRefund env' now' p' (demo_pay s)))))"
    by (rule converse_rtranclp_into_rtranclp, rule step_refund, rule surjective_pairing, rule r_into_rtranclp, rule step_refund, rule surjective_pairing)
  then show ?thesis unfolding pay_reach_def using demo_pay_ids [of s] by (auto simp: demo_pay_def)
qed

text \<open>C23. Whatever operations run, and however requests for a refund of one order overtake each other: once a provider
  has confirmed a refund of an order, no provider pays back for that order again, and the order is being refunded or has
  been refunded. Only a payment whose answer was lost can be repeated, and it is: a state is reached in which
  the provider has paid back 10 twice for one order of 10, as the order goes back to completed after the error.\<close>

theorem refunds_repeat_unconfirmed_only:
  "(\<forall>pd. pay_reach pd \<longrightarrow> sorted_wrt (\<lambda>(i, _, confirmed) (j, _). i = j \<longrightarrow> \<not> confirmed) (pd_refunds pd) \<and>
      list_all (\<lambda>(i, _, confirmed). confirmed \<longrightarrow> stat i pd \<in> {[OrderStatusRefunding], [OrderStatusPartiallyRefunded], [OrderStatusRefunded]})
        (pd_refunds pd)) \<and>
   (\<exists>pd. pay_reach pd \<and> pd_refunds pd = [(1, 10, False), (1, 10, True)] \<and> map po_PayAmount (pd_orders pd) = [10])"
proof (intro conjI allI impI)
  fix pd assume "pay_reach pd"
  from reach_refunds [OF this] show "sorted_wrt (\<lambda>(i, _, confirmed) (j, _). i = j \<longrightarrow> \<not> confirmed) (pd_refunds pd)"
    and "list_all (\<lambda>(i, _, confirmed). confirmed \<longrightarrow> stat i pd \<in> {[OrderStatusRefunding], [OrderStatusPartiallyRefunded], [OrderStatusRefunded]})
        (pd_refunds pd)"
    by (fastforce simp: refunds_ok_def refund_status_def list_all_iff)+
next
  have "pay_reach demo_paid_twice" unfolding demo_paid_twice_def by (rule demo_refunds_reached)
  moreover have "pd_refunds demo_paid_twice = [(1, 10, False), (1, 10, True)] \<and> map po_PayAmount (pd_orders demo_paid_twice) = [10]" by code_simp
  ultimately show "\<exists>pd. pay_reach pd \<and> pd_refunds pd = [(1, 10, False), (1, 10, True)] \<and> map po_PayAmount (pd_orders pd) = [10]"
    by (intro exI [of _ demo_paid_twice] conjI) simp_all
qed

text \<open>The plan is executed twice, and the provider confirms at once.\<close>

definition demo_refunded :: paydb where
  "demo_refunded = snd (ExecuteRefund demo_pay_env 0 demo_plan (snd (ExecuteRefund demo_pay_env 0 demo_plan (demo_pay OrderStatusCompleted))))"

lemma refunds_repeat_unconfirmed_only_witness: "pd_refunds demo_refunded = [(1, 10, True)] \<and> stat 1 demo_refunded = [OrderStatusRefunded]"
proof -
  have r: "pd_refunds demo_refunded = [(1, 10, True)]" by code_simp
  have s: "stat 1 demo_refunded \<notin> {[OrderStatusRefunding], [OrderStatusPartiallyRefunded]}" by code_simp
  have "pay_reach demo_refunded" unfolding demo_refunded_def by (rule demo_refunds_reached)
  then show ?thesis using refunds_repeat_unconfirmed_only r s by (auto simp: list_all_iff)
qed

lemma settled_orders_stay_witness:
  "stat 1 (snd (RetryFulfillment demo_pay_env 5 1 (demo_pay OrderStatusRecharging))) = [OrderStatusRecharging]"
proof (rule settled_orders_stay)
  show "pay_step\<^sup>*\<^sup>* (demo_pay OrderStatusRecharging) (snd (RetryFulfillment demo_pay_env 5 1 (demo_pay OrderStatusRecharging)))"
    by (rule r_into_rtranclp, rule step_retry, rule surjective_pairing)
  show "ids_ok (demo_pay OrderStatusRecharging)" by (rule demo_pay_ids)
qed (simp_all add: stat_def demo_pay_def demo_order_def)

end
