(* ===== verification/PaymentCredit.thy ===== *)
theory PaymentCredit
  imports PaymentFlow
begin

text \<open>
  The credit of a paid order: over any number of attempts to fulfil it, with any storage faults, its user
  is credited once, and the order is completed only if that has happened. The theory follows the accounts
  of users and the redeem codes (the wallet) through the operations on one order.
\<close>

section \<open>The rebate leaves the wallet alone\<close>

definition same_goods :: "affdb \<Rightarrow> affdb \<Rightarrow> bool" where
  "same_goods ad ad' \<longleftrightarrow> sh_users (ad_shop ad') = sh_users (ad_shop ad) \<and> sh_codes (ad_shop ad') = sh_codes (ad_shop ad) \<and>
     sh_next (ad_shop ad') = sh_next (ad_shop ad)"

interpretation goods: state_frame same_goods
  by unfold_locales (auto simp: same_goods_def)

lemma aff_call_goods [leads_intros]: "same_goods a0 ad \<Longrightarrow> leads same_goods a0 (aff_call ad)"
  using shop_call_snd [of "ad_shop ad"]
  by (auto simp: aff_call_def leads_def same_goods_def same_shop_def split: prod.split)

lemma rows_goods [leads_intros]: "same_goods a0 ad \<Longrightarrow> same_goods a0 (ad\<lparr>ad_rows := rows\<rparr>)"
  by (simp add: same_goods_def)

lemma ledger_goods [leads_intros]: "same_goods a0 ad \<Longrightarrow> same_goods a0 (ad\<lparr>ad_ledger := l\<rparr>)"
  by (simp add: same_goods_def)

lemma query_aff_goods [leads_intros]: "same_goods a0 ad \<Longrightarrow> leads same_goods a0 (query_aff P ad)"
  unfolding query_aff_def Let_def by (intro leads_intros)

lemma insert_affiliate_goods [leads_intros]: "same_goods a0 ad \<Longrightarrow> leads same_goods a0 (insert_affiliate uid code now ad)"
  unfolding insert_affiliate_def Let_def by (intro leads_intros)

lemma insert_attempts_goods [leads_intros]:
  "same_goods a0 ad \<Longrightarrow> leads same_goods a0 (insert_attempts in_tx gen uid now n ad)"
proof (induction n arbitrary: ad)
  case 0
  then show ?case by (simp add: leads_def)
next
  case (Suc n)
  show ?case unfolding insert_attempts.simps by (intro leads_intros Suc)
qed

lemma ensureUserAffiliate_goods [leads_intros]:
  "same_goods a0 ad \<Longrightarrow> leads same_goods a0 (ensureUserAffiliate in_tx gen now uid ad)"
  unfolding ensureUserAffiliate_def queryAffiliateByUserID_def by (intro leads_intros)

lemma aff_update_goods [leads_intros]: "same_goods a0 ad \<Longrightarrow> leads same_goods a0 (aff_update uid f ad)"
  unfolding aff_update_def Let_def by (intro leads_intros)

lemma ledger_insert_goods [leads_intros]: "same_goods a0 ad \<Longrightarrow> leads same_goods a0 (ledger_insert e ad)"
  unfolding ledger_insert_def Let_def by (intro leads_intros)

lemma AccrueQuota_goods [leads_intros]: "same_goods a0 ad \<Longrightarrow> leads same_goods a0 (AccrueQuota now i j a h ad)"
  unfolding AccrueQuota_def by (intro leads_intros)

lemma capped_rebate_goods [leads_intros]: "same_goods a0 ad \<Longrightarrow> leads same_goods a0 (capped_rebate st i j r ad)"
  unfolding capped_rebate_def GetAccruedRebateFromInvitee_def Let_def by (intro leads_intros)

lemma AccrueInviteRebate_goods: "same_goods a0 ad \<Longrightarrow> leads same_goods a0 (AccrueInviteRebate st gen now i b ad)"
  unfolding AccrueInviteRebate_def Let_def
  by (cases b; simp only: float64.case; intro leads_intros)

section \<open>Quiet operations\<close>

text \<open>The orders and the wallet stay as they are.\<close>

definition quiet :: "paydb \<Rightarrow> paydb \<Rightarrow> bool" where
  "quiet pd pd' \<longleftrightarrow> pd_orders pd' = pd_orders pd \<and> pd_next pd \<le> pd_next pd' \<and> same_goods (pd_aff pd) (pd_aff pd')"

lemma pay_call_quiet: "quiet pd (snd (pay_call pd))"
  using aff_call_goods [OF goods.frame_refl, of "pd_aff pd"] by (auto simp: pay_call_def quiet_def leads_def split: prod.split)

lemma quiet_trans: "quiet a b \<Longrightarrow> quiet b c \<Longrightarrow> quiet a c"
  unfolding quiet_def using goods.frame_trans by auto

interpretation quiet: pay_frame quiet
proof unfold_locales
  show "quiet pd (snd (pay_call pd))" for pd by (rule pay_call_quiet)
  show "quiet a c" if "quiet a b" "quiet b c" for a b c using that by (rule quiet_trans)
qed (simp_all add: quiet_def goods.frame_refl)

lemma on_aff_quiet [leads_intros]:
  assumes "quiet pd0 pd" and "leads same_goods (pd_aff pd) (c (pd_aff pd))"
  shows "leads quiet pd0 (on_aff c pd)"
  using assms by (auto simp: on_aff_def leads_def quiet_def split: prod.splits sum.splits dest: goods.frame_trans)

lemma on_subs_quiet [leads_intros]: "quiet pd0 pd \<Longrightarrow> leads quiet pd0 (on_subs c pd)"
  by (auto simp: on_subs_def leads_def quiet_def same_goods_def Let_def split: prod.splits sum.splits)

lemma pay_tx_quiet: "quiet pd0 pd \<Longrightarrow> (\<And>s. leads quiet s (body s)) \<Longrightarrow> leads quiet pd0 (pay_tx body pd)"
  unfolding pay_tx_def
proof (rule quiet.run_tx_leads)
  show "leads quiet s (pay_call s)" for s by (simp add: leads_def pay_call_quiet)
qed (auto simp: quiet_def same_goods_def faults_from_def)

lemma applyAffiliateRebateForOrder_quiet [leads_intros]:
  "quiet pd0 pd \<Longrightarrow> leads quiet pd0 (applyAffiliateRebateForOrder env now ord pd)"
  unfolding applyAffiliateRebateForOrder_def rebate_body_def
  by (intro leads_intros pay_tx_quiet AccrueInviteRebate_goods quiet.frame_refl goods.frame_refl)

section \<open>The deal\<close>

text \<open>The code of an order is used: its user was credited.\<close>

definition pay_shop :: "paydb \<Rightarrow> shop" where
  "pay_shop pd = ad_shop (pd_aff pd)"

definition credited :: "PaymentOrder \<Rightarrow> paydb \<Rightarrow> bool" where
  "credited d pd = list_ex (\<lambda>c. rc_Code c = po_RechargeCode d \<and> rc_Status c = StatusUsed) (sh_codes (pay_shop pd))"

definition same_terms :: "PaymentOrder \<Rightarrow> PaymentOrder \<Rightarrow> bool" where
  "same_terms d e \<longleftrightarrow> po_ID e = po_ID d \<and> po_UserID e = po_UserID d \<and> po_Amount e = po_Amount d \<and>
     po_RechargeCode e = po_RechargeCode d \<and> po_OrderType e = po_OrderType d"

definition own_code :: "PaymentOrder \<Rightarrow> RedeemCode \<Rightarrow> bool" where
  "own_code d c \<longleftrightarrow> (rc_Code c = po_RechargeCode d \<longrightarrow>
     rc_Type c = RedeemTypeBalance \<and> rc_Value c = Fin (po_Amount d) \<and> rc_Status c \<in> {StatusUnused, StatusUsed})"

definition balance_order :: "PaymentOrder \<Rightarrow> bool" where
  "balance_order d \<longleftrightarrow> po_OrderType d \<noteq> OrderTypeSubscription \<and> 0 < po_Amount d \<and> po_RechargeCode d \<noteq> '''' \<and>
     TrimSpace (po_RechargeCode d) = po_RechargeCode d"

text \<open>The order is stored with its terms, its code is its own, and it is only completed when credited.\<close>

definition order_ok :: "PaymentOrder \<Rightarrow> paydb \<Rightarrow> bool" where
  "order_ok d pd \<longleftrightarrow> balance_order d \<and> ids_ok pd \<and> codes_inv (pay_shop pd) \<and> (\<forall>c \<in> set (sh_codes (pay_shop pd)). own_code d c) \<and>
     (\<exists>e \<in> set (pd_orders pd). same_terms d e \<and> (po_Status e = OrderStatusCompleted \<longrightarrow> credited d pd))"

definition credit :: "PaymentOrder \<Rightarrow> paydb \<Rightarrow> paydb \<Rightarrow> bool" where
  "credit d pd pd' \<longleftrightarrow>
     sh_users (pay_shop pd') = sh_users (pay_shop pd) \<and> credited d pd' = credited d pd \<or>
     \<not> credited d pd \<and> credited d pd' \<and> (\<exists>u. sh_users (pay_shop pd) (po_UserID d) = Some u \<and>
       sh_users (pay_shop pd') = (sh_users (pay_shop pd))(po_UserID d \<mapsto> add_balance (Fin (po_Amount d)) u))"

definition deal :: "PaymentOrder \<Rightarrow> paydb \<Rightarrow> paydb \<Rightarrow> bool" where
  "deal d pd pd' \<longleftrightarrow> (order_ok d pd \<longrightarrow> order_ok d pd' \<and> credit d pd pd')"

lemma deal_trans: "deal d a b \<Longrightarrow> deal d b c \<Longrightarrow> deal d a c"
  unfolding deal_def credit_def by auto

lemma quiet_wallet: "quiet pd pd' \<Longrightarrow> sh_users (pay_shop pd') = sh_users (pay_shop pd) \<and>
    sh_codes (pay_shop pd') = sh_codes (pay_shop pd) \<and> sh_next (pay_shop pd') = sh_next (pay_shop pd)"
  by (simp add: quiet_def same_goods_def pay_shop_def)

lemma quiet_deal: "quiet pd pd' \<Longrightarrow> deal d pd pd'"
  using quiet_wallet [of pd pd'] growsI [of pd' pd]
  by (auto simp: deal_def order_ok_def credit_def credited_def codes_inv_def quiet_def grows_def)

interpretation deal: pay_frame "deal d" for d
proof unfold_locales
  show "deal d a c" if "deal d a b" "deal d b c" for a b c using that by (rule deal_trans)
qed (auto intro: quiet_deal quiet.frame_refl quiet.call quiet.audits quiet.registry quiet.loaded)

lemma quiet_deal_leads: "leads quiet pd x \<Longrightarrow> deal d pd0 pd \<Longrightarrow> leads (deal d) pd0 x"
  by (auto simp: leads_def intro: deal_trans quiet_deal)

text \<open>An update that keeps the terms, and completes an order only when it is credited.\<close>

lemma order_update_deal:
  assumes r: "deal d pd0 pd" and f: "\<And>e. same_terms e (f e)"
    and c: "\<And>e. P e \<Longrightarrow> po_Status (f e) = OrderStatusCompleted \<Longrightarrow> po_Status e = OrderStatusCompleted \<or> credited d pd"
  shows "leads (deal d) pd0 (order_update now P f pd)"
proof -
  obtain b s where s: "pay_call pd = (b, s)" by fastforce
  have q: "quiet pd s" by (rule leads_result [OF s]) (simp add: leads_def pay_call_quiet)
  define g where "g = (\<lambda>e. (f e)\<lparr>po_UpdatedAt := now\<rparr>)"
  define t where "t = s\<lparr>pd_orders := map (\<lambda>e. if P e then g e else e) (pd_orders s)\<rparr>"
  have g: "same_terms e (g e)" "po_Status (g e) = po_Status (f e)" for e
    using f [of e] by (simp_all add: g_def same_terms_def)
  have "deal d s t"
    unfolding deal_def
  proof
    assume ok: "order_ok d s"
    then obtain e where e: "e \<in> set (pd_orders s)" "same_terms d e" "po_Status e = OrderStatusCompleted \<longrightarrow> credited d s"
      by (auto simp: order_ok_def)
    have cr: "credited d t = credited d s" "credited d pd = credited d s"
      using quiet_wallet [OF q] by (simp_all add: t_def credited_def pay_shop_def)
    have "grows s t" unfolding t_def by (rule grows_update) (use g(1) in \<open>simp add: same_terms_def\<close>)
    moreover have "(if P e then g e else e) \<in> set (pd_orders t)" using e(1) by (auto simp: t_def)
    moreover have "same_terms d (if P e then g e else e)" using e(2) g(1) [of e] by (auto simp: same_terms_def)
    moreover have "po_Status (if P e then g e else e) = OrderStatusCompleted \<longrightarrow> credited d t"
      using c [of e] e(3) cr g(2) by auto
    ultimately show "order_ok d t \<and> credit d s t"
      using ok cr by (auto simp: order_ok_def grows_def credit_def t_def pay_shop_def)
  qed
  then have "deal d pd0 t" "deal d pd0 s" using r q deal_trans quiet_deal by blast+
  then show ?thesis unfolding t_def g_def by (simp add: order_update_def leads_def s)
qed

section \<open>Crediting\<close>

lemma deal_shop:
  assumes "pd_orders pd' = pd_orders pd" and "pd_next pd' = pd_next pd"
    and "order_ok d pd \<Longrightarrow> codes_inv (pay_shop pd') \<and> (\<forall>c \<in> set (sh_codes (pay_shop pd')). own_code d c) \<and> credit d pd pd'"
  shows "deal d pd pd'"
  unfolding deal_def
proof
  assume ok: "order_ok d pd"
  with assms(3) have "credited d pd \<longrightarrow> credited d pd'" by (auto simp: credit_def)
  then show "order_ok d pd' \<and> credit d pd pd'"
    using ok assms growsI [of pd' pd] by (auto simp: order_ok_def grows_def)
qed

lemma code_Create_result:
  assumes "code_Create c sh = (r, sh')"
  shows "same_shop sh sh' \<or> sh_users sh' = sh_users sh \<and> sh_codes sh' = sh_codes sh @ [c\<lparr>rc_ID := sh_next sh\<rparr>] \<and>
    sh_next sh' = sh_next sh + 1 \<and> (\<forall>d \<in> set (sh_codes sh). rc_Code d \<noteq> rc_Code c)"
  using assms shop_call_snd [of sh]
  by (auto simp: code_Create_def same_shop_def Let_def list_ex_iff split: prod.splits if_splits)

lemma CreateCode_order:
  "TrimSpace (po_RechargeCode ord) = po_RechargeCode ord \<Longrightarrow> po_RechargeCode ord \<noteq> '''' \<Longrightarrow> 0 < po_Amount ord \<Longrightarrow>
   CreateCode (order_code ord) sh = code_Create (order_code ord) sh"
  by (simp add: CreateCode_def order_code_def Let_def RedeemTypeBalance_def RedeemTypeInvitation_def StatusUnused_def zero_float64_def)

lemma create_code_deal:
  assumes t: "same_terms d ord" and c: "on_shop (CreateCode (order_code ord)) pd = (r, pd')"
  shows "deal d pd pd'"
proof (rule deal_shop)
  assume ok: "order_ok d pd"
  then have n: "TrimSpace (po_RechargeCode ord) = po_RechargeCode ord" "po_RechargeCode ord \<noteq> ''''" "0 < po_Amount ord"
      "po_RechargeCode ord = po_RechargeCode d" "po_Amount ord = po_Amount d"
    using t by (auto simp: order_ok_def balance_order_def same_terms_def)
  define x where "x = (order_code ord)\<lparr>rc_ID := sh_next (pay_shop pd)\<rparr>"
  obtain q sh where q: "code_Create (order_code ord) (pay_shop pd) = (q, sh)" by fastforce
  have sh: "pay_shop pd' = sh"
    using c q CreateCode_order [OF n(1-3)] by (auto simp: on_shop_def pay_shop_def split: sum.splits)
  from code_Create_result [OF q] consider (same) "same_shop (pay_shop pd) sh"
    | (new) "sh_users sh = sh_users (pay_shop pd)" "sh_codes sh = sh_codes (pay_shop pd) @ [x]"
        "sh_next sh = sh_next (pay_shop pd) + 1" "\<forall>c \<in> set (sh_codes (pay_shop pd)). rc_Code c \<noteq> po_RechargeCode d"
    using n by (auto simp: x_def order_code_def)
  then show "codes_inv (pay_shop pd') \<and> (\<forall>c \<in> set (sh_codes (pay_shop pd')). own_code d c) \<and> credit d pd pd'"
  proof cases
    case same
    then show ?thesis using ok sh by (auto simp: same_shop_def order_ok_def codes_inv_def credit_def credited_def)
  next
    case new
    have x: "own_code d x" "rc_Status x \<noteq> StatusUsed" "rc_ID x = sh_next (pay_shop pd)" "rc_Code x = po_RechargeCode d"
      using n by (simp_all add: own_code_def x_def order_code_def StatusUnused_def StatusUsed_def)
    have inv: "distinct (map rc_ID (sh_codes (pay_shop pd)))" "distinct (map rc_Code (sh_codes (pay_shop pd)))"
        "\<forall>c \<in> set (sh_codes (pay_shop pd)). rc_ID c < sh_next (pay_shop pd)"
      using ok by (simp_all add: order_ok_def codes_inv_def)
    have "sh_next (pay_shop pd) \<notin> rc_ID ` set (sh_codes (pay_shop pd))" using inv(3) by (metis imageE less_irrefl)
    moreover have "po_RechargeCode d \<notin> rc_Code ` set (sh_codes (pay_shop pd))" using new(4) by (metis imageE)
    moreover have "\<forall>c \<in> set (sh_codes (pay_shop pd)). rc_ID c < sh_next (pay_shop pd) + 1"
      using inv(3) by (metis less_add_one order.strict_trans)
    ultimately have "codes_inv sh" using inv(1,2) by (simp add: codes_inv_def new(2,3) x(3,4))
    then show ?thesis using ok new x sh by (auto simp: order_ok_def credit_def credited_def)
  qed
qed (use c in \<open>auto simp: on_shop_def split: prod.splits sum.splits\<close>)

lemma redeem_deal:
  assumes t: "same_terms d ord" and c: "on_shop (Redeem clk (po_UserID ord) (po_RechargeCode ord)) pd = (r, pd')"
  shows "deal d pd pd' \<and> (order_ok d pd \<longrightarrow> r = Inr a \<longrightarrow> credited d pd')"
proof -
  obtain q sh where q: "Redeem clk (po_UserID d) (po_RechargeCode d) (pay_shop pd) = (q, sh)" by fastforce
  have sh: "pay_shop pd' = sh" "isl r = isl q" and o: "pd_orders pd' = pd_orders pd" "pd_next pd' = pd_next pd"
    using c q t by (auto simp: on_shop_def pay_shop_def same_terms_def split: prod.splits sum.splits)
  have "codes_inv sh \<and> (\<forall>c \<in> set (sh_codes sh). own_code d c) \<and> credit d pd pd' \<and> (\<not> isl q \<longrightarrow> credited d pd')"
    if ok: "order_ok d pd"
  proof -
    have inv: "codes_inv (pay_shop pd)" using ok by (simp add: order_ok_def)
    from Redeem_result [OF q inv] show ?thesis
    proof (elim disjE exE conjE)
      assume "isl q" "same_shop (pay_shop pd) sh"
      then show ?thesis using ok sh by (auto simp: same_shop_def order_ok_def codes_inv_def credit_def credited_def)
    next
      fix c u
      assume f: "find (\<lambda>c. rc_Code c = po_RechargeCode d) (sh_codes (pay_shop pd)) = Some c" and use: "CanUse c"
        and u: "sh_users (pay_shop pd) (po_UserID d) = Some u" and out: "redeem_outcome (clk 0) (po_UserID d) c u (pay_shop pd) q sh"
      have c: "c \<in> set (sh_codes (pay_shop pd))" "rc_Code c = po_RechargeCode d" using find_Some_mem [OF f] by auto
      then have own: "rc_Type c = RedeemTypeBalance" "rc_Value c = Fin (po_Amount d)" using ok by (auto simp: order_ok_def own_code_def)
      show ?thesis
      proof (cases "isl q \<and> sh_users sh = sh_users (pay_shop pd) \<and> sh_codes sh = sh_codes (pay_shop pd)")
        case True
        then show ?thesis using ok sh out by (auto simp: redeem_outcome_def order_ok_def codes_inv_def credit_def credited_def)
      next
        case False
        with out have us: "sh_users sh = redeemed_users (po_UserID d) c u (sh_users (pay_shop pd))"
          and cs: "sh_codes sh = map (\<lambda>e. if e = c then use_code (clk 0) (po_UserID d) c else e) (sh_codes (pay_shop pd))"
          and nx: "sh_next sh = sh_next (pay_shop pd)" by (auto simp: redeem_outcome_def)
        have "codes_inv sh" by (rule redeemed_inv [OF inv cs nx])
        moreover have "\<forall>e \<in> set (sh_codes sh). own_code d e"
          using ok cs own by (auto simp: order_ok_def own_code_def use_code_def)
        moreover have "credited d pd'" using c cs sh by (auto simp: credited_def list_ex_iff use_code_def)
        moreover have "\<not> credited d pd"
        proof
          assume "credited d pd"
          then obtain e where "e \<in> set (sh_codes (pay_shop pd))" "rc_Code e = rc_Code c" "rc_Status e = StatusUsed"
            using c by (auto simp: credited_def list_ex_iff)
          moreover from this have "e = c" using inv c by (auto simp: codes_inv_def distinct_map inj_on_def)
          ultimately show False using use by (simp add: CanUse_def StatusUsed_def StatusUnused_def)
        qed
        moreover have "sh_users sh = (sh_users (pay_shop pd))(po_UserID d \<mapsto> add_balance (Fin (po_Amount d)) u)"
          using us own ok by (simp add: redeemed_users_def order_ok_def balance_order_def less_float64_def zero_float64_def)
        ultimately show ?thesis using u sh by (auto simp: credit_def)
      qed
    qed
  qed
  then show ?thesis using deal_shop [OF o] sh by (auto simp: isl_def)
qed

lemma deal_case: "(order_ok d pd \<Longrightarrow> leads (deal d) pd x) \<Longrightarrow> leads (deal d) pd x"
  by (auto simp: leads_def deal_def)

lemma deal_ok: "deal d pd pd' \<Longrightarrow> order_ok d pd \<Longrightarrow> order_ok d pd'"
  by (simp add: deal_def)

lemma credit_order_deal:
  assumes t: "same_terms d ord" and c: "credit_order now ord pd = (r, pd')" and ok: "order_ok d pd"
  shows "deal d pd pd' \<and> (r = Inr () \<longrightarrow> credited d pd')"
proof -
  obtain ex sh where g: "code_GetByCode (po_RechargeCode d) (pay_shop pd) = (ex, sh)" by fastforce
  define s where "s = pd\<lparr>pd_aff := (pd_aff pd)\<lparr>ad_shop := sh\<rparr>\<rparr>"
  note find = code_find_same [OF g [unfolded code_GetByCode_def]]
  then have q: "quiet pd s" by (simp add: quiet_def s_def same_goods_def same_shop_def pay_shop_def)
  have ds: "deal d pd s" using q by (rule quiet_deal)
  have c': "credit_order now ord pd = (case resolveRedeemAction ex of
         redeemActionSkipCompleted \<Rightarrow> (Inr (), s)
       | redeemActionCreate \<Rightarrow> and_then (on_shop (CreateCode (order_code ord)) s) (\<lambda>_ pd.
             and_then (on_shop (Redeem (\<lambda>_. now) (po_UserID ord) (po_RechargeCode ord)) pd) (\<lambda>_ pd. (Inr (), pd)))
       | redeemActionRedeem \<Rightarrow> and_then (on_shop (Redeem (\<lambda>_. now) (po_UserID ord) (po_RechargeCode ord)) s) (\<lambda>_ pd. (Inr (), pd)))"
    unfolding s_def using g t by (simp add: credit_order_def same_terms_def pay_shop_def Let_def)
  have redeem: "deal d pd y \<and> (q = Inr () \<longrightarrow> credited d y)"
    if "deal d pd x" and a: "and_then (on_shop (Redeem (\<lambda>_. now) (po_UserID ord) (po_RechargeCode ord)) x) (\<lambda>_ pd. (Inr (), pd)) = (q, y)"
    for x y and q :: "pay_error + unit"
  proof -
    obtain q' y' where "on_shop (Redeem (\<lambda>_. now) (po_UserID ord) (po_RechargeCode ord)) x = (q', y')" by fastforce
    with redeem_deal [OF t this] a that(1) deal_ok [OF that(1) ok] show ?thesis
      by (cases q') (auto intro: deal_trans)
  qed
  show ?thesis
  proof (cases "resolveRedeemAction ex")
    case redeemActionSkipCompleted
    then obtain x where "ex = Inr x" "rc_Status x = StatusUsed"
      by (auto simp: resolveRedeemAction_def IsUsed_def split: sum.splits if_splits)
    then have "credited d pd" using find by (auto simp: credited_def list_ex_iff dest!: find_Some_mem)
    then have "credited d s" using quiet_wallet [OF q] by (simp add: credited_def)
    then show ?thesis using c c' redeemActionSkipCompleted ds by simp
  next
    case redeemActionRedeem
    then show ?thesis using c c' redeem [OF ds] by simp
  next
    case redeemActionCreate
    obtain q1 s1 where n: "on_shop (CreateCode (order_code ord)) s = (q1, s1)" by fastforce
    then have "deal d pd s1" using create_code_deal [OF t n] ds deal_trans by blast
    then show ?thesis using c c' redeemActionCreate n redeem by (cases q1) auto
  qed
qed

lemma markCompleted_deal: "credited d pd \<Longrightarrow> deal d pd0 pd \<Longrightarrow> leads (deal d) pd0 (markCompleted now ord a pd)"
  unfolding markCompleted_def
  by (intro leads_intros order_update_deal) (auto simp: same_terms_def)

lemma doBalance_deal:
  assumes "same_terms d ord"
  shows "leads (deal d) pd (doBalance env now ord pd)"
proof (rule deal_case)
  assume ok: "order_ok d pd"
  obtain r s where c: "credit_order now ord pd = (r, s)" by fastforce
  obtain r' s' where a: "applyAffiliateRebateForOrder env now ord s = (r', s')" by fastforce
  note cr = credit_order_deal [OF assms c ok]
  have q: "quiet s s'" by (rule leads_result [OF a applyAffiliateRebateForOrder_quiet [OF quiet.frame_refl]])
  then have "deal d pd s'" using cr deal_trans quiet_deal by blast
  moreover have "credited d s' = credited d s" using quiet_wallet [OF q] by (simp add: credited_def)
  ultimately show ?thesis using cr markCompleted_deal [of d s' pd]
    by (cases r; cases r') (auto simp: doBalance_def c a leads_def)
qed

lemma markFailed_deal: "deal d pd0 pd \<Longrightarrow> deal d pd0 (markFailed now oid pd)"
proof -
  assume a: "deal d pd0 pd"
  obtain r s where s: "order_update now (\<lambda>d. po_ID d = oid \<and> po_Status d = OrderStatusRecharging)
             (\<lambda>d. d\<lparr>po_Status := OrderStatusFailed, po_FailedAt := Some now\<rparr>) pd = (r, s)" by fastforce
  have "deal d pd0 s" by (rule leads_result [OF s order_update_deal [OF a]]) (auto simp: same_terms_def)
  with s show ?thesis by (auto simp: markFailed_def intro: deal.writeAuditLog_leads split: sum.splits bool.splits)
qed

section \<open>Attempts\<close>

lemma fetch:
  assumes "order_Get (po_ID d) pd = (Inr ord, s)" and "order_ok d pd"
  shows "same_terms d ord"
proof -
  obtain b where "pay_call pd = (b, s)" "ord \<in> set (pd_orders pd)" "po_ID ord = po_ID d"
    using assms(1) by (auto simp: order_Get_def split: prod.splits if_splits option.splits dest!: find_Some_mem)
  moreover obtain e where "e \<in> set (pd_orders pd)" "same_terms d e" "distinct (map po_ID (pd_orders pd))"
    using assms(2) by (auto simp: order_ok_def ids_ok_def)
  ultimately show ?thesis by (metis distinct_map inj_on_def same_terms_def)
qed

lemma fulfil_rest_deal:
  assumes "same_terms d ord" and "deal d pd0 pd"
  shows "leads (deal d) pd0 (case doBalance env now ord pd of (Inl e, pd) \<Rightarrow> (Inl e, markFailed now oid pd) | (Inr _, pd) \<Rightarrow> (Inr (), pd))"
  by (intro leads_case_prod leads_case_sum leads_pair markFailed_deal deal.leads_trans [OF assms(2) doBalance_deal [OF assms(1)]])

lemma ExecuteBalanceFulfillment_deal:
  assumes "deal d pd0 pd"
  shows "leads (deal d) pd0 (ExecuteBalanceFulfillment env now (po_ID d) pd)"
proof (rule deal.leads_trans [OF assms], rule deal_case)
  assume ok: "order_ok d pd"
  show "leads (deal d) pd (ExecuteBalanceFulfillment env now (po_ID d) pd)"
    unfolding ExecuteBalanceFulfillment_def lock_order_def
    by (intro leads_case_prod leads_case_sum leads_case_option leads_pair leads_and_then leads_if deal.order_Get_leads order_update_deal
          deal.frame_refl fulfil_rest_deal)
      (auto simp: same_terms_def dest!: fetch [OF _ ok])
qed

lemma executeFulfillment_deal:
  assumes "deal d pd0 pd"
  shows "leads (deal d) pd0 (executeFulfillment env now (po_ID d) pd)"
proof (rule deal.leads_trans [OF assms], rule deal_case)
  assume ok: "order_ok d pd"
  show "leads (deal d) pd (executeFulfillment env now (po_ID d) pd)"
    unfolding executeFulfillment_def
    by (intro leads_and_then deal.order_Get_leads deal.frame_refl)
      (use ok in \<open>auto simp: same_terms_def order_ok_def balance_order_def intro: ExecuteBalanceFulfillment_deal dest!: fetch [OF _ ok]\<close>)
qed

lemma RetryFulfillment_deal: "deal d pd0 pd \<Longrightarrow> leads (deal d) pd0 (RetryFulfillment env now (po_ID d) pd)"
  unfolding RetryFulfillment_def
  by (intro leads_case_prod leads_case_sum leads_pair leads_and_then leads_if deal.order_Get_leads order_update_deal
      executeFulfillment_deal deal.writeAuditLog_leads) (auto simp: same_terms_def)

lemma alreadyProcessed_deal: "deal d pd0 pd \<Longrightarrow> leads (deal d) pd0 (alreadyProcessed env now (po_ID d) pd)"
  unfolding alreadyProcessed_def
  by (intro leads_case_prod leads_case_sum deal.order_Get_leads leads_pair)
    (auto split: order_status.split intro!: leads_pair executeFulfillment_deal deal.writeAuditLog_leads)

lemma toPaid_deal: "po_ID ord = po_ID d \<Longrightarrow> deal d pd0 pd \<Longrightarrow> leads (deal d) pd0 (toPaid env now ord no x pk pd)"
  unfolding toPaid_def Let_def
  by (intro leads_and_then leads_if order_update_deal)
    (auto simp: same_terms_def intro!: alreadyProcessed_deal executeFulfillment_deal deal.writeAuditLog_leads)

lemma confirmPayment_deal:
  "deal d pd0 pd \<Longrightarrow> leads (deal d) pd0 (confirmPayment env now (po_ID d) no x pk md pd)"
  unfolding confirmPayment_def Let_def
  by (intro leads_case_prod leads_case_sum leads_if leads_pair deal.order_Get_leads deal.getOrderProviderInstance_leads
      deal.writeAuditLog_leads toPaid_deal) (auto dest!: still.order_Get_id)

text \<open>What may happen to an order: its payment is confirmed, by a notification or a query, also with a copy
  of the order that was read before; it is fulfilled; an administrator retries.\<close>

inductive attempt :: "PaymentOrder \<Rightarrow> paydb \<Rightarrow> paydb \<Rightarrow> bool" for d where
  "confirmPayment env now (po_ID d) no x pk md pd = (r, pd') \<Longrightarrow> attempt d pd pd'"
| "po_ID ord = po_ID d \<Longrightarrow> toPaid env now ord no x pk pd = (r, pd') \<Longrightarrow> attempt d pd pd'"
| "executeFulfillment env now (po_ID d) pd = (r, pd') \<Longrightarrow> attempt d pd pd'"
| "RetryFulfillment env now (po_ID d) pd = (r, pd') \<Longrightarrow> attempt d pd pd'"

lemma attempt_deal: "attempt d pd pd' \<Longrightarrow> deal d pd pd'"
  by (induction rule: attempt.induct)
    (erule leads_result, (rule confirmPayment_deal toPaid_deal executeFulfillment_deal RetryFulfillment_deal; (rule deal.frame_refl | assumption)))+

text \<open>C24. Over any number of attempts to fulfil a paid balance order, with any storage faults in them, its
  user is credited with the amount at most once: either the accounts are as before, or exactly this credit
  was made and the order's code is used, which excludes another one. The order is completed only if it
  was credited.\<close>

theorem order_credited_once:
  assumes "(attempt d)\<^sup>*\<^sup>* pd pd'" and "order_ok d pd"
  shows "(sh_users (pay_shop pd') = sh_users (pay_shop pd) \<and> credited d pd' = credited d pd \<or>
      \<not> credited d pd \<and> credited d pd' \<and> (\<exists>u. sh_users (pay_shop pd) (po_UserID d) = Some u \<and>
        sh_users (pay_shop pd') = (sh_users (pay_shop pd))(po_UserID d \<mapsto> add_balance (Fin (po_Amount d)) u))) \<and>
    (stat (po_ID d) pd' \<noteq> [OrderStatusCompleted] \<or> credited d pd')"
proof -
  from assms(1) have "deal d pd pd'"
    by (induction rule: rtranclp_induct) (auto intro: deal.frame_refl deal_trans attempt_deal)
  with assms(2) have ok: "order_ok d pd'" and c: "credit d pd pd'" by (simp_all add: deal_def)
  from ok obtain e where "e \<in> set (pd_orders pd')" "po_ID e = po_ID d" "po_Status e = OrderStatusCompleted \<longrightarrow> credited d pd'"
    by (auto simp: order_ok_def same_terms_def)
  then have "stat (po_ID d) pd' \<noteq> [OrderStatusCompleted] \<or> credited d pd'" using stat_mem by blast
  with c show ?thesis unfolding credit_def by blast
qed

section \<open>A retry with working storage\<close>

definition pay_up :: "paydb \<Rightarrow> bool" where
  "pay_up pd \<longleftrightarrow> sub_up (sh_db (pay_shop pd))"

lemma pay_call_up: "pay_up pd \<Longrightarrow> pay_call pd = (False, pd)"
  using shop_call_up [of "pay_shop pd"] by (simp add: pay_call_def aff_call_def pay_up_def pay_shop_def)














lemma restat:
  assumes "\<And>d. po_ID (f d) = po_ID d" and "\<And>d. po_Status (f d) = s'" and "stat i pd = [s]" and "P s"
  shows "stat i (pd\<lparr>pd_orders := map (\<lambda>d. if po_ID d = i \<and> P (po_Status d) then (f d)\<lparr>po_UpdatedAt := now\<rparr> else d) (pd_orders pd)\<rparr>) = [s']"
proof -
  obtain a where a: "filter (\<lambda>d. po_ID d = i) (pd_orders pd) = [a]" "po_Status a = s"
    using assms(3) unfolding stat_def by (auto simp: map_eq_Cons_conv)
  have "po_ID a = i" using filter_eq_ConsD [OF a(1)] by auto
  have "filter (\<lambda>d. po_ID d = i) (map (\<lambda>d. if po_ID d = i \<and> P (po_Status d) then (f d)\<lparr>po_UpdatedAt := now\<rparr> else d) xs) =
      map (\<lambda>d. if po_ID d = i \<and> P (po_Status d) then (f d)\<lparr>po_UpdatedAt := now\<rparr> else d) (filter (\<lambda>d. po_ID d = i) xs)" for xs
    by (induction xs) (auto simp: assms(1))
  then show ?thesis using a assms \<open>po_ID a = i\<close> by (simp add: stat_def)
qed









section \<open>A refund after a failed rollback\<close>

definition kept :: "paydb \<Rightarrow> paydb \<Rightarrow> bool" where
  "kept pd pd' \<longleftrightarrow> sh_users (pay_shop pd') = sh_users (pay_shop pd) \<and> pd_orders pd' = pd_orders pd \<and> (pay_up pd \<longrightarrow> pay_up pd')"

interpretation kept: pay_frame kept
proof unfold_locales
  show "kept pd (snd (pay_call pd))" for pd
    using pay_call_quiet [of pd] quiet_wallet [of pd "snd (pay_call pd)"] by (auto simp: kept_def quiet_def pay_call_up)
qed (auto simp: kept_def pay_up_def pay_shop_def)

lemma refunds_kept [leads_intros]: "kept pd0 pd \<Longrightarrow> kept pd0 (pd\<lparr>pd_refunds := x\<rparr>)"
  by (simp add: kept_def pay_up_def pay_shop_def)

lemma gwRefund_kept: "leads kept pd (gwRefund env now p pd)"
  unfolding gwRefund_def Let_def by (intro leads_intros kept.frame_refl)

lemma set_order_up: "pay_up pd \<Longrightarrow> set_order now oid f pd =
    pd\<lparr>pd_orders := map (\<lambda>d. if po_ID d = oid then (f d)\<lparr>po_UpdatedAt := now\<rparr> else d) (pd_orders pd)\<rparr>"
  by (simp add: set_order_def order_update_def pay_call_up)

lemma markRefundOk_result: "markRefundOk now p pd \<noteq> (Inr RefundRolledBack, pd')"
  by (auto simp: markRefundOk_def Let_def and_then_def split: prod.split sum.split)

lemma handleGwFail_none:
  assumes "handleGwFail now q pd = (Inr RefundRolledBack, pd')" and "pay_up pd" and "stat (po_ID (rp_Order q)) pd = [s]"
    and "rp_DeductionType q = DeductionTypeBalance" and "\<not> rp_BalanceToDeduct q > 0"
  shows "sh_users (pay_shop pd') = sh_users (pay_shop pd) \<and>
    stat (po_ID (rp_Order q)) pd' = [if po_Status (rp_Order q) = OrderStatusRefundRequested then OrderStatusRefundRequested else OrderStatusCompleted]"
proof -
  let ?i = "po_ID (rp_Order q)"
  define p3 where "p3 = restoreStatus now q pd"
  have p3: "stat ?i p3 = [if po_Status (rp_Order q) = OrderStatusRefundRequested then OrderStatusRefundRequested else OrderStatusCompleted]"
      "sh_users (pay_shop p3) = sh_users (pay_shop pd)"
    using restat [OF _ _ assms(3), of "\<lambda>d. d\<lparr>po_Status := (if po_Status (rp_Order q) = OrderStatusRefundRequested
        then OrderStatusRefundRequested else OrderStatusCompleted)\<rparr>" _ "\<lambda>_. True" now] assms(2)
    by (simp_all add: p3_def restoreStatus_def set_order_up pay_shop_def)
  have "pd' = writeAuditLog now ?i ''REFUND_GATEWAY_FAILED'' ''admin'' p3"
    using assms(1,4,5) by (simp add: handleGwFail_def RollbackRefund_def p3_def)
  moreover have "kept p3 (writeAuditLog now ?i ''REFUND_GATEWAY_FAILED'' ''admin'' p3)" by (rule kept.writeAuditLog_leads [OF kept.frame_refl])
  ultimately show ?thesis using p3 by (simp add: kept_def stat_def)
qed

text \<open>C26. With working storage, once the balance that an earlier attempt deducted could not be given back,
  further attempts to refund the order neither deduct nor give back anything: when the payment provider
  declines again, the order returns to its status from before (completed) and the user's balance stays
  without the amount.\<close>

theorem failed_rollback_not_made_up:
  assumes "pay_up pd" and "stat (po_ID (rp_Order p)) pd = [s]" and "refundable s" and "rp_DeductionType p = DeductionTypeBalance"
    and "has_audit (po_ID (rp_Order p)) ''REFUND_ROLLBACK_FAILED'' (pd_audits pd)" and "ExecuteRefund env now p pd = (Inr RefundRolledBack, pd')"
  shows "sh_users (pay_shop pd') = sh_users (pay_shop pd) \<and>
    stat (po_ID (rp_Order p)) pd' = [if po_Status (rp_Order p) = OrderStatusRefundRequested then OrderStatusRefundRequested else OrderStatusCompleted]"
proof -
  let ?i = "po_ID (rp_Order p)"
  define p1 where "p1 = pd\<lparr>pd_orders := map (\<lambda>d. if po_ID d = ?i \<and> refundable (po_Status d) then (d\<lparr>po_Status := OrderStatusRefunding\<rparr>)\<lparr>po_UpdatedAt := now\<rparr> else d) (pd_orders pd)\<rparr>"
  define q where "q = (if rp_BalanceToDeduct p > 0 then p\<lparr>rp_BalanceToDeduct := 0\<rparr> else p)"
  have q: "rp_Order q = rp_Order p" "rp_DeductionType q = DeductionTypeBalance" "\<not> rp_BalanceToDeduct q > 0"
    using assms(4) by (simp_all add: q_def less_float64_def zero_float64_def)
  have p1: "pay_up p1" "stat ?i p1 = [OrderStatusRefunding]" "sh_users (pay_shop p1) = sh_users (pay_shop pd)"
    using assms(1) restat [OF _ _ assms(2), of "\<lambda>d. d\<lparr>po_Status := OrderStatusRefunding\<rparr>" _ refundable now] assms(3)
    by (simp_all add: p1_def pay_up_def pay_shop_def)
  have "deduct_balance now p p1 = (Inr q, p1)"
    using assms(4,5) p1(1) by (simp add: deduct_balance_def hasAuditLog_def pay_call_up q_def p1_def)
  moreover have "deduct_days now q p1 = (Inr q, p1)" using q(2) by (simp add: deduct_days_def)
  moreover obtain g p2 where g: "gwRefund env now q p1 = (g, p2)" by fastforce
  moreover have "kept p1 p2" by (rule leads_result [OF g gwRefund_kept])
  moreover have "order_update now (\<lambda>d. po_ID d = ?i \<and> refundable (po_Status d)) (\<lambda>d. d\<lparr>po_Status := OrderStatusRefunding\<rparr>) pd =
      (Inr (list_ex (\<lambda>d. po_ID d = ?i \<and> refundable (po_Status d)) (pd_orders pd)), p1)"
    using assms(1) by (simp add: order_update_def pay_call_up p1_def)
  ultimately have h: "handleGwFail now q p2 = (Inr RefundRolledBack, pd')" "pay_up p2" "stat ?i p2 = [OrderStatusRefunding]"
      "sh_users (pay_shop p2) = sh_users (pay_shop pd)"
    using assms(6) p1 unfolding ExecuteRefund_def
    by (auto simp: markRefundOk_result stat_def kept_def split: sum.splits if_splits prod.splits)
  show ?thesis using handleGwFail_none [of now q p2 pd'] h q by simp
qed

section \<open>Witnesses\<close>

lemma demo_order_ok: "order_ok (demo_order s) (demo_pay OrderStatusFailed)" "pay_up (demo_pay OrderStatusFailed)"
    "sh_users (pay_shop (demo_pay OrderStatusFailed)) 1 = Some demo_user"
proof -
  have "TrimSpace ''PAY-1-0'' = ''PAY-1-0''" by code_simp
  then have "balance_order (demo_order s)"
    by (simp add: balance_order_def demo_order_def OrderTypeBalance_def OrderTypeSubscription_def)
  moreover have "codes_inv (pay_shop (demo_pay OrderStatusFailed)) \<and>
      (\<forall>c \<in> set (sh_codes (pay_shop (demo_pay OrderStatusFailed))). own_code (demo_order s) c)"
    by (simp add: pay_shop_def demo_pay_def demo_aff_def demo_shop_def codes_inv_def own_code_def demo_days_def demo_money_def demo_order_def)
  moreover have "demo_order OrderStatusFailed \<in> set (pd_orders (demo_pay OrderStatusFailed))" by (simp add: demo_pay_def)
  moreover have "same_terms (demo_order s) (demo_order OrderStatusFailed)" "po_Status (demo_order OrderStatusFailed) = OrderStatusFailed"
    by (simp_all add: same_terms_def demo_order_def)
  ultimately show "order_ok (demo_order s) (demo_pay OrderStatusFailed)"
    using demo_pay_ids unfolding order_ok_def by (metis order_status.distinct)
qed (simp_all add: pay_up_def pay_shop_def demo_pay_def demo_aff_def demo_shop_def sub_up_def sh_db_def demo_service_def)

text \<open>The retry of the demonstration order, twice.\<close>

definition demo_retried :: paydb where
  "demo_retried = snd (RetryFulfillment demo_pay_env 7 1 (snd (RetryFulfillment demo_pay_env 5 1 (demo_pay OrderStatusFailed))))"

lemma order_credited_once_witness:
  "sh_users (pay_shop demo_retried) 1 = Some (add_balance (Fin 10) demo_user)"
proof -
  have s: "attempt (demo_order OrderStatusFailed) pd (snd (RetryFulfillment env now 1 pd))" for env now pd
    by (rule attempt.intros(4) [of env now "demo_order OrderStatusFailed" pd "fst (RetryFulfillment env now 1 pd)"]) (simp add: demo_order_def)
  have "(attempt (demo_order OrderStatusFailed))\<^sup>*\<^sup>* (demo_pay OrderStatusFailed) demo_retried"
    unfolding demo_retried_def using s by (meson converse_rtranclp_into_rtranclp r_into_rtranclp)
  note main = order_credited_once [OF this demo_order_ok(1)]
  have "stat 1 demo_retried = [OrderStatusCompleted]" "\<not> credited (demo_order OrderStatusFailed) (demo_pay OrderStatusFailed)"
    by code_simp+
  then show ?thesis using main demo_order_ok(3) by (auto simp: demo_order_def)
qed



text \<open>A refund whose rollback fails: the provider declines, the sixth storage access fails.\<close>

definition demo_declining :: pay_env where
  "demo_declining = demo_pay_env\<lparr>pe_CreateProvider := (\<lambda>_ _ _. Some (demo_provider\<lparr>pv_Refund := \<lambda>_ _ _. RefundRefused\<rparr>))\<rparr>"

definition demo_balance_plan :: RefundPlan where
  "demo_balance_plan = demo_plan\<lparr>rp_DeductionType := DeductionTypeBalance, rp_BalanceToDeduct := Fin 1\<rparr>"

definition demo_lost :: paydb where
  "demo_lost = (let pd = demo_pay OrderStatusCompleted; sh = pay_shop pd;
      svc = (sh_svc sh)\<lparr>sv_db := (sh_db sh)\<lparr>sd_faults := [False, False, False, False, False, True]\<rparr>\<rparr>
    in snd (ExecuteRefund demo_declining 0 demo_balance_plan (pd\<lparr>pd_aff := (pd_aff pd)\<lparr>ad_shop := sh\<lparr>sh_svc := svc\<rparr>\<rparr>\<rparr>)))"

lemma failed_rollback_not_made_up_witness:
  "stat 1 (snd (ExecuteRefund demo_declining 1 demo_balance_plan demo_lost)) = [OrderStatusCompleted] \<and>
   map_option usr_Balance (sh_users (pay_shop (snd (ExecuteRefund demo_declining 1 demo_balance_plan demo_lost))) 1) = Some (Fin 0)"
proof -
  obtain r pd' where e: "ExecuteRefund demo_declining 1 demo_balance_plan demo_lost = (r, pd')" by fastforce
  have "fst (ExecuteRefund demo_declining 1 demo_balance_plan demo_lost) = Inr RefundRolledBack" by code_simp
  with e have e: "ExecuteRefund demo_declining 1 demo_balance_plan demo_lost = (Inr RefundRolledBack, pd')" by simp
  have up: "pay_up demo_lost" by code_simp
  have st: "stat (po_ID (rp_Order demo_balance_plan)) demo_lost = [OrderStatusRefundFailed]" by code_simp
  have au: "has_audit (po_ID (rp_Order demo_balance_plan)) ''REFUND_ROLLBACK_FAILED'' (pd_audits demo_lost)" by code_simp
  have b: "map_option usr_Balance (sh_users (pay_shop demo_lost) 1) = Some (Fin 0)" by code_simp
  show ?thesis
    using failed_rollback_not_made_up [OF up st _ _ au e] b e
    by (simp add: refundable_def demo_balance_plan_def demo_plan_def demo_order_def)
qed

end
