(* ===== verification/Account.thy ===== *)
theory Account
  imports GoText "HOL-Library.Product_Lexorder"
begin

text \<open>
  Upstream accounts (\<open>service/account.go\<close>, \<open>model_rate_limit.go\<close>, \<open>account_visibility.go\<close>): what their
  dynamic settings mean, whether they can be scheduled, their quotas and limits, and how they map models.
  A nil map of settings behaves as an empty one. The cache of the model mapping, which is keyed by the
  contents of the map, is left out.
\<close>

section \<open>Accounts\<close>

definition PlatformAnthropic :: string where "PlatformAnthropic = ''anthropic''"

definition PlatformOpenAI :: string where "PlatformOpenAI = ''openai''"

definition PlatformGemini :: string where "PlatformGemini = ''gemini''"

definition PlatformAntigravity :: string where "PlatformAntigravity = ''antigravity''"

definition AccountTypeOAuth :: string where "AccountTypeOAuth = ''oauth''"

definition AccountTypeSetupToken :: string where "AccountTypeSetupToken = ''setup-token''"

definition AccountTypeAPIKey :: string where "AccountTypeAPIKey = ''apikey''"

definition AccountTypeBedrock :: string where "AccountTypeBedrock = ''bedrock''"

definition StatusActive :: string where "StatusActive = ''active''"

record Account =
  acc_ID :: int
  acc_Platform :: string
  acc_Type :: string
  acc_Credentials :: document
  acc_Extra :: document
  acc_OwnerUserID :: "int option"
  acc_ShareMode :: string
  acc_ShareStatus :: string
  acc_SharePolicyID :: "int option"
  acc_Concurrency :: int
  acc_Priority :: int
  acc_RateMultiplier :: "float64 option"
  acc_LoadFactor :: "int option"
  acc_Status :: string
  acc_LastUsedAt :: "instant option"
  acc_ExpiresAt :: "instant option"
  acc_AutoPauseOnExpired :: bool
  acc_Schedulable :: bool
  acc_RateLimitResetAt :: "instant option"
  acc_OverloadUntil :: "instant option"
  acc_TempUnschedulableUntil :: "instant option"
  acc_SessionWindowStart :: "instant option"
  acc_SessionWindowEnd :: "instant option"

abbreviation extra :: "Account \<Rightarrow> string \<Rightarrow> any option" where
  "extra a \<equiv> map_of (acc_Extra a)"

abbreviation credential :: "Account \<Rightarrow> string \<Rightarrow> any option" where
  "credential a \<equiv> map_of (acc_Credentials a)"

section \<open>Sharing\<close>

definition AccountShareModePrivate :: string where "AccountShareModePrivate = ''private''"

definition AccountShareModePublic :: string where "AccountShareModePublic = ''public''"

definition AccountShareStatusPending :: string where "AccountShareStatusPending = ''pending''"

definition AccountShareStatusApproved :: string where "AccountShareStatusApproved = ''approved''"

definition AccountShareStatusSuspended :: string where "AccountShareStatusSuspended = ''suspended''"

definition NormalizeAccountShareMode :: "string \<Rightarrow> string" where
  "NormalizeAccountShareMode mode =
     (if ToLower (TrimSpace mode) = AccountShareModePublic then AccountShareModePublic else AccountShareModePrivate)"

definition NormalizeAccountShareStatus :: "string \<Rightarrow> string" where
  "NormalizeAccountShareStatus status =
     (let s = ToLower (TrimSpace status)
      in if s = AccountShareStatusPending then AccountShareStatusPending
         else if s = AccountShareStatusSuspended then AccountShareStatusSuspended
         else AccountShareStatusApproved)"

definition IsPublicShareApproved :: "Account \<Rightarrow> bool" where
  "IsPublicShareApproved a \<longleftrightarrow>
     acc_OwnerUserID a \<noteq> None \<and> NormalizeAccountShareMode (acc_ShareMode a) = AccountShareModePublic \<and>
     NormalizeAccountShareStatus (acc_ShareStatus a) = AccountShareStatusApproved"

definition IsVisibleToConsumer :: "Account \<Rightarrow> int \<Rightarrow> bool" where
  "IsVisibleToConsumer a userID \<longleftrightarrow>
     (case acc_OwnerUserID a of
        None \<Rightarrow> True
      | Some owner \<Rightarrow> if 0 < userID \<and> owner = userID then True else IsPublicShareApproved a)"

definition FilterAccountsVisibleToRequestUser :: "int \<Rightarrow> Account list \<Rightarrow> Account list" where
  "FilterAccountsVisibleToRequestUser userID = filter (\<lambda>a. IsVisibleToConsumer a userID)"

section \<open>Settings\<close>

definition GetCredential :: "Account \<Rightarrow> string \<Rightarrow> string" where
  "GetCredential a key =
     (case credential a key of
        Some (AString s) \<Rightarrow> s
      | Some (ANumber s) \<Rightarrow> s
      | Some (AFloat x) \<Rightarrow> itoa (int_of_float x)
      | Some (AInt n) \<Rightarrow> itoa n
      | _ \<Rightarrow> '''')"

definition GetCredentialAsTime :: "Account \<Rightarrow> string \<Rightarrow> instant option" where
  "GetCredentialAsTime a key =
     (let s = GetCredential a key
      in if s = '''' then None
         else case ParseRFC3339 s of
                Some t \<Rightarrow> Some t
              | None \<Rightarrow> map_option seconds (ParseInt s))"

definition GetCredentialAsInt64 :: "Account \<Rightarrow> string \<Rightarrow> int" where
  "GetCredentialAsInt64 a key = option_or (any_int (credential a key)) 0"

definition GetExtraString :: "Account \<Rightarrow> string \<Rightarrow> string" where
  "GetExtraString a key = option_or (get_string (extra a key)) ''''"

definition getExtraStringDefault :: "Account \<Rightarrow> string \<Rightarrow> string \<Rightarrow> string" where
  "getExtraStringDefault a key d = (let v = GetExtraString a key in if v \<noteq> '''' then v else d)"

definition getExtraBool :: "Account \<Rightarrow> string \<Rightarrow> bool" where
  "getExtraBool a key = option_or (get_bool (extra a key)) False"

definition getExtraFloat64 :: "Account \<Rightarrow> string \<Rightarrow> float64" where
  "getExtraFloat64 a key = option_or (any_float (extra a key)) 0"

definition getExtraInt :: "Account \<Rightarrow> string \<Rightarrow> int" where
  "getExtraInt a key = (case extra a key of None \<Rightarrow> 0 | v \<Rightarrow> int_of_float (option_or (any_float v) 0))"

definition parseExtraInt :: "any option \<Rightarrow> int" where
  "parseExtraInt v = option_or (any_int v) 0"

definition getExtraTime :: "Account \<Rightarrow> string \<Rightarrow> instant" where
  "getExtraTime a key = (case get_string (extra a key) of None \<Rightarrow> zero_time | Some s \<Rightarrow> option_or (ParseRFC3339 s) zero_time)"

definition credential_flag :: "Account \<Rightarrow> string \<Rightarrow> bool" where
  "credential_flag a key = option_or (get_bool (credential a key)) False"

section \<open>Kinds of accounts\<close>

definition IsActive_Account :: "Account \<Rightarrow> bool" where
  "IsActive_Account a \<longleftrightarrow> acc_Status a = StatusActive"

definition IsOAuth :: "Account \<Rightarrow> bool" where
  "IsOAuth a \<longleftrightarrow> acc_Type a = AccountTypeOAuth \<or> acc_Type a = AccountTypeSetupToken"

definition IsGemini :: "Account \<Rightarrow> bool" where
  "IsGemini a \<longleftrightarrow> acc_Platform a = PlatformGemini"

definition IsBedrock :: "Account \<Rightarrow> bool" where
  "IsBedrock a \<longleftrightarrow> acc_Platform a = PlatformAnthropic \<and> acc_Type a = AccountTypeBedrock"

definition IsBedrockAPIKey :: "Account \<Rightarrow> bool" where
  "IsBedrockAPIKey a \<longleftrightarrow> IsBedrock a \<and> GetCredential a ''auth_mode'' = ''apikey''"

definition IsAPIKeyOrBedrock :: "Account \<Rightarrow> bool" where
  "IsAPIKeyOrBedrock a \<longleftrightarrow> acc_Type a = AccountTypeAPIKey \<or> acc_Type a = AccountTypeBedrock"

definition IsOpenAI :: "Account \<Rightarrow> bool" where
  "IsOpenAI a \<longleftrightarrow> acc_Platform a = PlatformOpenAI"

definition IsOpenAIOAuth :: "Account \<Rightarrow> bool" where
  "IsOpenAIOAuth a \<longleftrightarrow> IsOpenAI a \<and> acc_Type a = AccountTypeOAuth"

definition IsOpenAIApiKey :: "Account \<Rightarrow> bool" where
  "IsOpenAIApiKey a \<longleftrightarrow> IsOpenAI a \<and> acc_Type a = AccountTypeAPIKey"

definition IsAnthropicOAuthOrSetupToken :: "Account \<Rightarrow> bool" where
  "IsAnthropicOAuthOrSetupToken a \<longleftrightarrow>
     acc_Platform a = PlatformAnthropic \<and> (acc_Type a = AccountTypeOAuth \<or> acc_Type a = AccountTypeSetupToken)"

definition IsPrivacySet :: "Account \<Rightarrow> bool" where
  "IsPrivacySet a \<longleftrightarrow>
     (if acc_Platform a = PlatformOpenAI then GetExtraString a ''privacy_mode'' = ''training_off''
      else if acc_Platform a = PlatformAntigravity then GetExtraString a ''privacy_mode'' = ''privacy_set''
      else True)"

definition GeminiOAuthType :: "Account \<Rightarrow> string" where
  "GeminiOAuthType a =
     (if acc_Platform a \<noteq> PlatformGemini \<or> acc_Type a \<noteq> AccountTypeOAuth then ''''
      else let t = TrimSpace (GetCredential a ''oauth_type'')
           in if t = '''' \<and> TrimSpace (GetCredential a ''project_id'') \<noteq> '''' then ''code_assist'' else t)"

definition IsGeminiCodeAssist :: "Account \<Rightarrow> bool" where
  "IsGeminiCodeAssist a \<longleftrightarrow>
     (if acc_Platform a \<noteq> PlatformGemini \<or> acc_Type a \<noteq> AccountTypeOAuth then False
      else if GeminiOAuthType a = '''' then TrimSpace (GetCredential a ''project_id'') \<noteq> ''''
      else GeminiOAuthType a = ''code_assist'')"

definition IsMixedSchedulingEnabled :: "Account \<Rightarrow> bool" where
  "IsMixedSchedulingEnabled a \<longleftrightarrow> acc_Platform a = PlatformAntigravity \<and> getExtraBool a ''mixed_scheduling''"

definition IsOveragesEnabled :: "Account \<Rightarrow> bool" where
  "IsOveragesEnabled a \<longleftrightarrow> acc_Platform a = PlatformAntigravity \<and> getExtraBool a ''allow_overages''"

text \<open>Cache tokens counted as those of one lifetime.\<close>

definition IsCacheTTLOverrideEnabled :: "Account \<Rightarrow> bool" where
  "IsCacheTTLOverrideEnabled a \<longleftrightarrow> IsAnthropicOAuthOrSetupToken a \<and> extra a ''cache_ttl_override_enabled'' = Some (ABool True)"

definition GetCacheTTLOverrideTarget :: "Account \<Rightarrow> string" where
  "GetCacheTTLOverrideTarget a = (if extra a ''cache_ttl_override_target'' = Some (AString ''1h'') then ''1h'' else ''5m'')"

definition BillingRateMultiplier :: "Account \<Rightarrow> float64" where
  "BillingRateMultiplier a = (case acc_RateMultiplier a of None \<Rightarrow> 1 | Some m \<Rightarrow> if m < 0 then 1 else m)"

definition EffectiveLoadFactor :: "Account \<Rightarrow> int" where
  "EffectiveLoadFactor a =
     (case acc_LoadFactor a of
        Some n \<Rightarrow> if 0 < n then n else if 0 < acc_Concurrency a then acc_Concurrency a else 1
      | None \<Rightarrow> if 0 < acc_Concurrency a then acc_Concurrency a else 1)"

text \<open>\<open>images-basic\<close> and \<open>images-native\<close>; any other capability is none.\<close>

definition SupportsOpenAIImageCapability :: "Account \<Rightarrow> string \<Rightarrow> bool" where
  "SupportsOpenAIImageCapability a capability \<longleftrightarrow>
     IsOpenAI a \<and>
     (capability \<in> {''images-basic'', ''images-native''} \<longrightarrow> acc_Type a = AccountTypeOAuth \<or> acc_Type a = AccountTypeAPIKey)"

section \<open>Quotas\<close>

definition nextFixedDailyReset :: "int \<Rightarrow> zone \<Rightarrow> instant \<Rightarrow> instant" where
  "nextFixedDailyReset hour tz after =
     (let today = Date tz (days (local_time tz after div days 1) + hours hour)
      in if \<not> after < today then AddDate tz today 1 else today)"

definition lastFixedDailyReset :: "int \<Rightarrow> zone \<Rightarrow> instant \<Rightarrow> instant" where
  "lastFixedDailyReset hour tz now =
     (let today = Date tz (days (local_time tz now div days 1) + hours hour)
      in if now < today then AddDate tz today (- 1) else today)"

text \<open>Go's remainder has the sign of the dividend.\<close>

definition go_rem :: "int \<Rightarrow> int \<Rightarrow> int" where
  "go_rem x y = x - y * trunc_div x y"

definition nextFixedWeeklyReset :: "int \<Rightarrow> int \<Rightarrow> zone \<Rightarrow> instant \<Rightarrow> instant" where
  "nextFixedWeeklyReset day hour tz after =
     (let todayReset = Date tz (days (local_time tz after div days 1) + hours hour);
          forward = go_rem (day - weekday_at tz todayReset + 7) 7
      in AddDate tz todayReset (if forward = 0 \<and> \<not> after < todayReset then 7 else forward))"

definition lastFixedWeeklyReset :: "int \<Rightarrow> int \<Rightarrow> zone \<Rightarrow> instant \<Rightarrow> instant" where
  "lastFixedWeeklyReset day hour tz now =
     (let todayReset = Date tz (days (local_time tz now div days 1) + hours hour);
          back = go_rem (weekday_at tz todayReset - day + 7) 7
      in AddDate tz todayReset (- (if back = 0 \<and> now < todayReset then 7 else back)))"

definition GetQuotaResetTimezone :: "Account \<Rightarrow> string" where
  "GetQuotaResetTimezone a = getExtraStringDefault a ''quota_reset_timezone'' ''UTC''"

definition GetQuotaWeeklyResetDay :: "Account \<Rightarrow> int" where
  "GetQuotaWeeklyResetDay a = (case extra a ''quota_weekly_reset_day'' of None \<Rightarrow> 1 | Some _ \<Rightarrow> getExtraInt a ''quota_weekly_reset_day'')"

text \<open>The time zone database is a parameter.\<close>

definition isFixedDailyPeriodExpired :: "(string \<Rightarrow> zone option) \<Rightarrow> instant \<Rightarrow> Account \<Rightarrow> instant \<Rightarrow> bool" where
  "isFixedDailyPeriodExpired tzdb now a periodStart \<longleftrightarrow>
     periodStart = zero_time \<or>
     periodStart < lastFixedDailyReset (getExtraInt a ''quota_daily_reset_hour'') (option_or (tzdb (GetQuotaResetTimezone a)) UTC) now"

definition isFixedWeeklyPeriodExpired :: "(string \<Rightarrow> zone option) \<Rightarrow> instant \<Rightarrow> Account \<Rightarrow> instant \<Rightarrow> bool" where
  "isFixedWeeklyPeriodExpired tzdb now a periodStart \<longleftrightarrow>
     periodStart = zero_time \<or>
     periodStart < lastFixedWeeklyReset (GetQuotaWeeklyResetDay a) (getExtraInt a ''quota_weekly_reset_hour'')
       (option_or (tzdb (GetQuotaResetTimezone a)) UTC) now"

definition isPeriodExpired :: "instant \<Rightarrow> instant \<Rightarrow> duration \<Rightarrow> bool" where
  "isPeriodExpired now periodStart dur \<longleftrightarrow> periodStart = zero_time \<or> dur \<le> now - periodStart"

definition IsDailyQuotaPeriodExpired :: "(string \<Rightarrow> zone option) \<Rightarrow> instant \<Rightarrow> Account \<Rightarrow> bool" where
  "IsDailyQuotaPeriodExpired tzdb now a \<longleftrightarrow>
     (let start = getExtraTime a ''quota_daily_start''
      in if GetExtraString a ''quota_daily_reset_mode'' = ''fixed'' then isFixedDailyPeriodExpired tzdb now a start
         else isPeriodExpired now start (days 1))"

definition IsWeeklyQuotaPeriodExpired :: "(string \<Rightarrow> zone option) \<Rightarrow> instant \<Rightarrow> Account \<Rightarrow> bool" where
  "IsWeeklyQuotaPeriodExpired tzdb now a \<longleftrightarrow>
     (let start = getExtraTime a ''quota_weekly_start''
      in if GetExtraString a ''quota_weekly_reset_mode'' = ''fixed'' then isFixedWeeklyPeriodExpired tzdb now a start
         else isPeriodExpired now start (days 7))"

definition IsQuotaExceeded :: "(string \<Rightarrow> zone option) \<Rightarrow> instant \<Rightarrow> Account \<Rightarrow> bool" where
  "IsQuotaExceeded tzdb now a \<longleftrightarrow>
     (0 < getExtraFloat64 a ''quota_limit'' \<and> getExtraFloat64 a ''quota_limit'' \<le> getExtraFloat64 a ''quota_used'') \<or>
     (0 < getExtraFloat64 a ''quota_daily_limit'' \<and> \<not> IsDailyQuotaPeriodExpired tzdb now a \<and>
      getExtraFloat64 a ''quota_daily_limit'' \<le> getExtraFloat64 a ''quota_daily_used'') \<or>
     (0 < getExtraFloat64 a ''quota_weekly_limit'' \<and> \<not> IsWeeklyQuotaPeriodExpired tzdb now a \<and>
      getExtraFloat64 a ''quota_weekly_limit'' \<le> getExtraFloat64 a ''quota_weekly_used'')"

definition HasAnyQuotaLimit :: "Account \<Rightarrow> bool" where
  "HasAnyQuotaLimit a \<longleftrightarrow>
     0 < getExtraFloat64 a ''quota_limit'' \<or> 0 < getExtraFloat64 a ''quota_daily_limit'' \<or> 0 < getExtraFloat64 a ''quota_weekly_limit''"

section \<open>Scheduling\<close>

definition pending_until :: "instant \<Rightarrow> instant option \<Rightarrow> bool" where
  "pending_until now t \<longleftrightarrow> (case t of None \<Rightarrow> False | Some u \<Rightarrow> now < u)"

definition IsSchedulable :: "(string \<Rightarrow> zone option) \<Rightarrow> instant \<Rightarrow> Account \<Rightarrow> bool" where
  "IsSchedulable tzdb now a \<longleftrightarrow>
     (if \<not> IsActive_Account a \<or> \<not> acc_Schedulable a then False
      else if acc_AutoPauseOnExpired a \<and> acc_ExpiresAt a \<noteq> None \<and> \<not> pending_until now (acc_ExpiresAt a) then False
      else if pending_until now (acc_OverloadUntil a) then False
      else if pending_until now (acc_RateLimitResetAt a) then False
      else if pending_until now (acc_TempUnschedulableUntil a) then False
      else \<not> (IsAPIKeyOrBedrock a \<and> IsQuotaExceeded tzdb now a))"

definition IsRateLimited :: "instant \<Rightarrow> Account \<Rightarrow> bool" where
  "IsRateLimited now a \<longleftrightarrow> pending_until now (acc_RateLimitResetAt a)"

definition IsOverloaded :: "instant \<Rightarrow> Account \<Rightarrow> bool" where
  "IsOverloaded now a \<longleftrightarrow> pending_until now (acc_OverloadUntil a)"

datatype WindowCostSchedulability = WindowCostSchedulable | WindowCostStickyOnly | WindowCostNotSchedulable

definition GetWindowCostStickyReserve :: "Account \<Rightarrow> float64" where
  "GetWindowCostStickyReserve a =
     (let v = getExtraFloat64 a ''window_cost_sticky_reserve'' in if 0 < v then v else Fin 10)"

definition CheckWindowCostSchedulability :: "Account \<Rightarrow> float64 \<Rightarrow> WindowCostSchedulability" where
  "CheckWindowCostSchedulability a cost =
     (let limit = getExtraFloat64 a ''window_cost_limit''
      in if limit \<le> 0 then WindowCostSchedulable
         else if cost < limit then WindowCostSchedulable
         else if cost < limit + GetWindowCostStickyReserve a then WindowCostStickyOnly
         else WindowCostNotSchedulable)"

definition GetMaxSessions :: "Account \<Rightarrow> int" where
  "GetMaxSessions a = parseExtraInt (extra a ''max_sessions'')"

definition GetSessionIdleTimeoutMinutes :: "Account \<Rightarrow> int" where
  "GetSessionIdleTimeoutMinutes a =
     (let v = parseExtraInt (extra a ''session_idle_timeout_minutes'') in if 0 < v then v else 5)"

definition GetBaseRPM :: "Account \<Rightarrow> int" where
  "GetBaseRPM a = max 0 (parseExtraInt (extra a ''base_rpm''))"

definition GetRPMStrategy :: "Account \<Rightarrow> string" where
  "GetRPMStrategy a = (if GetExtraString a ''rpm_strategy'' = ''sticky_exempt'' then ''sticky_exempt'' else ''tiered'')"

definition GetRPMStickyBuffer :: "Account \<Rightarrow> int" where
  "GetRPMStickyBuffer a =
     (let manual = parseExtraInt (extra a ''rpm_sticky_buffer''); base = GetBaseRPM a
      in if 0 < manual then manual
         else if base \<le> 0 then 0
         else max (max 0 (acc_Concurrency a) + max 0 (GetMaxSessions a)) (max 1 (base div 5)))"

definition CheckRPMSchedulability :: "Account \<Rightarrow> int \<Rightarrow> WindowCostSchedulability" where
  "CheckRPMSchedulability a currentRPM =
     (let base = GetBaseRPM a
      in if base \<le> 0 then WindowCostSchedulable
         else if currentRPM < base then WindowCostSchedulable
         else if GetRPMStrategy a = ''sticky_exempt'' then WindowCostStickyOnly
         else if currentRPM < base + GetRPMStickyBuffer a then WindowCostStickyOnly
         else WindowCostNotSchedulable)"

text \<open>The start of the current window: the recorded one, or the full hour.\<close>

definition GetCurrentWindowStartTime :: "zone \<Rightarrow> instant \<Rightarrow> Account \<Rightarrow> instant" where
  "GetCurrentWindowStartTime tz now a =
     (case (acc_SessionWindowStart a, acc_SessionWindowEnd a) of
        (Some s, Some e) \<Rightarrow> if now < e then s else Date tz (hours (local_time tz now div hours 1))
      | _ \<Rightarrow> Date tz (hours (local_time tz now div hours 1)))"

section \<open>Errors of the upstream\<close>

record TempUnschedulableRule =
  tr_ErrorCode :: int
  tr_Keywords :: "string list"
  tr_DurationMinutes :: int
  tr_Description :: string

definition IsTempUnschedulableEnabled :: "Account \<Rightarrow> bool" where
  "IsTempUnschedulableEnabled a \<longleftrightarrow> credential_flag a ''temp_unschedulable_enabled''"

definition parseTempUnschedString :: "any option \<Rightarrow> string" where
  "parseTempUnschedString v = (case get_string v of Some s \<Rightarrow> TrimSpace s | None \<Rightarrow> '''')"

definition parseTempUnschedStrings :: "any option \<Rightarrow> string list" where
  "parseTempUnschedStrings v =
     filter (\<lambda>s. s \<noteq> '''') (map TrimSpace
       (case v of
          Some (AStrings ss) \<Rightarrow> ss
        | Some (AList vs) \<Rightarrow> List.map_filter (\<lambda>x. get_string (Some x)) vs
        | _ \<Rightarrow> []))"

definition temp_rule :: "any \<Rightarrow> TempUnschedulableRule option" where
  "temp_rule v =
     (case v of
        AMap entry \<Rightarrow>
          let rule = \<lparr>tr_ErrorCode = parseExtraInt (map_of entry ''error_code''),
                      tr_Keywords = parseTempUnschedStrings (map_of entry ''keywords''),
                      tr_DurationMinutes = parseExtraInt (map_of entry ''duration_minutes''),
                      tr_Description = parseTempUnschedString (map_of entry ''description'')\<rparr>
          in if tr_ErrorCode rule \<le> 0 \<or> tr_DurationMinutes rule \<le> 0 \<or> tr_Keywords rule = [] then None else Some rule
      | _ \<Rightarrow> None)"

definition GetTempUnschedulableRules :: "Account \<Rightarrow> TempUnschedulableRule list" where
  "GetTempUnschedulableRules a =
     (case credential a ''temp_unschedulable_rules'' of
        Some (AList vs) \<Rightarrow> List.map_filter temp_rule vs
      | _ \<Rightarrow> [])"

definition IsCustomErrorCodesEnabled :: "Account \<Rightarrow> bool" where
  "IsCustomErrorCodesEnabled a \<longleftrightarrow> acc_Type a = AccountTypeAPIKey \<and> credential_flag a ''custom_error_codes_enabled''"

definition GetCustomErrorCodes :: "Account \<Rightarrow> int list" where
  "GetCustomErrorCodes a =
     (case credential a ''custom_error_codes'' of
        Some (AList vs) \<Rightarrow> List.map_filter (\<lambda>v. case v of AFloat x \<Rightarrow> Some (int_of_float x) | _ \<Rightarrow> None) vs
      | _ \<Rightarrow> [])"

definition ShouldHandleErrorCode :: "Account \<Rightarrow> int \<Rightarrow> bool" where
  "ShouldHandleErrorCode a statusCode \<longleftrightarrow>
     \<not> IsCustomErrorCodesEnabled a \<or> GetCustomErrorCodes a = [] \<or> statusCode \<in> set (GetCustomErrorCodes a)"

definition IsPoolMode :: "Account \<Rightarrow> bool" where
  "IsPoolMode a \<longleftrightarrow> IsAPIKeyOrBedrock a \<and> credential_flag a ''pool_mode''"

definition defaultPoolModeRetryCount :: int where "defaultPoolModeRetryCount = 3"

definition maxPoolModeRetryCount :: int where "maxPoolModeRetryCount = 10"

definition GetPoolModeRetryCount :: "Account \<Rightarrow> int" where
  "GetPoolModeRetryCount a =
     (if \<not> IsPoolMode a then defaultPoolModeRetryCount
      else case credential a ''pool_mode_retry_count'' of
             None \<Rightarrow> defaultPoolModeRetryCount
           | v \<Rightarrow> let count = option_or (any_int v) defaultPoolModeRetryCount
                  in if count < 0 then 0 else if maxPoolModeRetryCount < count then maxPoolModeRetryCount else count)"

definition isPoolModeRetryableStatus :: "int \<Rightarrow> bool" where
  "isPoolModeRetryableStatus statusCode \<longleftrightarrow> statusCode \<in> {401, 403, 429}"

definition IsInterceptWarmupEnabled :: "Account \<Rightarrow> bool" where
  "IsInterceptWarmupEnabled a \<longleftrightarrow> credential_flag a ''intercept_warmup_requests''"

section \<open>Transports and compact requests\<close>

definition OpenAICompactModeAuto :: string where "OpenAICompactModeAuto = ''auto''"

definition OpenAICompactModeForceOn :: string where "OpenAICompactModeForceOn = ''force_on''"

definition OpenAICompactModeForceOff :: string where "OpenAICompactModeForceOff = ''force_off''"

definition normalizeOpenAICompactMode :: "string \<Rightarrow> string" where
  "normalizeOpenAICompactMode mode =
     (let m = ToLower (TrimSpace mode)
      in if m \<in> {OpenAICompactModeForceOn, OpenAICompactModeForceOff} then m else OpenAICompactModeAuto)"

definition GetOpenAICompactMode :: "Account \<Rightarrow> string" where
  "GetOpenAICompactMode a =
     (if \<not> IsOpenAI a then OpenAICompactModeAuto else normalizeOpenAICompactMode (GetExtraString a ''openai_compact_mode''))"

text \<open>\<open>None\<close> where it is not known.\<close>

definition OpenAICompactSupportKnown :: "Account \<Rightarrow> bool option" where
  "OpenAICompactSupportKnown a =
     (if \<not> IsOpenAI a then None
      else if GetOpenAICompactMode a = OpenAICompactModeForceOn then Some True
      else if GetOpenAICompactMode a = OpenAICompactModeForceOff then Some False
      else get_bool (extra a ''openai_compact_supported''))"

definition AllowsOpenAICompact :: "Account \<Rightarrow> bool" where
  "AllowsOpenAICompact a \<longleftrightarrow> IsOpenAI a \<and> option_or (OpenAICompactSupportKnown a) True"

definition openAICompactSupportTier :: "Account \<Rightarrow> nat" where
  "openAICompactSupportTier a =
     (if \<not> IsOpenAI a then 0
      else case OpenAICompactSupportKnown a of None \<Rightarrow> 1 | Some supported \<Rightarrow> if supported then 2 else 0)"

definition first_bool :: "Account \<Rightarrow> string list \<Rightarrow> bool option" where
  "first_bool a keys = (case List.map_filter (\<lambda>k. get_bool (extra a k)) keys of [] \<Rightarrow> None | b # _ \<Rightarrow> Some b)"

text \<open>The keys of the switch, by type of account; the last two are old names.\<close>

definition ws_keys :: "Account \<Rightarrow> string list" where
  "ws_keys a =
     (if IsOpenAIOAuth a then [''openai_oauth_responses_websockets_v2_enabled''] else []) @
     (if IsOpenAIApiKey a then [''openai_apikey_responses_websockets_v2_enabled''] else []) @
     [''responses_websockets_v2_enabled'', ''openai_ws_enabled'']"

definition IsOpenAIResponsesWebSocketV2Enabled :: "Account \<Rightarrow> bool" where
  "IsOpenAIResponsesWebSocketV2Enabled a \<longleftrightarrow> IsOpenAI a \<and> option_or (first_bool a (ws_keys a)) False"

definition ws_modes :: "string list" where
  "ws_modes = [''off'', ''ctx_pool'', ''passthrough'', ''shared'', ''dedicated'']"

definition normalizeOpenAIWSIngressMode :: "string \<Rightarrow> string" where
  "normalizeOpenAIWSIngressMode mode = (let m = ToLower (TrimSpace mode) in if m \<in> set ws_modes then m else '''')"

definition normalizeOpenAIWSIngressDefaultMode :: "string \<Rightarrow> string" where
  "normalizeOpenAIWSIngressDefaultMode mode =
     (let m = normalizeOpenAIWSIngressMode mode in if m \<in> {'''', ''shared'', ''dedicated''} then ''ctx_pool'' else m)"

definition ws_mode_string :: "Account \<Rightarrow> string \<Rightarrow> string option" where
  "ws_mode_string a key =
     (case get_string (extra a key) of
        None \<Rightarrow> None
      | Some s \<Rightarrow> if normalizeOpenAIWSIngressMode s = '''' then None else Some (normalizeOpenAIWSIngressMode s))"

definition ws_mode_bool :: "Account \<Rightarrow> string \<Rightarrow> string option" where
  "ws_mode_bool a key = map_option (\<lambda>b. if b then ''ctx_pool'' else ''off'') (get_bool (extra a key))"

definition ResolveOpenAIResponsesWebSocketV2Mode :: "Account \<Rightarrow> string \<Rightarrow> string" where
  "ResolveOpenAIResponsesWebSocketV2Mode a default_mode =
     (if \<not> IsOpenAI a then ''off''
      else case List.map_filter (\<lambda>r. r)
          ((if IsOpenAIOAuth a then [ws_mode_string a ''openai_oauth_responses_websockets_v2_mode'',
                ws_mode_bool a ''openai_oauth_responses_websockets_v2_enabled''] else []) @
           (if IsOpenAIApiKey a then [ws_mode_string a ''openai_apikey_responses_websockets_v2_mode'',
                ws_mode_bool a ''openai_apikey_responses_websockets_v2_enabled''] else []) @
           [ws_mode_bool a ''responses_websockets_v2_enabled'', ws_mode_bool a ''openai_ws_enabled'']) of
             m # _ \<Rightarrow> m
           | [] \<Rightarrow> normalizeOpenAIWSIngressDefaultMode default_mode)"

definition IsOpenAIWSForceHTTPEnabled :: "Account \<Rightarrow> bool" where
  "IsOpenAIWSForceHTTPEnabled a \<longleftrightarrow> IsOpenAI a \<and> getExtraBool a ''openai_ws_force_http''"

datatype OpenAIUpstreamTransport = TransportAny | TransportHTTPSSE | TransportResponsesWebsocket | TransportResponsesWebsocketV2

record openai_ws_config =
  ws_ForceHTTP :: bool
  ws_Enabled :: bool
  ws_OAuthEnabled :: bool
  ws_APIKeyEnabled :: bool
  ws_ModeRouterV2Enabled :: bool
  ws_IngressModeDefault :: string
  ws_ResponsesWebsockets :: bool
  ws_ResponsesWebsocketsV2 :: bool

definition ws_version :: "openai_ws_config \<Rightarrow> OpenAIUpstreamTransport" where
  "ws_version cfg =
     (if ws_ResponsesWebsocketsV2 cfg then TransportResponsesWebsocketV2
      else if ws_ResponsesWebsockets cfg then TransportResponsesWebsocket
      else TransportHTTPSSE)"

text \<open>The protocol resolver, without the reason it gives; without a configuration it answers HTTP.\<close>

definition Resolve_transport :: "openai_ws_config option \<Rightarrow> Account \<Rightarrow> OpenAIUpstreamTransport" where
  "Resolve_transport config a =
     (if \<not> IsOpenAI a \<or> IsOpenAIWSForceHTTPEnabled a then TransportHTTPSSE
      else case config of
        None \<Rightarrow> TransportHTTPSSE
      | Some cfg \<Rightarrow>
          if ws_ForceHTTP cfg \<or> \<not> ws_Enabled cfg then TransportHTTPSSE
          else if IsOpenAIOAuth a \<and> \<not> ws_OAuthEnabled cfg then TransportHTTPSSE
          else if \<not> IsOpenAIOAuth a \<and> IsOpenAIApiKey a \<and> \<not> ws_APIKeyEnabled cfg then TransportHTTPSSE
          else if \<not> IsOpenAIOAuth a \<and> \<not> IsOpenAIApiKey a then TransportHTTPSSE
          else if ws_ModeRouterV2Enabled cfg
          then (let mode = ResolveOpenAIResponsesWebSocketV2Mode a (ws_IngressModeDefault cfg)
                in if mode \<notin> {''ctx_pool'', ''passthrough'', ''shared'', ''dedicated''} then TransportHTTPSSE
                   else if acc_Concurrency a \<le> 0 then TransportHTTPSSE
                   else ws_version cfg)
          else if \<not> IsOpenAIResponsesWebSocketV2Enabled a then TransportHTTPSSE
          else ws_version cfg)"

section \<open>Models\<close>

type_synonym model_mapping = "(string \<times> string) list"

definition string_entries :: "document \<Rightarrow> model_mapping" where
  "string_entries m = List.map_filter (\<lambda>(k, v). map_option (Pair k) (get_string (Some v))) m"

definition matchWildcard_model :: "string \<Rightarrow> string \<Rightarrow> bool" where
  "matchWildcard_model pattern s \<longleftrightarrow> (if HasSuffix pattern ''*'' then HasPrefix s (butlast pattern) else pattern = s)"

text \<open>A map without entries is nil or behaves so.\<close>

definition stringMappingFromRaw :: "any option \<Rightarrow> model_mapping" where
  "stringMappingFromRaw v = (case v of Some (AMap m) \<Rightarrow> string_entries m | _ \<Rightarrow> [])"

definition DefaultAntigravityModelMapping :: model_mapping where
  "DefaultAntigravityModelMapping =
     map (\<lambda>m. (m, m)) [''claude-opus-4-7'', ''claude-opus-4-6-thinking'', ''claude-sonnet-4-6'', ''claude-sonnet-4-5'',
       ''claude-sonnet-4-5-thinking'', ''gemini-2.5-flash'', ''gemini-2.5-flash-image'', ''gemini-2.5-flash-lite'',
       ''gemini-2.5-flash-thinking'', ''gemini-2.5-pro'', ''gemini-3-flash'', ''gemini-3-pro-high'', ''gemini-3-pro-low'',
       ''gemini-3.1-pro-high'', ''gemini-3.1-pro-low'', ''gemini-3.1-flash-image'', ''gpt-oss-120b-medium'', ''tab_flash_lite_preview''] @
     [(''claude-opus-4-6'', ''claude-opus-4-6-thinking''), (''claude-opus-4-5-thinking'', ''claude-opus-4-6-thinking''),
      (''claude-opus-4-5-20251101'', ''claude-opus-4-6-thinking''), (''claude-sonnet-4-5-20250929'', ''claude-sonnet-4-5''),
      (''claude-haiku-4-5'', ''claude-sonnet-4-6''), (''claude-haiku-4-5-20251001'', ''claude-sonnet-4-6''),
      (''gemini-2.5-flash-image-preview'', ''gemini-2.5-flash-image''), (''gemini-3-flash-preview'', ''gemini-3-flash''),
      (''gemini-3-pro-preview'', ''gemini-3-pro-high''), (''gemini-3.1-pro-preview'', ''gemini-3.1-pro-high''),
      (''gemini-3.1-flash-image-preview'', ''gemini-3.1-flash-image''), (''gemini-3-pro-image'', ''gemini-3.1-flash-image''),
      (''gemini-3-pro-image-preview'', ''gemini-3.1-flash-image'')]"

definition ensureAntigravityDefaultPassthrough :: "string \<Rightarrow> model_mapping \<Rightarrow> model_mapping" where
  "ensureAntigravityDefaultPassthrough model mapping =
     (if model = '''' \<or> map_of mapping model \<noteq> None \<or> list_ex (\<lambda>(p, _). matchWildcard_model p model) mapping then mapping
      else mapping @ [(model, model)])"

definition ensureAntigravityDefaultPassthroughs :: "string list \<Rightarrow> model_mapping \<Rightarrow> model_mapping" where
  "ensureAntigravityDefaultPassthroughs models mapping = fold ensureAntigravityDefaultPassthrough models mapping"

definition resolveModelMapping :: "Account \<Rightarrow> model_mapping" where
  "resolveModelMapping a =
     (let result = (case credential a ''model_mapping'' of Some (AMap m) \<Rightarrow> string_entries m | _ \<Rightarrow> [])
      in if acc_Platform a = PlatformAntigravity
         then if result = [] then DefaultAntigravityModelMapping
              else ensureAntigravityDefaultPassthroughs [''gemini-3-flash'', ''gemini-3.1-pro-high'', ''gemini-3.1-pro-low''] result
         else result)"

definition normalizeRequestedModelForLookup :: "string \<Rightarrow> string \<Rightarrow> string" where
  "normalizeRequestedModelForLookup platform requestedModel =
     (let trimmed = TrimSpace requestedModel
      in if trimmed = '''' then ''''
         else if platform \<noteq> PlatformGemini \<and> platform \<noteq> PlatformAntigravity then trimmed
         else if trimmed = ''gemini-3.1-pro-preview-customtools'' then ''gemini-3.1-pro-preview'' else trimmed)"

definition mappingSupportsRequestedModel :: "model_mapping \<Rightarrow> string \<Rightarrow> bool" where
  "mappingSupportsRequestedModel mapping requestedModel \<longleftrightarrow>
     requestedModel \<noteq> '''' \<and>
     (map_of mapping requestedModel \<noteq> None \<or> list_ex (\<lambda>(p, _). matchWildcard_model p requestedModel) mapping)"

text \<open>The longest pattern first; patterns of the same length by their texts.\<close>

definition pattern_key :: "string \<times> string \<Rightarrow> int \<times> string" where
  "pattern_key e = (- int (length (fst e)), fst e)"

definition matchWildcardMappingResult :: "model_mapping \<Rightarrow> string \<Rightarrow> string option" where
  "matchWildcardMappingResult mapping requestedModel =
     (case sort_key pattern_key (filter (\<lambda>e. matchWildcard_model (fst e) requestedModel) mapping) of
        [] \<Rightarrow> None
      | e # _ \<Rightarrow> Some (snd e))"

text \<open>\<open>None\<close> where nothing matched; the code then returns the model it was asked for, or nothing.\<close>

definition resolveRequestedModelInMapping :: "model_mapping \<Rightarrow> string \<Rightarrow> string option" where
  "resolveRequestedModelInMapping mapping requestedModel =
     (if requestedModel = '''' then None
      else case map_of mapping requestedModel of
             Some m \<Rightarrow> Some m
           | None \<Rightarrow> matchWildcardMappingResult mapping requestedModel)"

definition IsModelSupported :: "Account \<Rightarrow> string \<Rightarrow> bool" where
  "IsModelSupported a requestedModel \<longleftrightarrow>
     (let mapping = resolveModelMapping a; normalized = normalizeRequestedModelForLookup (acc_Platform a) requestedModel
      in mapping = [] \<or> mappingSupportsRequestedModel mapping requestedModel \<or>
         normalized \<noteq> requestedModel \<and> mappingSupportsRequestedModel mapping normalized)"

definition ResolveMappedModel :: "Account \<Rightarrow> string \<Rightarrow> string \<times> bool" where
  "ResolveMappedModel a requestedModel =
     (let mapping = resolveModelMapping a; normalized = normalizeRequestedModelForLookup (acc_Platform a) requestedModel
      in if mapping = [] then (requestedModel, False)
         else case resolveRequestedModelInMapping mapping requestedModel of
                Some m \<Rightarrow> (m, True)
              | None \<Rightarrow>
                  if normalized = requestedModel then (requestedModel, False)
                  else (case resolveRequestedModelInMapping mapping normalized of
                          Some m \<Rightarrow> (m, True)
                        | None \<Rightarrow> (requestedModel, False)))"

definition GetMappedModel :: "Account \<Rightarrow> string \<Rightarrow> string" where
  "GetMappedModel a requestedModel = fst (ResolveMappedModel a requestedModel)"

definition ResolveCompactMappedModel :: "Account \<Rightarrow> string \<Rightarrow> string \<times> bool" where
  "ResolveCompactMappedModel a requestedModel =
     (case resolveRequestedModelInMapping (stringMappingFromRaw (credential a ''compact_model_mapping'')) requestedModel of
        Some m \<Rightarrow> (m, True)
      | None \<Rightarrow> (requestedModel, False))"

section \<open>Rate limits of models\<close>

text \<open>Antigravity accounts use the mapping as a list of what they support; the suffix of thinking models depends on
  the request and is left out, as the background contexts of the callers here do not carry it.\<close>

definition mapAntigravityModel :: "Account \<Rightarrow> string \<Rightarrow> string" where
  "mapAntigravityModel a requestedModel =
     (if resolveModelMapping a = [] then ''''
      else if GetMappedModel a requestedModel \<noteq> requestedModel then GetMappedModel a requestedModel
      else if IsModelSupported a requestedModel then requestedModel else '''')"

definition modelRateLimitResetAt :: "Account \<Rightarrow> string \<Rightarrow> instant option" where
  "modelRateLimitResetAt a scope =
     (if scope = '''' then None
      else case extra a ''model_rate_limits'' of
             Some (AMap limits) \<Rightarrow>
               (case map_of limits scope of
                  Some (AMap limit) \<Rightarrow>
                    (case get_string (map_of limit ''rate_limit_reset_at'') of
                       Some s \<Rightarrow> if TrimSpace s = '''' then None else ParseRFC3339 s
                     | None \<Rightarrow> None)
                | _ \<Rightarrow> None)
           | _ \<Rightarrow> None)"

definition rate_limit_key :: "Account \<Rightarrow> string \<Rightarrow> string" where
  "rate_limit_key a requestedModel =
     TrimSpace (if acc_Platform a = PlatformAntigravity then mapAntigravityModel a requestedModel else GetMappedModel a requestedModel)"

definition GetModelRateLimitRemainingTime :: "instant \<Rightarrow> Account \<Rightarrow> string \<Rightarrow> duration" where
  "GetModelRateLimitRemainingTime now a requestedModel =
     (let key = rate_limit_key a requestedModel
      in if key = '''' then 0
         else case modelRateLimitResetAt a key of None \<Rightarrow> 0 | Some t \<Rightarrow> max 0 (t - now))"

definition isModelRateLimited :: "instant \<Rightarrow> Account \<Rightarrow> string \<Rightarrow> bool" where
  "isModelRateLimited now a requestedModel \<longleftrightarrow>
     (let key = rate_limit_key a requestedModel in key \<noteq> '''' \<and> pending_until now (modelRateLimitResetAt a key))"

section \<open>Configuration of resets\<close>

definition hour_or_0 :: "int \<Rightarrow> int" where
  "hour_or_0 h = (if h < 0 \<or> 23 < h then 0 else h)"

definition zone_setting :: "(string \<Rightarrow> zone option) \<Rightarrow> document \<Rightarrow> zone" where
  "zone_setting tzdb ex =
     (let name = option_or (get_string (map_of ex ''quota_reset_timezone'')) ''''
      in option_or (tzdb (if name = '''' then ''UTC'' else name)) UTC)"

text \<open>The instants that are written into the settings, \<open>None\<close> where the entry is removed.\<close>

definition ComputeQuotaResetAt :: "(string \<Rightarrow> zone option) \<Rightarrow> instant \<Rightarrow> document \<Rightarrow> instant option \<times> instant option" where
  "ComputeQuotaResetAt tzdb now ex =
     (let tz = zone_setting tzdb ex;
          setting = (\<lambda>key. int_of_float (option_or (any_float (map_of ex key)) 0));
          day0 = (if map_of ex ''quota_weekly_reset_day'' = None then 1 else setting ''quota_weekly_reset_day'');
          day = (if day0 < 0 \<or> 6 < day0 then 1 else day0)
      in (if get_string (map_of ex ''quota_daily_reset_mode'') = Some ''fixed''
          then Some (nextFixedDailyReset (hour_or_0 (setting ''quota_daily_reset_hour'')) tz now) else None,
          if get_string (map_of ex ''quota_weekly_reset_mode'') = Some ''fixed''
          then Some (nextFixedWeeklyReset day (hour_or_0 (setting ''quota_weekly_reset_hour'')) tz now) else None))"

definition setting_between :: "document \<Rightarrow> string \<Rightarrow> int \<Rightarrow> bool" where
  "setting_between ex key hi \<longleftrightarrow>
     (case map_of ex key of
        None \<Rightarrow> True
      | v \<Rightarrow> let n = int_of_float (option_or (any_float v) 0) in 0 \<le> n \<and> n \<le> hi)"

definition mode_valid :: "document \<Rightarrow> string \<Rightarrow> bool" where
  "mode_valid ex key \<longleftrightarrow>
     (case get_string (map_of ex key) of None \<Rightarrow> True | Some m \<Rightarrow> m \<in> {''rolling'', ''fixed''})"

definition ValidateQuotaResetConfig :: "(string \<Rightarrow> zone option) \<Rightarrow> document \<Rightarrow> bool" where
  "ValidateQuotaResetConfig tzdb ex \<longleftrightarrow>
     (case get_string (map_of ex ''quota_reset_timezone'') of None \<Rightarrow> True | Some tz \<Rightarrow> tz = '''' \<or> tzdb tz \<noteq> None) \<and>
     mode_valid ex ''quota_daily_reset_mode'' \<and> setting_between ex ''quota_daily_reset_hour'' 23 \<and>
     mode_valid ex ''quota_weekly_reset_mode'' \<and> setting_between ex ''quota_weekly_reset_day'' 6 \<and>
     setting_between ex ''quota_weekly_reset_hour'' 23"

section \<open>How models are mapped\<close>

lemma pattern_key_inj: "pattern_key d = pattern_key e \<Longrightarrow> fst d = fst e"
  unfolding pattern_key_def prod.inject by (rule conjunct2)

lemma sort_key_Nil [simp]: "sort_key f xs = [] \<longleftrightarrow> xs = []"
  by (simp flip: length_0_conv)

lemma hd_sort_key:
  assumes "xs \<noteq> []"
  shows "hd (sort_key f xs) \<in> set xs" "\<forall>x \<in> set xs. f (hd (sort_key f xs)) \<le> f x"
proof -
  obtain y ys where y: "sort_key f xs = y # ys" using assms by (cases "sort_key f xs") auto
  have s: "set (y # ys) = set xs" using set_sort [of f xs] by (simp only: y)
  have "sorted (map f (y # ys))" using sorted_sort_key [of f xs] by (simp only: y)
  then have "\<forall>x \<in> set (y # ys). f y \<le> f x" by auto
  then show "\<forall>x \<in> set xs. f (hd (sort_key f xs)) \<le> f x" by (simp only: y s list.sel)
  have "y \<in> set (y # ys)" by simp
  then show "hd (sort_key f xs) \<in> set xs" by (simp only: y s list.sel)
qed

text \<open>A pattern of the mapping that matches and comes first among those that do.\<close>

definition first_match :: "model_mapping \<Rightarrow> string \<Rightarrow> string \<times> string \<Rightarrow> bool" where
  "first_match mapping model e \<longleftrightarrow>
     e \<in> set mapping \<and> matchWildcard_model (fst e) model \<and>
     (\<forall>d \<in> set mapping. matchWildcard_model (fst d) model \<longrightarrow>
        length (fst d) < length (fst e) \<or> length (fst d) = length (fst e) \<and> fst e \<le> fst d)"

lemma pattern_key_le: "pattern_key e \<le> pattern_key d \<longleftrightarrow>
    length (fst d) < length (fst e) \<or> length (fst d) = length (fst e) \<and> fst e \<le> fst d"
  by (auto simp: pattern_key_def less_eq_prod_def)

lemma matchWildcardMappingResult_first:
  assumes "distinct (map fst mapping)"
  shows "matchWildcardMappingResult mapping model = Some m \<longleftrightarrow> (\<exists>p. first_match mapping model (p, m))"
proof -
  define ms where "ms = filter (\<lambda>e. matchWildcard_model (fst e) model) mapping"
  show ?thesis
  proof (cases "ms = []")
    case True
    then have "matchWildcardMappingResult mapping model = None" by (simp add: matchWildcardMappingResult_def ms_def)
    moreover have "\<not> first_match mapping model e" for e using True by (auto simp: first_match_def ms_def filter_empty_conv)
    ultimately show ?thesis by simp
  next
    case False
    define e where "e = hd (sort_key pattern_key ms)"
    have e: "e \<in> set ms" "\<forall>d \<in> set ms. pattern_key e \<le> pattern_key d" unfolding e_def using hd_sort_key [OF False] by blast+
    obtain es where "sort_key pattern_key ms = e # es" using False by (cases "sort_key pattern_key ms") (auto simp: e_def)
    then have r: "matchWildcardMappingResult mapping model = Some (snd e)" by (simp add: matchWildcardMappingResult_def ms_def)
    have f: "first_match mapping model d \<longleftrightarrow> d \<in> set ms \<and> (\<forall>d' \<in> set ms. pattern_key d \<le> pattern_key d')" for d
      by (auto simp: first_match_def ms_def pattern_key_le)
    have u: "d = e" if "first_match mapping model d" for d
    proof -
      have d: "d \<in> set ms" "\<forall>d' \<in> set ms. pattern_key d \<le> pattern_key d'" using that unfolding f by blast+
      then have "pattern_key d = pattern_key e" using e by (intro antisym) blast+
      then have "fst d = fst e" by (rule pattern_key_inj)
      moreover have "d \<in> set mapping" "e \<in> set mapping" using d(1) e(1) by (simp_all add: ms_def)
      ultimately show ?thesis using assms unfolding distinct_map by (blast dest: inj_onD)
    qed
    have m: "first_match mapping model (fst e, snd e)" using e f by simp
    have "(\<exists>p. first_match mapping model (p, m)) \<longleftrightarrow> snd e = m"
    proof
      assume "\<exists>p. first_match mapping model (p, m)"
      then obtain p where "(p, m) = e" using u by blast
      then show "snd e = m" by auto
    qed (use m in blast)
    then show ?thesis by (simp add: r)
  qed
qed

text \<open>C29. A requested model is mapped by the entry with its own name, otherwise by the longest matching pattern,
  of several by the first in the order of texts: the iteration order of the map of settings has no influence.
\<close>

theorem model_mapping_resolution:
  assumes "distinct (map fst mapping)" "requested \<noteq> ''''"
  shows "resolveRequestedModelInMapping mapping requested = Some m \<longleftrightarrow>
    (if requested \<in> fst ` set mapping then (requested, m) \<in> set mapping else \<exists>p. first_match mapping requested (p, m))"
proof (cases "map_of mapping requested")
  case None
  then have "requested \<notin> fst ` set mapping" by (simp add: map_of_eq_None_iff)
  then show ?thesis using None assms matchWildcardMappingResult_first [OF assms(1)] by (simp add: resolveRequestedModelInMapping_def)
next
  case (Some v)
  then have "requested \<in> fst ` set mapping" by (metis map_of_eq_None_iff option.distinct(1))
  moreover have "(requested, m) \<in> set mapping \<longleftrightarrow> v = m" using Some map_of_eq_Some_iff [OF assms(1), of requested m] by simp
  ultimately show ?thesis using Some assms(2) by (simp add: resolveRequestedModelInMapping_def)
qed

theorem model_mapping_resolution_witness:
  "resolveRequestedModelInMapping [(''claude-*'', ''a''), (''claude-opus-*'', ''b''), (''claude-haiku'', ''c'')] ''claude-opus-4'' = Some ''b''"
proof -
  have "first_match [(''claude-*'', ''a''), (''claude-opus-*'', ''b''), (''claude-haiku'', ''c'')] ''claude-opus-4'' (''claude-opus-*'', ''b'')"
    by (simp add: first_match_def matchWildcard_model_def HasSuffix_def HasPrefix_def suffix_def)
  then show ?thesis
    using model_mapping_resolution [of "[(''claude-*'', ''a''), (''claude-opus-*'', ''b''), (''claude-haiku'', ''c'')]" "''claude-opus-4''" "''b''"]
    by auto
qed

lemma matchWildcardMappingResult_None:
  "matchWildcardMappingResult mapping model = None \<longleftrightarrow> \<not> list_ex (\<lambda>(p, _). matchWildcard_model p model) mapping"
proof -
  have "matchWildcardMappingResult mapping model = None \<longleftrightarrow> filter (\<lambda>e. matchWildcard_model (fst e) model) mapping = []"
    using sort_key_Nil [of pattern_key "filter (\<lambda>e. matchWildcard_model (fst e) model) mapping"]
    unfolding matchWildcardMappingResult_def by (cases "sort_key pattern_key (filter (\<lambda>e. matchWildcard_model (fst e) model) mapping)") simp_all
  then show ?thesis by (auto simp: filter_empty_conv list_ex_iff)
qed

lemma mappingSupportsRequestedModel_iff:
  "mappingSupportsRequestedModel mapping model \<longleftrightarrow> resolveRequestedModelInMapping mapping model \<noteq> None"
  using matchWildcardMappingResult_None [of mapping model]
  by (auto simp: mappingSupportsRequestedModel_def resolveRequestedModelInMapping_def split: option.splits)

text \<open>C30. An account supports exactly the models that its mapping maps; the check before the scheduling and the
  mapping of the request after it agree.
\<close>

theorem IsModelSupported_iff: "IsModelSupported a model \<longleftrightarrow> resolveModelMapping a = [] \<or> snd (ResolveMappedModel a model)"
  by (auto simp: IsModelSupported_def ResolveMappedModel_def mappingSupportsRequestedModel_iff Let_def split: option.splits)

end
