(* ===== verification/QuotaPeriods.thy ===== *)
theory QuotaPeriods
  imports Account
begin

text \<open>
  The arithmetic of fixed resets (\<open>service/account.go\<close>): in a zone whose offset does not change, the last and
  the next reset around an instant are the ends of its slot in a regular division of time.
\<close>

section \<open>Slots\<close>

definition slot :: "duration \<Rightarrow> instant \<Rightarrow> instant \<Rightarrow> instant" where
  "slot P A t = P * ((t - A) div P) + A"

lemma slot_bounds: "0 < P \<Longrightarrow> slot P A t \<le> t \<and> t < slot P A t + P"
  using div_bounds [of P "t - A"] by (simp add: slot_def)

lemma slot_unique: "0 < P \<Longrightarrow> P * k + A \<le> t \<Longrightarrow> t < P * k + A + P \<Longrightarrow> slot P A t = P * k + A"
proof -
  assume a: "0 < P" "P * k + A \<le> t" "t < P * k + A + P"
  have "(t - A) div P = k" by (rule int_div_pos_eq [of _ _ _ "t - A - P * k"]) (use a in simp_all)
  then show ?thesis by (simp add: slot_def)
qed

lemma slot_mono: "0 < P \<Longrightarrow> s \<le> t \<Longrightarrow> slot P A s \<le> slot P A t"
  by (simp add: slot_def zdiv_mono1 mult_left_mono)

lemma slot_same: "0 < P \<Longrightarrow> slot P A s \<le> t \<Longrightarrow> t < slot P A s + P \<Longrightarrow> slot P A t = slot P A s"
  using slot_unique [of P "(s - A) div P" A t] by (simp add: slot_def)

lemma slot_slot: "0 < P \<Longrightarrow> slot P A (slot P A t) = slot P A t"
  by (rule slot_same) simp_all

lemma slot_step: "0 < P \<Longrightarrow> slot P A s < slot P A t \<Longrightarrow> slot P A s + P \<le> slot P A t"
proof -
  assume a: "0 < P" "slot P A s < slot P A t"
  then have "(s - A) div P < (t - A) div P" by (simp add: slot_def mult_less_cancel_left)
  then have "P * ((s - A) div P + 1) \<le> P * ((t - A) div P)" using a(1) by (intro mult_left_mono) simp_all
  then show ?thesis by (simp add: slot_def algebra_simps)
qed

lemma slot_later: "0 < P \<Longrightarrow> slot P A s + P \<le> t \<longleftrightarrow> slot P A s < slot P A t" if "s \<le> t"
  using that slot_same [of P A s t] slot_step [of P A s t] slot_bounds [of P A t] slot_bounds [of P A s] by (smt (verit))

section \<open>Zones with a constant offset\<close>

lemma Date_const: "Date (\<lambda>_. c) w = w - c"
  by (simp add: Date_def)

lemma AddDate_const: "AddDate (\<lambda>_. c) t n = t + days n"
  by (simp add: AddDate_def local_time_def Date_const)

lemma local_day: "days 1 * ((t + c) div days 1) \<le> t + c \<and> t + c < days 1 * ((t + c) div days 1) + days 1" for t c :: int
  using div_bounds [of "days 1" "t + c"] by simp

lemma daily_slot:
  assumes "0 \<le> h" "h \<le> 23"
  shows "lastFixedDailyReset h (\<lambda>_. c) t = slot (days 1) (hours h - c) t"
    and "nextFixedDailyReset h (\<lambda>_. c) t = slot (days 1) (hours h - c) t + days 1"
proof -
  define k where "k = (t + c) div days 1"
  have k: "days 1 * k \<le> t + c" "t + c < days 1 * k + days 1" using local_day [of t c] by (simp_all add: k_def)
  have h: "0 \<le> hours h" "hours h < days 1" using assms by simp_all
  have s: "slot (days 1) (hours h - c) t = (if t + c < days k + hours h then days (k - 1) else days k) + hours h - c"
    using slot_unique [of "days 1" "k - 1" "hours h - c" t] slot_unique [of "days 1" k "hours h - c" t] k h by (simp add: algebra_simps)
  then show "lastFixedDailyReset h (\<lambda>_. c) t = slot (days 1) (hours h - c) t"
    "nextFixedDailyReset h (\<lambda>_. c) t = slot (days 1) (hours h - c) t + days 1"
    by (auto simp: lastFixedDailyReset_def nextFixedDailyReset_def Date_const AddDate_const local_time_def k_def [simplified, symmetric] Let_def)
qed

lemma go_rem_week: "go_rem (a - b + 7) 7 = (a - b) mod 7" if "0 \<le> a" "b \<le> 6"
proof -
  have "go_rem (a - b + 7) 7 = (a - b + 7) mod 7"
    using that by (simp add: go_rem_def trunc_div_pos minus_mult_div_eq_mod)
  then show ?thesis by simp
qed

text \<open>The days from the weekday \<open>d\<close> on or before the day \<open>k\<close>, and to the one on or after it.\<close>

lemma weekday_steps:
  fixes k d :: int
  defines "ago \<equiv> ((k + 4) mod 7 - d) mod 7" and "ahead \<equiv> (d - (k + 4) mod 7) mod 7"
  shows "k - ago = 7 * ((k + 4 - d) div 7) + (d - 4)" "0 \<le> ago" "ago \<le> 6"
    and "ahead = (if ago = 0 then 0 else 7 - ago)"
proof -
  have b: "ago = (k + 4 - d) mod 7" unfolding ago_def by (simp add: mod_diff_left_eq)
  have f: "ahead = (- (k + 4 - d)) mod 7" unfolding ahead_def by (simp add: mod_diff_right_eq)
  show "k - ago = 7 * ((k + 4 - d) div 7) + (d - 4)" unfolding b using minus_mod_eq_mult_div [of "k + 4 - d" 7] by simp
  show "0 \<le> ago" "ago \<le> 6" unfolding b using pos_mod_bound [of 7 "k + 4 - d"] by simp_all
  show "ahead = (if ago = 0 then 0 else 7 - ago)" unfolding b f by (simp only: zmod_zminus1_eq_if)
qed

lemma weekly_slot_at:
  fixes k d :: int
  assumes "0 \<le> h" "h \<le> 23" "k = (t + c) div days 1" "ago = ((k + 4) mod 7 - d) mod 7"
  shows "slot (days 7) (days (d - 4) + hours h - c) t =
    days (k - (if ago = 0 \<and> t < days k + hours h - c then 7 else ago)) + hours h - c"
proof -
  define j where "j = (k + 4 - d) div 7"
  have k: "days 1 * k \<le> t + c" "t + c < days 1 * k + days 1" using local_day [of t c] by (simp_all add: assms(3))
  have h: "0 \<le> hours h" "hours h < days 1" using assms by simp_all
  have b: "k - ago = 7 * j + (d - 4)" "0 \<le> ago" "ago \<le> 6" using weekday_steps [of k d] by (simp_all add: assms(4) j_def)
  show ?thesis
  proof (cases "ago = 0 \<and> t < days k + hours h - c")
    case True
    then show ?thesis using slot_unique [of "days 7" "j - 1" "days (d - 4) + hours h - c" t] k h b by (simp add: algebra_simps)
  next
    case False
    then have "days (k - ago) + hours h \<le> t + c" using k h b by auto
    then show ?thesis using False slot_unique [of "days 7" j "days (d - 4) + hours h - c" t] k h b by (auto simp: algebra_simps)
  qed
qed

lemma weekday_of_reset:
  assumes "0 \<le> h" "h \<le> 23"
  shows "weekday_at (\<lambda>_. c) (days k + hours h - c) = (k + 4) mod 7"
proof -
  have "(days k + hours h) div days 1 = k" using assms by (intro int_div_pos_eq [of _ _ _ "hours h"]) simp_all
  then show ?thesis by (simp add: weekday_at_def local_time_def)
qed

lemma weekly_slot:
  assumes "0 \<le> h" "h \<le> 23" "0 \<le> d" "d \<le> 6"
  shows "lastFixedWeeklyReset d h (\<lambda>_. c) t = slot (days 7) (days (d - 4) + hours h - c) t"
    and "nextFixedWeeklyReset d h (\<lambda>_. c) t = slot (days 7) (days (d - 4) + hours h - c) t + days 7"
proof -
  define k and ago and ahead where "k = (t + c) div days 1" and "ago = ((k + 4) mod 7 - d) mod 7" and "ahead = (d - (k + 4) mod 7) mod 7"
  have k: "days 1 * k \<le> t + c" "t + c < days 1 * k + days 1" using local_day [of t c] by (simp_all add: k_def)
  have h: "0 \<le> hours h" "hours h < days 1" using assms by simp_all
  have w: "0 \<le> (k + 4) mod 7" "(k + 4) mod 7 \<le> 6" using pos_mod_bound [of 7 "k + 4"] by simp_all
  note s = weekly_slot_at [OF assms(1,2) k_def ago_def]
  note r = weekday_of_reset [OF assms(1,2), of c k]
  have g: "go_rem ((k + 4) mod 7 - d + 7) 7 = ago" "go_rem (d - (k + 4) mod 7 + 7) 7 = ahead"
    unfolding ago_def ahead_def using assms w by (intro go_rem_week; simp)+
  note unfold = Date_const AddDate_const local_time_def k_def [simplified, symmetric] r g Let_def
  have "lastFixedWeeklyReset d h (\<lambda>_. c) t = days k + hours h - c - days (if ago = 0 \<and> t < days k + hours h - c then 7 else ago)"
    by (simp add: lastFixedWeeklyReset_def unfold)
  then show "lastFixedWeeklyReset d h (\<lambda>_. c) t = slot (days 7) (days (d - 4) + hours h - c) t"
    unfolding s by (simp add: algebra_simps)
  have f: "ahead = (if ago = 0 then 0 else 7 - ago)" "0 \<le> ago" "ago \<le> 6"
    unfolding ago_def ahead_def by (rule weekday_steps)+
  have "nextFixedWeeklyReset d h (\<lambda>_. c) t =
      days k + hours h - c + days (if ahead = 0 \<and> \<not> t < days k + hours h - c then 7 else ahead)"
    by (simp add: nextFixedWeeklyReset_def unfold)
  then show "nextFixedWeeklyReset d h (\<lambda>_. c) t = slot (days 7) (days (d - 4) + hours h - c) t + days 7"
    unfolding s using f by (auto simp: algebra_simps split: if_splits)
qed

end
