(* ===== verification/AccountQuota.thy ===== *)
theory AccountQuota
  imports QuotaPeriods "HOL-Library.AList"
begin

text \<open>
  The quotas of accounts (\<open>service/account.go\<close>, \<open>service/admin_service.go\<close>, \<open>repository/account_repo.go\<close>): the
  statement that adds to the counters decides by the stored time of the next reset whether a period is
  over, the check of the scheduler by the start of the period. The theory shows when the two agree.
\<close>

section \<open>The statement\<close>

text \<open>The keys of one of the two periodic quotas.\<close>

record quota_keys =
  qk_limit :: string
  qk_used :: string
  qk_start :: string
  qk_reset_at :: string
  qk_mode :: string
  qk_period :: duration

definition daily_keys :: quota_keys where
  "daily_keys = \<lparr>qk_limit = ''quota_daily_limit'', qk_used = ''quota_daily_used'', qk_start = ''quota_daily_start'',
     qk_reset_at = ''quota_daily_reset_at'', qk_mode = ''quota_daily_reset_mode'', qk_period = days 1\<rparr>"

definition weekly_keys :: quota_keys where
  "weekly_keys = \<lparr>qk_limit = ''quota_weekly_limit'', qk_used = ''quota_weekly_used'', qk_start = ''quota_weekly_start'',
     qk_reset_at = ''quota_weekly_reset_at'', qk_mode = ''quota_weekly_reset_mode'', qk_period = days 7\<rparr>"

text \<open>Casts of stored values; \<open>None\<close> where the statement fails.\<close>

definition sql_number :: "document \<Rightarrow> string \<Rightarrow> rat \<Rightarrow> rat option" where
  "sql_number ex key d =
     (case map_of ex key of
        None \<Rightarrow> Some d
      | Some ANil \<Rightarrow> Some d
      | Some (AFloat (Fin r)) \<Rightarrow> Some r
      | Some (AInt n) \<Rightarrow> Some (of_int n)
      | Some (AString s) \<Rightarrow> (case ParseFloat (TrimSpace s) of Some (Fin r) \<Rightarrow> Some r | _ \<Rightarrow> None)
      | _ \<Rightarrow> None)"

definition sql_int :: "document \<Rightarrow> string \<Rightarrow> int \<Rightarrow> int option" where
  "sql_int ex key d =
     (case sql_number ex key (of_int d) of Some r \<Rightarrow> if of_int \<lfloor>r\<rfloor> = r then Some \<lfloor>r\<rfloor> else None | None \<Rightarrow> None)"

definition sql_time :: "document \<Rightarrow> string \<Rightarrow> instant option" where
  "sql_time ex key =
     (case map_of ex key of
        None \<Rightarrow> Some 0
      | Some ANil \<Rightarrow> Some 0
      | Some (AString s) \<Rightarrow> ParseRFC3339 s
      | _ \<Rightarrow> None)"

definition sql_zone :: "(string \<Rightarrow> zone option) \<Rightarrow> document \<Rightarrow> zone option" where
  "sql_zone tzdb ex = tzdb (option_or (get_string (map_of ex ''quota_reset_timezone'')) ''UTC'')"

definition is_fixed :: "quota_keys \<Rightarrow> document \<Rightarrow> bool" where
  "is_fixed k ex \<longleftrightarrow> get_string (map_of ex (qk_mode k)) = Some ''fixed''"

definition expiredExpr :: "quota_keys \<Rightarrow> instant \<Rightarrow> document \<Rightarrow> bool option" where
  "expiredExpr k now ex =
     (if is_fixed k ex then map_option (\<lambda>t. t \<le> now) (sql_time ex (qk_reset_at k))
      else map_option (\<lambda>t. t + qk_period k \<le> now) (sql_time ex (qk_start k)))"

text \<open>The expressions compute with the clock of a zone by \<open>AT TIME ZONE\<close>, which agrees with \<open>time.Date\<close> on every local time
  that exists exactly once. (For a skipped hour PostgreSQL takes the offset before the change; the theorems are about zones
  that never change.)\<close>

definition nextDailyResetAtExpr :: "int \<Rightarrow> zone \<Rightarrow> instant \<Rightarrow> instant" where
  "nextDailyResetAtExpr hour tz now =
     (let today = days (local_time tz now div days 1) + hours hour
      in if Date tz today \<le> now then Date tz (today + days 1) else Date tz today)"

definition nextWeeklyResetAtExpr :: "int \<Rightarrow> int \<Rightarrow> zone \<Rightarrow> instant \<Rightarrow> instant" where
  "nextWeeklyResetAtExpr day hour tz now =
     (let today = days (local_time tz now div days 1) + hours hour; forward = go_rem (day - weekday_at tz now + 7) 7
      in if forward = 0 \<and> Date tz today \<le> now then Date tz (today + days 7) else Date tz (today + days forward))"

definition next_reset :: "(string \<Rightarrow> zone option) \<Rightarrow> quota_keys \<Rightarrow> instant \<Rightarrow> document \<Rightarrow> instant option" where
  "next_reset tzdb k now ex =
     (if k = daily_keys
      then (case (sql_zone tzdb ex, sql_int ex ''quota_daily_reset_hour'' 0) of
              (Some tz, Some h) \<Rightarrow> Some (nextDailyResetAtExpr h tz now)
            | _ \<Rightarrow> None)
      else (case (sql_zone tzdb ex, sql_int ex ''quota_weekly_reset_day'' 1, sql_int ex ''quota_weekly_reset_hour'' 0) of
              (Some tz, Some d, Some h) \<Rightarrow> Some (nextWeeklyResetAtExpr d h tz now)
            | _ \<Rightarrow> None))"

text \<open>The entries for one quota; they are computed from the old values.\<close>

definition period_entries :: "(string \<Rightarrow> zone option) \<Rightarrow> quota_keys \<Rightarrow> instant \<Rightarrow> rat \<Rightarrow> document \<Rightarrow> document option" where
  "period_entries tzdb k now amount ex =
     (case sql_number ex (qk_limit k) 0 of
        None \<Rightarrow> None
      | Some limit \<Rightarrow>
          if limit \<le> 0 then Some []
          else case (expiredExpr k now ex, sql_number ex (qk_used k) 0) of
            (Some expired, Some used) \<Rightarrow>
              let start = AString (format_micros now);
                  counters = [(qk_used k, AFloat (Fin (if expired then amount else used + amount))),
                    (qk_start k, if expired then start else case map_of ex (qk_start k) of None \<Rightarrow> start | Some ANil \<Rightarrow> start | Some v \<Rightarrow> v)]
              in if expired \<and> is_fixed k ex
                 then map_option (\<lambda>t. counters @ [(qk_reset_at k, AString (FormatRFC3339 t))]) (next_reset tzdb k now ex)
                 else Some counters
          | _ \<Rightarrow> None)"

definition put_all :: "document \<Rightarrow> document \<Rightarrow> document" where
  "put_all es ex = fold (\<lambda>(k, v). AList.update k v) es ex"

definition increment :: "(string \<Rightarrow> zone option) \<Rightarrow> instant \<Rightarrow> rat \<Rightarrow> document \<Rightarrow> document option" where
  "increment tzdb now amount ex =
     (case (sql_number ex ''quota_used'' 0, period_entries tzdb daily_keys now amount ex, period_entries tzdb weekly_keys now amount ex) of
        (Some used, Some ds, Some ws) \<Rightarrow> Some (put_all ((''quota_used'', AFloat (Fin (used + amount))) # ds @ ws) ex)
      | _ \<Rightarrow> None)"

section \<open>The repository\<close>

text \<open>The settings of the accounts that are not deleted, the outbox of the scheduler (events of changed accounts with
  their times), storage faults.\<close>

record account_db =
  ad_extras :: "int \<Rightarrow> document option"
  ad_outbox :: "(int \<times> instant) list"
  ad_faults :: faults

definition account_call :: "account_db \<Rightarrow> bool \<times> account_db" where
  "account_call db = (let (fail, fs) = io (ad_faults db) in (fail, db\<lparr>ad_faults := fs\<rparr>))"

text \<open>An event of the last second for the same account makes the insertion do nothing.\<close>

definition schedulerOutboxDedupWindow :: duration where
  "schedulerOutboxDedupWindow = seconds 1"

definition outbox_insert :: "instant \<Rightarrow> int \<Rightarrow> (int \<times> instant) list \<Rightarrow> (int \<times> instant) list" where
  "outbox_insert now i outbox =
     (if list_ex (\<lambda>(j, t). j = i \<and> now - schedulerOutboxDedupWindow \<le> t) outbox then outbox else outbox @ [(i, now)])"

definition enqueueSchedulerOutbox :: "instant \<Rightarrow> int \<Rightarrow> account_db \<Rightarrow> (unit + unit) \<times> account_db" where
  "enqueueSchedulerOutbox now i db0 =
     (let (fail, db) = account_call db0
      in if fail then (Inl (), db) else (Inr (), db\<lparr>ad_outbox := outbox_insert now i (ad_outbox db)\<rparr>))"

text \<open>The repository only logs that an event could not be stored.\<close>

definition IncrementQuotaUsed :: "(string \<Rightarrow> zone option) \<Rightarrow> instant \<Rightarrow> int \<Rightarrow> rat \<Rightarrow> account_db \<Rightarrow> (unit + unit) \<times> account_db" where
  "IncrementQuotaUsed tzdb now i amount db0 =
     (let (fail, db) = account_call db0
      in if fail then (Inl (), db)
         else case ad_extras db i of
                None \<Rightarrow> (Inr (), db)
              | Some ex \<Rightarrow>
                  (case increment tzdb now amount ex of
                     None \<Rightarrow> (Inl (), db)
                   | Some ex' \<Rightarrow>
                       (case (sql_number ex' ''quota_used'' 0, sql_number ex' ''quota_limit'' 0) of
                          (Some newUsed, Some limit) \<Rightarrow>
                            let db' = db\<lparr>ad_extras := (ad_extras db)(i \<mapsto> ex')\<rparr>
                            in (Inr (), if 0 < limit \<and> limit \<le> newUsed \<and> newUsed - amount < limit
                                        then snd (enqueueSchedulerOutbox now i db') else db')
                        | _ \<Rightarrow> (Inl (), db))))"

definition reset_extra :: "document \<Rightarrow> document" where
  "reset_extra ex =
     fold AList.delete [''quota_daily_start'', ''quota_weekly_start'', ''quota_daily_reset_at'', ''quota_weekly_reset_at'']
       (put_all [(''quota_used'', AFloat 0), (''quota_daily_used'', AFloat 0), (''quota_weekly_used'', AFloat 0)] ex)"

definition ResetQuotaUsed :: "instant \<Rightarrow> int \<Rightarrow> account_db \<Rightarrow> (unit + unit) \<times> account_db" where
  "ResetQuotaUsed now i db0 =
     (let (fail, db) = account_call db0
      in if fail then (Inl (), db)
         else (Inr (), snd (enqueueSchedulerOutbox now i (db\<lparr>ad_extras := (ad_extras db)(i := map_option reset_extra (ad_extras db i))\<rparr>))))"

section \<open>Saving the settings\<close>

text \<open>What an update of the account stores: the counters are kept, the resets computed anew. \<open>None\<close> where the new
  settings are refused.\<close>

definition set_or_remove :: "string \<Rightarrow> instant option \<Rightarrow> document \<Rightarrow> document" where
  "set_or_remove key t ex = (case t of None \<Rightarrow> AList.delete key ex | Some u \<Rightarrow> AList.update key (AString (FormatRFC3339 u)) ex)"

definition write_resets :: "(string \<Rightarrow> zone option) \<Rightarrow> instant \<Rightarrow> document \<Rightarrow> document" where
  "write_resets tzdb now ex =
     (let (d, w) = ComputeQuotaResetAt tzdb now ex
      in set_or_remove ''quota_weekly_reset_at'' w (set_or_remove ''quota_daily_reset_at'' d ex))"





text \<open>A new account: no counters are kept.\<close>

definition create_extra :: "(string \<Rightarrow> zone option) \<Rightarrow> instant \<Rightarrow> document \<Rightarrow> document option" where
  "create_extra tzdb now ex = (if ValidateQuotaResetConfig tzdb ex then Some (write_resets tzdb now ex) else None)"

section \<open>Lookups\<close>

lemma map_of_put_all: "map_of (put_all es ex) key = (case map_of (rev es) key of None \<Rightarrow> map_of ex key | Some v \<Rightarrow> Some v)"
  by (induction es arbitrary: ex) (auto simp: put_all_def AList.update_conv' map_add_def split: option.splits)

lemma map_of_delete: "map_of (AList.delete k ex) key = (if key = k then None else map_of ex key)"
  by (simp add: AList.delete_conv')

lemma map_of_write_resets:
  "map_of (write_resets tzdb now ex) key =
     (if key = ''quota_daily_reset_at'' then map_option (\<lambda>t. AString (FormatRFC3339 t)) (fst (ComputeQuotaResetAt tzdb now ex))
      else if key = ''quota_weekly_reset_at'' then map_option (\<lambda>t. AString (FormatRFC3339 t)) (snd (ComputeQuotaResetAt tzdb now ex))
      else map_of ex key)"
  by (cases "ComputeQuotaResetAt tzdb now ex")
    (auto simp: write_resets_def set_or_remove_def map_of_delete AList.update_conv' split: option.splits)

text \<open>The entries that one quota writes.\<close>

lemma period_entries_keys:
  "period_entries tzdb k now amount ex = Some es \<Longrightarrow> key \<notin> {qk_used k, qk_start k, qk_reset_at k} \<Longrightarrow> map_of (rev es) key = None"
  by (auto simp: period_entries_def Let_def split: option.splits if_splits)

definition own_keys :: "quota_keys \<Rightarrow> string set" where
  "own_keys k = {qk_used k, qk_start k, qk_reset_at k}"

lemma own_keys_disjoint [simp]: "own_keys daily_keys \<inter> own_keys weekly_keys = {}" "''quota_used'' \<notin> own_keys daily_keys"
  "''quota_used'' \<notin> own_keys weekly_keys"
  by (auto simp: own_keys_def daily_keys_def weekly_keys_def)

lemma increment_lookup:
  assumes "increment tzdb now amount ex = Some ex'"
  shows "key \<notin> {''quota_used''} \<union> own_keys daily_keys \<union> own_keys weekly_keys \<Longrightarrow> map_of ex' key = map_of ex key"
    and "k \<in> {daily_keys, weekly_keys} \<Longrightarrow> key \<in> own_keys k \<Longrightarrow>
      (\<exists>es. period_entries tzdb k now amount ex = Some es \<and> map_of ex' key = (case map_of (rev es) key of None \<Rightarrow> map_of ex key | Some v \<Rightarrow> Some v))"
    and "\<exists>used. sql_number ex ''quota_used'' 0 = Some used \<and> map_of ex' ''quota_used'' = Some (AFloat (Fin (used + amount)))"
proof -
  obtain used ds ws where u: "sql_number ex ''quota_used'' 0 = Some used"
    and d: "period_entries tzdb daily_keys now amount ex = Some ds" and w: "period_entries tzdb weekly_keys now amount ex = Some ws"
    and ex': "ex' = put_all ((''quota_used'', AFloat (Fin (used + amount))) # ds @ ws) ex"
    using assms by (auto simp: increment_def split: option.splits)
  have n: "key \<notin> own_keys daily_keys \<Longrightarrow> map_of (rev ds) key = None" "key \<notin> own_keys weekly_keys \<Longrightarrow> map_of (rev ws) key = None" for key
    using period_entries_keys [OF d] period_entries_keys [OF w] by (simp_all add: own_keys_def)
  have l: "map_of ex' key = (case map_of (rev ws) key of Some v \<Rightarrow> Some v | None \<Rightarrow> (case map_of (rev ds) key of Some v \<Rightarrow> Some v
      | None \<Rightarrow> if key = ''quota_used'' then Some (AFloat (Fin (used + amount))) else map_of ex key))" for key
    by (auto simp: ex' map_of_put_all map_add_def split: option.splits)
  show "key \<notin> {''quota_used''} \<union> own_keys daily_keys \<union> own_keys weekly_keys \<Longrightarrow> map_of ex' key = map_of ex key"
    by (simp add: l n)
  show "\<exists>used. sql_number ex ''quota_used'' 0 = Some used \<and> map_of ex' ''quota_used'' = Some (AFloat (Fin (used + amount)))"
    using u by (simp add: l n)
  assume k: "k \<in> {daily_keys, weekly_keys}" "key \<in> own_keys k"
  then have "key \<noteq> ''quota_used''" by auto
  moreover have "k = daily_keys \<Longrightarrow> map_of (rev ws) key = None" "k = weekly_keys \<Longrightarrow> map_of (rev ds) key = None"
    using k(2) own_keys_disjoint(1) by (blast intro: n)+
  ultimately show "\<exists>es. period_entries tzdb k now amount ex = Some es \<and>
      map_of ex' key = (case map_of (rev es) key of None \<Rightarrow> map_of ex key | Some v \<Rightarrow> Some v)"
    using k d w l [of key] by (auto split: option.splits)
qed

section \<open>Fixed resets\<close>

text \<open>The amounts used in the slot of an instant.\<close>

definition period_usage :: "duration \<Rightarrow> instant \<Rightarrow> instant \<Rightarrow> (instant \<times> rat) list \<Rightarrow> rat" where
  "period_usage P A now us = sum_list (map (\<lambda>(t, a). if slot P A t = slot P A now then a else 0) us)"

lemma period_usage_simps [simp]: "period_usage P A now [] = 0"
  "period_usage P A now (us @ [(t, a)]) = period_usage P A now us + (if slot P A t = slot P A now then a else 0)"
  "period_usage P A now [(t, a)] = (if slot P A t = slot P A now then a else 0)"
  by (simp_all add: period_usage_def)

lemma period_usage_cong: "slot P A s = slot P A t \<Longrightarrow> period_usage P A s us = period_usage P A t us"
  by (simp add: period_usage_def)

lemma period_usage_new: "list_all (\<lambda>(s, _). slot P A s < slot P A t) us \<Longrightarrow> period_usage P A t us = 0"
  by (induction us) (auto simp: period_usage_def)

text \<open>The times at which the model's texts have a year of four digits.\<close>

definition in_range :: "instant \<Rightarrow> bool" where
  "in_range t \<longleftrightarrow> 0 \<le> t \<and> t < days 2932000"

lemma printable_range: "0 \<le> t \<Longrightarrow> t < days 2932896 \<Longrightarrow> printable t"
proof -
  assume t: "0 \<le> t" "t < days 2932896"
  define n where "n = t div days 1"
  have n: "0 \<le> n" "n < 2932896" using t div_bounds [of "days 1" t] by (simp_all add: n_def pos_imp_zdiv_nonneg_iff)
  obtain y m d where c: "civil n = (y, m, d)" by (rule prod_cases3)
  have "400 * days_before_year y \<le> 400 * (n + 719162)" "400 * (n + 719162) < 400 * days_before_year (y + 1)"
    using civil(2) [OF c] by simp_all
  then have "146097 * (y - 1) - 699 \<le> 400 * (n + 719162)" "400 * (n + 719162) < 146097 * y + 396"
    using days_before_year_bounds [of y] days_before_year_bounds [of "y + 1"] by simp_all
  then have "0 \<le> y" "y < 10000" using n by simp_all
  then show ?thesis using c by (simp add: printable_def n_def)
qed

lemma period_seconds: "k \<in> {daily_keys, weekly_keys} \<Longrightarrow> 0 < qk_period k \<and> qk_period k \<le> days 7 \<and> qk_period k mod seconds 1 = 0"
  by (auto simp: daily_keys_def weekly_keys_def)

lemma slot_seconds: "P mod seconds 1 = 0 \<Longrightarrow> A mod seconds 1 = 0 \<Longrightarrow> slot P A t mod seconds 1 = 0"
  by (simp add: slot_def mod_add_eq [symmetric] mod_mult_left_eq [symmetric])

lemma reset_text:
  assumes "k \<in> {daily_keys, weekly_keys}" "A mod seconds 1 = 0" "in_range u"
  shows "ParseRFC3339 (FormatRFC3339 (slot (qk_period k) A u + qk_period k)) = Some (slot (qk_period k) A u + qk_period k)"
proof -
  note p = period_seconds [OF assms(1)]
  have b: "0 \<le> slot (qk_period k) A u + qk_period k" "slot (qk_period k) A u + qk_period k < days 2932896"
    using slot_bounds [of "qk_period k" A u] p assms(3) by (simp_all add: in_range_def)
  have "(slot (qk_period k) A u + qk_period k) mod seconds 1 = 0"
    using slot_seconds [of "qk_period k" A u] p assms(2) by (simp add: mod_add_eq [symmetric])
  then show ?thesis using Parse_FormatRFC3339 [OF printable_range [OF b]] by simp
qed

lemma slot_micros:
  assumes "0 < P" "P mod seconds 1 = 0" "A mod seconds 1 = 0"
  shows "slot P A (u - u mod 1000) = slot P A u"
proof (rule slot_same [OF assms(1)])
  have "slot P A u mod 1000 = 0" using slot_seconds [OF assms(2,3), of u] mod_mod_cancel [of 1000 "seconds 1" "slot P A u"] by simp
  then have "slot P A u = 1000 * (slot P A u div 1000)" using mult_div_mod_eq [of 1000 "slot P A u"] by simp
  also have "\<dots> \<le> 1000 * (u div 1000)" using slot_bounds [OF assms(1), of A u] by (intro mult_left_mono zdiv_mono1) simp_all
  finally show "slot P A u \<le> u - u mod 1000" by (simp add: minus_mod_eq_mult_div)
  show "u - u mod 1000 < slot P A u + P" using slot_bounds [OF assms(1), of A u] pos_mod_sign [of 1000 u] by linarith
qed

lemma start_text: "in_range u \<Longrightarrow> ParseRFC3339 (format_micros u) = Some (u - u mod 1000)"
  by (intro Parse_format_micros printable_range) (simp_all add: in_range_def)

text \<open>The settings of one quota, with \<open>A\<close> a moment of a reset.\<close>

definition quota_set :: "(string \<Rightarrow> zone option) \<Rightarrow> quota_keys \<Rightarrow> rat \<Rightarrow> instant \<Rightarrow> document \<Rightarrow> bool" where
  "quota_set tzdb k L A ex \<longleftrightarrow>
     map_of ex (qk_limit k) = Some (AFloat (Fin L)) \<and> is_fixed k ex \<and> A mod seconds 1 = 0 \<and>
     (\<forall>now. next_reset tzdb k now ex = Some (slot (qk_period k) A now + qk_period k))"

definition number_at :: "document \<Rightarrow> string \<Rightarrow> rat \<Rightarrow> bool" where
  "number_at ex key x \<longleftrightarrow> map_of ex key = Some (AFloat (Fin x)) \<or> map_of ex key = None \<and> x = 0"

lemma number_at_read: "number_at ex key x \<Longrightarrow> sql_number ex key 0 = Some x"
  "number_at (acc_Extra a) key x \<Longrightarrow> getExtraFloat64 a key = Fin x"
  by (auto simp: number_at_def sql_number_def getExtraFloat64_def any_float_def option_or_def zero_float64_def)

text \<open>The state of one quota after the uses \<open>us\<close>, in the slot of \<open>u\<close>.\<close>

definition counted :: "quota_keys \<Rightarrow> instant \<Rightarrow> (instant \<times> rat) list \<Rightarrow> instant \<Rightarrow> document \<Rightarrow> bool" where
  "counted k A us u ex \<longleftrightarrow>
     (let P = qk_period k; reset = Some (AString (FormatRFC3339 (slot P A u + P)))
      in in_range u \<and> number_at ex (qk_used k) (period_usage P A u us) \<and> list_all (\<lambda>(s, _). slot P A s \<le> slot P A u) us \<and>
         (if map_of ex (qk_start k) = None then us = [] \<and> map_of ex (qk_reset_at k) \<in> {None, reset}
          else map_of ex (qk_start k) = Some (AString (format_micros u)) \<and> map_of ex (qk_reset_at k) = reset))"

lemma counted_expired:
  assumes "k \<in> {daily_keys, weekly_keys}" "quota_set tzdb k L A ex" "counted k A us u ex" "u \<le> t"
  shows "expiredExpr k t ex = Some (map_of ex (qk_reset_at k) = None \<or> slot (qk_period k) A u < slot (qk_period k) A t)"
proof -
  have p: "0 < qk_period k" and u: "in_range u" and A: "A mod seconds 1 = 0" and f: "is_fixed k ex"
    using period_seconds [OF assms(1)] assms(2,3) by (simp_all add: counted_def quota_set_def Let_def)
  consider "map_of ex (qk_reset_at k) = None"
    | "map_of ex (qk_reset_at k) = Some (AString (FormatRFC3339 (slot (qk_period k) A u + qk_period k)))"
    using assms(3) by (auto simp: counted_def Let_def split: if_splits)
  then show ?thesis
  proof cases
    case 1
    then show ?thesis using f u assms(4) by (simp add: expiredExpr_def sql_time_def in_range_def)
  next
    case 2
    then show ?thesis using f reset_text [OF assms(1) A u] slot_later [OF assms(4) p, of A] by (simp add: expiredExpr_def sql_time_def)
  qed
qed

lemma counted_step:
  assumes k: "k \<in> {daily_keys, weekly_keys}" and q: "quota_set tzdb k L A ex" and L: "0 < L"
    and c: "counted k A us u ex" "u \<le> t" "in_range t"
  shows "\<exists>es. period_entries tzdb k t a ex = Some es \<and>
    (\<forall>ex'. (\<forall>key \<in> own_keys k. map_of ex' key = (case map_of (rev es) key of None \<Rightarrow> map_of ex key | Some v \<Rightarrow> Some v))
      \<longrightarrow> (\<exists>u'\<le>t. counted k A (us @ [(t, a)]) u' ex'))"
proof -
  define P where "P = qk_period k"
  define x where "x \<longleftrightarrow> map_of ex (qk_reset_at k) = None \<or> slot P A u < slot P A t"
  have p: "0 < P" using period_seconds [OF k] by (simp add: P_def)
  have e: "expiredExpr k t ex = Some x" using counted_expired [OF k q c(1,2)] by (simp add: x_def P_def)
  have limit: "sql_number ex (qk_limit k) 0 = Some L" and f: "is_fixed k ex" and n: "next_reset tzdb k t ex = Some (slot P A t + P)"
    using q by (simp_all add: quota_set_def sql_number_def P_def)
  have used: "number_at ex (qk_used k) (period_usage P A u us)" and us: "list_all (\<lambda>(s, _). slot P A s \<le> slot P A u) us"
    using c(1) by (simp_all add: counted_def Let_def P_def)
  have ks: "distinct [qk_used k, qk_start k, qk_reset_at k]" using k by (auto simp: daily_keys_def weekly_keys_def)
  have m: "slot P A u \<le> slot P A t" using slot_mono [OF p c(2)] .
  define es where "es = [(qk_used k, AFloat (Fin (if x then a else period_usage P A u us + a))),
      (qk_start k, if x then AString (format_micros t) else case map_of ex (qk_start k) of None \<Rightarrow> AString (format_micros t)
         | Some ANil \<Rightarrow> AString (format_micros t) | Some v \<Rightarrow> v)] @ (if x then [(qk_reset_at k, AString (FormatRFC3339 (slot P A t + P)))] else [])"
  have "period_entries tzdb k t a ex = Some es"
    using L number_at_read(1) [OF used] by (simp add: period_entries_def limit e f n es_def Let_def)
  moreover have "\<exists>u'\<le>t. counted k A (us @ [(t, a)]) u' ex'"
    if ex': "\<forall>key \<in> own_keys k. map_of ex' key = (case map_of (rev es) key of None \<Rightarrow> map_of ex key | Some v \<Rightarrow> Some v)" for ex'
  proof (cases x)
    case True
    have z: "period_usage P A t us = 0"
    proof (cases "us = []")
      case False
      then have "map_of ex (qk_reset_at k) \<noteq> None" using c(1) by (auto simp: counted_def Let_def split: if_splits)
      with True have "slot P A u < slot P A t" unfolding x_def by auto
      then show ?thesis using us by (intro period_usage_new) (auto simp: list_all_iff)
    qed simp
    have "counted k A (us @ [(t, a)]) t ex'"
      using True ex' ks c(3) us m z by (auto simp: counted_def Let_def own_keys_def es_def number_at_def P_def [symmetric] list_all_iff)
    then show ?thesis by blast
  next
    case False
    then have s: "slot P A t = slot P A u" and r: "map_of ex (qk_reset_at k) \<noteq> None" using m by (auto simp: x_def)
    show ?thesis
    proof (cases "map_of ex (qk_start k)")
      case None
      then have "us = []" "map_of ex (qk_reset_at k) = Some (AString (FormatRFC3339 (slot P A u + P)))"
        using c(1) r by (auto simp: counted_def Let_def P_def)
      then have "counted k A (us @ [(t, a)]) t ex'"
        using None False ex' ks c(3) s by (auto simp: counted_def Let_def own_keys_def es_def number_at_def P_def [symmetric])
      then show ?thesis by blast
    next
      case (Some v)
      then have "v = AString (format_micros u)" "map_of ex (qk_reset_at k) = Some (AString (FormatRFC3339 (slot P A u + P)))"
        using c(1) by (auto simp: counted_def Let_def P_def)
      then have "counted k A (us @ [(t, a)]) u ex'"
        using Some False ex' ks c(1) s us by (auto simp: counted_def Let_def own_keys_def es_def number_at_def P_def [symmetric] list_all_iff)
      then show ?thesis using c(2) by blast
    qed
  qed
  ultimately show ?thesis by blast
qed

text \<open>What the check of the scheduler reads.\<close>

lemma counted_query:
  assumes k: "k \<in> {daily_keys, weekly_keys}" and A: "A mod seconds 1 = 0" and L: "0 < L"
    and c: "counted k A us u (acc_Extra a)" "u \<le> now"
  defines "P \<equiv> qk_period k" and "start \<equiv> getExtraTime a (qk_start k)"
  shows "\<not> (start = zero_time \<or> start < slot P A now) \<and> L \<le> period_usage P A u us \<longleftrightarrow> L \<le> period_usage P A now us"
proof -
  note p = period_seconds [OF k, folded P_def]
  have u: "in_range u" and us: "list_all (\<lambda>(s, _). slot P A s \<le> slot P A u) us" using c(1) by (simp_all add: counted_def Let_def P_def)
  show ?thesis
  proof (cases "map_of (acc_Extra a) (qk_start k)")
    case None
    then have "us = []" "start = zero_time" using c(1) by (simp_all add: counted_def Let_def start_def getExtraTime_def get_string_def)
    then show ?thesis using L by simp
  next
    case (Some v)
    then have s: "start = u - u mod 1000"
      using c(1) start_text [OF u] by (simp add: counted_def Let_def start_def getExtraTime_def get_string_def option_or_def)
    have e: "start < slot P A now \<longleftrightarrow> slot P A u < slot P A now"
    proof -
      have "slot P A start = slot P A u" using slot_micros p A by (simp add: s)
      then show ?thesis using slot_bounds [of P A start] slot_bounds [of P A u] slot_step [of P A start now] slot_mono [of P u now A] p c(2) by fastforce
    qed
    have "0 \<le> start" using u div_bounds [of 1000 u] minus_mod_eq_mult_div [of u 1000] by (simp add: s in_range_def pos_imp_zdiv_nonneg_iff)
    then have z: "start \<noteq> zero_time" by (simp add: zero_time_def)
    show ?thesis
    proof (cases "slot P A u < slot P A now")
      case True
      then have "period_usage P A now us = 0" using us by (intro period_usage_new) (auto simp: list_all_iff)
      then show ?thesis using True e L by simp
    next
      case False
      then have "slot P A u = slot P A now" using slot_mono [of P u now A] p c(2) by simp
      then show ?thesis using e z period_usage_cong [of P A u now us] by simp
    qed
  qed
qed

section \<open>Accounts with fixed resets\<close>

text \<open>The settings as the code stores them, and the uses and manual resets after the account was created.\<close>

record quota_settings =
  qs_total :: rat
  qs_daily :: rat
  qs_weekly :: rat
  qs_zone :: string
  qs_daily_hour :: int
  qs_weekly_day :: int
  qs_weekly_hour :: int

definition valid_settings :: "quota_settings \<Rightarrow> bool" where
  "valid_settings q \<longleftrightarrow> qs_zone q \<noteq> '''' \<and> 0 \<le> qs_daily_hour q \<and> qs_daily_hour q \<le> 23 \<and> 0 \<le> qs_weekly_day q \<and> qs_weekly_day q \<le> 6 \<and>
     0 \<le> qs_weekly_hour q \<and> qs_weekly_hour q \<le> 23"

definition settings_document :: "quota_settings \<Rightarrow> document" where
  "settings_document q =
     [(''quota_limit'', AFloat (Fin (qs_total q))), (''quota_daily_limit'', AFloat (Fin (qs_daily q))),
      (''quota_weekly_limit'', AFloat (Fin (qs_weekly q))), (''quota_reset_timezone'', AString (qs_zone q)),
      (''quota_daily_reset_mode'', AString ''fixed''), (''quota_weekly_reset_mode'', AString ''fixed''),
      (''quota_daily_reset_hour'', AFloat (Fin (of_int (qs_daily_hour q)))), (''quota_weekly_reset_day'', AFloat (Fin (of_int (qs_weekly_day q)))),
      (''quota_weekly_reset_hour'', AFloat (Fin (of_int (qs_weekly_hour q))))]"

definition daily_anchor :: "quota_settings \<Rightarrow> duration \<Rightarrow> instant" where
  "daily_anchor q c = hours (qs_daily_hour q) - c"

definition weekly_anchor :: "quota_settings \<Rightarrow> duration \<Rightarrow> instant" where
  "weekly_anchor q c = days (qs_weekly_day q - 4) + hours (qs_weekly_hour q) - c"

definition has_settings :: "quota_settings \<Rightarrow> document \<Rightarrow> bool" where
  "has_settings q ex \<longleftrightarrow> list_all (\<lambda>(key, v). map_of ex key = Some v) (settings_document q)"

datatype quota_event = UseQuota instant rat | ResetAll

fun apply_event :: "(string \<Rightarrow> zone option) \<Rightarrow> quota_event \<Rightarrow> document \<Rightarrow> document option" where
  "apply_event tzdb (UseQuota t a) ex = increment tzdb t a ex"
| "apply_event tzdb ResetAll ex = Some (reset_extra ex)"

fun apply_events :: "(string \<Rightarrow> zone option) \<Rightarrow> quota_event list \<Rightarrow> document \<Rightarrow> document option" where
  "apply_events tzdb [] ex = Some ex"
| "apply_events tzdb (e # es) ex = (case apply_event tzdb e ex of None \<Rightarrow> None | Some ex' \<Rightarrow> apply_events tzdb es ex')"

text \<open>The uses since the last manual reset; the times of the uses in order.\<close>

definition uses_of :: "quota_event list \<Rightarrow> (instant \<times> rat) list" where
  "uses_of es = foldl (\<lambda>us e. case e of UseQuota t a \<Rightarrow> us @ [(t, a)] | ResetAll \<Rightarrow> []) [] es"

fun in_order :: "instant \<Rightarrow> quota_event list \<Rightarrow> instant \<Rightarrow> bool" where
  "in_order t [] now \<longleftrightarrow> t \<le> now"
| "in_order t (UseQuota s a # es) now \<longleftrightarrow> t \<le> s \<and> in_order s es now"
| "in_order t (ResetAll # es) now \<longleftrightarrow> in_order t es now"

lemma next_daily_slot:
  assumes "0 \<le> h" "h \<le> 23"
  shows "nextDailyResetAtExpr h (\<lambda>_. c) t = slot (days 1) (hours h - c) t + days 1"
proof -
  define k where "k = (t + c) div days 1"
  have k: "days 1 * k \<le> t + c" "t + c < days 1 * k + days 1" using local_day [of t c] by (simp_all add: k_def)
  have h: "0 \<le> hours h" "hours h < days 1" using assms by simp_all
  have s: "slot (days 1) (hours h - c) t = (if t + c < days k + hours h then days (k - 1) else days k) + hours h - c"
    using slot_unique [of "days 1" "k - 1" "hours h - c" t] slot_unique [of "days 1" k "hours h - c" t] k h by (simp add: algebra_simps)
  then show ?thesis by (auto simp: nextDailyResetAtExpr_def Date_const local_time_def k_def [simplified, symmetric] Let_def)
qed

lemma next_weekly_slot:
  assumes "0 \<le> h" "h \<le> 23" "0 \<le> d" "d \<le> 6"
  shows "nextWeeklyResetAtExpr d h (\<lambda>_. c) t = slot (days 7) (days (d - 4) + hours h - c) t + days 7"
proof -
  define k and ago and ahead where "k = (t + c) div days 1" and "ago = ((k + 4) mod 7 - d) mod 7" and "ahead = (d - (k + 4) mod 7) mod 7"
  note s = weekly_slot_at [OF assms(1,2) k_def ago_def]
  have w: "weekday_at (\<lambda>_. c) t = (k + 4) mod 7" by (simp add: weekday_at_def local_time_def k_def)
  have g: "go_rem (d - (k + 4) mod 7 + 7) 7 = ahead"
    unfolding ahead_def using assms pos_mod_bound [of 7 "k + 4"] by (intro go_rem_week) simp_all
  have f: "ahead = (if ago = 0 then 0 else 7 - ago)" "0 \<le> ago" "ago \<le> 6"
    unfolding ago_def ahead_def by (rule weekday_steps)+
  have "nextWeeklyResetAtExpr d h (\<lambda>_. c) t =
      days k + hours h - c + days (if ahead = 0 \<and> days k + hours h - c \<le> t then 7 else ahead)"
    by (simp add: nextWeeklyResetAtExpr_def Date_const local_time_def k_def [simplified, symmetric] w g Let_def)
  then show ?thesis unfolding s using f by (auto simp: algebra_simps split: if_splits)
qed

lemma anchor_seconds:
  assumes "c mod seconds 1 = 0"
  shows "daily_anchor q c mod seconds 1 = 0" "weekly_anchor q c mod seconds 1 = 0"
proof -
  have h: "1000000000 dvd hours h" and d: "1000000000 dvd days h" for h :: int by (rule dvd_mult; simp)+
  have c: "1000000000 dvd c" using assms by (simp add: mod_eq_0_iff_dvd)
  have "1000000000 dvd daily_anchor q c" unfolding daily_anchor_def by (intro dvd_diff h c)
  moreover have "1000000000 dvd weekly_anchor q c" unfolding weekly_anchor_def by (intro dvd_diff dvd_add h d c)
  ultimately show "daily_anchor q c mod seconds 1 = 0" "weekly_anchor q c mod seconds 1 = 0" by (simp_all add: mod_eq_0_iff_dvd)
qed

lemma quota_set_settings:
  assumes "valid_settings q" "has_settings q ex" "tzdb (qs_zone q) = Some (\<lambda>_. c)" "c mod seconds 1 = 0"
  shows "quota_set tzdb daily_keys (qs_daily q) (daily_anchor q c) ex" "quota_set tzdb weekly_keys (qs_weekly q) (weekly_anchor q c) ex"
proof -
  note h = assms(2) [unfolded has_settings_def settings_document_def, simplified]
  have z: "sql_zone tzdb ex = Some (\<lambda>_. c)" using h assms(3) by (simp add: sql_zone_def get_string_def option_or_def)
  have i: "map_of ex key = Some (AFloat (Fin (of_int n))) \<Longrightarrow> sql_int ex key d = Some n" for key n d
    by (simp add: sql_int_def sql_number_def)
  note c = anchor_seconds [OF assms(4), of q]
  show "quota_set tzdb daily_keys (qs_daily q) (daily_anchor q c) ex"
    using h assms(1) z i c(1)
    by (simp add: quota_set_def daily_keys_def next_reset_def is_fixed_def get_string_def next_daily_slot valid_settings_def)
      (simp add: daily_anchor_def)
  show "quota_set tzdb weekly_keys (qs_weekly q) (weekly_anchor q c) ex"
    using h assms(1) z i c(2)
    by (simp add: quota_set_def weekly_keys_def daily_keys_def next_reset_def is_fixed_def get_string_def next_weekly_slot valid_settings_def)
      (simp add: weekly_anchor_def)
qed

text \<open>The state of an account after its uses.\<close>

definition quota_state :: "quota_settings \<Rightarrow> duration \<Rightarrow> (instant \<times> rat) list \<Rightarrow> instant \<Rightarrow> document \<Rightarrow> bool" where
  "quota_state q c us t ex \<longleftrightarrow>
     has_settings q ex \<and> number_at ex ''quota_used'' (sum_list (map snd us)) \<and>
     (\<exists>u\<le>t. 0 < qs_daily q \<longrightarrow> counted daily_keys (daily_anchor q c) us u ex) \<and>
     (\<exists>u\<le>t. 0 < qs_weekly q \<longrightarrow> counted weekly_keys (weekly_anchor q c) us u ex)"

lemma counted_period:
  assumes k: "k \<in> {daily_keys, weekly_keys}" and q: "quota_set tzdb k L A ex"
    and c: "\<exists>u\<le>t. 0 < L \<longrightarrow> counted k A us u ex" and s: "t \<le> s" "in_range s"
  shows "\<exists>es. period_entries tzdb k s a ex = Some es \<and>
    (\<forall>ex'. (\<forall>key \<in> own_keys k. map_of ex' key = (case map_of (rev es) key of None \<Rightarrow> map_of ex key | Some v \<Rightarrow> Some v))
      \<longrightarrow> (\<exists>u'\<le>s. 0 < L \<longrightarrow> counted k A (us @ [(s, a)]) u' ex'))"
proof (cases "0 < L")
  case True
  then obtain u where "u \<le> t" "counted k A us u ex" using c by blast
  then show ?thesis using counted_step [OF k q True, of us u s a] s by fastforce
next
  case False
  moreover have "sql_number ex (qk_limit k) 0 = Some L" using q by (simp add: quota_set_def sql_number_def)
  ultimately show ?thesis by (auto simp: period_entries_def)
qed

lemma quota_state_step:
  assumes q: "valid_settings q" "tzdb (qs_zone q) = Some (\<lambda>_. c)" "c mod seconds 1 = 0"
    and s: "quota_state q c us t ex" "t \<le> s" "in_range s"
  shows "\<exists>ex'. increment tzdb s a ex = Some ex' \<and> quota_state q c (us @ [(s, a)]) s ex'"
proof -
  have has: "has_settings q ex" and n: "number_at ex ''quota_used'' (sum_list (map snd us))" using s(1) by (simp_all add: quota_state_def)
  note set = quota_set_settings [where tzdb = tzdb, OF q(1) has q(2,3)]
  obtain ds where ds: "period_entries tzdb daily_keys s a ex = Some ds"
    and d: "\<And>ex'. \<forall>key \<in> own_keys daily_keys. map_of ex' key = (case map_of (rev ds) key of None \<Rightarrow> map_of ex key | Some v \<Rightarrow> Some v)
      \<Longrightarrow> \<exists>u\<le>s. 0 < qs_daily q \<longrightarrow> counted daily_keys (daily_anchor q c) (us @ [(s, a)]) u ex'"
    using counted_period [OF _ set(1), of t us s a] s by (auto simp: quota_state_def)
  obtain ws where ws: "period_entries tzdb weekly_keys s a ex = Some ws"
    and w: "\<And>ex'. \<forall>key \<in> own_keys weekly_keys. map_of ex' key = (case map_of (rev ws) key of None \<Rightarrow> map_of ex key | Some v \<Rightarrow> Some v)
      \<Longrightarrow> \<exists>u\<le>s. 0 < qs_weekly q \<longrightarrow> counted weekly_keys (weekly_anchor q c) (us @ [(s, a)]) u ex'"
    using counted_period [OF _ set(2), of t us s a] s by (auto simp: quota_state_def)
  obtain ex' where ex': "increment tzdb s a ex = Some ex'"
    using number_at_read(1) [OF n] ds ws by (auto simp: increment_def)
  note l = increment_lookup [OF ex']
  have "has_settings q ex'"
    using has l(1) by (auto simp: has_settings_def settings_document_def own_keys_def daily_keys_def weekly_keys_def)
  moreover have "number_at ex' ''quota_used'' (sum_list (map snd (us @ [(s, a)])))"
    using l(3) number_at_read(1) [OF n] by (simp add: number_at_def)
  moreover have "\<exists>u\<le>s. 0 < qs_daily q \<longrightarrow> counted daily_keys (daily_anchor q c) (us @ [(s, a)]) u ex'"
    using l(2) [of daily_keys] ds by (intro d) fastforce
  moreover have "\<exists>u\<le>s. 0 < qs_weekly q \<longrightarrow> counted weekly_keys (weekly_anchor q c) (us @ [(s, a)]) u ex'"
    using l(2) [of weekly_keys] ws by (intro w) fastforce
  ultimately show ?thesis using ex' by (simp add: quota_state_def)
qed

lemma map_of_reset_extra:
  "map_of (reset_extra ex) key =
     (if key \<in> {''quota_daily_start'', ''quota_weekly_start'', ''quota_daily_reset_at'', ''quota_weekly_reset_at''} then None
      else if key \<in> {''quota_used'', ''quota_daily_used'', ''quota_weekly_used''} then Some (AFloat 0) else map_of ex key)"
  by (auto simp: reset_extra_def map_of_delete map_of_put_all)

lemma quota_state_reset: "quota_state q c us t ex \<Longrightarrow> quota_state q c [] t (reset_extra ex)"
  by (auto simp: quota_state_def has_settings_def settings_document_def map_of_reset_extra number_at_def counted_def Let_def Fin_zero
      daily_keys_def weekly_keys_def)

lemma apply_events_state:
  assumes q: "valid_settings q" "tzdb (qs_zone q) = Some (\<lambda>_. c)" "c mod seconds 1 = 0" and now: "in_range now"
  shows "quota_state q c us t ex \<Longrightarrow> in_order t es now \<Longrightarrow> 0 \<le> t \<Longrightarrow>
    \<exists>ex' t'. apply_events tzdb es ex = Some ex' \<and> t' \<le> now \<and>
      quota_state q c (foldl (\<lambda>us e. case e of UseQuota t a \<Rightarrow> us @ [(t, a)] | ResetAll \<Rightarrow> []) us es) t' ex'"
proof (induction es arbitrary: us t ex)
  case Nil
  then show ?case by auto
next
  case (Cons e es)
  have le: "in_order s es now \<Longrightarrow> s \<le> now" for s
    by (induction s es now rule: in_order.induct) auto
  show ?case
  proof (cases e)
    case (UseQuota s a)
    then have s: "t \<le> s" "in_order s es now" "in_range s"
      using Cons.prems(2,3) now le [of s] by (simp_all add: in_range_def)
    obtain ex' where "increment tzdb s a ex = Some ex'" "quota_state q c (us @ [(s, a)]) s ex'"
      using quota_state_step [where tzdb = tzdb, OF q Cons.prems(1) s(1,3)] by blast
    then show ?thesis using Cons.IH [of "us @ [(s, a)]" s ex'] s Cons.prems(3) UseQuota by simp
  next
    case ResetAll
    then show ?thesis using Cons.IH [OF quota_state_reset [OF Cons.prems(1)]] Cons.prems(2,3) by simp
  qed
qed

lemma created_state:
  assumes q: "valid_settings q" "tzdb (qs_zone q) = Some (\<lambda>_. c)" "c mod seconds 1 = 0" and t: "in_range t"
  shows "\<exists>ex. create_extra tzdb t (settings_document q) = Some ex \<and> quota_state q c [] t ex"
proof -
  have i: "int_of_float (Fin (of_int n)) = n" if "0 \<le> n" "n \<le> 23" for n using that by (simp add: int_of_float_def)
  note v = q(1) [unfolded valid_settings_def]
  have "ValidateQuotaResetConfig tzdb (settings_document q)"
    using v q(2) i by (simp add: ValidateQuotaResetConfig_def settings_document_def get_string_def mode_valid_def setting_between_def
        any_float_def option_or_def)
  moreover have "ComputeQuotaResetAt tzdb t (settings_document q) =
      (Some (slot (days 1) (daily_anchor q c) t + days 1), Some (slot (days 7) (weekly_anchor q c) t + days 7))"
    using v q(2) i by (simp add: ComputeQuotaResetAt_def settings_document_def zone_setting_def get_string_def any_float_def option_or_def hour_or_0_def
        daily_slot weekly_slot daily_anchor_def weekly_anchor_def)
  then have l: "map_of (write_resets tzdb t (settings_document q)) key =
     (if key = ''quota_daily_reset_at'' then Some (AString (FormatRFC3339 (slot (days 1) (daily_anchor q c) t + days 1)))
      else if key = ''quota_weekly_reset_at'' then Some (AString (FormatRFC3339 (slot (days 7) (weekly_anchor q c) t + days 7)))
      else map_of (settings_document q) key)" for key
    by (simp add: map_of_write_resets)
  have "has_settings q (write_resets tzdb t (settings_document q))"
    using l by (simp add: has_settings_def settings_document_def)
  ultimately show ?thesis using t l
    by (auto simp: create_extra_def quota_state_def number_at_def settings_document_def counted_def daily_keys_def weekly_keys_def Let_def)
qed

definition over :: "rat \<Rightarrow> rat \<Rightarrow> bool" where
  "over limit used \<longleftrightarrow> 0 < limit \<and> limit \<le> used"

lemma IsQuotaExceeded_state:
  assumes q: "valid_settings q" "tzdb (qs_zone q) = Some (\<lambda>_. c)" "c mod seconds 1 = 0" and s: "quota_state q c us t (acc_Extra a)" "t \<le> now"
  shows "IsQuotaExceeded tzdb now a \<longleftrightarrow> over (qs_total q) (sum_list (map snd us)) \<or>
    over (qs_daily q) (period_usage (days 1) (daily_anchor q c) now us) \<or> over (qs_weekly q) (period_usage (days 7) (weekly_anchor q c) now us)"
proof -
  note h = s(1) [unfolded quota_state_def has_settings_def settings_document_def, simplified]
  note v = q(1) [unfolded valid_settings_def]
  have f: "getExtraFloat64 a ''quota_limit'' = Fin (qs_total q)" "getExtraFloat64 a ''quota_daily_limit'' = Fin (qs_daily q)"
    "getExtraFloat64 a ''quota_weekly_limit'' = Fin (qs_weekly q)" "getExtraFloat64 a ''quota_used'' = Fin (sum_list (map snd us))"
    using h number_at_read(2) by (simp_all add: getExtraFloat64_def any_float_def option_or_def)
  have m: "GetExtraString a ''quota_daily_reset_mode'' = ''fixed''" "GetExtraString a ''quota_weekly_reset_mode'' = ''fixed''"
    "GetQuotaResetTimezone a = qs_zone q"
    using h v by (simp_all add: GetExtraString_def get_string_def option_or_def GetQuotaResetTimezone_def getExtraStringDefault_def)
  have i: "getExtraInt a ''quota_daily_reset_hour'' = qs_daily_hour q" "GetQuotaWeeklyResetDay a = qs_weekly_day q"
    "getExtraInt a ''quota_weekly_reset_hour'' = qs_weekly_hour q"
    using h v by (simp_all add: getExtraInt_def any_float_def option_or_def int_of_float_def GetQuotaWeeklyResetDay_def)
  have d: "0 < qs_daily q \<Longrightarrow> \<not> IsDailyQuotaPeriodExpired tzdb now a \<and> Fin (qs_daily q) \<le> getExtraFloat64 a ''quota_daily_used''
      \<longleftrightarrow> qs_daily q \<le> period_usage (days 1) (daily_anchor q c) now us"
  proof -
    assume L: "0 < qs_daily q"
    then obtain u where u: "u \<le> t" "counted daily_keys (daily_anchor q c) us u (acc_Extra a)" using s(1) by (auto simp: quota_state_def)
    have "getExtraFloat64 a ''quota_daily_used'' = Fin (period_usage (days 1) (daily_anchor q c) u us)"
      using u(2) number_at_read(2) by (simp add: counted_def Let_def daily_keys_def)
    then show ?thesis
      using counted_query [OF _ anchor_seconds(1) [OF q(3)] L u(2), of now] u(1) s(2) v q(2)
      by (simp add: IsDailyQuotaPeriodExpired_def isFixedDailyPeriodExpired_def m i option_or_def daily_slot daily_anchor_def daily_keys_def Let_def)
  qed
  have w: "0 < qs_weekly q \<Longrightarrow> \<not> IsWeeklyQuotaPeriodExpired tzdb now a \<and> Fin (qs_weekly q) \<le> getExtraFloat64 a ''quota_weekly_used''
      \<longleftrightarrow> qs_weekly q \<le> period_usage (days 7) (weekly_anchor q c) now us"
  proof -
    assume L: "0 < qs_weekly q"
    then obtain u where u: "u \<le> t" "counted weekly_keys (weekly_anchor q c) us u (acc_Extra a)" using s(1) by (auto simp: quota_state_def)
    have "getExtraFloat64 a ''quota_weekly_used'' = Fin (period_usage (days 7) (weekly_anchor q c) u us)"
      using u(2) number_at_read(2) by (simp add: counted_def Let_def weekly_keys_def)
    then show ?thesis
      using counted_query [OF _ anchor_seconds(2) [OF q(3)] L u(2), of now] u(1) s(2) v q(2)
      by (simp add: IsWeeklyQuotaPeriodExpired_def isFixedWeeklyPeriodExpired_def m i option_or_def weekly_slot weekly_anchor_def weekly_keys_def Let_def)
  qed
  show ?thesis using d w by (auto simp: IsQuotaExceeded_def f over_def Fin_zero)
qed

text \<open>C27. For an account that was created with valid settings for fixed resets, in a time zone whose offset to UTC is constant and a
  whole number of seconds, and then charged in any order of uses and manual resets, at times in order and
  within the years that the stored format can write: the
  scheduler's check finds a quota exceeded exactly when the limit is set and the amounts used since the
  last reset of that quota, manual or by the clock, have reached it. The check and the statement decide by
  different entries whether a period is over. (In a zone that changes its offset this
  does not hold: see \<open>skipped_midnight\<close>.)
\<close>

theorem quotas_enforced:
  assumes "valid_settings q" "tzdb (qs_zone q) = Some (\<lambda>_. c)" "c mod seconds 1 = 0"
    and "in_range created" "in_range now" "in_order created es now"
  shows "\<exists>ex ex'. create_extra tzdb created (settings_document q) = Some ex \<and> apply_events tzdb es ex = Some ex' \<and>
    (IsQuotaExceeded tzdb now (a\<lparr>acc_Extra := ex'\<rparr>) \<longleftrightarrow>
       over (qs_total q) (sum_list (map snd (uses_of es))) \<or>
       over (qs_daily q) (period_usage (days 1) (daily_anchor q c) now (uses_of es)) \<or>
       over (qs_weekly q) (period_usage (days 7) (weekly_anchor q c) now (uses_of es)))"
proof -
  obtain ex where ex: "create_extra tzdb created (settings_document q) = Some ex" "quota_state q c [] created ex"
    using created_state [where tzdb = tzdb, OF assms(1-4)] by blast
  have "0 \<le> created" using assms(4) by (simp add: in_range_def)
  from apply_events_state [where tzdb = tzdb, OF assms(1-3,5) ex(2) assms(6) this]
  obtain ex' t' where ex': "apply_events tzdb es ex = Some ex'" "t' \<le> now" "quota_state q c (uses_of es) t' ex'"
    unfolding uses_of_def by blast
  then have "quota_state q c (uses_of es) t' (acc_Extra (a\<lparr>acc_Extra := ex'\<rparr>))" by simp
  from IsQuotaExceeded_state [where tzdb = tzdb, OF assms(1-3) this ex'(2)]
  show ?thesis using ex(1) ex'(1) by blast
qed

definition sample_settings :: quota_settings where
  "sample_settings = \<lparr>qs_total = 0, qs_daily = 10, qs_weekly = 50, qs_zone = ''Asia/Shanghai'', qs_daily_hour = 4, qs_weekly_day = 1,
     qs_weekly_hour = 0\<rparr>"


definition sample_account :: Account where
  "sample_account = \<lparr>acc_ID = 1, acc_Platform = PlatformAnthropic, acc_Type = AccountTypeAPIKey, acc_Credentials = [], acc_Extra = [],
     acc_OwnerUserID = None, acc_ShareMode = [], acc_ShareStatus = [], acc_SharePolicyID = None, acc_Concurrency = 5, acc_Priority = 1, acc_RateMultiplier = None,
     acc_LoadFactor = None, acc_Status = StatusActive, acc_LastUsedAt = None, acc_ExpiresAt = None, acc_AutoPauseOnExpired = False,
     acc_Schedulable = True, acc_RateLimitResetAt = None, acc_OverloadUntil = None, acc_TempUnschedulableUntil = None,
     acc_SessionWindowStart = None, acc_SessionWindowEnd = None\<rparr>"

definition sample_zones :: "string \<Rightarrow> zone option" where
  "sample_zones name = (if name = ''Asia/Shanghai'' then Some (\<lambda>_. hours 8) else None)"

text \<open>Six dollars on one evening, five the next morning: the daily quota of ten holds again after four o'clock.\<close>

theorem quotas_enforced_witness:
  "\<exists>ex ex'. create_extra sample_zones (days 100) (settings_document sample_settings) = Some ex \<and>
    apply_events sample_zones [UseQuota (days 100 + hours 10) 6, UseQuota (days 100 + hours 11) 3, UseQuota (days 100 + hours 22) 5] ex = Some ex' \<and>
    \<not> IsQuotaExceeded sample_zones (days 100 + hours 22) (sample_account\<lparr>acc_Extra := ex'\<rparr>)"
proof -
  have v: "valid_settings sample_settings" "sample_zones (qs_zone sample_settings) = Some (\<lambda>_. hours 8)"
    by (simp_all add: valid_settings_def sample_settings_def sample_zones_def)
  show ?thesis
    using quotas_enforced [where tzdb = sample_zones and a = sample_account and es = "[UseQuota (days 100 + hours 10) 6, UseQuota (days 100 + hours 11) 3, UseQuota (days 100 + hours 22) 5]",
        OF v, of "days 100" "days 100 + hours 22"]
    by (simp add: in_range_def uses_of_def over_def period_usage_def slot_def daily_anchor_def weekly_anchor_def sample_settings_def)
qed

section \<open>A zone with daylight saving time\<close>

text \<open>In Havana the clock is put forward at midnight, so that this midnight does not exist.\<close>

definition havana_zone :: zone where
  "havana_zone t = (if t < days 100 + hours 5 then - hours 5 else - hours 4)"

text \<open>The scheduler's check takes the skipped midnight for a moment an hour before it. At half past eleven in the evening the
  last reset is that of the midnight before, so that a period can start then; after midnight the last reset is taken to
  have been at eleven, and the period that started at half past eleven passes for one of the new day.\<close>

lemma skipped_midnight:
  "lastFixedDailyReset 0 havana_zone (days 100 + hours 4 + seconds 1800) = days 99 + hours 5"
  "lastFixedDailyReset 0 havana_zone (days 100 + hours 6) = days 100 + hours 4"
  by code_simp+

section \<open>Settings saved after a reset\<close>









end
