(* ===== verification/UsageBilling.thy ===== *)
theory UsageBilling
  imports AccountQuota
begin

text \<open>
  The billing of one request (\<open>service/usage_billing.go\<close>, \<open>repository/usage_billing_repo.go\<close>,
  \<open>repository/dashboard_aggregation_repo.go\<close>): the transaction that claims the key of the request, writes the usage
  log, charges the user or the subscription, counts against the quotas of the API key and the account, and
  pays the owner of a shared account.
\<close>

section \<open>Commands\<close>

datatype RequestType = RequestTypeUnknown | RequestTypeSync | RequestTypeStream | RequestTypeWSV2

record UsageLog =
  ul_UserID :: int
  ul_APIKeyID :: int
  ul_AccountID :: int
  ul_RequestID :: string
  ul_Model :: string
  ul_RequestedModel :: string
  ul_UpstreamModel :: "string option"
  ul_ChannelID :: "int option"
  ul_ModelMappingChain :: "string option"
  ul_BillingMode :: "string option"
  ul_ServiceTier :: "string option"
  ul_ReasoningEffort :: "string option"
  ul_InboundEndpoint :: "string option"
  ul_UpstreamEndpoint :: "string option"
  ul_GroupID :: "int option"
  ul_SubscriptionID :: "int option"
  ul_InputTokens :: int
  ul_OutputTokens :: int
  ul_CacheCreationTokens :: int
  ul_CacheReadTokens :: int
  ul_CacheCreation5mTokens :: int
  ul_CacheCreation1hTokens :: int
  ul_ImageOutputTokens :: int
  ul_InputCost :: float64
  ul_OutputCost :: float64
  ul_ImageOutputCost :: float64
  ul_CacheCreationCost :: float64
  ul_CacheReadCost :: float64
  ul_TotalCost :: float64
  ul_ActualCost :: float64
  ul_RateMultiplier :: float64
  ul_AccountRateMultiplier :: "float64 option"
  ul_AccountStatsCost :: "float64 option"
  ul_BillingType :: int
  ul_RequestType :: RequestType
  ul_Stream :: bool
  ul_OpenAIWSMode :: bool
  ul_DurationMs :: "int option"
  ul_FirstTokenMs :: "int option"
  ul_UserAgent :: "string option"
  ul_IPAddress :: "string option"
  ul_CacheTTLOverridden :: bool
  ul_ImageCount :: int
  ul_ImageSize :: "string option"
  ul_CreatedAt :: instant

record UsageBillingCommand =
  uc_RequestID :: string
  uc_APIKeyID :: int
  uc_RequestFingerprint :: string
  uc_RequestPayloadHash :: string
  uc_UserID :: int
  uc_AccountID :: int
  uc_GroupID :: "int option"
  uc_SubscriptionID :: "int option"
  uc_AccountType :: string
  uc_Model :: string
  uc_ServiceTier :: string
  uc_ReasoningEffort :: string
  uc_BillingType :: int
  uc_InputTokens :: int
  uc_OutputTokens :: int
  uc_CacheCreationTokens :: int
  uc_CacheReadTokens :: int
  uc_ImageCount :: int
  uc_MediaType :: string
  uc_BalanceCost :: float64
  uc_SubscriptionCost :: float64
  uc_APIKeyQuotaCost :: float64
  uc_APIKeyRateLimitCost :: float64
  uc_AccountQuotaCost :: float64
  uc_ShareSnapshotCaptured :: bool
  uc_ShareOwnerUserID :: "int option"
  uc_ShareModeSnapshot :: string
  uc_ShareStatusSnapshot :: string
  uc_SharePlatform :: string
  uc_SharePolicyID :: "int option"
  uc_SharePolicyVersion :: int
  uc_OwnerShareRatio :: float64
  uc_UsageLog :: "UsageLog option"

datatype billing_error = UsageBillingRequestIDRequired | UsageBillingRequestConflict | UsageSubscriptionNotFound | UsageUserNotFound
  | UsageAPIKeyNotFound | UsageAccountNotFound | UsageStorageError

text \<open>\<open>%0.10f\<close>: ten decimals of the exact value, halves to even.\<close>

definition round_half_even :: "rat \<Rightarrow> int" where
  "round_half_even x =
     (let n = \<lfloor>x\<rfloor>; d = x - of_int n
      in if d < 1 / 2 then n else if 1 / 2 < d then n + 1 else if even n then n else n + 1)"

definition format_fixed10 :: "float64 \<Rightarrow> string" where
  "format_fixed10 v =
     (case v of
        PInf \<Rightarrow> ''+Inf'' | NInf \<Rightarrow> ''-Inf'' | NaN \<Rightarrow> ''NaN''
      | Fin r \<Rightarrow>
          let k = round_half_even (\<bar>r\<bar> * 10 ^ 10); ds = itoa (k mod 10 ^ 10)
          in (if r < 0 then ''-'' else '''') @ itoa (k div 10 ^ 10) @ ''.'' @ replicate (10 - length ds) CHR ''0'' @ ds)"

text \<open>The hash function is a parameter. The fields of the text are separated by bars.\<close>

definition valueOrZero :: "int option \<Rightarrow> int" where
  "valueOrZero v = option_or v 0"

fun join_bars :: "string list \<Rightarrow> string" where
  "join_bars [] = ''''"
| "join_bars [s] = s"
| "join_bars (s # t # ts) = s @ CHR ''|'' # join_bars (t # ts)"

definition buildUsageBillingFingerprint :: "(string \<Rightarrow> string) \<Rightarrow> UsageBillingCommand \<Rightarrow> string" where
  "buildUsageBillingFingerprint sha c =
     sha (join_bars
       ([itoa (uc_UserID c), itoa (uc_AccountID c), itoa (uc_APIKeyID c), TrimSpace (uc_AccountType c), TrimSpace (uc_Model c),
         TrimSpace (uc_ServiceTier c), TrimSpace (uc_ReasoningEffort c), itoa (uc_BillingType c), itoa (uc_InputTokens c),
         itoa (uc_OutputTokens c), itoa (uc_CacheCreationTokens c), itoa (uc_CacheReadTokens c), itoa (uc_ImageCount c),
         TrimSpace (uc_MediaType c), itoa (valueOrZero (uc_SubscriptionID c)), format_fixed10 (uc_BalanceCost c),
         format_fixed10 (uc_SubscriptionCost c), format_fixed10 (uc_APIKeyQuotaCost c), format_fixed10 (uc_APIKeyRateLimitCost c),
         format_fixed10 (uc_AccountQuotaCost c)] @
        (if TrimSpace (uc_RequestPayloadHash c) \<noteq> '''' then [TrimSpace (uc_RequestPayloadHash c)] else [])))"

definition HashUsageRequestPayload :: "(string \<Rightarrow> string) \<Rightarrow> string \<Rightarrow> string" where
  "HashUsageRequestPayload sha payload = (if payload = '''' then '''' else sha payload)"

definition Normalize :: "(string \<Rightarrow> string) \<Rightarrow> UsageBillingCommand \<Rightarrow> UsageBillingCommand" where
  "Normalize sha c0 =
     (let c = c0\<lparr>uc_RequestID := TrimSpace (uc_RequestID c0)\<rparr>
      in if TrimSpace (uc_RequestFingerprint c) = '''' then c\<lparr>uc_RequestFingerprint := buildUsageBillingFingerprint sha c\<rparr> else c)"

section \<open>Tables\<close>

text \<open>
  Rows that are deleted are left out, and subscriptions of deleted groups. Columns of numbers keep 8 or 10
  decimals, those of a log are kept as given; an amount that is not finite makes a statement fail. The limits of the lengths of texts and the
  references between tables are not modelled: the schedule of faults lets any statement fail.
\<close>

record key_row =
  kr_quota :: rat
  kr_quota_used :: rat
  kr_status :: string
  kr_usage_5h :: rat
  kr_usage_1d :: rat
  kr_usage_7d :: rat
  kr_5h_start :: "instant option"
  kr_1d_start :: "instant option"
  kr_7d_start :: "instant option"

record account_row =
  ar_owner :: "int option"
  ar_share_mode :: string
  ar_share_status :: string
  ar_platform :: string
  ar_share_policy :: "int option"
  ar_extra :: document

record ledger_row =
  lr_user :: int
  lr_direction :: string
  lr_amount :: rat
  lr_reason :: string
  lr_ref :: "int option"
  lr_balance_after :: rat

record policy_row =
  pr_id :: int
  pr_scope :: string
  pr_ratio :: rat
  pr_version :: int
  pr_enabled :: bool
  pr_effective_at :: instant

record settlement =
  st_request :: "string \<times> int"
  st_usage_log :: "int option"
  st_consumer :: int
  st_owner :: int
  st_account :: int
  st_policy :: "int option"
  st_policy_version :: int
  st_consumer_charge :: rat
  st_account_cost :: rat
  st_owner_share_ratio :: rat
  st_owner_credit :: rat
  st_platform_fee :: rat

type_synonym request_key = "string \<times> int"

record billing_db =
  bd_dedup :: "request_key \<Rightarrow> (string \<times> instant) option"
  bd_archive :: "request_key \<Rightarrow> string option"
  bd_logs :: "(int \<times> UsageLog) list"
  bd_next_log :: int
  bd_subscriptions :: "int \<Rightarrow> (rat \<times> rat \<times> rat) option"
  bd_balances :: "int \<Rightarrow> rat option"
  bd_ledger :: "ledger_row list"
  bd_keys :: "int \<Rightarrow> key_row option"
  bd_accounts :: "int \<Rightarrow> account_row option"
  bd_policies :: "policy_row list"
  bd_settlements :: "settlement list"
  bd_outbox :: "(int \<times> instant) list"
  bd_faults :: faults

type_synonym 'a billing_result = "(billing_error + 'a) \<times> billing_db"

definition billing_call :: "billing_db \<Rightarrow> bool \<times> billing_db" where
  "billing_call db = (let (fail, fs) = io (bd_faults db) in (fail, db\<lparr>bd_faults := fs\<rparr>))"

text \<open>A statement either fails or has the effect \<open>f\<close>.\<close>

definition statement :: "(billing_db \<Rightarrow> 'a billing_result) \<Rightarrow> billing_db \<Rightarrow> 'a billing_result" where
  "statement f db0 = (let (fail, db) = billing_call db0 in if fail then (Inl UsageStorageError, db) else f db)"

definition finite_amount :: "float64 \<Rightarrow> rat option" where
  "finite_amount v = (case v of Fin r \<Rightarrow> Some r | _ \<Rightarrow> None)"

text \<open>\<open>decimal.NewFromFloat\<close> panics where the value is not finite: \<open>None\<close>. The transaction is then rolled back.\<close>

definition decimalFromFloat :: "float64 \<Rightarrow> rat option" where
  "decimalFromFloat v = (if v \<le> 0 then Some 0 else map_option (\<lambda>r. round_decimal r 10) (finite_amount v))"

definition nullablePositiveInt64 :: "int \<Rightarrow> int option" where
  "nullablePositiveInt64 v = (if v \<le> 0 then None else Some v)"

definition nullablePtrInt64 :: "int option \<Rightarrow> int option" where
  "nullablePtrInt64 v = (case v of None \<Rightarrow> None | Some n \<Rightarrow> nullablePositiveInt64 n)"

section \<open>The claim\<close>

definition claimUsageBillingKey :: "instant \<Rightarrow> UsageBillingCommand \<Rightarrow> billing_db \<Rightarrow> bool billing_result" where
  "claimUsageBillingKey now cmd db0 =
     (let key = (uc_RequestID cmd, uc_APIKeyID cmd);
          same = (\<lambda>fp. TrimSpace fp = TrimSpace (uc_RequestFingerprint cmd));
          insert_row = statement (\<lambda>db.
            if bd_dedup db key \<noteq> None then (Inr False, db)
            else (Inr True, db\<lparr>bd_dedup := (bd_dedup db)(key \<mapsto> (uc_RequestFingerprint cmd, now))\<rparr>))
      in and_then (insert_row db0) (\<lambda>inserted db.
           if \<not> inserted
           then statement (\<lambda>db. case bd_dedup db key of
                  None \<Rightarrow> (Inl UsageStorageError, db)
                | Some (fp, _) \<Rightarrow> if same fp then (Inr False, db) else (Inl UsageBillingRequestConflict, db)) db
           else statement (\<lambda>db. case bd_archive db key of
                  Some fp \<Rightarrow> if same fp then (Inr False, db) else (Inl UsageBillingRequestConflict, db)
                | None \<Rightarrow> (Inr True, db)) db))"

section \<open>The effects\<close>

text \<open>Types of requests and their older flags.\<close>

definition RequestTypeFromLegacy :: "bool \<Rightarrow> bool \<Rightarrow> RequestType" where
  "RequestTypeFromLegacy stream ws = (if ws then RequestTypeWSV2 else if stream then RequestTypeStream else RequestTypeSync)"

definition EffectiveRequestType :: "UsageLog \<Rightarrow> RequestType" where
  "EffectiveRequestType l =
     (if ul_RequestType l \<noteq> RequestTypeUnknown then ul_RequestType l else RequestTypeFromLegacy (ul_Stream l) (ul_OpenAIWSMode l))"

definition ApplyLegacyRequestFields :: "RequestType \<Rightarrow> bool \<Rightarrow> bool \<Rightarrow> bool \<times> bool" where
  "ApplyLegacyRequestFields t stream ws =
     (case t of RequestTypeSync \<Rightarrow> (False, False) | RequestTypeStream \<Rightarrow> (True, False) | RequestTypeWSV2 \<Rightarrow> (True, True)
      | RequestTypeUnknown \<Rightarrow> (stream, ws))"

definition SyncRequestTypeAndLegacyFields :: "UsageLog \<Rightarrow> UsageLog" where
  "SyncRequestTypeAndLegacyFields l =
     (let t = EffectiveRequestType l; (stream, ws) = ApplyLegacyRequestFields t (ul_Stream l) (ul_OpenAIWSMode l)
      in l\<lparr>ul_RequestType := t, ul_Stream := stream, ul_OpenAIWSMode := ws\<rparr>)"

text \<open>The row of a log: empty texts are null.\<close>

definition nullString :: "string option \<Rightarrow> string option" where
  "nullString v = (if v = Some '''' then None else v)"

definition prepareUsageLogInsert :: "instant \<Rightarrow> UsageLog \<Rightarrow> UsageLog" where
  "prepareUsageLogInsert now l0 =
     (let l = SyncRequestTypeAndLegacyFields (l0\<lparr>ul_RequestID := TrimSpace (ul_RequestID l0)\<rparr>);
          requested = TrimSpace (ul_RequestedModel l)
      in l\<lparr>ul_RequestedModel := (if requested = '''' then TrimSpace (ul_Model l) else requested),
           ul_CreatedAt := (if ul_CreatedAt l = zero_time then now else ul_CreatedAt l),
           ul_UpstreamModel := nullString (ul_UpstreamModel l), ul_UserAgent := nullString (ul_UserAgent l),
           ul_IPAddress := nullString (ul_IPAddress l), ul_ImageSize := nullString (ul_ImageSize l),
           ul_ServiceTier := nullString (ul_ServiceTier l), ul_ReasoningEffort := nullString (ul_ReasoningEffort l),
           ul_InboundEndpoint := nullString (ul_InboundEndpoint l), ul_UpstreamEndpoint := nullString (ul_UpstreamEndpoint l),
           ul_ModelMappingChain := nullString (ul_ModelMappingChain l), ul_BillingMode := nullString (ul_BillingMode l)\<rparr>)"

definition same_log :: "string \<Rightarrow> int \<Rightarrow> int \<times> UsageLog \<Rightarrow> bool" where
  "same_log r k row \<longleftrightarrow> ul_RequestID (snd row) = r \<and> ul_APIKeyID (snd row) = k"

text \<open>The identifier of the log, 0 without one.\<close>

definition ensureUsageBillingLog :: "instant \<Rightarrow> UsageBillingCommand \<Rightarrow> billing_db \<Rightarrow> int billing_result" where
  "ensureUsageBillingLog now cmd db0 =
     (case uc_UsageLog cmd of
        None \<Rightarrow> (Inr 0, db0)
      | Some l0 \<Rightarrow>
          let l1 = (if TrimSpace (ul_RequestID l0) = '''' then l0\<lparr>ul_RequestID := uc_RequestID cmd\<rparr> else l0);
              l2 = (if ul_APIKeyID l1 = 0 then l1\<lparr>ul_APIKeyID := uc_APIKeyID cmd\<rparr> else l1);
              l3 = (if ul_UserID l2 = 0 then l2\<lparr>ul_UserID := uc_UserID cmd\<rparr> else l2);
              l4 = (if ul_AccountID l3 = 0 then l3\<lparr>ul_AccountID := uc_AccountID cmd\<rparr> else l3);
              row = prepareUsageLogInsert now l4; r = ul_RequestID row; k = ul_APIKeyID row
          in and_then
               (statement (\<lambda>db.
                  if r \<noteq> '''' \<and> list_ex (same_log r k) (bd_logs db) then (Inr None, db)
                  else (Inr (Some (bd_next_log db)), db\<lparr>bd_logs := bd_logs db @ [(bd_next_log db, row)], bd_next_log := bd_next_log db + 1\<rparr>)) db0)
               (\<lambda>i db. case i of
                  Some n \<Rightarrow> (Inr n, db)
                | None \<Rightarrow> statement (\<lambda>db. case find (same_log r k) (bd_logs db) of
                            Some (n, _) \<Rightarrow> (Inr n, db) | None \<Rightarrow> (Inl UsageStorageError, db)) db))"

definition incrementUsageBillingSubscription :: "int \<Rightarrow> float64 \<Rightarrow> billing_db \<Rightarrow> unit billing_result" where
  "incrementUsageBillingSubscription i cost =
     statement (\<lambda>db.
       case (finite_amount cost, bd_subscriptions db i) of
         (None, _) \<Rightarrow> (Inl UsageStorageError, db)
       | (Some c, None) \<Rightarrow> (Inl UsageSubscriptionNotFound, db)
       | (Some c, Some (d, w, m)) \<Rightarrow>
           (Inr (), db\<lparr>bd_subscriptions := (bd_subscriptions db)
              (i \<mapsto> (round_decimal (d + c) 10, round_decimal (w + c) 10, round_decimal (m + c) 10))\<rparr>))"

text \<open>A statement that adds to a balance, and the new balance.\<close>

definition change_balance :: "int \<Rightarrow> rat \<Rightarrow> billing_db \<Rightarrow> rat billing_result" where
  "change_balance u x =
     statement (\<lambda>db.
       case bd_balances db u of
         None \<Rightarrow> (Inl UsageUserNotFound, db)
       | Some b \<Rightarrow> let b' = round_decimal (b + x) 8 in (Inr b', db\<lparr>bd_balances := (bd_balances db)(u \<mapsto> b')\<rparr>))"

definition deductUsageBillingBalance :: "int \<Rightarrow> float64 \<Rightarrow> billing_db \<Rightarrow> rat billing_result" where
  "deductUsageBillingBalance u amount db =
     (case finite_amount amount of None \<Rightarrow> (Inl UsageStorageError, db) | Some a \<Rightarrow> change_balance u (- a) db)"

definition creditUsageBillingBalance :: "int \<Rightarrow> rat \<Rightarrow> billing_db \<Rightarrow> rat billing_result" where
  "creditUsageBillingBalance u amount = change_balance u amount"

text \<open>Of rows of one user, direction, reason and reference only the first is stored.\<close>

definition ledger_conflict :: "ledger_row \<Rightarrow> ledger_row \<Rightarrow> bool" where
  "ledger_conflict r l \<longleftrightarrow>
     lr_ref r \<noteq> None \<and> lr_user l = lr_user r \<and> lr_direction l = lr_direction r \<and> lr_reason l = lr_reason r \<and> lr_ref l = lr_ref r"

definition insertUserBalanceLedger :: "ledger_row \<Rightarrow> billing_db \<Rightarrow> unit billing_result" where
  "insertUserBalanceLedger r db0 =
     (if lr_user r \<le> 0 \<or> lr_amount r < 0 then (Inr (), db0)
      else statement (\<lambda>db. (Inr (), if list_ex (ledger_conflict r) (bd_ledger db) then db else db\<lparr>bd_ledger := bd_ledger db @ [r]\<rparr>)) db0)"

definition StatusAPIKeyActive :: string where "StatusAPIKeyActive = ''active''"

definition StatusAPIKeyQuotaExhausted :: string where "StatusAPIKeyQuotaExhausted = ''quota_exhausted''"

definition use_key_quota :: "rat \<Rightarrow> key_row \<Rightarrow> key_row" where
  "use_key_quota a k =
     k\<lparr>kr_quota_used := round_decimal (kr_quota_used k + a) 8,
       kr_status := (if 0 < kr_quota k \<and> kr_status k = StatusAPIKeyActive \<and> kr_quota_used k < kr_quota k \<and> kr_quota k \<le> kr_quota_used k + a
                     then StatusAPIKeyQuotaExhausted else kr_status k)\<rparr>"

text \<open>Updates one key with \<open>f\<close>.\<close>

definition update_key :: "int \<Rightarrow> float64 \<Rightarrow> (rat \<Rightarrow> key_row \<Rightarrow> key_row) \<Rightarrow> billing_db \<Rightarrow> key_row billing_result" where
  "update_key i amount f =
     statement (\<lambda>db.
       case (finite_amount amount, bd_keys db i) of
         (None, _) \<Rightarrow> (Inl UsageStorageError, db)
       | (Some a, None) \<Rightarrow> (Inl UsageAPIKeyNotFound, db)
       | (Some a, Some k) \<Rightarrow> (Inr (f a k), db\<lparr>bd_keys := (bd_keys db)(i \<mapsto> f a k)\<rparr>))"

definition incrementUsageBillingAPIKeyQuota :: "int \<Rightarrow> float64 \<Rightarrow> billing_db \<Rightarrow> bool billing_result" where
  "incrementUsageBillingAPIKeyQuota i amount db0 =
     and_then (update_key i amount use_key_quota db0) (\<lambda>k db.
       (Inr (case finite_amount amount of
               Some a \<Rightarrow> 0 < kr_quota k \<and> kr_quota k \<le> kr_quota_used k \<and> kr_quota_used k - a < kr_quota k
             | None \<Rightarrow> False), db))"

definition window_over :: "instant \<Rightarrow> duration \<Rightarrow> instant option \<Rightarrow> bool" where
  "window_over now d start \<longleftrightarrow> (case start of None \<Rightarrow> False | Some s \<Rightarrow> s + d \<le> now)"

definition window_usage :: "instant \<Rightarrow> duration \<Rightarrow> instant option \<Rightarrow> rat \<Rightarrow> rat \<Rightarrow> rat" where
  "window_usage now d start used a = round_decimal (if window_over now d start then a else used + a) 8"

definition window_start :: "instant \<Rightarrow> duration \<Rightarrow> instant option \<Rightarrow> instant \<Rightarrow> instant option" where
  "window_start now d start new = (if start = None \<or> window_over now d start then Some new else start)"

text \<open>The zone of the database session decides when a day starts.\<close>

definition use_key_rate_limit :: "zone \<Rightarrow> instant \<Rightarrow> rat \<Rightarrow> key_row \<Rightarrow> key_row" where
  "use_key_rate_limit tz now a k =
     (let midnight = Date tz (days (local_time tz now div days 1))
      in k\<lparr>kr_usage_5h := window_usage now (hours 5) (kr_5h_start k) (kr_usage_5h k) a,
           kr_usage_1d := window_usage now (hours 24) (kr_1d_start k) (kr_usage_1d k) a,
           kr_usage_7d := window_usage now (days 7) (kr_7d_start k) (kr_usage_7d k) a,
           kr_5h_start := window_start now (hours 5) (kr_5h_start k) now,
           kr_1d_start := window_start now (hours 24) (kr_1d_start k) midnight,
           kr_7d_start := window_start now (days 7) (kr_7d_start k) midnight\<rparr>)"

definition incrementUsageBillingAPIKeyRateLimit :: "zone \<Rightarrow> instant \<Rightarrow> int \<Rightarrow> float64 \<Rightarrow> billing_db \<Rightarrow> unit billing_result" where
  "incrementUsageBillingAPIKeyRateLimit tz now i cost db0 =
     and_then (update_key i cost (use_key_rate_limit tz now) db0) (\<lambda>_ db. (Inr (), db))"

record AccountQuotaState =
  qs_TotalUsed :: rat
  qs_TotalLimit :: rat
  qs_DailyUsed :: rat
  qs_DailyLimit :: rat
  qs_WeeklyUsed :: rat
  qs_WeeklyLimit :: rat

definition read_quota_state :: "document \<Rightarrow> AccountQuotaState option" where
  "read_quota_state ex =
     (case (sql_number ex ''quota_used'' 0, sql_number ex ''quota_limit'' 0, sql_number ex ''quota_daily_used'' 0,
            sql_number ex ''quota_daily_limit'' 0, sql_number ex ''quota_weekly_used'' 0, sql_number ex ''quota_weekly_limit'' 0) of
        (Some u0, Some l0, Some u1, Some l1, Some u2, Some l2) \<Rightarrow>
          Some \<lparr>qs_TotalUsed = u0, qs_TotalLimit = l0, qs_DailyUsed = u1, qs_DailyLimit = l1, qs_WeeklyUsed = u2, qs_WeeklyLimit = l2\<rparr>
      | _ \<Rightarrow> None)"

definition crossed :: "rat \<Rightarrow> rat \<Rightarrow> rat \<Rightarrow> bool" where
  "crossed limit used amount \<longleftrightarrow> 0 < limit \<and> limit \<le> used \<and> used - amount < limit"

definition crossed_any :: "AccountQuotaState \<Rightarrow> rat \<Rightarrow> bool" where
  "crossed_any s a \<longleftrightarrow>
     crossed (qs_TotalLimit s) (qs_TotalUsed s) a \<or> crossed (qs_DailyLimit s) (qs_DailyUsed s) a \<or> crossed (qs_WeeklyLimit s) (qs_WeeklyUsed s) a"

definition incrementUsageBillingAccountQuota ::
    "(string \<Rightarrow> zone option) \<Rightarrow> instant \<Rightarrow> int \<Rightarrow> float64 \<Rightarrow> billing_db \<Rightarrow> AccountQuotaState billing_result" where
  "incrementUsageBillingAccountQuota tzdb now i amount db0 =
     and_then
       (statement (\<lambda>db.
          case (finite_amount amount, bd_accounts db i) of
            (None, _) \<Rightarrow> (Inl UsageStorageError, db)
          | (Some a, None) \<Rightarrow> (Inl UsageAccountNotFound, db)
          | (Some a, Some acc) \<Rightarrow>
              (case increment tzdb now a (ar_extra acc) of
                 None \<Rightarrow> (Inl UsageStorageError, db)
               | Some ex \<Rightarrow>
                   (case read_quota_state ex of
                      None \<Rightarrow> (Inl UsageStorageError, db)
                    | Some st \<Rightarrow> (Inr (st, crossed_any st a), db\<lparr>bd_accounts := (bd_accounts db)(i \<mapsto> acc\<lparr>ar_extra := ex\<rparr>)\<rparr>)))) db0)
       (\<lambda>(st, cross) db.
          if cross then statement (\<lambda>db. (Inr st, db\<lparr>bd_outbox := outbox_insert now i (bd_outbox db)\<rparr>)) db
          else (Inr st, db))"

section \<open>The share of the owner\<close>

text \<open>What is known of the account: its owner (0 if there is none), how it is shared, its policy.\<close>

record accountShareSnapshot =
  ss_owner :: int
  ss_mode :: string
  ss_status :: string
  ss_platform :: string
  ss_policy :: "int option"

definition loadAccountShareSnapshot :: "int \<Rightarrow> billing_db \<Rightarrow> accountShareSnapshot billing_result" where
  "loadAccountShareSnapshot i =
     statement (\<lambda>db.
       case bd_accounts db i of
         None \<Rightarrow> (Inl UsageAccountNotFound, db)
       | Some a \<Rightarrow>
           (Inr \<lparr>ss_owner = valueOrZero (ar_owner a),
                 ss_mode = (if ar_share_mode a = '''' then ''private'' else ar_share_mode a),
                 ss_status = (if ar_share_status a = '''' then ''approved'' else ar_share_status a),
                 ss_platform = TrimSpace (ar_platform a), ss_policy = ar_share_policy a\<rparr>, db))"

definition or_text :: "string \<Rightarrow> string \<Rightarrow> string" where
  "or_text s t = (if s = '''' then t else s)"

definition accountShareSnapshotForSettlement :: "UsageBillingCommand \<Rightarrow> billing_db \<Rightarrow> accountShareSnapshot billing_result" where
  "accountShareSnapshotForSettlement cmd db0 =
     (let owner = option_or (nullablePtrInt64 (uc_ShareOwnerUserID cmd)) 0;
          given = \<lparr>ss_owner = owner, ss_mode = uc_ShareModeSnapshot cmd, ss_status = uc_ShareStatusSnapshot cmd,
                   ss_platform = TrimSpace (uc_SharePlatform cmd), ss_policy = nullablePtrInt64 (uc_SharePolicyID cmd)\<rparr>
      in if uc_ShareSnapshotCaptured cmd then (Inr given, db0)
         else if owner \<le> 0 then loadAccountShareSnapshot (uc_AccountID cmd) db0
         else if ss_mode given = '''' \<or> ss_status given = ''''
         then and_then (loadAccountShareSnapshot (uc_AccountID cmd) db0) (\<lambda>s db.
                (Inr (given\<lparr>ss_mode := or_text (ss_mode given) (ss_mode s), ss_status := or_text (ss_status given) (ss_status s),
                            ss_platform := or_text (ss_platform given) (ss_platform s),
                            ss_policy := (if ss_policy given = None then ss_policy s else ss_policy given)\<rparr>), db))
         else (Inr given, db0))"

definition accountShareConsumerCharge :: "UsageBillingCommand \<Rightarrow> rat option" where
  "accountShareConsumerCharge cmd =
     (if 0 < uc_BalanceCost cmd then decimalFromFloat (uc_BalanceCost cmd)
      else if 0 < uc_SubscriptionCost cmd then decimalFromFloat (uc_SubscriptionCost cmd)
      else case uc_UsageLog cmd of
             Some l \<Rightarrow> if 0 < ul_ActualCost l then decimalFromFloat (ul_ActualCost l) else Some 0
           | None \<Rightarrow> Some 0)"

text \<open>The newest policy: by the time it takes effect, its version, its identifier. A ratio is put between 0 and 1.\<close>

definition policy_key :: "policy_row \<Rightarrow> instant \<times> int \<times> int" where
  "policy_key p = (- pr_effective_at p, - pr_version p, - pr_id p)"

definition clamp_ratio :: "rat \<Rightarrow> rat" where
  "clamp_ratio r = (if r < 0 then 0 else if 1 < r then 1 else r)"

definition queryAccountSharePolicy :: "instant \<Rightarrow> billing_db \<Rightarrow> (int option \<times> int \<times> rat) option billing_result" where
  "queryAccountSharePolicy now =
     statement (\<lambda>db.
       (Inr (case sort_key policy_key (filter (\<lambda>p. pr_enabled p \<and> pr_effective_at p \<le> now \<and> pr_scope p = ''global'') (bd_policies db)) of
               [] \<Rightarrow> None
             | p # _ \<Rightarrow> Some (Some (pr_id p), pr_version p, clamp_ratio (pr_ratio p))), db))"

definition resolveAccountSharePolicy :: "instant \<Rightarrow> UsageBillingCommand \<Rightarrow> billing_db \<Rightarrow> (int option \<times> int \<times> rat) billing_result" where
  "resolveAccountSharePolicy now cmd db0 =
     (if 0 < uc_OwnerShareRatio cmd
      then (case decimalFromFloat (uc_OwnerShareRatio cmd) of
              None \<Rightarrow> (Inl UsageStorageError, db0)
            | Some ratio \<Rightarrow> (Inr (nullablePtrInt64 (uc_SharePolicyID cmd), uc_SharePolicyVersion cmd, if 1 < ratio then 1 else ratio), db0))
      else and_then (queryAccountSharePolicy now db0) (\<lambda>p db. (Inr (option_or p (None, 0, 0)), db)))"

definition accountCostForSettlement :: "UsageBillingCommand \<Rightarrow> rat option" where
  "accountCostForSettlement cmd =
     (case uc_UsageLog cmd of
        None \<Rightarrow> decimalFromFloat (uc_AccountQuotaCost cmd)
      | Some l \<Rightarrow>
          (case (decimalFromFloat (option_or (ul_AccountStatsCost l) (ul_TotalCost l)),
                 decimalFromFloat (option_or (ul_AccountRateMultiplier l) 1)) of
             (Some base, Some m) \<Rightarrow> Some (round_decimal (base * m) 10)
           | _ \<Rightarrow> None))"

text \<open>One settlement for each request, and for each usage log; a second one for the same request is not inserted.\<close>

definition insertAccountShareSettlement :: "settlement \<Rightarrow> billing_db \<Rightarrow> bool billing_result" where
  "insertAccountShareSettlement s =
     statement (\<lambda>db.
       if list_ex (\<lambda>t. st_request t = st_request s) (bd_settlements db) then (Inr False, db)
       else if st_usage_log s \<noteq> None \<and> list_ex (\<lambda>t. st_usage_log t = st_usage_log s) (bd_settlements db) then (Inl UsageStorageError, db)
       else (Inr True, db\<lparr>bd_settlements := bd_settlements db @ [s]\<rparr>))"

definition split_charge :: "rat \<Rightarrow> rat \<Rightarrow> rat \<times> rat" where
  "split_charge charge ratio =
     (let raw = round_decimal (charge * ratio) 10;
          credit = (let c = (if charge < raw then charge else raw) in if c < 0 then 0 else c);
          fee = round_decimal (charge - credit) 10
      in (credit, if fee < 0 then 0 else fee))"

definition applyAccountShareSettlement :: "instant \<Rightarrow> UsageBillingCommand \<Rightarrow> int \<Rightarrow> billing_db \<Rightarrow> unit billing_result" where
  "applyAccountShareSettlement now cmd log_id db0 =
     (if uc_UserID cmd \<le> 0 \<or> uc_AccountID cmd \<le> 0 then (Inr (), db0)
      else case accountShareConsumerCharge cmd of
        None \<Rightarrow> (Inl UsageStorageError, db0)
      | Some charge \<Rightarrow>
          if charge = 0 then (Inr (), db0)
          else and_then (accountShareSnapshotForSettlement cmd db0) (\<lambda>account db.
            if ss_owner account \<le> 0 \<or> ss_owner account = uc_UserID cmd then (Inr (), db)
            else if NormalizeAccountShareMode (ss_mode account) \<noteq> AccountShareModePublic \<or>
                    NormalizeAccountShareStatus (ss_status account) \<noteq> AccountShareStatusApproved then (Inr (), db)
            else and_then (resolveAccountSharePolicy now cmd db) (\<lambda>(policy, version, ratio) db.
              case accountCostForSettlement cmd of
                None \<Rightarrow> (Inl UsageStorageError, db)
              | Some cost \<Rightarrow>
                  let (credit, fee) = split_charge charge ratio;
                      s = \<lparr>st_request = (uc_RequestID cmd, uc_APIKeyID cmd), st_usage_log = nullablePositiveInt64 log_id,
                           st_consumer = uc_UserID cmd, st_owner = ss_owner account, st_account = uc_AccountID cmd,
                           st_policy = policy, st_policy_version = version, st_consumer_charge = charge, st_account_cost = cost,
                           st_owner_share_ratio = round_decimal ratio 6, st_owner_credit = credit, st_platform_fee = fee\<rparr>
                  in and_then (insertAccountShareSettlement s db) (\<lambda>inserted db.
                       if \<not> inserted \<or> credit = 0 then (Inr (), db)
                       else and_then (creditUsageBillingBalance (ss_owner account) credit db) (\<lambda>balance db.
                              case decimalFromFloat (Fin balance) of
                                None \<Rightarrow> (Inl UsageStorageError, db)
                              | Some b \<Rightarrow>
                                  insertUserBalanceLedger \<lparr>lr_user = ss_owner account, lr_direction = ''credit'', lr_amount = credit,
                                    lr_reason = ''account_share_income'', lr_ref = nullablePositiveInt64 log_id, lr_balance_after = b\<rparr> db)))))"

section \<open>The transaction\<close>

record UsageBillingApplyResult =
  ur_Applied :: bool
  ur_APIKeyQuotaExhausted :: bool
  ur_NewBalance :: "rat option"
  ur_QuotaState :: "AccountQuotaState option"
  ur_UsageLogID :: "int option"

definition not_applied :: UsageBillingApplyResult where
  "not_applied = \<lparr>ur_Applied = False, ur_APIKeyQuotaExhausted = False, ur_NewBalance = None, ur_QuotaState = None, ur_UsageLogID = None\<rparr>"

text \<open>A step that is skipped unless its condition holds.\<close>

definition only_if :: "bool \<Rightarrow> 'a \<Rightarrow> (billing_db \<Rightarrow> 'a billing_result) \<Rightarrow> billing_db \<Rightarrow> 'a billing_result" where
  "only_if c d f db = (if c then f db else (Inr d, db))"

definition charge_balance :: "UsageBillingCommand \<Rightarrow> int \<Rightarrow> billing_db \<Rightarrow> rat option billing_result" where
  "charge_balance cmd log_id db0 =
     and_then (deductUsageBillingBalance (uc_UserID cmd) (uc_BalanceCost cmd) db0) (\<lambda>balance db.
       case (decimalFromFloat (uc_BalanceCost cmd), decimalFromFloat (Fin balance)) of
         (Some amount, Some b) \<Rightarrow>
           and_then (insertUserBalanceLedger \<lparr>lr_user = uc_UserID cmd, lr_direction = ''debit'', lr_amount = amount,
               lr_reason = ''usage_charge'', lr_ref = nullablePositiveInt64 log_id, lr_balance_after = b\<rparr> db)
             (\<lambda>_ db. (Inr (Some balance), db))
       | _ \<Rightarrow> (Inl UsageStorageError, db))"

definition counts_against_account :: "UsageBillingCommand \<Rightarrow> bool" where
  "counts_against_account cmd \<longleftrightarrow>
     0 < uc_AccountQuotaCost cmd \<and>
     (EqualFold (uc_AccountType cmd) AccountTypeAPIKey \<or> EqualFold (uc_AccountType cmd) AccountTypeBedrock)"

definition applyUsageBillingEffects ::
    "(string \<Rightarrow> zone option) \<Rightarrow> zone \<Rightarrow> instant \<Rightarrow> UsageBillingCommand \<Rightarrow> billing_db \<Rightarrow> UsageBillingApplyResult billing_result" where
  "applyUsageBillingEffects tzdb tz now cmd db0 =
     and_then (ensureUsageBillingLog now cmd db0) (\<lambda>log_id db.
     and_then (case uc_SubscriptionID cmd of
                 Some s \<Rightarrow> only_if (0 < uc_SubscriptionCost cmd) () (incrementUsageBillingSubscription s (uc_SubscriptionCost cmd)) db
               | None \<Rightarrow> (Inr (), db)) (\<lambda>_ db.
     and_then (only_if (0 < uc_BalanceCost cmd) None (charge_balance cmd log_id) db) (\<lambda>balance db.
     and_then (only_if (0 < uc_APIKeyQuotaCost cmd) False (incrementUsageBillingAPIKeyQuota (uc_APIKeyID cmd) (uc_APIKeyQuotaCost cmd)) db) (\<lambda>exhausted db.
     and_then (only_if (0 < uc_APIKeyRateLimitCost cmd) () (incrementUsageBillingAPIKeyRateLimit tz now (uc_APIKeyID cmd) (uc_APIKeyRateLimitCost cmd)) db) (\<lambda>_ db.
     and_then (only_if (counts_against_account cmd) None (\<lambda>db.
         and_then (incrementUsageBillingAccountQuota tzdb now (uc_AccountID cmd) (uc_AccountQuotaCost cmd) db) (\<lambda>st db. (Inr (Some st), db))) db) (\<lambda>quota db.
     and_then (applyAccountShareSettlement now cmd log_id db) (\<lambda>_ db.
       (Inr \<lparr>ur_Applied = True, ur_APIKeyQuotaExhausted = exhausted, ur_NewBalance = balance, ur_QuotaState = quota,
             ur_UsageLogID = (if 0 < log_id then Some log_id else None)\<rparr>, db))))))))"

definition undo_billing :: "billing_db \<Rightarrow> billing_db \<Rightarrow> billing_db" where
  "undo_billing db db' = db\<lparr>bd_faults := bd_faults db'\<rparr>"

text \<open>A key that was claimed before ends the transaction without a commit.\<close>

definition Apply :: "(string \<Rightarrow> string) \<Rightarrow> (string \<Rightarrow> zone option) \<Rightarrow> zone \<Rightarrow> instant \<Rightarrow> UsageBillingCommand \<Rightarrow> billing_db \<Rightarrow>
    UsageBillingApplyResult billing_result" where
  "Apply sha tzdb tz now cmd0 db0 =
     (let cmd = Normalize sha cmd0
      in if uc_RequestID cmd = '''' then (Inl UsageBillingRequestIDRequired, db0)
         else let (fail, db) = billing_call db0
           in if fail then (Inl UsageStorageError, db)
              else case claimUsageBillingKey now cmd db of
                (Inl e, db') \<Rightarrow> (Inl e, undo_billing db db')
              | (Inr False, db') \<Rightarrow> (Inr not_applied, undo_billing db db')
              | (Inr True, db') \<Rightarrow>
                  (case applyUsageBillingEffects tzdb tz now cmd db' of
                     (Inl e, db'') \<Rightarrow> (Inl e, undo_billing db db'')
                   | (Inr r, db'') \<Rightarrow>
                       let (fail, db3) = billing_call db'' in if fail then (Inl UsageStorageError, undo_billing db db3) else (Inr r, db3)))"

section \<open>The archive\<close>

text \<open>Batches of old claims are moved to the archive; the database chooses the rows of a batch.\<close>

definition archive_batch :: "instant \<Rightarrow> request_key list \<Rightarrow> billing_db \<Rightarrow> unit billing_result" where
  "archive_batch cutoff victims =
     statement (\<lambda>db.
       let old = filter (\<lambda>k. case bd_dedup db k of Some (_, t) \<Rightarrow> t < cutoff | None \<Rightarrow> False) victims
       in (Inr (), db\<lparr>bd_archive := (\<lambda>k. if k \<in> set old \<and> bd_archive db k = None then map_option fst (bd_dedup db k) else bd_archive db k),
                      bd_dedup := (\<lambda>k. if k \<in> set old then None else bd_dedup db k)\<rparr>))"

fun CleanupUsageBillingDedup :: "instant \<Rightarrow> request_key list list \<Rightarrow> billing_db \<Rightarrow> unit billing_result" where
  "CleanupUsageBillingDedup cutoff [] db = (Inr (), db)"
| "CleanupUsageBillingDedup cutoff (b # bs) db = and_then (archive_batch cutoff b db) (\<lambda>_ db. CleanupUsageBillingDedup cutoff bs db)"

section \<open>Frames\<close>

text \<open>Relations between databases that storage faults do not disturb, and what each step leaves in them.\<close>

locale billing_frame = state_frame R for R :: "billing_db \<Rightarrow> billing_db \<Rightarrow> bool" +
  assumes frame_faults: "R db (db\<lparr>bd_faults := fs\<rparr>)"
begin

lemma call_leads: "R s0 db \<Longrightarrow> leads R s0 (billing_call db)"
  by (auto simp: leads_def billing_call_def split: prod.splits intro: frame_trans frame_faults)

lemma statement_leads [leads_intros]:
  "R s0 db \<Longrightarrow> (\<And>db. R s0 db \<Longrightarrow> leads R s0 (f db)) \<Longrightarrow> leads R s0 (statement f db)"
  using call_leads [of s0 db] by (auto simp: statement_def leads_def split: prod.splits)

lemma only_if_leads [leads_intros]: "R s0 db \<Longrightarrow> (c \<Longrightarrow> leads R s0 (f db)) \<Longrightarrow> leads R s0 (only_if c d f db)"
  by (simp add: only_if_def leads_def)

end

text \<open>The tables of claims.\<close>

definition claims_kept :: "billing_db \<Rightarrow> billing_db \<Rightarrow> bool" where
  "claims_kept a b \<longleftrightarrow> bd_dedup b = bd_dedup a \<and> bd_archive b = bd_archive a"

interpretation claims: billing_frame claims_kept
  by unfold_locales (auto simp: claims_kept_def)

lemma claims_kept_update:
  "claims_kept s0 (db\<lparr>bd_logs := l, bd_next_log := n\<rparr>) = claims_kept s0 db" "claims_kept s0 (db\<lparr>bd_subscriptions := u\<rparr>) = claims_kept s0 db"
  "claims_kept s0 (db\<lparr>bd_balances := b\<rparr>) = claims_kept s0 db" "claims_kept s0 (db\<lparr>bd_ledger := r\<rparr>) = claims_kept s0 db"
  "claims_kept s0 (db\<lparr>bd_keys := k\<rparr>) = claims_kept s0 db" "claims_kept s0 (db\<lparr>bd_accounts := a\<rparr>) = claims_kept s0 db"
  "claims_kept s0 (db\<lparr>bd_settlements := t\<rparr>) = claims_kept s0 db" "claims_kept s0 (db\<lparr>bd_outbox := x\<rparr>) = claims_kept s0 db"
  by (simp_all add: claims_kept_def)

lemmas billing_steps = ensureUsageBillingLog_def incrementUsageBillingSubscription_def change_balance_def deductUsageBillingBalance_def
  creditUsageBillingBalance_def insertUserBalanceLedger_def update_key_def incrementUsageBillingAPIKeyQuota_def
  incrementUsageBillingAPIKeyRateLimit_def incrementUsageBillingAccountQuota_def loadAccountShareSnapshot_def
  accountShareSnapshotForSettlement_def queryAccountSharePolicy_def resolveAccountSharePolicy_def insertAccountShareSettlement_def
  applyAccountShareSettlement_def charge_balance_def applyUsageBillingEffects_def

lemma leads_pair_case: "(\<And>x y. p = (x, y) \<Longrightarrow> leads R s0 (f x y)) \<Longrightarrow> leads R s0 (case p of (x, y) \<Rightarrow> f x y)"
  by (cases p) simp

lemma leads_pair_case_fun: "(\<And>x y. p = (x, y) \<Longrightarrow> leads R s0 (f x y s)) \<Longrightarrow> leads R s0 ((case p of (x, y) \<Rightarrow> f x y) s)"
  by (cases p) simp

lemma leads_let: "(\<And>y. y = x \<Longrightarrow> leads R s0 (f y)) \<Longrightarrow> leads R s0 (let y = x in f y)"
  by simp

lemmas billing_intros = leads_intros leads_pair_case leads_pair_case_fun leads_let

lemma effects_claims: "claims_kept s0 db \<Longrightarrow> leads claims_kept s0 (applyUsageBillingEffects tzdb tz now cmd db)"
  unfolding billing_steps by (intro billing_intros; (simp add: claims_kept_update)?)

section \<open>At most once\<close>

definition seen :: "billing_db \<Rightarrow> request_key \<Rightarrow> bool" where
  "seen db key \<longleftrightarrow> bd_dedup db key \<noteq> None \<or> bd_archive db key \<noteq> None"

definition command_key :: "(string \<Rightarrow> string) \<Rightarrow> UsageBillingCommand \<Rightarrow> request_key" where
  "command_key sha cmd = (uc_RequestID (Normalize sha cmd), uc_APIKeyID cmd)"

lemma Normalize_kept [simp]: "uc_APIKeyID (Normalize sha cmd) = uc_APIKeyID cmd" "uc_UserID (Normalize sha cmd) = uc_UserID cmd"
  "uc_BalanceCost (Normalize sha cmd) = uc_BalanceCost cmd" "uc_SubscriptionCost (Normalize sha cmd) = uc_SubscriptionCost cmd"
  "uc_APIKeyQuotaCost (Normalize sha cmd) = uc_APIKeyQuotaCost cmd" "uc_APIKeyRateLimitCost (Normalize sha cmd) = uc_APIKeyRateLimitCost cmd"
  "uc_AccountQuotaCost (Normalize sha cmd) = uc_AccountQuotaCost cmd" "uc_UsageLog (Normalize sha cmd) = uc_UsageLog cmd"
  "uc_ShareSnapshotCaptured (Normalize sha cmd) = uc_ShareSnapshotCaptured cmd" "uc_ShareOwnerUserID (Normalize sha cmd) = uc_ShareOwnerUserID cmd"
  "uc_AccountID (Normalize sha cmd) = uc_AccountID cmd" "uc_SubscriptionID (Normalize sha cmd) = uc_SubscriptionID cmd"
  "uc_RequestID (Normalize sha cmd) = TrimSpace (uc_RequestID cmd)"
  by (simp_all add: Normalize_def Let_def)

lemma claim_taken:
  assumes "claimUsageBillingKey now cmd db = (Inr True, db')"
  shows "\<not> seen db (uc_RequestID cmd, uc_APIKeyID cmd)"
    and "bd_dedup db' = (bd_dedup db)((uc_RequestID cmd, uc_APIKeyID cmd) \<mapsto> (uc_RequestFingerprint cmd, now))"
    and "bd_archive db' = bd_archive db"
  using assms
  by (auto simp: claimUsageBillingKey_def statement_def billing_call_def and_then_def seen_def Let_def
      split: prod.splits sum.splits if_splits option.splits)

lemma effects_Applied: "applyUsageBillingEffects tzdb tz now cmd db = (Inr r, db') \<Longrightarrow> ur_Applied r"
  by (auto simp: applyUsageBillingEffects_def elim!: and_then_InrE)

lemma Apply_cases:
  assumes "Apply sha tzdb tz now cmd db = (r, db')"
  obtains (applied) a where "r = Inr a" and "ur_Applied a" and "\<not> seen db (command_key sha cmd)"
      and "bd_dedup db' = (bd_dedup db)(command_key sha cmd \<mapsto> (uc_RequestFingerprint (Normalize sha cmd), now))"
      and "bd_archive db' = bd_archive db"
    | (unchanged) fs where "db' = db\<lparr>bd_faults := fs\<rparr>" and "\<forall>a. r = Inr a \<longrightarrow> \<not> ur_Applied a"
proof (cases "uc_RequestID (Normalize sha cmd) = ''''")
  case True
  then show ?thesis using assms by (intro unchanged [of "bd_faults db"]) (auto simp: Apply_def Let_def)
next
  case False
  obtain b db1 where c: "billing_call db = (b, db1)" by fastforce
  then have db1: "db1 = db\<lparr>bd_faults := bd_faults db1\<rparr>" by (auto simp: billing_call_def split: prod.splits)
  obtain q db2 where k: "claimUsageBillingKey now (Normalize sha cmd) db1 = (q, db2)" by fastforce
  have roll: "undo_billing db1 x = db\<lparr>bd_faults := bd_faults x\<rparr>" for x by (subst db1) (simp add: undo_billing_def)
  show ?thesis
  proof (cases "b \<or> q \<noteq> Inr True")
    case True
    then show ?thesis using assms False c k roll db1
      by (cases q) (auto simp: Apply_def Let_def not_applied_def split: if_splits bool.splits intro!: unchanged)
  next
    case taken: False
    obtain e db3 where f: "applyUsageBillingEffects tzdb tz now (Normalize sha cmd) db2 = (e, db3)" by fastforce
    obtain b' db4 where c': "billing_call db3 = (b', db4)" by fastforce
    have "(r, db') = (case e of Inl x \<Rightarrow> (Inl x, undo_billing db1 db3)
        | Inr a \<Rightarrow> if b' then (Inl UsageStorageError, undo_billing db1 db4) else (Inr a, db4))"
      using assms False c k taken f c' by (auto simp: Apply_def Let_def split: sum.splits)
    then consider a where "e = Inr a" "\<not> b'" "r = Inr a" "db' = db4" | x y where "r = Inl x" "db' = undo_billing db1 y"
      by (cases e; cases b') auto
    then show ?thesis
    proof cases
      case 1
      note t = claim_taken [OF k [unfolded taken [simplified, THEN conjunct2]]]
      have "claims_kept db2 db3" using effects_claims [OF claims.frame_refl, of db2 tzdb tz now "Normalize sha cmd"] f by (simp add: leads_def)
      moreover have "claims_kept db3 db4" using claims.call_leads [OF claims.frame_refl, of db3] c' by (simp add: leads_def)
      moreover have "seen db1 = seen db" "bd_dedup db1 = bd_dedup db" "bd_archive db1 = bd_archive db"
        by (subst db1, simp add: seen_def fun_eq_iff)+
      ultimately show ?thesis using 1 t effects_Applied [OF f [unfolded 1(1)]]
        by (intro applied) (simp_all add: claims_kept_def command_key_def)
    next
      case 2
      then show ?thesis by (intro unchanged) (simp_all add: roll)
    qed
  qed
qed

end
