(* ===== verification/UsageBilled.thy ===== *)
theory UsageBilled
  imports UsageBilling
begin

text \<open>
  What the billing of requests guarantees over any sequence of deliveries, with repeats, storage faults and moves
  to the archive: a request is billed at most once, a delivery that is not applied changes nothing, the shares
  of a charge add up, a charge is taken and recorded, and an exhausted quota is announced to the scheduler.
\<close>

section \<open>Sequences of deliveries\<close>

datatype billing_event = Deliver instant UsageBillingCommand | CleanUp instant "request_key list list"

text \<open>The keys of the commands that were applied, in order, and the final state.\<close>

fun billing_run :: "(string \<Rightarrow> string) \<Rightarrow> (string \<Rightarrow> zone option) \<Rightarrow> zone \<Rightarrow> billing_event list \<Rightarrow> billing_db \<Rightarrow> request_key list \<times> billing_db" where
  "billing_run sha tzdb tz [] db = ([], db)"
| "billing_run sha tzdb tz (Deliver now cmd # es) db =
     (let (r, db1) = Apply sha tzdb tz now cmd db; (keys, db2) = billing_run sha tzdb tz es db1
      in (case r of Inr a \<Rightarrow> if ur_Applied a then command_key sha cmd # keys else keys | Inl _ \<Rightarrow> keys, db2))"
| "billing_run sha tzdb tz (CleanUp cutoff bs # es) db = billing_run sha tzdb tz es (snd (CleanupUsageBillingDedup cutoff bs db))"

lemma archive_batch_seen: "seen db key \<Longrightarrow> seen (snd (archive_batch cutoff b db)) key"
  by (auto simp: archive_batch_def statement_def billing_call_def seen_def Let_def split: prod.splits)

lemma Cleanup_seen: "seen db key \<Longrightarrow> seen (snd (CleanupUsageBillingDedup cutoff bs db)) key"
proof (induction bs arbitrary: db)
  case (Cons b bs)
  obtain r db1 where r: "archive_batch cutoff b db = (r, db1)" by fastforce
  then have "seen db1 key" using archive_batch_seen [OF Cons.prems, of cutoff b] by simp
  then show ?case using Cons.IH [of db1] r by (cases r) simp_all
qed simp

lemma Apply_seen:
  assumes "seen db key"
  shows "seen (snd (Apply sha tzdb tz now cmd db)) key"
proof -
  obtain r db' where a: "Apply sha tzdb tz now cmd db = (r, db')" by fastforce
  show ?thesis by (rule Apply_cases [OF a]) (use assms a in \<open>auto simp: seen_def\<close>)
qed

lemma billing_run_fresh: "billing_run sha tzdb tz es db = (keys, db') \<Longrightarrow> distinct keys \<and> (\<forall>k \<in> set keys. \<not> seen db k)"
proof (induction es arbitrary: db keys db')
  case (Cons e es)
  show ?case
  proof (cases e)
    case (Deliver now cmd)
    obtain r db1 where a: "Apply sha tzdb tz now cmd db = (r, db1)" by fastforce
    obtain ks db2 where k: "billing_run sha tzdb tz es db1 = (ks, db2)" by fastforce
    have ih: "distinct ks" "\<forall>k \<in> set ks. \<not> seen db1 k" using Cons.IH [OF k] by simp_all
    then have old: "\<forall>k \<in> set ks. \<not> seen db k" using Apply_seen [of db _ sha tzdb tz now cmd] a by fastforce
    show ?thesis
    proof (rule Apply_cases [OF a])
      fix x assume x: "r = Inr x" "ur_Applied x" "\<not> seen db (command_key sha cmd)"
        "bd_dedup db1 = (bd_dedup db)(command_key sha cmd \<mapsto> (uc_RequestFingerprint (Normalize sha cmd), now))"
      then have "seen db1 (command_key sha cmd)" by (simp add: seen_def)
      then have "command_key sha cmd \<notin> set ks" using ih by blast
      moreover have "keys = command_key sha cmd # ks" using x Cons.prems Deliver a k by simp
      ultimately show ?thesis using x(3) ih old by simp
    next
      assume "\<forall>x. r = Inr x \<longrightarrow> \<not> ur_Applied x"
      then have "keys = ks" using Cons.prems Deliver a k by (auto split: sum.splits)
      then show ?thesis using ih old by blast
    qed
  next
    case (CleanUp cutoff bs)
    then show ?thesis using Cons.IH [of _ keys db'] Cons.prems Cleanup_seen [of db _ cutoff bs] by fastforce
  qed
qed simp

text \<open>C31. A request is billed at most once: over any sequence of deliveries, with storage faults and moves of old claims
  to the archive in between, the commands that are applied have different keys, none of them claimed before, and
  a delivery that is not applied leaves every table as it was.
\<close>

theorem billed_at_most_once:
  "distinct (fst (billing_run sha tzdb tz es db)) \<and> set (fst (billing_run sha tzdb tz es db)) \<inter> {k. seen db k} = {} \<and>
   (case Apply sha tzdb tz now cmd db of
      (Inr a, db') \<Rightarrow> ur_Applied a \<or> db' = db\<lparr>bd_faults := bd_faults db'\<rparr>
    | (Inl e, db') \<Rightarrow> db' = db\<lparr>bd_faults := bd_faults db'\<rparr>)"
proof -
  obtain r db' where a: "Apply sha tzdb tz now cmd db = (r, db')" by fastforce
  have "case r of Inr x \<Rightarrow> ur_Applied x \<or> db' = db\<lparr>bd_faults := bd_faults db'\<rparr> | Inl e \<Rightarrow> db' = db\<lparr>bd_faults := bd_faults db'\<rparr>"
    by (rule Apply_cases [OF a]) (auto split: sum.splits)
  then show ?thesis using billing_run_fresh [of sha tzdb tz es db] a by (cases "billing_run sha tzdb tz es db") (auto split: sum.splits)
qed

section \<open>Shares\<close>

lemma decimal_units: "decimalFromFloat v = Some x \<Longrightarrow> 0 \<le> x \<and> (\<exists>k. x = of_int k / 10 ^ 10)"
proof -
  assume v: "decimalFromFloat v = Some x"
  show ?thesis
  proof (cases "v \<le> 0")
    case True
    then show ?thesis using v by (auto simp: decimalFromFloat_def intro!: exI [of _ 0])
  next
    case False
    then obtain r where r: "v = Fin r" "x = round_decimal r 10" using v by (auto simp: decimalFromFloat_def finite_amount_def split: float64.splits)
    then have "0 < r" using False by (simp add: Fin_zero)
    then show ?thesis unfolding r(2) by (auto simp: round_decimal_def Let_def)
  qed
qed

lemma round_units: "\<exists>k. round_decimal x 10 = of_int k / 10 ^ 10"
  by (auto simp: round_decimal_def Let_def)

lemma split_charge_adds:
  assumes "0 \<le> charge" "\<exists>k. charge = of_int k / 10 ^ 10" "split_charge charge ratio = (credit, fee)"
  shows "0 \<le> credit \<and> 0 \<le> fee \<and> credit + fee = charge"
proof -
  obtain k where k: "charge = of_int k / 10 ^ 10" using assms(2) by blast
  obtain j where j: "round_decimal (charge * ratio) 10 = of_int j / 10 ^ 10" using round_units by blast
  have c: "credit = (let c = (if charge < of_int j / 10 ^ 10 then charge else of_int j / 10 ^ 10) in if c < 0 then 0 else c)"
    and f: "fee = (if round_decimal (charge - credit) 10 < 0 then 0 else round_decimal (charge - credit) 10)"
    using assms(3) by (auto simp: split_charge_def Let_def j)
  have le: "0 \<le> credit" "credit \<le> charge" using assms(1) unfolding c by (auto simp: Let_def)
  have "\<exists>i. credit = of_int i / 10 ^ 10"
    unfolding c k by (auto simp: Let_def intro: exI [of _ k] exI [of _ j] exI [of _ 0])
  then obtain i where i: "credit = of_int i / 10 ^ 10" by blast
  have d: "charge - credit = of_int (k - i) / 10 ^ 10" by (simp add: i k diff_divide_distrib)
  have "round_decimal (charge - credit) 10 = charge - credit" unfolding d by (rule round_decimal_of_int)
  then show ?thesis using le f by simp
qed

definition well_split :: "settlement \<Rightarrow> bool" where
  "well_split s \<longleftrightarrow> 0 \<le> st_owner_credit s \<and> 0 \<le> st_platform_fee s \<and> st_owner_credit s + st_platform_fee s = st_consumer_charge s \<and>
     st_owner s \<noteq> st_consumer s \<and> 0 < st_consumer_charge s"

definition well_settled :: "billing_db \<Rightarrow> bool" where
  "well_settled db \<longleftrightarrow> list_all well_split (bd_settlements db) \<and> distinct (map st_request (bd_settlements db))"

definition keeps_settled :: "billing_db \<Rightarrow> billing_db \<Rightarrow> bool" where
  "keeps_settled a b \<longleftrightarrow> (well_settled a \<longrightarrow> well_settled b)"

interpretation settled: billing_frame keeps_settled
  by unfold_locales (auto simp: keeps_settled_def well_settled_def)

lemma settled_update:
  "keeps_settled s0 (db\<lparr>bd_logs := l, bd_next_log := n\<rparr>) = keeps_settled s0 db" "keeps_settled s0 (db\<lparr>bd_subscriptions := u\<rparr>) = keeps_settled s0 db"
  "keeps_settled s0 (db\<lparr>bd_balances := b\<rparr>) = keeps_settled s0 db" "keeps_settled s0 (db\<lparr>bd_ledger := r\<rparr>) = keeps_settled s0 db"
  "keeps_settled s0 (db\<lparr>bd_keys := k\<rparr>) = keeps_settled s0 db" "keeps_settled s0 (db\<lparr>bd_accounts := a\<rparr>) = keeps_settled s0 db"
  "keeps_settled s0 (db\<lparr>bd_outbox := x\<rparr>) = keeps_settled s0 db" "keeps_settled s0 (db\<lparr>bd_dedup := d\<rparr>) = keeps_settled s0 db"
  by (simp_all add: keeps_settled_def well_settled_def)

lemma settled_append: "well_settled db \<Longrightarrow> well_split s \<Longrightarrow> \<not> list_ex (\<lambda>t. st_request t = st_request s) (bd_settlements db) \<Longrightarrow>
    well_settled (db\<lparr>bd_settlements := bd_settlements db @ [s]\<rparr>)"
  by (auto simp: well_settled_def list_ex_iff)

lemma insert_settled: "keeps_settled s0 db \<Longrightarrow> well_split s \<Longrightarrow> leads keeps_settled s0 (insertAccountShareSettlement s db)"
  unfolding insertAccountShareSettlement_def
  by (intro leads_intros; (simp add: keeps_settled_def settled_append)?)

lemma settlement_added:
  assumes "accountShareConsumerCharge cmd = Some charge" "charge \<noteq> 0" "p = split_charge charge ratio" "p = (credit, fee)"
    "\<not> (owner \<le> 0 \<or> owner = uc_UserID cmd)" and frame: "keeps_settled s0 db"
    and s: "s = \<lparr>st_request = r, st_usage_log = l, st_consumer = uc_UserID cmd, st_owner = owner, st_account = a, st_policy = q, st_policy_version = v,
      st_consumer_charge = charge, st_account_cost = c, st_owner_share_ratio = w, st_owner_credit = credit, st_platform_fee = fee\<rparr>"
  shows "leads keeps_settled s0 (insertAccountShareSettlement s db)"
proof (rule insert_settled [OF frame])
  have u: "0 \<le> charge" "\<exists>k. charge = of_int k / 10 ^ 10"
    using assms(1) decimal_units [of _ charge] by (auto simp: accountShareConsumerCharge_def split: if_splits option.splits intro!: exI [of _ 0])
  have "0 \<le> credit \<and> 0 \<le> fee \<and> credit + fee = charge" using assms(3,4) by (intro split_charge_adds [OF u, of ratio]) simp
  then show "well_split s" using u(1) assms(2,5) by (simp add: s well_split_def)
qed

lemma share_settled: "keeps_settled s0 db \<Longrightarrow> leads keeps_settled s0 (applyAccountShareSettlement now cmd log_id db)"
  unfolding billing_steps(3,5,6,11-14,16)
  by (intro leads_intros leads_pair_case leads_pair_case_fun leads_let settlement_added; (simp add: settled_update; fail)?)

lemma effects_settled: "keeps_settled s0 db \<Longrightarrow> leads keeps_settled s0 (applyUsageBillingEffects tzdb tz now cmd db)"
  unfolding billing_steps(1-14) billing_steps(17,18)
  by (intro leads_intros leads_pair_case leads_pair_case_fun leads_let share_settled; (simp add: settled_update)?)

lemma claim_keeps: "keeps_settled s0 db \<Longrightarrow> leads keeps_settled s0 (claimUsageBillingKey now cmd db)"
  unfolding claimUsageBillingKey_def Let_def
  by (intro leads_intros leads_pair_case; (simp add: settled_update)?)

context billing_frame
begin

text \<open>A frame of the claim and of the effects is a frame of the transaction: a rollback only moves on the faults.\<close>

lemma Apply_leads:
  assumes "\<And>cmd db. leads R db (claimUsageBillingKey now cmd db)" "\<And>cmd db. leads R db (applyUsageBillingEffects tzdb tz now cmd db)"
  shows "leads R db (Apply sha tzdb tz now cmd0 db)"
proof (cases "uc_RequestID (Normalize sha cmd0) = '''' \<or> fst (billing_call db)")
  case True
  then show ?thesis using call_leads [OF frame_refl, of db] by (cases "billing_call db") (auto simp: Apply_def Let_def leads_def frame_refl)
next
  case False
  define cmd where "cmd = Normalize sha cmd0"
  obtain db1 where c: "billing_call db = (False, db1)" using False by (cases "billing_call db") simp
  obtain q db2 where k: "claimUsageBillingKey now cmd db1 = (q, db2)" by fastforce
  obtain e db3 where f: "applyUsageBillingEffects tzdb tz now cmd db2 = (e, db3)" by fastforce
  obtain b db4 where c': "billing_call db3 = (b, db4)" by fastforce
  have r: "R db db1" "R db1 db2" "R db2 db3" "R db3 db4"
    using call_leads [OF frame_refl, of db] call_leads [OF frame_refl, of db3] assms(1) [of db1 cmd] assms(2) [of db2 cmd] c k f c'
    by (simp_all add: leads_def)
  then have all: "R db db4" using frame_trans by blast
  have roll: "R db (undo_billing db1 x)" for x using frame_trans [OF r(1) frame_faults] by (simp add: undo_billing_def)
  show ?thesis using False c k f c' all roll
    by (auto simp: Apply_def leads_def cmd_def [symmetric] split: sum.splits bool.splits)
qed

end

lemma Apply_keeps: "keeps_settled db (snd (Apply sha tzdb tz now cmd db))"
  using settled.Apply_leads [OF claim_keeps [OF settled.frame_refl] effects_settled [OF settled.frame_refl]] by (simp add: leads_def)

lemma Cleanup_keeps: "keeps_settled db (snd (CleanupUsageBillingDedup cutoff bs db))"
proof (induction bs arbitrary: db)
  case (Cons b bs)
  have a: "leads keeps_settled db (archive_batch cutoff b db)" for db
    unfolding archive_batch_def by (intro leads_intros leads_let settled.frame_refl; simp add: keeps_settled_def well_settled_def)
  obtain r db1 where r: "archive_batch cutoff b db = (r, db1)" by fastforce
  then show ?case using a [of db] Cons.IH [of db1] by (cases r) (auto simp: leads_def intro: settled.frame_trans)
qed (simp add: settled.frame_refl)

text \<open>C32. Over any sequence of deliveries, with repeats, storage faults and moves to the archive, the settlements with the
  owners of shared accounts stay sound: the owner's credit and the fee are not negative and add up to the charge, nobody
  pays himself, and no request is well_settled twice.
\<close>

theorem settlements_sound:
  "list_all (\<lambda>s. 0 \<le> st_owner_credit s \<and> 0 \<le> st_platform_fee s \<and> st_owner_credit s + st_platform_fee s = st_consumer_charge s \<and>
      st_owner s \<noteq> st_consumer s) (bd_settlements (snd (billing_run sha tzdb tz es (db\<lparr>bd_settlements := []\<rparr>)))) \<and>
   distinct (map st_request (bd_settlements (snd (billing_run sha tzdb tz es (db\<lparr>bd_settlements := []\<rparr>)))))"
proof -
  have "well_settled db \<Longrightarrow> well_settled (snd (billing_run sha tzdb tz es db))" for db
  proof (induction es arbitrary: db)
    case (Cons e es)
    then show ?case
      using Apply_keeps [of db sha tzdb tz] Cleanup_keeps [of db]
      by (cases e) (auto simp: keeps_settled_def split: prod.splits, metis snd_conv)
  qed simp
  from this [of "db\<lparr>bd_settlements := []\<rparr>"] show ?thesis
    by (auto simp: well_settled_def well_split_def list_all_iff)
qed

section \<open>What a charge does\<close>

lemma statement_works: "bd_faults db = [] \<Longrightarrow> statement f db = f db" "bd_faults db = [] \<Longrightarrow> billing_call db = (False, db)"
  by (cases db; simp add: statement_def billing_call_def)+

lemma claim_fresh:
  "bd_faults db = [] \<Longrightarrow> \<not> seen db (uc_RequestID cmd, uc_APIKeyID cmd) \<Longrightarrow> claimUsageBillingKey now cmd db =
    (Inr True, db\<lparr>bd_dedup := (bd_dedup db)((uc_RequestID cmd, uc_APIKeyID cmd) \<mapsto> (uc_RequestFingerprint cmd, now))\<rparr>)"
  by (simp add: claimUsageBillingKey_def Let_def statement_works seen_def)

lemma Apply_again:
  assumes "bd_faults db = []" "bd_dedup db (command_key sha cmd) = Some (fp, t)" "TrimSpace (uc_RequestID cmd) \<noteq> ''''"
  shows "Apply sha tzdb tz now cmd db = (if TrimSpace fp = TrimSpace (uc_RequestFingerprint (Normalize sha cmd)) then (Inr not_applied, db)
    else (Inl UsageBillingRequestConflict, db))"
  using assms by (simp add: Apply_def Let_def statement_works claimUsageBillingKey_def command_key_def undo_billing_def)

lemma insert_row_keys [simp]: "ul_RequestID (prepareUsageLogInsert now l) = TrimSpace (ul_RequestID l)" "ul_APIKeyID (prepareUsageLogInsert now l) = ul_APIKeyID l"
  "ul_ActualCost (prepareUsageLogInsert now l) = ul_ActualCost l"
  by (simp_all add: prepareUsageLogInsert_def SyncRequestTypeAndLegacyFields_def Let_def split: prod.splits)

lemma log_written:
  assumes "bd_faults db = []" "uc_UsageLog cmd = Some l" "TrimSpace (ul_RequestID l) \<noteq> ''''" "ul_APIKeyID l \<noteq> 0"
    and "\<not> list_ex (same_log (TrimSpace (ul_RequestID l)) (ul_APIKeyID l)) (bd_logs db)"
  shows "\<exists>row. ensureUsageBillingLog now cmd db = (Inr (bd_next_log db), db\<lparr>bd_logs := bd_logs db @ [(bd_next_log db, row)], bd_next_log := bd_next_log db + 1\<rparr>) \<and>
    ul_RequestID row = TrimSpace (ul_RequestID l) \<and> ul_ActualCost row = ul_ActualCost l"
  using assms by (auto simp: ensureUsageBillingLog_def Let_def statement_works)

lemma decimalFromFloat_Fin: "decimalFromFloat (Fin r) = Some (if r \<le> 0 then 0 else round_decimal r 10)"
  by (simp add: decimalFromFloat_def finite_amount_def Fin_zero)

lemma round_8_10: "round_decimal (round_decimal x 8) 10 = round_decimal x 8"
proof -
  obtain k where k: "round_decimal x 8 = of_int k / 10 ^ 8" by (auto simp: round_decimal_def Let_def)
  have "(of_int k :: rat) / 10 ^ 8 = of_int (100 * k) / 10 ^ 10" by simp
  then show ?thesis unfolding k using round_decimal_of_int [of "100 * k" 10] by metis
qed

lemma charge_taken:
  assumes "bd_faults db = []" "bd_balances db (uc_UserID cmd) = Some b" "uc_BalanceCost cmd = Fin c" "0 < c" "0 < uc_UserID cmd"
    and "0 < n" "\<not> list_ex (\<lambda>r. lr_ref r = Some n) (bd_ledger db)"
  shows "charge_balance cmd n db = (Inr (Some (round_decimal (b - c) 8)),
    db\<lparr>bd_balances := (bd_balances db)(uc_UserID cmd \<mapsto> round_decimal (b - c) 8),
       bd_ledger := bd_ledger db @ [\<lparr>lr_user = uc_UserID cmd, lr_direction = ''debit'', lr_amount = round_decimal c 10, lr_reason = ''usage_charge'',
         lr_ref = Some n, lr_balance_after = (if round_decimal (b - c) 8 \<le> 0 then 0 else round_decimal (b - c) 8)\<rparr>]\<rparr>)"
proof -
  have "0 \<le> round_decimal c 10" using decimal_units [OF decimalFromFloat_Fin, of c] assms(4) by simp
  moreover have "\<not> list_ex (ledger_conflict \<lparr>lr_user = uc_UserID cmd, lr_direction = ''debit'', lr_amount = round_decimal c 10,
      lr_reason = ''usage_charge'', lr_ref = Some n, lr_balance_after = x\<rparr>) (bd_ledger db)" for x
    using assms(7) by (auto simp: list_ex_iff ledger_conflict_def)
  ultimately show ?thesis
    using assms by (simp add: charge_balance_def deductUsageBillingBalance_def finite_amount_def change_balance_def statement_works Let_def
        decimalFromFloat_Fin round_8_10 insertUserBalanceLedger_def nullablePositiveInt64_def)
qed

text \<open>C33. A request that was not seen before, of a user who pays from the balance, is billed under these conditions:
  storage works, the user exists, the cost is finite and positive; no subscription is named and no cost counts against
  quotas of the key, rate limits of the key or quotas of the account; the snapshot of the sharing is captured and names no owner; the log
  in the command has its identifier and key, and no log with them and no entry of the ledger for the next log is stored.
  Then the
  balance is the old one less the cost, rounded to 8 decimals, the log and an entry of the ledger are stored, and
  every later delivery of the same command is answered as not applied and changes nothing. A balance below zero
  appears in the ledger as zero.
\<close>

theorem charge_applied:
  assumes db: "bd_faults db = []" "\<not> seen db (command_key sha cmd)" "bd_balances db (uc_UserID cmd) = Some b" "0 < bd_next_log db"
    and new: "\<not> list_ex (same_log (TrimSpace (uc_RequestID cmd)) (uc_APIKeyID cmd)) (bd_logs db)"
      "\<not> list_ex (\<lambda>r. lr_ref r = Some (bd_next_log db)) (bd_ledger db)"
    and cmd: "TrimSpace (uc_RequestID cmd) \<noteq> ''''" "0 < uc_UserID cmd" "uc_APIKeyID cmd \<noteq> 0" "uc_UsageLog cmd = Some l"
      "ul_RequestID l = uc_RequestID cmd" "ul_APIKeyID l = uc_APIKeyID cmd"
    and cost: "uc_BalanceCost cmd = Fin c" "0 < c" "uc_SubscriptionID cmd = None" "\<not> 0 < uc_APIKeyQuotaCost cmd" "\<not> 0 < uc_APIKeyRateLimitCost cmd"
      "\<not> 0 < uc_AccountQuotaCost cmd" "uc_ShareSnapshotCaptured cmd" "uc_ShareOwnerUserID cmd = None"
  shows "\<exists>db' row. Apply sha tzdb tz now cmd db = (Inr \<lparr>ur_Applied = True, ur_APIKeyQuotaExhausted = False,
      ur_NewBalance = Some (round_decimal (b - c) 8), ur_QuotaState = None, ur_UsageLogID = Some (bd_next_log db)\<rparr>, db') \<and>
    bd_balances db' = (bd_balances db)(uc_UserID cmd \<mapsto> round_decimal (b - c) 8) \<and>
    bd_ledger db' = bd_ledger db @ [\<lparr>lr_user = uc_UserID cmd, lr_direction = ''debit'', lr_amount = round_decimal c 10, lr_reason = ''usage_charge'',
      lr_ref = Some (bd_next_log db), lr_balance_after = (if round_decimal (b - c) 8 \<le> 0 then 0 else round_decimal (b - c) 8)\<rparr>] \<and>
    bd_logs db' = bd_logs db @ [(bd_next_log db, row)] \<and> ul_RequestID row = TrimSpace (uc_RequestID cmd) \<and> ul_ActualCost row = ul_ActualCost l \<and>
    (\<forall>now'. Apply sha tzdb tz now' cmd db' = (Inr not_applied, db'))"
proof -
  define cmd' where "cmd' = Normalize sha cmd"
  define db1 where "db1 = db\<lparr>bd_dedup := (bd_dedup db)(command_key sha cmd \<mapsto> (uc_RequestFingerprint cmd', now))\<rparr>"
  have k: "claimUsageBillingKey now cmd' db = (Inr True, db1)"
    using claim_fresh [OF db(1), of cmd' now] db(2) by (simp add: db1_def cmd'_def command_key_def)
  obtain row where w: "ensureUsageBillingLog now cmd' db1 = (Inr (bd_next_log db1), db1\<lparr>bd_logs := bd_logs db1 @ [(bd_next_log db1, row)], bd_next_log := bd_next_log db1 + 1\<rparr>)"
      "ul_RequestID row = TrimSpace (uc_RequestID cmd)" "ul_ActualCost row = ul_ActualCost l"
    using log_written [of db1 cmd' l now] db(1) new(1) cmd by (auto simp: db1_def cmd'_def)
  let ?db2 = "db1\<lparr>bd_logs := bd_logs db1 @ [(bd_next_log db1, row)], bd_next_log := bd_next_log db1 + 1\<rparr>"
  note t = charge_taken [of ?db2 cmd' b c "bd_next_log db1"]
  have share: "applyAccountShareSettlement now cmd' i s = (Inr (), s)" for i s
    using cost(1,2,7,8) by (simp add: applyAccountShareSettlement_def cmd'_def accountShareConsumerCharge_def decimalFromFloat_Fin Fin_zero
        accountShareSnapshotForSettlement_def nullablePtrInt64_def option_or_def)
  define db2 where "db2 = ?db2\<lparr>bd_balances := (bd_balances db)(uc_UserID cmd \<mapsto> round_decimal (b - c) 8),
       bd_ledger := bd_ledger db @ [\<lparr>lr_user = uc_UserID cmd, lr_direction = ''debit'', lr_amount = round_decimal c 10, lr_reason = ''usage_charge'',
         lr_ref = Some (bd_next_log db), lr_balance_after = (if round_decimal (b - c) 8 \<le> 0 then 0 else round_decimal (b - c) 8)\<rparr>]\<rparr>"
  have e: "charge_balance cmd' (bd_next_log db) ?db2 = (Inr (Some (round_decimal (b - c) 8)), db2)"
    using t db new(2) cmd(2) cost(1,2) by (simp add: db2_def db1_def cmd'_def)
  have "applyUsageBillingEffects tzdb tz now cmd' db1 = (Inr \<lparr>ur_Applied = True, ur_APIKeyQuotaExhausted = False,
      ur_NewBalance = Some (round_decimal (b - c) 8), ur_QuotaState = None, ur_UsageLogID = Some (bd_next_log db)\<rparr>, db2)"
    using w(1) e share cost db(4)
    by (simp add: applyUsageBillingEffects_def cmd'_def only_if_def counts_against_account_def Fin_zero) (simp add: db1_def)
  moreover have f: "bd_faults db1 = []" "bd_faults db2 = []" by (simp_all add: db1_def db2_def db(1))
  ultimately have "Apply sha tzdb tz now cmd db = (Inr \<lparr>ur_Applied = True, ur_APIKeyQuotaExhausted = False,
      ur_NewBalance = Some (round_decimal (b - c) 8), ur_QuotaState = None, ur_UsageLogID = Some (bd_next_log db)\<rparr>, db2)"
    using k cmd(1) db(1) by (simp add: Apply_def cmd'_def [symmetric] statement_works Let_def) (simp add: cmd'_def)
  moreover have "Apply sha tzdb tz now' cmd db2 = (Inr not_applied, db2)" for now'
    using Apply_again [OF f(2), of sha cmd "uc_RequestFingerprint cmd'" now] cmd(1) by (simp add: db2_def db1_def cmd'_def)
  ultimately show ?thesis using w(2,3) by (intro exI [of _ db2] exI [of _ row]) (simp add: db2_def db1_def)
qed

definition no_billing :: billing_db where
  "no_billing = \<lparr>bd_dedup = (\<lambda>_. None), bd_archive = (\<lambda>_. None), bd_logs = [], bd_next_log = 1, bd_subscriptions = (\<lambda>_. None),
     bd_balances = (\<lambda>_. None), bd_ledger = [], bd_keys = (\<lambda>_. None), bd_accounts = (\<lambda>_. None), bd_policies = [], bd_settlements = [],
     bd_outbox = [], bd_faults = []\<rparr>"

definition plain_account :: "document \<Rightarrow> account_row" where
  "plain_account ex = \<lparr>ar_owner = None, ar_share_mode = '''', ar_share_status = '''', ar_platform = ''anthropic'', ar_share_policy = None, ar_extra = ex\<rparr>"

definition sample_log :: UsageLog where
  "sample_log = \<lparr>ul_UserID = 7, ul_APIKeyID = 5, ul_AccountID = 3, ul_RequestID = ''r1'', ul_Model = ''claude'', ul_RequestedModel = ''claude'',
     ul_UpstreamModel = None, ul_ChannelID = None, ul_ModelMappingChain = None, ul_BillingMode = None, ul_ServiceTier = None,
     ul_ReasoningEffort = None, ul_InboundEndpoint = None, ul_UpstreamEndpoint = None, ul_GroupID = None, ul_SubscriptionID = None,
     ul_InputTokens = 100, ul_OutputTokens = 10, ul_CacheCreationTokens = 0, ul_CacheReadTokens = 0, ul_CacheCreation5mTokens = 0,
     ul_CacheCreation1hTokens = 0, ul_ImageOutputTokens = 0, ul_InputCost = 0, ul_OutputCost = 0, ul_ImageOutputCost = 0,
     ul_CacheCreationCost = 0, ul_CacheReadCost = 0, ul_TotalCost = Fin 2, ul_ActualCost = Fin 2, ul_RateMultiplier = 1,
     ul_AccountRateMultiplier = None, ul_AccountStatsCost = None, ul_BillingType = 0, ul_RequestType = RequestTypeUnknown, ul_Stream = True,
     ul_OpenAIWSMode = False, ul_DurationMs = None, ul_FirstTokenMs = None, ul_UserAgent = None, ul_IPAddress = None,
     ul_CacheTTLOverridden = False, ul_ImageCount = 0, ul_ImageSize = None, ul_CreatedAt = 0\<rparr>"

definition sample_command :: UsageBillingCommand where
  "sample_command = \<lparr>uc_RequestID = ''r1'', uc_APIKeyID = 5, uc_RequestFingerprint = '''', uc_RequestPayloadHash = '''', uc_UserID = 7,
     uc_AccountID = 3, uc_GroupID = None, uc_SubscriptionID = None, uc_AccountType = ''apikey'', uc_Model = ''claude'', uc_ServiceTier = '''',
     uc_ReasoningEffort = '''', uc_BillingType = 0, uc_InputTokens = 100, uc_OutputTokens = 10, uc_CacheCreationTokens = 0,
     uc_CacheReadTokens = 0, uc_ImageCount = 0, uc_MediaType = '''', uc_BalanceCost = Fin 2, uc_SubscriptionCost = 0,
     uc_APIKeyQuotaCost = 0, uc_APIKeyRateLimitCost = 0, uc_AccountQuotaCost = 0, uc_ShareSnapshotCaptured = True,
     uc_ShareOwnerUserID = None, uc_ShareModeSnapshot = '''', uc_ShareStatusSnapshot = '''', uc_SharePlatform = '''', uc_SharePolicyID = None,
     uc_SharePolicyVersion = 0, uc_OwnerShareRatio = 0, uc_UsageLog = Some sample_log\<rparr>"

text \<open>Two dollars from a balance of one: the balance is minus one, the ledger shows zero.\<close>

theorem charge_applied_witness:
  "\<exists>r db'. Apply (\<lambda>_. ''h'') sample_zones (\<lambda>_. 0) 0 sample_command (no_billing\<lparr>bd_balances := [7 \<mapsto> 1]\<rparr>) = (Inr r, db') \<and> ur_Applied r \<and>
    bd_balances db' 7 = Some (- 1) \<and> map lr_balance_after (bd_ledger db') = [0]"
proof -
  let ?db = "no_billing\<lparr>bd_balances := [7 \<mapsto> 1]\<rparr>"
  have r: "round_decimal (- 1) 8 = - 1" using round_decimal_of_int [of "- (10 ^ 8)" 8] by simp
  have t: "TrimSpace (uc_RequestID sample_command) \<noteq> ''''" unfolding sample_command_def by code_simp
  have n: "\<not> seen ?db (command_key (\<lambda>_. ''h'') sample_command)" by (simp add: seen_def no_billing_def)
  have d: "bd_faults ?db = []" "bd_balances ?db (uc_UserID sample_command) = Some 1" "0 < bd_next_log ?db" "\<not> list_ex p (bd_logs ?db)"
    "\<not> list_ex q (bd_ledger ?db)" for p q by (simp_all add: no_billing_def sample_command_def)
  have u: "0 < uc_UserID sample_command" "uc_APIKeyID sample_command \<noteq> 0" "uc_UsageLog sample_command = Some sample_log"
      "ul_RequestID sample_log = uc_RequestID sample_command" "ul_APIKeyID sample_log = uc_APIKeyID sample_command"
    by (simp_all add: sample_command_def sample_log_def)
  have c: "uc_BalanceCost sample_command = Fin 2" "(0 :: rat) < 2" "uc_SubscriptionID sample_command = None" "\<not> 0 < uc_APIKeyQuotaCost sample_command"
      "\<not> 0 < uc_APIKeyRateLimitCost sample_command" "\<not> 0 < uc_AccountQuotaCost sample_command" "uc_ShareSnapshotCaptured sample_command"
      "uc_ShareOwnerUserID sample_command = None"
    by (simp_all add: sample_command_def Fin_zero)
  note a = charge_applied [OF d(1) n d(2,3,4,5) t u c, where tzdb = sample_zones and tz = "\<lambda>_. 0" and now = 0]
  show ?thesis using a by (elim exE conjE) (intro exI conjI, assumption, simp_all add: no_billing_def sample_command_def r)
qed

section \<open>Announcing an exhausted quota\<close>

text \<open>The counters are numbers.\<close>

definition readable :: "document \<Rightarrow> bool" where
  "readable ex \<longleftrightarrow> list_all (\<lambda>key. \<exists>x. number_at ex key x) [''quota_used'', ''quota_daily_used'', ''quota_weekly_used'']"

lemma period_entries_number:
  "period_entries tzdb k now a ex = Some es \<Longrightarrow> k \<in> {daily_keys, weekly_keys} \<Longrightarrow> map_of (rev es) (qk_used k) = Some v \<Longrightarrow> \<exists>x. v = AFloat (Fin x)"
  by (auto simp: period_entries_def Let_def daily_keys_def weekly_keys_def split: option.splits if_splits)

lemma increment_readable:
  assumes "increment tzdb now a ex = Some ex'" "readable ex"
  shows "readable ex'"
proof -
  have "\<exists>x. number_at ex' (qk_used k) x" if k: "k \<in> {daily_keys, weekly_keys}" for k
  proof -
    obtain es where e: "period_entries tzdb k now a ex = Some es"
      "map_of ex' (qk_used k) = (case map_of (rev es) (qk_used k) of None \<Rightarrow> map_of ex (qk_used k) | Some v \<Rightarrow> Some v)"
      using increment_lookup(2) [OF assms(1), of k "qk_used k"] k by (auto simp: own_keys_def)
    have "\<exists>x. number_at ex (qk_used k) x" using assms(2) k by (auto simp: readable_def daily_keys_def weekly_keys_def)
    then show ?thesis using e(2) period_entries_number [OF e(1) k] by (auto simp: number_at_def split: option.splits)
  qed
  from this [of daily_keys] this [of weekly_keys] increment_lookup(3) [OF assms(1)] show ?thesis
    by (auto simp: readable_def daily_keys_def weekly_keys_def number_at_def)
qed

lemma apply_events_readable: "apply_events tzdb es ex = Some ex' \<Longrightarrow> readable ex \<Longrightarrow> readable ex'"
proof (induction tzdb es ex rule: apply_events.induct)
  case (2 tzdb e es ex)
  have "readable (reset_extra ex)" by (simp add: readable_def map_of_reset_extra number_at_def Fin_zero)
  then show ?case using 2 by (cases e) (auto dest: increment_readable split: option.splits)
qed simp

lemma created_readable: "create_extra tzdb t (settings_document q) = Some ex \<Longrightarrow> readable ex"
  by (auto simp: create_extra_def readable_def number_at_def map_of_write_resets settings_document_def split: if_splits)

lemma counted_now:
  assumes "k \<in> {daily_keys, weekly_keys}" "counted k A (us @ [(now, x)]) u ex" "u \<le> now"
  shows "sql_number ex (qk_used k) 0 = Some (period_usage (qk_period k) A now (us @ [(now, x)]))"
proof -
  have "slot (qk_period k) A now \<le> slot (qk_period k) A u" using assms(2) by (simp add: counted_def Let_def)
  moreover have "slot (qk_period k) A u \<le> slot (qk_period k) A now" using assms(1,3) period_seconds [of k] by (intro slot_mono) simp_all
  ultimately have "period_usage (qk_period k) A u (us @ [(now, x)]) = period_usage (qk_period k) A now (us @ [(now, x)])"
    by (intro period_usage_cong) simp
  then show ?thesis using assms(2) number_at_read(1) by (simp add: counted_def Let_def)
qed

lemma quota_state_read:
  assumes "quota_state q c (us @ [(now, x)]) now ex" "readable ex"
  obtains st where "read_quota_state ex = Some st" and "qs_TotalLimit st = qs_total q" and "qs_DailyLimit st = qs_daily q" and "qs_WeeklyLimit st = qs_weekly q"
    and "qs_TotalUsed st = sum_list (map snd us) + x"
    and "0 < qs_daily q \<Longrightarrow> qs_DailyUsed st = period_usage (days 1) (daily_anchor q c) now us + x"
    and "0 < qs_weekly q \<Longrightarrow> qs_WeeklyUsed st = period_usage (days 7) (weekly_anchor q c) now us + x"
proof -
  have l: "sql_number ex ''quota_limit'' 0 = Some (qs_total q)" "sql_number ex ''quota_daily_limit'' 0 = Some (qs_daily q)"
    "sql_number ex ''quota_weekly_limit'' 0 = Some (qs_weekly q)"
    using assms(1) by (simp_all add: quota_state_def has_settings_def settings_document_def sql_number_def)
  have u: "sql_number ex ''quota_used'' 0 = Some (sum_list (map snd us) + x)"
    using assms(1) number_at_read(1) by (simp add: quota_state_def)
  obtain d w where dw: "sql_number ex ''quota_daily_used'' 0 = Some d" "sql_number ex ''quota_weekly_used'' 0 = Some w"
    using assms(2) number_at_read(1) by (fastforce simp: readable_def)
  have "0 < qs_daily q \<Longrightarrow> d = period_usage (days 1) (daily_anchor q c) now us + x"
    using assms(1) dw(1) counted_now [of daily_keys] by (fastforce simp: quota_state_def daily_keys_def)
  moreover have "0 < qs_weekly q \<Longrightarrow> w = period_usage (days 7) (weekly_anchor q c) now us + x"
    using assms(1) dw(2) counted_now [of weekly_keys] by (fastforce simp: quota_state_def weekly_keys_def)
  ultimately show ?thesis using l u dw by (intro that [of "\<lparr>qs_TotalUsed = sum_list (map snd us) + x, qs_TotalLimit = qs_total q, qs_DailyUsed = d,
      qs_DailyLimit = qs_daily q, qs_WeeklyUsed = w, qs_WeeklyLimit = qs_weekly q\<rparr>"]) (simp_all add: read_quota_state_def)
qed

lemma outbox_insert_recent: "\<exists>t. (i, t) \<in> set (outbox_insert now i ob) \<and> now - seconds 1 \<le> t"
  by (auto simp: outbox_insert_def schedulerOutboxDedupWindow_def list_ex_iff)

lemma reached_state:
  assumes q: "valid_settings q" "tzdb (qs_zone q) = Some (\<lambda>_. c)" "c mod seconds 1 = 0"
    and t: "in_range created" "in_range now" "in_order created es now"
    and ex: "create_extra tzdb created (settings_document q) = Some ex0" "apply_events tzdb es ex0 = Some ex"
  obtains t' where "t' \<le> now" "quota_state q c (uses_of es) t' ex" "readable ex"
proof -
  have "0 \<le> created" using t(1) by (simp add: in_range_def)
  moreover have "quota_state q c [] created ex0" using created_state [where tzdb = tzdb, OF q t(1)] ex(1) by simp
  ultimately have "\<exists>t'\<le>now. quota_state q c (uses_of es) t' ex"
    using apply_events_state [where tzdb = tzdb, OF q t(2) _ t(3), of "[]" ex0] ex(2) unfolding uses_of_def by auto
  then show ?thesis using apply_events_readable [OF ex(2) created_readable [OF ex(1)]] by (blast intro: that)
qed

lemma use_counted:
  assumes q: "valid_settings q" "tzdb (qs_zone q) = Some (\<lambda>_. c)" "c mod seconds 1 = 0" "in_range now"
    and s: "quota_state q c us t ex" "t \<le> now" "readable ex"
    and db: "bd_accounts db i = Some acc" "ar_extra acc = ex" "bd_faults db = []"
    and before: "\<not> IsQuotaExceeded tzdb now (a\<lparr>acc_Extra := ex\<rparr>)"
  shows "\<exists>st db' ex'. incrementUsageBillingAccountQuota tzdb now i (Fin x) db = (Inr st, db') \<and> bd_accounts db' i = Some (acc\<lparr>ar_extra := ex'\<rparr>) \<and>
    quota_state q c (us @ [(now, x)]) now ex' \<and>
    (IsQuotaExceeded tzdb now (a\<lparr>acc_Extra := ex'\<rparr>) \<longrightarrow> (\<exists>t. (i, t) \<in> set (bd_outbox db') \<and> now - seconds 1 \<le> t))"
proof -
  obtain ex' where ex': "increment tzdb now x ex = Some ex'" and s': "quota_state q c (us @ [(now, x)]) now ex'"
    using quota_state_step [where tzdb = tzdb, OF q(1-3) s(1,2) q(4)] by blast
  obtain st where st: "read_quota_state ex' = Some st" "qs_TotalLimit st = qs_total q" "qs_DailyLimit st = qs_daily q"
      "qs_WeeklyLimit st = qs_weekly q" "qs_TotalUsed st = sum_list (map snd us) + x"
      "0 < qs_daily q \<Longrightarrow> qs_DailyUsed st = period_usage (days 1) (daily_anchor q c) now us + x"
      "0 < qs_weekly q \<Longrightarrow> qs_WeeklyUsed st = period_usage (days 7) (weekly_anchor q c) now us + x"
    using quota_state_read [OF s' increment_readable [OF ex' s(3)]] by blast
  have b: "quota_state q c us t (acc_Extra (a\<lparr>acc_Extra := ex\<rparr>))" "quota_state q c (us @ [(now, x)]) now (acc_Extra (a\<lparr>acc_Extra := ex'\<rparr>))"
    using s(1) s' by simp_all
  note was = IsQuotaExceeded_state [where tzdb = tzdb, OF q(1-3) b(1) s(2)]
    and now_is = IsQuotaExceeded_state [where tzdb = tzdb, OF q(1-3) b(2) order_refl]
  have "IsQuotaExceeded tzdb now (a\<lparr>acc_Extra := ex'\<rparr>) \<Longrightarrow> crossed_any st x"
    using before st unfolding was now_is by (auto simp: over_def crossed_any_def crossed_def)
  moreover have "\<exists>db'. incrementUsageBillingAccountQuota tzdb now i (Fin x) db = (Inr st, db') \<and> bd_accounts db' i = Some (acc\<lparr>ar_extra := ex'\<rparr>) \<and>
      bd_outbox db' = (if crossed_any st x then outbox_insert now i (bd_outbox db) else bd_outbox db)"
    using db ex' st(1) by (simp add: incrementUsageBillingAccountQuota_def statement_def billing_call_def finite_amount_def Let_def)
  ultimately show ?thesis using s' outbox_insert_recent [of i now "bd_outbox db"] by (metis (no_types, lifting))
qed

text \<open>C34. For an account that was created with valid settings for fixed resets, in a time zone with a constant offset of whole seconds, and
  then charged in any order of uses and manual resets at times in order and in range: if storage works and the account
  is in it, the
  statement that counts a use of a finite amount succeeds; if the scheduler's check found no quota exceeded before it and finds one
  exceeded after it, the
  outbox of the scheduler holds an event of the last second for the account.
\<close>

theorem exhausted_quota_announced:
  assumes q: "valid_settings q" "tzdb (qs_zone q) = Some (\<lambda>_. c)" "c mod seconds 1 = 0"
    and t: "in_range created" "in_range now" "in_order created es now"
    and ex: "create_extra tzdb created (settings_document q) = Some ex0" "apply_events tzdb es ex0 = Some ex"
    and db: "bd_accounts db i = Some acc" "ar_extra acc = ex" "bd_faults db = []"
    and before: "\<not> IsQuotaExceeded tzdb now (a\<lparr>acc_Extra := ex\<rparr>)"
  shows "\<exists>st db' ex'. incrementUsageBillingAccountQuota tzdb now i (Fin x) db = (Inr st, db') \<and> bd_accounts db' i = Some (acc\<lparr>ar_extra := ex'\<rparr>) \<and>
    (IsQuotaExceeded tzdb now (a\<lparr>acc_Extra := ex'\<rparr>) \<longrightarrow> (\<exists>t. (i, t) \<in> set (bd_outbox db') \<and> now - seconds 1 \<le> t))"
proof -
  obtain t' where "t' \<le> now" "quota_state q c (uses_of es) t' ex" "readable ex" by (rule reached_state [where tzdb = tzdb, OF q t ex])
  from use_counted [where tzdb = tzdb, OF q t(2) this(2,1,3) db before] show ?thesis by blast
qed

text \<open>Six dollars and then five of a daily quota of ten.\<close>

theorem exhausted_quota_announced_witness:
  "\<exists>ex st db' t. apply_events sample_zones [UseQuota (days 100 + hours 10) 6] ex \<noteq> None \<and>
    incrementUsageBillingAccountQuota sample_zones (days 100 + hours 11) 1 (Fin 5)
      (no_billing\<lparr>bd_accounts := [1 \<mapsto> plain_account (the (apply_events sample_zones [UseQuota (days 100 + hours 10) 6] ex))]\<rparr>) = (Inr st, db') \<and>
    (1, t) \<in> set (bd_outbox db')"
proof -
  let ?es = "[UseQuota (days 100 + hours 10) 6]" and ?now = "days 100 + hours 11"
  have q: "valid_settings sample_settings" "sample_zones (qs_zone sample_settings) = Some (\<lambda>_. hours 8)" "hours 8 mod seconds 1 = 0"
    by (simp_all add: valid_settings_def sample_settings_def sample_zones_def)
  have t: "in_range (days 100)" "in_range ?now" "in_order (days 100) ?es ?now" by (simp_all add: in_range_def)
  obtain ex0 where ex0: "create_extra sample_zones (days 100) (settings_document sample_settings) = Some ex0" "quota_state sample_settings (hours 8) [] (days 100) ex0"
    using created_state [where tzdb = sample_zones, OF q t(1)] by blast
  obtain ex where ex: "apply_events sample_zones ?es ex0 = Some ex"
    using apply_events_state [where tzdb = sample_zones, OF q t(2) ex0(2) t(3)] by auto
  obtain t' where s: "t' \<le> ?now" "quota_state sample_settings (hours 8) (uses_of ?es) t' ex" "readable ex"
    by (rule reached_state [where tzdb = sample_zones, OF q t ex0(1) ex])
  let ?a = "sample_account\<lparr>acc_Extra := ex\<rparr>" and ?db = "no_billing\<lparr>bd_accounts := [1 \<mapsto> plain_account ex]\<rparr>"
  note calc = uses_of_def over_def period_usage_def slot_def daily_anchor_def weekly_anchor_def sample_settings_def
  have "quota_state sample_settings (hours 8) (uses_of ?es) t' (acc_Extra ?a)" using s(2) by simp
  from IsQuotaExceeded_state [where tzdb = sample_zones, OF q this s(1)]
  have before: "\<not> IsQuotaExceeded sample_zones ?now ?a" by (simp add: calc)
  have db: "bd_accounts ?db 1 = Some (plain_account ex)" "ar_extra (plain_account ex) = ex" "bd_faults ?db = []"
    by (simp_all add: plain_account_def no_billing_def)
  obtain st db' ex' where r: "incrementUsageBillingAccountQuota sample_zones ?now 1 (Fin 5) ?db = (Inr st, db')"
      "bd_accounts db' 1 = Some (plain_account ex\<lparr>ar_extra := ex'\<rparr>)"
      "IsQuotaExceeded sample_zones ?now (sample_account\<lparr>acc_Extra := ex'\<rparr>) \<longrightarrow> (\<exists>t. (1, t) \<in> set (bd_outbox db') \<and> ?now - seconds 1 \<le> t)"
    using exhausted_quota_announced [where tzdb = sample_zones and a = sample_account, OF q t ex0(1) ex db before, of 5] by blast
  have "quota_state sample_settings (hours 8) (uses_of ?es @ [(?now, 5)]) ?now ex'"
    using use_counted [where tzdb = sample_zones and a = sample_account, OF q t(2) s(2,1,3) db before, of 5] r(1,2)
    by (auto simp: plain_account_def)
  then have "quota_state sample_settings (hours 8) (uses_of ?es @ [(?now, 5)]) ?now (acc_Extra (sample_account\<lparr>acc_Extra := ex'\<rparr>))" by simp
  from IsQuotaExceeded_state [where tzdb = sample_zones, OF q this order_refl]
  have "IsQuotaExceeded sample_zones ?now (sample_account\<lparr>acc_Extra := ex'\<rparr>)" by (simp add: calc)
  then show ?thesis using r(1,3) ex by (intro exI [of _ ex0]) auto
qed

end
