(* ===== verification/RecordUsage.thy ===== *)
theory RecordUsage
  imports Billing UsageBilled
begin

text \<open>
  What happens after a request was forwarded (\<open>service/gateway_service.go\<close>, \<open>openai_gateway_service.go\<close>,
  \<open>account_stats_pricing.go\<close>, \<open>usage_log_helpers.go\<close>): the price of the request, its log, the command for its
  billing, and the transaction.
\<close>

section \<open>Statistics of accounts\<close>

definition matchAccountStatsRule :: "AccountStatsPricingRule \<Rightarrow> int \<Rightarrow> int \<Rightarrow> bool" where
  "matchAccountStatsRule r accountID groupID \<longleftrightarrow> accountID \<in> set (sr_AccountIDs r) \<or> groupID \<in> set (sr_GroupIDs r)"

definition isPlatformMatch :: "string \<Rightarrow> string \<Rightarrow> bool" where
  "isPlatformMatch query pricing \<longleftrightarrow> query = '''' \<or> pricing = '''' \<or> query = pricing"

definition wildcard_prefix :: "string \<Rightarrow> string \<Rightarrow> bool" where
  "wildcard_prefix modelLower m \<longleftrightarrow> HasSuffix (ToLower m) ''*'' \<and> HasPrefix modelLower (TrimSuffix (ToLower m) ''*'')"

definition findPricingForModel :: "ChannelModelPricing list \<Rightarrow> string \<Rightarrow> string \<Rightarrow> ChannelModelPricing option" where
  "findPricingForModel ps platform modelLower =
     (let here = filter (\<lambda>p. isPlatformMatch platform (cp_Platform p)) ps
      in case find (\<lambda>p. list_ex (\<lambda>m. ToLower m = modelLower) (cp_Models p)) here of
           Some p \<Rightarrow> Some p
         | None \<Rightarrow> find (\<lambda>p. list_ex (wildcard_prefix modelLower) (cp_Models p)) here)"

definition positive_cost :: "float64 \<Rightarrow> float64 option" where
  "positive_cost c = (if c \<le> 0 then None else Some c)"

definition calculatePerRequestStatsCost :: "ChannelModelPricing \<Rightarrow> int \<Rightarrow> float64 option" where
  "calculatePerRequestStatsCost p requestCount =
     (case cp_PerRequestPrice p of None \<Rightarrow> None | Some x \<Rightarrow> if x \<le> 0 then None else Some (x * of_count requestCount))"

text \<open>The prices of an interval have no price for image tokens.\<close>

definition calculateTokenStatsCost :: "ChannelModelPricing \<Rightarrow> UsageTokens \<Rightarrow> float64 option" where
  "calculateTokenStatsCost p t =
     (let total = InputTokens t + OutputTokens t + CacheCreationTokens t + CacheReadTokens t;
          (i, out, w, r, im) = (case FindMatchingInterval (cp_Intervals p) total of
             Some iv \<Rightarrow> (iv_InputPrice iv, iv_OutputPrice iv, iv_CacheWritePrice iv, iv_CacheReadPrice iv, None)
           | None \<Rightarrow> (cp_InputPrice p, cp_OutputPrice p, cp_CacheWritePrice p, cp_CacheReadPrice p, cp_ImageOutputPrice p))
      in positive_cost (of_count (InputTokens t) * option_or i 0 + of_count (OutputTokens t) * option_or out 0 +
           of_count (CacheCreationTokens t) * option_or w 0 + of_count (CacheReadTokens t) * option_or r 0 +
           of_count (ImageOutputTokens t) * option_or im 0))"

definition calculateStatsCost :: "ChannelModelPricing \<Rightarrow> UsageTokens \<Rightarrow> int \<Rightarrow> float64 option" where
  "calculateStatsCost p t requestCount =
     (if cp_BillingMode p = BillingModePerRequest \<or> cp_BillingMode p = BillingModeImage
      then calculatePerRequestStatsCost p requestCount else calculateTokenStatsCost p t)"

definition tryCustomRules :: "Channel \<Rightarrow> int \<Rightarrow> int \<Rightarrow> string \<Rightarrow> string \<Rightarrow> UsageTokens \<Rightarrow> int \<Rightarrow> float64 option" where
  "tryCustomRules channel accountID groupID platform model t requestCount =
     (case first_some (\<lambda>r. if matchAccountStatsRule r accountID groupID
                            then findPricingForModel (sr_Pricing r) platform (ToLower model) else None) (ch_AccountStatsPricingRules channel) of
        None \<Rightarrow> None
      | Some p \<Rightarrow> calculateStatsCost p t requestCount)"

text \<open>Prices from the list of models, with the state of the price service.\<close>

definition tryModelFilePricing :: "string \<Rightarrow> UsageTokens \<Rightarrow> billing_service \<Rightarrow> float64 option \<times> billing_service" where
  "tryModelFilePricing model t s =
     (case billing_GetModelPricing model s of
        (None, s') \<Rightarrow> (None, s')
      | (Some a, s') \<Rightarrow>
          let p = deref s' a
          in (positive_cost (of_count (InputTokens t) * InputPricePerToken p + of_count (OutputTokens t) * OutputPricePerToken p +
                of_count (CacheCreationTokens t) * CacheCreationPricePerToken p + of_count (CacheReadTokens t) * CacheReadPricePerToken p +
                of_count (ImageOutputTokens t) * ImageOutputPricePerToken p), s'))"

definition resolveAccountStatsCost :: "(nat \<Rightarrow> instant) \<Rightarrow> int \<Rightarrow> int \<Rightarrow> string \<Rightarrow> UsageTokens \<Rightarrow> int \<Rightarrow> float64 \<Rightarrow>
    channel_service \<times> billing_service \<Rightarrow> float64 option \<times> channel_service \<times> billing_service" where
  "resolveAccountStatsCost clk accountID groupID upstreamModel t requestCount totalCost st =
     (if upstreamModel = '''' then (None, st)
      else case GetChannelForGroup (clk 0) groupID (fst st) of
        (None, cs) \<Rightarrow> (None, cs, snd st)
      | (Some None, cs) \<Rightarrow> (None, cs, snd st)
      | (Some (Some channel), cs) \<Rightarrow>
          let (platform, cs') = GetGroupPlatform (clk 1) groupID cs
          in case tryCustomRules channel accountID groupID platform upstreamModel t requestCount of
               Some c \<Rightarrow> (Some c, cs', snd st)
             | None \<Rightarrow>
                 if ch_ApplyPricingToAccountStats channel then (positive_cost totalCost, cs', snd st)
                 else let (c, s') = tryModelFilePricing upstreamModel t (snd st) in (c, cs', s'))"

definition applyAccountStatsCost :: "(nat \<Rightarrow> instant) \<Rightarrow> int \<Rightarrow> int \<Rightarrow> string \<Rightarrow> string \<Rightarrow> UsageTokens \<Rightarrow> float64 \<Rightarrow> UsageLog \<Rightarrow>
    channel_service \<times> billing_service \<Rightarrow> UsageLog \<times> channel_service \<times> billing_service" where
  "applyAccountStatsCost clk accountID groupID upstreamModel requestedModel t totalCost l st =
     (let (c, st') = resolveAccountStatsCost clk accountID groupID (if upstreamModel = '''' then requestedModel else upstreamModel) t 1 totalCost st
      in (l\<lparr>ul_AccountStatsCost := c\<rparr>, st'))"

section \<open>Results and inputs\<close>

record ClaudeUsage =
  cu_InputTokens :: int
  cu_OutputTokens :: int
  cu_CacheCreationInputTokens :: int
  cu_CacheReadInputTokens :: int
  cu_CacheCreation5mTokens :: int
  cu_CacheCreation1hTokens :: int
  cu_ImageOutputTokens :: int

record ForwardResult =
  fr_RequestID :: string
  fr_Usage :: ClaudeUsage
  fr_Model :: string
  fr_UpstreamModel :: string
  fr_Stream :: bool
  fr_DurationMs :: int
  fr_FirstTokenMs :: "int option"
  fr_ReasoningEffort :: "string option"
  fr_ImageCount :: int
  fr_ImageSize :: string

record OpenAIUsage =
  ou_InputTokens :: int
  ou_OutputTokens :: int
  ou_CacheCreationInputTokens :: int
  ou_CacheReadInputTokens :: int
  ou_ImageOutputTokens :: int

record OpenAIForwardResult =
  of_RequestID :: string
  of_Usage :: OpenAIUsage
  of_Model :: string
  of_BillingModel :: string
  of_UpstreamModel :: string
  of_ServiceTier :: "string option"
  of_ReasoningEffort :: "string option"
  of_Stream :: bool
  of_OpenAIWSMode :: bool
  of_DurationMs :: int
  of_FirstTokenMs :: "int option"
  of_ImageCount :: int
  of_ImageSize :: string

text \<open>The fields of API keys and groups that matter for the price.\<close>

record key_group =
  kg_ID :: int
  kg_RateMultiplier :: float64
  kg_SubscriptionType :: string
  kg_ImagePrice1K :: "float64 option"
  kg_ImagePrice2K :: "float64 option"
  kg_ImagePrice4K :: "float64 option"

record APIKey =
  ak_ID :: int
  ak_GroupID :: "int option"
  ak_Group :: "key_group option"
  ak_Quota :: float64
  ak_RateLimit5h :: float64
  ak_RateLimit1d :: float64
  ak_RateLimit7d :: float64

definition HasRateLimits :: "APIKey \<Rightarrow> bool" where
  "HasRateLimits k \<longleftrightarrow> 0 < ak_RateLimit5h k \<or> 0 < ak_RateLimit1d k \<or> 0 < ak_RateLimit7d k"

definition IsSubscriptionType_key :: "key_group \<Rightarrow> bool" where
  "IsSubscriptionType_key g \<longleftrightarrow> kg_SubscriptionType g = ''subscription''"

text \<open>
  What a call is given beside the result: the user, the key, the account, the subscription, the fields of the channel,
  whether a service for the quotas of keys is there; of the context the two identifiers of the request, empty
  without one, and the next generated identifier.
\<close>

record usage_input =
  ri_UserID :: int
  ri_APIKey :: APIKey
  ri_Account :: Account
  ri_Subscription :: "int option"
  ri_InboundEndpoint :: string
  ri_UpstreamEndpoint :: string
  ri_UserAgent :: string
  ri_IPAddress :: string
  ri_RequestPayloadHash :: string
  ri_ForceCacheBilling :: bool
  ri_quota_service :: bool
  ri_Channel :: ChannelUsageFields
  ri_client_id :: string
  ri_local_id :: string
  ri_generated_id :: string

text \<open>
  The settings of a gateway: the default multiplier, the simple mode without billing, whether a resolver of prices is
  there, the setting that asks for long-lived cache entries, the multiplier of a user in a group with the
  default of the group, through its cache; and the older path without the transaction, which is not modelled.
\<close>

record postUsageBillingParams =
  pp_Cost :: CostBreakdown
  pp_UserID :: int
  pp_APIKey :: APIKey
  pp_Account :: Account
  pp_Subscription :: "int option"
  pp_RequestPayloadHash :: string
  pp_IsSubscriptionBill :: bool
  pp_AccountRateMultiplier :: float64
  pp_quota_service :: bool

record gateway_config =
  gc_RateMultiplier :: float64
  gc_simple :: bool
  gc_resolver :: bool
  gc_ttl_injection :: bool
  gc_user_rate :: "int \<Rightarrow> int \<Rightarrow> float64 \<Rightarrow> float64"
  gc_older_path :: "postUsageBillingParams \<Rightarrow> billing_db \<Rightarrow> billing_db"
  gc_sha :: "string \<Rightarrow> string"
  gc_tzdb :: "string \<Rightarrow> zone option"
  gc_zone :: zone

record gateway =
  gw_channels :: channel_service
  gw_prices :: billing_service
  gw_db :: billing_db

section \<open>The price\<close>

definition applyCacheTTLOverride :: "ClaudeUsage \<Rightarrow> string \<Rightarrow> ClaudeUsage" where
  "applyCacheTTLOverride u0 target =
     (let u = (if cu_CacheCreation5mTokens u0 = 0 \<and> cu_CacheCreation1hTokens u0 = 0 \<and> 0 < cu_CacheCreationInputTokens u0
               then u0\<lparr>cu_CacheCreation5mTokens := cu_CacheCreationInputTokens u0\<rparr> else u0);
          total = cu_CacheCreation5mTokens u + cu_CacheCreation1hTokens u
      in if total = 0 then u
         else if target = ''1h'' then u\<lparr>cu_CacheCreation1hTokens := total, cu_CacheCreation5mTokens := 0\<rparr>
         else u\<lparr>cu_CacheCreation5mTokens := total, cu_CacheCreation1hTokens := 0\<rparr>)"

definition resolveCacheTTLUsageOverrideTarget :: "gateway_config \<Rightarrow> Account \<Rightarrow> string option" where
  "resolveCacheTTLUsageOverrideTarget cfg a =
     (if IsCacheTTLOverrideEnabled a then Some (GetCacheTTLOverrideTarget a)
      else if IsAnthropicOAuthOrSetupToken a \<and> gc_ttl_injection cfg then Some ''5m'' else None)"

definition forwardResultBillingModel :: "string \<Rightarrow> string \<Rightarrow> string" where
  "forwardResultBillingModel requested upstream = or_text (TrimSpace requested) (TrimSpace upstream)"

definition optionalTrimmedStringPtr :: "string \<Rightarrow> string option" where
  "optionalTrimmedStringPtr s = (if TrimSpace s = '''' then None else Some (TrimSpace s))"

definition optionalNonEqualStringPtr :: "string \<Rightarrow> string \<Rightarrow> string option" where
  "optionalNonEqualStringPtr v compare = (if v = '''' \<or> v = compare then None else Some v)"

definition optionalInt64Ptr :: "int \<Rightarrow> int option" where
  "optionalInt64Ptr v = (if v = 0 then None else Some v)"

text \<open>The rate of a user, of the group, or the default one.\<close>

definition rate_of :: "gateway_config \<Rightarrow> usage_input \<Rightarrow> float64" where
  "rate_of cfg i =
     (case (ak_GroupID (ri_APIKey i), ak_Group (ri_APIKey i)) of
        (Some g, Some grp) \<Rightarrow> gc_user_rate cfg (ri_UserID i) g (kg_RateMultiplier grp)
      | _ \<Rightarrow> gc_RateMultiplier cfg)"

definition resolveChannelPricing :: "gateway_config \<Rightarrow> (nat \<Rightarrow> instant) \<Rightarrow> string \<Rightarrow> APIKey \<Rightarrow> channel_service \<times> billing_service \<Rightarrow>
    ResolvedPricing option \<times> channel_service \<times> billing_service" where
  "resolveChannelPricing cfg clk model k st =
     (case ak_Group k of
        None \<Rightarrow> (None, st)
      | Some g \<Rightarrow>
          if gc_resolver cfg
          then let (r, st') = Resolve GetChannelModelPricing clk model (Some (kg_ID g)) st
               in (if rp_Source r = ''channel'' then Some r else None, st')
          else (None, st))"

definition image_config :: "APIKey \<Rightarrow> ImagePriceConfig option" where
  "image_config k = map_option (\<lambda>g. \<lparr>Price1K = kg_ImagePrice1K g, Price2K = kg_ImagePrice2K g, Price4K = kg_ImagePrice4K g\<rparr>) (ak_Group k)"

definition price_source_of :: "gateway_config \<Rightarrow> channel_service price_source option" where
  "price_source_of cfg = (if gc_resolver cfg then Some GetChannelModelPricing else None)"

definition cost_input :: "string \<Rightarrow> APIKey \<Rightarrow> UsageTokens \<Rightarrow> string \<Rightarrow> float64 \<Rightarrow> string \<Rightarrow> ResolvedPricing option \<Rightarrow> CostInput" where
  "cost_input model k tokens size_tier multiplier tier r =
     \<lparr>ci_Model = model, ci_GroupID = map_option kg_ID (ak_Group k), ci_Tokens = tokens, ci_RequestCount = 1, ci_SizeTier = size_tier,
      ci_RateMultiplier = multiplier, ci_ServiceTier = tier, ci_Resolved = r\<rparr>"

text \<open>A price that cannot be found is zero.\<close>

definition calculateImageCost :: "gateway_config \<Rightarrow> (nat \<Rightarrow> instant) \<Rightarrow> ForwardResult \<Rightarrow> APIKey \<Rightarrow> string \<Rightarrow> float64 \<Rightarrow>
    channel_service \<times> billing_service \<Rightarrow> CostBreakdown \<times> channel_service \<times> billing_service" where
  "calculateImageCost cfg clk result k model multiplier st =
     (case resolveChannelPricing cfg clk model k st of
        (Some r, st1) \<Rightarrow>
          let u = fr_Usage result;
              tokens = \<lparr>InputTokens = cu_InputTokens u, OutputTokens = cu_OutputTokens u, CacheCreationTokens = 0, CacheReadTokens = 0,
                CacheCreation5mTokens = 0, CacheCreation1hTokens = 0, ImageOutputTokens = cu_ImageOutputTokens u\<rparr>;
              (c, st2) = CalculateCostUnified (price_source_of cfg) clk (cost_input model k tokens '''' multiplier '''' (Some r)) st1
          in (option_or c zero_breakdown, st2)
      | (None, st1) \<Rightarrow> (CalculateImageCost model (fr_ImageSize result) (fr_ImageCount result) (image_config k) multiplier (snd st1), st1))"

definition usage_tokens :: "ClaudeUsage \<Rightarrow> UsageTokens" where
  "usage_tokens u =
     \<lparr>InputTokens = cu_InputTokens u, OutputTokens = cu_OutputTokens u, CacheCreationTokens = cu_CacheCreationInputTokens u,
      CacheReadTokens = cu_CacheReadInputTokens u, CacheCreation5mTokens = cu_CacheCreation5mTokens u,
      CacheCreation1hTokens = cu_CacheCreation1hTokens u, ImageOutputTokens = cu_ImageOutputTokens u\<rparr>"

text \<open>The threshold and the multiplier for long contexts are the arguments \<open>long\<close>, a threshold of 0 is none.\<close>

definition gateway_token_cost :: "gateway_config \<Rightarrow> (nat \<Rightarrow> instant) \<Rightarrow> int \<times> float64 \<Rightarrow> ForwardResult \<Rightarrow> APIKey \<Rightarrow> string \<Rightarrow> float64 \<Rightarrow>
    channel_service \<times> billing_service \<Rightarrow> CostBreakdown \<times> channel_service \<times> billing_service" where
  "gateway_token_cost cfg clk long result k model multiplier st =
     (let tokens = usage_tokens (fr_Usage result)
      in case resolveChannelPricing cfg clk model k st of
        (Some r, st1) \<Rightarrow>
          let (c, st2) = CalculateCostUnified (price_source_of cfg) clk (cost_input model k tokens '''' multiplier '''' (Some r)) st1
          in (option_or c zero_breakdown, st2)
      | (None, cs, s) \<Rightarrow>
          let (c, s') = (if 0 < fst long then CalculateCostWithLongContext model tokens multiplier (fst long) (snd long) s
                         else CalculateCost model tokens multiplier s)
          in (option_or c zero_breakdown, cs, s'))"

definition calculateRecordUsageCost :: "gateway_config \<Rightarrow> (nat \<Rightarrow> instant) \<Rightarrow> int \<times> float64 \<Rightarrow> ForwardResult \<Rightarrow> APIKey \<Rightarrow> string \<Rightarrow> float64 \<Rightarrow>
    channel_service \<times> billing_service \<Rightarrow> CostBreakdown \<times> channel_service \<times> billing_service" where
  "calculateRecordUsageCost cfg clk long result k model multiplier st =
     (if 0 < fr_ImageCount result then calculateImageCost cfg clk result k model multiplier st
      else gateway_token_cost cfg clk long result k model multiplier st)"

definition openai_channel_mode :: "ResolvedPricing \<Rightarrow> bool" where
  "openai_channel_mode r \<longleftrightarrow> rp_Mode r = BillingModePerRequest \<or> rp_Mode r = BillingModeImage"

definition no_tokens :: UsageTokens where
  "no_tokens = \<lparr>InputTokens = 0, OutputTokens = 0, CacheCreationTokens = 0, CacheReadTokens = 0, CacheCreation5mTokens = 0,
     CacheCreation1hTokens = 0, ImageOutputTokens = 0\<rparr>"

definition calculateOpenAIImageCost :: "gateway_config \<Rightarrow> (nat \<Rightarrow> instant) \<Rightarrow> OpenAIForwardResult \<Rightarrow> APIKey \<Rightarrow> string \<Rightarrow> float64 \<Rightarrow>
    channel_service \<times> billing_service \<Rightarrow> CostBreakdown \<times> channel_service \<times> billing_service" where
  "calculateOpenAIImageCost cfg clk result k model multiplier st =
     (let (r, st1) = resolveChannelPricing cfg clk model k st;
          (c, st2) = (case r of
             Some p \<Rightarrow> if openai_channel_mode p
               then CalculateCostUnified (price_source_of cfg) clk (cost_input model k no_tokens (of_ImageSize result) multiplier '''' (Some p)) st1
               else (None, st1)
           | None \<Rightarrow> (None, st1))
      in case c of
           Some b \<Rightarrow> (b, st2)
         | None \<Rightarrow> (CalculateImageCost model (of_ImageSize result) (of_ImageCount result) (image_config k) multiplier (snd st2), st2))"

definition calculateOpenAIRecordUsageCost :: "gateway_config \<Rightarrow> (nat \<Rightarrow> instant) \<Rightarrow> OpenAIForwardResult \<Rightarrow> APIKey \<Rightarrow> string \<Rightarrow> float64 \<Rightarrow>
    UsageTokens \<Rightarrow> string \<Rightarrow> channel_service \<times> billing_service \<Rightarrow> CostBreakdown option \<times> channel_service \<times> billing_service" where
  "calculateOpenAIRecordUsageCost cfg clk result k model multiplier tokens tier st =
     (if 0 < of_ImageCount result
      then let (c, st') = calculateOpenAIImageCost cfg clk result k model multiplier st in (Some c, st')
      else if gc_resolver cfg \<and> ak_Group k \<noteq> None
      then CalculateCostUnified (price_source_of cfg) clk (cost_input model k tokens '''' multiplier tier None) st
      else let (c, s') = CalculateCostWithServiceTier model tokens multiplier tier (snd st) in (c, fst st, s'))"

section \<open>The log\<close>

definition mode_text :: "BillingMode \<Rightarrow> string" where
  "mode_text m = (case m of BillingModeToken \<Rightarrow> ''token'' | BillingModePerRequest \<Rightarrow> ''per_request'' | BillingModeImage \<Rightarrow> ''image''
     | BillingModeUnset \<Rightarrow> '''' | BillingModeOther s \<Rightarrow> s)"

definition resolveBillingMode :: "int \<Rightarrow> CostBreakdown \<Rightarrow> string" where
  "resolveBillingMode imageCount c =
     or_text (mode_text (cb_BillingMode c)) (mode_text (if 0 < imageCount then BillingModeImage else BillingModeToken))"

definition resolveUsageBillingRequestID :: "usage_input \<Rightarrow> string \<Rightarrow> string" where
  "resolveUsageBillingRequestID i upstream =
     (if TrimSpace (ri_client_id i) \<noteq> '''' then ''client:'' @ TrimSpace (ri_client_id i)
      else if TrimSpace (ri_local_id i) \<noteq> '''' then ''local:'' @ TrimSpace (ri_local_id i)
      else if TrimSpace upstream \<noteq> '''' then TrimSpace upstream
      else ''generated:'' @ ri_generated_id i)"

definition resolveUsageBillingPayloadFingerprint :: "usage_input \<Rightarrow> string" where
  "resolveUsageBillingPayloadFingerprint i =
     (if TrimSpace (ri_RequestPayloadHash i) \<noteq> '''' then TrimSpace (ri_RequestPayloadHash i)
      else if TrimSpace (ri_client_id i) \<noteq> '''' then ''client:'' @ TrimSpace (ri_client_id i)
      else if TrimSpace (ri_local_id i) \<noteq> '''' then ''local:'' @ TrimSpace (ri_local_id i)
      else '''')"

definition log_costs :: "CostBreakdown \<Rightarrow> UsageLog \<Rightarrow> UsageLog" where
  "log_costs c l =
     l\<lparr>ul_InputCost := InputCost c, ul_OutputCost := OutputCost c, ul_ImageOutputCost := ImageOutputCost c,
       ul_CacheCreationCost := CacheCreationCost c, ul_CacheReadCost := CacheReadCost c, ul_TotalCost := TotalCost c, ul_ActualCost := ActualCost c\<rparr>"

definition requested_model :: "usage_input \<Rightarrow> string \<Rightarrow> string" where
  "requested_model i model = or_text (uf_OriginalModel (ri_Channel i)) model"

definition subscription_billing :: "usage_input \<Rightarrow> bool" where
  "subscription_billing i \<longleftrightarrow>
     ri_Subscription i \<noteq> None \<and> (case ak_Group (ri_APIKey i) of None \<Rightarrow> False | Some g \<Rightarrow> IsSubscriptionType_key g)"

definition buildRecordUsageLog :: "instant \<Rightarrow> usage_input \<Rightarrow> ForwardResult \<Rightarrow> float64 \<Rightarrow> bool \<Rightarrow> CostBreakdown \<Rightarrow> UsageLog" where
  "buildRecordUsageLog now i r multiplier ttl_overridden c =
     (let u = fr_Usage r
      in log_costs c
        \<lparr>ul_UserID = ri_UserID i, ul_APIKeyID = ak_ID (ri_APIKey i), ul_AccountID = acc_ID (ri_Account i),
         ul_RequestID = resolveUsageBillingRequestID i (fr_RequestID r), ul_Model = fr_Model r, ul_RequestedModel = requested_model i (fr_Model r),
         ul_UpstreamModel = optionalNonEqualStringPtr (fr_UpstreamModel r) (fr_Model r), ul_ChannelID = optionalInt64Ptr (uf_ChannelID (ri_Channel i)),
         ul_ModelMappingChain = optionalTrimmedStringPtr (uf_ModelMappingChain (ri_Channel i)),
         ul_BillingMode = Some (resolveBillingMode (fr_ImageCount r) c), ul_ServiceTier = None, ul_ReasoningEffort = fr_ReasoningEffort r,
         ul_InboundEndpoint = optionalTrimmedStringPtr (ri_InboundEndpoint i), ul_UpstreamEndpoint = optionalTrimmedStringPtr (ri_UpstreamEndpoint i),
         ul_GroupID = ak_GroupID (ri_APIKey i), ul_SubscriptionID = ri_Subscription i,
         ul_InputTokens = cu_InputTokens u, ul_OutputTokens = cu_OutputTokens u, ul_CacheCreationTokens = cu_CacheCreationInputTokens u,
         ul_CacheReadTokens = cu_CacheReadInputTokens u, ul_CacheCreation5mTokens = cu_CacheCreation5mTokens u,
         ul_CacheCreation1hTokens = cu_CacheCreation1hTokens u, ul_ImageOutputTokens = cu_ImageOutputTokens u,
         ul_InputCost = 0, ul_OutputCost = 0, ul_ImageOutputCost = 0, ul_CacheCreationCost = 0, ul_CacheReadCost = 0, ul_TotalCost = 0,
         ul_ActualCost = 0, ul_RateMultiplier = multiplier, ul_AccountRateMultiplier = Some (BillingRateMultiplier (ri_Account i)),
         ul_AccountStatsCost = None, ul_BillingType = (if subscription_billing i then 1 else 0), ul_RequestType = RequestTypeUnknown,
         ul_Stream = fr_Stream r, ul_OpenAIWSMode = False, ul_DurationMs = Some (fr_DurationMs r), ul_FirstTokenMs = fr_FirstTokenMs r,
         ul_UserAgent = optionalTrimmedStringPtr (ri_UserAgent i), ul_IPAddress = optionalTrimmedStringPtr (ri_IPAddress i),
         ul_CacheTTLOverridden = ttl_overridden, ul_ImageCount = fr_ImageCount r, ul_ImageSize = optionalTrimmedStringPtr (fr_ImageSize r),
         ul_CreatedAt = now\<rparr>)"

text \<open>The log of an OpenAI request; here the texts of the client are not trimmed.\<close>

definition openai_usage_log :: "instant \<Rightarrow> usage_input \<Rightarrow> OpenAIForwardResult \<Rightarrow> float64 \<Rightarrow> UsageTokens \<Rightarrow> CostBreakdown \<Rightarrow> UsageLog" where
  "openai_usage_log now i r multiplier t c =
     log_costs c
        \<lparr>ul_UserID = ri_UserID i, ul_APIKeyID = ak_ID (ri_APIKey i), ul_AccountID = acc_ID (ri_Account i),
         ul_RequestID = resolveUsageBillingRequestID i (of_RequestID r), ul_Model = of_Model r, ul_RequestedModel = requested_model i (of_Model r),
         ul_UpstreamModel = optionalNonEqualStringPtr (of_UpstreamModel r) (of_Model r), ul_ChannelID = optionalInt64Ptr (uf_ChannelID (ri_Channel i)),
         ul_ModelMappingChain = optionalTrimmedStringPtr (uf_ModelMappingChain (ri_Channel i)),
         ul_BillingMode = Some (resolveBillingMode (of_ImageCount r) c), ul_ServiceTier = of_ServiceTier r, ul_ReasoningEffort = of_ReasoningEffort r,
         ul_InboundEndpoint = optionalTrimmedStringPtr (ri_InboundEndpoint i), ul_UpstreamEndpoint = optionalTrimmedStringPtr (ri_UpstreamEndpoint i),
         ul_GroupID = ak_GroupID (ri_APIKey i), ul_SubscriptionID = ri_Subscription i,
         ul_InputTokens = InputTokens t, ul_OutputTokens = OutputTokens t, ul_CacheCreationTokens = CacheCreationTokens t,
         ul_CacheReadTokens = CacheReadTokens t, ul_CacheCreation5mTokens = 0, ul_CacheCreation1hTokens = 0, ul_ImageOutputTokens = ImageOutputTokens t,
         ul_InputCost = 0, ul_OutputCost = 0, ul_ImageOutputCost = 0, ul_CacheCreationCost = 0, ul_CacheReadCost = 0, ul_TotalCost = 0,
         ul_ActualCost = 0, ul_RateMultiplier = multiplier, ul_AccountRateMultiplier = Some (BillingRateMultiplier (ri_Account i)),
         ul_AccountStatsCost = None, ul_BillingType = (if subscription_billing i then 1 else 0), ul_RequestType = RequestTypeUnknown,
         ul_Stream = of_Stream r, ul_OpenAIWSMode = of_OpenAIWSMode r, ul_DurationMs = Some (of_DurationMs r), ul_FirstTokenMs = of_FirstTokenMs r,
         ul_UserAgent = nullString (Some (ri_UserAgent i)), ul_IPAddress = nullString (Some (ri_IPAddress i)),
         ul_CacheTTLOverridden = False, ul_ImageCount = of_ImageCount r, ul_ImageSize = optionalTrimmedStringPtr (of_ImageSize r),
         ul_CreatedAt = now\<rparr>"

section \<open>The command\<close>

definition shouldDeductAPIKeyQuota :: "postUsageBillingParams \<Rightarrow> bool" where
  "shouldDeductAPIKeyQuota p \<longleftrightarrow> 0 < ActualCost (pp_Cost p) \<and> 0 < ak_Quota (pp_APIKey p) \<and> pp_quota_service p"

definition shouldUpdateRateLimits :: "postUsageBillingParams \<Rightarrow> bool" where
  "shouldUpdateRateLimits p \<longleftrightarrow> 0 < ActualCost (pp_Cost p) \<and> HasRateLimits (pp_APIKey p) \<and> pp_quota_service p"

definition shouldUpdateAccountQuota :: "postUsageBillingParams \<Rightarrow> bool" where
  "shouldUpdateAccountQuota p \<longleftrightarrow> 0 < TotalCost (pp_Cost p) \<and> IsAPIKeyOrBedrock (pp_Account p) \<and> HasAnyQuotaLimit (pp_Account p)"

definition subscription_charged :: "postUsageBillingParams \<Rightarrow> bool" where
  "subscription_charged p \<longleftrightarrow> pp_IsSubscriptionBill p \<and> pp_Subscription p \<noteq> None \<and> 0 < TotalCost (pp_Cost p)"

definition buildUsageBillingCommand :: "(string \<Rightarrow> string) \<Rightarrow> string \<Rightarrow> UsageLog \<Rightarrow> postUsageBillingParams \<Rightarrow> UsageBillingCommand" where
  "buildUsageBillingCommand sha requestID l p =
     (let actual = ActualCost (pp_Cost p)
      in Normalize sha
        \<lparr>uc_RequestID = requestID, uc_APIKeyID = ak_ID (pp_APIKey p), uc_RequestFingerprint = '''', uc_RequestPayloadHash = TrimSpace (pp_RequestPayloadHash p),
         uc_UserID = pp_UserID p, uc_AccountID = acc_ID (pp_Account p), uc_GroupID = ul_GroupID l,
         uc_SubscriptionID = (if subscription_charged p then pp_Subscription p else ul_SubscriptionID l), uc_AccountType = acc_Type (pp_Account p),
         uc_Model = ul_Model l, uc_ServiceTier = option_or (ul_ServiceTier l) '''', uc_ReasoningEffort = option_or (ul_ReasoningEffort l) '''',
         uc_BillingType = ul_BillingType l, uc_InputTokens = ul_InputTokens l, uc_OutputTokens = ul_OutputTokens l,
         uc_CacheCreationTokens = ul_CacheCreationTokens l, uc_CacheReadTokens = ul_CacheReadTokens l, uc_ImageCount = ul_ImageCount l, uc_MediaType = '''',
         uc_BalanceCost = (if \<not> subscription_charged p \<and> 0 < actual then actual else 0),
         uc_SubscriptionCost = (if subscription_charged p then actual else 0),
         uc_APIKeyQuotaCost = (if shouldDeductAPIKeyQuota p then actual else 0),
         uc_APIKeyRateLimitCost = (if shouldUpdateRateLimits p then actual else 0),
         uc_AccountQuotaCost = (if shouldUpdateAccountQuota p then TotalCost (pp_Cost p) * pp_AccountRateMultiplier p else 0),
         uc_ShareSnapshotCaptured = False, uc_ShareOwnerUserID = None, uc_ShareModeSnapshot = '''', uc_ShareStatusSnapshot = '''', uc_SharePlatform = '''',
         uc_SharePolicyID = None, uc_SharePolicyVersion = 0, uc_OwnerShareRatio = 0, uc_UsageLog = Some l\<rparr>)"

text \<open>How the account is shared at this time; the policy is read in a statement of its own.\<close>

definition positive_id :: "int option \<Rightarrow> int option" where
  "positive_id v = (case v of Some n \<Rightarrow> if 0 < n then Some n else None | None \<Rightarrow> None)"

definition ResolveEnabledAccountSharePolicy :: "instant \<Rightarrow> billing_db \<Rightarrow> policy_row option billing_result" where
  "ResolveEnabledAccountSharePolicy now =
     statement (\<lambda>db. (Inr (case sort_key policy_key (filter (\<lambda>p. pr_enabled p \<and> pr_effective_at p \<le> now \<and> pr_scope p = ''global'') (bd_policies db)) of
        [] \<Rightarrow> None | p # _ \<Rightarrow> Some p), db))"

definition attachAccountShareBillingSnapshot :: "instant \<Rightarrow> UsageBillingCommand \<Rightarrow> postUsageBillingParams \<Rightarrow> billing_db \<Rightarrow> UsageBillingCommand billing_result" where
  "attachAccountShareBillingSnapshot now cmd p db0 =
     (let a = pp_Account p; mode = NormalizeAccountShareMode (acc_ShareMode a); status = NormalizeAccountShareStatus (acc_ShareStatus a);
          c = cmd\<lparr>uc_ShareSnapshotCaptured := True, uc_ShareModeSnapshot := mode, uc_ShareStatusSnapshot := status,
                 uc_SharePlatform := TrimSpace (acc_Platform a), uc_ShareOwnerUserID := positive_id (acc_OwnerUserID a),
                 uc_SharePolicyID := positive_id (acc_SharePolicyID a)\<rparr>
      in if positive_id (acc_OwnerUserID a) = None \<or> acc_OwnerUserID a = Some (pp_UserID p) then (Inr c, db0)
         else if mode \<noteq> AccountShareModePublic \<or> status \<noteq> AccountShareStatusApproved then (Inr c, db0)
         else and_then (ResolveEnabledAccountSharePolicy now db0) (\<lambda>policy db.
           (Inr (case policy of
                   None \<Rightarrow> c
                 | Some q \<Rightarrow> if pr_ratio q \<le> 0 then c
                             else c\<lparr>uc_SharePolicyID := Some (pr_id q), uc_SharePolicyVersion := pr_version q, uc_OwnerShareRatio := Fin (pr_ratio q)\<rparr>), db)))"

definition applyUsageBilling :: "gateway_config \<Rightarrow> (nat \<Rightarrow> instant) \<Rightarrow> string \<Rightarrow> UsageLog \<Rightarrow> postUsageBillingParams \<Rightarrow> billing_db \<Rightarrow> bool billing_result" where
  "applyUsageBilling cfg clk requestID l p db0 =
     (let cmd = buildUsageBillingCommand (gc_sha cfg) requestID l p
      in if uc_RequestID cmd = '''' then (Inr True, gc_older_path cfg p db0)
         else and_then (attachAccountShareBillingSnapshot (clk 0) cmd p db0) (\<lambda>cmd' db1.
              and_then (Apply (gc_sha cfg) (gc_tzdb cfg) (gc_zone cfg) (clk 1) cmd' db1) (\<lambda>r db2. (Inr (ur_Applied r), db2))))"

text \<open>The log is inserted unless it is there; a second attempt after a failure, which may be missing too.\<close>

definition insert_log :: "instant \<Rightarrow> UsageLog \<Rightarrow> billing_db \<Rightarrow> unit billing_result" where
  "insert_log now l =
     statement (\<lambda>db.
       let row = prepareUsageLogInsert now l
       in if ul_RequestID row \<noteq> '''' \<and> list_ex (same_log (ul_RequestID row) (ul_APIKeyID row)) (bd_logs db) then (Inr (), db)
          else (Inr (), db\<lparr>bd_logs := bd_logs db @ [(bd_next_log db, row)], bd_next_log := bd_next_log db + 1\<rparr>))"

definition writeUsageLogBestEffort :: "instant \<Rightarrow> UsageLog \<Rightarrow> billing_db \<Rightarrow> billing_db" where
  "writeUsageLogBestEffort now l db0 =
     (case insert_log now l db0 of (Inr _, db) \<Rightarrow> db | (Inl _, db) \<Rightarrow> snd (insert_log now l db))"

section \<open>Recording a request\<close>

text \<open>The shared end of both gateways: statistics, the simple mode, the billing, and the log.\<close>

definition billing_params :: "usage_input \<Rightarrow> CostBreakdown \<Rightarrow> postUsageBillingParams" where
  "billing_params i c =
     \<lparr>pp_Cost = c, pp_UserID = ri_UserID i, pp_APIKey = ri_APIKey i, pp_Account = ri_Account i, pp_Subscription = ri_Subscription i,
      pp_RequestPayloadHash = resolveUsageBillingPayloadFingerprint i, pp_IsSubscriptionBill = subscription_billing i,
      pp_AccountRateMultiplier = BillingRateMultiplier (ri_Account i), pp_quota_service = ri_quota_service i\<rparr>"

definition finish_record :: "gateway_config \<Rightarrow> (nat \<Rightarrow> instant) \<Rightarrow> usage_input \<Rightarrow> string \<times> string \<Rightarrow> UsageTokens \<Rightarrow> CostBreakdown \<Rightarrow> UsageLog \<Rightarrow>
    channel_service \<times> billing_service \<Rightarrow> billing_db \<Rightarrow> (billing_error + unit) \<times> gateway" where
  "finish_record cfg clk i models t c l0 st0 db0 =
     (let (l, cs, s) = (case ak_GroupID (ri_APIKey i) of
            None \<Rightarrow> (l0, st0)
          | Some g \<Rightarrow> applyAccountStatsCost (\<lambda>n. clk (n + 3)) (acc_ID (ri_Account i)) g (fst models) (snd models) t (TotalCost c) l0 st0);
          gw = (\<lambda>db. \<lparr>gw_channels = cs, gw_prices = s, gw_db = db\<rparr>)
      in if gc_simple cfg then (Inr (), gw (writeUsageLogBestEffort (clk 7) l db0))
         else case applyUsageBilling cfg (\<lambda>n. clk (n + 5)) (ul_RequestID l) l (billing_params i c) db0 of
                (Inl e, db) \<Rightarrow> (Inl e, gw db)
              | (Inr _, db) \<Rightarrow> (Inr (), gw (writeUsageLogBestEffort (clk 7) l db)))"

definition billing_model :: "usage_input \<Rightarrow> ForwardResult \<Rightarrow> string" where
  "billing_model i r =
     (let f = ri_Channel i; m0 = forwardResultBillingModel (fr_Model r) (fr_UpstreamModel r);
          m1 = (if uf_BillingModelSource f = ''channel_mapped'' \<and> uf_ChannelMappedModel f \<noteq> '''' then uf_ChannelMappedModel f else m0)
      in if uf_BillingModelSource f = ''requested'' \<and> uf_OriginalModel f \<noteq> '''' then uf_OriginalModel f else m1)"

definition forced_cache :: "usage_input \<Rightarrow> ClaudeUsage \<Rightarrow> ClaudeUsage" where
  "forced_cache i u =
     (if ri_ForceCacheBilling i \<and> 0 < cu_InputTokens u
      then u\<lparr>cu_CacheReadInputTokens := cu_CacheReadInputTokens u + cu_InputTokens u, cu_InputTokens := 0\<rparr> else u)"

text \<open>The usage that is billed, and whether the lifetimes of cache tokens were overridden.\<close>

definition billed_usage :: "gateway_config \<Rightarrow> usage_input \<Rightarrow> ClaudeUsage \<Rightarrow> ClaudeUsage \<times> bool" where
  "billed_usage cfg i u0 =
     (let u = forced_cache i u0
      in case resolveCacheTTLUsageOverrideTarget cfg (ri_Account i) of
           None \<Rightarrow> (u, False)
         | Some target \<Rightarrow> let u' = applyCacheTTLOverride u target in (u', 0 < cu_CacheCreation5mTokens u' + cu_CacheCreation1hTokens u'))"

definition recordUsageCore :: "gateway_config \<Rightarrow> (nat \<Rightarrow> instant) \<Rightarrow> int \<times> float64 \<Rightarrow> usage_input \<Rightarrow> ForwardResult \<Rightarrow> gateway \<Rightarrow>
    (billing_error + unit) \<times> gateway" where
  "recordUsageCore cfg clk long i r0 gw =
     (let (u, ttl) = billed_usage cfg i (fr_Usage r0); r = r0\<lparr>fr_Usage := u\<rparr>; multiplier = rate_of cfg i;
          (c, st) = calculateRecordUsageCost cfg clk long r (ri_APIKey i) (billing_model i r) multiplier (gw_channels gw, gw_prices gw);
          l = buildRecordUsageLog (clk 2) i r multiplier ttl c;
          t = (usage_tokens u)\<lparr>CacheCreation5mTokens := 0, CacheCreation1hTokens := 0\<rparr>
      in finish_record cfg clk i (fr_UpstreamModel r, fr_Model r) t c l st (gw_db gw))"

definition RecordUsage_gateway :: "gateway_config \<Rightarrow> (nat \<Rightarrow> instant) \<Rightarrow> usage_input \<Rightarrow> ForwardResult \<Rightarrow> gateway \<Rightarrow> (billing_error + unit) \<times> gateway" where
  "RecordUsage_gateway cfg clk i r gw = recordUsageCore cfg clk (0, 0) i r gw"

definition RecordUsageWithLongContext :: "gateway_config \<Rightarrow> (nat \<Rightarrow> instant) \<Rightarrow> int \<Rightarrow> float64 \<Rightarrow> usage_input \<Rightarrow> ForwardResult \<Rightarrow> gateway \<Rightarrow>
    (billing_error + unit) \<times> gateway" where
  "RecordUsageWithLongContext cfg clk threshold multiplier i r gw = recordUsageCore cfg clk (threshold, multiplier) i r gw"

text \<open>OpenAI counts cache reads as input tokens. A request without any usage is not recorded.\<close>

definition openai_tokens :: "OpenAIUsage \<Rightarrow> UsageTokens" where
  "openai_tokens u =
     \<lparr>InputTokens = max 0 (ou_InputTokens u - ou_CacheReadInputTokens u), OutputTokens = ou_OutputTokens u,
      CacheCreationTokens = ou_CacheCreationInputTokens u, CacheReadTokens = ou_CacheReadInputTokens u, CacheCreation5mTokens = 0,
      CacheCreation1hTokens = 0, ImageOutputTokens = ou_ImageOutputTokens u\<rparr>"

definition no_usage :: "OpenAIForwardResult \<Rightarrow> bool" where
  "no_usage r \<longleftrightarrow>
     (let u = of_Usage r
      in ou_InputTokens u = 0 \<and> ou_OutputTokens u = 0 \<and> ou_CacheCreationInputTokens u = 0 \<and> ou_CacheReadInputTokens u = 0 \<and>
         ou_ImageOutputTokens u = 0 \<and> of_ImageCount r = 0)"

definition openai_billing_model :: "usage_input \<Rightarrow> OpenAIForwardResult \<Rightarrow> string" where
  "openai_billing_model i r =
     (let f = ri_Channel i;
          m0 = (if of_BillingModel r \<noteq> '''' then TrimSpace (of_BillingModel r) else forwardResultBillingModel (of_Model r) (of_UpstreamModel r));
          m1 = (if uf_BillingModelSource f = ''channel_mapped'' \<and> uf_ChannelMappedModel f \<noteq> '''' \<and> uf_ChannelMappedModel f \<noteq> uf_OriginalModel f
                then uf_ChannelMappedModel f else m0)
      in if uf_BillingModelSource f = ''requested'' \<and> uf_OriginalModel f \<noteq> '''' then uf_OriginalModel f else m1)"

definition RecordUsage_openai :: "gateway_config \<Rightarrow> (nat \<Rightarrow> instant) \<Rightarrow> usage_input \<Rightarrow> OpenAIForwardResult \<Rightarrow> gateway \<Rightarrow> (billing_error + unit) \<times> gateway" where
  "RecordUsage_openai cfg clk i r gw =
     (if no_usage r then (Inr (), gw)
      else
        let t = openai_tokens (of_Usage r); multiplier = rate_of cfg i; tier = TrimSpace (option_or (of_ServiceTier r) '''');
            (co, st) = calculateOpenAIRecordUsageCost cfg clk r (ri_APIKey i) (openai_billing_model i r) multiplier t tier (gw_channels gw, gw_prices gw);
            c = option_or co zero_breakdown
        in finish_record cfg clk i (of_UpstreamModel r, of_Model r) t c (openai_usage_log (clk 2) i r multiplier t c) st (gw_db gw))"

section \<open>What the user pays\<close>

text \<open>The balances of everybody but \<open>X\<close>.\<close>

definition spares :: "int set \<Rightarrow> billing_db \<Rightarrow> billing_db \<Rightarrow> bool" where
  "spares X a b \<longleftrightarrow> (\<forall>v. v \<notin> X \<longrightarrow> bd_balances b v = bd_balances a v)"

interpretation spares: billing_frame "spares X"
  by unfold_locales (auto simp: spares_def)

lemma spares_update:
  "spares X s0 (db\<lparr>bd_logs := l, bd_next_log := n\<rparr>) = spares X s0 db" "spares X s0 (db\<lparr>bd_subscriptions := u\<rparr>) = spares X s0 db"
  "spares X s0 (db\<lparr>bd_settlements := t\<rparr>) = spares X s0 db" "spares X s0 (db\<lparr>bd_ledger := r\<rparr>) = spares X s0 db"
  "spares X s0 (db\<lparr>bd_keys := k\<rparr>) = spares X s0 db" "spares X s0 (db\<lparr>bd_accounts := a\<rparr>) = spares X s0 db"
  "spares X s0 (db\<lparr>bd_outbox := x\<rparr>) = spares X s0 db" "spares X s0 (db\<lparr>bd_dedup := d\<rparr>) = spares X s0 db"
  by (simp_all add: spares_def)

lemma spares_balance: "spares X s0 db \<Longrightarrow> v \<in> X \<Longrightarrow> spares X s0 (db\<lparr>bd_balances := (bd_balances db)(v \<mapsto> b)\<rparr>)"
  by (auto simp: spares_def)

lemma steps_spare:
  "spares X s0 db \<Longrightarrow> leads (spares X) s0 (ensureUsageBillingLog now cmd db)"
  "spares X s0 db \<Longrightarrow> leads (spares X) s0 (incrementUsageBillingSubscription s x db)"
  "spares X s0 db \<Longrightarrow> leads (spares X) s0 (incrementUsageBillingAPIKeyQuota k x db)"
  "spares X s0 db \<Longrightarrow> leads (spares X) s0 (incrementUsageBillingAPIKeyRateLimit tz now k x db)"
  "spares X s0 db \<Longrightarrow> leads (spares X) s0 (incrementUsageBillingAccountQuota tzdb now a x db)"
  "spares X s0 db \<Longrightarrow> leads (spares X) s0 (insertUserBalanceLedger r db)"
  "spares X s0 db \<Longrightarrow> leads (spares X) s0 (insertAccountShareSettlement t db)"
  "spares X s0 db \<Longrightarrow> leads (spares X) s0 (resolveAccountSharePolicy now cmd db)"
  unfolding billing_steps(1,2,6-10,13-15)
  by (intro leads_intros leads_pair_case leads_pair_case_fun leads_let; (simp add: spares_update)?)+

definition share_owner :: "UsageBillingCommand \<Rightarrow> int" where
  "share_owner cmd = option_or (nullablePtrInt64 (uc_ShareOwnerUserID cmd)) 0"

lemma credit_spares: "v \<in> X \<Longrightarrow> spares X s0 db \<Longrightarrow> leads (spares X) s0 (creditUsageBillingBalance v x db)"
  unfolding creditUsageBillingBalance_def change_balance_def
  by (intro leads_intros leads_let; simp add: spares_balance)

lemma share_spares:
  assumes "uc_ShareSnapshotCaptured cmd" "share_owner cmd \<noteq> uc_UserID cmd \<Longrightarrow> share_owner cmd \<in> X" "spares X s0 db"
  shows "leads (spares X) s0 (applyAccountShareSettlement now cmd log_id db)"
proof -
  have owner: "ss_owner a = share_owner cmd" if "accountShareSnapshotForSettlement cmd db = (Inr a, db')" for a db db'
    using assms(1) that by (auto simp: accountShareSnapshotForSettlement_def share_owner_def)
  have snap: "leads (spares X) s0 (accountShareSnapshotForSettlement cmd db)" using assms(1,3) by (simp add: accountShareSnapshotForSettlement_def leads_pair)
  have credit: "leads (spares X) s0 (creditUsageBillingBalance (ss_owner a) x db2)"
    if "accountShareSnapshotForSettlement cmd db = (Inr a, db1)" "\<not> (ss_owner a \<le> 0 \<or> ss_owner a = uc_UserID cmd)" "spares X s0 db2" for a x db1 db2
    using that owner [OF that(1)] assms(2) by (intro credit_spares) auto
  show ?thesis
    unfolding applyAccountShareSettlement_def using assms(3)
    by (intro leads_intros leads_pair_case leads_pair_case_fun leads_let snap steps_spare(6-8) credit; assumption?)
qed

lemma charge_balance_balance:
  assumes "charge_balance cmd n db = (Inr r, db')"
  shows "\<exists>b x. bd_balances db (uc_UserID cmd) = Some b \<and> uc_BalanceCost cmd = Fin x \<and>
    bd_balances db' = (bd_balances db)(uc_UserID cmd \<mapsto> round_decimal (b - x) 8)"
proof -
  obtain y d row q where d: "deductUsageBillingBalance (uc_UserID cmd) (uc_BalanceCost cmd) db = (Inr y, d)"
    and i: "insertUserBalanceLedger row d = (Inr q, db')"
    using assms by (auto simp: charge_balance_def split: option.splits elim!: and_then_InrE)
  have "bd_balances db' = bd_balances d"
    using leads_result [OF i steps_spare(6) [OF spares.frame_refl, of "{}"]] by (auto simp: spares_def)
  moreover have "\<exists>b x. bd_balances db (uc_UserID cmd) = Some b \<and> uc_BalanceCost cmd = Fin x \<and>
      bd_balances d = (bd_balances db)(uc_UserID cmd \<mapsto> round_decimal (b - x) 8)"
    using d by (auto simp: deductUsageBillingBalance_def change_balance_def statement_def billing_call_def finite_amount_def Let_def
        split: float64.splits option.splits prod.splits if_splits)
  ultimately show ?thesis by simp
qed

lemma effects_balance:
  assumes e: "applyUsageBillingEffects tzdb tz now cmd db = (Inr r, db')" and c: "uc_ShareSnapshotCaptured cmd"
    and v: "v \<noteq> share_owner cmd \<or> v = uc_UserID cmd"
  shows "if v = uc_UserID cmd \<and> 0 < uc_BalanceCost cmd
    then \<exists>b x. bd_balances db v = Some b \<and> uc_BalanceCost cmd = Fin x \<and> bd_balances db' v = Some (round_decimal (b - x) 8)
    else bd_balances db' v = bd_balances db v"
proof -
  let ?X = "{share_owner cmd} - {uc_UserID cmd}"
  note eq = e [unfolded applyUsageBillingEffects_def]
  have sp: "bd_balances b v = bd_balances a v" if "spares ?X a b" for a b using v that by (auto simp: spares_def)
  note refl = spares.frame_refl [where X = ?X]
  obtain n d1 d2 d3 bal where 1: "ensureUsageBillingLog now cmd db = (Inr n, d1)"
    and 2: "(case uc_SubscriptionID cmd of Some s \<Rightarrow> only_if (0 < uc_SubscriptionCost cmd) () (incrementUsageBillingSubscription s (uc_SubscriptionCost cmd)) d1
               | None \<Rightarrow> (Inr (), d1)) = (Inr (), d2)"
    and 3: "only_if (0 < uc_BalanceCost cmd) None (charge_balance cmd n) d2 = (Inr bal, d3)"
    and rest: "spares ?X d3 db'"
  proof -
    obtain n d1 d2 d3 d4 d5 d6 bal ex qu where s: "ensureUsageBillingLog now cmd db = (Inr n, d1)"
      "(case uc_SubscriptionID cmd of Some s \<Rightarrow> only_if (0 < uc_SubscriptionCost cmd) () (incrementUsageBillingSubscription s (uc_SubscriptionCost cmd)) d1
               | None \<Rightarrow> (Inr (), d1)) = (Inr (), d2)"
      "only_if (0 < uc_BalanceCost cmd) None (charge_balance cmd n) d2 = (Inr bal, d3)"
      "only_if (0 < uc_APIKeyQuotaCost cmd) False (incrementUsageBillingAPIKeyQuota (uc_APIKeyID cmd) (uc_APIKeyQuotaCost cmd)) d3 = (Inr ex, d4)"
      "only_if (0 < uc_APIKeyRateLimitCost cmd) () (incrementUsageBillingAPIKeyRateLimit tz now (uc_APIKeyID cmd) (uc_APIKeyRateLimitCost cmd)) d4 = (Inr (), d5)"
      "only_if (counts_against_account cmd) None (\<lambda>db. and_then (incrementUsageBillingAccountQuota tzdb now (uc_AccountID cmd) (uc_AccountQuotaCost cmd) db)
         (\<lambda>st db. (Inr (Some st), db))) d5 = (Inr qu, d6)"
      "applyAccountShareSettlement now cmd n d6 = (Inr (), db')"
      using eq by (auto elim!: and_then_InrE)
    have "spares ?X d3 d4" by (rule leads_result [OF s(4)]) (intro leads_intros steps_spare refl)
    moreover have "spares ?X d4 d5" by (rule leads_result [OF s(5)]) (intro leads_intros steps_spare refl)
    moreover have "spares ?X d5 d6" by (rule leads_result [OF s(6)]) (intro leads_intros steps_spare refl; assumption)
    moreover have "spares ?X d6 db'" by (rule leads_result [OF s(7)]) (intro share_spares c refl; simp)
    ultimately have "spares ?X d3 db'" using spares.frame_trans by blast
    then show ?thesis using s(1-3) that by blast
  qed
  have "spares ?X db d1" by (rule leads_result [OF 1]) (rule steps_spare(1) [OF refl])
  moreover have "spares ?X d1 d2" by (rule leads_result [OF 2]) (intro leads_intros steps_spare refl)
  ultimately have "bd_balances d2 v = bd_balances db v" using sp by metis
  moreover have "bd_balances db' v = bd_balances d3 v" by (rule sp [OF rest])
  moreover have "if v = uc_UserID cmd \<and> 0 < uc_BalanceCost cmd
      then \<exists>b x. bd_balances d2 v = Some b \<and> uc_BalanceCost cmd = Fin x \<and> bd_balances d3 v = Some (round_decimal (b - x) 8)
      else bd_balances d3 v = bd_balances d2 v"
    using 3 charge_balance_balance [of cmd n d2 bal d3] by (auto simp: only_if_def split: if_splits)
  ultimately show ?thesis by (auto split: if_splits)
qed

text \<open>What the owner of the account gains: at most the charge, and only with a settlement.\<close>

definition gains :: "int \<Rightarrow> rat \<Rightarrow> billing_db \<Rightarrow> billing_db \<Rightarrow> bool" where
  "gains v limit db db' \<longleftrightarrow> bd_balances db' v = bd_balances db v \<or>
     (\<exists>b y. bd_balances db v = Some b \<and> 0 < y \<and> y \<le> limit \<and> bd_balances db' v = Some (round_decimal (b + y) 8))"

lemma share_gains:
  assumes e: "applyAccountShareSettlement now cmd log_id db = (Inr (), db')" and c: "uc_ShareSnapshotCaptured cmd"
    and v: "v = share_owner cmd" "v \<noteq> uc_UserID cmd"
  shows "bd_balances db' v = bd_balances db v \<or> (\<exists>x. accountShareConsumerCharge cmd = Some x \<and> gains v x db db')"
proof (cases "bd_balances db' v = bd_balances db v")
  case False
  have sp: "bd_balances t v = bd_balances s v" if "spares {} s t" for s t using that by (simp add: spares_def)
  note step = steps_spare [where X = "{}", OF spares.frame_refl]
  obtain charge where charge: "accountShareConsumerCharge cmd = Some charge" using e False
    by (auto simp: applyAccountShareSettlement_def split: option.splits if_splits)
  define account where "account = \<lparr>ss_owner = share_owner cmd, ss_mode = uc_ShareModeSnapshot cmd, ss_status = uc_ShareStatusSnapshot cmd,
      ss_platform = TrimSpace (uc_SharePlatform cmd), ss_policy = nullablePtrInt64 (uc_SharePolicyID cmd)\<rparr>"
  have snap: "accountShareSnapshotForSettlement cmd db = (Inr account, db)"
    using c by (simp add: accountShareSnapshotForSettlement_def account_def share_owner_def Let_def)
  obtain policy version ratio d1 cost where 1: "resolveAccountSharePolicy now cmd db = (Inr (policy, version, ratio), d1)"
      "accountCostForSettlement cmd = Some cost"
    using e False charge snap
    by (auto simp: applyAccountShareSettlement_def Let_def split: option.splits if_splits elim!: and_then_InrE)
  define parts where "parts = split_charge charge ratio"
  obtain s d2 where 2: "insertAccountShareSettlement s d1 = (Inr True, d2)" "fst parts \<noteq> 0"
    and 3: "\<exists>b d3 r q. creditUsageBillingBalance v (fst parts) d2 = (Inr b, d3) \<and> insertUserBalanceLedger r d3 = (Inr q, db')"
    using e False charge snap 1 v sp [OF leads_result [OF _ step(8)], of now cmd db] sp [OF leads_result [OF _ step(7)], of _ d1]
    by (auto simp: applyAccountShareSettlement_def Let_def parts_def account_def split: option.splits if_splits prod.splits elim!: and_then_InrE) blast
  obtain b d3 r q where 4: "creditUsageBillingBalance v (fst parts) d2 = (Inr b, d3)" "insertUserBalanceLedger r d3 = (Inr q, db')" using 3 by blast
  have eq: "bd_balances d2 v = bd_balances db v" "bd_balances db' v = bd_balances d3 v"
    using sp [OF leads_result [OF 1(1) step(8)]] sp [OF leads_result [OF 2(1) step(7)]] sp [OF leads_result [OF 4(2) step(6)]] by metis+
  have "0 \<le> charge \<and> (\<exists>k. charge = of_int k / 10 ^ 10)"
    using charge decimal_units by (auto simp: accountShareConsumerCharge_def intro: exI [of _ 0] split: if_splits option.splits)
  then have "0 \<le> fst parts" "fst parts \<le> charge" using split_charge_adds [of charge ratio "fst parts" "snd parts"] by (auto simp: parts_def)
  moreover have "\<exists>b0. bd_balances d2 v = Some b0 \<and> bd_balances d3 v = Some (round_decimal (b0 + fst parts) 8)"
    using 4(1) by (auto simp: creditUsageBillingBalance_def change_balance_def statement_def billing_call_def Let_def split: option.splits prod.splits if_splits)
  ultimately have "0 < fst parts \<and> fst parts \<le> charge \<and> (\<exists>b0. bd_balances db v = Some b0 \<and> bd_balances db' v = Some (round_decimal (b0 + fst parts) 8))"
    using eq 2(2) by simp
  then have "gains v charge db db'" unfolding gains_def by blast
  then show ?thesis using charge by blast
qed simp

lemma charge_spares: "spares {uc_UserID cmd} s0 db \<Longrightarrow> leads (spares {uc_UserID cmd}) s0 (charge_balance cmd n db)"
  unfolding charge_balance_def deductUsageBillingBalance_def change_balance_def insertUserBalanceLedger_def
  by (intro leads_intros leads_pair_case leads_let; (simp add: spares_update spares_balance)?)

lemma effects_owner:
  assumes e: "applyUsageBillingEffects tzdb tz now cmd db = (Inr r, db')" and c: "uc_ShareSnapshotCaptured cmd"
    and v: "v = share_owner cmd" "v \<noteq> uc_UserID cmd"
  shows "bd_balances db' v = bd_balances db v \<or> (\<exists>x. accountShareConsumerCharge cmd = Some x \<and> gains v x db db')"
proof -
  let ?X = "{uc_UserID cmd}"
  note eq = e [unfolded applyUsageBillingEffects_def]
  note refl = spares.frame_refl [where X = ?X]
  obtain n d1 d2 d3 d4 d5 d6 bal ex qu where s: "ensureUsageBillingLog now cmd db = (Inr n, d1)"
      "(case uc_SubscriptionID cmd of Some s \<Rightarrow> only_if (0 < uc_SubscriptionCost cmd) () (incrementUsageBillingSubscription s (uc_SubscriptionCost cmd)) d1
               | None \<Rightarrow> (Inr (), d1)) = (Inr (), d2)"
      "only_if (0 < uc_BalanceCost cmd) None (charge_balance cmd n) d2 = (Inr bal, d3)"
      "only_if (0 < uc_APIKeyQuotaCost cmd) False (incrementUsageBillingAPIKeyQuota (uc_APIKeyID cmd) (uc_APIKeyQuotaCost cmd)) d3 = (Inr ex, d4)"
      "only_if (0 < uc_APIKeyRateLimitCost cmd) () (incrementUsageBillingAPIKeyRateLimit tz now (uc_APIKeyID cmd) (uc_APIKeyRateLimitCost cmd)) d4 = (Inr (), d5)"
      "only_if (counts_against_account cmd) None (\<lambda>db. and_then (incrementUsageBillingAccountQuota tzdb now (uc_AccountID cmd) (uc_AccountQuotaCost cmd) db)
         (\<lambda>st db. (Inr (Some st), db))) d5 = (Inr qu, d6)"
      "applyAccountShareSettlement now cmd n d6 = (Inr (), db')"
    using eq by (auto elim!: and_then_InrE)
  have "spares ?X db d1" by (rule leads_result [OF s(1)]) (rule steps_spare(1) [OF refl])
  moreover have "spares ?X d1 d2" by (rule leads_result [OF s(2)]) (intro leads_intros steps_spare refl)
  moreover have "spares ?X d2 d3" by (rule leads_result [OF s(3)]) (intro leads_intros charge_spares refl)
  moreover have "spares ?X d3 d4" by (rule leads_result [OF s(4)]) (intro leads_intros steps_spare refl)
  moreover have "spares ?X d4 d5" by (rule leads_result [OF s(5)]) (intro leads_intros steps_spare refl)
  moreover have "spares ?X d5 d6" by (rule leads_result [OF s(6)]) (intro leads_intros steps_spare refl; assumption)
  ultimately have "spares ?X db d6" using spares.frame_trans by blast
  then have "bd_balances d6 v = bd_balances db v" using v(2) by (simp add: spares_def)
  then show ?thesis using share_gains [OF s(7) c v] by (simp add: gains_def)
qed

lemma claim_balances: "claimUsageBillingKey now cmd db = (r, db') \<Longrightarrow> bd_balances db' = bd_balances db"
proof -
  assume k: "claimUsageBillingKey now cmd db = (r, db')"
  have "leads (spares {}) db (claimUsageBillingKey now cmd db)"
    unfolding claimUsageBillingKey_def Let_def
    by (intro leads_intros leads_pair_case spares.frame_refl; (simp add: spares_update)?)
  then show ?thesis using k by (auto simp: leads_def spares_def)
qed

lemma Apply_effects:
  assumes "Apply sha tzdb tz now cmd0 db = (Inr a, db')" "ur_Applied a"
  obtains db2 db3 where "applyUsageBillingEffects tzdb tz now (Normalize sha cmd0) db2 = (Inr a, db3)"
    and "bd_balances db2 = bd_balances db" and "bd_balances db' = bd_balances db3"
proof -
  define cmd where "cmd = Normalize sha cmd0"
  have c: "bd_balances (snd (billing_call x)) = bd_balances x" for x by (simp add: billing_call_def split: prod.splits)
  obtain q db1 where 1: "billing_call db = (q, db1)" by fastforce
  obtain k db2 where 2: "claimUsageBillingKey now cmd db1 = (k, db2)" by fastforce
  obtain e db3 where 3: "applyUsageBillingEffects tzdb tz now cmd db2 = (e, db3)" by fastforce
  obtain q' db4 where 4: "billing_call db3 = (q', db4)" by fastforce
  have n: "uc_RequestID cmd \<noteq> ''''" "\<not> q" using assms(1) 1 by (auto simp: Apply_def Let_def cmd_def [symmetric] split: if_splits)
  have "k = Inr True"
    using assms 1 2 n by (auto simp: Apply_def cmd_def [symmetric] not_applied_def split: sum.splits bool.splits)
  then have "e = Inr a \<and> db' = db4"
    using assms 1 2 3 4 n by (auto simp: Apply_def Let_def cmd_def [symmetric] split: sum.splits if_splits)
  then show ?thesis using 3 c [of db] c [of db3] 1 4 claim_balances [OF 2] by (intro that [of db2 db3]) (simp_all add: cmd_def)
qed

lemma Apply_balance:
  assumes a: "Apply sha tzdb tz now cmd db = (r, db')" and c: "uc_ShareSnapshotCaptured cmd"
    and v: "v \<noteq> share_owner cmd \<or> v = uc_UserID cmd"
  shows "bd_balances db' v = bd_balances db v \<or>
    v = uc_UserID cmd \<and> 0 < uc_BalanceCost cmd \<and> \<not> seen db (command_key sha cmd) \<and> seen db' (command_key sha cmd) \<and>
    (\<exists>b x. bd_balances db v = Some b \<and> uc_BalanceCost cmd = Fin x \<and> bd_balances db' v = Some (round_decimal (b - x) 8))"
proof (rule Apply_cases [OF a])
  fix x assume x: "r = Inr x" "ur_Applied x" "\<not> seen db (command_key sha cmd)"
    "bd_dedup db' = (bd_dedup db)(command_key sha cmd \<mapsto> (uc_RequestFingerprint (Normalize sha cmd), now))"
  then have s: "seen db' (command_key sha cmd)" by (simp add: seen_def)
  obtain db2 db3 where e: "applyUsageBillingEffects tzdb tz now (Normalize sha cmd) db2 = (Inr x, db3)"
      "bd_balances db2 = bd_balances db" "bd_balances db' = bd_balances db3"
    using Apply_effects [OF a [unfolded x(1)] x(2)] by metis
  have "v \<noteq> share_owner (Normalize sha cmd) \<or> v = uc_UserID (Normalize sha cmd)" using v by (simp add: share_owner_def)
  from effects_balance [OF e(1) _ this] show ?thesis using c e(2,3) x(3) s by (auto split: if_splits)
qed simp

lemma Apply_owner:
  assumes a: "Apply sha tzdb tz now cmd db = (r, db')" and c: "uc_ShareSnapshotCaptured cmd"
    and v: "v = share_owner cmd" "v \<noteq> uc_UserID cmd"
  shows "bd_balances db' v = bd_balances db v \<or>
    \<not> seen db (command_key sha cmd) \<and> seen db' (command_key sha cmd) \<and>
    (\<exists>x. accountShareConsumerCharge (Normalize sha cmd) = Some x \<and> gains v x db db')"
proof (rule Apply_cases [OF a])
  fix x assume x: "r = Inr x" "ur_Applied x" "\<not> seen db (command_key sha cmd)"
    "bd_dedup db' = (bd_dedup db)(command_key sha cmd \<mapsto> (uc_RequestFingerprint (Normalize sha cmd), now))"
  then have s: "seen db' (command_key sha cmd)" by (simp add: seen_def)
  obtain db2 db3 where e: "applyUsageBillingEffects tzdb tz now (Normalize sha cmd) db2 = (Inr x, db3)"
      "bd_balances db2 = bd_balances db" "bd_balances db' = bd_balances db3"
    using Apply_effects [OF a [unfolded x(1)] x(2)] by metis
  have "v = share_owner (Normalize sha cmd)" "v \<noteq> uc_UserID (Normalize sha cmd)" using v by (simp_all add: share_owner_def)
  from effects_owner [OF e(1) _ this] show ?thesis using c e(2,3) x(3) s by (auto simp: gains_def)
qed simp

lemma policy_balances: "bd_balances (snd (ResolveEnabledAccountSharePolicy now db)) = bd_balances db"
  "seen (snd (ResolveEnabledAccountSharePolicy now db)) = seen db"
  by (auto simp: ResolveEnabledAccountSharePolicy_def statement_def billing_call_def seen_def fun_eq_iff Let_def split: prod.splits if_splits)

definition with_share :: "Account \<Rightarrow> UsageBillingCommand \<Rightarrow> UsageBillingCommand" where
  "with_share a cmd = cmd\<lparr>uc_ShareSnapshotCaptured := True, uc_ShareModeSnapshot := NormalizeAccountShareMode (acc_ShareMode a),
     uc_ShareStatusSnapshot := NormalizeAccountShareStatus (acc_ShareStatus a), uc_SharePlatform := TrimSpace (acc_Platform a),
     uc_ShareOwnerUserID := positive_id (acc_OwnerUserID a), uc_SharePolicyID := positive_id (acc_SharePolicyID a)\<rparr>"

lemma attach_result:
  assumes "attachAccountShareBillingSnapshot now cmd p db = (r, db1)"
  shows "db1 = db \<or> db1 = snd (ResolveEnabledAccountSharePolicy now db)"
    and "r = Inr cmd' \<Longrightarrow> \<exists>i v x. cmd' = with_share (pp_Account p) cmd \<or>
      cmd' = (with_share (pp_Account p) cmd)\<lparr>uc_SharePolicyID := i, uc_SharePolicyVersion := v, uc_OwnerShareRatio := x\<rparr>"
  using assms unfolding attachAccountShareBillingSnapshot_def Let_def with_share_def [symmetric]
  by (auto simp: and_then_def split: if_splits prod.splits sum.splits option.splits)

lemma attach_cases:
  assumes "attachAccountShareBillingSnapshot now cmd p db = (r, db1)"
  shows "bd_balances db1 = bd_balances db" "seen db1 = seen db"
    "r = Inr cmd' \<Longrightarrow> uc_ShareSnapshotCaptured cmd' \<and> share_owner cmd' = option_or (positive_id (acc_OwnerUserID (pp_Account p))) 0 \<and>
      uc_UserID cmd' = uc_UserID cmd \<and> uc_BalanceCost cmd' = uc_BalanceCost cmd \<and> uc_RequestID cmd' = uc_RequestID cmd \<and>
      uc_APIKeyID cmd' = uc_APIKeyID cmd \<and> uc_SubscriptionCost cmd' = uc_SubscriptionCost cmd \<and> uc_UsageLog cmd' = uc_UsageLog cmd"
proof -
  show "bd_balances db1 = bd_balances db" "seen db1 = seen db" using attach_result(1) [OF assms] policy_balances by auto
  have o: "option_or (nullablePtrInt64 (positive_id x)) 0 = option_or (positive_id x) 0" for x
    by (auto simp: nullablePtrInt64_def nullablePositiveInt64_def positive_id_def option_or_def split: option.splits)
  assume "r = Inr cmd'"
  from attach_result(2) [OF assms this] show "uc_ShareSnapshotCaptured cmd' \<and> share_owner cmd' = option_or (positive_id (acc_OwnerUserID (pp_Account p))) 0 \<and>
      uc_UserID cmd' = uc_UserID cmd \<and> uc_BalanceCost cmd' = uc_BalanceCost cmd \<and> uc_RequestID cmd' = uc_RequestID cmd \<and>
      uc_APIKeyID cmd' = uc_APIKeyID cmd \<and> uc_SubscriptionCost cmd' = uc_SubscriptionCost cmd \<and> uc_UsageLog cmd' = uc_UsageLog cmd"
    by (elim exE disjE) (simp_all add: with_share_def share_owner_def o)
qed

lemma write_log_balances: "bd_balances (writeUsageLogBestEffort now l db) = bd_balances db" "seen (writeUsageLogBestEffort now l db) = seen db"
  by (auto simp: writeUsageLogBestEffort_def insert_log_def statement_def billing_call_def seen_def fun_eq_iff Let_def split: prod.splits sum.splits if_splits)

definition account_owner :: "usage_input \<Rightarrow> int" where
  "account_owner i = option_or (positive_id (acc_OwnerUserID (ri_Account i))) 0"

text \<open>
  Between two states everybody has the same balance, except that, once for the key of the request, its user pays the cost \<open>c\<close>,
  and the owner of the account, if he is another user, is credited with a part of it (rounded to 10 decimals).
\<close>

definition charged_once :: "usage_input \<Rightarrow> CostBreakdown \<Rightarrow> request_key \<Rightarrow> billing_db \<Rightarrow> billing_db \<Rightarrow> bool" where
  "charged_once i c key db db' \<longleftrightarrow>
     (\<forall>v. v \<noteq> account_owner i \<or> v = ri_UserID i \<longrightarrow> bd_balances db' v = bd_balances db v \<or>
        v = ri_UserID i \<and> \<not> subscription_charged (billing_params i c) \<and> \<not> seen db key \<and> seen db' key \<and>
        (\<exists>b x. bd_balances db v = Some b \<and> ActualCost c = Fin x \<and> 0 < x \<and> bd_balances db' v = Some (round_decimal (b - x) 8))) \<and>
     (\<forall>v. v = account_owner i \<and> v \<noteq> ri_UserID i \<longrightarrow> bd_balances db' v = bd_balances db v \<or>
        \<not> seen db key \<and> seen db' key \<and> (\<exists>x. decimalFromFloat (ActualCost c) = Some x \<and> gains v x db db'))"

lemma command_fields:
  "uc_UserID (buildUsageBillingCommand sha r l p) = pp_UserID p" "uc_APIKeyID (buildUsageBillingCommand sha r l p) = ak_ID (pp_APIKey p)"
  "uc_BalanceCost (buildUsageBillingCommand sha r l p) = (if \<not> subscription_charged p \<and> 0 < ActualCost (pp_Cost p) then ActualCost (pp_Cost p) else 0)"
  "uc_RequestID (buildUsageBillingCommand sha r l p) = TrimSpace r"
  "uc_SubscriptionCost (buildUsageBillingCommand sha r l p) = (if subscription_charged p then ActualCost (pp_Cost p) else 0)"
  "uc_UsageLog (buildUsageBillingCommand sha r l p) = Some l"
  by (simp_all add: buildUsageBillingCommand_def Let_def)

lemma consumer_charge:
  assumes "accountShareConsumerCharge cmd = Some x" "0 < x" "uc_UsageLog cmd = Some l" "ul_ActualCost l = ActualCost c"
    "uc_BalanceCost cmd = (if \<not> sub \<and> 0 < ActualCost c then ActualCost c else 0)" "uc_SubscriptionCost cmd = (if sub then ActualCost c else 0)"
  shows "decimalFromFloat (ActualCost c) = Some x"
  using assms by (auto simp: accountShareConsumerCharge_def Fin_zero split: if_splits)

lemma applyUsageBilling_charge:
  assumes "applyUsageBilling cfg clk rid l (billing_params i c) db = (r, db')" "TrimSpace rid \<noteq> ''''" and l: "ul_ActualCost l = ActualCost c"
  shows "charged_once i c (TrimSpace rid, ak_ID (ri_APIKey i)) db db'"
proof -
  define cmd where "cmd = buildUsageBillingCommand (gc_sha cfg) rid l (billing_params i c)"
  note f = command_fields [of "gc_sha cfg" rid l "billing_params i c", folded cmd_def]
  obtain q db1 where 1: "attachAccountShareBillingSnapshot (clk 0) cmd (billing_params i c) db = (q, db1)" by fastforce
  note a = attach_cases [OF 1]
  show ?thesis
  proof (cases q)
    case (Inl e)
    then have "db' = db1" using assms(1,2) 1 f(4) by (simp add: applyUsageBilling_def cmd_def [symmetric])
    then show ?thesis using a(1) by (simp add: charged_once_def)
  next
    case (Inr cmd')
    obtain y where y: "Apply (gc_sha cfg) (gc_tzdb cfg) (gc_zone cfg) (clk 1) cmd' db1 = (y, db')"
      using assms(1,2) 1 f(4) Inr by (cases "Apply (gc_sha cfg) (gc_tzdb cfg) (gc_zone cfg) (clk 1) cmd' db1"; cases "fst (Apply (gc_sha cfg) (gc_tzdb cfg) (gc_zone cfg) (clk 1) cmd' db1)")
        (auto simp: applyUsageBilling_def cmd_def [symmetric])
    note cf = a(3) [OF Inr]
    let ?key = "(TrimSpace rid, ak_ID (ri_APIKey i))"
    have k: "command_key (gc_sha cfg) cmd' = ?key" using cf f by (simp add: command_key_def billing_params_def)
    have payer: "bd_balances db' v = bd_balances db v \<or>
        v = ri_UserID i \<and> \<not> subscription_charged (billing_params i c) \<and> \<not> seen db ?key \<and> seen db' ?key \<and>
        (\<exists>b x. bd_balances db v = Some b \<and> ActualCost c = Fin x \<and> 0 < x \<and> bd_balances db' v = Some (round_decimal (b - x) 8))"
      if "v \<noteq> account_owner i \<or> v = ri_UserID i" for v
      using Apply_balance [OF y, unfolded k, of v] cf f a(1,2) that
      by (auto simp: account_owner_def billing_params_def Fin_zero split: if_splits)
    have owner: "bd_balances db' v = bd_balances db v \<or>
        \<not> seen db ?key \<and> seen db' ?key \<and> (\<exists>x. decimalFromFloat (ActualCost c) = Some x \<and> gains v x db db')"
      if v: "v = account_owner i" "v \<noteq> ri_UserID i" for v
    proof (cases "bd_balances db' v = bd_balances db v")
      case False
      have "v = share_owner cmd'" "v \<noteq> uc_UserID cmd'" using v cf f by (auto simp: account_owner_def billing_params_def)
      from Apply_owner [OF y _ this, unfolded k] False obtain x where x: "\<not> seen db ?key" "seen db' ?key"
          "accountShareConsumerCharge (Normalize (gc_sha cfg) cmd') = Some x" "gains v x db1 db'"
        using cf a by auto
      then have "gains v x db db'" "0 < x" using a(1) False by (auto simp: gains_def)
      then show ?thesis using x(1,2) consumer_charge [OF x(3), of l c "subscription_charged (billing_params i c)"] cf f l
        by (auto simp: billing_params_def)
    qed simp
    show ?thesis unfolding charged_once_def using payer owner by blast
  qed
qed

lemma finish_charge:
  assumes "ul_RequestID l = rid" "TrimSpace rid \<noteq> ''''" "ul_ActualCost l = ActualCost c"
  shows "charged_once i c (TrimSpace rid, ak_ID (ri_APIKey i)) db (gw_db (snd (finish_record cfg clk i models t c l st db)))"
proof -
  obtain l' st' where l: "(case ak_GroupID (ri_APIKey i) of None \<Rightarrow> (l, st)
      | Some g \<Rightarrow> applyAccountStatsCost (\<lambda>n. clk (n + 3)) (acc_ID (ri_Account i)) g (fst models) (snd models) t (TotalCost c) l st) = (l', st')"
    by (rule prod.exhaust)
  have rid: "ul_RequestID l' = rid" "ul_ActualCost l' = ActualCost c"
    using l assms(1,3) by (auto simp: applyAccountStatsCost_def split: option.splits prod.splits)
  obtain r db' where b: "applyUsageBilling cfg (\<lambda>n. clk (n + 5)) rid l' (billing_params i c) db = (r, db')" by fastforce
  have "charged_once i c (TrimSpace rid, ak_ID (ri_APIKey i)) db db'" by (rule applyUsageBilling_charge [OF b assms(2) rid(2)])
  then show ?thesis using l b rid
    by (cases st') (auto simp: finish_record_def Let_def charged_once_def gains_def write_log_balances split: sum.splits)
qed

lemma resolve_id: "TrimSpace (resolveUsageBillingRequestID i upstream) \<noteq> ''''"
proof -
  have g: "graphic [CHR '':'']" by (simp add: graphic_def)
  have "TrimSpace (''client:'' @ s) \<noteq> ''''" "TrimSpace (''local:'' @ s) \<noteq> ''''" "TrimSpace (''generated:'' @ s) \<noteq> ''''" for s
    by (rule TrimSpace_nonempty [OF _ g], simp)+
  then show ?thesis by (simp add: resolveUsageBillingRequestID_def)
qed

text \<open>C35. Whatever storage does, recording a request takes money only from its user, and from him exactly the cost that was
  computed for the request, rounded with the balance to 8 decimals, at most once for the identifier of the request
  and the key, and nothing if a subscription pays. The owner of the account, if he is another user, loses nothing: his balance
  stays, or grows, with the first recording of the request only, by a positive amount that is at most that cost rounded to 10
  decimals (and the sum is rounded to 8). Nobody else's balance changes. This holds for both gateways.
\<close>

theorem request_charged:
  "(let (u, ttl) = billed_usage cfg i (fr_Usage r); r' = r\<lparr>fr_Usage := u\<rparr>;
        (c, st) = calculateRecordUsageCost cfg clk long r' (ri_APIKey i) (billing_model i r') (rate_of cfg i) (gw_channels gw, gw_prices gw)
    in charged_once i c (TrimSpace (resolveUsageBillingRequestID i (fr_RequestID r)), ak_ID (ri_APIKey i))
         (gw_db gw) (gw_db (snd (recordUsageCore cfg clk long i r gw)))) \<and>
   (let (c, st) = calculateOpenAIRecordUsageCost cfg clk ro (ri_APIKey i) (openai_billing_model i ro) (rate_of cfg i) (openai_tokens (of_Usage ro))
          (TrimSpace (option_or (of_ServiceTier ro) '''')) (gw_channels gw, gw_prices gw)
    in charged_once i (option_or c zero_breakdown) (TrimSpace (resolveUsageBillingRequestID i (of_RequestID ro)), ak_ID (ri_APIKey i))
         (gw_db gw) (gw_db (snd (RecordUsage_openai cfg clk i ro gw))))"
proof
  have log: "ul_RequestID (buildRecordUsageLog now i q m ttl c) = resolveUsageBillingRequestID i (fr_RequestID q)"
      "ul_ActualCost (buildRecordUsageLog now i q m ttl c) = ActualCost c" for now q m ttl c
    by (simp_all add: buildRecordUsageLog_def log_costs_def Let_def)
  show "let (u, ttl) = billed_usage cfg i (fr_Usage r); r' = r\<lparr>fr_Usage := u\<rparr>;
        (c, st) = calculateRecordUsageCost cfg clk long r' (ri_APIKey i) (billing_model i r') (rate_of cfg i) (gw_channels gw, gw_prices gw)
    in charged_once i c (TrimSpace (resolveUsageBillingRequestID i (fr_RequestID r)), ak_ID (ri_APIKey i))
         (gw_db gw) (gw_db (snd (recordUsageCore cfg clk long i r gw)))"
    by (auto simp: recordUsageCore_def Let_def log intro!: finish_charge resolve_id split: prod.splits)
  have log: "ul_RequestID (openai_usage_log now i q m t c) = resolveUsageBillingRequestID i (of_RequestID q)"
      "ul_ActualCost (openai_usage_log now i q m t c) = ActualCost c" for now q m t c
    by (simp_all add: openai_usage_log_def log_costs_def)
  have same: "charged_once i c k (gw_db gw) (gw_db gw)" for c k by (simp add: charged_once_def)
  show "let (c, st) = calculateOpenAIRecordUsageCost cfg clk ro (ri_APIKey i) (openai_billing_model i ro) (rate_of cfg i) (openai_tokens (of_Usage ro))
          (TrimSpace (option_or (of_ServiceTier ro) '''')) (gw_channels gw, gw_prices gw)
    in charged_once i (option_or c zero_breakdown) (TrimSpace (resolveUsageBillingRequestID i (of_RequestID ro)), ak_ID (ri_APIKey i))
         (gw_db gw) (gw_db (snd (RecordUsage_openai cfg clk i ro gw)))"
    by (auto simp: RecordUsage_openai_def Let_def log intro!: finish_charge resolve_id same split: prod.splits)
qed

section \<open>Sizes of images\<close>

text \<open>C36. Where a channel prices images, the gateway charges one price for every size and number of images, although the
  channel has prices for sizes; the OpenAI gateway charges the price of the size.
\<close>

theorem image_size_ignored:
  assumes "resolveChannelPricing cfg clk model k st = (Some p, st1)" "openai_channel_mode p" "size_tier \<noteq> ''''" "GetRequestTierPrice p size_tier \<noteq> 0"
  shows "calculateImageCost cfg clk (r\<lparr>fr_ImageSize := size_tier, fr_ImageCount := n\<rparr>) k model m st = calculateImageCost cfg clk r k model m st \<and>
    TotalCost (fst (calculateOpenAIImageCost cfg clk (ro\<lparr>of_ImageSize := size_tier\<rparr>) k model m st)) = GetRequestTierPrice p size_tier * of_count 1"
proof -
  have g: "gc_resolver cfg" using assms(1) by (auto simp: resolveChannelPricing_def split: option.splits if_splits)
  have m: "rp_Mode p = BillingModePerRequest \<or> rp_Mode p = BillingModeImage" using assms(2) by (simp add: openai_channel_mode_def)
  show ?thesis using assms g m
    by (simp add: calculateImageCost_def calculateOpenAIImageCost_def CalculateCostUnified_def price_source_of_def cost_input_def
        calculatePerRequestCost_def request_unit_price_def Let_def zero_breakdown_def)
qed

definition image_channel :: Channel where
  "image_channel = demo_channel\<lparr>ch_ModelPricing := [demo_pricing\<lparr>cp_Models := [''image''], cp_BillingMode := BillingModeImage,
     cp_PerRequestPrice := Some (Fin (1 / 10)),
     cp_Intervals := [\<lparr>iv_ID = 1, iv_MinTokens = 0, iv_MaxTokens = None, iv_TierLabel = ''4K'', iv_InputPrice = None, iv_OutputPrice = None,
       iv_CacheWritePrice = None, iv_CacheReadPrice = None, iv_PerRequestPrice = Some (Fin (1 / 2))\<rparr>]\<rparr>]\<rparr>"

definition image_service :: channel_service where
  "image_service = \<lparr>cs_cache = Some (newEmptyChannelCache\<lparr>cc_channelByGroupID := [11 \<mapsto> image_channel], cc_groupPlatform := [11 \<mapsto> ''openai''],
       cc_pricingByGroupModel := [(11, ''openai'', ''image'') \<mapsto> hd (ch_ModelPricing image_channel)]\<rparr>),
     cs_channels = [image_channel], cs_platforms = demo_gp, cs_faults = []\<rparr>"

definition image_key :: APIKey where
  "image_key = \<lparr>ak_ID = 5, ak_GroupID = Some 11, ak_Group = Some \<lparr>kg_ID = 11, kg_RateMultiplier = 1, kg_SubscriptionType = ''standard'',
     kg_ImagePrice1K = None, kg_ImagePrice2K = None, kg_ImagePrice4K = None\<rparr>, ak_Quota = 0, ak_RateLimit5h = 0, ak_RateLimit1d = 0,
     ak_RateLimit7d = 0\<rparr>"

definition plain_config :: gateway_config where
  "plain_config = \<lparr>gc_RateMultiplier = 1, gc_simple = False, gc_resolver = True, gc_ttl_injection = False, gc_user_rate = (\<lambda>u g r. r),
     gc_older_path = (\<lambda>p db. db), gc_sha = (\<lambda>_. ''h''), gc_tzdb = sample_zones, gc_zone = (\<lambda>_. 0)\<rparr>"

definition image_result :: ForwardResult where
  "image_result = \<lparr>fr_RequestID = ''r1'', fr_Usage = \<lparr>cu_InputTokens = 0, cu_OutputTokens = 0, cu_CacheCreationInputTokens = 0, cu_CacheReadInputTokens = 0,
       cu_CacheCreation5mTokens = 0, cu_CacheCreation1hTokens = 0, cu_ImageOutputTokens = 0\<rparr>, fr_Model = ''image'', fr_UpstreamModel = '''',
     fr_Stream = False, fr_DurationMs = 0, fr_FirstTokenMs = None, fr_ReasoningEffort = None, fr_ImageCount = 1, fr_ImageSize = ''1K''\<rparr>"

definition openai_image_result :: OpenAIForwardResult where
  "openai_image_result = \<lparr>of_RequestID = ''r1'', of_Usage = \<lparr>ou_InputTokens = 0, ou_OutputTokens = 0, ou_CacheCreationInputTokens = 0,
       ou_CacheReadInputTokens = 0, ou_ImageOutputTokens = 0\<rparr>, of_Model = ''image'', of_BillingModel = '''', of_UpstreamModel = '''',
     of_ServiceTier = None, of_ReasoningEffort = None, of_Stream = False, of_OpenAIWSMode = False, of_DurationMs = 0, of_FirstTokenMs = None,
     of_ImageCount = 1, of_ImageSize = ''1K''\<rparr>"

text \<open>Three large pictures: ten cents from the gateway, fifty for one of them from the other.\<close>

theorem image_size_ignored_witness:
  "calculateImageCost plain_config (\<lambda>_. 0) (image_result\<lparr>fr_ImageSize := ''4K'', fr_ImageCount := 3\<rparr>) image_key ''image'' 1 (image_service, NewBillingService None) =
     calculateImageCost plain_config (\<lambda>_. 0) image_result image_key ''image'' 1 (image_service, NewBillingService None) \<and>
   TotalCost (fst (calculateImageCost plain_config (\<lambda>_. 0) image_result image_key ''image'' 1 (image_service, NewBillingService None))) = Fin (1 / 10) \<and>
   TotalCost (fst (calculateOpenAIImageCost plain_config (\<lambda>_. 0) (openai_image_result\<lparr>of_ImageSize := ''4K''\<rparr>) image_key ''image'' 1
     (image_service, NewBillingService None))) = Fin (1 / 2)"
proof -
  let ?p = "\<lparr>rp_Mode = BillingModeImage, rp_BasePricing = None, rp_Intervals = [], rp_RequestTiers = cp_Intervals (hd (ch_ModelPricing image_channel)),
     rp_DefaultPerRequestPrice = Fin (1 / 10), rp_Source = ''channel'', rp_SupportsCacheBreakdown = False\<rparr>"
  have l: "ToLower ''image'' = ''image''" "IsActive image_channel" by (code_simp, simp add: image_channel_def Channel.IsActive_def demo_channel_def)
  have "GetChannelModelPricing 0 11 ''image'' image_service = (Some (hd (ch_ModelPricing image_channel)), image_service)"
    using l by (simp add: GetChannelModelPricing_def lookupGroupChannel_def loadCache_def image_service_def newEmptyChannelCache_def channelCacheTTL_def
        lookup_group_def lookupPricingAcrossPlatforms_def matchingPlatforms_def option_or_def)
  then have r: "resolveChannelPricing plain_config (\<lambda>_. 0) ''image'' image_key (image_service, NewBillingService None) =
      (Some ?p, image_service, NewBillingService None)"
    by (simp add: resolveChannelPricing_def image_key_def plain_config_def Resolve_def Let_def default_token_mode_def applyRequestTierOverrides_def
        filterValidIntervals_def image_channel_def demo_pricing_def interval_has_price_def)
  have t: "GetRequestTierPrice ?p ''4K'' = Fin (1 / 2)" "GetRequestTierPriceByContext ?p 0 = 0"
    by (simp_all add: GetRequestTierPrice_def GetRequestTierPriceByContext_def FindMatchingInterval_def interval_matches_def image_channel_def option_or_def)
  have "TotalCost (fst (calculateImageCost plain_config (\<lambda>_. 0) image_result image_key ''image'' 1 (image_service, NewBillingService None))) = Fin (1 / 10)"
    using r t(2) by (simp add: calculateImageCost_def CalculateCostUnified_def price_source_of_def plain_config_def cost_input_def calculatePerRequestCost_def
        request_unit_price_def Let_def zero_breakdown_def image_result_def of_count_def option_or_def)
  then show ?thesis
    using image_size_ignored [OF r, where size_tier = "''4K''" and r = image_result and n = 3 and m = 1 and ro = openai_image_result] t(1)
    by (simp add: openai_channel_mode_def of_count_def Fin_zero)
qed

end
