(* ===== verification/BinaryHeap.thy ===== *)
theory BinaryHeap
  imports GoPrelude
begin

text \<open>
  The operations of Go's \<open>container/heap\<close> on lists, for the heap of the best candidates that the scheduler of
  accounts keeps: \<open>lt\<close> compares two elements. Where the order comes from a key, an operation restores
  the heap and keeps its elements.
\<close>

section \<open>Operations\<close>

definition heap_parent :: "nat \<Rightarrow> nat" where
  "heap_parent j = (j - 1) div 2"

definition heap_swap :: "nat \<Rightarrow> nat \<Rightarrow> 'a list \<Rightarrow> 'a list" where
  "heap_swap i j h = h[i := h ! j, j := h ! i]"

function heap_up :: "('a \<Rightarrow> 'a \<Rightarrow> bool) \<Rightarrow> nat \<Rightarrow> 'a list \<Rightarrow> 'a list" where
  "heap_up lt j h =
     (let i = heap_parent j
      in if i = j \<or> \<not> lt (h ! j) (h ! i) then h else heap_up lt i (heap_swap i j h))"
  by pat_completeness auto
termination
  by (relation "measure (\<lambda>(lt, j, h). j)") (auto simp: heap_parent_def)

text \<open>The smaller child of \<open>i\<close>, the left one of equals.\<close>

definition heap_child :: "('a \<Rightarrow> 'a \<Rightarrow> bool) \<Rightarrow> nat \<Rightarrow> 'a list \<Rightarrow> nat" where
  "heap_child lt i h =
     (let j = 2 * i + 1 in if j + 1 < length h \<and> lt (h ! (j + 1)) (h ! j) then j + 1 else j)"

text \<open>The list and the place where the element comes to rest.\<close>

function heap_down :: "('a \<Rightarrow> 'a \<Rightarrow> bool) \<Rightarrow> nat \<Rightarrow> 'a list \<Rightarrow> 'a list \<times> nat" where
  "heap_down lt i h =
     (if length h \<le> 2 * i + 1 then (h, i)
      else let j = heap_child lt i h
        in if \<not> lt (h ! j) (h ! i) then (h, i) else heap_down lt j (heap_swap i j h))"
  by pat_completeness auto
termination
  by (relation "measure (\<lambda>(lt, i, h). length h - i)") (auto simp: heap_child_def heap_swap_def Let_def)

declare heap_up.simps [simp del] heap_down.simps [simp del]

definition heap_Push :: "('a \<Rightarrow> 'a \<Rightarrow> bool) \<Rightarrow> 'a \<Rightarrow> 'a list \<Rightarrow> 'a list" where
  "heap_Push lt x h = heap_up lt (length h) (h @ [x])"

definition heap_Fix :: "('a \<Rightarrow> 'a \<Rightarrow> bool) \<Rightarrow> nat \<Rightarrow> 'a list \<Rightarrow> 'a list" where
  "heap_Fix lt i h = (let (h', k) = heap_down lt i h in if i < k then h' else heap_up lt i h')"

section \<open>Elements\<close>

lemma heap_swap_props [simp]: "length (heap_swap i j h) = length h"
  "i < length h \<Longrightarrow> j < length h \<Longrightarrow> mset (heap_swap i j h) = mset h"
  by (simp_all add: heap_swap_def mset_swap)

lemma heap_swap_nth: "i < length h \<Longrightarrow> j < length h \<Longrightarrow> c < length h \<Longrightarrow>
    heap_swap i j h ! c = (if c = j then h ! i else if c = i then h ! j else h ! c)"
  by (simp add: heap_swap_def nth_list_update)

lemma heap_parent_less: "0 < j \<Longrightarrow> heap_parent j < j"
  by (simp add: heap_parent_def)

lemma heap_parent_eq: "heap_parent j = j \<longleftrightarrow> j = 0"
  by (auto simp: heap_parent_def)

lemma heap_child_bound: "2 * i + 1 < length h \<Longrightarrow> heap_child lt i h < length h \<and> i < heap_child lt i h \<and> heap_parent (heap_child lt i h) = i"
  by (auto simp: heap_child_def heap_parent_def Let_def)

lemma list_all_heap_swap [simp]: "i < length h \<Longrightarrow> j < length h \<Longrightarrow> list_all P (heap_swap i j h) = list_all P h"
  using mset_eq_setD [OF heap_swap_props(2), of i h j] by (simp add: list_all_iff)

lemma heap_up_mset [simp]: "j < length h \<Longrightarrow> mset (heap_up lt j h) = mset h"
proof (induction lt j h rule: heap_up.induct)
  case (1 lt j h)
  then show ?case using heap_parent_less [of j]
    by (subst heap_up.simps) (cases "j = 0"; auto simp: Let_def heap_parent_def)
qed

lemma heap_down_mset [simp]: "i < length h \<Longrightarrow> mset (fst (heap_down lt i h)) = mset h \<and> snd (heap_down lt i h) < length h"
proof (induction lt i h rule: heap_down.induct)
  case (1 lt i h)
  then show ?case using heap_child_bound [of i h lt] by (subst (1 2) heap_down.simps) (auto simp: Let_def)
qed

lemma heap_Push_mset [simp]: "mset (heap_Push lt x h) = add_mset x (mset h)"
  by (simp add: heap_Push_def)

lemma length_heap_Push [simp]: "length (heap_Push lt x h) = Suc (length h)"
  by (metis heap_Push_mset size_add_mset size_mset)

lemma heap_Fix_mset [simp]: "i < length h \<Longrightarrow> mset (heap_Fix lt i h) = mset h"
  using heap_down_mset [of i h lt] mset_eq_length [of "fst (heap_down lt i h)" h]
  by (cases "heap_down lt i h") (simp add: heap_Fix_def)

section \<open>Order\<close>

text \<open>
  \<open>lt x y\<close> if the key of \<open>x\<close> is greater, where both are \<open>ok\<close>, so that the root has the greatest key. The children of \<open>i\<close> may be
  out of order with \<open>i\<close> (\<open>heap_below\<close>), or \<open>j\<close> with its parent (\<open>heap_above\<close>); the order around is kept.
\<close>

locale keyed_heap =
  fixes lt :: "'a \<Rightarrow> 'a \<Rightarrow> bool" and key :: "'a \<Rightarrow> 'k :: linorder" and ok :: "'a \<Rightarrow> bool"
  assumes less_iff: "ok x \<Longrightarrow> ok y \<Longrightarrow> lt x y \<longleftrightarrow> key y < key x"
begin

definition is_heap :: "'a list \<Rightarrow> bool" where
  "is_heap h \<longleftrightarrow> (\<forall>c < length h. 0 < c \<longrightarrow> key (h ! c) \<le> key (h ! heap_parent c))"

definition heap_above :: "nat \<Rightarrow> 'a list \<Rightarrow> bool" where
  "heap_above j h \<longleftrightarrow>
     (\<forall>c < length h. 0 < c \<longrightarrow> (c \<noteq> j \<longrightarrow> key (h ! c) \<le> key (h ! heap_parent c)) \<and>
        (heap_parent c = j \<and> 0 < j \<longrightarrow> key (h ! c) \<le> key (h ! heap_parent j)))"

definition heap_below :: "nat \<Rightarrow> 'a list \<Rightarrow> bool" where
  "heap_below i h \<longleftrightarrow>
     (\<forall>c < length h. 0 < c \<longrightarrow> (heap_parent c \<noteq> i \<longrightarrow> key (h ! c) \<le> key (h ! heap_parent c)) \<and>
        (heap_parent c = i \<and> 0 < i \<longrightarrow> key (h ! c) \<le> key (h ! heap_parent i)))"

lemma is_heap_root:
  assumes "is_heap h" "c < length h"
  shows "key (h ! c) \<le> key (h ! 0)"
  using assms(2)
proof (induction c rule: less_induct)
  case (less c)
  show ?case
  proof (cases "c = 0")
    case False
    then have "key (h ! c) \<le> key (h ! heap_parent c)" using assms(1) less.prems by (simp add: is_heap_def)
    also have "\<dots> \<le> key (h ! 0)" using less.IH [of "heap_parent c"] heap_parent_less [of c] False less.prems by simp
    finally show ?thesis .
  qed simp
qed

lemma is_heap_hd: "is_heap (b # bs) \<Longrightarrow> x \<in> set (b # bs) \<Longrightarrow> key x \<le> key b"
  unfolding in_set_conv_nth using is_heap_root [of "b # bs"] by auto

lemma heap_above_swap:
  assumes "heap_above j h" "j < length h" "0 < j" "key (h ! heap_parent j) < key (h ! j)"
  shows "heap_above (heap_parent j) (heap_swap (heap_parent j) j h)"
proof -
  let ?i = "heap_parent j"
  have i: "?i < j" "?i < length h" using heap_parent_less [OF assms(3)] assms(2) by simp_all
  note nth = heap_swap_nth [OF i(2) assms(2)]
  have edge: "c < length h \<Longrightarrow> 0 < c \<Longrightarrow> c \<noteq> j \<Longrightarrow> key (h ! c) \<le> key (h ! heap_parent c)" for c using assms(1) by (simp add: heap_above_def)
  have over: "c < length h \<Longrightarrow> 0 < c \<Longrightarrow> heap_parent c = j \<Longrightarrow> key (h ! c) \<le> key (h ! ?i)" for c using assms(1,3) by (simp add: heap_above_def)
  have p: "0 < c \<Longrightarrow> heap_parent c < c" for c by (rule heap_parent_less)
  show ?thesis
    unfolding heap_above_def
  proof (intro allI impI conjI)
    fix c assume c: "c < length (heap_swap ?i j h)" "0 < c" "c \<noteq> ?i"
    show "key (heap_swap ?i j h ! c) \<le> key (heap_swap ?i j h ! heap_parent c)"
    proof (cases "c = j")
      case False
      then show ?thesis
        using c edge [of c] over [of c] p [of c] assms(4) i by (auto simp: nth less_imp_le intro: order_trans less_imp_le)
    qed (use i assms(2,4) in \<open>simp add: nth\<close>)
  next
    fix c assume c: "c < length (heap_swap ?i j h)" "0 < c" "heap_parent c = ?i \<and> 0 < ?i"
    then have g: "heap_parent ?i < ?i" "key (h ! ?i) \<le> key (h ! heap_parent ?i)" using p edge [of ?i] i by simp_all
    show "key (heap_swap ?i j h ! c) \<le> key (heap_swap ?i j h ! heap_parent ?i)"
      using c g edge [of c] p [of c] i by (auto simp: nth intro: order_trans)
  qed
qed

lemma heap_above_up: "heap_above j h \<Longrightarrow> j < length h \<Longrightarrow> list_all ok h \<Longrightarrow> is_heap (heap_up lt j h)"
proof (induction j arbitrary: h rule: less_induct)
  case (less j)
  have lt: "0 < j \<Longrightarrow> lt (h ! j) (h ! heap_parent j) \<longleftrightarrow> key (h ! heap_parent j) < key (h ! j)"
    using less.prems heap_parent_less [of j] by (intro less_iff) (simp_all add: list_all_length)
  show ?case
  proof (cases "0 < j \<and> key (h ! heap_parent j) < key (h ! j)")
    case True
    then show ?thesis
      using less.prems less.IH [of "heap_parent j" "heap_swap (heap_parent j) j h"] heap_above_swap [of j h] heap_parent_less [of j]
      by (subst heap_up.simps) (simp add: Let_def lt)
  next
    case False
    then have "is_heap h" using less.prems by (auto simp: is_heap_def heap_above_def)
    then show ?thesis using False by (subst heap_up.simps) (auto simp: Let_def lt heap_parent_eq)
  qed
qed

lemma heap_below_swap:
  assumes "heap_below i h" "2 * i + 1 < length h" "list_all ok h" "key (h ! i) < key (h ! heap_child lt i h)"
  shows "heap_below (heap_child lt i h) (heap_swap i (heap_child lt i h) h)"
proof -
  let ?j = "heap_child lt i h"
  have j: "i < ?j" "?j < length h" "heap_parent ?j = i" "i < length h" using heap_child_bound [OF assms(2), of lt] by simp_all
  note nth = heap_swap_nth [OF j(4,2)]
  have edge: "c < length h \<Longrightarrow> 0 < c \<Longrightarrow> heap_parent c \<noteq> i \<Longrightarrow> key (h ! c) \<le> key (h ! heap_parent c)" for c using assms(1) by (simp add: heap_below_def)
  have over: "c < length h \<Longrightarrow> 0 < c \<Longrightarrow> heap_parent c = i \<Longrightarrow> 0 < i \<Longrightarrow> key (h ! c) \<le> key (h ! heap_parent i)" for c
    using assms(1) by (simp add: heap_below_def)
  have top: "key (h ! c) \<le> key (h ! ?j)" if "c < length h" "0 < c" "heap_parent c = i" for c
  proof -
    have "c = 2 * i + 1 \<or> c = 2 * i + 2" using that(2,3) by (auto simp: heap_parent_def)
    then show ?thesis using that(1) assms(3) by (auto simp: heap_child_def Let_def less_iff list_all_length)
  qed
  have p: "0 < c \<Longrightarrow> heap_parent c < c" for c by (rule heap_parent_less)
  show ?thesis
    unfolding heap_below_def
  proof (intro allI impI conjI)
    fix c assume c: "c < length (heap_swap i ?j h)" "0 < c" "heap_parent c \<noteq> ?j"
    show "key (heap_swap i ?j h ! c) \<le> key (heap_swap i ?j h ! heap_parent c)"
      using c edge [of c] over [of ?j] top [of c] p [of c] assms(4) j by (cases "c = i"; cases "heap_parent c = i") (auto simp: nth)
  next
    fix c assume c: "c < length (heap_swap i ?j h)" "0 < c" "heap_parent c = ?j \<and> 0 < ?j"
    then show "key (heap_swap i ?j h ! c) \<le> key (heap_swap i ?j h ! heap_parent ?j)"
      using edge [of c] p [of c] j by (auto simp: nth)
  qed
qed

lemma heap_below_down: "heap_below i h \<Longrightarrow> i < length h \<Longrightarrow> list_all ok h \<Longrightarrow> is_heap (fst (heap_down lt i h))"
proof (induction "length h - i" arbitrary: i h rule: less_induct)
  case less
  have lt: "2 * i + 1 < length h \<Longrightarrow> lt (h ! heap_child lt i h) (h ! i) \<longleftrightarrow> key (h ! i) < key (h ! heap_child lt i h)"
    using less.prems heap_child_bound [of i h lt] by (intro less_iff) (simp_all add: list_all_length)
  show ?case
  proof (cases "2 * i + 1 < length h \<and> key (h ! i) < key (h ! heap_child lt i h)")
    case True
    then show ?thesis
      using less.prems less.hyps [of "heap_swap i (heap_child lt i h) h" "heap_child lt i h"] heap_below_swap [of i h] heap_child_bound [of i h lt]
        diff_less_mono2 [of i "heap_child lt i h" "length h"]
      by (subst heap_down.simps) (simp add: Let_def lt)
  next
    case False
    have "key (h ! c) \<le> key (h ! i)" if "c < length h" "0 < c" "heap_parent c = i" for c
    proof -
      have "c = 2 * i + 1 \<or> c = 2 * i + 2" using that(2,3) by (auto simp: heap_parent_def)
      then show ?thesis using that(1) False lt less.prems(3) by (auto simp: heap_child_def Let_def less_iff list_all_length split: if_splits)
    qed
    then have "is_heap h" using less.prems by (auto simp: is_heap_def heap_below_def)
    then show ?thesis using False by (subst heap_down.simps) (auto simp: Let_def lt)
  qed
qed

lemma heap_Push_heap: "is_heap h \<Longrightarrow> list_all ok (x # h) \<Longrightarrow> is_heap (heap_Push lt x h)"
  unfolding heap_Push_def
proof (rule heap_above_up)
  assume h: "is_heap h"
  have p: "0 < c \<Longrightarrow> heap_parent c < c" for c by (rule heap_parent_less)
  show "heap_above (length h) (h @ [x])"
    unfolding heap_above_def
  proof (intro allI impI conjI)
    fix c assume "c < length (h @ [x])" "0 < c" "c \<noteq> length h"
    then show "key ((h @ [x]) ! c) \<le> key ((h @ [x]) ! heap_parent c)" using h p [of c] by (simp add: is_heap_def nth_append)
  next
    fix c assume "c < length (h @ [x])" "0 < c" "heap_parent c = length h \<and> 0 < length h"
    then show "key ((h @ [x]) ! c) \<le> key ((h @ [x]) ! heap_parent (length h))" using p [of c] by simp
  qed
qed simp_all

text \<open>The root of a heap is replaced.\<close>

lemma heap_Fix_heap:
  assumes "is_heap h" "h \<noteq> []" "list_all ok (x # h)"
  shows "is_heap (heap_Fix lt 0 (h[0 := x]))"
proof -
  have "heap_below 0 (h[0 := x])" using assms by (auto simp: heap_below_def is_heap_def nth_list_update)
  then have "is_heap (fst (heap_down lt 0 (h[0 := x])))" using assms(2,3) by (intro heap_below_down) (auto simp: list_all_iff dest!: set_update_subset_insert [THEN subsetD])
  then show ?thesis
    by (cases "heap_down lt 0 (h[0 := x])") (simp add: heap_Fix_def heap_up.simps [of lt 0] heap_parent_def)
qed

end

end
