(* ===== verification/AccountRank.thy ===== *)
theory AccountRank
  imports BinaryHeap Account "HOL-Library.Word" "HOL-Library.Product_Lexorder"
begin

text \<open>
  How the scheduler of OpenAI accounts ranks candidates (\<open>service/openai_account_scheduler.go\<close>): the statistics it
  keeps of accounts, their scores, the best of them by a bounded heap, and a weighted random order.
\<close>

unbundle bit_operations_syntax

section \<open>Statistics\<close>

text \<open>The error rate and the time to the first token, \<open>NaN\<close> before the first sample.\<close>

record openAIAccountRuntimeStat =
  rs_errorRate :: float64
  rs_ttft :: float64

type_synonym runtime_stats = "int \<Rightarrow> openAIAccountRuntimeStat option"

definition loadOrCreate :: "int \<Rightarrow> runtime_stats \<Rightarrow> openAIAccountRuntimeStat" where
  "loadOrCreate i stats = option_or (stats i) \<lparr>rs_errorRate = 0, rs_ttft = NaN\<rparr>"

definition ewma_alpha :: float64 where
  "ewma_alpha = Fin (1 / 5)"

definition updateEWMA :: "float64 \<Rightarrow> float64 \<Rightarrow> float64" where
  "updateEWMA sample old = ewma_alpha * sample + (1 - ewma_alpha) * old"

definition report :: "int \<Rightarrow> bool \<Rightarrow> int option \<Rightarrow> runtime_stats \<Rightarrow> runtime_stats" where
  "report i success firstTokenMs stats =
     (if i \<le> 0 then stats
      else
        let stat = loadOrCreate i stats;
            rate = updateEWMA (if success then 0 else 1) (rs_errorRate stat);
            ttft = (case firstTokenMs of
              Some ms \<Rightarrow> if 0 < ms then (if rs_ttft stat = NaN then of_count ms else updateEWMA (of_count ms) (rs_ttft stat)) else rs_ttft stat
            | None \<Rightarrow> rs_ttft stat)
        in stats(i \<mapsto> \<lparr>rs_errorRate = rate, rs_ttft = ttft\<rparr>))"

definition clamp01 :: "float64 \<Rightarrow> float64" where
  "clamp01 v = (if v < 0 then 0 else if 1 < v then 1 else v)"

text \<open>The error rate, the time to the first token if there is a sample.\<close>

definition snapshot :: "int \<Rightarrow> runtime_stats \<Rightarrow> float64 \<times> float64 option" where
  "snapshot i stats =
     (if i \<le> 0 then (0, None)
      else case stats i of
        None \<Rightarrow> (0, None)
      | Some stat \<Rightarrow> (clamp01 (rs_errorRate stat), if rs_ttft stat = NaN then None else Some (rs_ttft stat)))"

section \<open>Scores\<close>

record AccountLoadInfo =
  li_LoadRate :: int
  li_WaitingCount :: int

record candidate =
  ca_account :: Account
  ca_load :: AccountLoadInfo
  ca_score :: float64
  ca_errorRate :: float64
  ca_ttft :: "float64 option"

record score_weights =
  sw_Priority :: float64
  sw_Load :: float64
  sw_Queue :: float64
  sw_ErrorRate :: float64
  sw_TTFT :: float64

text \<open>The quotient of finite numbers; a division by zero does not occur here.\<close>

definition float_div :: "float64 \<Rightarrow> float64 \<Rightarrow> float64" where
  "float_div x y = (case (x, y) of (Fin a, Fin b) \<Rightarrow> if b = 0 then NaN else Fin (a / b) | _ \<Rightarrow> NaN)"

definition lower_of :: "float64 \<Rightarrow> float64 \<Rightarrow> float64" where
  "lower_of x y = (if y < x then y else x)"

definition higher_of :: "float64 \<Rightarrow> float64 \<Rightarrow> float64" where
  "higher_of x y = (if x < y then y else x)"

text \<open>The least and the greatest time to the first token among the samples above zero.\<close>

fun ttft_range :: "candidate list \<Rightarrow> (float64 \<times> float64) option \<Rightarrow> (float64 \<times> float64) option" where
  "ttft_range [] r = r"
| "ttft_range (c # cs) r =
     ttft_range cs (case ca_ttft c of
       Some t \<Rightarrow> if 0 < t then (case r of None \<Rightarrow> Some (t, t) | Some (lo, hi) \<Rightarrow> Some (lower_of lo t, higher_of hi t)) else r
     | None \<Rightarrow> r)"

definition score_of :: "score_weights \<Rightarrow> int \<times> int \<Rightarrow> int \<Rightarrow> (float64 \<times> float64) option \<Rightarrow> candidate \<Rightarrow> float64" where
  "score_of w prio maxWaiting ttfts c =
     (let (lo, hi) = prio;
          priorityFactor = (if lo < hi then 1 - float_div (of_count (acc_Priority (ca_account c) - lo)) (of_count (hi - lo)) else 1);
          loadFactor = 1 - clamp01 (float_div (of_count (li_LoadRate (ca_load c))) (of_count 100));
          queueFactor = 1 - clamp01 (float_div (of_count (li_WaitingCount (ca_load c))) (of_count maxWaiting));
          errorFactor = 1 - clamp01 (ca_errorRate c);
          ttftFactor = (case (ca_ttft c, ttfts) of
            (Some t, Some (a, b)) \<Rightarrow> if a < b then 1 - clamp01 (float_div (t - a) (b - a)) else Fin (1 / 2)
          | _ \<Rightarrow> Fin (1 / 2))
      in sw_Priority w * priorityFactor + sw_Load w * loadFactor + sw_Queue w * queueFactor + sw_ErrorRate w * errorFactor +
         sw_TTFT w * ttftFactor)"

definition score_candidates :: "score_weights \<Rightarrow> candidate list \<Rightarrow> candidate list" where
  "score_candidates w cs =
     (case cs of
        [] \<Rightarrow> []
      | c # _ \<Rightarrow>
          let p = acc_Priority (ca_account c);
              prio = (foldl min p (map (\<lambda>c. acc_Priority (ca_account c)) cs), foldl max p (map (\<lambda>c. acc_Priority (ca_account c)) cs));
              maxWaiting = foldl max 1 (map (\<lambda>c. li_WaitingCount (ca_load c)) cs)
          in map (\<lambda>c. c\<lparr>ca_score := score_of w prio maxWaiting (ttft_range cs None) c\<rparr>) cs)"

section \<open>The best candidates\<close>

definition isOpenAIAccountCandidateBetter :: "candidate \<Rightarrow> candidate \<Rightarrow> bool" where
  "isOpenAIAccountCandidateBetter l r =
     (if ca_score l \<noteq> ca_score r \<or> ca_score l = NaN then ca_score r < ca_score l
      else if acc_Priority (ca_account l) \<noteq> acc_Priority (ca_account r) then acc_Priority (ca_account l) < acc_Priority (ca_account r)
      else if li_LoadRate (ca_load l) \<noteq> li_LoadRate (ca_load r) then li_LoadRate (ca_load l) < li_LoadRate (ca_load r)
      else if li_WaitingCount (ca_load l) \<noteq> li_WaitingCount (ca_load r) then li_WaitingCount (ca_load l) < li_WaitingCount (ca_load r)
      else acc_ID (ca_account l) < acc_ID (ca_account r))"

text \<open>The worst candidate is at the root of the heap.\<close>

definition candidate_Less :: "candidate \<Rightarrow> candidate \<Rightarrow> bool" where
  "candidate_Less x y = isOpenAIAccountCandidateBetter y x"

definition keep_best :: "nat \<Rightarrow> candidate \<Rightarrow> candidate list \<Rightarrow> candidate list" where
  "keep_best k c best =
     (if length best < k then heap_Push candidate_Less c best
      else if isOpenAIAccountCandidateBetter c (best ! 0) then heap_Fix candidate_Less 0 (best[0 := c])
      else best)"

text \<open>The order of scores other than \<open>NaN\<close> as a key; \<open>sort.Slice\<close> sorts by it.\<close>

definition score_key :: "float64 \<Rightarrow> int \<times> rat" where
  "score_key v = (case v of Fin r \<Rightarrow> (0, - r) | PInf \<Rightarrow> (- 1, 0) | NInf \<Rightarrow> (1, 0) | NaN \<Rightarrow> (2, 0))"

definition candidate_key :: "candidate \<Rightarrow> (int \<times> rat) \<times> int \<times> int \<times> int \<times> int" where
  "candidate_key c =
     (score_key (ca_score c), acc_Priority (ca_account c), li_LoadRate (ca_load c), li_WaitingCount (ca_load c), acc_ID (ca_account c))"

definition selectTopKOpenAICandidates :: "candidate list \<Rightarrow> int \<Rightarrow> candidate list" where
  "selectTopKOpenAICandidates cs topK =
     (let k = (if topK \<le> 0 then 1 else nat topK)
      in if cs = [] then []
         else if length cs \<le> k then sort_key candidate_key cs
         else sort_key candidate_key (fold (keep_best k) cs []))"

section \<open>The random order\<close>

type_synonym openAISelectionRNG = "64 word"

definition newOpenAISelectionRNG :: "64 word \<Rightarrow> openAISelectionRNG" where
  "newOpenAISelectionRNG seed = (if seed = 0 then 0x9e3779b97f4a7c15 else seed)"

definition nextUint64 :: "openAISelectionRNG \<Rightarrow> 64 word \<times> openAISelectionRNG" where
  "nextUint64 x0 =
     (let x1 = x0 XOR drop_bit 12 x0; x2 = x1 XOR push_bit 25 x1; x3 = x2 XOR drop_bit 27 x2
      in (x3 * 2685821657736338717, x3))"

definition nextFloat64 :: "openAISelectionRNG \<Rightarrow> float64 \<times> openAISelectionRNG" where
  "nextFloat64 x = (let (u, x') = nextUint64 x in (Fin (of_nat (unat (drop_bit 11 u)) / 2 ^ 53), x'))"

text \<open>The hash function FNV-1a of the standard library.\<close>

definition fnv64a :: "string \<Rightarrow> 64 word" where
  "fnv64a s = foldl (\<lambda>h c. (h XOR word_of_nat (of_char c)) * 1099511628211) 14695981039346656037 s"

definition seed_part :: "string \<Rightarrow> string" where
  "seed_part v = (if TrimSpace v = '''' then '''' else TrimSpace v @ [CHR 0x00])"

record OpenAIAccountScheduleRequest =
  sq_GroupID :: "int option"
  sq_SessionHash :: string
  sq_StickyAccountID :: int
  sq_PreviousResponseID :: string
  sq_RequestedModel :: string
  sq_RequiredTransport :: OpenAIUpstreamTransport
  sq_RequiredImageCapability :: string
  sq_RequireCompact :: bool
  sq_ExcludedIDs :: "int list"

definition deriveOpenAISelectionSeed :: "(nat \<Rightarrow> instant) \<Rightarrow> OpenAIAccountScheduleRequest \<Rightarrow> 64 word" where
  "deriveOpenAISelectionSeed clk q =
     (let h = fnv64a (seed_part (sq_SessionHash q) @ seed_part (sq_PreviousResponseID q) @ seed_part (sq_RequestedModel q) @
                (case sq_GroupID q of None \<Rightarrow> '''' | Some g \<Rightarrow> itoa g));
          seed = (if TrimSpace (sq_SessionHash q) = '''' \<and> TrimSpace (sq_PreviousResponseID q) = '''' then h XOR word_of_int (clk 0) else h)
      in if seed = 0 then word_of_int (clk 1) XOR 0x9e3779b97f4a7c15 else seed)"

definition selection_weight :: "float64 \<Rightarrow> candidate \<Rightarrow> float64" where
  "selection_weight minScore c =
     (let w = (ca_score c - minScore) + 1
      in case w of Fin r \<Rightarrow> if r \<le> 0 then 1 else w | _ \<Rightarrow> 1)"

text \<open>The first index where the sum of the weights reaches \<open>r\<close>, 0 if none does.\<close>

fun pick_index :: "float64 \<Rightarrow> float64 \<Rightarrow> nat \<Rightarrow> float64 list \<Rightarrow> nat" where
  "pick_index r acc i [] = 0"
| "pick_index r acc i (w # ws) = (if r \<le> acc + w then i else pick_index r (acc + w) (i + 1) ws)"

definition select_index :: "float64 list \<Rightarrow> openAISelectionRNG \<Rightarrow> nat \<times> openAISelectionRNG" where
  "select_index ws rng =
     (let total = foldl (+) 0 ws
      in if 0 < total then let (x, rng') = nextFloat64 rng in (pick_index (x * total) 0 0 ws, rng')
         else let (u, rng') = nextUint64 rng in (unat u mod length ws, rng'))"

definition remove_nth :: "nat \<Rightarrow> 'a list \<Rightarrow> 'a list" where
  "remove_nth i xs = take i xs @ drop (i + 1) xs"

text \<open>The loop that empties the pool; not to return is \<open>None\<close>.\<close>

partial_function (option) selection_loop :: "candidate list \<Rightarrow> float64 list \<Rightarrow> openAISelectionRNG \<Rightarrow> candidate list \<Rightarrow> candidate list option" where
  "selection_loop pool ws rng order =
     (if pool = [] then Some order
      else case select_index ws rng of (i, rng') \<Rightarrow> selection_loop (remove_nth i pool) (remove_nth i ws) rng' (order @ [pool ! i]))"

definition buildOpenAIWeightedSelectionOrder :: "(nat \<Rightarrow> instant) \<Rightarrow> OpenAIAccountScheduleRequest \<Rightarrow> candidate list \<Rightarrow> candidate list option" where
  "buildOpenAIWeightedSelectionOrder clk q cs =
     (case cs of
        [] \<Rightarrow> Some []
      | [c] \<Rightarrow> Some [c]
      | c # _ \<Rightarrow>
          let minScore = foldl lower_of (ca_score c) (map ca_score cs)
          in selection_loop cs (map (selection_weight minScore) cs) (newOpenAISelectionRNG (deriveOpenAISelectionSeed clk q)) [])"

section \<open>The heap of the best\<close>

definition scored :: "candidate \<Rightarrow> bool" where
  "scored c \<longleftrightarrow> ca_score c \<noteq> NaN"

lemma score_key_less: "v \<noteq> NaN \<Longrightarrow> w \<noteq> NaN \<Longrightarrow> score_key v < score_key w \<longleftrightarrow> w < v"
  by (cases v; cases w) (simp_all add: score_key_def less_float64_def)

lemma score_key_eq: "v \<noteq> NaN \<Longrightarrow> w \<noteq> NaN \<Longrightarrow> score_key v = score_key w \<longleftrightarrow> v = w"
  by (cases v; cases w) (simp_all add: score_key_def)

lemma pair_less: "(a, b) < (c, d) \<longleftrightarrow> (if a \<noteq> c then a < c else b < d)" for a c :: "'a :: linorder" and b d :: "'b :: linorder"
  by auto

lemma better_key: "scored c \<Longrightarrow> scored d \<Longrightarrow> isOpenAIAccountCandidateBetter c d \<longleftrightarrow> candidate_key c < candidate_key d"
  unfolding scored_def isOpenAIAccountCandidateBetter_def candidate_key_def
  by (simp only: score_key_less [symmetric] score_key_eq [symmetric] pair_less not_False_eq_True simp_thms)

interpretation ranked: keyed_heap candidate_Less candidate_key scored
  by unfold_locales (simp add: candidate_Less_def better_key)

text \<open>
  After some candidates the heap holds as many as it may, and the others are no better than any of it.
\<close>

definition best_of :: "nat \<Rightarrow> candidate list \<Rightarrow> candidate list \<Rightarrow> candidate list \<Rightarrow> bool" where
  "best_of k seen best rest \<longleftrightarrow>
     mset seen = mset best + mset rest \<and> ranked.is_heap best \<and> length best \<le> k \<and> (length best < k \<longrightarrow> rest = []) \<and>
     (\<forall>x \<in> set best. \<forall>y \<in> set rest. candidate_key x \<le> candidate_key y)"

lemma keep_best_keeps:
  assumes inv: "best_of k seen best rest" and ok: "list_all scored (c # seen)" and k: "0 < k"
  shows "\<exists>rest'. best_of k (c # seen) (keep_best k c best) rest'"
proof -
  note h = inv [unfolded best_of_def]
  have "set best \<subseteq> set seen" using h by (metis mset_eq_setD set_mset_mset set_mset_union Un_upper1)
  then have okb: "list_all scored (c # best)" using ok by (auto simp: list_all_iff)
  consider (room) "length best < k" | (better) "length best = k" "isOpenAIAccountCandidateBetter c (best ! 0)"
    | (worse) "length best = k" "\<not> isOpenAIAccountCandidateBetter c (best ! 0)" using h by linarith
  then show ?thesis
  proof cases
    case room
    then have "best_of k (c # seen) (keep_best k c best) []"
      using h ranked.heap_Push_heap okb by (simp add: best_of_def keep_best_def)
    then show ?thesis by blast
  next
    case better
    then have ne: "best \<noteq> []" using k by auto
    then obtain b bs where b: "best = b # bs" by (cases best) auto
    have "candidate_key c < candidate_key b" using better okb by (simp add: b better_key)
    moreover have "\<forall>x \<in> set best. candidate_key x \<le> candidate_key b" using ranked.is_heap_hd h unfolding b by blast
    moreover have "mset (keep_best k c best) = add_mset c (mset bs)" using better by (simp add: keep_best_def b)
    moreover from this have "set (keep_best k c best) = insert c (set bs)" "length (keep_best k c best) = length best"
      by (metis set_mset_mset set_mset_add_mset_insert, metis b length_Cons size_mset size_add_mset)
    moreover have "ranked.is_heap (keep_best k c best)" using better h okb ne by (simp add: keep_best_def ranked.heap_Fix_heap)
    ultimately have "best_of k (c # seen) (keep_best k c best) (b # rest)" using h better(1) by (auto simp: best_of_def b)
    then show ?thesis by blast
  next
    case worse
    then obtain b bs where b: "best = b # bs" using k by (cases best) auto
    have "candidate_key b \<le> candidate_key c" using worse okb by (simp add: b better_key)
    moreover have "\<forall>x \<in> set best. candidate_key x \<le> candidate_key b" using ranked.is_heap_hd h unfolding b by blast
    ultimately have "best_of k (c # seen) (keep_best k c best) (c # rest)" using h worse by (auto simp: best_of_def keep_best_def b)
    then show ?thesis by blast
  qed
qed

lemma fold_keep_best:
  "best_of k seen best rest \<Longrightarrow> list_all scored (cs @ seen) \<Longrightarrow> 0 < k \<Longrightarrow> \<exists>seen' rest'. mset seen' = mset (cs @ seen) \<and> best_of k seen' (fold (keep_best k) cs best) rest'"
proof (induction cs arbitrary: seen best rest)
  case (Cons c cs)
  obtain rest' where r: "best_of k (c # seen) (keep_best k c best) rest'" using keep_best_keeps [OF Cons.prems(1), of c] Cons.prems(2,3) by auto
  show ?case using Cons.IH [OF r] Cons.prems(2,3) by auto
qed auto

lemma candidate_key_inj: "distinct (map (acc_ID \<circ> ca_account) cs) \<Longrightarrow> inj_on candidate_key (set cs)"
  by (auto simp: inj_on_def candidate_key_def distinct_map)

lemma best_sorted:
  assumes "best_of k seen best rest" "mset seen = mset cs" "inj_on candidate_key (set cs)" "k < length cs"
  shows "sort_key candidate_key best = take k (sort_key candidate_key cs)"
proof -
  note h = assms(1) [unfolded best_of_def]
  have m: "mset cs = mset (best @ rest)" using h assms(2) by simp
  have len: "length best = k"
  proof (rule ccontr)
    assume "length best \<noteq> k"
    then show False using h mset_eq_length [OF m] assms(4) by auto
  qed
  have "sort_key candidate_key cs = sort_key candidate_key best @ sort_key candidate_key rest"
    using h m assms(3) by (intro sort_key_inj_key_eq) (auto simp: sorted_append)
  then show ?thesis using len by simp
qed

text \<open>C37. The bounded heap finds the best: of candidates with scores and accounts that differ, the candidates that the scheduler
  tries are the first \<open>k\<close> of all sorted by score, priority, load, queue and ID.\<close>

theorem top_candidates:
  assumes "list_all scored cs" "distinct (map (acc_ID \<circ> ca_account) cs)"
  shows "selectTopKOpenAICandidates cs k = take (if k \<le> 0 then 1 else nat k) (sort_key candidate_key cs)"
proof -
  let ?k = "if k \<le> 0 then 1 else nat k"
  have "best_of ?k [] [] []" by (simp add: best_of_def ranked.is_heap_def)
  then obtain seen rest where b: "mset seen = mset cs" "best_of ?k seen (fold (keep_best ?k) cs []) rest"
    using fold_keep_best [of ?k "[]" "[]" "[]" cs] assms(1) by (auto split: if_splits)
  show ?thesis
    using best_sorted [OF b(2,1) candidate_key_inj [OF assms(2)]] unfolding selectTopKOpenAICandidates_def Let_def by (cases "length cs \<le> ?k") auto
qed

definition sample_openai :: "int \<Rightarrow> int \<Rightarrow> Account" where
  "sample_openai i priority = \<lparr>acc_ID = i, acc_Platform = PlatformOpenAI, acc_Type = AccountTypeOAuth, acc_Credentials = [], acc_Extra = [],
     acc_OwnerUserID = None, acc_ShareMode = '''', acc_ShareStatus = '''', acc_SharePolicyID = None, acc_Concurrency = 3, acc_Priority = priority,
     acc_RateMultiplier = None, acc_LoadFactor = None, acc_Status = StatusActive, acc_LastUsedAt = None, acc_ExpiresAt = None,
     acc_AutoPauseOnExpired = False, acc_Schedulable = True, acc_RateLimitResetAt = None, acc_OverloadUntil = None,
     acc_TempUnschedulableUntil = None, acc_SessionWindowStart = None, acc_SessionWindowEnd = None\<rparr>"

definition sample_candidate :: "int \<Rightarrow> int \<Rightarrow> rat \<Rightarrow> candidate" where
  "sample_candidate i priority score =
     \<lparr>ca_account = sample_openai i priority, ca_load = \<lparr>li_LoadRate = 10, li_WaitingCount = 0\<rparr>, ca_score = Fin score, ca_errorRate = 0, ca_ttft = None\<rparr>"

theorem top_candidates_witness:
  "map (\<lambda>c. acc_ID (ca_account c))
     (selectTopKOpenAICandidates [sample_candidate 1 5 2, sample_candidate 2 5 3, sample_candidate 3 1 2, sample_candidate 4 1 1] 2) = [2, 3]"
  by (subst top_candidates)
    (simp_all add: scored_def sample_candidate_def sample_openai_def candidate_key_def score_key_def)

section \<open>The weighted order\<close>

lemma remove_nth_mset: "i < length xs \<Longrightarrow> mset xs = add_mset (xs ! i) (mset (remove_nth i xs)) \<and> length (remove_nth i xs) = length xs - 1"
  by (subst id_take_nth_drop [of i xs]) (simp_all add: remove_nth_def)

lemma pick_index_bound: "pick_index r acc i ws = 0 \<or> pick_index r acc i ws < i + length ws"
proof (induction ws arbitrary: acc i)
  case (Cons w ws)
  then show ?case using Cons.IH [of "acc + w" "i + 1"] by auto
qed simp

lemma select_index_bound:
  assumes "ws \<noteq> []"
  shows "fst (select_index ws rng) < length ws"
  using assms pick_index_bound [of _ 0 0 ws] by (auto simp: select_index_def Let_def split: prod.split) (metis add_0 length_greater_0_conv)

lemma selection_loop_total:
  "length ws = length pool \<Longrightarrow> \<exists>out. selection_loop pool ws rng acc = Some out \<and> mset out = mset acc + mset pool"
proof (induction "length pool" arbitrary: pool ws rng acc)
  case 0
  then show ?case by (subst selection_loop.simps) simp
next
  case (Suc n)
  obtain i rng' where s: "select_index ws rng = (i, rng')" by fastforce
  have "ws \<noteq> []" using Suc by (metis length_0_conv nat.distinct(1))
  then have i: "i < length pool" using select_index_bound [of ws rng] Suc s by auto
  have "n = length (remove_nth i pool)" "length (remove_nth i ws) = length (remove_nth i pool)"
    using remove_nth_mset [of i pool] remove_nth_mset [of i ws] i Suc by auto
  then obtain out where "selection_loop (remove_nth i pool) (remove_nth i ws) rng' (acc @ [pool ! i]) = Some out"
      "mset out = mset (acc @ [pool ! i]) + mset (remove_nth i pool)"
    using Suc.hyps(1) by blast
  then show ?case using s Suc.hyps(2) remove_nth_mset [OF i] by (subst selection_loop.simps) auto
qed

text \<open>C38. The weighted order of the candidates always ends: for every request, seed and every clock and all scores (\<open>NaN\<close>
  and infinities too) it returns a list with each of the candidates exactly as often as it was given.\<close>

theorem selection_order_complete:
  "\<exists>out. buildOpenAIWeightedSelectionOrder clk q cs = Some out \<and> mset out = mset cs"
  using selection_loop_total [of "map f cs" cs r "[]" for f r]
  by (cases cs; cases "tl cs") (auto simp: buildOpenAIWeightedSelectionOrder_def Let_def)

section \<open>The generator\<close>

lemma shift_right_fixed:
  fixes x :: "64 word"
  assumes "x = drop_bit n x" "0 < n"
  shows "x = 0"
proof -
  have "x = drop_bit (n * k) x" for k
  proof (induction k)
    case (Suc k)
    have "x = drop_bit n (drop_bit (n * k) x)" using Suc assms(1) by metis
    then show ?case by simp
  qed simp
  moreover have "drop_bit (n * 64) x = 0" using assms(2) by (intro drop_bit_word_beyond) simp
  ultimately show ?thesis by metis
qed

lemma shift_left_fixed:
  fixes x :: "64 word"
  assumes "x = push_bit n x" "0 < n"
  shows "x = 0"
proof -
  have "x = push_bit (n * k) x" for k
  proof (induction k)
    case (Suc k)
    have "x = push_bit n (push_bit (n * k) x)" using Suc assms(1) by metis
    then show ?case by simp
  qed simp
  moreover have "push_bit (n * 64) x = 0" using assms(2) by (intro push_bit_word_beyond) simp
  ultimately show ?thesis by metis
qed

lemma xor_zero: "x XOR y = 0 \<longleftrightarrow> x = y" for x y :: "64 word"
proof
  assume "x XOR y = 0"
  moreover have "x XOR (x XOR y) = y" by (simp flip: xor.assoc)
  ultimately show "x = y" by simp
qed simp

lemma nextUint64_nonzero: "x \<noteq> 0 \<Longrightarrow> snd (nextUint64 x) \<noteq> 0"
  using shift_right_fixed [of x 12] shift_left_fixed [of "x XOR drop_bit 12 x" 25] shift_right_fixed [of _ 27]
  unfolding nextUint64_def Let_def snd_conv xor_zero by (metis xor_zero zero_less_numeral)

definition draw :: "openAISelectionRNG \<times> float64 list \<Rightarrow> openAISelectionRNG \<times> float64 list" where
  "draw p = (let (v, x) = nextFloat64 (fst p) in (x, snd p @ [v]))"

lemma nextFloat64_unit: "0 \<le> fst (nextFloat64 x) \<and> fst (nextFloat64 x) < 1"
proof -
  have "unat (drop_bit 11 u) < 2 ^ 53" for u :: "64 word"
  proof -
    have "unat u < 2 ^ 64" using unsigned_less [of u, where ?'a = nat] by simp
    then show ?thesis by (simp add: drop_bit_eq_div unat_div less_mult_imp_div_less)
  qed
  then have "(of_nat (unat (drop_bit 11 u)) :: rat) < 2 ^ 53" for u :: "64 word" by (metis of_nat_less_iff of_nat_numeral of_nat_power)
  moreover have "0 \<le> (unsigned u :: rat)" for u :: "64 word" by (metis of_nat_0_le_iff of_nat_unat)
  ultimately show ?thesis by (simp add: nextFloat64_def Fin_zero Fin_one split: prod.split)
qed

lemma draw_keeps:
  assumes "fst p \<noteq> 0" "list_all (\<lambda>v. 0 \<le> v \<and> v < 1) (snd p)"
  shows "fst (draw p) \<noteq> 0 \<and> list_all (\<lambda>v. 0 \<le> v \<and> v < 1) (snd (draw p)) \<and> length (snd (draw p)) = Suc (length (snd p))"
  using assms nextUint64_nonzero [of "fst p"] nextFloat64_unit [of "fst p"] by (simp add: draw_def nextFloat64_def split: prod.split_asm prod.split)

text \<open>C39. The generator never sticks: from every seed (0 too) and after any number of draws its state is not 0, the one
  state that xorshift never leaves, and every number drawn is at least 0 and below 1.\<close>

theorem generator_sound:
  "case (draw ^^ n) (newOpenAISelectionRNG seed, []) of (x, vs) \<Rightarrow> x \<noteq> 0 \<and> length vs = n \<and> list_all (\<lambda>v. 0 \<le> v \<and> v < 1) vs"
proof (induction n)
  case (Suc n)
  then show ?case using draw_keeps [of "(draw ^^ n) (newOpenAISelectionRNG seed, [])"] by (simp add: case_prod_unfold)
qed (simp add: newOpenAISelectionRNG_def)

section \<open>The error rate\<close>

text \<open>A report: the account, whether the request succeeded, the time to the first token. The samples of one account among
  them, and their average with a weight that falls by a fifth with each later sample.\<close>

type_synonym outcome = "int \<times> bool \<times> int option"

definition observe :: "outcome list \<Rightarrow> runtime_stats" where
  "observe evs = foldl (\<lambda>stats (i, success, ms). report i success ms stats) Map.empty evs"

definition samples_of :: "int \<Rightarrow> outcome list \<Rightarrow> rat list" where
  "samples_of i evs = map (\<lambda>(_, success, _). if success then 0 else 1) (filter (\<lambda>(j, _). j = i) evs)"

definition weighted_average :: "rat list \<Rightarrow> rat" where
  "weighted_average ss = (\<Sum>j < length ss. ss ! j * (4 / 5) ^ (length ss - Suc j)) / 5"

lemma weighted_average_snoc: "weighted_average (ss @ [s]) = s / 5 + 4 / 5 * weighted_average ss"
proof -
  have "(\<Sum>j < length ss. ss ! j * (4 / 5 :: rat) ^ (length ss - j)) = (\<Sum>j < length ss. 4 / 5 * (ss ! j * (4 / 5) ^ (length ss - Suc j)))"
    by (intro sum.cong refl) (simp add: Suc_diff_Suc [symmetric])
  then show ?thesis by (simp add: weighted_average_def nth_append sum_distrib_left add_divide_distrib)
qed

lemma updateEWMA_Fin: "updateEWMA (Fin s) (Fin v) = Fin (s / 5 + 4 / 5 * v)"
  by (simp add: updateEWMA_def ewma_alpha_def Fin_one)

lemma report_rate: "0 < i \<Longrightarrow> rs_errorRate (loadOrCreate i (report i success ms stats)) =
    updateEWMA (if success then 0 else 1) (rs_errorRate (loadOrCreate i stats)) \<and> report i success ms stats i \<noteq> None"
  by (simp add: report_def Let_def loadOrCreate_def)

lemma observe_rate: "0 < i \<Longrightarrow> rs_errorRate (loadOrCreate i (observe evs)) = Fin (weighted_average (samples_of i evs)) \<and>
    (observe evs i = None \<longrightarrow> samples_of i evs = [])"
proof (induction evs rule: rev_induct)
  case Nil
  then show ?case by (simp add: observe_def samples_of_def weighted_average_def loadOrCreate_def Fin_zero)
next
  case (snoc e evs)
  obtain j success ms where e: "e = (j, success, ms)" by (cases e)
  have step: "observe (evs @ [e]) = report j success ms (observe evs)" by (simp add: observe_def e)
  show ?case
  proof (cases "j = i")
    case True
    then have "samples_of i (evs @ [e]) = samples_of i evs @ [if success then 0 else 1]" by (simp add: samples_of_def e)
    then show ?thesis
      using snoc True report_rate [of i success ms "observe evs"] by (auto simp: step weighted_average_snoc updateEWMA_Fin Fin_zero Fin_one)
  next
    case False
    then have "samples_of i (evs @ [e]) = samples_of i evs" "observe (evs @ [e]) i = observe evs i"
      by (simp_all add: samples_of_def step report_def Let_def) (simp add: e)
    then show ?thesis using snoc by (simp add: loadOrCreate_def)
  qed
qed

lemma weighted_average_unit: "\<forall>s \<in> set ss. 0 \<le> s \<and> s \<le> 1 \<Longrightarrow> 0 \<le> weighted_average ss \<and> weighted_average ss < 1"
proof (induction ss rule: rev_induct)
  case (snoc s ss)
  then have "0 \<le> s" "s \<le> 1" "0 \<le> weighted_average ss" "weighted_average ss < 1" by auto
  then show ?case by (simp add: weighted_average_snoc)
qed (simp add: weighted_average_def)

lemma weighted_average_samples: "0 \<le> weighted_average (samples_of i evs) \<and> weighted_average (samples_of i evs) < 1"
  by (rule weighted_average_unit) (auto simp: samples_of_def)

text \<open>C40. The error rate of an account after any reports, those of other accounts interleaved as they like, is the weighted
  average of its own outcomes alone; it is at least 0 and below 1, so that the clamp never changes it, and it is 0 without a report.\<close>

theorem error_rate_is_average:
  assumes "0 < i"
  shows "fst (snapshot i (observe evs)) = Fin (weighted_average (samples_of i evs)) \<and>
    0 \<le> weighted_average (samples_of i evs) \<and> weighted_average (samples_of i evs) < 1"
  using observe_rate [OF assms, of evs] weighted_average_samples [of i evs] assms
  by (cases "observe evs i") (auto simp: snapshot_def loadOrCreate_def clamp01_def Fin_zero Fin_one weighted_average_def)

theorem error_rate_is_average_witness:
  "fst (snapshot 7 (observe [(7, False, None), (8, True, Some 3), (7, True, Some 120), (7, False, None)])) =
   Fin (weighted_average (samples_of 7 [(7, False, None), (8, True, Some 3), (7, True, Some 120), (7, False, None)]))"
  using error_rate_is_average [of 7] by simp

end
