(* ===== verification/Spec2Isabelle.thy ===== *)
theory Spec2Isabelle
  imports Billing SystemLock IdempotencyRace AnthropicStream PaymentCredit RecordUsage AccountRank
begin

text \<open>
  A verification library for the gateway of this repository: how it prices requests, how it
  makes write operations idempotent, how it locks system operations, and how it converts the
  streams of one provider protocol into another. The Go sources are under
  \<open>backend/internal\<close>; paths below are relative to it.

  \<^bold>\<open>The parts and how they interact.\<close> An administrator describes channels (price entries with
  intervals, model mappings, restrictions); the channel service validates them and serves
  lookups from a cache that it rebuilds from its repository. A request is priced by the resolver,
  which takes a base price from the billing service (a dynamic price list, else a built-in
  table) and overrides it by the channel's entry; the billing service computes the cost.
  Write operations of the API go through the idempotency coordinator, which claims a record in
  a table before it executes; the lock of system operations is a second client of that table.
  Users hold subscriptions to groups, granted by administrators, redeem codes and payments; a
  request of a subscriber is checked against the limits of the usage windows, which background
  maintenance resets. A message request to a Responses-API upstream is answered in the Anthropic protocol by a
  stateful converter.

  \<^bold>\<open>Theories.\<close>
  \<^item> \<open>GoPrelude\<close>: float64, strings, instants, storage faults, shared lemmas and hint collections.
  \<^item> \<open>Channel\<close> (\<open>service/channel.go\<close>): channels, price intervals and their validation, the price
    index, supported models.
  \<^item> \<open>ChannelCache\<close> (\<open>service/channel_service.go\<close>): validation of channel configurations, the cache
    with its expiry and error back-off, lookups, mapping, restriction. The locale
    \<open>channel_price_source\<close> is the interface the resolver uses; \<open>prices\<close> interprets it.
  \<^item> \<open>Pricing\<close> (\<open>service/billing_service.go\<close>, \<open>model_pricing_resolver.go\<close>, parts of
    \<open>openai_codex_transform.go\<close>): the built-in prices as records in a heap, so that the sharing of
    records between models is visible, and the resolver.
  \<^item> \<open>Billing\<close> (\<open>service/billing_service.go\<close>): token, request, image and long-context costs.
  \<^item> \<open>IdempotencyStore\<close> (\<open>service/idempotency.go\<close>, \<open>repository/idempotency_repo.go\<close>,
    \<open>service/idempotency_cleanup_service.go\<close>): the repository interface as a record of operations, its
    SQL implementation over a table with storage faults, the clean-up. The locale
    \<open>idempotency_repository\<close> states the laws both clients use; \<open>store\<close> interprets it.
  \<^item> \<open>Idempotency\<close> (\<open>service/idempotency.go\<close>): the coordinator's \<open>Execute\<close> with every branch.
  \<^item> \<open>IdempotencyRace\<close>: \<open>Execute\<close> as a machine of repository calls and the interleavings of any
    number of requests as a step relation.
  \<^item> \<open>SystemLock\<close> (\<open>service/system_operation_lock_service.go\<close>): acquire, renew, release.
  \<^item> \<open>AnthropicStream\<close> (\<open>pkg/apicompat/responses_to_anthropic.go\<close>, \<open>types.go\<close>): conversion of a whole
    response and of a stream.
  \<^item> \<open>Subscription\<close> (\<open>service/user_subscription.go\<close>, \<open>subscription_service.go\<close>,
    \<open>subscription_expiry_service.go\<close>, \<open>repository/user_subscription_repo.go\<close>): subscriptions, their
    usage windows and limits, the service with its cache, over a table with storage faults.
  \<^item> \<open>Redeem\<close> (\<open>service/redeem_code.go\<close>, \<open>redeem_service.go\<close>, \<open>repository/redeem_code_repo.go\<close>,
    \<open>user_repo.go\<close>, \<open>redeem_cache.go\<close>): users, redeem codes, the redemption in its transaction.
  \<^item> \<open>Affiliate\<close> (\<open>service/affiliate_service.go\<close>, \<open>setting_service.go\<close>,
    \<open>repository/affiliate_repo.go\<close>): the rebates of inviters, their freezing, thawing and transfer.
  \<^item> \<open>PaymentMethods\<close> (\<open>payment/load_balancer.go\<close>, \<open>types.go\<close>, \<open>fee.go\<close>, \<open>service/payment_config_limits.go\<close>,
    \<open>payment_visible_method_instances.go\<close>, \<open>payment_amounts.go\<close>): the instances of payment providers, the
    choice among them, their limits, and the arithmetic of amounts.
  \<^item> \<open>Payment\<close> (\<open>service/payment_fulfillment.go\<close>, \<open>payment_order_lifecycle.go\<close>,
    \<open>payment_order_provider_snapshot.go\<close>, \<open>payment_webhook_provider.go\<close>, \<open>payment_service.go\<close>): orders, their
    database, notifications, fulfilment, retry, cancellation, expiry, and the registry of providers.
  \<^item> \<open>PaymentRefund\<close> (\<open>service/payment_refund.go\<close>), \<open>PaymentCreate\<close> (\<open>service/payment_order.go\<close>): refunds and
    the creation of orders.
  \<^item> \<open>PaymentFrames\<close>: locales for what operations leave unchanged, with one lemma for each operation;
    \<open>PaymentFlow\<close> interprets them and states the properties over sequences of operations as a step relation;
    \<open>PaymentCredit\<close> follows the accounts and redeem codes through the attempts to fulfil one order.
  \<^item> \<open>GoText\<close>: numbers, dates and times as texts, and the dynamic values of decoded documents.
  \<^item> \<open>Account\<close> (\<open>service/account.go\<close>, \<open>model_rate_limit.go\<close>, \<open>openai_ws_protocol_resolver.go\<close>): upstream accounts,
    what their settings mean, when they can be scheduled, how they map models.
  \<^item> \<open>QuotaPeriods\<close>: fixed resets as slots of time. \<open>AccountQuota\<close> (\<open>repository/account_repo.go\<close>,
    \<open>service/admin_service.go\<close>): the statement that counts the use of an account, resets, saved settings.
  \<^item> \<open>UsageBilling\<close> (\<open>service/usage_billing.go\<close>, \<open>repository/usage_billing_repo.go\<close>,
    \<open>repository/dashboard_aggregation_repo.go\<close>): the transaction that bills a request, its archive of claims.
    The locale \<open>billing_frame\<close> states what statements and transactions leave unchanged. \<open>UsageBilled\<close>: the
    properties over sequences of deliveries.
  \<^item> \<open>RecordUsage\<close> (\<open>service/gateway_service.go\<close>, \<open>openai_gateway_service.go\<close>, \<open>account_stats_pricing.go\<close>):
    what both gateways do after a request was forwarded: its price by \<open>Billing\<close>, its log, and its billing by
    \<open>UsageBilling\<close>.
  \<^item> \<open>BinaryHeap\<close>: the heap operations of Go's library; the locale \<open>keyed_heap\<close> states their laws for an order by a key.
    \<open>AccountRank\<close> (\<open>service/openai_account_scheduler.go\<close>): the statistics of accounts, their scores, the best
    candidates (\<open>ranked\<close> interprets \<open>keyed_heap\<close>) and the weighted random order.

  \<^bold>\<open>Correspondence.\<close> A struct is a record, a pointer an option, an error an element of a sum or
  \<open>None\<close>. A method takes and returns the state it uses: the channel service with its cache and
  repository answers, the heap of price records with the table of their addresses, the table of
  idempotency records with the schedule of its faults, the state of the converter. A Go map that
  is iterated is an association list (so every order of iteration is covered), one that is only
  looked up is a HOL map. Several readings of the clock in one call are \<open>clk 0\<close>, \<open>clk 1\<close>, and so on.

  \<^bold>\<open>What the lemmas show.\<close> Channels: a validated interval list is well formed and matches a count at
  most once; the supported models are sorted, distinct and complete. Cache: lookups refine the
  abstract reading of the configuration, do not depend on the order of iteration, and a failed
  load backs off. Pricing: which prices an override changes, and that without a dynamic price it
  changes the shared built-in record. Billing: costs are not negative, monotone, split correctly.
  Idempotency: replay, conflict, back-off, blocking; mutual exclusion in every interleaving by an
  invariant over the reachable states, and a reachable state with a repeated execution. Lock:
  exclusion of others while renewed, loss of a lock that took over a record. Streams: numbering
  and nesting of blocks, framing of messages, preservation of text, agreement with the whole
  conversion for upstream streams in the documented order (\<open>item_stream\<close>), and reasoning items outside of it where
  the two conversions differ. Subscriptions: an
  assignment is all or nothing under every pattern of faults and grants the days it should when
  storage works; which requests the limits let through; what a reset of windows changes; and two
  races on stale copies that lose usage or days. Redeem codes: a code is redeemed completely or
  not at all, and once; the extension of a subscription escapes the transaction. Rebates: in
  every reachable state the accounts agree with the ledger and the balances; the cap holds.
  Payments: which instance is chosen and that the shown limits cover the enforced ones; an order
  that is being worked on or was refunded keeps its status under every sequence of operations, and
  no provider pays back again for an order after it has confirmed a refund of it, while a refund whose answer was lost
  can be paid twice (\<open>refund_outcome\<close>); a paid order credits its user once, over any number
  of attempts and faults, a retry with working storage does credit it if the cache of redemptions lets its user
  redeem and the affiliate records exist, and a failed rollback of a
  refund is not made up for. Accounts: the check of quotas agrees with the amounts used since the last
  reset in zones with a constant offset; saving the settings at the wrong moment breaks this; how models are mapped. Billing of requests: at
  most once over any deliveries, faults and moves to the archive; the shares of a charge add up; a charge is
  taken and recorded under the conditions of \<open>charge_applied\<close>; an exhausted quota is announced; recording a request takes
  the computed cost from its user and nothing from anybody else, and only the owner of the account gains, at most the
  cost; prices of channels for sizes of images are not used by one gateway. Ranking of accounts: the bounded heap finds
  the best candidates, the random order ends and loses none, the generator never sticks, the error rate is an average.

  \<^bold>\<open>Bounds and fuel.\<close> All recursion is structural, on the lists of events, intervals and entries;
  \<open>run_pc\<close> counts calls, and five are enough for a claim (\<open>claim_key_machine\<close>). Token counts and
  identifiers are mathematical integers: the sources use 64-bit integers far from their bounds.
  Finite float64 arithmetic is exact.

  \<^bold>\<open>Parameters.\<close> Code that is not in the repository: SHA-256, JSON encoding and decoding of arbitrary
  data, the redaction of stored responses, the third-party price list, the answers of the
  channel repository, the data base of time zones, the answers of payment providers.

  \<^bold>\<open>Not modelled.\<close> Network calls to providers, HTTP handlers, Redis scripts, generated database code,
  authentication, monitoring and administration; metrics, logs and cache invalidation
  messages. Of payments: the clients of providers, the detour over the authorization of WeChat,
  signed resume tokens, listing and statistics. The rest of the selection of accounts is the next extension.
\<close>

end
